(* ===== verification/Prelude.thy ===== *)
theory Prelude
  imports "HOL-Library.Word" "HOL-Library.Monad_Syntax"
begin

text \<open>
  Generic material the components share: collections of facts, and lemmas about options.
\<close>

named_theorems expr_ops \<open>definitions of the operations on expressions\<close>
named_theorems store_simps \<open>reading and writing fields of the configuration state\<close>

lemma bind_eq_Some_conv' [simp]:
  "Option.bind x f = Some y \<longleftrightarrow> (\<exists>a. x = Some a \<and> f a = Some y)"
  by (cases x) auto

end
