(* ===== verification/Kconfig_Data.thy ===== *)
theory Kconfig_Data
  imports Prelude
begin

text \<open>
  The data model of the configuration engine, from \<^verbatim>\<open>build-tools/kconfig/expr.h\<close>: the
  three-valued logic, the expression nodes, symbols, properties and menu entries.

  Pointers.  The four static symbols of \<^verbatim>\<open>symbol.c\<close> are constructors of their own, every
  symbol that \<open>sym_lookup\<close> allocates is \<open>Sym n\<close>; properties and menu entries are
  numbered by \<open>nat\<close>.  A value of type \<open>expr\<close> models a \<^verbatim>\<open>struct expr *\<close> together with the
  nodes it owns, \<open>Null\<close> being the null pointer: expression trees are never shared where
  the code updates them in place.  The \<^verbatim>\<open>flags\<close> word is the set of its named bits.
\<close>

subsection \<open>Tristate values\<close>

datatype tristate = TNo | TMod | TYes

fun tri_num :: "tristate \<Rightarrow> nat" where
  "tri_num TNo = 0"
| "tri_num TMod = 1"
| "tri_num TYes = 2"

lemma tri_num_inject [simp]: "tri_num a = tri_num b \<longleftrightarrow> a = b"
  by (cases a; cases b) simp_all

instantiation tristate :: linorder
begin

definition less_eq_tristate :: "tristate \<Rightarrow> tristate \<Rightarrow> bool" where
  "less_eq_tristate a b \<longleftrightarrow> tri_num a \<le> tri_num b"

definition less_tristate :: "tristate \<Rightarrow> tristate \<Rightarrow> bool" where
  "less_tristate a b \<longleftrightarrow> tri_num a < tri_num b"

instance
  by standard (auto simp: less_eq_tristate_def less_tristate_def)

end

lemmas tri_order = less_eq_tristate_def less_tristate_def

definition EXPR_OR :: "tristate \<Rightarrow> tristate \<Rightarrow> tristate" where
  "EXPR_OR dep1 dep2 = (if dep1 > dep2 then dep1 else dep2)"

definition EXPR_AND :: "tristate \<Rightarrow> tristate \<Rightarrow> tristate" where
  "EXPR_AND dep1 dep2 = (if dep1 < dep2 then dep1 else dep2)"

fun EXPR_NOT :: "tristate \<Rightarrow> tristate" where
  "EXPR_NOT TNo = TYes"
| "EXPR_NOT TMod = TMod"
| "EXPR_NOT TYes = TNo"

text \<open>The macros are the join, meet and involution of a three-element chain.\<close>

lemma EXPR_OR_max: "EXPR_OR a b = max a b"
  by (auto simp: EXPR_OR_def max_def)

lemma EXPR_AND_min: "EXPR_AND a b = min a b"
  by (auto simp: EXPR_AND_def min_def)

lemma EXPR_NOT_num: "tri_num (EXPR_NOT a) = 2 - tri_num a"
  by (cases a) simp_all

lemma EXPR_NOT_NOT [simp]: "EXPR_NOT (EXPR_NOT a) = a"
  by (cases a) simp_all

lemma EXPR_NOT_OR: "EXPR_NOT (EXPR_OR a b) = EXPR_AND (EXPR_NOT a) (EXPR_NOT b)"
  by (cases a; cases b) (simp_all add: EXPR_OR_def EXPR_AND_def tri_order)

lemma EXPR_NOT_AND: "EXPR_NOT (EXPR_AND a b) = EXPR_OR (EXPR_NOT a) (EXPR_NOT b)"
  by (cases a; cases b) (simp_all add: EXPR_OR_def EXPR_AND_def tri_order)

lemma tri_le_TYes [simp]: "a \<le> TYes" and TNo_le [simp]: "TNo \<le> a"
  by (cases a; simp add: tri_order)+

lemma tri_distinct_order [simp]:
  "TNo < TMod" "TNo < TYes" "TMod < TYes" "\<not> TMod < TNo" "\<not> TYes < TNo" "\<not> TYes < TMod"
  "TNo \<le> TMod" "TMod \<le> TYes" "\<not> TMod \<le> TNo" "\<not> TYes \<le> TNo" "\<not> TYes \<le> TMod"
  by (simp_all add: tri_order)

lemma le_TNo_iff [simp]: "a \<le> TNo \<longleftrightarrow> a = TNo"
  by (cases a) simp_all

lemma TYes_le_iff [simp]: "TYes \<le> a \<longleftrightarrow> a = TYes"
  by (cases a) simp_all

lemma max_TNo [simp]: "max a TNo = a" "max TNo a = a"
  and max_TYes [simp]: "max a TYes = TYes" "max TYes a = TYes"
  and min_TNo [simp]: "min a TNo = TNo" "min TNo a = TNo"
  and min_TYes [simp]: "min a TYes = a" "min TYes a = (a :: tristate)"
  by (cases a; simp add: max_def min_def)+


subsection \<open>Symbols and expressions\<close>

datatype symptr = symbol_yes | symbol_mod | symbol_no | symbol_empty | Sym nat

datatype expr =
    Null
  | E_NONE
  | E_OR expr expr
  | E_AND expr expr
  | E_NOT expr
  | E_EQUAL symptr symptr
  | E_UNEQUAL symptr symptr
  | E_LIST expr symptr
  | E_SYMBOL symptr
  | E_RANGE symptr symptr

text \<open>The \<open>type\<close> field of a node.\<close>

datatype expr_type =
  Ty_NONE | Ty_OR | Ty_AND | Ty_NOT | Ty_EQUAL | Ty_UNEQUAL | Ty_LIST | Ty_SYMBOL | Ty_RANGE

fun etype :: "expr \<Rightarrow> expr_type" where
  "etype Null = Ty_NONE"
| "etype E_NONE = Ty_NONE"
| "etype (E_OR _ _) = Ty_OR"
| "etype (E_AND _ _) = Ty_AND"
| "etype (E_NOT _) = Ty_NOT"
| "etype (E_EQUAL _ _) = Ty_EQUAL"
| "etype (E_UNEQUAL _ _) = Ty_UNEQUAL"
| "etype (E_LIST _ _) = Ty_LIST"
| "etype (E_SYMBOL _) = Ty_SYMBOL"
| "etype (E_RANGE _ _) = Ty_RANGE"

text \<open>\<open>expr_list_for_each_sym\<close>: the symbols of a chain of \<open>E_LIST\<close> nodes, in order.\<close>

fun expr_list_syms :: "expr \<Rightarrow> symptr list" where
  "expr_list_syms (E_LIST l s) = s # expr_list_syms l"
| "expr_list_syms _ = []"

datatype symbol_type =
  S_UNKNOWN | S_BOOLEAN | S_TRISTATE | S_INT | S_HEX | S_STRING | S_PACKAGE | S_SRCDIR | S_OTHER

text \<open>
  The value of a symbol is a \<^verbatim>\<open>void *\<close>: a string (with the object it points into, so that
  equality of values is equality of pointers, as in the \<^verbatim>\<open>memcmp\<close> of \<open>sym_calc_value\<close>), or, for
  a choice, the selected symbol.
\<close>

datatype strloc = Lit | NameOf symptr | Heap nat

datatype sval = VNull | VStr strloc string | VSym symptr

record symbol_value =
  sv_val :: sval
  sv_tri :: tristate

datatype sym_flag =
  SYMBOL_CONST | SYMBOL_CHECK | SYMBOL_CHOICE | SYMBOL_CHOICEVAL | SYMBOL_VALID
| SYMBOL_OPTIONAL | SYMBOL_WRITE | SYMBOL_CHANGED | SYMBOL_AUTO | SYMBOL_CHECKED | SYMBOL_WARNED
| SYMBOL_DEF_USER | SYMBOL_DEF_AUTO | SYMBOL_DEF3 | SYMBOL_DEF4 | SYMBOL_PACKAGE | SYMBOL_SRCDIR

text \<open>Indices of \<^verbatim>\<open>symbol.def[]\<close>.\<close>

datatype def_index = S_DEF_USER | S_DEF_AUTO | S_DEF_DEF3 | S_DEF_DEF4

fun def_flag :: "def_index \<Rightarrow> sym_flag" where
  "def_flag S_DEF_USER = SYMBOL_DEF_USER"
| "def_flag S_DEF_AUTO = SYMBOL_DEF_AUTO"
| "def_flag S_DEF_DEF3 = SYMBOL_DEF3"
| "def_flag S_DEF_DEF4 = SYMBOL_DEF4"

record symbol =
  sym_name :: "string option"
  sym_type :: symbol_type
  curr :: symbol_value
  def :: "def_index \<Rightarrow> symbol_value"
  visible :: tristate
  flags :: "sym_flag set"
  sym_prop :: "nat list"
  rev_dep_expr :: expr
  rev_dep_tri :: tristate
  sym_file :: "nat option"

datatype prop_type =
  P_UNKNOWN | P_PROMPT | P_COMMENT | P_MENU | P_DEFAULT | P_CHOICE | P_SELECT | P_RANGE | P_ENV
| P_PACKAGE | P_SRCDIR | P_BUILD_DEPENDS | P_BUILD_SELECT

record property =
  prop_sym :: "symptr option"
  prop_type :: prop_type
  prop_text :: "string option"
  visible_expr :: expr
  visible_tri :: tristate
  prop_expr :: expr
  prop_menu :: "nat option"
  prop_file :: "nat option"
  prop_lineno :: nat

datatype menu_flag = MENU_CHANGED | MENU_ROOT

record menu =
  menu_next :: "nat option"
  menu_parent :: "nat option"
  menu_list :: "nat option"
  menu_sym :: "symptr option"
  menu_prompt :: "nat option"
  menu_dep :: expr
  menu_flags :: "menu_flag set"
  menu_help :: "string option"
  menu_file :: "nat option"
  menu_lineno :: nat

subsection \<open>Initial values of the static symbols\<close>

definition null_value :: symbol_value where
  "null_value = \<lparr>sv_val = VNull, sv_tri = TNo\<rparr>"

text \<open>A zeroed \<^verbatim>\<open>struct symbol\<close>, as \<open>memset\<close> leaves it.\<close>

definition zero_symbol :: symbol where
  "zero_symbol = \<lparr>sym_name = None, sym_type = S_UNKNOWN, curr = null_value, def = (\<lambda>_. null_value),
     visible = TNo, flags = {}, sym_prop = [], rev_dep_expr = Null, rev_dep_tri = TNo,
     sym_file = None\<rparr>"

fun init_static :: "symptr \<Rightarrow> symbol" where
  "init_static symbol_yes = zero_symbol\<lparr>sym_name := Some ''y'',
     curr := \<lparr>sv_val = VStr Lit ''y'', sv_tri = TYes\<rparr>, flags := {SYMBOL_CONST, SYMBOL_VALID}\<rparr>"
| "init_static symbol_mod = zero_symbol\<lparr>sym_name := Some ''m'',
     curr := \<lparr>sv_val = VStr Lit ''m'', sv_tri = TMod\<rparr>, flags := {SYMBOL_CONST, SYMBOL_VALID}\<rparr>"
| "init_static symbol_no = zero_symbol\<lparr>sym_name := Some ''n'',
     curr := \<lparr>sv_val = VStr Lit ''n'', sv_tri = TNo\<rparr>, flags := {SYMBOL_CONST, SYMBOL_VALID}\<rparr>"
| "init_static symbol_empty = zero_symbol\<lparr>sym_name := Some '''',
     curr := \<lparr>sv_val = VStr Lit '''', sv_tri = TNo\<rparr>, flags := {SYMBOL_VALID}\<rparr>"
| "init_static (Sym _) = zero_symbol"

subsection \<open>Reading a symbol\<close>

type_synonym symstore = "symptr \<Rightarrow> symbol"

text \<open>
  The string a \<^verbatim>\<open>void *\<close> value is read as.  A null pointer or a symbol pointer read as a string
  is undefined behaviour; the model returns the empty string there.
\<close>

fun sval_string :: "sval \<Rightarrow> string" where
  "sval_string (VStr _ s) = s"
| "sval_string VNull = []"
| "sval_string (VSym _) = []"

fun tri_string :: "tristate \<Rightarrow> string" where
  "tri_string TNo = ''n''"
| "tri_string TMod = ''m''"
| "tri_string TYes = ''y''"

lemma tri_string_inject [simp]: "tri_string a = tri_string b \<longleftrightarrow> a = b"
  by (cases a; cases b) simp_all

definition sym_get_tristate_value :: "symbol \<Rightarrow> tristate" where
  "sym_get_tristate_value sy = sv_tri (curr sy)"

definition sym_get_string_value :: "symbol \<Rightarrow> string" where
  "sym_get_string_value sy =
     (case sym_type sy of
        S_BOOLEAN \<Rightarrow> tri_string (sym_get_tristate_value sy)
      | S_TRISTATE \<Rightarrow> tri_string (sym_get_tristate_value sy)
      | _ \<Rightarrow> sval_string (sv_val (curr sy)))"

definition sym_is_choice :: "symbol \<Rightarrow> bool" where
  "sym_is_choice sy \<longleftrightarrow> SYMBOL_CHOICE \<in> flags sy"

definition sym_is_choice_value :: "symbol \<Rightarrow> bool" where
  "sym_is_choice_value sy \<longleftrightarrow> SYMBOL_CHOICEVAL \<in> flags sy"

definition sym_is_optional :: "symbol \<Rightarrow> bool" where
  "sym_is_optional sy \<longleftrightarrow> SYMBOL_OPTIONAL \<in> flags sy"

definition sym_get_choice_value :: "symbol \<Rightarrow> symptr option" where
  "sym_get_choice_value y = (case sv_val (curr y) of VSym s \<Rightarrow> Some s | _ \<Rightarrow> None)"

definition sym_has_value :: "symbol \<Rightarrow> bool" where
  "sym_has_value sy \<longleftrightarrow> SYMBOL_DEF_USER \<in> flags sy"

end
