(* ===== verification/Expr.thy ===== *)
theory Expr
  imports Kconfig_Data
begin

text \<open>
  The expression operations of \<^verbatim>\<open>build-tools/kconfig/expr.c\<close>: construction, copying, the
  equality test with its mutual-elimination procedure, the simplifiers, and the queries.

  A procedure that updates an expression through a \<^verbatim>\<open>struct expr **\<close> returns the updated
  expression.  The global \<open>trans_count\<close> is threaded as a number.  Where the code would
  follow a null or mistyped pointer (an \<open>E_RANGE\<close> node handed to a simplifier, for
  example) its behaviour is undefined; the equations for those shapes are marked, and the
  well-formedness predicate \<open>dep_expr\<close> of the soundness theory excludes them.
\<close>

subsection \<open>Construction and copying\<close>

definition expr_alloc_symbol :: "symptr \<Rightarrow> expr" where
  "expr_alloc_symbol s = E_SYMBOL s"

text \<open>The callers that ask for an \<open>E_LIST\<close> node store its \<^verbatim>\<open>right.sym\<close> at once: they use the constructor.\<close>

definition expr_alloc_one :: "expr_type \<Rightarrow> expr \<Rightarrow> expr" where
  "expr_alloc_one ty ce = (case ty of Ty_NOT \<Rightarrow> E_NOT ce | _ \<Rightarrow> E_NONE)"

text \<open>Only \<open>E_OR\<close> and \<open>E_AND\<close> nodes are built with two operand expressions.\<close>

definition expr_alloc_two :: "expr_type \<Rightarrow> expr \<Rightarrow> expr \<Rightarrow> expr" where
  "expr_alloc_two ty e1 e2 = (case ty of Ty_OR \<Rightarrow> E_OR e1 e2 | Ty_AND \<Rightarrow> E_AND e1 e2 | _ \<Rightarrow> E_NONE)"

definition expr_alloc_comp :: "expr_type \<Rightarrow> symptr \<Rightarrow> symptr \<Rightarrow> expr" where
  "expr_alloc_comp ty s1 s2 =
     (case ty of Ty_EQUAL \<Rightarrow> E_EQUAL s1 s2 | Ty_UNEQUAL \<Rightarrow> E_UNEQUAL s1 s2
               | Ty_RANGE \<Rightarrow> E_RANGE s1 s2 | _ \<Rightarrow> E_NONE)"

definition expr_alloc_and :: "expr \<Rightarrow> expr \<Rightarrow> expr" where
  "expr_alloc_and e1 e2 =
     (if e1 = Null then e2 else if e2 = Null then e1 else expr_alloc_two Ty_AND e1 e2)"

definition expr_alloc_or :: "expr \<Rightarrow> expr \<Rightarrow> expr" where
  "expr_alloc_or e1 e2 =
     (if e1 = Null then e2 else if e2 = Null then e1 else expr_alloc_two Ty_OR e1 e2)"

declare expr_alloc_symbol_def [expr_ops] expr_alloc_one_def [expr_ops] expr_alloc_two_def [expr_ops]
  expr_alloc_comp_def [expr_ops] expr_alloc_and_def [expr_ops] expr_alloc_or_def [expr_ops]

text \<open>
  A copied \<open>E_LIST\<close> node keeps \<^verbatim>\<open>right.sym\<close>: the recursive copy of \<^verbatim>\<open>right.expr\<close> would read
  the symbol as a node, which no caller does.  Other types print a message and give null.
\<close>

fun expr_copy :: "expr \<Rightarrow> expr" where
  "expr_copy Null = Null"
| "expr_copy (E_SYMBOL s) = E_SYMBOL s"
| "expr_copy (E_NOT a) = E_NOT (expr_copy a)"
| "expr_copy (E_EQUAL a b) = E_EQUAL a b"
| "expr_copy (E_UNEQUAL a b) = E_UNEQUAL a b"
| "expr_copy (E_AND a b) = E_AND (expr_copy a) (expr_copy b)"
| "expr_copy (E_OR a b) = E_OR (expr_copy a) (expr_copy b)"
| "expr_copy (E_LIST a s) = E_LIST (expr_copy a) s"
| "expr_copy (E_RANGE _ _) = Null"
| "expr_copy E_NONE = Null"

definition expr_is_yes :: "expr \<Rightarrow> bool" where
  "expr_is_yes e \<longleftrightarrow> e = Null \<or> e = E_SYMBOL symbol_yes"

definition expr_is_no :: "expr \<Rightarrow> bool" where
  "expr_is_no e \<longleftrightarrow> e = E_SYMBOL symbol_no"

subsection \<open>Operands of a node of a given type\<close>

text \<open>
  \<open>operands ty e\<close> are the two operands of \<open>e\<close> when \<open>e->type == ty\<close> and \<open>ty\<close> is \<open>E_OR\<close> or
  \<open>E_AND\<close>, the only types the elimination procedures are called with.
\<close>

fun operands :: "expr_type \<Rightarrow> expr \<Rightarrow> (expr \<times> expr) option" where
  "operands Ty_OR (E_OR l r) = Some (l, r)"
| "operands Ty_AND (E_AND l r) = Some (l, r)"
| "operands _ _ = None"

text \<open>Number of nodes.\<close>

fun esize :: "expr \<Rightarrow> nat" where
  "esize (E_OR a b) = Suc (esize a + esize b)"
| "esize (E_AND a b) = Suc (esize a + esize b)"
| "esize (E_NOT a) = Suc (esize a)"
| "esize (E_LIST a s) = Suc (esize a)"
| "esize _ = 1"

lemma esize_pos [simp]: "0 < esize e"
  by (cases e) simp_all

lemma operands_Some:
  "operands ty e = Some (l, r) \<longleftrightarrow> ty = Ty_OR \<and> e = E_OR l r \<or> ty = Ty_AND \<and> e = E_AND l r"
  by (cases "(ty, e)" rule: operands.cases) auto

lemma operands_size:
  "operands ty e = Some (l, r) \<Longrightarrow> size l < size e \<and> size r < size e"
  by (auto simp: operands_Some)

lemma operands_esize:
  "operands ty e = Some (l, r) \<Longrightarrow> esize e = Suc (esize l + esize r)"
  by (auto simp: operands_Some)

text \<open>The neutral element that replaces an eliminated operand.\<close>

definition unit_expr :: "expr_type \<Rightarrow> expr" where
  "unit_expr ty = (case ty of Ty_OR \<Rightarrow> expr_alloc_symbol symbol_no
                            | Ty_AND \<Rightarrow> expr_alloc_symbol symbol_yes
                            | _ \<Rightarrow> Null)"

lemma unit_expr_simps [simp]:
  "unit_expr Ty_OR = E_SYMBOL symbol_no" "unit_expr Ty_AND = E_SYMBOL symbol_yes"
  by (simp_all add: unit_expr_def expr_alloc_symbol_def)

subsection \<open>Removing the constants y and n\<close>

fun expr_eliminate_yn :: "expr \<Rightarrow> expr" where
  "expr_eliminate_yn (E_AND l r) =
     (let l' = expr_eliminate_yn l; r' = expr_eliminate_yn r in
      if l' = E_SYMBOL symbol_no then E_SYMBOL symbol_no
      else if l' = E_SYMBOL symbol_yes then r'
      else if r' = E_SYMBOL symbol_no then E_SYMBOL symbol_no
      else if r' = E_SYMBOL symbol_yes then l'
      else E_AND l' r')"
| "expr_eliminate_yn (E_OR l r) =
     (let l' = expr_eliminate_yn l; r' = expr_eliminate_yn r in
      if l' = E_SYMBOL symbol_no then r'
      else if l' = E_SYMBOL symbol_yes then E_SYMBOL symbol_yes
      else if r' = E_SYMBOL symbol_no then l'
      else if r' = E_SYMBOL symbol_yes then E_SYMBOL symbol_yes
      else E_OR l' r')"
| "expr_eliminate_yn e = e"

subsection \<open>Mutual elimination and equality\<close>

text \<open>
  \<open>__expr_eliminate_eq\<close> walks the operands of \<open>e1\<close>, and for each the operands of \<open>e2\<close>;
  a pair that \<open>expr_eq\<close> accepts is replaced by the neutral element on both sides.  The
  procedure and \<open>expr_eq\<close> call each other: the three definitions below take the equality
  test as an argument and \<open>expr_eq_fuel\<close> ties the knot, one unit of fuel per nested call
  of \<open>expr_eq\<close>.
\<close>

definition eliminate_eq_leaf ::
    "(expr \<Rightarrow> expr \<Rightarrow> bool) \<Rightarrow> expr_type \<Rightarrow> expr \<Rightarrow> expr \<Rightarrow> nat \<Rightarrow> expr \<times> expr \<times> nat" where
  "eliminate_eq_leaf eq ty e1 e2 tc =
     (if e1 = e2 \<and> (e1 = E_SYMBOL symbol_yes \<or> e1 = E_SYMBOL symbol_no) then (e1, e2, tc)
      else if \<not> eq e1 e2 then (e1, e2, tc)
      else (unit_expr ty, unit_expr ty, Suc tc))"

function eliminate_eq_right ::
    "(expr \<Rightarrow> expr \<Rightarrow> bool) \<Rightarrow> expr_type \<Rightarrow> expr \<Rightarrow> expr \<Rightarrow> nat \<Rightarrow> expr \<times> expr \<times> nat" where
  "eliminate_eq_right eq ty e1 e2 tc =
     (case operands ty e2 of
        Some (l, r) \<Rightarrow>
          (let (e1', l', tc1) = eliminate_eq_right eq ty e1 l tc;
               (e1'', r', tc2) = eliminate_eq_right eq ty e1' r tc1
           in (e1'', expr_alloc_two ty l' r', tc2))
      | None \<Rightarrow> eliminate_eq_leaf eq ty e1 e2 tc)"
  by pat_completeness auto
termination
  by (relation "measure (\<lambda>(eq, ty, e1, e2, tc). size e2)") (auto dest: operands_size)

declare eliminate_eq_right.simps [simp del]

function eliminate_eq_both ::
    "(expr \<Rightarrow> expr \<Rightarrow> bool) \<Rightarrow> expr_type \<Rightarrow> expr \<Rightarrow> expr \<Rightarrow> nat \<Rightarrow> expr \<times> expr \<times> nat" where
  "eliminate_eq_both eq ty e1 e2 tc =
     (case operands ty e1 of
        Some (l, r) \<Rightarrow>
          (let (l', e2', tc1) = eliminate_eq_both eq ty l e2 tc;
               (r', e2'', tc2) = eliminate_eq_both eq ty r e2' tc1
           in (expr_alloc_two ty l' r', e2'', tc2))
      | None \<Rightarrow> eliminate_eq_right eq ty e1 e2 tc)"
  by pat_completeness auto
termination
  by (relation "measure (\<lambda>(eq, ty, e1, e2, tc). size e1)") (auto dest: operands_size)

declare eliminate_eq_both.simps [simp del]

definition eliminate_eq_root ::
    "(expr \<Rightarrow> expr \<Rightarrow> bool) \<Rightarrow> expr \<Rightarrow> expr \<Rightarrow> nat \<Rightarrow> expr \<times> expr \<times> nat" where
  "eliminate_eq_root eq e1 e2 tc =
     (if e1 = Null \<or> e2 = Null then (e1, e2, tc)
      else
        let (e1', e2', tc') =
              (if etype e1 = Ty_OR \<or> etype e1 = Ty_AND
               then eliminate_eq_both eq (etype e1) e1 e2 tc else (e1, e2, tc));
            (e1'', e2'', tc'') =
              (if etype e1' \<noteq> etype e2' \<and> (etype e2' = Ty_OR \<or> etype e2' = Ty_AND)
               then eliminate_eq_both eq (etype e2') e1' e2' tc' else (e1', e2', tc'))
        in (expr_eliminate_yn e1'', expr_eliminate_yn e2'', tc''))"

text \<open>
  \<open>expr_eq\<close>.  On \<open>E_AND\<close> and \<open>E_OR\<close> nodes it works on copies and restores \<open>trans_count\<close>, so
  it has no effect; nodes of type \<open>E_LIST\<close>, \<open>E_RANGE\<close> and \<open>E_NONE\<close> are never equal.
\<close>

fun expr_eq_fuel :: "nat \<Rightarrow> expr \<Rightarrow> expr \<Rightarrow> bool" where
  "expr_eq_fuel 0 e1 e2 = False"
| "expr_eq_fuel (Suc n) e1 e2 =
     (if etype e1 \<noteq> etype e2 then False
      else case (e1, e2) of
        (E_EQUAL a b, E_EQUAL c d) \<Rightarrow> a = c \<and> b = d
      | (E_UNEQUAL a b, E_UNEQUAL c d) \<Rightarrow> a = c \<and> b = d
      | (E_SYMBOL a, E_SYMBOL b) \<Rightarrow> a = b
      | (E_NOT a, E_NOT b) \<Rightarrow> expr_eq_fuel n a b
      | _ \<Rightarrow>
        if etype e1 = Ty_AND \<or> etype e1 = Ty_OR then
          (case eliminate_eq_root (expr_eq_fuel n) (expr_copy e1) (expr_copy e2) 0 of
             (E_SYMBOL a, E_SYMBOL b, _) \<Rightarrow> a = b
           | _ \<Rightarrow> False)
        else False)"

text \<open>
  The fuel is the number of nodes of the first expression: every nested call of \<open>expr_eq\<close> is
  on an operand strictly below it, or on a neutral element (lemma \<open>expr_eq_fuel_enough\<close>).
\<close>

definition expr_eq :: "expr \<Rightarrow> expr \<Rightarrow> bool" where
  "expr_eq e1 e2 = expr_eq_fuel (esize e1) e1 e2"

definition expr_eliminate_eq :: "expr \<Rightarrow> expr \<Rightarrow> expr \<times> expr" where
  "expr_eliminate_eq e1 e2 =
     (let (e1', e2', tc) = eliminate_eq_root expr_eq e1 e2 0 in (e1', e2'))"

subsection \<open>Boolean context\<close>

text \<open>An \<open>E_NOT\<close> node has a null right operand, on which the second recursive call is the identity.\<close>

fun expr_trans_bool :: "symstore \<Rightarrow> expr \<Rightarrow> expr" where
  "expr_trans_bool ss Null = Null"
| "expr_trans_bool ss (E_AND l r) = E_AND (expr_trans_bool ss l) (expr_trans_bool ss r)"
| "expr_trans_bool ss (E_OR l r) = E_OR (expr_trans_bool ss l) (expr_trans_bool ss r)"
| "expr_trans_bool ss (E_NOT a) = E_NOT (expr_trans_bool ss a)"
| "expr_trans_bool ss (E_UNEQUAL a b) =
     (if sym_type (ss a) = S_TRISTATE \<and> b = symbol_no then E_SYMBOL a else E_UNEQUAL a b)"
| "expr_trans_bool ss e = e"

subsection \<open>Joining two operands\<close>

text \<open>
  The symbol each operand is about: for the first, \<open>!a\<close> counts with \<open>a\<close> a symbol or a
  comparison, for the second only with \<open>a\<close> a symbol.  \<open>None\<close> is the early \<^verbatim>\<open>return NULL\<close>.
\<close>

fun join_sym1 :: "expr \<Rightarrow> symptr option" where
  "join_sym1 (E_EQUAL a b) = Some a"
| "join_sym1 (E_UNEQUAL a b) = Some a"
| "join_sym1 (E_SYMBOL a) = Some a"
| "join_sym1 (E_NOT (E_EQUAL a b)) = Some a"
| "join_sym1 (E_NOT (E_UNEQUAL a b)) = Some a"
| "join_sym1 (E_NOT (E_SYMBOL a)) = Some a"
| "join_sym1 _ = None"

fun join_sym2 :: "expr \<Rightarrow> symptr option" where
  "join_sym2 (E_EQUAL a b) = Some a"
| "join_sym2 (E_UNEQUAL a b) = Some a"
| "join_sym2 (E_SYMBOL a) = Some a"
| "join_sym2 (E_NOT (E_SYMBOL a)) = Some a"
| "join_sym2 _ = None"

text \<open>The symbol \<open>right.sym\<close> of a comparison of type \<open>ty\<close>.\<close>

fun cmp_right :: "expr_type \<Rightarrow> expr \<Rightarrow> symptr option" where
  "cmp_right Ty_EQUAL (E_EQUAL a b) = Some b"
| "cmp_right Ty_UNEQUAL (E_UNEQUAL a b) = Some b"
| "cmp_right _ _ = None"

text \<open>\<open>cmp_pair ty e1 e2 u v\<close>: both are comparisons of type \<open>ty\<close>, against \<open>u\<close> and \<open>v\<close> in either order.\<close>

definition cmp_pair :: "expr_type \<Rightarrow> expr \<Rightarrow> expr \<Rightarrow> symptr \<Rightarrow> symptr \<Rightarrow> bool" where
  "cmp_pair ty e1 e2 u v \<longleftrightarrow>
     (cmp_right ty e1 = Some u \<and> cmp_right ty e2 = Some v) \<or>
     (cmp_right ty e1 = Some v \<and> cmp_right ty e2 = Some u)"

text \<open>\<open>sym_and_cmp ty e1 e2 u\<close>: one is a symbol, the other a comparison of type \<open>ty\<close> against \<open>u\<close>.\<close>

definition sym_and_cmp :: "expr_type \<Rightarrow> expr \<Rightarrow> expr \<Rightarrow> symptr \<Rightarrow> bool" where
  "sym_and_cmp ty e1 e2 u \<longleftrightarrow>
     (etype e1 = Ty_SYMBOL \<and> cmp_right ty e2 = Some u) \<or>
     (etype e2 = Ty_SYMBOL \<and> cmp_right ty e1 = Some u)"

fun is_not_symbol :: "expr \<Rightarrow> bool" where
  "is_not_symbol (E_NOT (E_SYMBOL a)) = True"
| "is_not_symbol _ = False"

definition expr_join_or :: "symstore \<Rightarrow> expr \<Rightarrow> expr \<Rightarrow> expr" where
  "expr_join_or ss e1 e2 =
     (if expr_eq e1 e2 then expr_copy e1
      else case (join_sym1 e1, join_sym2 e2) of
        (Some sym1, Some sym2) \<Rightarrow>
          if sym1 \<noteq> sym2 then Null
          else if sym_type (ss sym1) \<noteq> S_BOOLEAN \<and> sym_type (ss sym1) \<noteq> S_TRISTATE then Null
          else if sym_type (ss sym1) = S_TRISTATE \<and> cmp_pair Ty_EQUAL e1 e2 symbol_yes symbol_mod
            then expr_alloc_comp Ty_UNEQUAL sym1 symbol_no
          else if sym_type (ss sym1) = S_TRISTATE \<and> cmp_pair Ty_EQUAL e1 e2 symbol_yes symbol_no
            then expr_alloc_comp Ty_UNEQUAL sym1 symbol_mod
          else if sym_type (ss sym1) = S_TRISTATE \<and> cmp_pair Ty_EQUAL e1 e2 symbol_mod symbol_no
            then expr_alloc_comp Ty_UNEQUAL sym1 symbol_yes
          else if sym_type (ss sym1) = S_BOOLEAN \<and>
                  ((is_not_symbol e1 \<and> etype e2 = Ty_SYMBOL) \<or>
                   (is_not_symbol e2 \<and> etype e1 = Ty_SYMBOL))
            then expr_alloc_symbol symbol_yes
          else Null
      | _ \<Rightarrow> Null)"

text \<open>
  \<open>(a='b') && (a!='c')\<close>: the comparison of type \<open>E_EQUAL\<close> against \<open>b\<close> and the one of type
  \<open>E_UNEQUAL\<close> against \<open>c\<close>; both right symbols must be constants for the rule to apply.
\<close>

definition join_eq_uneq :: "symstore \<Rightarrow> symptr \<Rightarrow> expr \<Rightarrow> expr \<Rightarrow> expr option" where
  "join_eq_uneq ss sym1 e1 e2 =
     (case (cmp_right Ty_EQUAL e1, cmp_right Ty_UNEQUAL e2) of
        (Some b, Some c) \<Rightarrow>
          if SYMBOL_CONST \<in> flags (ss c) \<and> SYMBOL_CONST \<in> flags (ss b)
          then Some (if b \<noteq> c then expr_alloc_comp Ty_EQUAL sym1 b
                     else expr_alloc_symbol symbol_no)
          else None
      | _ \<Rightarrow> None)"

definition expr_join_and :: "symstore \<Rightarrow> expr \<Rightarrow> expr \<Rightarrow> expr" where
  "expr_join_and ss e1 e2 =
     (if expr_eq e1 e2 then expr_copy e1
      else case (join_sym1 e1, join_sym2 e2) of
        (Some sym1, Some sym2) \<Rightarrow>
          if sym1 \<noteq> sym2 then Null
          else if sym_type (ss sym1) \<noteq> S_BOOLEAN \<and> sym_type (ss sym1) \<noteq> S_TRISTATE then Null
          else if sym_and_cmp Ty_EQUAL e1 e2 symbol_yes
            then expr_alloc_comp Ty_EQUAL sym1 symbol_yes
          else if sym_and_cmp Ty_UNEQUAL e1 e2 symbol_no
            then expr_alloc_symbol sym1
          else if sym_and_cmp Ty_UNEQUAL e1 e2 symbol_mod
            then expr_alloc_comp Ty_EQUAL sym1 symbol_yes
          else if sym_type (ss sym1) = S_TRISTATE then
            (case join_eq_uneq ss sym1 e1 e2 of
               Some e \<Rightarrow> e
             | None \<Rightarrow>
               (case join_eq_uneq ss sym1 e2 e1 of
                  Some e \<Rightarrow> e
                | None \<Rightarrow>
                    if cmp_pair Ty_UNEQUAL e1 e2 symbol_yes symbol_no
                      then expr_alloc_comp Ty_EQUAL sym1 symbol_mod
                    else if cmp_pair Ty_UNEQUAL e1 e2 symbol_yes symbol_mod
                      then expr_alloc_comp Ty_EQUAL sym1 symbol_no
                    else if cmp_pair Ty_UNEQUAL e1 e2 symbol_mod symbol_no
                      then expr_alloc_comp Ty_EQUAL sym1 symbol_yes
                    else Null))
          else Null
      | _ \<Rightarrow> Null)"

subsection \<open>Normalisation: expr_transform\<close>

text \<open>
  Transforming an \<open>E_NOT\<close> node looks at its transformed operand and may start again on the
  rewritten node.  The nested recursion ends because the weight \<open>tsize\<close>, in which a negation
  doubles, never grows under the transformation.
\<close>

fun tsize :: "expr \<Rightarrow> nat" where
  "tsize (E_OR a b) = Suc (tsize a + tsize b)"
| "tsize (E_AND a b) = Suc (tsize a + tsize b)"
| "tsize (E_NOT a) = 2 * tsize a"
| "tsize (E_EQUAL a b) = 2"
| "tsize (E_UNEQUAL a b) = 2"
| "tsize _ = 1"

lemma tsize_pos [simp]: "0 < tsize e"
  by (induction e) simp_all

fun transform_equal :: "symstore \<Rightarrow> symptr \<Rightarrow> symptr \<Rightarrow> expr" where
  "transform_equal ss a b =
     (if sym_type (ss a) \<noteq> S_BOOLEAN then E_EQUAL a b
      else if b = symbol_no then E_NOT (expr_alloc_symbol a)
      else if b = symbol_mod then E_SYMBOL symbol_no
      else if b = symbol_yes then E_SYMBOL a
      else E_EQUAL a b)"

fun transform_unequal :: "symstore \<Rightarrow> symptr \<Rightarrow> symptr \<Rightarrow> expr" where
  "transform_unequal ss a b =
     (if sym_type (ss a) \<noteq> S_BOOLEAN then E_UNEQUAL a b
      else if b = symbol_no then E_SYMBOL a
      else if b = symbol_mod then E_SYMBOL symbol_yes
      else if b = symbol_yes then E_NOT (expr_alloc_symbol a)
      else E_UNEQUAL a b)"

definition transform_not_symbol :: "symptr \<Rightarrow> expr" where
  "transform_not_symbol s =
     (if s = symbol_yes then E_SYMBOL symbol_no
      else if s = symbol_mod then E_SYMBOL symbol_mod
      else if s = symbol_no then E_SYMBOL symbol_yes
      else E_NOT (E_SYMBOL s))"

function (sequential) expr_transform :: "symstore \<Rightarrow> expr \<Rightarrow> expr" where
  "expr_transform ss (E_OR l r) = E_OR (expr_transform ss l) (expr_transform ss r)"
| "expr_transform ss (E_AND l r) = E_AND (expr_transform ss l) (expr_transform ss r)"
| "expr_transform ss (E_EQUAL a b) = transform_equal ss a b"
| "expr_transform ss (E_UNEQUAL a b) = transform_unequal ss a b"
| "expr_transform ss (E_NOT a) =
     (case expr_transform ss a of
        E_NOT b \<Rightarrow> expr_transform ss b
      | E_EQUAL x y \<Rightarrow> E_UNEQUAL x y
      | E_UNEQUAL x y \<Rightarrow> E_EQUAL x y
      | E_OR x y \<Rightarrow> expr_transform ss (E_AND (E_NOT x) (expr_alloc_one Ty_NOT y))
      | E_AND x y \<Rightarrow> expr_transform ss (E_OR (E_NOT x) (expr_alloc_one Ty_NOT y))
      | E_SYMBOL s \<Rightarrow> transform_not_symbol s
      | e \<Rightarrow> E_NOT e)"
| "expr_transform ss e = e"
  by pat_completeness auto

lemma transform_leaf_tsize:
  "tsize (transform_equal ss a b) \<le> 2" "tsize (transform_unequal ss a b) \<le> 2"
  "tsize (transform_not_symbol s) \<le> 2"
  by (simp_all add: transform_not_symbol_def expr_alloc_symbol_def)

lemma expr_transform_tsize_dom:
  "expr_transform_dom (ss, e) \<Longrightarrow> tsize (expr_transform ss e) \<le> tsize e"
proof (induction ss e rule: expr_transform.pinduct)
  case (5 ss a)
  note IH = 5
  have le: "tsize (expr_transform ss a) \<le> tsize a" by (rule IH(2))
  show ?case
  proof (cases "expr_transform ss a")
    case (E_OR x y)
    with IH(3)[OF E_OR] le show ?thesis
      by (simp add: expr_transform.psimps(5)[OF IH(1)] expr_alloc_one_def)
  next
    case (E_AND x y)
    with IH(4)[OF E_AND] le show ?thesis
      by (simp add: expr_transform.psimps(5)[OF IH(1)] expr_alloc_one_def)
  next
    case (E_NOT b)
    with IH(5)[OF E_NOT] le show ?thesis
      by (simp add: expr_transform.psimps(5)[OF IH(1)])
  next
    case (E_SYMBOL s)
    have "2 \<le> 2 * tsize a"
      using tsize_pos[of a] by linarith
    with transform_leaf_tsize(3)[of s] have "tsize (transform_not_symbol s) \<le> 2 * tsize a"
      by (rule order.trans)
    with E_SYMBOL show ?thesis
      by (simp add: expr_transform.psimps(5)[OF IH(1)])
  qed (use le in \<open>simp_all add: expr_transform.psimps(5)[OF IH(1)]\<close>)
qed (simp_all add: expr_transform.psimps transform_leaf_tsize del: transform_equal.simps transform_unequal.simps)

lemma expr_transform_dom_less:
  "expr_transform_dom (ss, a) \<Longrightarrow>
    tsize (expr_transform ss a) < 2 * tsize a \<and> tsize (expr_transform ss a) \<le> tsize a"
  using expr_transform_tsize_dom[of ss a] tsize_pos[of a] by linarith

termination expr_transform
  by (relation "measure (\<lambda>(ss, e). tsize e)")
     (auto dest: expr_transform_dom_less simp: expr_alloc_one_def)

subsection \<open>Extracting common operands\<close>

text \<open>
  \<open>expr_extract_eq\<close> moves every operand the two expressions share into \<open>ep\<close>; like the
  elimination it walks the operands of \<open>e1\<close> and, for each, those of \<open>e2\<close>.
\<close>

definition extract_eq_leaf :: "expr_type \<Rightarrow> expr \<Rightarrow> expr \<Rightarrow> expr \<Rightarrow> expr \<times> expr \<times> expr" where
  "extract_eq_leaf ty ep e1 e2 =
     (if expr_eq e1 e2
      then (if ep \<noteq> Null then expr_alloc_two ty ep e1 else e1, unit_expr ty, unit_expr ty)
      else (ep, e1, e2))"

function extract_eq_right :: "expr_type \<Rightarrow> expr \<Rightarrow> expr \<Rightarrow> expr \<Rightarrow> expr \<times> expr \<times> expr" where
  "extract_eq_right ty ep e1 e2 =
     (case operands ty e2 of
        Some (l, r) \<Rightarrow>
          (let (ep1, e1', l') = extract_eq_right ty ep e1 l;
               (ep2, e1'', r') = extract_eq_right ty ep1 e1' r
           in (ep2, e1'', expr_alloc_two ty l' r'))
      | None \<Rightarrow> extract_eq_leaf ty ep e1 e2)"
  by pat_completeness auto
termination
  by (relation "measure (\<lambda>(ty, ep, e1, e2). size e2)") (auto dest: operands_size)

function expr_extract_eq :: "expr_type \<Rightarrow> expr \<Rightarrow> expr \<Rightarrow> expr \<Rightarrow> expr \<times> expr \<times> expr" where
  "expr_extract_eq ty ep e1 e2 =
     (case operands ty e1 of
        Some (l, r) \<Rightarrow>
          (let (ep1, l', e2') = expr_extract_eq ty ep l e2;
               (ep2, r', e2'') = expr_extract_eq ty ep1 r e2'
           in (ep2, expr_alloc_two ty l' r', e2''))
      | None \<Rightarrow> extract_eq_right ty ep e1 e2)"
  by pat_completeness auto
termination
  by (relation "measure (\<lambda>(ty, ep, e1, e2). size e1)") (auto dest: operands_size)

declare extract_eq_right.simps [simp del] expr_extract_eq.simps [simp del]

definition expr_extract_eq_and :: "expr \<Rightarrow> expr \<Rightarrow> expr \<times> expr \<times> expr" where
  "expr_extract_eq_and e1 e2 =
     (let (tmp, e1', e2') = expr_extract_eq Ty_AND Null e1 e2
      in if tmp \<noteq> Null then (tmp, expr_eliminate_yn e1', expr_eliminate_yn e2')
         else (tmp, e1', e2'))"

definition expr_extract_eq_or :: "expr \<Rightarrow> expr \<Rightarrow> expr \<times> expr \<times> expr" where
  "expr_extract_eq_or e1 e2 =
     (let (tmp, e1', e2') = expr_extract_eq Ty_OR Null e1 e2
      in if tmp \<noteq> Null then (tmp, expr_eliminate_yn e1', expr_eliminate_yn e2')
         else (tmp, e1', e2'))"

subsection \<open>Eliminating duplicates\<close>

text \<open>
  \<open>expr_eliminate_dups1\<close> and \<open>expr_eliminate_dups2\<close> are always entered with both pointers at
  the same node, \<^verbatim>\<open>(&e, &e)\<close>, and then run over pairs of operands of that one tree, which
  they update in place.  The model keeps the tree and represents the two pointers by paths
  into it: \<open>sub t p\<close> reads \<^verbatim>\<open>*ep\<close>, \<open>upd t p e\<close> assigns it, and \<^verbatim>\<open>e1 == e2\<close> is \<open>p1 = p2\<close>.
\<close>

datatype side = L | R

type_synonym path = "side list"

fun sub :: "expr \<Rightarrow> path \<Rightarrow> expr" where
  "sub e [] = e"
| "sub (E_OR l r) (L # p) = sub l p"
| "sub (E_OR l r) (R # p) = sub r p"
| "sub (E_AND l r) (L # p) = sub l p"
| "sub (E_AND l r) (R # p) = sub r p"
| "sub e (_ # _) = Null"

fun upd :: "expr \<Rightarrow> path \<Rightarrow> expr \<Rightarrow> expr" where
  "upd e [] x = x"
| "upd (E_OR l r) (L # p) x = E_OR (upd l p x) r"
| "upd (E_OR l r) (R # p) x = E_OR l (upd r p x)"
| "upd (E_AND l r) (L # p) x = E_AND (upd l p x) r"
| "upd (E_AND l r) (R # p) x = E_AND l (upd r p x)"
| "upd e (_ # _) x = e"

text \<open>The pair of the tree and \<open>trans_count\<close> is the state of both passes.\<close>

type_synonym dups_state = "expr \<times> nat"

definition dups1_join :: "symstore \<Rightarrow> expr_type \<Rightarrow> path \<Rightarrow> path \<Rightarrow> dups_state \<Rightarrow> dups_state" where
  "dups1_join ss ty p1 p2 st =
     (let (t, tc) = st;
          tmp = (case ty of Ty_OR \<Rightarrow> expr_join_or ss (sub t p1) (sub t p2)
                          | Ty_AND \<Rightarrow> expr_join_and ss (sub t p1) (sub t p2)
                          | _ \<Rightarrow> Null)
      in if tmp \<noteq> Null then (upd (upd t p1 (unit_expr ty)) p2 tmp, Suc tc) else (t, tc))"

fun expr_eliminate_dups1 ::
    "nat \<Rightarrow> symstore \<Rightarrow> expr_type \<Rightarrow> path \<Rightarrow> path \<Rightarrow> dups_state \<Rightarrow> dups_state option" where
  "expr_eliminate_dups1 0 ss ty p1 p2 st = None"
| "expr_eliminate_dups1 (Suc n) ss ty p1 p2 st =
     (if etype (sub (fst st) p1) = ty then
        Option.bind (expr_eliminate_dups1 n ss ty (p1 @ [L]) p2 st)
          (expr_eliminate_dups1 n ss ty (p1 @ [R]) p2)
      else if etype (sub (fst st) p2) = ty then
        Option.bind (expr_eliminate_dups1 n ss ty p1 (p2 @ [L]) st)
          (expr_eliminate_dups1 n ss ty p1 (p2 @ [R]))
      else if p1 = p2 then Some st
      else
        Option.bind
          (let e1 = sub (fst st) p1 in
           if etype e1 = Ty_OR \<or> etype e1 = Ty_AND
           then map_option (\<lambda>(e1', tc'). (upd (fst st) p1 e1', tc'))
                  (expr_eliminate_dups1 n ss (etype e1) [] [] (e1, snd st))
           else Some st)
          (\<lambda>st'. Some (dups1_join ss ty p1 p2 st')))"

text \<open>
  The contradiction test of \<open>expr_eliminate_dups2\<close> at a pair of positions: \<open>e1\<close> an \<open>E_OR\<close>
  (in a conjunction) whose negated operands all occur in \<open>e2\<close> becomes \<open>n\<close>; dually for
  \<open>E_AND\<close>.
\<close>

definition dups2_contradiction :: "symstore \<Rightarrow> path \<Rightarrow> path \<Rightarrow> dups_state \<Rightarrow> dups_state" where
  "dups2_contradiction ss p1 p2 st =
     (let (t, tc) = st; e1 = sub t p1; e2 = sub t p2 in
      if etype e1 = Ty_OR then
        let tmp1 = expr_transform ss (expr_alloc_one Ty_NOT (expr_copy e1));
            tmp2 = expr_copy e2;
            (tmp, tmp1', tmp2') = expr_extract_eq_and tmp1 tmp2
        in if expr_is_yes tmp1' then (upd t p1 (expr_alloc_symbol symbol_no), Suc tc) else (t, tc)
      else if etype e1 = Ty_AND then
        let tmp1 = expr_transform ss (expr_alloc_one Ty_NOT (expr_copy e1));
            tmp2 = expr_copy e2;
            (tmp, tmp1', tmp2') = expr_extract_eq_or tmp1 tmp2
        in if expr_is_no tmp1' then (upd t p1 (expr_alloc_symbol symbol_yes), Suc tc) else (t, tc)
      else (t, tc))"

text \<open>The branch on \<open>e2\<close>'s type has no \<^verbatim>\<open>return\<close> here, unlike in \<open>expr_eliminate_dups1\<close>.\<close>

fun expr_eliminate_dups2 ::
    "nat \<Rightarrow> symstore \<Rightarrow> expr_type \<Rightarrow> path \<Rightarrow> path \<Rightarrow> dups_state \<Rightarrow> dups_state option" where
  "expr_eliminate_dups2 0 ss ty p1 p2 st = None"
| "expr_eliminate_dups2 (Suc n) ss ty p1 p2 st =
     (if etype (sub (fst st) p1) = ty then
        Option.bind (expr_eliminate_dups2 n ss ty (p1 @ [L]) p2 st)
          (expr_eliminate_dups2 n ss ty (p1 @ [R]) p2)
      else
        Option.bind
          (if etype (sub (fst st) p2) = ty then
             Option.bind (expr_eliminate_dups2 n ss ty p1 (p2 @ [L]) st)
               (expr_eliminate_dups2 n ss ty p1 (p2 @ [R]))
           else Some st)
          (\<lambda>st'.
            if p1 = p2 then Some st'
            else
              Option.bind
                (let e1 = sub (fst st') p1 in
                 if etype e1 = Ty_OR \<or> etype e1 = Ty_AND
                 then map_option (\<lambda>(e1', tc'). (upd (fst st') p1 e1', tc'))
                        (expr_eliminate_dups2 n ss (etype e1) [] [] (e1, snd st'))
                 else Some st')
                (\<lambda>st''. Some (dups2_contradiction ss p1 p2 st''))))"

text \<open>
  Recursion depth of one pass over a tree of \<open>n\<close> nodes: two paths of at most \<open>n\<close> steps each,
  then a pass over a strictly smaller operand.
\<close>

definition dups_fuel :: "nat \<Rightarrow> nat" where
  "dups_fuel n = 2 * n * (n + 1) + 1"

definition dups_round :: "symstore \<Rightarrow> expr \<Rightarrow> dups_state option" where
  "dups_round ss e =
     (if etype e = Ty_OR \<or> etype e = Ty_AND
      then Option.bind (expr_eliminate_dups1 (dups_fuel (esize e)) ss (etype e) [] [] (e, 0))
             (\<lambda>st. expr_eliminate_dups2 (dups_fuel (esize e)) ss (etype e) [] [] st)
      else Some (e, 0))"

text \<open>
  The loop of \<open>expr_eliminate_dups\<close>, with fuel: each round that changed the expression is
  followed by \<open>expr_eliminate_yn\<close>, which makes it smaller.
\<close>

fun eliminate_dups_loop :: "nat \<Rightarrow> symstore \<Rightarrow> expr \<Rightarrow> expr option" where
  "eliminate_dups_loop 0 ss e = None"
| "eliminate_dups_loop (Suc n) ss e =
     Option.bind (dups_round ss e)
       (\<lambda>(e', tc). if tc = 0 then Some e' else eliminate_dups_loop n ss (expr_eliminate_yn e'))"

definition expr_eliminate_dups :: "symstore \<Rightarrow> expr \<Rightarrow> expr option" where
  "expr_eliminate_dups ss e =
     (if e = Null then Some e else eliminate_dups_loop (Suc (esize e)) ss e)"

subsection \<open>Queries\<close>

fun expr_contains_symbol :: "expr \<Rightarrow> symptr \<Rightarrow> bool" where
  "expr_contains_symbol (E_AND l r) s \<longleftrightarrow> expr_contains_symbol l s \<or> expr_contains_symbol r s"
| "expr_contains_symbol (E_OR l r) s \<longleftrightarrow> expr_contains_symbol l s \<or> expr_contains_symbol r s"
| "expr_contains_symbol (E_SYMBOL a) s \<longleftrightarrow> a = s"
| "expr_contains_symbol (E_EQUAL a b) s \<longleftrightarrow> a = s \<or> b = s"
| "expr_contains_symbol (E_UNEQUAL a b) s \<longleftrightarrow> a = s \<or> b = s"
| "expr_contains_symbol (E_NOT a) s \<longleftrightarrow> expr_contains_symbol a s"
| "expr_contains_symbol _ s \<longleftrightarrow> False"

fun expr_depends_symbol :: "expr \<Rightarrow> symptr \<Rightarrow> bool" where
  "expr_depends_symbol (E_AND l r) s \<longleftrightarrow> expr_depends_symbol l s \<or> expr_depends_symbol r s"
| "expr_depends_symbol (E_SYMBOL a) s \<longleftrightarrow> a = s"
| "expr_depends_symbol (E_EQUAL a b) s \<longleftrightarrow> a = s \<and> (b = symbol_yes \<or> b = symbol_mod)"
| "expr_depends_symbol (E_UNEQUAL a b) s \<longleftrightarrow> a = s \<and> b = symbol_no"
| "expr_depends_symbol _ s \<longleftrightarrow> False"

subsection \<open>Comparing an expression with a constant\<close>

text \<open>
  For \<open>E_AND\<close> and \<open>E_OR\<close> the result is the unchanged \<open>e\<close> when \<open>sym\<close> is neither \<open>y\<close> nor \<open>n\<close>,
  and for the comparisons null when it is none of the three constants; \<open>ty\<close> is \<open>E_EQUAL\<close> or
  \<open>E_UNEQUAL\<close>.
\<close>

definition negate_if :: "bool \<Rightarrow> expr \<Rightarrow> expr" where
  "negate_if b e = (if b then expr_alloc_one Ty_NOT e else e)"

fun expr_trans_compare :: "expr \<Rightarrow> expr_type \<Rightarrow> symptr \<Rightarrow> expr" where
  "expr_trans_compare Null ty s = negate_if (ty = Ty_UNEQUAL) (expr_alloc_symbol s)"
| "expr_trans_compare (E_AND l r) ty s =
     (let e1 = expr_trans_compare l Ty_EQUAL s; e2 = expr_trans_compare r Ty_EQUAL s;
          e' = (if s = symbol_yes then expr_alloc_two Ty_AND e1 e2
                else if s = symbol_no then expr_alloc_two Ty_OR e1 e2
                else E_AND l r)
      in negate_if (ty = Ty_UNEQUAL) e')"
| "expr_trans_compare (E_OR l r) ty s =
     (let e1 = expr_trans_compare l Ty_EQUAL s; e2 = expr_trans_compare r Ty_EQUAL s;
          e' = (if s = symbol_yes then expr_alloc_two Ty_OR e1 e2
                else if s = symbol_no then expr_alloc_two Ty_AND e1 e2
                else E_OR l r)
      in negate_if (ty = Ty_UNEQUAL) e')"
| "expr_trans_compare (E_NOT a) ty s =
     expr_trans_compare a (if ty = Ty_EQUAL then Ty_UNEQUAL else Ty_EQUAL) s"
| "expr_trans_compare (E_SYMBOL a) ty s = expr_alloc_comp ty a s"
| "expr_trans_compare (E_LIST _ _) ty s = Null"
| "expr_trans_compare (E_RANGE _ _) ty s = Null"
| "expr_trans_compare E_NONE ty s = Null"
| "expr_trans_compare e ty s =
     (if ty = Ty_EQUAL then
        (if s = symbol_yes then expr_copy e
         else if s = symbol_mod then expr_alloc_symbol symbol_no
         else if s = symbol_no then expr_alloc_one Ty_NOT (expr_copy e)
         else Null)
      else
        (if s = symbol_yes then expr_alloc_one Ty_NOT (expr_copy e)
         else if s = symbol_mod then expr_alloc_symbol symbol_yes
         else if s = symbol_no then expr_copy e
         else Null))"

subsection \<open>Printing\<close>

text \<open>\<open>expr_compare_type\<close>: the \<^verbatim>\<open>switch\<close> falls through from a type to all that bind weaker.\<close>

definition expr_compare_type :: "expr_type \<Rightarrow> expr_type \<Rightarrow> int" where
  "expr_compare_type t1 t2 =
     (if t1 = t2 then 0
      else if (t1 = Ty_EQUAL \<or> t1 = Ty_UNEQUAL) \<and> t2 = Ty_NOT then 1
      else if t1 \<in> {Ty_EQUAL, Ty_UNEQUAL, Ty_NOT} \<and> t2 = Ty_AND then 1
      else if t1 \<in> {Ty_EQUAL, Ty_UNEQUAL, Ty_NOT, Ty_AND} \<and> t2 = Ty_OR then 1
      else if t1 \<in> {Ty_EQUAL, Ty_UNEQUAL, Ty_NOT, Ty_AND, Ty_OR} \<and> t2 = Ty_LIST then 1
      else if t1 \<in> {Ty_EQUAL, Ty_UNEQUAL, Ty_NOT, Ty_AND, Ty_OR, Ty_LIST} \<and> t2 = Ty_NONE then 1
      else - 1)"

text \<open>
  \<open>expr_print\<close> calls \<^verbatim>\<open>fn(data, sym, str)\<close> once per piece; the model returns the calls in
  order.  A symbol without a name prints as \<^verbatim>\<open><choice>\<close> on the left of a comparison; the code
  passes the null name on in the other positions (the model prints the empty string).
\<close>

type_synonym print_call = "symptr option \<times> string"

definition name_string :: "symstore \<Rightarrow> symptr \<Rightarrow> string" where
  "name_string ss s = (case sym_name (ss s) of Some n \<Rightarrow> n | None \<Rightarrow> [])"

definition print_left_sym :: "symstore \<Rightarrow> symptr \<Rightarrow> print_call" where
  "print_left_sym ss s =
     (case sym_name (ss s) of Some n \<Rightarrow> (Some s, n) | None \<Rightarrow> (None, ''<choice>''))"

fun expr_print :: "symstore \<Rightarrow> expr \<Rightarrow> expr_type \<Rightarrow> print_call list" where
  "expr_print ss Null prevtoken = [(None, ''y'')]"
| "expr_print ss e prevtoken =
     (let paren = expr_compare_type prevtoken (etype e) > 0 in
      (if paren then [(None, ''('')] else []) @
      (case e of
         E_SYMBOL a \<Rightarrow> [print_left_sym ss a]
       | E_NOT a \<Rightarrow> (None, ''!'') # expr_print ss a Ty_NOT
       | E_EQUAL a b \<Rightarrow> [print_left_sym ss a, (None, ''=''), (Some b, name_string ss b)]
       | E_UNEQUAL a b \<Rightarrow> [print_left_sym ss a, (None, ''!=''), (Some b, name_string ss b)]
       | E_OR l r \<Rightarrow> expr_print ss l Ty_OR @ (None, '' || '') # expr_print ss r Ty_OR
       | E_AND l r \<Rightarrow> expr_print ss l Ty_AND @ (None, '' && '') # expr_print ss r Ty_AND
       | E_LIST l s \<Rightarrow> (Some s, name_string ss s) #
           (if l \<noteq> Null then (None, '' ^ '') # expr_print ss l Ty_LIST else [])
       | E_RANGE a b \<Rightarrow> [(None, ''[''), (Some a, name_string ss a), (None, '' ''),
                          (Some b, name_string ss b), (None, '']'')]
       | _ \<Rightarrow> [(None, ''<unknown type 0>'')]) @
      (if paren then [(None, '')'')] else []))"

text \<open>\<open>expr_fprint\<close> writes the pieces; \<open>expr_gstr_print\<close> adds the value after each symbol.\<close>

definition expr_fprint :: "symstore \<Rightarrow> expr \<Rightarrow> string" where
  "expr_fprint ss e = concat (map snd (expr_print ss e Ty_NONE))"

definition expr_gstr_print :: "symstore \<Rightarrow> expr \<Rightarrow> string" where
  "expr_gstr_print ss e =
     concat (map (\<lambda>(so, str). str @
       (case so of Some s \<Rightarrow> '' [='' @ sym_get_string_value (ss s) @ '']'' | None \<Rightarrow> []))
       (expr_print ss e Ty_NONE))"

end
