(* ===== verification/ExprSem.thy ===== *)
theory ExprSem
  imports Expr
begin

text \<open>
  What the simplifiers of \<^verbatim>\<open>expr.c\<close> preserve: the value of an expression over the current
  values of the symbols, in the three-valued logic of the tool.
\<close>

subsection \<open>The value of an expression\<close>

text \<open>
  The value \<open>expr_calc_value\<close> returns when every symbol is already calculated; the stateful
  function of the symbol theories is proved to agree with it.
\<close>

fun expr_value :: "symstore \<Rightarrow> expr \<Rightarrow> tristate" where
  "expr_value ss Null = TYes"
| "expr_value ss (E_SYMBOL s) = sym_get_tristate_value (ss s)"
| "expr_value ss (E_AND l r) = EXPR_AND (expr_value ss l) (expr_value ss r)"
| "expr_value ss (E_OR l r) = EXPR_OR (expr_value ss l) (expr_value ss r)"
| "expr_value ss (E_NOT a) = EXPR_NOT (expr_value ss a)"
| "expr_value ss (E_EQUAL a b) =
     (if sym_get_string_value (ss a) = sym_get_string_value (ss b) then TYes else TNo)"
| "expr_value ss (E_UNEQUAL a b) =
     (if sym_get_string_value (ss a) = sym_get_string_value (ss b) then TNo else TYes)"
| "expr_value ss _ = TNo"

text \<open>Dependency expressions: what the grammar builds for \<open>depends on\<close>, \<open>if\<close> and \<open>default\<close>.\<close>

fun dep_expr :: "expr \<Rightarrow> bool" where
  "dep_expr (E_SYMBOL s) = True"
| "dep_expr (E_EQUAL a b) = True"
| "dep_expr (E_UNEQUAL a b) = True"
| "dep_expr (E_NOT a) = dep_expr a"
| "dep_expr (E_AND l r) = (dep_expr l \<and> dep_expr r)"
| "dep_expr (E_OR l r) = (dep_expr l \<and> dep_expr r)"
| "dep_expr _ = False"

text \<open>
  What the symbol table guarantees of the current values: the three constants have their
  values, a boolean symbol is never \<open>m\<close>, distinct constants have distinct strings.
\<close>

definition wf_store :: "symstore \<Rightarrow> bool" where
  "wf_store ss \<longleftrightarrow>
     (\<forall>t s. (t, s) \<in> {(TYes, symbol_yes), (TMod, symbol_mod), (TNo, symbol_no)} \<longrightarrow>
        sym_get_tristate_value (ss s) = t \<and> sym_get_string_value (ss s) = tri_string t \<and>
        sym_type (ss s) = S_UNKNOWN) \<and>
     (\<forall>s. sym_type (ss s) = S_BOOLEAN \<longrightarrow> sym_get_tristate_value (ss s) \<noteq> TMod) \<and>
     (\<forall>s t. SYMBOL_CONST \<in> flags (ss s) \<longrightarrow> SYMBOL_CONST \<in> flags (ss t) \<longrightarrow>
        sym_get_string_value (ss s) = sym_get_string_value (ss t) \<longrightarrow> s = t)"

lemma wf_storeD:
  assumes "wf_store ss"
  shows "sym_get_tristate_value (ss symbol_yes) = TYes"
    "sym_get_tristate_value (ss symbol_mod) = TMod" "sym_get_tristate_value (ss symbol_no) = TNo"
    "sym_get_string_value (ss symbol_yes) = ''y''" "sym_get_string_value (ss symbol_mod) = ''m''"
    "sym_get_string_value (ss symbol_no) = ''n''"
    "sym_type (ss symbol_yes) = S_UNKNOWN" "sym_type (ss symbol_mod) = S_UNKNOWN"
    "sym_type (ss symbol_no) = S_UNKNOWN"
  using assms by (simp_all add: wf_store_def)

lemma wf_store_bool:
  "wf_store ss \<Longrightarrow> sym_type (ss s) = S_BOOLEAN \<Longrightarrow> sym_get_tristate_value (ss s) \<noteq> TMod"
  by (simp add: wf_store_def)

lemma wf_store_const:
  "wf_store ss \<Longrightarrow> SYMBOL_CONST \<in> flags (ss s) \<Longrightarrow> SYMBOL_CONST \<in> flags (ss t) \<Longrightarrow>
   sym_get_string_value (ss s) = sym_get_string_value (ss t) \<longleftrightarrow> s = t"
  by (auto simp: wf_store_def)

lemma string_value_tri:
  "sym_type (ss s) = S_BOOLEAN \<or> sym_type (ss s) = S_TRISTATE \<Longrightarrow>
   sym_get_string_value (ss s) = tri_string (sym_get_tristate_value (ss s))"
  by (auto simp: sym_get_string_value_def)

text \<open>A store in which no symbol has the value \<open>m\<close>: the configuration without modules.\<close>

definition two_valued :: "symstore \<Rightarrow> bool" where
  "two_valued ss \<longleftrightarrow> (\<forall>s. s \<noteq> symbol_mod \<longrightarrow> sym_get_tristate_value (ss s) \<noteq> TMod)"

fun mod_free :: "expr \<Rightarrow> bool" where
  "mod_free (E_SYMBOL s) = (s \<noteq> symbol_mod)"
| "mod_free (E_NOT a) = mod_free a"
| "mod_free (E_AND l r) = (mod_free l \<and> mod_free r)"
| "mod_free (E_OR l r) = (mod_free l \<and> mod_free r)"
| "mod_free _ = True"

lemma EXPR_not_mod:
  "a \<noteq> TMod \<Longrightarrow> b \<noteq> TMod \<Longrightarrow> EXPR_AND a b \<noteq> TMod"
  "a \<noteq> TMod \<Longrightarrow> b \<noteq> TMod \<Longrightarrow> EXPR_OR a b \<noteq> TMod"
  "a \<noteq> TMod \<Longrightarrow> EXPR_NOT a \<noteq> TMod"
  by (cases a; cases b; simp add: EXPR_AND_def EXPR_OR_def)+

lemma two_valued_expr_value:
  "two_valued ss \<Longrightarrow> mod_free e \<Longrightarrow> expr_value ss e \<noteq> TMod"
  by (induction e) (auto simp: two_valued_def EXPR_not_mod)

subsection \<open>The operation of a node type\<close>

definition op_val :: "expr_type \<Rightarrow> tristate \<Rightarrow> tristate \<Rightarrow> tristate" where
  "op_val ty a b = (if ty = Ty_OR then max a b else min a b)"

lemma op_val_simps: "op_val Ty_OR a b = max a b" "op_val Ty_AND a b = min a b"
  by (simp_all add: op_val_def)

lemma op_val_assoc: "op_val ty (op_val ty a b) c = op_val ty a (op_val ty b c)"
  and op_val_comm: "op_val ty a b = op_val ty b a"
  and op_val_left_comm: "op_val ty a (op_val ty b c) = op_val ty b (op_val ty a c)"
  by (simp_all add: op_val_def max.assoc min.assoc max.commute min.commute max.left_commute
      min.left_commute)

lemmas op_val_ac = op_val_assoc op_val_comm op_val_left_comm

definition bin_type :: "expr_type \<Rightarrow> bool" where
  "bin_type ty \<longleftrightarrow> ty = Ty_OR \<or> ty = Ty_AND"

lemma bin_typeE: "bin_type ty \<Longrightarrow> (ty = Ty_OR \<Longrightarrow> P) \<Longrightarrow> (ty = Ty_AND \<Longrightarrow> P) \<Longrightarrow> P"
  by (auto simp: bin_type_def)

lemma bin_type_simps [simp]: "bin_type Ty_OR" "bin_type Ty_AND"
  by (simp_all add: bin_type_def)

lemma operands_bin_type: "operands ty e = Some (l, r) \<Longrightarrow> bin_type ty"
  by (auto simp: operands_Some)

lemma operands_value:
  "operands ty e = Some (l, r) \<Longrightarrow> expr_value ss e = op_val ty (expr_value ss l) (expr_value ss r)"
  by (auto simp: operands_Some op_val_def EXPR_OR_max EXPR_AND_min)

lemma alloc_two_value:
  "bin_type ty \<Longrightarrow>
   expr_value ss (expr_alloc_two ty l r) = op_val ty (expr_value ss l) (expr_value ss r)"
  by (auto elim!: bin_typeE simp: expr_alloc_two_def op_val_def EXPR_OR_max EXPR_AND_min)

lemma operands_alloc_two [simp]:
  "bin_type ty \<Longrightarrow> operands ty (expr_alloc_two ty l r) = Some (l, r)"
  by (auto elim!: bin_typeE simp: expr_alloc_two_def)

lemma dep_alloc_two [simp]:
  "bin_type ty \<Longrightarrow> dep_expr (expr_alloc_two ty l r) \<longleftrightarrow> dep_expr l \<and> dep_expr r"
  by (auto elim!: bin_typeE simp: expr_alloc_two_def)

lemma dep_operands: "operands ty e = Some (l, r) \<Longrightarrow> dep_expr e \<longleftrightarrow> dep_expr l \<and> dep_expr r"
  by (auto simp: operands_Some)

lemma unit_op: 
  "wf_store ss \<Longrightarrow> bin_type ty \<Longrightarrow> op_val ty (expr_value ss (unit_expr ty)) a = a"
  by (auto elim!: bin_typeE simp: op_val_def wf_storeD)

lemma dep_unit [simp]: "bin_type ty \<Longrightarrow> dep_expr (unit_expr ty)"
  by (auto elim!: bin_typeE)

subsection \<open>Copying and removal of constants\<close>

lemma expr_copy_dep: "dep_expr e \<Longrightarrow> expr_copy e = e"
  by (induction e) auto

lemma dep_not_Null: "dep_expr e \<Longrightarrow> e \<noteq> Null"
  by auto

lemma eliminate_yn_value:
  "wf_store ss \<Longrightarrow> expr_value ss (expr_eliminate_yn e) = expr_value ss e"
proof (induction e rule: expr_eliminate_yn.induct)
  case (1 l r)
  have "expr_value ss l = expr_value ss (expr_eliminate_yn l)"
    "expr_value ss r = expr_value ss (expr_eliminate_yn r)"
    using 1 by simp_all
  with 1(3) show ?case by (auto simp: Let_def EXPR_AND_min wf_storeD)
next
  case (2 l r)
  have "expr_value ss l = expr_value ss (expr_eliminate_yn l)"
    "expr_value ss r = expr_value ss (expr_eliminate_yn r)"
    using 2 by simp_all
  with 2(3) show ?case by (auto simp: Let_def EXPR_OR_max wf_storeD)
qed simp_all

lemma eliminate_yn_dep: "dep_expr e \<Longrightarrow> dep_expr (expr_eliminate_yn e)"
  by (induction e rule: expr_eliminate_yn.induct) (auto simp: Let_def)

subsection \<open>Mutual elimination, for any sound equality test\<close>

text \<open>
  \<open>factors ss ty e1 e2 e1' e2'\<close>: elimination under \<open>ty\<close> took the same value \<open>r\<close> out of both
  expressions.
\<close>

definition factors :: "symstore \<Rightarrow> expr_type \<Rightarrow> expr \<Rightarrow> expr \<Rightarrow> expr \<Rightarrow> expr \<Rightarrow> bool" where
  "factors ss ty e1 e2 e1' e2' \<longleftrightarrow>
     (\<exists>r. expr_value ss e1 = op_val ty (expr_value ss e1') r \<and>
          expr_value ss e2 = op_val ty (expr_value ss e2') r)"

text \<open>Taking out the neutral value is no change.\<close>

lemma op_val_neutral:
  "bin_type ty \<Longrightarrow> op_val ty a (if ty = Ty_OR then TNo else TYes) = a"
  by (auto elim!: bin_typeE simp: op_val_def)

lemma factors_refl: "bin_type ty \<Longrightarrow> factors ss ty e1 e2 e1 e2"
  unfolding factors_def using op_val_neutral by (metis (full_types))

lemma factors_trans_right:
  assumes "bin_type ty" "factors ss ty e1 l e1' l'" "factors ss ty e1' r e1'' r'"
    and "operands ty e2 = Some (l, r)"
  shows "factors ss ty e1 e2 e1'' (expr_alloc_two ty l' r')"
proof -
  from assms(2) obtain u where u: "expr_value ss e1 = op_val ty (expr_value ss e1') u"
      "expr_value ss l = op_val ty (expr_value ss l') u"
    by (auto simp: factors_def)
  from assms(3) obtain w where w: "expr_value ss e1' = op_val ty (expr_value ss e1'') w"
      "expr_value ss r = op_val ty (expr_value ss r') w"
    by (auto simp: factors_def)
  have "expr_value ss e1 = op_val ty (expr_value ss e1'') (op_val ty u w)"
    by (simp add: u w op_val_ac)
  moreover have "expr_value ss e2 = op_val ty (expr_value ss (expr_alloc_two ty l' r')) (op_val ty u w)"
    by (simp add: operands_value[OF assms(4)] alloc_two_value[OF assms(1)] u w op_val_ac)
  ultimately show ?thesis by (auto simp: factors_def)
qed

lemma factors_sym: "factors ss ty e1 e2 e1' e2' \<Longrightarrow> factors ss ty e2 e1 e2' e1'"
  by (auto simp: factors_def)

lemma factors_trans_left:
  assumes "bin_type ty" "factors ss ty l e2 l' e2'" "factors ss ty r e2' r' e2''"
    and "operands ty e1 = Some (l, r)"
  shows "factors ss ty e1 e2 (expr_alloc_two ty l' r') e2''"
  using factors_trans_right[OF assms(1) factors_sym[OF assms(2)] factors_sym[OF assms(3)] assms(4)]
  by (rule factors_sym)

lemma factors_unit:
  "wf_store ss \<Longrightarrow> bin_type ty \<Longrightarrow> expr_value ss e1 = expr_value ss e2 \<Longrightarrow>
   factors ss ty e1 e2 (unit_expr ty) (unit_expr ty)"
  unfolding factors_def by (rule exI[of _ "expr_value ss e1"]) (simp add: unit_op)

lemma factors_eq:
  "factors ss ty e1 e2 e1' e2' \<Longrightarrow> expr_value ss e1' = expr_value ss e2' \<Longrightarrow>
   expr_value ss e1 = expr_value ss e2"
  by (auto simp: factors_def)

text \<open>The interface the elimination procedure relies on: an equality test that never lies.\<close>

locale equality_test =
  fixes eq :: "expr \<Rightarrow> expr \<Rightarrow> bool"
  assumes eq_value: "wf_store ss \<Longrightarrow> dep_expr a \<Longrightarrow> dep_expr b \<Longrightarrow> eq a b \<Longrightarrow>
    expr_value ss a = expr_value ss b"
begin

lemma leaf_factors:
  assumes "wf_store ss" "bin_type ty" "dep_expr e1" "dep_expr e2"
    and "eliminate_eq_leaf eq ty e1 e2 tc = (e1', e2', tc')"
  shows "factors ss ty e1 e2 e1' e2' \<and> dep_expr e1' \<and> dep_expr e2'"
  using assms eq_value[of ss e1 e2]
  by (auto simp: eliminate_eq_leaf_def factors_refl intro!: factors_unit split: if_splits)

lemma right_factors:
  assumes store: "wf_store ss" and ty: "bin_type ty"
  shows "dep_expr e1 \<Longrightarrow> dep_expr e2 \<Longrightarrow> eliminate_eq_right eq ty e1 e2 tc = (e1', e2', tc') \<Longrightarrow>
    factors ss ty e1 e2 e1' e2' \<and> dep_expr e1' \<and> dep_expr e2'"
proof (induction e2 arbitrary: e1 tc e1' e2' tc' rule: measure_induct_rule[of size])
  case (less e2)
  show ?case
  proof (cases "operands ty e2")
    case None
    with less.prems store ty show ?thesis
      by (subst (asm) eliminate_eq_right.simps) (auto dest: leaf_factors)
  next
    case (Some lr)
    then obtain l r where lr: "operands ty e2 = Some (l, r)" by (cases lr) auto
    obtain e1a l' tc1 where A: "eliminate_eq_right eq ty e1 l tc = (e1a, l', tc1)"
      by (cases "eliminate_eq_right eq ty e1 l tc") auto
    obtain e1b r' tc2 where B: "eliminate_eq_right eq ty e1a r tc1 = (e1b, r', tc2)"
      by (cases "eliminate_eq_right eq ty e1a r tc1") auto
    have res: "e1' = e1b" "e2' = expr_alloc_two ty l' r'"
      using less.prems(3) by (simp_all add: eliminate_eq_right.simps[of eq ty e1 e2] lr A B)
    have a: "factors ss ty e1 l e1a l' \<and> dep_expr e1a \<and> dep_expr l'"
      using less.IH[OF _ less.prems(1) _ A] lr less.prems(2) operands_size[OF lr] dep_operands[OF lr]
      by simp
    then have b: "factors ss ty e1a r e1b r' \<and> dep_expr e1b \<and> dep_expr r'"
      using less.IH[OF _ _ _ B] lr less.prems(2) operands_size[OF lr] dep_operands[OF lr] by simp
    show ?thesis
      using a b factors_trans_right[OF ty _ _ lr] ty by (auto simp: res)
  qed
qed

lemma both_factors:
  assumes store: "wf_store ss" and ty: "bin_type ty"
  shows "dep_expr e1 \<Longrightarrow> dep_expr e2 \<Longrightarrow> eliminate_eq_both eq ty e1 e2 tc = (e1', e2', tc') \<Longrightarrow>
    factors ss ty e1 e2 e1' e2' \<and> dep_expr e1' \<and> dep_expr e2'"
proof (induction e1 arbitrary: e2 tc e1' e2' tc' rule: measure_induct_rule[of size])
  case (less e1)
  show ?case
  proof (cases "operands ty e1")
    case None
    with less.prems store ty show ?thesis
      by (subst (asm) eliminate_eq_both.simps) (auto dest: right_factors)
  next
    case (Some lr)
    then obtain l r where lr: "operands ty e1 = Some (l, r)" by (cases lr) auto
    obtain l' e2a tc1 where A: "eliminate_eq_both eq ty l e2 tc = (l', e2a, tc1)"
      by (cases "eliminate_eq_both eq ty l e2 tc") auto
    obtain r' e2b tc2 where B: "eliminate_eq_both eq ty r e2a tc1 = (r', e2b, tc2)"
      by (cases "eliminate_eq_both eq ty r e2a tc1") auto
    have res: "e2' = e2b" "e1' = expr_alloc_two ty l' r'"
      using less.prems(3) by (simp_all add: eliminate_eq_both.simps[of eq ty e1 e2] lr A B)
    have a: "factors ss ty l e2 l' e2a \<and> dep_expr e2a \<and> dep_expr l'"
      using less.IH[OF _ _ less.prems(2) A] lr less.prems(1) operands_size[OF lr] dep_operands[OF lr]
      by simp
    then have b: "factors ss ty r e2a r' e2b \<and> dep_expr e2b \<and> dep_expr r'"
      using less.IH[OF _ _ _ B] lr less.prems(1) operands_size[OF lr] dep_operands[OF lr] by simp
    show ?thesis
      using a b factors_trans_left[OF ty _ _ lr] ty by (auto simp: res)
  qed
qed

lemma root_step:
  assumes store: "wf_store ss" and dep: "dep_expr e1" "dep_expr e2"
    and res: "(if etype e = Ty_OR \<or> etype e = Ty_AND
          then eliminate_eq_both eq (etype e) e1 e2 tc else (e1, e2, tc)) = (e1', e2', tc')"
  shows "dep_expr e1' \<and> dep_expr e2' \<and>
    (expr_value ss e1' = expr_value ss e2' \<longrightarrow> expr_value ss e1 = expr_value ss e2)"
proof (cases "etype e = Ty_OR \<or> etype e = Ty_AND")
  case True
  then have "bin_type (etype e)" by (simp add: bin_type_def)
  from both_factors[OF store this dep] True res show ?thesis
    by (metis factors_eq)
qed (use dep res in auto)

text \<open>If elimination leaves expressions of the same value, the originals had the same value.\<close>

lemma root_value:
  assumes store: "wf_store ss" and dep: "dep_expr e1" "dep_expr e2"
    and res: "eliminate_eq_root eq e1 e2 tc = (r1, r2, tc')"
    and same: "expr_value ss r1 = expr_value ss r2"
  shows "expr_value ss e1 = expr_value ss e2"
proof -
  define A where "A = (if etype e1 = Ty_OR \<or> etype e1 = Ty_AND
     then eliminate_eq_both eq (etype e1) e1 e2 tc else (e1, e2, tc))"
  obtain a1 a2 ta where A: "A = (a1, a2, ta)" by (cases A) auto
  have a: "dep_expr a1 \<and> dep_expr a2 \<and>
      (expr_value ss a1 = expr_value ss a2 \<longrightarrow> expr_value ss e1 = expr_value ss e2)"
    by (rule root_step[OF store dep]) (use A A_def in auto)
  define B where "B = (if etype a1 \<noteq> etype a2 \<and> (etype a2 = Ty_OR \<or> etype a2 = Ty_AND)
     then eliminate_eq_both eq (etype a2) a1 a2 ta else (a1, a2, ta))"
  obtain b1 b2 tb where B: "B = (b1, b2, tb)" by (cases B) auto
  have b: "expr_value ss b1 = expr_value ss b2 \<longrightarrow> expr_value ss a1 = expr_value ss a2"
    using root_step[of ss a1 a2 a2 ta b1 b2 tb] store a B B_def by (auto split: if_splits)
  have "r1 = expr_eliminate_yn b1" "r2 = expr_eliminate_yn b2"
    using res dep[THEN dep_not_Null]
    by (simp_all add: eliminate_eq_root_def A[unfolded A_def] B[unfolded B_def] split del: if_split)
  with same have "expr_value ss b1 = expr_value ss b2"
    by (simp add: eliminate_yn_value[OF store])
  with a b show ?thesis by blast
qed

end

subsection \<open>The equality test\<close>

lemma expr_eq_fuel_sound: "equality_test (expr_eq_fuel n)"
proof (induction n)
  case 0
  show ?case by unfold_locales simp
next
  case (Suc n)
  show ?case
  proof (unfold_locales, goal_cases)
    case (1 ss a b)
    note store = 1(1) and dep = 1(2,3) and eq = 1(4)
    show ?case
    proof (cases "etype a = Ty_AND \<or> etype a = Ty_OR")
      case True
      obtain r1 r2 t where res: "eliminate_eq_root (expr_eq_fuel n) a b 0 = (r1, r2, t)"
        by (cases "eliminate_eq_root (expr_eq_fuel n) a b 0") auto
      have "\<exists>s. r1 = E_SYMBOL s \<and> r2 = E_SYMBOL s"
        using eq True res dep[THEN expr_copy_dep]
        by (cases a; cases b) (auto split: expr.splits prod.splits if_splits)
      then show ?thesis
        using equality_test.root_value[OF Suc store dep res] by auto
    next
      case False
      with eq dep show ?thesis
        using equality_test.eq_value[OF Suc store]
        by (cases a; cases b) (auto split: if_splits)
    qed
  qed
qed

interpretation expr_eq: equality_test expr_eq
  by unfold_locales (auto simp: expr_eq_def intro: equality_test.eq_value[OF expr_eq_fuel_sound])

subsection \<open>The fuel of the equality test\<close>

definition agree_below :: "nat \<Rightarrow> (expr \<Rightarrow> expr \<Rightarrow> bool) \<Rightarrow> (expr \<Rightarrow> expr \<Rightarrow> bool) \<Rightarrow> bool" where
  "agree_below k eq eq' \<longleftrightarrow> (\<forall>x y. esize x < k \<longrightarrow> eq x y = eq' x y)"

lemma esize_unit [simp]: "bin_type ty \<Longrightarrow> esize (unit_expr ty) = 1"
  by (auto elim!: bin_typeE)

lemma esize_copy: "esize (expr_copy e) \<le> esize e"
  by (induction e) auto

lemma leaf_cong:
  assumes "agree_below k eq eq'" "1 < k" "bin_type ty" "esize e1 < k"
  shows "eliminate_eq_leaf eq ty e1 e2 tc = eliminate_eq_leaf eq' ty e1 e2 tc \<and>
    esize (fst (eliminate_eq_leaf eq' ty e1 e2 tc)) < k"
  using assms by (auto simp: eliminate_eq_leaf_def agree_below_def)

lemma right_cong:
  assumes "agree_below k eq eq'" "1 < k" "bin_type ty"
  shows "esize e1 < k \<Longrightarrow> eliminate_eq_right eq ty e1 e2 tc = eliminate_eq_right eq' ty e1 e2 tc \<and>
    esize (fst (eliminate_eq_right eq' ty e1 e2 tc)) < k"
proof (induction e2 arbitrary: e1 tc rule: measure_induct_rule[of size])
  case (less e2)
  show ?case
  proof (cases "operands ty e2")
    case None
    with leaf_cong[OF assms less.prems] show ?thesis
      by (simp add: eliminate_eq_right.simps[of _ ty e1 e2])
  next
    case (Some lr)
    then obtain l r where lr: "operands ty e2 = Some (l, r)" by (cases lr) auto
    note sizes = operands_size[OF lr]
    have A: "eliminate_eq_right eq ty e1 l tc = eliminate_eq_right eq' ty e1 l tc \<and>
      esize (fst (eliminate_eq_right eq' ty e1 l tc)) < k"
      using less.IH less.prems sizes by blast
    obtain e1a l' tc1 where la: "eliminate_eq_right eq' ty e1 l tc = (e1a, l', tc1)"
      by (cases "eliminate_eq_right eq' ty e1 l tc") auto
    have "eliminate_eq_right eq ty e1a r tc1 = eliminate_eq_right eq' ty e1a r tc1 \<and>
      esize (fst (eliminate_eq_right eq' ty e1a r tc1)) < k"
      using less.IH sizes A la by auto
    with A la show ?thesis
      by (auto simp: eliminate_eq_right.simps[of _ ty e1 e2] lr split: prod.splits)
  qed
qed

lemma both_cong:
  assumes "agree_below k eq eq'" "1 < k" "bin_type ty"
  shows "esize e1 < k \<Longrightarrow> eliminate_eq_both eq ty e1 e2 tc = eliminate_eq_both eq' ty e1 e2 tc"
proof (induction e1 arbitrary: e2 tc rule: measure_induct_rule[of size])
  case (less e1)
  show ?case
  proof (cases "operands ty e1")
    case None
    with right_cong[OF assms less.prems] show ?thesis
      by (simp add: eliminate_eq_both.simps[of _ ty e1 e2])
  next
    case (Some lr)
    then obtain l r where lr: "operands ty e1 = Some (l, r)" by (cases lr) auto
    have "esize l < k" "esize r < k"
      using less.prems operands_esize[OF lr] by simp_all
    with less.IH operands_size[OF lr] show ?thesis
      by (simp add: eliminate_eq_both.simps[of _ ty e1 e2] lr)
  qed
qed

lemma right_keeps_type:
  "operands ty e2 = Some (l, r) \<Longrightarrow>
   operands ty (fst (snd (eliminate_eq_right eq ty e1 e2 tc))) \<noteq> None"
  by (auto simp: eliminate_eq_right.simps[of _ ty e1 e2] operands_bin_type split: prod.splits)

lemma both_keeps_type:
  "operands ty e2 \<noteq> None \<Longrightarrow> operands ty (fst (snd (eliminate_eq_both eq ty e1 e2 tc))) \<noteq> None"
proof (induction e1 arbitrary: e2 tc rule: measure_induct_rule[of size])
  case (less e1)
  show ?case
  proof (cases "operands ty e1")
    case None
    with less.prems right_keeps_type show ?thesis
      by (fastforce simp: eliminate_eq_both.simps[of _ ty e1 e2])
  next
    case (Some lr)
    then obtain l r where lr: "operands ty e1 = Some (l, r)" by (cases lr) auto
    obtain l' e2a tc1 where A: "eliminate_eq_both eq ty l e2 tc = (l', e2a, tc1)"
      by (cases "eliminate_eq_both eq ty l e2 tc") auto
    have "operands ty e2a \<noteq> None"
      using less.IH[of l e2 tc] less.prems A operands_size[OF lr] by simp
    then have "operands ty (fst (snd (eliminate_eq_both eq ty r e2a tc1))) \<noteq> None"
      using less.IH[of r e2a tc1] operands_size[OF lr] by simp
    then show ?thesis
      by (auto simp: eliminate_eq_both.simps[of _ ty e1 e2] lr A split: prod.splits)
  qed
qed

lemma operands_etype: "bin_type ty \<Longrightarrow> operands ty e \<noteq> None \<longleftrightarrow> etype e = ty"
  by (cases e) (auto elim!: bin_typeE)

lemma root_cong:
  assumes agree: "agree_below (esize e1) eq eq'" and ty: "bin_type (etype e1)" "etype e2 = etype e1"
  shows "eliminate_eq_root eq e1 e2 tc = eliminate_eq_root eq' e1 e2 tc"
proof -
  let ?ty = "etype e1"
  obtain l r where lr: "operands ?ty e1 = Some (l, r)"
    using operands_etype[OF ty(1), of e1] by auto
  have k: "1 < esize e1" "esize l < esize e1" "esize r < esize e1"
    using operands_esize[OF lr] esize_pos[of l] esize_pos[of r] by linarith+
  have same: "eliminate_eq_both eq ?ty e1 e2 tc = eliminate_eq_both eq' ?ty e1 e2 tc"
    by (simp add: eliminate_eq_both.simps[of _ ?ty e1 e2] lr both_cong[OF agree k(1) ty(1) k(2)]
        both_cong[OF agree k(1) ty(1) k(3)])
  obtain a b t where res: "eliminate_eq_both eq' ?ty e1 e2 tc = (a, b, t)"
    by (cases "eliminate_eq_both eq' ?ty e1 e2 tc") auto
  have "operands ?ty a \<noteq> None"
    using res by (simp add: eliminate_eq_both.simps[of _ ?ty e1 e2] lr ty(1) split: prod.splits)
       (auto simp: ty(1))
  moreover have "operands ?ty b \<noteq> None"
    using both_keeps_type[of ?ty e2 eq' e1 tc] res operands_etype[OF ty(1), of e2] ty(2) by simp
  ultimately have "etype a = ?ty" "etype b = ?ty"
    using operands_etype[OF ty(1)] by blast+
  with same res show ?thesis
    using ty(1) by (auto simp: eliminate_eq_root_def bin_type_def)
qed

lemma same_symbol_case:
  "(case p of (E_SYMBOL a, E_SYMBOL b, _) \<Rightarrow> a = b | _ \<Rightarrow> False) \<longleftrightarrow>
   (\<exists>s. (fst p, fst (snd p)) = (E_SYMBOL s, E_SYMBOL s))"
proof -
  obtain x y t where "p = (x, y, t)" by (cases p) auto
  then show ?thesis by (cases x; cases y) auto
qed

lemma expr_eq_fuel_bin:
  assumes "bin_type (etype e1)" "etype e2 = etype e1"
  shows "expr_eq_fuel (Suc n) e1 e2 \<longleftrightarrow>
    (let p = eliminate_eq_root (expr_eq_fuel n) (expr_copy e1) (expr_copy e2) 0
     in \<exists>s. (fst p, fst (snd p)) = (E_SYMBOL s, E_SYMBOL s))"
  using assms by (cases e1; cases e2) (simp_all only: expr_eq_fuel.simps same_symbol_case[symmetric]
      Let_def, simp_all add: bin_type_def)

lemma expr_eq_fuel_atoms:
  "expr_eq_fuel (Suc n) (E_SYMBOL a) (E_SYMBOL b) \<longleftrightarrow> a = b"
  "expr_eq_fuel (Suc n) (E_EQUAL a c) (E_EQUAL b d) \<longleftrightarrow> a = b \<and> c = d"
  "expr_eq_fuel (Suc n) (E_UNEQUAL a c) (E_UNEQUAL b d) \<longleftrightarrow> a = b \<and> c = d"
  "expr_eq_fuel (Suc n) (E_NOT e) (E_NOT e') \<longleftrightarrow> expr_eq_fuel n e e'"
  by simp_all

lemma expr_eq_fuel_panic:
  "etype e1 \<in> {Ty_LIST, Ty_RANGE, Ty_NONE} \<Longrightarrow> \<not> expr_eq_fuel n e1 e2"
  by (cases n; cases e1) auto

lemma expr_eq_fuel_type: "etype e1 \<noteq> etype e2 \<Longrightarrow> \<not> expr_eq_fuel n e1 e2"
  by (cases n) auto

declare expr_eq_fuel.simps(2) [simp del]

lemma expr_eq_fuel_enough:
  "esize e1 \<le> n \<Longrightarrow> esize e1 \<le> m \<Longrightarrow> expr_eq_fuel n e1 e2 = expr_eq_fuel m e1 e2"
proof (induction e1 arbitrary: e2 n m rule: measure_induct_rule[of esize])
  case (less e1)
  obtain n' m' where nm: "n = Suc n'" "m = Suc m'"
    using less.prems esize_pos[of e1] by (metis Suc_le_D Suc_pred)
  have agree: "agree_below (esize (expr_copy e1)) (expr_eq_fuel n') (expr_eq_fuel m')"
    unfolding agree_below_def
  proof (intro allI impI)
    fix x y
    assume "esize x < esize (expr_copy e1)"
    then have "esize x < esize e1" using esize_copy[of e1] by linarith
    with less.prems nm show "expr_eq_fuel n' x y = expr_eq_fuel m' x y"
      by (intro less.IH) auto
  qed
  show ?case
  proof (cases "etype e1 = etype e2 \<and> bin_type (etype e1)")
    case True
    have "etype (expr_copy e1) = etype e1" "etype (expr_copy e2) = etype e2"
      using True by (cases e1; cases e2; simp add: bin_type_def)+
    then have "eliminate_eq_root (expr_eq_fuel n') (expr_copy e1) (expr_copy e2) 0 =
       eliminate_eq_root (expr_eq_fuel m') (expr_copy e1) (expr_copy e2) 0"
      using True by (intro root_cong[OF agree]) auto
    with True show ?thesis
      unfolding nm by (auto simp: expr_eq_fuel_bin)
  next
    case False
    show ?thesis
    proof (cases "etype e1 = etype e2")
      case True
      with False have "\<not> bin_type (etype e1)" by simp
      note nonbin = this
      show ?thesis
      proof (cases "etype e1 = Ty_NOT")
        case True
        then obtain a b where "e1 = E_NOT a" "e2 = E_NOT b"
          using \<open>etype e1 = etype e2\<close> by (cases e1; cases e2) auto
        moreover from this less.prems nm have "expr_eq_fuel n' a b = expr_eq_fuel m' a b"
          by (intro less.IH) auto
        ultimately show ?thesis by (simp add: nm expr_eq_fuel_atoms)
      next
        case False
        with nonbin True show ?thesis
          by (cases e1; cases e2) (simp_all add: nm expr_eq_fuel_atoms expr_eq_fuel_panic)
      qed
    qed (simp add: expr_eq_fuel_type)
  qed
qed

lemma expr_eq_fuel_esize: "esize e1 \<le> n \<Longrightarrow> expr_eq_fuel n e1 e2 = expr_eq e1 e2"
  unfolding expr_eq_def by (rule expr_eq_fuel_enough) simp_all

text \<open>The equation of the code, without fuel.\<close>

lemma expr_eq_bin:
  assumes "bin_type (etype e1)" "etype e2 = etype e1"
  shows "expr_eq e1 e2 \<longleftrightarrow>
    (\<exists>s. expr_eliminate_eq (expr_copy e1) (expr_copy e2) = (E_SYMBOL s, E_SYMBOL s))"
proof -
  obtain n where n: "esize e1 = Suc n"
    using esize_pos[of e1] gr0_conv_Suc by blast
  have agree: "agree_below (esize (expr_copy e1)) (expr_eq_fuel n) expr_eq"
    unfolding agree_below_def
    using esize_copy[of e1] n by (auto intro!: expr_eq_fuel_esize)
  have "etype (expr_copy e1) = etype e1" "etype (expr_copy e2) = etype e2"
    using assms by (cases e1; cases e2; simp add: bin_type_def)+
  then have "eliminate_eq_root (expr_eq_fuel n) (expr_copy e1) (expr_copy e2) 0 =
      eliminate_eq_root expr_eq (expr_copy e1) (expr_copy e2) 0"
    using assms by (intro root_cong[OF agree]) auto
  moreover have "expr_eq e1 e2 = expr_eq_fuel (Suc n) e1 e2"
    by (simp only: expr_eq_def n)
  ultimately show ?thesis
    by (auto simp: expr_eq_fuel_bin[OF assms] expr_eliminate_eq_def Let_def split: prod.splits)
qed

lemma expr_eq_atoms [simp]:
  "expr_eq (E_SYMBOL a) (E_SYMBOL b) \<longleftrightarrow> a = b"
  "expr_eq (E_EQUAL a c) (E_EQUAL b d) \<longleftrightarrow> a = b \<and> c = d"
  "expr_eq (E_UNEQUAL a c) (E_UNEQUAL b d) \<longleftrightarrow> a = b \<and> c = d"
  "expr_eq (E_NOT e) (E_NOT e') \<longleftrightarrow> expr_eq e e'"
  by (simp_all add: expr_eq_def expr_eq_fuel_atoms)

lemma expr_eq_type: "expr_eq a b \<Longrightarrow> etype a = etype b"
  unfolding expr_eq_def using expr_eq_fuel_type by blast

subsection \<open>Normalisation preserves the value\<close>

lemma tri_string_y [simp]:
  "tri_string t = ''y'' \<longleftrightarrow> t = TYes" "tri_string t = ''m'' \<longleftrightarrow> t = TMod"
  "tri_string t = ''n'' \<longleftrightarrow> t = TNo"
  "''y'' = tri_string t \<longleftrightarrow> t = TYes" "''m'' = tri_string t \<longleftrightarrow> t = TMod"
  "''n'' = tri_string t \<longleftrightarrow> t = TNo"
  by (cases t; simp)+

lemma transform_equal_value:
  assumes "wf_store ss"
  shows "expr_value ss (transform_equal ss a b) = expr_value ss (E_EQUAL a b)"
    "expr_value ss (transform_unequal ss a b) = expr_value ss (E_UNEQUAL a b)"
  using assms wf_store_bool[OF assms, of a] string_value_tri[of ss a]
  by (cases "sym_get_tristate_value (ss a)"; auto simp: wf_storeD expr_alloc_symbol_def)+

lemma transform_leaf_dep:
  "dep_expr (transform_equal ss a b)" "dep_expr (transform_unequal ss a b)"
  "dep_expr (transform_not_symbol s)"
  by (simp_all add: expr_alloc_symbol_def transform_not_symbol_def)

lemma transform_not_symbol_value:
  "wf_store ss \<Longrightarrow>
   expr_value ss (transform_not_symbol s) = EXPR_NOT (sym_get_tristate_value (ss s))"
  by (simp add: transform_not_symbol_def wf_storeD)

lemma expr_transform_value:
  "wf_store ss \<Longrightarrow> dep_expr e \<Longrightarrow>
   expr_value ss (expr_transform ss e) = expr_value ss e \<and> dep_expr (expr_transform ss e)"
proof (induction ss e rule: expr_transform.induct)
  case (5 ss a)
  have a: "expr_value ss (expr_transform ss a) = expr_value ss a" "dep_expr (expr_transform ss a)"
    using 5 by auto
  show ?case
  proof (cases "expr_transform ss a")
    case (E_OR x y)
    with 5(2)[OF E_OR] 5(5) a show ?thesis
      by (auto simp: expr_alloc_one_def EXPR_NOT_OR dest: sym)
  next
    case (E_AND x y)
    with 5(3)[OF E_AND] 5(5) a show ?thesis
      by (auto simp: expr_alloc_one_def EXPR_NOT_AND dest: sym)
  next
    case (E_NOT b)
    with 5(4)[OF E_NOT] 5(5) a show ?thesis
      by (auto dest: sym)
  next
    case (E_SYMBOL s)
    with a 5(5) show ?thesis
      by (simp add: transform_not_symbol_value transform_leaf_dep)
  qed (use a in auto)
next
  case (3 ss a b)
  then show ?case
    by (simp only: expr_transform.simps transform_equal_value transform_leaf_dep simp_thms)
next
  case (4 ss a b)
  then show ?case
    by (simp only: expr_transform.simps transform_equal_value transform_leaf_dep simp_thms)
qed auto

end
