(* ===== verification/ExprDups.thy ===== *)
theory ExprDups
  imports ExprSem
begin

text \<open>
  The simplifiers that combine operands: the join tables, common-operand extraction, and the
  two duplicate-elimination passes with their loop, which is proved to terminate.
\<close>

subsection \<open>The join tables\<close>

lemma cmp_right_iff:
  "cmp_right Ty_EQUAL e = Some b \<longleftrightarrow> (\<exists>a. e = E_EQUAL a b)"
  "cmp_right Ty_UNEQUAL e = Some b \<longleftrightarrow> (\<exists>a. e = E_UNEQUAL a b)"
  by (cases e; simp)+

lemma etype_symbol_iff: "etype e = Ty_SYMBOL \<longleftrightarrow> (\<exists>a. e = E_SYMBOL a)"
  by (cases e) simp_all

lemma is_not_symbol_iff: "is_not_symbol e \<longleftrightarrow> (\<exists>a. e = E_NOT (E_SYMBOL a))"
  by (cases e rule: is_not_symbol.cases) simp_all

lemmas join_shapes = cmp_right_iff etype_symbol_iff is_not_symbol_iff cmp_pair_def sym_and_cmp_def

lemma cmp_value_tri:
  assumes "wf_store ss" "sym_type (ss a) = S_BOOLEAN \<or> sym_type (ss a) = S_TRISTATE"
  shows "expr_value ss (E_EQUAL a symbol_yes) = (if sym_get_tristate_value (ss a) = TYes then TYes else TNo)"
    "expr_value ss (E_EQUAL a symbol_mod) = (if sym_get_tristate_value (ss a) = TMod then TYes else TNo)"
    "expr_value ss (E_EQUAL a symbol_no) = (if sym_get_tristate_value (ss a) = TNo then TYes else TNo)"
    "expr_value ss (E_UNEQUAL a symbol_yes) = (if sym_get_tristate_value (ss a) = TYes then TNo else TYes)"
    "expr_value ss (E_UNEQUAL a symbol_mod) = (if sym_get_tristate_value (ss a) = TMod then TNo else TYes)"
    "expr_value ss (E_UNEQUAL a symbol_no) = (if sym_get_tristate_value (ss a) = TNo then TNo else TYes)"
  by (simp_all add: string_value_tri[of ss a, OF assms(2)] wf_storeD[OF assms(1)])

text \<open>The rows of the table for \<open>||\<close>, as facts about values.\<close>

lemma join_or_rows:
  assumes "wf_store ss" "sym_type (ss a) = S_BOOLEAN \<or> sym_type (ss a) = S_TRISTATE"
  shows
    "max (expr_value ss (E_EQUAL a symbol_yes)) (expr_value ss (E_EQUAL a symbol_mod)) =
       expr_value ss (E_UNEQUAL a symbol_no)"
    "max (expr_value ss (E_EQUAL a symbol_yes)) (expr_value ss (E_EQUAL a symbol_no)) =
       expr_value ss (E_UNEQUAL a symbol_mod)"
    "max (expr_value ss (E_EQUAL a symbol_mod)) (expr_value ss (E_EQUAL a symbol_no)) =
       expr_value ss (E_UNEQUAL a symbol_yes)"
  by (cases "sym_get_tristate_value (ss a)"; simp add: cmp_value_tri[OF assms] del: expr_value.simps)+

lemma join_or_bool_row:
  assumes "wf_store ss" "sym_type (ss a) = S_BOOLEAN"
  shows "max (expr_value ss (E_SYMBOL a)) (expr_value ss (E_NOT (E_SYMBOL a))) = TYes"
  using wf_store_bool[OF assms] by (cases "sym_get_tristate_value (ss a)") simp_all

lemma join_and_rows:
  assumes "wf_store ss" "sym_type (ss a) = S_BOOLEAN \<or> sym_type (ss a) = S_TRISTATE"
  shows
    "min (expr_value ss (E_SYMBOL a)) (expr_value ss (E_EQUAL a symbol_yes)) =
       expr_value ss (E_EQUAL a symbol_yes)"
    "min (expr_value ss (E_SYMBOL a)) (expr_value ss (E_UNEQUAL a symbol_no)) =
       expr_value ss (E_SYMBOL a)"
    "min (expr_value ss (E_SYMBOL a)) (expr_value ss (E_UNEQUAL a symbol_mod)) =
       expr_value ss (E_EQUAL a symbol_yes)"
    "min (expr_value ss (E_UNEQUAL a symbol_yes)) (expr_value ss (E_UNEQUAL a symbol_no)) =
       expr_value ss (E_EQUAL a symbol_mod)"
    "min (expr_value ss (E_UNEQUAL a symbol_yes)) (expr_value ss (E_UNEQUAL a symbol_mod)) =
       expr_value ss (E_EQUAL a symbol_no)"
    "min (expr_value ss (E_UNEQUAL a symbol_mod)) (expr_value ss (E_UNEQUAL a symbol_no)) =
       expr_value ss (E_EQUAL a symbol_yes)"
  by (simp_all add: cmp_value_tri[OF assms] del: expr_value.simps(6,7))
     (cases "sym_get_tristate_value (ss a)"; simp)+

lemma join_eq_uneq_value:
  assumes "wf_store ss" "join_eq_uneq ss a (E_EQUAL a b) (E_UNEQUAL a c) = Some e"
  shows "expr_value ss e = min (expr_value ss (E_EQUAL a b)) (expr_value ss (E_UNEQUAL a c)) \<and>
    dep_expr e"
  using assms wf_store_const[OF assms(1), of b c]
  by (auto simp: join_eq_uneq_def expr_ops wf_storeD split: if_splits)

lemma join_eq_uneq_shape:
  "join_eq_uneq ss s e1 e2 = Some e \<Longrightarrow> \<exists>a b a' c. e1 = E_EQUAL a b \<and> e2 = E_UNEQUAL a' c"
  by (auto simp: join_eq_uneq_def cmp_right_iff split: option.splits)

text \<open>What the shape tests say once the symbol of each operand is known.\<close>

lemma cmp_right_sym1:
  "join_sym1 e = Some a \<Longrightarrow> cmp_right Ty_EQUAL e = Some b \<longleftrightarrow> e = E_EQUAL a b"
  "join_sym1 e = Some a \<Longrightarrow> cmp_right Ty_UNEQUAL e = Some b \<longleftrightarrow> e = E_UNEQUAL a b"
  "join_sym1 e = Some a \<Longrightarrow> etype e = Ty_SYMBOL \<longleftrightarrow> e = E_SYMBOL a"
  "join_sym1 e = Some a \<Longrightarrow> is_not_symbol e \<longleftrightarrow> e = E_NOT (E_SYMBOL a)"
  by (cases e rule: join_sym1.cases; auto)+

lemma cmp_right_sym2:
  "join_sym2 e = Some a \<Longrightarrow> cmp_right Ty_EQUAL e = Some b \<longleftrightarrow> e = E_EQUAL a b"
  "join_sym2 e = Some a \<Longrightarrow> cmp_right Ty_UNEQUAL e = Some b \<longleftrightarrow> e = E_UNEQUAL a b"
  "join_sym2 e = Some a \<Longrightarrow> etype e = Ty_SYMBOL \<longleftrightarrow> e = E_SYMBOL a"
  "join_sym2 e = Some a \<Longrightarrow> is_not_symbol e \<longleftrightarrow> e = E_NOT (E_SYMBOL a)"
  by (cases e rule: join_sym2.cases; auto)+

lemma cmp_pair_value:
  assumes "join_sym1 e1 = Some a" "join_sym2 e2 = Some a" and "ty = Ty_EQUAL \<or> ty = Ty_UNEQUAL"
    and "cmp_pair ty e1 e2 u v"
  shows "max (expr_value ss e1) (expr_value ss e2) =
      max (expr_value ss (expr_alloc_comp ty a u)) (expr_value ss (expr_alloc_comp ty a v))"
    "min (expr_value ss e1) (expr_value ss e2) =
      min (expr_value ss (expr_alloc_comp ty a u)) (expr_value ss (expr_alloc_comp ty a v))"
  using assms(3,4)
  by (auto simp: cmp_pair_def cmp_right_sym1[OF assms(1)] cmp_right_sym2[OF assms(2)]
      expr_alloc_comp_def max.commute min.commute simp del: expr_value.simps)

lemma sym_and_cmp_value:
  assumes "join_sym1 e1 = Some a" "join_sym2 e2 = Some a" and "ty = Ty_EQUAL \<or> ty = Ty_UNEQUAL"
    and "sym_and_cmp ty e1 e2 u"
  shows "min (expr_value ss e1) (expr_value ss e2) =
      min (expr_value ss (E_SYMBOL a)) (expr_value ss (expr_alloc_comp ty a u))"
  using assms(3,4)
  by (auto simp: sym_and_cmp_def cmp_right_sym1[OF assms(1)] cmp_right_sym2[OF assms(2)]
      expr_alloc_comp_def min.commute simp del: expr_value.simps)

lemma join_dep [simp]:
  "dep_expr (expr_alloc_comp Ty_EQUAL a b)" "dep_expr (expr_alloc_comp Ty_UNEQUAL a b)"
  "dep_expr (expr_alloc_symbol a)"
  by (simp_all add: expr_ops)

lemma alloc_comp_simps:
  "expr_alloc_comp Ty_EQUAL a b = E_EQUAL a b" "expr_alloc_comp Ty_UNEQUAL a b = E_UNEQUAL a b"
  by (simp_all add: expr_ops)

lemma join_or_branches:
  assumes store: "wf_store ss" and a: "join_sym1 e1 = Some a" "join_sym2 e2 = Some a"
    and ty: "sym_type (ss a) = S_BOOLEAN \<or> sym_type (ss a) = S_TRISTATE"
  shows
    "cmp_pair Ty_EQUAL e1 e2 symbol_yes symbol_mod \<Longrightarrow>
       expr_value ss (E_UNEQUAL a symbol_no) = max (expr_value ss e1) (expr_value ss e2)"
    "cmp_pair Ty_EQUAL e1 e2 symbol_yes symbol_no \<Longrightarrow>
       expr_value ss (E_UNEQUAL a symbol_mod) = max (expr_value ss e1) (expr_value ss e2)"
    "cmp_pair Ty_EQUAL e1 e2 symbol_mod symbol_no \<Longrightarrow>
       expr_value ss (E_UNEQUAL a symbol_yes) = max (expr_value ss e1) (expr_value ss e2)"
    "sym_type (ss a) = S_BOOLEAN \<Longrightarrow>
       (is_not_symbol e1 \<and> etype e2 = Ty_SYMBOL) \<or> (is_not_symbol e2 \<and> etype e1 = Ty_SYMBOL) \<Longrightarrow>
       max (expr_value ss e1) (expr_value ss e2) = TYes"
proof -
  note pair = cmp_pair_value(1)[OF a disjI1[OF refl], of _ _ ss, unfolded alloc_comp_simps]
  note rows = join_or_rows[OF store ty]
  show "cmp_pair Ty_EQUAL e1 e2 symbol_yes symbol_mod \<Longrightarrow>
       expr_value ss (E_UNEQUAL a symbol_no) = max (expr_value ss e1) (expr_value ss e2)"
    by (drule pair) (simp only: rows)
  show "cmp_pair Ty_EQUAL e1 e2 symbol_yes symbol_no \<Longrightarrow>
       expr_value ss (E_UNEQUAL a symbol_mod) = max (expr_value ss e1) (expr_value ss e2)"
    by (drule pair) (simp only: rows)
  show "cmp_pair Ty_EQUAL e1 e2 symbol_mod symbol_no \<Longrightarrow>
       expr_value ss (E_UNEQUAL a symbol_yes) = max (expr_value ss e1) (expr_value ss e2)"
    by (drule pair) (simp only: rows)
  show "sym_type (ss a) = S_BOOLEAN \<Longrightarrow>
       (is_not_symbol e1 \<and> etype e2 = Ty_SYMBOL) \<or> (is_not_symbol e2 \<and> etype e1 = Ty_SYMBOL) \<Longrightarrow>
       max (expr_value ss e1) (expr_value ss e2) = TYes"
    using join_or_bool_row[OF store, of a]
    by (auto simp: cmp_right_sym1[OF a(1)] cmp_right_sym2[OF a(2)] max.commute
        simp del: expr_value.simps)
qed

lemma expr_join_or_value:
  assumes store: "wf_store ss" and dep: "dep_expr e1" "dep_expr e2"
    and res: "expr_join_or ss e1 e2 \<noteq> Null"
  shows "expr_value ss (expr_join_or ss e1 e2) = max (expr_value ss e1) (expr_value ss e2) \<and>
    dep_expr (expr_join_or ss e1 e2)"
proof (cases "expr_eq e1 e2")
  case True
  then show ?thesis
    using expr_eq.eq_value[OF store dep] dep(1) by (simp add: expr_join_or_def expr_copy_dep)
next
  case False
  then obtain a where a: "join_sym1 e1 = Some a" "join_sym2 e2 = Some a"
      and ty: "sym_type (ss a) = S_BOOLEAN \<or> sym_type (ss a) = S_TRISTATE"
    using res by (auto simp: expr_join_or_def split: option.splits if_splits)
  note branches = join_or_branches[OF store a ty]
  have "expr_value ss (expr_alloc_symbol symbol_yes) = TYes"
    by (simp add: expr_alloc_symbol_def wf_storeD[OF store])
  with False res a show ?thesis
    unfolding expr_join_or_def
    by (simp add: alloc_comp_simps branches del: expr_value.simps split: if_splits)
qed

lemma join_and_branches:
  assumes store: "wf_store ss" and a: "join_sym1 e1 = Some a" "join_sym2 e2 = Some a"
    and ty: "sym_type (ss a) = S_BOOLEAN \<or> sym_type (ss a) = S_TRISTATE"
  shows
    "sym_and_cmp Ty_EQUAL e1 e2 symbol_yes \<Longrightarrow>
       expr_value ss (E_EQUAL a symbol_yes) = min (expr_value ss e1) (expr_value ss e2)"
    "sym_and_cmp Ty_UNEQUAL e1 e2 symbol_no \<Longrightarrow>
       expr_value ss (E_SYMBOL a) = min (expr_value ss e1) (expr_value ss e2)"
    "sym_and_cmp Ty_UNEQUAL e1 e2 symbol_mod \<Longrightarrow>
       expr_value ss (E_EQUAL a symbol_yes) = min (expr_value ss e1) (expr_value ss e2)"
    "cmp_pair Ty_UNEQUAL e1 e2 symbol_yes symbol_no \<Longrightarrow>
       expr_value ss (E_EQUAL a symbol_mod) = min (expr_value ss e1) (expr_value ss e2)"
    "cmp_pair Ty_UNEQUAL e1 e2 symbol_yes symbol_mod \<Longrightarrow>
       expr_value ss (E_EQUAL a symbol_no) = min (expr_value ss e1) (expr_value ss e2)"
    "cmp_pair Ty_UNEQUAL e1 e2 symbol_mod symbol_no \<Longrightarrow>
       expr_value ss (E_EQUAL a symbol_yes) = min (expr_value ss e1) (expr_value ss e2)"
  subgoal by (drule sym_and_cmp_value[OF a disjI1[OF refl], of _ ss])
      (simp only: join_and_rows[OF store ty] alloc_comp_simps)
  subgoal by (drule sym_and_cmp_value[OF a disjI2[OF refl], of _ ss])
      (simp only: join_and_rows[OF store ty] alloc_comp_simps)
  subgoal by (drule sym_and_cmp_value[OF a disjI2[OF refl], of _ ss])
      (simp only: join_and_rows[OF store ty] alloc_comp_simps)
  subgoal by (drule cmp_pair_value(2)[OF a disjI2[OF refl], of _ _ ss])
      (simp only: join_and_rows[OF store ty] alloc_comp_simps)
  subgoal by (drule cmp_pair_value(2)[OF a disjI2[OF refl], of _ _ ss])
      (simp only: join_and_rows[OF store ty] alloc_comp_simps)
  subgoal by (drule cmp_pair_value(2)[OF a disjI2[OF refl], of _ _ ss])
      (simp only: join_and_rows[OF store ty] alloc_comp_simps)
  done

lemma join_eq_uneq_branches:
  assumes store: "wf_store ss" and a: "join_sym1 e1 = Some a" "join_sym2 e2 = Some a"
  shows "join_eq_uneq ss a e1 e2 = Some e \<Longrightarrow>
      expr_value ss e = min (expr_value ss e1) (expr_value ss e2) \<and> dep_expr e"
    "join_eq_uneq ss a e2 e1 = Some e \<Longrightarrow>
      expr_value ss e = min (expr_value ss e1) (expr_value ss e2) \<and> dep_expr e"
  using join_eq_uneq_shape[of ss a e1 e2 e] join_eq_uneq_shape[of ss a e2 e1 e]
    join_eq_uneq_value[OF store, of a _ _ e] a
  by (auto simp: min.commute simp del: expr_value.simps)

lemma expr_join_and_value:
  assumes store: "wf_store ss" and dep: "dep_expr e1" "dep_expr e2"
    and res: "expr_join_and ss e1 e2 \<noteq> Null"
  shows "expr_value ss (expr_join_and ss e1 e2) = min (expr_value ss e1) (expr_value ss e2) \<and>
    dep_expr (expr_join_and ss e1 e2)"
proof (cases "expr_eq e1 e2")
  case True
  then show ?thesis
    using expr_eq.eq_value[OF store dep] dep(1) by (simp add: expr_join_and_def expr_copy_dep)
next
  case False
  then obtain a where a: "join_sym1 e1 = Some a" "join_sym2 e2 = Some a"
      and ty: "sym_type (ss a) = S_BOOLEAN \<or> sym_type (ss a) = S_TRISTATE"
    using res by (auto simp: expr_join_and_def split: option.splits if_splits)
  note branches = join_and_branches[OF store a ty] join_eq_uneq_branches[OF store a]
  from False res a show ?thesis
    unfolding expr_join_and_def
    by (simp add: alloc_comp_simps expr_alloc_symbol_def branches del: expr_value.simps
        split: if_splits option.splits)
qed

subsection \<open>Extraction of common operands\<close>

text \<open>The value collected so far; a null accumulator holds nothing.\<close>

definition acc_value :: "symstore \<Rightarrow> expr_type \<Rightarrow> expr \<Rightarrow> tristate" where
  "acc_value ss ty ep = (if ep = Null then (if ty = Ty_OR then TNo else TYes) else expr_value ss ep)"

definition extracts ::
    "symstore \<Rightarrow> expr_type \<Rightarrow> expr \<times> expr \<times> expr \<Rightarrow> expr \<times> expr \<times> expr \<Rightarrow> bool" where
  "extracts ss ty st st' \<longleftrightarrow>
     (case (st, st') of ((ep, e1, e2), (ep', e1', e2')) \<Rightarrow>
        \<exists>r. acc_value ss ty ep' = op_val ty (acc_value ss ty ep) r \<and>
            expr_value ss e1 = op_val ty (expr_value ss e1') r \<and>
            expr_value ss e2 = op_val ty (expr_value ss e2') r)"

lemma extracts_factors: "extracts ss ty (ep, e1, e2) (ep', e1', e2') \<Longrightarrow> factors ss ty e1 e2 e1' e2'"
  by (auto simp: extracts_def factors_def)

lemma extracts_refl: "bin_type ty \<Longrightarrow> extracts ss ty st st"
  unfolding extracts_def using op_val_neutral by (auto split: prod.split) (metis (full_types))

lemma acc_value_add:
  assumes "bin_type ty" "e \<noteq> Null"
  shows "acc_value ss ty (if ep \<noteq> Null then expr_alloc_two ty ep e else e) =
    op_val ty (acc_value ss ty ep) (expr_value ss e)"
proof (cases "ep = Null")
  case True
  then show ?thesis
    using op_val_neutral[OF assms(1), of "expr_value ss e"] assms(2)
    by (simp add: acc_value_def op_val_comm)
next
  case False
  have "expr_alloc_two ty ep e \<noteq> Null"
    using assms(1) by (auto elim!: bin_typeE simp: expr_alloc_two_def)
  with False show ?thesis by (simp add: acc_value_def alloc_two_value[OF assms(1)])
qed

lemma extracts_trans_right:
  assumes "bin_type ty" "extracts ss ty (ep, e1, l) (ep1, e1', l')"
    and "extracts ss ty (ep1, e1', r) (ep2, e1'', r')" and "operands ty e2 = Some (l, r)"
  shows "extracts ss ty (ep, e1, e2) (ep2, e1'', expr_alloc_two ty l' r')"
proof -
  from assms(2) obtain u where u: "acc_value ss ty ep1 = op_val ty (acc_value ss ty ep) u"
      "expr_value ss e1 = op_val ty (expr_value ss e1') u"
      "expr_value ss l = op_val ty (expr_value ss l') u"
    by (auto simp: extracts_def)
  from assms(3) obtain w where w: "acc_value ss ty ep2 = op_val ty (acc_value ss ty ep1) w"
      "expr_value ss e1' = op_val ty (expr_value ss e1'') w"
      "expr_value ss r = op_val ty (expr_value ss r') w"
    by (auto simp: extracts_def)
  show ?thesis
    unfolding extracts_def
    by (auto simp: operands_value[OF assms(4)] alloc_two_value[OF assms(1)] u w op_val_ac
        intro!: exI[of _ "op_val ty u w"])
qed

lemma extracts_swap:
  "extracts ss ty (ep, e1, e2) (ep', e1', e2') \<Longrightarrow> extracts ss ty (ep, e2, e1) (ep', e2', e1')"
  by (auto simp: extracts_def)

lemma extracts_trans_left:
  assumes "bin_type ty" "extracts ss ty (ep, l, e2) (ep1, l', e2')"
    and "extracts ss ty (ep1, r, e2') (ep2, r', e2'')" and "operands ty e1 = Some (l, r)"
  shows "extracts ss ty (ep, e1, e2) (ep2, expr_alloc_two ty l' r', e2'')"
  using extracts_trans_right[OF assms(1) extracts_swap[OF assms(2)] extracts_swap[OF assms(3)]
      assms(4)] by (rule extracts_swap)

lemma extract_leaf:
  assumes "wf_store ss" "bin_type ty" "dep_expr e1" "dep_expr e2"
    and "extract_eq_leaf ty ep e1 e2 = (ep', e1', e2')"
  shows "extracts ss ty (ep, e1, e2) (ep', e1', e2') \<and> dep_expr e1' \<and> dep_expr e2'"
proof (cases "expr_eq e1 e2")
  case True
  with assms(5) have res: "ep' = (if ep \<noteq> Null then expr_alloc_two ty ep e1 else e1)"
      "e1' = unit_expr ty" "e2' = unit_expr ty"
    by (auto simp add: extract_eq_leaf_def split: if_splits)
  have "extracts ss ty (ep, e1, e2) (ep', e1', e2')"
    unfolding extracts_def res
    using acc_value_add[OF assms(2) dep_not_Null[OF assms(3)], of ss ep]
      expr_eq.eq_value[OF assms(1,3,4) True]
    by (auto simp: unit_op[OF assms(1,2)] intro!: exI[of _ "expr_value ss e1"])
  then show ?thesis by (simp add: res assms(2))
qed (use assms in \<open>simp add: extract_eq_leaf_def extracts_refl\<close>)

lemma extract_right:
  assumes store: "wf_store ss" and ty: "bin_type ty"
  shows "dep_expr e1 \<Longrightarrow> dep_expr e2 \<Longrightarrow> extract_eq_right ty ep e1 e2 = (ep', e1', e2') \<Longrightarrow>
    extracts ss ty (ep, e1, e2) (ep', e1', e2') \<and> dep_expr e1' \<and> dep_expr e2'"
proof (induction e2 arbitrary: ep e1 ep' e1' e2' rule: measure_induct_rule[of size])
  case (less e2)
  show ?case
  proof (cases "operands ty e2")
    case None
    with less.prems(3) have "extract_eq_leaf ty ep e1 e2 = (ep', e1', e2')"
      by (subst (asm) extract_eq_right.simps) simp
    then show ?thesis by (rule extract_leaf[OF store ty less.prems(1,2)])
  next
    case (Some lr)
    then obtain l r where lr: "operands ty e2 = Some (l, r)" by (cases lr) auto
    obtain ep1 e1a l' where A: "extract_eq_right ty ep e1 l = (ep1, e1a, l')"
      by (cases "extract_eq_right ty ep e1 l") auto
    obtain ep2 e1b r' where B: "extract_eq_right ty ep1 e1a r = (ep2, e1b, r')"
      by (cases "extract_eq_right ty ep1 e1a r") auto
    have res: "ep' = ep2" "e1' = e1b" "e2' = expr_alloc_two ty l' r'"
      using less.prems(3) by (simp_all add: extract_eq_right.simps[of ty ep e1 e2] lr A B)
    have a: "extracts ss ty (ep, e1, l) (ep1, e1a, l') \<and> dep_expr e1a \<and> dep_expr l'"
      using less.IH[OF _ less.prems(1) _ A] less.prems(2) operands_size[OF lr] dep_operands[OF lr]
      by simp
    then have b: "extracts ss ty (ep1, e1a, r) (ep2, e1b, r') \<and> dep_expr e1b \<and> dep_expr r'"
      using less.IH[OF _ _ _ B] less.prems(2) operands_size[OF lr] dep_operands[OF lr] by simp
    show ?thesis
      using a b extracts_trans_right[OF ty _ _ lr] ty by (auto simp: res)
  qed
qed

lemma extract_both:
  assumes store: "wf_store ss" and ty: "bin_type ty"
  shows "dep_expr e1 \<Longrightarrow> dep_expr e2 \<Longrightarrow> expr_extract_eq ty ep e1 e2 = (ep', e1', e2') \<Longrightarrow>
    extracts ss ty (ep, e1, e2) (ep', e1', e2') \<and> dep_expr e1' \<and> dep_expr e2'"
proof (induction e1 arbitrary: ep e2 ep' e1' e2' rule: measure_induct_rule[of size])
  case (less e1)
  show ?case
  proof (cases "operands ty e1")
    case None
    with less.prems(3) have "extract_eq_right ty ep e1 e2 = (ep', e1', e2')"
      by (subst (asm) expr_extract_eq.simps) simp
    then show ?thesis by (rule extract_right[OF store ty less.prems(1,2)])
  next
    case (Some lr)
    then obtain l r where lr: "operands ty e1 = Some (l, r)" by (cases lr) auto
    obtain ep1 l' e2a where A: "expr_extract_eq ty ep l e2 = (ep1, l', e2a)"
      by (cases "expr_extract_eq ty ep l e2") auto
    obtain ep2 r' e2b where B: "expr_extract_eq ty ep1 r e2a = (ep2, r', e2b)"
      by (cases "expr_extract_eq ty ep1 r e2a") auto
    have res: "ep' = ep2" "e2' = e2b" "e1' = expr_alloc_two ty l' r'"
      using less.prems(3) by (simp_all add: expr_extract_eq.simps[of ty ep e1 e2] lr A B)
    have a: "extracts ss ty (ep, l, e2) (ep1, l', e2a) \<and> dep_expr e2a \<and> dep_expr l'"
      using less.IH[OF _ _ less.prems(2) A] less.prems(1) operands_size[OF lr] dep_operands[OF lr]
      by simp
    then have b: "extracts ss ty (ep1, r, e2a) (ep2, r', e2b) \<and> dep_expr e2b \<and> dep_expr r'"
      using less.IH[OF _ _ _ B] less.prems(1) operands_size[OF lr] dep_operands[OF lr] by simp
    show ?thesis
      using a b extracts_trans_left[OF ty _ _ lr] ty by (auto simp: res)
  qed
qed

text \<open>The two entry points: the operands taken out, recombined with the rests, give the originals.\<close>

lemma extract_eq_and_value:
  assumes "wf_store ss" "dep_expr e1" "dep_expr e2" "expr_extract_eq_and e1 e2 = (tmp, e1', e2')"
  shows "extracts ss Ty_AND (Null, e1, e2) (tmp, e1', e2')"
proof -
  obtain a b c where A: "expr_extract_eq Ty_AND Null e1 e2 = (a, b, c)"
    by (cases "expr_extract_eq Ty_AND Null e1 e2") auto
  with assms(4) extract_both[OF assms(1) _ assms(2,3) A] show ?thesis
    by (auto simp: expr_extract_eq_and_def extracts_def eliminate_yn_value[OF assms(1)] split: if_splits)
qed

lemma extract_eq_or_value:
  assumes "wf_store ss" "dep_expr e1" "dep_expr e2" "expr_extract_eq_or e1 e2 = (tmp, e1', e2')"
  shows "extracts ss Ty_OR (Null, e1, e2) (tmp, e1', e2')"
proof -
  obtain a b c where A: "expr_extract_eq Ty_OR Null e1 e2 = (a, b, c)"
    by (cases "expr_extract_eq Ty_OR Null e1 e2") auto
  with assms(4) extract_both[OF assms(1) _ assms(2,3) A] show ?thesis
    by (auto simp: expr_extract_eq_or_def extracts_def eliminate_yn_value[OF assms(1)] split: if_splits)
qed

end
