(* ===== verification/ExprElim.thy ===== *)
theory ExprElim
  imports ExprDups
begin

text \<open>
  The two duplicate-elimination passes and their loop.  Both passes walk over pairs of operand
  positions of one tree; the locales collect what a relation between the tree before and after
  must satisfy for a whole pass to satisfy it.  They are interpreted on three relations: the
  shape of the tree is kept, its value is kept, and every counted change leaves a constant
  behind, which is why the loop ends.
\<close>

subsection \<open>Positions in a tree\<close>

text \<open>\<open>skel ty t p\<close>: the path passes only through nodes of type \<open>ty\<close>.\<close>

fun skel :: "expr_type \<Rightarrow> expr \<Rightarrow> path \<Rightarrow> bool" where
  "skel ty t [] = True"
| "skel ty t (s # p) =
     (case operands ty t of Some (l, r) \<Rightarrow> skel ty (if s = L then l else r) p | None \<Rightarrow> False)"

definition at_leaf :: "expr_type \<Rightarrow> expr \<Rightarrow> path \<Rightarrow> bool" where
  "at_leaf ty t p \<longleftrightarrow> skel ty t p \<and> etype (sub t p) \<noteq> ty"

lemma operands_none: "bin_type ty \<Longrightarrow> operands ty t = None \<longleftrightarrow> etype t \<noteq> ty"
  by (cases t) (auto elim!: bin_typeE)

lemma skel_Cons:
  "skel ty t (s # p) \<longleftrightarrow> (\<exists>l r. operands ty t = Some (l, r) \<and> skel ty (if s = L then l else r) p)"
  by (auto split: option.splits)

lemma sub_operands [simp]:
  "operands ty t = Some (l, r) \<Longrightarrow> sub t (s # p) = sub (if s = L then l else r) p"
  by (cases s) (auto simp: operands_Some)

lemma sub_alloc_two [simp]:
  "bin_type ty \<Longrightarrow> sub (expr_alloc_two ty l r) (s # p) = sub (if s = L then l else r) p"
  by (rule sub_operands[of ty]) simp

lemma upd_operands [simp]:
  "operands ty t = Some (l, r) \<Longrightarrow> upd t (s # p) x =
     (if s = L then expr_alloc_two ty (upd l p x) r else expr_alloc_two ty l (upd r p x))"
  by (cases s) (auto simp: operands_Some expr_alloc_two_def)

declare skel.simps(2) [simp del]

lemma skel_append:
  "bin_type ty \<Longrightarrow> skel ty t (p @ [s]) \<longleftrightarrow> skel ty t p \<and> etype (sub t p) = ty"
proof (induction p arbitrary: t)
  case Nil
  then show ?case
    using operands_none[of ty t] by (auto simp: skel_Cons)
next
  case (Cons a p)
  show ?case
  proof (cases "operands ty t")
    case (Some lr)
    then obtain l r where lr: "operands ty t = Some (l, r)" by (cases lr) auto
    with Cons.IH[OF Cons.prems, of "if a = L then l else r"] show ?thesis
      by (simp add: skel_Cons sub_operands[OF lr] del: sub.simps)
  qed (simp add: skel_Cons)
qed

lemma upd_sub_id: "skel ty t p \<Longrightarrow> upd t p (sub t p) = t"
proof (induction p arbitrary: t)
  case (Cons s p)
  then obtain l r where lr: "operands ty t = Some (l, r)" "skel ty (if s = L then l else r) p"
    by (auto simp: skel_Cons)
  from lr(1) have "t = expr_alloc_two ty l r"
    by (auto simp: operands_Some expr_alloc_two_def)
  with lr Cons.IH[OF lr(2)] show ?case by auto
qed simp

lemma sub_upd: "bin_type ty \<Longrightarrow> skel ty t p \<Longrightarrow> sub (upd t p x) p = x"
proof (induction p arbitrary: t)
  case (Cons s p)
  then show ?case by (auto simp: skel_Cons)
qed simp

lemma upd_disjoint:
  assumes ty: "bin_type ty"
  shows "at_leaf ty t p \<Longrightarrow> at_leaf ty t q \<Longrightarrow> p \<noteq> q \<Longrightarrow>
    sub (upd t p x) q = sub t q \<and> skel ty (upd t p x) q"
proof (induction p arbitrary: t q)
  case Nil
  then obtain s q' where "q = s # q'" by (cases q) auto
  with Nil operands_none[OF ty, of t] show ?case by (auto simp: at_leaf_def skel_Cons)
next
  case (Cons s p)
  then obtain l r where lr: "operands ty t = Some (l, r)" "skel ty (if s = L then l else r) p"
    by (auto simp: at_leaf_def skel_Cons)
  then obtain s' q' where q: "q = s' # q'"
    using Cons.prems operands_none[OF ty, of t] by (cases q) (auto simp: at_leaf_def)
  show ?case
  proof (cases "s = s'")
    case True
    with Cons.prems q lr Cons.IH[of "if s = L then l else r" q'] ty show ?thesis
      by (auto simp: at_leaf_def skel_Cons split: if_splits)
  next
    case False
    with Cons.prems q lr ty show ?thesis
      by (cases s; cases s') (auto simp: at_leaf_def skel_Cons)
  qed
qed

text \<open>Putting an operand of another type at a leaf keeps the skeleton.\<close>

lemma skel_upd:
  assumes ty: "bin_type ty"
  shows "at_leaf ty t p \<Longrightarrow> etype x \<noteq> ty \<Longrightarrow> skel ty (upd t p x) = skel ty t"
proof (induction p arbitrary: t)
  case Nil
  have "skel ty x q = skel ty t q" for q
    using Nil operands_none[OF ty, of t] operands_none[OF ty, of x]
    by (cases q) (auto simp: at_leaf_def skel_Cons)
  then show ?case by auto
next
  case (Cons s p)
  then obtain l r where lr: "operands ty t = Some (l, r)" "skel ty (if s = L then l else r) p"
    by (auto simp: at_leaf_def skel_Cons)
  have IH: "skel ty (upd (if s = L then l else r) p x) = skel ty (if s = L then l else r)"
    using Cons lr by (auto simp: at_leaf_def)
  have "skel ty (upd t (s # p) x) q = skel ty t q" for q
    using lr IH ty by (cases q) (auto simp: skel_Cons split: if_splits)
  then show ?case by auto
qed

lemma upd_esize:
  "bin_type ty \<Longrightarrow> skel ty t p \<Longrightarrow> esize (upd t p x) + esize (sub t p) = esize t + esize x"
proof (induction p arbitrary: t)
  case (Cons s p)
  then obtain l r where lr: "operands ty t = Some (l, r)" "skel ty (if s = L then l else r) p"
    by (auto simp: skel_Cons)
  with Cons.IH[OF Cons.prems(1) lr(2)] Cons.prems(1) operands_esize[OF lr(1)] show ?case
    by (auto simp: operands_esize[OF operands_alloc_two])
qed simp

lemma sub_esize: "skel ty t p \<Longrightarrow> p \<noteq> [] \<Longrightarrow> esize (sub t p) < esize t"
proof (induction p arbitrary: t)
  case (Cons s p)
  then obtain l r where lr: "operands ty t = Some (l, r)" "skel ty (if s = L then l else r) p"
    by (auto simp: skel_Cons)
  then show ?case
    using Cons.IH[OF lr(2)] operands_esize[OF lr(1)] by (cases "p = []") auto
qed simp

lemma skel_length: "skel ty t p \<Longrightarrow> length p < esize t"
proof (induction p arbitrary: t)
  case (Cons s p)
  then obtain l r where lr: "operands ty t = Some (l, r)" "skel ty (if s = L then l else r) p"
    by (auto simp: skel_Cons)
  with Cons.IH[OF lr(2)] operands_esize[OF lr(1)] show ?case by (auto split: if_splits)
qed simp

lemma dep_sub: "skel ty t p \<Longrightarrow> dep_expr t \<Longrightarrow> dep_expr (sub t p)"
proof (induction p arbitrary: t)
  case (Cons s p)
  then show ?case by (auto simp: skel_Cons dep_operands)
qed simp

lemma dep_upd: "bin_type ty \<Longrightarrow> skel ty t p \<Longrightarrow> dep_expr t \<Longrightarrow> dep_expr x \<Longrightarrow> dep_expr (upd t p x)"
proof (induction p arbitrary: t)
  case (Cons s p)
  then show ?case by (auto simp: skel_Cons dep_operands)
qed simp

lemma mod_free_alloc_two [simp]:
  "bin_type ty \<Longrightarrow> mod_free (expr_alloc_two ty l r) \<longleftrightarrow> mod_free l \<and> mod_free r"
  by (auto elim!: bin_typeE simp: expr_alloc_two_def)

lemma mod_free_operands: "operands ty e = Some (l, r) \<Longrightarrow> mod_free e \<longleftrightarrow> mod_free l \<and> mod_free r"
  by (auto simp: operands_Some)

lemma mod_free_sub: "skel ty t p \<Longrightarrow> mod_free t \<Longrightarrow> mod_free (sub t p)"
proof (induction p arbitrary: t)
  case (Cons s p)
  then show ?case by (auto simp: skel_Cons mod_free_operands)
qed simp

lemma mod_free_upd:
  "bin_type ty \<Longrightarrow> skel ty t p \<Longrightarrow> mod_free t \<Longrightarrow> mod_free x \<Longrightarrow> mod_free (upd t p x)"
proof (induction p arbitrary: t)
  case (Cons s p)
  then show ?case by (auto simp: skel_Cons mod_free_operands)
qed simp

text \<open>The rest of the tree contributes a fixed value.\<close>

lemma upd_value:
  "bin_type ty \<Longrightarrow> skel ty t p \<Longrightarrow>
   \<exists>c. \<forall>x. expr_value ss (upd t p x) = op_val ty (expr_value ss x) c"
proof (induction p arbitrary: t)
  case Nil
  then show ?case using op_val_neutral[OF Nil(1)] by (metis (full_types) upd.simps(1))
next
  case (Cons s p)
  then obtain l r where lr: "operands ty t = Some (l, r)" "skel ty (if s = L then l else r) p"
    by (auto simp: skel_Cons)
  from Cons.IH[OF Cons.prems(1) lr(2)] obtain c
    where c: "\<And>x. expr_value ss (upd (if s = L then l else r) p x) = op_val ty (expr_value ss x) c"
    by auto
  have "expr_value ss (upd t (s # p) x) =
      op_val ty (expr_value ss x) (op_val ty c (expr_value ss (if s = L then r else l)))" for x
    using c[of x] lr(1) alloc_two_value[OF Cons.prems(1)]
    by (cases "s = L") (auto simp: op_val_ac)
  then show ?case by blast
qed

lemma sub_value:
  assumes "bin_type ty" "skel ty t p"
  obtains c where "\<And>x. expr_value ss (upd t p x) = op_val ty (expr_value ss x) c"
    "expr_value ss t = op_val ty (expr_value ss (sub t p)) c"
  using upd_value[OF assms, of ss] upd_sub_id[OF assms(2)] by metis

subsection \<open>What a whole pass preserves\<close>

locale dups_relation =
  fixes ok :: "expr \<Rightarrow> bool" and rel :: "expr_type \<Rightarrow> dups_state \<Rightarrow> dups_state \<Rightarrow> bool"
  assumes rel_refl: "ok (fst st) \<Longrightarrow> rel ty st st"
    and rel_trans: "rel ty a b \<Longrightarrow> rel ty b c \<Longrightarrow> rel ty a c"
    and rel_ok: "rel ty a b \<Longrightarrow> ok (fst a) \<Longrightarrow> ok (fst b)"
    and rel_skel: "rel ty a b \<Longrightarrow> ok (fst a) \<Longrightarrow> skel ty (fst b) = skel ty (fst a)"
    and ok_sub: "ok t \<Longrightarrow> skel ty t p \<Longrightarrow> ok (sub t p)"
    and nested: "ok t \<Longrightarrow> bin_type ty \<Longrightarrow> at_leaf ty t p \<Longrightarrow> bin_type (etype (sub t p)) \<Longrightarrow>
      rel (etype (sub t p)) (sub t p, tc) (e', tc') \<Longrightarrow> rel ty (t, tc) (upd t p e', tc')"
begin

lemma rel_leaf:
  assumes "bin_type ty" "rel ty st st'" "ok (fst st)" "at_leaf ty (fst st) p"
  shows "at_leaf ty (fst st') p"
proof -
  have "skel ty (fst st') (p @ [L]) = skel ty (fst st) (p @ [L])" "skel ty (fst st') p = skel ty (fst st) p"
    by (simp_all only: rel_skel[OF assms(2,3)])
  with assms(4) show ?thesis
    unfolding at_leaf_def skel_append[OF assms(1)] by blast
qed

end

locale dups1_relation = dups_relation +
  fixes ss :: symstore
  assumes join: "ok t \<Longrightarrow> bin_type ty \<Longrightarrow> at_leaf ty t p \<Longrightarrow> at_leaf ty t q \<Longrightarrow> p \<noteq> q \<Longrightarrow>
    rel ty (t, tc) (dups1_join ss ty p q (t, tc))"
begin

lemma walk:
  assumes ty: "bin_type ty"
  shows "expr_eliminate_dups1 n ss ty p q st = Some st' \<Longrightarrow> ok (fst st) \<Longrightarrow>
    skel ty (fst st) p \<Longrightarrow> skel ty (fst st) q \<Longrightarrow> rel ty st st'"
  using ty
proof (induction n arbitrary: ty p q st st')
  case (Suc n)
  obtain t tc where st: "st = (t, tc)" by (cases st)
  have two: "rel ty st mid'" if
      a: "expr_eliminate_dups1 n ss ty p1 q1 st = Some mid" and
      b: "expr_eliminate_dups1 n ss ty p2 q2 mid = Some mid'" and
      paths: "skel ty t p1" "skel ty t q1" "skel ty t p2" "skel ty t q2"
    for p1 q1 p2 q2 mid mid'
  proof -
    have "rel ty st mid"
      using Suc.IH[OF a] paths Suc.prems st by simp
    moreover have "rel ty mid mid'"
      using Suc.IH[OF b rel_ok[OF calculation]] rel_skel[OF calculation] paths Suc.prems st by simp
    ultimately show ?thesis by (rule rel_trans)
  qed
  consider (p) "etype (sub t p) = ty" | (q) "etype (sub t p) \<noteq> ty" "etype (sub t q) = ty"
    | (leaf) "etype (sub t p) \<noteq> ty" "etype (sub t q) \<noteq> ty" by blast
  then show ?case
  proof cases
    case p
    then obtain mid where "expr_eliminate_dups1 n ss ty (p @ [L]) q st = Some mid"
        "expr_eliminate_dups1 n ss ty (p @ [R]) q mid = Some st'"
      using Suc.prems(1) st by auto
    then show ?thesis
      by (rule two)
         (use p Suc.prems st skel_append[OF Suc.prems(5)] in simp_all)
  next
    case q
    then obtain mid where "expr_eliminate_dups1 n ss ty p (q @ [L]) st = Some mid"
        "expr_eliminate_dups1 n ss ty p (q @ [R]) mid = Some st'"
      using Suc.prems(1) st by auto
    then show ?thesis
      by (rule two)
         (use q Suc.prems st skel_append[OF Suc.prems(5)] in simp_all)
  next
    case False: leaf
    then have leaf: "at_leaf ty t p" "at_leaf ty t q"
      using Suc.prems st by (simp_all add: at_leaf_def)
    show ?thesis
    proof (cases "p = q")
      case True
      with Suc.prems(1,2) False st have "st' = st" by simp
      with rel_refl[of st] Suc.prems(2) show ?thesis by simp
    next
      case neq: False
      obtain mid where mid: "st' = dups1_join ss ty p q mid" and
        step: "mid = st \<or> (\<exists>e' tc'. bin_type (etype (sub t p)) \<and> mid = (upd t p e', tc') \<and>
          expr_eliminate_dups1 n ss (etype (sub t p)) [] [] (sub t p, tc) = Some (e', tc'))"
        using Suc.prems(1) False neq st
        by (auto simp: Let_def bin_type_def split: if_splits)
      have "rel ty st mid"
        using step
      proof (elim disjE exE conjE)
        fix e' tc'
        assume e': "bin_type (etype (sub t p))" "mid = (upd t p e', tc')"
          "expr_eliminate_dups1 n ss (etype (sub t p)) [] [] (sub t p, tc) = Some (e', tc')"
        have "rel (etype (sub t p)) (sub t p, tc) (e', tc')"
          using Suc.IH[OF e'(3)] e'(1) ok_sub[of t ty p] Suc.prems st by simp
        with nested[OF _ Suc.prems(5) leaf(1) e'(1)] Suc.prems(2) st e'(2) show ?thesis by simp
      qed (use Suc.prems st in \<open>simp add: rel_refl\<close>)
      moreover have "rel ty mid st'"
        using join[of "fst mid" ty p q "snd mid"] rel_ok[OF \<open>rel ty st mid\<close>] mid neq Suc.prems(2,5)
          rel_leaf[OF Suc.prems(5) \<open>rel ty st mid\<close> Suc.prems(2)] leaf st by simp
      ultimately show ?thesis by (rule rel_trans)
    qed
  qed
qed simp

end

locale dups2_relation = dups_relation +
  fixes ss :: symstore
  assumes contradiction: "ok t \<Longrightarrow> bin_type ty \<Longrightarrow> at_leaf ty t p \<Longrightarrow> skel ty t q \<Longrightarrow> p \<noteq> q \<Longrightarrow>
    rel ty (t, tc) (dups2_contradiction ss p q (t, tc))"
begin

lemma walk:
  assumes ty: "bin_type ty"
  shows "expr_eliminate_dups2 n ss ty p q st = Some st' \<Longrightarrow> ok (fst st) \<Longrightarrow>
    skel ty (fst st) p \<Longrightarrow> skel ty (fst st) q \<Longrightarrow> rel ty st st'"
  using ty
proof (induction n arbitrary: ty p q st st')
  case (Suc n)
  obtain t tc where st: "st = (t, tc)" by (cases st)
  have two: "rel ty st mid'" if
      a: "expr_eliminate_dups2 n ss ty p1 q1 st = Some mid" and
      b: "expr_eliminate_dups2 n ss ty p2 q2 mid = Some mid'" and
      paths: "skel ty t p1" "skel ty t q1" "skel ty t p2" "skel ty t q2"
    for p1 q1 p2 q2 mid mid'
  proof -
    have "rel ty st mid"
      using Suc.IH[OF a] paths Suc.prems st by simp
    moreover have "rel ty mid mid'"
      using Suc.IH[OF b rel_ok[OF calculation]] rel_skel[OF calculation] paths Suc.prems st by simp
    ultimately show ?thesis by (rule rel_trans)
  qed
  show ?case
  proof (cases "etype (sub t p) = ty")
    case True
    then obtain mid where "expr_eliminate_dups2 n ss ty (p @ [L]) q st = Some mid"
        "expr_eliminate_dups2 n ss ty (p @ [R]) q mid = Some st'"
      using Suc.prems(1) st by auto
    then show ?thesis
      by (rule two)
         (use True Suc.prems st skel_append[OF Suc.prems(5)] in simp_all)
  next
    case False
    then have leaf: "at_leaf ty t p"
      using Suc.prems st by (simp add: at_leaf_def)
    obtain mid where mid: "rel ty st mid" and
      rest: "(if p = q then Some mid
            else Option.bind
                (let e1 = sub (fst mid) p in
                 if etype e1 = Ty_OR \<or> etype e1 = Ty_AND
                 then map_option (\<lambda>(e1', tc'). (upd (fst mid) p e1', tc'))
                        (expr_eliminate_dups2 n ss (etype e1) [] [] (e1, snd mid))
                 else Some mid)
                (\<lambda>st''. Some (dups2_contradiction ss p q st''))) = Some st'"
    proof (cases "etype (sub t q) = ty")
      case True
      with False Suc.prems(1) obtain a mid
        where "expr_eliminate_dups2 n ss ty p (q @ [L]) st = Some a"
          "expr_eliminate_dups2 n ss ty p (q @ [R]) a = Some mid" and *: "(if p = q then Some mid
            else Option.bind
                (let e1 = sub (fst mid) p in
                 if etype e1 = Ty_OR \<or> etype e1 = Ty_AND
                 then map_option (\<lambda>(e1', tc'). (upd (fst mid) p e1', tc'))
                        (expr_eliminate_dups2 n ss (etype e1) [] [] (e1, snd mid))
                 else Some mid)
                (\<lambda>st''. Some (dups2_contradiction ss p q st''))) = Some st'"
        by (auto simp: st)
      from this(1,2) have "rel ty st mid"
        by (rule two) (use True Suc.prems st skel_append[OF Suc.prems(5)] in simp_all)
      with * show ?thesis by (rule that[rotated])
    qed (use Suc.prems False st rel_refl in \<open>auto intro!: that[of st]\<close>)
    obtain u uc where u: "mid = (u, uc)" by (cases mid)
    have ok_u: "ok u" and leaf_u: "at_leaf ty u p" and skel_u: "skel ty u q"
      using rel_ok[OF mid] rel_skel[OF mid] rel_leaf[OF Suc.prems(5) mid _] leaf Suc.prems st u
      by auto
    show ?thesis
    proof (cases "p = q")
      case True
      with mid rest show ?thesis by simp
    next
      case neq: False
      obtain fin where fin: "st' = dups2_contradiction ss p q fin" and
        step: "fin = mid \<or> (\<exists>e' tc'. bin_type (etype (sub u p)) \<and> fin = (upd u p e', tc') \<and>
          expr_eliminate_dups2 n ss (etype (sub u p)) [] [] (sub u p, uc) = Some (e', tc'))"
        using rest neq u by (auto simp: Let_def bin_type_def split: if_splits)
      have f: "rel ty mid fin"
        using step
      proof (elim disjE exE conjE)
        fix e' tc'
        assume e': "bin_type (etype (sub u p))" "fin = (upd u p e', tc')"
          "expr_eliminate_dups2 n ss (etype (sub u p)) [] [] (sub u p, uc) = Some (e', tc')"
        have "rel (etype (sub u p)) (sub u p, uc) (e', tc')"
          using Suc.IH[OF e'(3)] e'(1) ok_sub[OF ok_u, of ty p] leaf_u by (simp add: at_leaf_def)
        with nested[OF ok_u Suc.prems(5) leaf_u e'(1)] u e'(2) show ?thesis by simp
      qed (use ok_u u in \<open>simp add: rel_refl\<close>)
      have "rel ty fin st'"
        using contradiction[of "fst fin" ty p q "snd fin"] rel_ok[OF f] fin neq Suc.prems(5)
          rel_leaf[OF Suc.prems(5) f] rel_skel[OF f] leaf_u skel_u ok_u u by simp
      with mid f show ?thesis by (blast intro: rel_trans)
    qed
  qed
qed simp

end

subsection \<open>The shape of the joined operand\<close>

lemma join_or_cases:
  "expr_join_or ss e1 e2 = Null \<or> expr_join_or ss e1 e2 = expr_copy e1 \<or>
   (\<exists>a b. expr_join_or ss e1 e2 = E_UNEQUAL a b) \<or> expr_join_or ss e1 e2 = E_SYMBOL symbol_yes"
  unfolding expr_join_or_def by (simp add: expr_ops split: option.split)

lemma sym_and_cmp_symbol:
  "join_sym1 e1 = Some a \<Longrightarrow> join_sym2 e2 = Some a \<Longrightarrow> sym_and_cmp ty e1 e2 u \<Longrightarrow>
   e1 = E_SYMBOL a \<or> e2 = E_SYMBOL a"
  by (auto simp: sym_and_cmp_def cmp_right_sym1(3) cmp_right_sym2(3))

lemma join_eq_uneq_cases:
  "join_eq_uneq ss a e1 e2 = Some e \<Longrightarrow> (\<exists>b. e = E_EQUAL a b) \<or> e = E_SYMBOL symbol_no"
  by (auto simp: join_eq_uneq_def expr_ops split: option.splits if_splits)

lemma join_and_cases:
  "expr_join_and ss e1 e2 = Null \<or> expr_join_and ss e1 e2 = expr_copy e1 \<or>
   (\<exists>a b. expr_join_and ss e1 e2 = E_EQUAL a b) \<or> expr_join_and ss e1 e2 = E_SYMBOL symbol_no \<or>
   (\<exists>a. expr_join_and ss e1 e2 = E_SYMBOL a \<and> (e1 = E_SYMBOL a \<or> e2 = E_SYMBOL a))"
proof (cases "expr_eq e1 e2 \<or> join_sym1 e1 = None \<or> join_sym1 e1 \<noteq> join_sym2 e2")
  case True
  then show ?thesis by (auto simp: expr_join_and_def split: option.split)
next
  case False
  then obtain a where a: "\<not> expr_eq e1 e2" "join_sym1 e1 = Some a" "join_sym2 e2 = Some a"
    by (cases "join_sym1 e1") auto
  show ?thesis
    unfolding expr_join_and_def
    using a sym_and_cmp_symbol[OF a(2,3), of Ty_UNEQUAL symbol_no]
      join_eq_uneq_cases[of ss a e1 e2] join_eq_uneq_cases[of ss a e2 e1]
    by (simp add: expr_alloc_symbol_def alloc_comp_simps split: option.split) blast
qed

definition join_of :: "symstore \<Rightarrow> expr_type \<Rightarrow> expr \<Rightarrow> expr \<Rightarrow> expr" where
  "join_of ss ty e1 e2 = (if ty = Ty_OR then expr_join_or ss e1 e2 else expr_join_and ss e1 e2)"

lemma dups1_join_cases:
  assumes "bin_type ty"
  shows "dups1_join ss ty p q (t, tc) =
    (let tmp = join_of ss ty (sub t p) (sub t q)
     in if tmp \<noteq> Null then (upd (upd t p (unit_expr ty)) q tmp, Suc tc) else (t, tc))"
  using assms by (auto elim!: bin_typeE simp: dups1_join_def join_of_def)

lemma join_of_shape:
  assumes "join_of ss ty e1 e2 \<noteq> Null" "dep_expr e1" "dep_expr e2" "etype e1 \<noteq> ty" "bin_type ty"
  shows "etype (join_of ss ty e1 e2) \<noteq> ty" "dep_expr (join_of ss ty e1 e2)"
    "esize (join_of ss ty e1 e2) + 1 \<le> esize e1 + esize e2"
    "mod_free e1 \<Longrightarrow> mod_free e2 \<Longrightarrow> mod_free (join_of ss ty e1 e2)"
proof -
  have *: "join_of ss ty e1 e2 = e1 \<or>
      (etype (join_of ss ty e1 e2) \<in> {Ty_EQUAL, Ty_UNEQUAL, Ty_SYMBOL} \<and>
       (mod_free e1 \<longrightarrow> mod_free e2 \<longrightarrow> mod_free (join_of ss ty e1 e2)))"
    using assms(1) join_or_cases[of ss e1 e2] join_and_cases[of ss e1 e2] expr_copy_dep[OF assms(2)]
    by (auto simp: join_of_def)
  have leaf: "etype x \<in> {Ty_EQUAL, Ty_UNEQUAL, Ty_SYMBOL} \<Longrightarrow>
      esize x = 1 \<and> dep_expr x \<and> etype x \<noteq> ty" for x
    using assms(5) by (cases x) (auto elim!: bin_typeE)
  have sizes: "1 \<le> esize e1" "1 \<le> esize e2"
    using esize_pos[of e1] esize_pos[of e2] by linarith+
  show "etype (join_of ss ty e1 e2) \<noteq> ty" "dep_expr (join_of ss ty e1 e2)"
    "esize (join_of ss ty e1 e2) + 1 \<le> esize e1 + esize e2"
    "mod_free e1 \<Longrightarrow> mod_free e2 \<Longrightarrow> mod_free (join_of ss ty e1 e2)"
    using * leaf[of "join_of ss ty e1 e2"] assms(2,4) sizes by auto
qed

lemma join_of_value:
  assumes "wf_store ss" "join_of ss ty e1 e2 \<noteq> Null" "dep_expr e1" "dep_expr e2" "bin_type ty"
  shows "expr_value ss (join_of ss ty e1 e2) = op_val ty (expr_value ss e1) (expr_value ss e2)"
  using assms expr_join_or_value[OF assms(1,3,4)] expr_join_and_value[OF assms(1,3,4)]
  by (auto elim!: bin_typeE simp: join_of_def op_val_def)

subsection \<open>Constants left behind\<close>

fun has_const :: "expr \<Rightarrow> bool" where
  "has_const (E_SYMBOL s) = (s = symbol_yes \<or> s = symbol_no)"
| "has_const (E_AND l r) = (has_const l \<or> has_const r)"
| "has_const (E_OR l r) = (has_const l \<or> has_const r)"
| "has_const _ = False"

lemma has_const_operands: "operands ty e = Some (l, r) \<Longrightarrow> has_const e = (has_const l \<or> has_const r)"
  by (auto simp: operands_Some)

lemma has_const_alloc_two [simp]:
  "bin_type ty \<Longrightarrow> has_const (expr_alloc_two ty l r) = (has_const l \<or> has_const r)"
  by (auto elim!: bin_typeE simp: expr_alloc_two_def)

lemma has_const_unit [simp]: "bin_type ty \<Longrightarrow> has_const (unit_expr ty)"
  by (auto elim!: bin_typeE)

lemma has_const_upd:
  "bin_type ty \<Longrightarrow> skel ty t p \<Longrightarrow>
   (has_const x \<longrightarrow> has_const (upd t p x)) \<and>
   (has_const t \<longrightarrow> has_const (sub t p) \<or> has_const (upd t p x))"
proof (induction p arbitrary: t)
  case (Cons s p)
  then obtain l r where lr: "operands ty t = Some (l, r)" "skel ty (if s = L then l else r) p"
    by (auto simp: skel_Cons)
  with Cons.IH[OF Cons.prems(1) lr(2)] Cons.prems(1) has_const_operands[OF lr(1)] show ?case by auto
qed simp

lemma eliminate_yn_esize_const:
  "esize (expr_eliminate_yn e) \<le> esize e \<and>
   (has_const e \<longrightarrow> esize (expr_eliminate_yn e) < esize e \<or>
      expr_eliminate_yn e = E_SYMBOL symbol_yes \<or> expr_eliminate_yn e = E_SYMBOL symbol_no)"
proof (induction e rule: expr_eliminate_yn.induct)
  case (1 l r)
  have "esize (expr_eliminate_yn l) \<le> esize l" "esize (expr_eliminate_yn r) \<le> esize r"
    "has_const l \<Longrightarrow> esize (expr_eliminate_yn l) < esize l \<or>
      expr_eliminate_yn l = E_SYMBOL symbol_yes \<or> expr_eliminate_yn l = E_SYMBOL symbol_no"
    "has_const r \<Longrightarrow> esize (expr_eliminate_yn r) < esize r \<or>
      expr_eliminate_yn r = E_SYMBOL symbol_yes \<or> expr_eliminate_yn r = E_SYMBOL symbol_no"
    using 1 by blast+
  then show ?case by (simp add: Let_def) linarith
next
  case (2 l r)
  have "esize (expr_eliminate_yn l) \<le> esize l" "esize (expr_eliminate_yn r) \<le> esize r"
    "has_const l \<Longrightarrow> esize (expr_eliminate_yn l) < esize l \<or>
      expr_eliminate_yn l = E_SYMBOL symbol_yes \<or> expr_eliminate_yn l = E_SYMBOL symbol_no"
    "has_const r \<Longrightarrow> esize (expr_eliminate_yn r) < esize r \<or>
      expr_eliminate_yn r = E_SYMBOL symbol_yes \<or> expr_eliminate_yn r = E_SYMBOL symbol_no"
    using 2 by blast+
  then show ?case by (simp add: Let_def) linarith
qed simp_all

lemma eliminate_yn_esize: "esize (expr_eliminate_yn e) \<le> esize e"
  using eliminate_yn_esize_const by blast

lemma eliminate_yn_shrinks:
  assumes "bin_type (etype e)" "has_const e"
  shows "esize (expr_eliminate_yn e) < esize e"
proof -
  have "1 < esize e" using assms(1) by (cases e) (auto simp: bin_type_def)
  with eliminate_yn_esize_const[of e] assms(2) show ?thesis by auto
qed

lemma eliminate_yn_mod_free: "mod_free e \<Longrightarrow> mod_free (expr_eliminate_yn e)"
  by (induction e rule: expr_eliminate_yn.induct) (auto simp: Let_def)

subsection \<open>The passes keep the shape and count their changes\<close>

definition keeps_shape :: "expr_type \<Rightarrow> dups_state \<Rightarrow> dups_state \<Rightarrow> bool" where
  "keeps_shape ty st st' \<longleftrightarrow>
     dep_expr (fst st') \<and> skel ty (fst st') = skel ty (fst st) \<and> esize (fst st') \<le> esize (fst st) \<and>
     (mod_free (fst st) \<longrightarrow> mod_free (fst st')) \<and> snd st \<le> snd st' \<and>
     (snd st < snd st' \<or> has_const (fst st) \<longrightarrow> has_const (fst st'))"

lemma skel_root: "bin_type ty \<Longrightarrow> skel ty t [s] \<longleftrightarrow> etype t = ty"
  using skel_append[of ty t "[]" s] by simp

lemma has_const_sub: "bin_type ty \<Longrightarrow> skel ty t p \<Longrightarrow> has_const (sub t p) \<Longrightarrow> has_const t"
  using has_const_upd[of ty t p "sub t p"] upd_sub_id[of ty t p] by simp

lemma keeps_shape_nested:
  assumes "dep_expr t" "bin_type ty" "at_leaf ty t p" "bin_type (etype (sub t p))"
    and rel: "keeps_shape (etype (sub t p)) (sub t p, tc) (e', tc')"
  shows "keeps_shape ty (t, tc) (upd t p e', tc')"
proof -
  have p: "skel ty t p" "etype (sub t p) \<noteq> ty" using assms(3) by (simp_all add: at_leaf_def)
  have "skel (etype (sub t p)) e' [L] = skel (etype (sub t p)) (sub t p) [L]"
    using rel by (simp add: keeps_shape_def)
  then have "etype e' \<noteq> ty"
    using p by (simp add: skel_root[OF assms(4)])
  with skel_upd[OF assms(2,3)] have "skel ty (upd t p e') = skel ty t" by simp
  moreover have "esize (upd t p e') \<le> esize t"
    using upd_esize[OF assms(2) p(1), of e'] rel by (simp add: keeps_shape_def)
  moreover have "snd (t, tc) < tc' \<or> has_const t \<longrightarrow> has_const (upd t p e')"
    using has_const_upd[OF assms(2) p(1), of e'] rel by (auto simp: keeps_shape_def)
  moreover have "mod_free t \<longrightarrow> mod_free (upd t p e')"
    using mod_free_sub[OF p(1)] mod_free_upd[OF assms(2) p(1)] rel by (simp add: keeps_shape_def)
  moreover have "dep_expr (upd t p e')"
    using dep_upd[OF assms(2) p(1) assms(1)] rel by (simp add: keeps_shape_def)
  ultimately show ?thesis
    using rel by (simp add: keeps_shape_def)
qed

lemma etype_unit [simp]: "bin_type ty \<Longrightarrow> etype (unit_expr ty) = Ty_SYMBOL"
  by (auto elim!: bin_typeE)

lemma mod_free_unit [simp]: "bin_type ty \<Longrightarrow> mod_free (unit_expr ty)"
  by (auto elim!: bin_typeE)

lemma bin_type_not_symbol [simp]: "bin_type ty \<Longrightarrow> Ty_SYMBOL \<noteq> ty"
  by (auto elim!: bin_typeE)

text \<open>Replacing a pair of leaves: the facts both relations need.\<close>

lemma join_positions:
  assumes "dep_expr t" "bin_type ty" "at_leaf ty t p" "at_leaf ty t q" "p \<noteq> q"
  defines "t1 \<equiv> upd t p (unit_expr ty)"
  shows "skel ty t1 = skel ty t" "sub t1 q = sub t q" "at_leaf ty t1 p" "at_leaf ty t1 q"
    "sub t1 p = unit_expr ty" "dep_expr t1" "mod_free t \<Longrightarrow> mod_free t1"
    "esize t1 + esize (sub t p) = esize t + 1"
proof -
  have p: "skel ty t p" using assms(3) by (simp add: at_leaf_def)
  show sk: "skel ty t1 = skel ty t"
    unfolding t1_def by (rule skel_upd[OF assms(2,3)]) (simp add: assms(2))
  show q: "sub t1 q = sub t q"
    unfolding t1_def using upd_disjoint[OF assms(2-5)] by simp
  show u: "sub t1 p = unit_expr ty"
    unfolding t1_def by (rule sub_upd[OF assms(2) p])
  show "at_leaf ty t1 p" "at_leaf ty t1 q"
    using assms(2-4) sk q u by (simp_all add: at_leaf_def)
  show "dep_expr t1" "mod_free t \<Longrightarrow> mod_free t1" "esize t1 + esize (sub t p) = esize t + 1"
    unfolding t1_def using dep_upd[OF assms(2) p assms(1)] mod_free_upd[OF assms(2) p]
      upd_esize[OF assms(2) p, of "unit_expr ty"] assms(2) by simp_all
qed

lemma keeps_shape_join:
  assumes "dep_expr t" "bin_type ty" "at_leaf ty t p" "at_leaf ty t q" "p \<noteq> q"
  shows "keeps_shape ty (t, tc) (dups1_join ss ty p q (t, tc))"
proof (cases "join_of ss ty (sub t p) (sub t q) = Null")
  case True
  with assms(1) show ?thesis
    by (simp add: dups1_join_cases[OF assms(2)] keeps_shape_def)
next
  case False
  define tmp where "tmp = join_of ss ty (sub t p) (sub t q)"
  define t1 where "t1 = upd t p (unit_expr ty)"
  note pos = join_positions[OF assms, folded t1_def]
  have pq: "skel ty t p" "skel ty t q" using assms by (simp_all add: at_leaf_def)
  note shape = join_of_shape[OF False dep_sub[OF pq(1) assms(1)] dep_sub[OF pq(2) assms(1)] _
      assms(2), folded tmp_def]
  have ty_p: "etype (sub t p) \<noteq> ty" using assms(3) by (simp add: at_leaf_def)
  have q1: "skel ty t1 q" using pos(4) by (simp add: at_leaf_def)
  have "skel ty (upd t1 q tmp) = skel ty t"
    using skel_upd[OF assms(2) pos(4) shape(1)[OF ty_p]] pos(1) by simp
  moreover have "esize (upd t1 q tmp) \<le> esize t"
    using upd_esize[OF assms(2) q1, of tmp, unfolded pos(2)] shape(3)[OF ty_p] pos(8) by linarith
  moreover have "mod_free t \<longrightarrow> mod_free (upd t1 q tmp)"
    using mod_free_upd[OF assms(2) q1] mod_free_sub[OF pq(1)] mod_free_sub[OF pq(2)]
      shape(4)[OF ty_p] pos(7) by blast
  moreover have "dep_expr (upd t1 q tmp)"
    by (rule dep_upd[OF assms(2) q1 pos(6) shape(2)[OF ty_p]])
  moreover have "has_const (upd t1 q tmp)"
  proof (rule has_const_sub[OF assms(2)])
    have "sub (upd t1 q tmp) p = sub t1 p \<and> skel ty (upd t1 q tmp) p"
      using upd_disjoint[OF assms(2) pos(4,3)] assms(5) by blast
    then show "skel ty (upd t1 q tmp) p" "has_const (sub (upd t1 q tmp) p)"
      using pos(5) assms(2) by simp_all
  qed
  ultimately show ?thesis
    using False by (simp add: dups1_join_cases[OF assms(2)] keeps_shape_def tmp_def t1_def)
qed

text \<open>What is left of the negated operand after the shared operands are taken out.\<close>

definition and_rest :: "symstore \<Rightarrow> expr \<Rightarrow> expr \<Rightarrow> expr" where
  "and_rest ss e1 e2 =
     fst (snd (expr_extract_eq_and (expr_transform ss (E_NOT (expr_copy e1))) (expr_copy e2)))"

definition or_rest :: "symstore \<Rightarrow> expr \<Rightarrow> expr \<Rightarrow> expr" where
  "or_rest ss e1 e2 =
     fst (snd (expr_extract_eq_or (expr_transform ss (E_NOT (expr_copy e1))) (expr_copy e2)))"

lemma dups2_contradiction_eq:
  "dups2_contradiction ss p q (t, tc) =
     (if etype (sub t p) = Ty_OR then
        if expr_is_yes (and_rest ss (sub t p) (sub t q)) then (upd t p (E_SYMBOL symbol_no), Suc tc)
        else (t, tc)
      else if etype (sub t p) = Ty_AND then
        if expr_is_no (or_rest ss (sub t p) (sub t q)) then (upd t p (E_SYMBOL symbol_yes), Suc tc)
        else (t, tc)
      else (t, tc))"
  by (simp add: dups2_contradiction_def Let_def case_prod_beta expr_alloc_one_def
      expr_alloc_symbol_def and_rest_def or_rest_def del: expr_transform.simps)

lemma dups2_contradiction_cases:
  obtains "dups2_contradiction ss p q (t, tc) = (t, tc)"
  | b where "dups2_contradiction ss p q (t, tc) = (upd t p (E_SYMBOL b), Suc tc)"
      "etype (sub t p) = Ty_OR \<and> b = symbol_no \<and> expr_is_yes (and_rest ss (sub t p) (sub t q)) \<or>
       etype (sub t p) = Ty_AND \<and> b = symbol_yes \<and> expr_is_no (or_rest ss (sub t p) (sub t q))"
proof -
  let ?c1 = "etype (sub t p) = Ty_OR \<and> expr_is_yes (and_rest ss (sub t p) (sub t q))"
  let ?c2 = "etype (sub t p) = Ty_AND \<and> expr_is_no (or_rest ss (sub t p) (sub t q))"
  consider ?c1 | ?c2 | "\<not> ?c1" "\<not> ?c2" by blast
  then show ?thesis
  proof cases
    case 1
    then show ?thesis by (intro that(2)[of symbol_no]) (simp_all add: dups2_contradiction_eq)
  next
    case 2
    then show ?thesis by (intro that(2)[of symbol_yes]) (simp_all add: dups2_contradiction_eq)
  next
    case 3
    then show ?thesis by (intro that(1)) (simp add: dups2_contradiction_eq)
  qed
qed

lemma keeps_shape_contradiction:
  assumes "dep_expr t" "bin_type ty" "at_leaf ty t p"
  shows "keeps_shape ty (t, tc) (dups2_contradiction ss p q (t, tc))"
proof (cases rule: dups2_contradiction_cases[of ss p q t tc])
  case 1
  with assms(1) show ?thesis by (simp add: keeps_shape_def)
next
  case (2 b)
  have p: "skel ty t p" using assms(3) by (simp add: at_leaf_def)
  have "skel ty (upd t p (E_SYMBOL b)) = skel ty t"
    by (rule skel_upd[OF assms(2,3)]) (simp add: assms(2))
  moreover have "esize (upd t p (E_SYMBOL b)) \<le> esize t"
    using upd_esize[OF assms(2) p, of "E_SYMBOL b"] esize_pos[of "sub t p"] unfolding esize.simps
    by linarith
  moreover have "has_const (upd t p (E_SYMBOL b))" "mod_free t \<longrightarrow> mod_free (upd t p (E_SYMBOL b))"
    using 2(2) has_const_upd[OF assms(2) p, of "E_SYMBOL b"] mod_free_upd[OF assms(2) p] by auto
  ultimately show ?thesis
    using dep_upd[OF assms(2) p assms(1), of "E_SYMBOL b"] by (simp add: 2(1) keeps_shape_def)
qed

lemma keeps_shape_relation: "dups_relation dep_expr keeps_shape"
proof
  fix t ty p tc e' tc'
  assume "dep_expr t" "bin_type ty" "at_leaf ty t p" "bin_type (etype (sub t p))"
    "keeps_shape (etype (sub t p)) (sub t p, tc) (e', tc')"
  then show "keeps_shape ty (t, tc) (upd t p e', tc')" by (rule keeps_shape_nested)
qed (auto simp: keeps_shape_def dep_sub)

interpretation shape1: dups1_relation dep_expr keeps_shape ss for ss
  by (intro dups1_relation.intro keeps_shape_relation dups1_relation_axioms.intro keeps_shape_join)

interpretation shape2: dups2_relation dep_expr keeps_shape ss for ss
  by (intro dups2_relation.intro keeps_shape_relation dups2_relation_axioms.intro
      keeps_shape_contradiction)

subsection \<open>The passes keep the value\<close>

definition keeps_value :: "symstore \<Rightarrow> expr_type \<Rightarrow> dups_state \<Rightarrow> dups_state \<Rightarrow> bool" where
  "keeps_value ss ty st st' \<longleftrightarrow>
     keeps_shape ty st st' \<and> expr_value ss (fst st') = expr_value ss (fst st)"

lemma keeps_value_nested:
  assumes "dep_expr t" "bin_type ty" "at_leaf ty t p" "bin_type (etype (sub t p))"
    and rel: "keeps_value ss (etype (sub t p)) (sub t p, tc) (e', tc')"
  shows "keeps_value ss ty (t, tc) (upd t p e', tc')"
proof -
  have p: "skel ty t p" using assms(3) by (simp add: at_leaf_def)
  obtain c where "\<And>x. expr_value ss (upd t p x) = op_val ty (expr_value ss x) c"
      "expr_value ss t = op_val ty (expr_value ss (sub t p)) c"
    using sub_value[OF assms(2) p] by blast
  with rel keeps_shape_nested[OF assms(1-4)] show ?thesis by (simp add: keeps_value_def)
qed

lemma keeps_value_join:
  assumes store: "wf_store ss"
    and "dep_expr t" "bin_type ty" "at_leaf ty t p" "at_leaf ty t q" "p \<noteq> q"
  shows "keeps_value ss ty (t, tc) (dups1_join ss ty p q (t, tc))"
proof (cases "join_of ss ty (sub t p) (sub t q) = Null")
  case True
  with assms(2) show ?thesis
    by (simp add: dups1_join_cases[OF assms(3)] keeps_value_def keeps_shape_def)
next
  case False
  let ?tmp = "join_of ss ty (sub t p) (sub t q)" and ?t1 = "upd t p (unit_expr ty)"
  note pos = join_positions[OF assms(2-6)]
  have pq: "skel ty t p" "skel ty t q" "skel ty ?t1 q"
    using assms(4,5) pos(4) by (simp_all add: at_leaf_def)
  obtain c where c: "\<And>x. expr_value ss (upd t p x) = op_val ty (expr_value ss x) c"
      "expr_value ss t = op_val ty (expr_value ss (sub t p)) c"
    using sub_value[OF assms(3) pq(1)] by blast
  obtain d where d: "\<And>x. expr_value ss (upd ?t1 q x) = op_val ty (expr_value ss x) d"
      "expr_value ss ?t1 = op_val ty (expr_value ss (sub ?t1 q)) d"
    using sub_value[OF assms(3) pq(3)] by blast
  have "c = op_val ty (expr_value ss (sub t q)) d"
    using d(2) c(1)[of "unit_expr ty"] unit_op[OF store assms(3)] pos(2) by simp
  then have "expr_value ss (upd ?t1 q ?tmp) = expr_value ss t"
    using join_of_value[OF store False dep_sub[OF pq(1) assms(2)] dep_sub[OF pq(2) assms(2)] assms(3)]
    by (simp add: c(2) d(1) op_val_ac)
  with False keeps_shape_join[OF assms(2-6), of tc ss] show ?thesis
    by (simp add: dups1_join_cases[OF assms(3)] keeps_value_def)
qed

text \<open>In the contradiction test, what the rests say about the values.\<close>

lemma not_copy_value:
  assumes "wf_store ss" "dep_expr e"
  shows "expr_value ss (expr_transform ss (E_NOT (expr_copy e))) = EXPR_NOT (expr_value ss e) \<and>
    dep_expr (expr_transform ss (E_NOT (expr_copy e)))"
  using expr_transform_value[OF assms(1), of "E_NOT e"] assms(2) by (simp add: expr_copy_dep)

lemma and_rest_value:
  assumes "wf_store ss" "dep_expr e1" "dep_expr e2" "expr_is_yes (and_rest ss e1 e2)"
  shows "expr_value ss e2 \<le> EXPR_NOT (expr_value ss e1)"
proof -
  let ?n = "expr_transform ss (E_NOT (expr_copy e1))"
  obtain tmp a b where res: "expr_extract_eq_and ?n e2 = (tmp, a, b)"
    by (cases "expr_extract_eq_and ?n e2") auto
  note n = not_copy_value[OF assms(1,2)]
  have "expr_value ss a = TYes"
    using assms(3,4) res wf_storeD(1)[OF assms(1)]
    by (auto simp: and_rest_def expr_is_yes_def expr_copy_dep)
  with extract_eq_and_value[OF assms(1) _ assms(3) res] n show ?thesis
    by (auto simp: extracts_def op_val_simps)
qed

lemma or_rest_value:
  assumes "wf_store ss" "dep_expr e1" "dep_expr e2" "expr_is_no (or_rest ss e1 e2)"
  shows "EXPR_NOT (expr_value ss e1) \<le> expr_value ss e2"
proof -
  let ?n = "expr_transform ss (E_NOT (expr_copy e1))"
  obtain tmp a b where res: "expr_extract_eq_or ?n e2 = (tmp, a, b)"
    by (cases "expr_extract_eq_or ?n e2") auto
  note n = not_copy_value[OF assms(1,2)]
  have "expr_value ss a = TNo"
    using assms(3,4) res wf_storeD(3)[OF assms(1)]
    by (auto simp: or_rest_def expr_is_no_def expr_copy_dep)
  with extract_eq_or_value[OF assms(1) _ assms(3) res] n show ?thesis
    by (auto simp: extracts_def op_val_simps)
qed

lemma keeps_value_contradiction:
  assumes store: "wf_store ss" "two_valued ss" and "dep_expr t" "mod_free t" "bin_type ty"
    "at_leaf ty t p" "skel ty t q"
  shows "keeps_value ss ty (t, tc) (dups2_contradiction ss p q (t, tc))"
proof (cases rule: dups2_contradiction_cases[of ss p q t tc])
  case 1
  with assms(3) show ?thesis by (simp add: keeps_value_def keeps_shape_def)
next
  case (2 b)
  have p: "skel ty t p" "etype (sub t p) \<noteq> ty" using assms(6) by (simp_all add: at_leaf_def)
  obtain c where c: "\<And>x. expr_value ss (upd t p x) = op_val ty (expr_value ss x) c"
      "expr_value ss t = op_val ty (expr_value ss (sub t p)) c"
    using sub_value[OF assms(5) p(1)] by blast
  obtain d where d: "expr_value ss t = op_val ty (expr_value ss (sub t q)) d"
    using sub_value[OF assms(5,7)] by blast
  have two: "expr_value ss (sub t p) \<noteq> TMod" "expr_value ss t \<noteq> TMod"
    using two_valued_expr_value[OF store(2)] mod_free_sub[OF p(1)] assms(4) by auto
  note dep = dep_sub[OF p(1) assms(3)] dep_sub[OF assms(7,3)]
  have "expr_value ss (upd t p (E_SYMBOL b)) = expr_value ss t"
    using 2(2)
  proof (elim disjE conjE)
    assume b: "b = symbol_no" and e: "etype (sub t p) = Ty_OR"
      "expr_is_yes (and_rest ss (sub t p) (sub t q))"
    have ty: "ty = Ty_AND" using e(1) p(2) assms(5) by (auto elim!: bin_typeE)
    show ?thesis
      using and_rest_value[OF store(1) dep e(2)] two c(1)[of "E_SYMBOL b"] c(2) d
      unfolding b ty op_val_simps
      by (cases "expr_value ss (sub t p)") (auto simp: wf_storeD[OF store(1)])
  next
    assume b: "b = symbol_yes" and e: "etype (sub t p) = Ty_AND"
      "expr_is_no (or_rest ss (sub t p) (sub t q))"
    have ty: "ty = Ty_OR" using e(1) p(2) assms(5) by (auto elim!: bin_typeE)
    show ?thesis
      using or_rest_value[OF store(1) dep e(2)] two c(1)[of "E_SYMBOL b"] c(2) d
      unfolding b ty op_val_simps
      by (cases "expr_value ss (sub t p)") (auto simp: wf_storeD[OF store(1)])
  qed
  with keeps_shape_contradiction[OF assms(3,5,6), of tc ss q] show ?thesis
    by (simp add: 2(1) keeps_value_def)
qed

lemma dups1_value: "wf_store ss \<Longrightarrow> dups1_relation dep_expr (keeps_value ss) ss"
proof
  fix t ty p tc e' tc'
  assume "dep_expr t" "bin_type ty" "at_leaf ty t p" "bin_type (etype (sub t p))"
    "keeps_value ss (etype (sub t p)) (sub t p, tc) (e', tc')"
  then show "keeps_value ss ty (t, tc) (upd t p e', tc')" by (rule keeps_value_nested)
next
  fix t ty p q tc
  assume "wf_store ss" "dep_expr t" "bin_type ty" "at_leaf ty t p" "at_leaf ty t q" "p \<noteq> q"
  then show "keeps_value ss ty (t, tc) (dups1_join ss ty p q (t, tc))" by (rule keeps_value_join)
qed (auto simp: keeps_value_def keeps_shape_def dep_sub)

lemma dups2_value:
  "wf_store ss \<Longrightarrow> two_valued ss \<Longrightarrow>
   dups2_relation (\<lambda>e. dep_expr e \<and> mod_free e) (keeps_value ss) ss"
proof
  fix t ty p tc e' tc'
  assume "dep_expr t \<and> mod_free t" "bin_type ty" "at_leaf ty t p" "bin_type (etype (sub t p))"
    "keeps_value ss (etype (sub t p)) (sub t p, tc) (e', tc')"
  then show "keeps_value ss ty (t, tc) (upd t p e', tc')" by (blast intro: keeps_value_nested)
next
  fix t ty p q tc
  assume "wf_store ss" "two_valued ss" "dep_expr t \<and> mod_free t" "bin_type ty" "at_leaf ty t p"
    "skel ty t q"
  then show "keeps_value ss ty (t, tc) (dups2_contradiction ss p q (t, tc))"
    by (blast intro: keeps_value_contradiction)
qed (auto simp: keeps_value_def keeps_shape_def dep_sub mod_free_sub)

subsection \<open>The passes and the loop end\<close>

text \<open>\<open>in_bounds\<close>: a tree a pass may meet, of at most \<open>N\<close> nodes and operand depth at most \<open>K\<close>.\<close>

definition in_bounds :: "expr_type \<Rightarrow> nat \<Rightarrow> nat \<Rightarrow> dups_state \<Rightarrow> bool" where
  "in_bounds ty N K st \<longleftrightarrow>
     dep_expr (fst st) \<and> esize (fst st) \<le> N \<and> (\<forall>r. skel ty (fst st) r \<longrightarrow> length r \<le> K)"

lemma in_bounds_keeps: "in_bounds ty N K st \<Longrightarrow> keeps_shape ty st st' \<Longrightarrow> in_bounds ty N K st'"
  by (auto simp: in_bounds_def keeps_shape_def)

lemma in_bounds_child:
  assumes "bin_type ty" "in_bounds ty N K st" "skel ty (fst st) p" "etype (sub (fst st) p) = ty"
  shows "skel ty (fst st) (p @ [s])" "K - length (p @ [s]) < K - length p"
proof -
  show "skel ty (fst st) (p @ [s])" using assms by (simp add: skel_append)
  with assms(2) have "length (p @ [s]) \<le> K" unfolding in_bounds_def by blast
  then show "K - length (p @ [s]) < K - length p" by simp
qed

lemma leaf_below:
  assumes "bin_type ty" "at_leaf ty t p" "skel ty t q" "p \<noteq> q"
  shows "esize (sub t p) < esize t"
proof -
  have "p \<noteq> []"
  proof
    assume "p = []"
    with assms obtain s q' where "q = s # q'" by (cases q) auto
    with assms \<open>p = []\<close> operands_none[OF assms(1), of t] show False
      by (auto simp: at_leaf_def skel_Cons)
  qed
  with assms(2) sub_esize[of ty t p] show ?thesis by (simp add: at_leaf_def)
qed

lemma dups1_total_below:
  assumes nested: "\<And>e tc ty' m. dep_expr e \<Longrightarrow> bin_type ty' \<Longrightarrow> esize e < N \<Longrightarrow> F \<le> m \<Longrightarrow>
      expr_eliminate_dups1 m ss ty' [] [] (e, tc) \<noteq> None"
    and ty: "bin_type ty"
  shows "in_bounds ty N K st \<Longrightarrow> skel ty (fst st) p \<Longrightarrow> skel ty (fst st) q \<Longrightarrow>
    (K - length p) + (K - length q) + F + 1 \<le> n \<Longrightarrow> expr_eliminate_dups1 n ss ty p q st \<noteq> None"
proof (induction n arbitrary: p q st)
  case (Suc n)
  have step: "expr_eliminate_dups1 n ss ty p1 q1 st \<noteq> None \<Longrightarrow> skel ty (fst st) p1 \<Longrightarrow>
      skel ty (fst st) q1 \<Longrightarrow> skel ty (fst st) p2 \<Longrightarrow> skel ty (fst st) q2 \<Longrightarrow>
      (K - length p2) + (K - length q2) + F + 1 \<le> n \<Longrightarrow>
      Option.bind (expr_eliminate_dups1 n ss ty p1 q1 st) (expr_eliminate_dups1 n ss ty p2 q2) \<noteq> None"
    for p1 q1 p2 q2
  proof -
    assume a: "expr_eliminate_dups1 n ss ty p1 q1 st \<noteq> None" "skel ty (fst st) p1"
      "skel ty (fst st) q1" "skel ty (fst st) p2" "skel ty (fst st) q2"
      "(K - length p2) + (K - length q2) + F + 1 \<le> n"
    then obtain mid where mid: "expr_eliminate_dups1 n ss ty p1 q1 st = Some mid" by auto
    have "keeps_shape ty st mid"
      using shape1.walk[OF ty mid _ a(2,3)] Suc.prems(1) by (simp add: in_bounds_def)
    then have "expr_eliminate_dups1 n ss ty p2 q2 mid \<noteq> None"
      using Suc.IH[OF in_bounds_keeps[OF Suc.prems(1)]] a by (simp add: keeps_shape_def)
    with mid show ?thesis by simp
  qed
  consider (p) "etype (sub (fst st) p) = ty"
    | (q) "etype (sub (fst st) p) \<noteq> ty" "etype (sub (fst st) q) = ty"
    | (leaf) "etype (sub (fst st) p) \<noteq> ty" "etype (sub (fst st) q) \<noteq> ty" by blast
  then show ?case
  proof cases
    case p
    note child = in_bounds_child[OF ty Suc.prems(1,2) p]
    have fuel: "(K - length (p @ [s])) + (K - length q) + F + 1 \<le> n" for s
      using child(2)[of s] Suc.prems(4) by linarith
    have "Option.bind (expr_eliminate_dups1 n ss ty (p @ [L]) q st)
        (expr_eliminate_dups1 n ss ty (p @ [R]) q) \<noteq> None"
      by (rule step[OF Suc.IH[OF Suc.prems(1) child(1) Suc.prems(3) fuel] child(1) Suc.prems(3)
            child(1) Suc.prems(3) fuel])
    with p show ?thesis by simp
  next
    case q
    note child = in_bounds_child[OF ty Suc.prems(1,3) q(2)]
    have fuel: "(K - length p) + (K - length (q @ [s])) + F + 1 \<le> n" for s
      using child(2)[of s] Suc.prems(4) by linarith
    have "Option.bind (expr_eliminate_dups1 n ss ty p (q @ [L]) st)
        (expr_eliminate_dups1 n ss ty p (q @ [R])) \<noteq> None"
      by (rule step[OF Suc.IH[OF Suc.prems(1,2) child(1) fuel] Suc.prems(2) child(1)
            Suc.prems(2) child(1) fuel])
    with q show ?thesis by simp
  next
    case leaf
    have "expr_eliminate_dups1 n ss (etype (sub (fst st) p)) [] [] (sub (fst st) p, snd st) \<noteq> None"
      if "p \<noteq> q" "bin_type (etype (sub (fst st) p))"
      using nested[OF _ that(2)] leaf_below[OF ty _ Suc.prems(3) that(1)] dep_sub[OF Suc.prems(2)]
        leaf Suc.prems by (simp add: at_leaf_def in_bounds_def)
    with leaf show ?thesis by (auto simp: Let_def bin_type_def) (metis surj_pair)
  qed
qed simp

lemma dups2_total_below:
  assumes nested: "\<And>e tc ty' m. dep_expr e \<Longrightarrow> bin_type ty' \<Longrightarrow> esize e < N \<Longrightarrow> F \<le> m \<Longrightarrow>
      expr_eliminate_dups2 m ss ty' [] [] (e, tc) \<noteq> None"
    and ty: "bin_type ty"
  shows "in_bounds ty N K st \<Longrightarrow> skel ty (fst st) p \<Longrightarrow> skel ty (fst st) q \<Longrightarrow>
    (K - length p) + (K - length q) + F + 1 \<le> n \<Longrightarrow> expr_eliminate_dups2 n ss ty p q st \<noteq> None"
proof (induction n arbitrary: p q st)
  case (Suc n)
  have step: "\<exists>mid'. Option.bind (expr_eliminate_dups2 n ss ty p1 q1 st)
        (expr_eliminate_dups2 n ss ty p2 q2) = Some mid' \<and> keeps_shape ty st mid'"
    if a: "expr_eliminate_dups2 n ss ty p1 q1 st \<noteq> None" "skel ty (fst st) p1"
      "skel ty (fst st) q1" "skel ty (fst st) p2" "skel ty (fst st) q2"
      "(K - length p2) + (K - length q2) + F + 1 \<le> n"
    for p1 q1 p2 q2
  proof -
    obtain mid where mid: "expr_eliminate_dups2 n ss ty p1 q1 st = Some mid" using a(1) by auto
    have m: "keeps_shape ty st mid"
      using shape2.walk[OF ty mid _ a(2,3)] Suc.prems(1) by (simp add: in_bounds_def)
    then have "expr_eliminate_dups2 n ss ty p2 q2 mid \<noteq> None"
      using Suc.IH[OF in_bounds_keeps[OF Suc.prems(1) m]] a by (simp add: keeps_shape_def)
    then obtain mid' where mid': "expr_eliminate_dups2 n ss ty p2 q2 mid = Some mid'" by auto
    have "keeps_shape ty mid mid'"
      using shape2.walk[OF ty mid'] m a by (simp add: keeps_shape_def)
    with mid mid' m show ?thesis by (auto intro: shape1.rel_trans)
  qed
  show ?case
  proof (cases "etype (sub (fst st) p) = ty")
    case p: True
    note child = in_bounds_child[OF ty Suc.prems(1,2) p]
    have fuel: "(K - length (p @ [s])) + (K - length q) + F + 1 \<le> n" for s
      using child(2)[of s] Suc.prems(4) by linarith
    have "\<exists>mid'. Option.bind (expr_eliminate_dups2 n ss ty (p @ [L]) q st)
        (expr_eliminate_dups2 n ss ty (p @ [R]) q) = Some mid' \<and> keeps_shape ty st mid'"
      by (rule step[OF Suc.IH[OF Suc.prems(1) child(1) Suc.prems(3) fuel] child(1) Suc.prems(3)
            child(1) Suc.prems(3) fuel])
    with p show ?thesis by auto
  next
    case p: False
    have "\<exists>mid. (if etype (sub (fst st) q) = ty
        then Option.bind (expr_eliminate_dups2 n ss ty p (q @ [L]) st)
               (expr_eliminate_dups2 n ss ty p (q @ [R]))
        else Some st) = Some mid \<and> keeps_shape ty st mid"
    proof (cases "etype (sub (fst st) q) = ty")
      case True
      note child = in_bounds_child[OF ty Suc.prems(1,3) True]
      have fuel: "(K - length p) + (K - length (q @ [s])) + F + 1 \<le> n" for s
        using child(2)[of s] Suc.prems(4) by linarith
      show ?thesis
        unfolding if_P[OF True]
        by (rule step[OF Suc.IH[OF Suc.prems(1,2) child(1) fuel] Suc.prems(2) child(1)
              Suc.prems(2) child(1) fuel])
    next
      case False
      with Suc.prems(1) show ?thesis by (auto simp: in_bounds_def intro: shape1.rel_refl)
    qed
    then obtain mid where mid: "(if etype (sub (fst st) q) = ty
        then Option.bind (expr_eliminate_dups2 n ss ty p (q @ [L]) st)
               (expr_eliminate_dups2 n ss ty p (q @ [R]))
        else Some st) = Some mid" "keeps_shape ty st mid" by blast
    have paths: "skel ty (fst mid) p" "skel ty (fst mid) q" "at_leaf ty (fst mid) p"
      using mid(2) Suc.prems p shape1.rel_leaf[OF ty mid(2), of p]
      by (auto simp: keeps_shape_def in_bounds_def at_leaf_def)
    note bounds = in_bounds_keeps[OF Suc.prems(1) mid(2)]
    have "expr_eliminate_dups2 n ss (etype (sub (fst mid) p)) [] [] (sub (fst mid) p, snd mid) \<noteq> None"
      if "p \<noteq> q" "bin_type (etype (sub (fst mid) p))"
      using nested[OF _ that(2)] leaf_below[OF ty paths(3,2) that(1)] dep_sub[OF paths(1)]
        bounds Suc.prems(4) by (simp add: in_bounds_def)
    with p mid(1) show ?thesis by (auto simp: Let_def bin_type_def) (metis surj_pair)
  qed
qed simp

lemma in_bounds_self:
  "dep_expr t \<Longrightarrow> in_bounds ty (esize t) (esize t - 1) (t, tc)"
  using skel_length[of ty t] by (auto simp: in_bounds_def less_Suc_eq_le[symmetric])

lemma dups_fuel_step:
  "0 < n \<Longrightarrow> (n - 1) + (n - 1) + dups_fuel (n - 1) + 1 \<le> dups_fuel n"
  by (cases n) (simp_all add: dups_fuel_def)

lemma dups_fuel_mono: "n \<le> m \<Longrightarrow> dups_fuel n \<le> dups_fuel m"
  by (simp add: dups_fuel_def add_mono mult_mono)

lemma dups1_total:
  "dep_expr t \<Longrightarrow> bin_type ty \<Longrightarrow> dups_fuel (esize t) \<le> n \<Longrightarrow>
   expr_eliminate_dups1 n ss ty [] [] (t, tc) \<noteq> None"
proof (induction t arbitrary: ty n tc rule: measure_induct_rule[of esize])
  case (less t)
  show ?case
  proof (rule dups1_total_below[OF _ less.prems(2) in_bounds_self[OF less.prems(1)]])
    show "expr_eliminate_dups1 m ss ty' [] [] (e, c) \<noteq> None"
      if "dep_expr e" "bin_type ty'" "esize e < esize t" "dups_fuel (esize t - 1) \<le> m"
      for e c ty' m
      by (rule less.IH[OF that(3,1,2)]) (use dups_fuel_mono[of "esize e" "esize t - 1"] that(3,4) in linarith)
    show "(esize t - 1 - length []) + (esize t - 1 - length []) + dups_fuel (esize t - 1) + 1 \<le> n"
      using dups_fuel_step[of "esize t"] less.prems(3) by simp
  qed simp_all
qed

lemma dups2_total:
  "dep_expr t \<Longrightarrow> bin_type ty \<Longrightarrow> dups_fuel (esize t) \<le> n \<Longrightarrow>
   expr_eliminate_dups2 n ss ty [] [] (t, tc) \<noteq> None"
proof (induction t arbitrary: ty n tc rule: measure_induct_rule[of esize])
  case (less t)
  show ?case
  proof (rule dups2_total_below[OF _ less.prems(2) in_bounds_self[OF less.prems(1)]])
    show "expr_eliminate_dups2 m ss ty' [] [] (e, c) \<noteq> None"
      if "dep_expr e" "bin_type ty'" "esize e < esize t" "dups_fuel (esize t - 1) \<le> m"
      for e c ty' m
      by (rule less.IH[OF that(3,1,2)]) (use dups_fuel_mono[of "esize e" "esize t - 1"] that(3,4) in linarith)
    show "(esize t - 1 - length []) + (esize t - 1 - length []) + dups_fuel (esize t - 1) + 1 \<le> n"
      using dups_fuel_step[of "esize t"] less.prems(3) by simp
  qed simp_all
qed

lemma dups_round_shape:
  assumes "dep_expr e"
  shows "\<exists>e' tc. dups_round ss e = Some (e', tc) \<and> dep_expr e' \<and> esize e' \<le> esize e \<and>
    (mod_free e \<longrightarrow> mod_free e') \<and> (0 < tc \<longrightarrow> bin_type (etype e') \<and> has_const e')"
proof (cases "bin_type (etype e)")
  case True
  let ?n = "dups_fuel (esize e)" and ?ty = "etype e"
  obtain st where st: "expr_eliminate_dups1 ?n ss ?ty [] [] (e, 0) = Some st"
    using dups1_total[OF assms True, of ?n ss 0] by auto
  have k1: "keeps_shape ?ty (e, 0) st"
    using shape1.walk[OF True st] assms by simp
  then have d1: "dep_expr (fst st)" "esize (fst st) \<le> esize e" by (simp_all add: keeps_shape_def)
  obtain st' where st': "expr_eliminate_dups2 ?n ss ?ty [] [] st = Some st'"
    using dups2_total[OF d1(1) True, of ?n ss "snd st"] dups_fuel_mono[OF d1(2)] by auto
  have k2: "keeps_shape ?ty st st'"
    using shape2.walk[OF True st'] d1 by simp
  then have k: "keeps_shape ?ty (e, 0) st'"
    using k1 by (blast intro: shape1.rel_trans)
  then have "skel ?ty (fst st') [L] = skel ?ty e [L]" by (simp add: keeps_shape_def)
  then have "etype (fst st') = ?ty" by (simp add: skel_root[OF True])
  moreover have "dups_round ss e = Some st'"
    using True st st' by (auto simp: dups_round_def bin_type_def)
  ultimately show ?thesis
    using k True by (intro exI[of _ "fst st'"] exI[of _ "snd st'"]) (auto simp: keeps_shape_def)
qed (use assms in \<open>auto simp: dups_round_def bin_type_def\<close>)

lemma dups_round_value:
  assumes "wf_store ss" "two_valued ss" "dep_expr e" "mod_free e" "dups_round ss e = Some (e', tc)"
  shows "expr_value ss e' = expr_value ss e"
proof (cases "bin_type (etype e)")
  case True
  let ?n = "dups_fuel (esize e)" and ?ty = "etype e"
  obtain st where st: "expr_eliminate_dups1 ?n ss ?ty [] [] (e, 0) = Some st"
      "expr_eliminate_dups2 ?n ss ?ty [] [] st = Some (e', tc)"
    using assms(5) True by (auto simp: dups_round_def bin_type_def)
  have k1: "keeps_value ss ?ty (e, 0) st"
    using dups1_relation.walk[OF dups1_value[OF assms(1)] True st(1)] assms(3) by simp
  then have "keeps_value ss ?ty st (e', tc)"
    using dups2_relation.walk[OF dups2_value[OF assms(1,2)] True st(2)] assms(4)
    by (simp add: keeps_value_def keeps_shape_def)
  with k1 show ?thesis by (simp add: keeps_value_def)
qed (use assms(5) in \<open>auto simp: dups_round_def bin_type_def\<close>)

lemma eliminate_dups_loop_total:
  "dep_expr e \<Longrightarrow> esize e < n \<Longrightarrow>
   \<exists>e'. eliminate_dups_loop n ss e = Some e' \<and> dep_expr e' \<and> esize e' \<le> esize e"
proof (induction n arbitrary: e)
  case (Suc n)
  obtain e1 tc where r: "dups_round ss e = Some (e1, tc)" "dep_expr e1" "esize e1 \<le> esize e"
      "0 < tc \<Longrightarrow> bin_type (etype e1) \<and> has_const e1"
    using dups_round_shape[OF Suc.prems(1), of ss] by blast
  show ?case
  proof (cases "tc = 0")
    case False
    with r have "esize (expr_eliminate_yn e1) < esize e"
      using eliminate_yn_shrinks[of e1] by linarith
    with Suc.IH[OF eliminate_yn_dep[OF r(2)]] Suc.prems(2) r(1) False show ?thesis by fastforce
  qed (use r in simp)
qed simp

lemma eliminate_dups_loop_value:
  "wf_store ss \<Longrightarrow> two_valued ss \<Longrightarrow> dep_expr e \<Longrightarrow> mod_free e \<Longrightarrow>
   eliminate_dups_loop n ss e = Some e' \<Longrightarrow> expr_value ss e' = expr_value ss e"
proof (induction n arbitrary: e)
  case (Suc n)
  obtain e1 tc where r: "dups_round ss e = Some (e1, tc)" "dep_expr e1" "mod_free e1"
    using dups_round_shape[OF Suc.prems(3), of ss] Suc.prems(4) by blast
  have v: "expr_value ss e1 = expr_value ss e"
    by (rule dups_round_value[OF Suc.prems(1-4) r(1)])
  show ?case
  proof (cases "tc = 0")
    case False
    with Suc.prems(5) r(1) have "eliminate_dups_loop n ss (expr_eliminate_yn e1) = Some e'" by simp
    with Suc.IH[OF Suc.prems(1,2) eliminate_yn_dep[OF r(2)] eliminate_yn_mod_free[OF r(3)]]
    show ?thesis by (simp add: v eliminate_yn_value[OF Suc.prems(1)])
  qed (use Suc.prems(5) r v in simp)
qed simp

end
