(* ===== verification/ExprProps.thy ===== *)
theory ExprProps
  imports ExprElim
begin

text \<open>
  The correctness of the expression operations: the properties of \<^verbatim>\<open>expr.c\<close>, over the lemmas
  of the preceding theories.
\<close>

subsection \<open>A concrete configuration\<close>

text \<open>
  Two tristate symbols, \<open>Sym 0\<close> and \<open>Sym 1\<close>, a boolean one, \<open>Sym 2\<close>, with values \<open>a\<close>, \<open>b\<close>
  and \<open>c\<close>; the four static symbols as the code initialises them.
\<close>

definition valued :: "symbol_type \<Rightarrow> tristate \<Rightarrow> symbol" where
  "valued ty t = zero_symbol\<lparr>sym_type := ty, curr := \<lparr>sv_val = VNull, sv_tri = t\<rparr>\<rparr>"

fun example_store :: "tristate \<Rightarrow> tristate \<Rightarrow> tristate \<Rightarrow> symstore" where
  "example_store a b c (Sym 0) = valued S_TRISTATE a"
| "example_store a b c (Sym (Suc 0)) = valued S_TRISTATE b"
| "example_store a b c (Sym (Suc (Suc 0))) = valued S_BOOLEAN c"
| "example_store a b c s = init_static s"

lemma example_store_static [simp]:
  "s \<in> {symbol_yes, symbol_mod, symbol_no, symbol_empty} \<Longrightarrow> example_store a b c s = init_static s"
  by auto

lemma example_store_symbols [simp]:
  "example_store a b c (Sym 0) = valued S_TRISTATE a"
  "example_store a b c (Sym 1) = valued S_TRISTATE b"
  "example_store a b c (Sym 2) = valued S_BOOLEAN c"
  by (simp_all add: numeral_2_eq_2)

lemma valued_simps [simp]:
  "sym_get_tristate_value (valued ty t) = t" "sym_type (valued ty t) = ty" "flags (valued ty t) = {}"
  "sym_type zero_symbol = S_UNKNOWN" "flags zero_symbol = {}"
  "sym_get_tristate_value zero_symbol = TNo"
  by (simp_all add: valued_def sym_get_tristate_value_def zero_symbol_def null_value_def)

lemma valued_string [simp]:
  "ty = S_BOOLEAN \<or> ty = S_TRISTATE \<Longrightarrow> sym_get_string_value (valued ty t) = tri_string t"
  by (auto simp: sym_get_string_value_def)

lemma static_values [simp]:
  "sym_get_tristate_value (init_static symbol_yes) = TYes"
  "sym_get_tristate_value (init_static symbol_mod) = TMod"
  "sym_get_tristate_value (init_static symbol_no) = TNo"
  "sym_get_tristate_value (init_static symbol_empty) = TNo"
  "sym_get_tristate_value (init_static (Sym n)) = TNo"
  "sym_get_string_value (init_static symbol_yes) = ''y''"
  "sym_get_string_value (init_static symbol_mod) = ''m''"
  "sym_get_string_value (init_static symbol_no) = ''n''"
  "sym_get_string_value (init_static symbol_empty) = ''''"
  by (simp_all add: sym_get_tristate_value_def sym_get_string_value_def zero_symbol_def null_value_def)

lemma example_store_cases:
  obtains "s = Sym 0" | "s = Sym (Suc 0)" | "s = Sym (Suc (Suc 0))"
  | "example_store a b c s = init_static s" "s \<noteq> Sym 0" "s \<noteq> Sym 1" "s \<noteq> Sym 2"
  by (cases "(a, b, c, s)" rule: example_store.cases) (auto simp: numeral_2_eq_2)

lemma init_static_type [simp]: "sym_type (init_static s) = S_UNKNOWN"
  by (cases s) (simp_all add: zero_symbol_def)

lemma init_static_const:
  "SYMBOL_CONST \<in> flags (init_static s) \<longleftrightarrow> s \<in> {symbol_yes, symbol_mod, symbol_no}"
  by (cases s) (simp_all add: zero_symbol_def)

declare init_static.simps [simp del]

lemma example_store_const:
  "SYMBOL_CONST \<in> flags (example_store a b c s) \<longleftrightarrow> s \<in> {symbol_yes, symbol_mod, symbol_no}"
  by (rule example_store_cases[where s=s and a=a and b=b and c=c]) (auto simp: init_static_const)

lemma example_store_wf: "c \<noteq> TMod \<Longrightarrow> wf_store (example_store a b c)"
proof -
  assume c: "c \<noteq> TMod"
  have bool: "sym_get_tristate_value (example_store a b c s) \<noteq> TMod"
    if "sym_type (example_store a b c s) = S_BOOLEAN" for s
    using that c by (cases rule: example_store_cases[where s=s and a=a and b=b and c=c]) auto
  have inj: "s = t" if "SYMBOL_CONST \<in> flags (example_store a b c s)"
      "SYMBOL_CONST \<in> flags (example_store a b c t)"
      "sym_get_string_value (example_store a b c s) = sym_get_string_value (example_store a b c t)"
    for s t
  proof -
    have "\<forall>s\<in>{symbol_yes, symbol_mod, symbol_no}. \<forall>t\<in>{symbol_yes, symbol_mod, symbol_no}.
        sym_get_string_value (init_static s) = sym_get_string_value (init_static t) \<longrightarrow> s = t"
      by simp
    with that show ?thesis
      unfolding example_store_const by (metis example_store_static insert_iff)
  qed
  show ?thesis
    unfolding wf_store_def
  proof (intro conjI)
    show "\<forall>s. sym_type (example_store a b c s) = S_BOOLEAN \<longrightarrow>
        sym_get_tristate_value (example_store a b c s) \<noteq> TMod"
      using bool by blast
  qed (simp, use inj in blast)
qed

lemma example_store_two:
  "a \<noteq> TMod \<Longrightarrow> b \<noteq> TMod \<Longrightarrow> c \<noteq> TMod \<Longrightarrow> two_valued (example_store a b c)"
  unfolding two_valued_def
proof (intro allI impI)
  fix s
  assume *: "a \<noteq> TMod" "b \<noteq> TMod" "c \<noteq> TMod" "s \<noteq> symbol_mod"
  then show "sym_get_tristate_value (example_store a b c s) \<noteq> TMod"
    by (cases rule: example_store_cases[where s=s and a=a and b=b and c=c]; cases s) auto
qed

subsection \<open>Equality and elimination\<close>

text \<open>\<open>expr_eq\<close> never calls two dependency expressions of different values equal.\<close>

theorem expr_eq_sound:
  assumes "wf_store ss" "dep_expr e1" "dep_expr e2" "expr_eq e1 e2"
  shows "expr_value ss e1 = expr_value ss e2"
  by (rule expr_eq.eq_value[OF assms])

lemma expr_eq_sound_witness:
  "expr_value (example_store TMod TYes TNo) (E_AND (E_SYMBOL (Sym 0)) (E_SYMBOL (Sym 1))) =
   expr_value (example_store TMod TYes TNo) (E_AND (E_SYMBOL (Sym 1)) (E_SYMBOL (Sym 0)))"
proof (rule expr_eq_sound[OF example_store_wf])
  show "expr_eq (E_AND (E_SYMBOL (Sym 0)) (E_SYMBOL (Sym 1)))
     (E_AND (E_SYMBOL (Sym 1)) (E_SYMBOL (Sym 0)))"
    by code_simp
qed simp_all

text \<open>
  On two conjunctions, or two disjunctions, \<open>expr_eq\<close> is the recursion of the code: it
  eliminates the operands of copies of the two against each other, comparing operands by
  \<open>expr_eq\<close> itself, and accepts when both are left as the same symbol; the fuel is enough.
\<close>

theorem expr_eq_unfold:
  assumes "etype e1 = Ty_OR \<or> etype e1 = Ty_AND" "etype e2 = etype e1"
  shows "expr_eq e1 e2 \<longleftrightarrow>
    (\<exists>s. expr_eliminate_eq (expr_copy e1) (expr_copy e2) = (E_SYMBOL s, E_SYMBOL s))"
  using assms by (intro expr_eq_bin) (simp_all add: bin_type_def)

lemma expr_eq_unfold_witness:
  "expr_eliminate_eq (E_OR (E_SYMBOL (Sym 0)) (E_SYMBOL (Sym 1)))
     (E_OR (E_SYMBOL (Sym 1)) (E_SYMBOL (Sym 0))) = (E_SYMBOL symbol_no, E_SYMBOL symbol_no) \<and>
   expr_eq (E_OR (E_SYMBOL (Sym 0)) (E_SYMBOL (Sym 1))) (E_OR (E_SYMBOL (Sym 1)) (E_SYMBOL (Sym 0)))"
proof (rule conjI)
  show *: "expr_eliminate_eq (E_OR (E_SYMBOL (Sym 0)) (E_SYMBOL (Sym 1)))
     (E_OR (E_SYMBOL (Sym 1)) (E_SYMBOL (Sym 0))) = (E_SYMBOL symbol_no, E_SYMBOL symbol_no)"
    by code_simp
  then show "expr_eq (E_OR (E_SYMBOL (Sym 0)) (E_SYMBOL (Sym 1)))
     (E_OR (E_SYMBOL (Sym 1)) (E_SYMBOL (Sym 0)))"
    by (subst expr_eq_unfold) simp_all
qed

lemma eliminate_yn_no_const:
  "has_const (expr_eliminate_yn e) \<Longrightarrow>
   expr_eliminate_yn e = E_SYMBOL symbol_yes \<or> expr_eliminate_yn e = E_SYMBOL symbol_no"
proof (induction e rule: expr_eliminate_yn.induct)
  case (1 l r)
  then show ?case by (auto simp: Let_def split: if_splits)
next
  case (2 l r)
  then show ?case by (auto simp: Let_def split: if_splits)
qed auto

subsection \<open>Normalisation\<close>

text \<open>Negation normal form: \<open>!\<close> only in front of a symbol that is no constant.\<close>

fun nnf :: "expr \<Rightarrow> bool" where
  "nnf (E_NOT (E_SYMBOL s)) = (s \<notin> {symbol_yes, symbol_mod, symbol_no})"
| "nnf (E_NOT _) = False"
| "nnf (E_AND l r) = (nnf l \<and> nnf r)"
| "nnf (E_OR l r) = (nnf l \<and> nnf r)"
| "nnf _ = True"

lemma nnf_atoms: "nnf (E_EQUAL a b)" "nnf (E_UNEQUAL a b)" "nnf (E_SYMBOL a)"
  by simp_all

lemma transform_leaf_nnf:
  "wf_store ss \<Longrightarrow> nnf (transform_equal ss a b)" "wf_store ss \<Longrightarrow> nnf (transform_unequal ss a b)"
  "nnf (transform_not_symbol s)"
  using wf_storeD(7-9)[of ss] by (auto simp: expr_alloc_symbol_def transform_not_symbol_def)

lemma transform_nnf: "wf_store ss \<Longrightarrow> dep_expr e \<Longrightarrow> nnf (expr_transform ss e)"
proof (induction ss e rule: expr_transform.induct)
  case (5 ss a)
  have a: "nnf (expr_transform ss a)" "dep_expr (expr_transform ss a)"
    using 5 expr_transform_value[of ss a] by auto
  show ?case
  proof (cases "expr_transform ss a")
    case (E_OR x y)
    with 5(2)[OF E_OR] 5(5) a show ?thesis by (simp add: expr_alloc_one_def)
  next
    case (E_AND x y)
    with 5(3)[OF E_AND] 5(5) a show ?thesis by (simp add: expr_alloc_one_def)
  next
    case (E_NOT b)
    with 5(4)[OF E_NOT] 5(5) a show ?thesis by simp
  next
    case (E_SYMBOL s)
    with transform_leaf_nnf(3) show ?thesis by simp
  qed (use a in auto)
qed (auto simp: transform_leaf_nnf simp del: transform_equal.simps transform_unequal.simps)

text \<open>
  C11.  \<open>expr_transform\<close> ends on every expression, keeps its value, and gives an expression in
  negation normal form.
\<close>

theorem expr_transform_correct:
  assumes "wf_store ss" "dep_expr e"
  shows "expr_value ss (expr_transform ss e) = expr_value ss e \<and> nnf (expr_transform ss e)"
  using expr_transform_value[OF assms] transform_nnf[OF assms] by blast

lemma expr_transform_correct_witness:
  "expr_value (example_store TMod TYes TYes)
     (expr_transform (example_store TMod TYes TYes)
       (E_NOT (E_AND (E_SYMBOL (Sym 0)) (E_EQUAL (Sym 2) symbol_yes)))) = TMod \<and>
   nnf (expr_transform (example_store TMod TYes TYes)
       (E_NOT (E_AND (E_SYMBOL (Sym 0)) (E_EQUAL (Sym 2) symbol_yes))))"
  using expr_transform_correct[OF example_store_wf,
      of TYes "E_NOT (E_AND (E_SYMBOL (Sym 0)) (E_EQUAL (Sym 2) symbol_yes))" TMod TYes]
  by (simp add: EXPR_AND_def del: expr_transform.simps)

text \<open>
  \<open>expr_eliminate_yn\<close> keeps the value of an expression, does not make it larger, and
  leaves no constant \<open>y\<close> or \<open>n\<close> as an operand: when one is left, it is the whole expression.
\<close>

theorem expr_eliminate_yn_correct:
  assumes "wf_store ss"
  shows "expr_value ss (expr_eliminate_yn e) = expr_value ss e \<and>
    esize (expr_eliminate_yn e) \<le> esize e \<and>
    (has_const (expr_eliminate_yn e) \<longrightarrow> expr_eliminate_yn e \<in> {E_SYMBOL symbol_yes, E_SYMBOL symbol_no})"
  using eliminate_yn_value[OF assms] eliminate_yn_esize eliminate_yn_no_const by blast

lemma expr_eliminate_yn_correct_witness:
  "expr_value (example_store TMod TYes TYes)
     (expr_eliminate_yn (E_AND (E_SYMBOL symbol_yes) (E_SYMBOL (Sym 0)))) = TMod"
  using expr_eliminate_yn_correct[OF example_store_wf[of TYes TMod TYes],
      of "E_AND (E_SYMBOL symbol_yes) (E_SYMBOL (Sym 0))"]
  by (simp add: EXPR_AND_def del: expr_eliminate_yn.simps)

subsection \<open>Joining, extraction and duplicate elimination\<close>

text \<open>
  When \<open>expr_join_or\<close> or \<open>expr_join_and\<close> merges two operands, the merged operand has
  exactly the value of their disjunction or conjunction, in three-valued logic.
\<close>

theorem expr_join_correct:
  assumes "wf_store ss" "dep_expr e1" "dep_expr e2"
  shows "(expr_join_or ss e1 e2 \<noteq> Null \<longrightarrow>
      expr_value ss (expr_join_or ss e1 e2) = expr_value ss (E_OR e1 e2)) \<and>
    (expr_join_and ss e1 e2 \<noteq> Null \<longrightarrow>
      expr_value ss (expr_join_and ss e1 e2) = expr_value ss (E_AND e1 e2))"
  using expr_join_or_value[OF assms] expr_join_and_value[OF assms]
  by (simp add: EXPR_OR_max EXPR_AND_min)

lemma expr_join_correct_witness:
  "expr_value (example_store TMod TYes TYes) (E_EQUAL (Sym 0) symbol_mod) =
   expr_value (example_store TMod TYes TYes)
     (E_AND (E_UNEQUAL (Sym 0) symbol_yes) (E_UNEQUAL (Sym 0) symbol_no))"
proof -
  have "expr_join_and (example_store TMod TYes TYes) (E_UNEQUAL (Sym 0) symbol_yes)
      (E_UNEQUAL (Sym 0) symbol_no) = E_EQUAL (Sym 0) symbol_mod"
    by (simp add: expr_join_and_def sym_and_cmp_def cmp_pair_def join_eq_uneq_def expr_ops)
  with expr_join_correct[OF example_store_wf[of TYes TMod TYes],
      of "E_UNEQUAL (Sym 0) symbol_yes" "E_UNEQUAL (Sym 0) symbol_no"]
  show ?thesis by (simp del: expr_value.simps)
qed

lemma extract_eq_dep:
  assumes "wf_store ss" "dep_expr e1" "dep_expr e2"
  shows "dep_expr (fst (snd (expr_extract_eq_and e1 e2)))" "dep_expr (snd (snd (expr_extract_eq_and e1 e2)))"
    "dep_expr (fst (snd (expr_extract_eq_or e1 e2)))" "dep_expr (snd (snd (expr_extract_eq_or e1 e2)))"
proof -
  obtain t a b where A: "expr_extract_eq Ty_AND Null e1 e2 = (t, a, b)"
    by (cases "expr_extract_eq Ty_AND Null e1 e2") auto
  obtain t' a' b' where B: "expr_extract_eq Ty_OR Null e1 e2 = (t', a', b')"
    by (cases "expr_extract_eq Ty_OR Null e1 e2") auto
  have "dep_expr a \<and> dep_expr b" "dep_expr a' \<and> dep_expr b'"
    using extract_both[OF assms(1) _ assms(2,3) A] extract_both[OF assms(1) _ assms(2,3) B] by auto
  then show "dep_expr (fst (snd (expr_extract_eq_and e1 e2)))" "dep_expr (snd (snd (expr_extract_eq_and e1 e2)))"
    "dep_expr (fst (snd (expr_extract_eq_or e1 e2)))" "dep_expr (snd (snd (expr_extract_eq_or e1 e2)))"
    by (simp_all add: expr_extract_eq_and_def expr_extract_eq_or_def A B eliminate_yn_dep)
qed

text \<open>
  The common operands that \<open>expr_extract_eq_and\<close> moves out, put back in front of the two
  rests, give expressions of the original values; and so for \<open>expr_extract_eq_or\<close>.
\<close>

theorem expr_extract_eq_correct:
  assumes "wf_store ss" "dep_expr e1" "dep_expr e2"
  shows "(case expr_extract_eq_and e1 e2 of (tmp, e1', e2') \<Rightarrow>
      expr_value ss (expr_alloc_and tmp e1') = expr_value ss e1 \<and>
      expr_value ss (expr_alloc_and tmp e2') = expr_value ss e2) \<and>
    (case expr_extract_eq_or e1 e2 of (tmp, e1', e2') \<Rightarrow>
      expr_value ss (expr_alloc_or tmp e1') = expr_value ss e1 \<and>
      expr_value ss (expr_alloc_or tmp e2') = expr_value ss e2)"
proof -
  obtain t a b where A: "expr_extract_eq_and e1 e2 = (t, a, b)"
    by (cases "expr_extract_eq_and e1 e2") auto
  obtain t' a' b' where B: "expr_extract_eq_or e1 e2 = (t', a', b')"
    by (cases "expr_extract_eq_or e1 e2") auto
  have "a \<noteq> Null" "b \<noteq> Null" "a' \<noteq> Null" "b' \<noteq> Null"
    using extract_eq_dep[OF assms] A B by (auto dest: dep_not_Null)
  with extract_eq_and_value[OF assms A] extract_eq_or_value[OF assms B] show ?thesis
    by (auto simp: A B extracts_def acc_value_def op_val_simps expr_ops EXPR_AND_min EXPR_OR_max
        min.commute max.commute split: if_splits)
qed

lemma expr_extract_eq_correct_witness:
  "expr_extract_eq_and (E_AND (E_SYMBOL (Sym 0)) (E_SYMBOL (Sym 2))) (E_SYMBOL (Sym 2)) =
     (E_SYMBOL (Sym 2), E_SYMBOL (Sym 0), E_SYMBOL symbol_yes) \<and>
   expr_value (example_store TMod TYes TYes)
     (expr_alloc_and (E_SYMBOL (Sym 2)) (E_SYMBOL (Sym 0))) = TMod"
proof (rule conjI)
  show *: "expr_extract_eq_and (E_AND (E_SYMBOL (Sym 0)) (E_SYMBOL (Sym 2))) (E_SYMBOL (Sym 2)) =
     (E_SYMBOL (Sym 2), E_SYMBOL (Sym 0), E_SYMBOL symbol_yes)"
    by code_simp
  show "expr_value (example_store TMod TYes TYes)
     (expr_alloc_and (E_SYMBOL (Sym 2)) (E_SYMBOL (Sym 0))) = TMod"
    using expr_extract_eq_correct[OF example_store_wf[of TYes TMod TYes],
        of "E_AND (E_SYMBOL (Sym 0)) (E_SYMBOL (Sym 2))" "E_SYMBOL (Sym 2)"]
    by (simp add: * EXPR_AND_def)
qed

text \<open>
  C4.  \<open>expr_eliminate_dups\<close> ends on every dependency expression, with a dependency expression
  that is no larger: every round that counts a change leaves a constant for
  \<open>expr_eliminate_yn\<close> to remove, and the fuel of the model is enough for all rounds.
\<close>

theorem expr_eliminate_dups_total:
  assumes "dep_expr e"
  shows "\<exists>e'. expr_eliminate_dups ss e = Some e' \<and> dep_expr e' \<and> esize e' \<le> esize e"
  using eliminate_dups_loop_total[OF assms, of "Suc (esize e)" ss] assms
  by (auto simp: expr_eliminate_dups_def simp del: eliminate_dups_loop.simps)

lemma expr_eliminate_dups_total_witness:
  "\<exists>e'. expr_eliminate_dups (example_store TYes TMod TNo)
      (E_AND (E_SYMBOL (Sym 0)) (E_SYMBOL (Sym 0))) = Some e' \<and> dep_expr e' \<and>
      esize e' \<le> 3"
  using expr_eliminate_dups_total[of "E_AND (E_SYMBOL (Sym 0)) (E_SYMBOL (Sym 0))"]
  by (simp add: numeral_3_eq_3)

text \<open>
  C3.  In a configuration without modules, where no symbol is \<open>m\<close>, \<open>expr_eliminate_dups\<close>
  gives an expression of the same value.
\<close>

theorem expr_eliminate_dups_sound:
  assumes "wf_store ss" "two_valued ss" "dep_expr e" "mod_free e"
  shows "\<exists>e'. expr_eliminate_dups ss e = Some e' \<and> expr_value ss e' = expr_value ss e"
proof -
  obtain e' where "eliminate_dups_loop (Suc (esize e)) ss e = Some e'"
    using eliminate_dups_loop_total[OF assms(3), of "Suc (esize e)" ss] by blast
  with eliminate_dups_loop_value[OF assms this] assms(3) show ?thesis
    by (auto simp: expr_eliminate_dups_def simp del: eliminate_dups_loop.simps)
qed

text \<open>The expression \<open>(FOO || BAR) && (!FOO && !BAR)\<close> of the comment.\<close>

definition contradiction_example :: expr where
  "contradiction_example =
     E_AND (E_OR (E_SYMBOL (Sym 0)) (E_SYMBOL (Sym 1)))
           (E_AND (E_NOT (E_SYMBOL (Sym 0))) (E_NOT (E_SYMBOL (Sym 1))))"

lemma contradiction_example_dups:
  "expr_eliminate_dups (example_store TMod TNo TNo) contradiction_example = Some (E_SYMBOL symbol_no)"
  by code_simp

lemma expr_eliminate_dups_sound_witness:
  "\<exists>e'. expr_eliminate_dups (example_store TYes TNo TNo) contradiction_example = Some e' \<and>
     expr_value (example_store TYes TNo TNo) e' = TNo"
  using expr_eliminate_dups_sound[OF example_store_wf example_store_two,
      of TNo TYes TNo contradiction_example]
  by (simp add: contradiction_example_def EXPR_AND_def EXPR_OR_def)

text \<open>
  With modules the rule \<open>(FOO || BAR) && (!FOO && !BAR) -> n\<close> of \<open>expr_eliminate_dups2\<close>
  changes the value: with \<open>FOO\<close> at \<open>m\<close> and \<open>BAR\<close> at \<open>n\<close> the expression is \<open>m\<close>, its
  simplification \<open>n\<close>.
\<close>

theorem expr_eliminate_dups_mod:
  "expr_value (example_store TMod TNo TNo) contradiction_example = TMod \<and>
   expr_eliminate_dups (example_store TMod TNo TNo) contradiction_example = Some (E_SYMBOL symbol_no)"
  using contradiction_example_dups
  by (simp add: contradiction_example_def EXPR_AND_def EXPR_OR_def)

subsection \<open>Comparisons, boolean context, dependencies\<close>

text \<open>
  \<open>logical\<close>: every symbol standing for itself is a boolean or a tristate, or one of the
  three constants; \<open>not_free\<close>: no negation.
\<close>

fun logical :: "symstore \<Rightarrow> expr \<Rightarrow> bool" where
  "logical ss (E_SYMBOL s) =
     (sym_type (ss s) = S_BOOLEAN \<or> sym_type (ss s) = S_TRISTATE \<or>
      s \<in> {symbol_yes, symbol_mod, symbol_no})"
| "logical ss (E_NOT a) = logical ss a"
| "logical ss (E_AND l r) = (logical ss l \<and> logical ss r)"
| "logical ss (E_OR l r) = (logical ss l \<and> logical ss r)"
| "logical ss _ = True"

fun not_free :: "expr \<Rightarrow> bool" where
  "not_free (E_NOT _) = False"
| "not_free (E_AND l r) = (not_free l \<and> not_free r)"
| "not_free (E_OR l r) = (not_free l \<and> not_free r)"
| "not_free _ = True"

lemma logical_symbol:
  assumes "wf_store ss" "logical ss (E_SYMBOL a)"
  shows "sym_get_string_value (ss a) = tri_string (sym_get_tristate_value (ss a))"
  using assms(2) string_value_tri[of ss a] wf_storeD[OF assms(1)] by auto

definition cmp_result :: "expr_type \<Rightarrow> bool \<Rightarrow> tristate" where
  "cmp_result ty eq = (if (ty = Ty_EQUAL) = eq then TYes else TNo)"

lemma cmp_result_ops:
  "min (cmp_result Ty_EQUAL p) (cmp_result Ty_EQUAL q) = cmp_result Ty_EQUAL (p \<and> q)"
  "max (cmp_result Ty_EQUAL p) (cmp_result Ty_EQUAL q) = cmp_result Ty_EQUAL (p \<or> q)"
  by (simp_all add: cmp_result_def)

lemma negate_if_value:
  "ty = Ty_EQUAL \<or> ty = Ty_UNEQUAL \<Longrightarrow>
   expr_value ss (negate_if (ty = Ty_UNEQUAL) e) = cmp_result ty p \<longleftrightarrow>
   expr_value ss e = cmp_result Ty_EQUAL p"
  by (cases "expr_value ss e") (auto simp: negate_if_def expr_alloc_one_def cmp_result_def)

lemma tri_min_max:
  "min x y = TYes \<longleftrightarrow> x = TYes \<and> y = TYes" "min x y = TNo \<longleftrightarrow> x = TNo \<or> y = TNo"
  "max x y = TYes \<longleftrightarrow> x = TYes \<or> y = TYes" "max x y = TNo \<longleftrightarrow> x = TNo \<and> y = TNo"
  by (cases x; cases y; simp add: min_def max_def)+

lemma trans_compare_value:
  assumes store: "wf_store ss" and s: "s = symbol_yes \<or> s = symbol_no"
  shows "dep_expr e \<Longrightarrow> logical ss e \<Longrightarrow> two_valued ss \<and> mod_free e \<or> not_free e \<Longrightarrow>
    ty = Ty_EQUAL \<or> ty = Ty_UNEQUAL \<Longrightarrow>
    expr_value ss (expr_trans_compare e ty s) =
      cmp_result ty (expr_value ss e = sym_get_tristate_value (ss s))"
proof (induction e arbitrary: ty)
  case (E_AND l r)
  have "expr_value ss (expr_trans_compare l Ty_EQUAL s) =
      cmp_result Ty_EQUAL (expr_value ss l = sym_get_tristate_value (ss s))"
    "expr_value ss (expr_trans_compare r Ty_EQUAL s) =
      cmp_result Ty_EQUAL (expr_value ss r = sym_get_tristate_value (ss s))"
    using E_AND by auto
  with s show ?case
    by (elim disjE) (simp_all add: Let_def negate_if_value[OF E_AND.prems(4)] expr_alloc_two_def
      wf_storeD(1,3)[OF store] cmp_result_ops tri_min_max EXPR_AND_min EXPR_OR_max)
next
  case (E_OR l r)
  have "expr_value ss (expr_trans_compare l Ty_EQUAL s) =
      cmp_result Ty_EQUAL (expr_value ss l = sym_get_tristate_value (ss s))"
    "expr_value ss (expr_trans_compare r Ty_EQUAL s) =
      cmp_result Ty_EQUAL (expr_value ss r = sym_get_tristate_value (ss s))"
    using E_OR by auto
  with s show ?case
    by (elim disjE) (simp_all add: Let_def negate_if_value[OF E_OR.prems(4)] expr_alloc_two_def
      wf_storeD(1,3)[OF store] cmp_result_ops tri_min_max EXPR_AND_min EXPR_OR_max)
next
  case (E_NOT a)
  have "expr_value ss a \<noteq> TMod"
    using E_NOT.prems two_valued_expr_value[of ss a] by auto
  with E_NOT s show ?case
    by (cases "expr_value ss a") (auto simp: cmp_result_def wf_storeD[OF store])
next
  case (E_SYMBOL a)
  then show ?case
    using s logical_symbol[OF store E_SYMBOL(2)]
    by (auto simp: cmp_result_def expr_ops wf_storeD[OF store])
qed (use s in \<open>auto simp: cmp_result_def expr_ops wf_storeD[OF store]\<close>)

text \<open>
  \<open>expr_trans_compare(e, E_EQUAL, sym)\<close>, with \<open>sym\<close> one of \<open>y\<close> and \<open>n\<close>, is \<open>y\<close> exactly
  when the value of \<open>e\<close> is that of \<open>sym\<close>, and \<open>n\<close> otherwise; \<open>E_UNEQUAL\<close> gives the opposite.
  This holds for an expression without negation, and for every one in a configuration
  without modules.
\<close>

theorem expr_trans_compare_correct:
  assumes "wf_store ss" "s = symbol_yes \<or> s = symbol_no" "ty = Ty_EQUAL \<or> ty = Ty_UNEQUAL"
    and "dep_expr e" "logical ss e" "two_valued ss \<and> mod_free e \<or> not_free e"
  shows "expr_value ss (expr_trans_compare e ty s) =
    (if (ty = Ty_EQUAL) = (expr_value ss e = sym_get_tristate_value (ss s)) then TYes else TNo)"
  using trans_compare_value[OF assms(1,2,4-6,3)] by (simp add: cmp_result_def)

lemma expr_trans_compare_correct_witness:
  "expr_value (example_store TMod TYes TYes)
     (expr_trans_compare (E_OR (E_SYMBOL (Sym 0)) (E_SYMBOL (Sym 2))) Ty_EQUAL symbol_yes) = TYes"
  using expr_trans_compare_correct[OF example_store_wf[of TYes TMod TYes], of symbol_yes Ty_EQUAL
      "E_OR (E_SYMBOL (Sym 0)) (E_SYMBOL (Sym 2))"]
  by (simp add: EXPR_OR_def del: expr_trans_compare.simps)

text \<open>
  Under a negation the comparison is wrong for \<open>m\<close>: \<open>!FOO = n\<close> is turned into
  \<open>FOO != n\<close>, which is \<open>y\<close> when \<open>FOO\<close> is \<open>m\<close>, although \<open>!FOO\<close> is then \<open>m\<close> and not \<open>n\<close>.
\<close>

theorem expr_trans_compare_not_mod:
  "expr_trans_compare (E_NOT (E_SYMBOL (Sym 0))) Ty_EQUAL symbol_no = E_UNEQUAL (Sym 0) symbol_no \<and>
   expr_value (example_store TMod TNo TNo) (E_NOT (E_SYMBOL (Sym 0))) = TMod \<and>
   expr_value (example_store TMod TNo TNo)
     (expr_trans_compare (E_NOT (E_SYMBOL (Sym 0))) Ty_EQUAL symbol_no) = TYes"
  by (simp add: expr_ops)

lemma trans_bool_value:
  assumes "wf_store ss" "dep_expr e"
  shows "two_valued ss \<Longrightarrow> expr_value ss (expr_trans_bool ss e) = expr_value ss e"
    "not_free e \<Longrightarrow> expr_value ss (expr_trans_bool ss e) = TNo \<longleftrightarrow> expr_value ss e = TNo"
proof -
  have leaf: "expr_value ss (expr_trans_bool ss (E_UNEQUAL a b)) =
      (if sym_type (ss a) = S_TRISTATE \<and> b = symbol_no then sym_get_tristate_value (ss a)
       else expr_value ss (E_UNEQUAL a b))"
    "sym_type (ss a) = S_TRISTATE \<Longrightarrow> expr_value ss (E_UNEQUAL a symbol_no) =
      (if sym_get_tristate_value (ss a) = TNo then TNo else TYes)" for a b
    using string_value_tri[of ss a] wf_storeD[OF assms(1)] by auto
  have two: "two_valued ss \<Longrightarrow> a \<noteq> symbol_mod \<Longrightarrow>
      sym_get_tristate_value (ss a) = (if sym_get_tristate_value (ss a) = TNo then TNo else TYes)" for a
    by (cases "sym_get_tristate_value (ss a)") (auto simp: two_valued_def)
  have not_const: "sym_type (ss a) = S_TRISTATE \<Longrightarrow> a \<noteq> symbol_mod" for a
    using wf_storeD(8)[OF assms(1)] by auto
  show "two_valued ss \<Longrightarrow> expr_value ss (expr_trans_bool ss e) = expr_value ss e"
    using assms(2)
  proof (induction e)
    case (E_UNEQUAL a b)
    show ?case
    proof (cases "sym_type (ss a) = S_TRISTATE \<and> b = symbol_no")
      case True
      with leaf(1)[of a b] leaf(2)[of a] two[OF E_UNEQUAL(1) not_const[of a]] show ?thesis
        by (simp only: simp_thms if_True if_False split: if_splits)
    qed auto
  qed auto
  show "not_free e \<Longrightarrow> expr_value ss (expr_trans_bool ss e) = TNo \<longleftrightarrow> expr_value ss e = TNo"
    using assms(2)
  proof (induction e)
    case (E_UNEQUAL a b)
    then show ?case
      using leaf(1)[of a b] leaf(2)[of a] by (auto split: if_splits)
  next
    case (E_AND l r)
    then show ?case by (auto simp: EXPR_AND_min min_def split: if_splits)
  next
    case (E_OR l r)
    then show ?case by (auto simp: EXPR_OR_max max_def split: if_splits)
  qed auto
qed

text \<open>
  \<open>expr_trans_bool\<close> keeps, for an expression without negation, whether its value is
  \<open>n\<close>, which is what a boolean context looks at; in a configuration without modules it keeps
  the value of every dependency expression.
\<close>

theorem expr_trans_bool_correct:
  assumes "wf_store ss" "dep_expr e"
  shows "(not_free e \<longrightarrow>
      (expr_value ss (expr_trans_bool ss e) = TNo \<longleftrightarrow> expr_value ss e = TNo)) \<and>
    (two_valued ss \<longrightarrow> expr_value ss (expr_trans_bool ss e) = expr_value ss e)"
  using trans_bool_value[OF assms] by blast

lemma expr_trans_bool_correct_witness:
  "expr_trans_bool (example_store TMod TYes TYes) (E_UNEQUAL (Sym 0) symbol_no) = E_SYMBOL (Sym 0) \<and>
   expr_value (example_store TMod TYes TYes)
     (expr_trans_bool (example_store TMod TYes TYes) (E_UNEQUAL (Sym 0) symbol_no)) \<noteq> TNo"
  using expr_trans_bool_correct[OF example_store_wf[of TYes TMod TYes],
      of "E_UNEQUAL (Sym 0) symbol_no"] by simp

text \<open>
  The value of an expression depends only on the symbols \<open>expr_contains_symbol\<close> finds
  in it.
\<close>

theorem expr_contains_symbol_correct:
  assumes "dep_expr e" "\<And>s. expr_contains_symbol e s \<Longrightarrow> ss s = ss' s"
  shows "expr_value ss e = expr_value ss' e"
  using assms by (induction e) auto

lemma expr_contains_symbol_correct_witness:
  "expr_value (example_store TMod TYes TYes) (E_NOT (E_SYMBOL (Sym 0))) =
   expr_value (example_store TMod TNo TYes) (E_NOT (E_SYMBOL (Sym 0)))"
  by (rule expr_contains_symbol_correct) auto

text \<open>
  When \<open>expr_depends_symbol\<close> says that an expression depends on a boolean or tristate
  symbol, the expression is \<open>n\<close> whenever the symbol is.
\<close>

theorem expr_depends_symbol_correct:
  assumes "wf_store ss" "expr_depends_symbol e s"
    and "sym_type (ss s) = S_BOOLEAN \<or> sym_type (ss s) = S_TRISTATE"
    and "sym_get_tristate_value (ss s) = TNo"
  shows "expr_value ss e = TNo"
  using assms(2)
proof (induction e)
  case (E_AND l r)
  then show ?case by (auto simp: EXPR_AND_min)
qed (use assms(3,4) string_value_tri[of ss s, OF assms(3)] in \<open>auto simp: wf_storeD[OF assms(1)]\<close>)

lemma expr_depends_symbol_correct_witness:
  "expr_value (example_store TNo TYes TYes) (E_AND (E_SYMBOL (Sym 1)) (E_EQUAL (Sym 0) symbol_mod)) = TNo"
  by (rule expr_depends_symbol_correct[OF example_store_wf, of _ _ "Sym 0"]) auto

end
