(* ===== verification/CLib.thy ===== *)
theory CLib
  imports Prelude
begin

text \<open>
  The functions of the C library the sources use on strings and numbers: character classes,
  \<^verbatim>\<open>strtol\<close> in base 10 and 16, the \<^verbatim>\<open>printf\<close> conversions \<^verbatim>\<open>%d\<close> and \<^verbatim>\<open>%x\<close>, and the conversion
  of a \<^verbatim>\<open>long\<close> to a 32-bit \<^verbatim>\<open>int\<close>.  A C string is the list of its characters before the
  terminating zero byte.
\<close>

subsection \<open>Characters\<close>

definition code :: "char \<Rightarrow> nat" where
  "code c = of_char c"

definition isdigit :: "char \<Rightarrow> bool" where
  "isdigit c \<longleftrightarrow> 48 \<le> code c \<and> code c \<le> 57"

definition isxdigit :: "char \<Rightarrow> bool" where
  "isxdigit c \<longleftrightarrow> isdigit c \<or> (65 \<le> code c \<and> code c \<le> 70) \<or> (97 \<le> code c \<and> code c \<le> 102)"

definition isupper :: "char \<Rightarrow> bool" where
  "isupper c \<longleftrightarrow> 65 \<le> code c \<and> code c \<le> 90"

definition islower :: "char \<Rightarrow> bool" where
  "islower c \<longleftrightarrow> 97 \<le> code c \<and> code c \<le> 122"

definition isalnum :: "char \<Rightarrow> bool" where
  "isalnum c \<longleftrightarrow> isdigit c \<or> isupper c \<or> islower c"

definition isspace :: "char \<Rightarrow> bool" where
  "isspace c \<longleftrightarrow> (9 \<le> code c \<and> code c \<le> 13) \<or> code c = 32"

definition tolower :: "char \<Rightarrow> char" where
  "tolower c = (if isupper c then char_of (code c + 32) else c)"

text \<open>The value of a digit in a base up to 16; the digit of a value, in lower case.\<close>

definition digit_val :: "char \<Rightarrow> nat" where
  "digit_val c =
     (if isdigit c then code c - 48
      else if 97 \<le> code c \<and> code c \<le> 122 then code c - 87
      else if 65 \<le> code c \<and> code c \<le> 90 then code c - 55
      else 99)"

definition digit_char :: "nat \<Rightarrow> char" where
  "digit_char d = char_of (if d < 10 then 48 + d else 87 + d)"

lemma code_digit_char: "d < 16 \<Longrightarrow> code (digit_char d) = (if d < 10 then 48 + d else 87 + d)"
  by (simp add: code_def digit_char_def)

lemma digit_val_char [simp]: "d < 16 \<Longrightarrow> digit_val (digit_char d) = d"
  by (simp add: digit_val_def isdigit_def code_digit_char)

lemma isdigit_digit_char: "d < 16 \<Longrightarrow> isdigit (digit_char d) \<longleftrightarrow> d < 10"
  by (auto simp: isdigit_def code_digit_char)

lemma isxdigit_digit_char: "d < 16 \<Longrightarrow> isxdigit (digit_char d)"
  by (auto simp: isxdigit_def isdigit_def code_digit_char)

subsection \<open>Integers of 32 bits\<close>

definition int32 :: "int \<Rightarrow> int" where
  "int32 n = sint (word_of_int n :: 32 word)"

definition uint32 :: "int \<Rightarrow> int" where
  "uint32 n = uint (word_of_int n :: 32 word)"

lemma int32_id: "- (2 ^ 31) \<le> n \<Longrightarrow> n < 2 ^ 31 \<Longrightarrow> int32 n = n"
  by (simp add: int32_def sint_sbintrunc' signed_take_bit_int_eq_self)

lemma int32_range: "- (2 ^ 31) \<le> int32 n" "int32 n < 2 ^ 31"
  unfolding int32_def
  using sint_ge[of "word_of_int n :: 32 word"] sint_lt[of "word_of_int n :: 32 word"] by simp_all

lemma int32_idem [simp]: "int32 (int32 n) = int32 n"
  by (rule int32_id[OF int32_range])

lemma int32_uint32 [simp]: "int32 (uint32 n) = int32 n"
  by (simp add: int32_def uint32_def)

lemma uint32_range: "0 \<le> uint32 n" "uint32 n < 2 ^ 32"
  unfolding uint32_def using uint_lt2p[of "word_of_int n :: 32 word"] by simp_all

subsection \<open>Conversion to and from digits\<close>

fun digits_val :: "nat \<Rightarrow> nat \<Rightarrow> string \<Rightarrow> nat" where
  "digits_val b acc [] = acc"
| "digits_val b acc (c # cs) =
     (if digit_val c < b then digits_val b (acc * b + digit_val c) cs else acc)"

function digits :: "nat \<Rightarrow> nat \<Rightarrow> string" where
  "digits b n =
     (if n < b \<or> b < 2 then [digit_char n] else digits b (n div b) @ [digit_char (n mod b)])"
  by pat_completeness auto
termination
  by (relation "measure snd") auto

declare digits.simps [simp del]

lemma digits_val_snoc:
  "\<forall>c\<in>set cs. digit_val c < b \<Longrightarrow> d < b \<Longrightarrow> d < 16 \<Longrightarrow>
   digits_val b acc (cs @ [digit_char d]) = digits_val b acc cs * b + d"
  by (induction cs arbitrary: acc) auto

lemma digits_set: "2 \<le> b \<Longrightarrow> b \<le> 16 \<Longrightarrow> c \<in> set (digits b n) \<Longrightarrow> \<exists>d<b. c = digit_char d"
proof (induction b n rule: digits.induct)
  case (1 b n)
  show ?case
  proof (cases "n < b")
    case False
    then have "c \<in> set (digits b (n div b)) \<or> c = digit_char (n mod b)"
      using 1(2,4) by (auto simp: digits.simps[of b n])
    moreover have "n mod b < b" using 1(2) by simp
    ultimately show ?thesis using 1 False by fastforce
  qed (use 1 in \<open>auto simp: digits.simps[of b n]\<close>)
qed

lemma digits_val_digits:
  "2 \<le> b \<Longrightarrow> b \<le> 16 \<Longrightarrow> digits_val b 0 (digits b n) = n"
proof (induction b n rule: digits.induct)
  case (1 b n)
  show ?case
  proof (cases "n < b")
    case True
    with 1 show ?thesis by (simp add: digits.simps[of b n])
  next
    case False
    have "\<forall>c\<in>set (digits b (n div b)). digit_val c < b"
      using digits_set[of b _ "n div b"] 1(2,3) by force
    moreover have "n mod b < b" "n mod b < 16"
      using 1(2,3) mod_less_divisor[of b n] by linarith+
    ultimately show ?thesis
      using False 1 by (simp add: digits.simps[of b n] digits_val_snoc)
  qed
qed

lemma digits_not_Nil [simp]: "digits b n \<noteq> []"
  by (subst digits.simps) simp

lemma digits_hd: "2 \<le> b \<Longrightarrow> b \<le> 16 \<Longrightarrow> \<exists>d<b. hd (digits b n) = digit_char d"
  using digits_set[of b "hd (digits b n)" n] by simp

subsection \<open>strtol and the printf conversions\<close>

definition long_max :: int where "long_max = 2 ^ 63 - 1"

definition long_min :: int where "long_min = - (2 ^ 63)"

text \<open>White space, an optional sign, an optional \<^verbatim>\<open>0x\<close> in base 16, digits; saturates at the limits.\<close>

fun strtol_sign :: "string \<Rightarrow> bool \<times> string" where
  "strtol_sign (c # s) = (if c = CHR ''-'' then (True, s) else if c = CHR ''+'' then (False, s) else (False, c # s))"
| "strtol_sign [] = (False, [])"

fun skip_0x :: "string \<Rightarrow> string" where
  "skip_0x (a # x # d # s) =
     (if a = CHR ''0'' \<and> (x = CHR ''x'' \<or> x = CHR ''X'') \<and> isxdigit d then d # s else a # x # d # s)"
| "skip_0x s = s"

definition strtol :: "string \<Rightarrow> nat \<Rightarrow> int" where
  "strtol str base =
     (let (neg, s) = strtol_sign (dropWhile isspace str);
          s' = (if base = 16 then skip_0x s else s);
          v = int (digits_val base 0 s')
      in max long_min (min long_max (if neg then - v else v)))"

definition sprintf_d :: "int \<Rightarrow> string" where
  "sprintf_d n = (if n < 0 then CHR ''-'' # digits 10 (nat (- n)) else digits 10 (nat n))"

text \<open>\<^verbatim>\<open>%*s\<close> with an empty string, and \<^verbatim>\<open>%*c\<close>.\<close>

definition blanks :: "int \<Rightarrow> string" where
  "blanks w = replicate (nat w) (CHR '' '')"

definition pad_char :: "int \<Rightarrow> char \<Rightarrow> string" where
  "pad_char w ch = blanks (w - 1) @ [ch]"

definition sprintf_0x :: "int \<Rightarrow> string" where
  "sprintf_0x n = ''0x'' @ digits 16 (nat (uint32 n))"

lemma digit_char_first:
  "d < 16 \<Longrightarrow> \<not> isspace (digit_char d) \<and> digit_char d \<noteq> CHR ''-'' \<and> digit_char d \<noteq> CHR ''+''"
  using code_digit_char[of d] by (auto simp: isspace_def code_def split: if_splits)

lemma strtol_sign_digits:
  assumes "2 \<le> b" "b \<le> 16"
  shows "strtol_sign (dropWhile isspace (digits b n)) = (False, digits b n)"
proof -
  obtain d cs where "digits b n = digit_char d # cs" "d < 16"
    using digits_hd[OF assms, of n] assms(2) by (cases "digits b n") auto
  with digit_char_first[of d] show ?thesis by simp
qed

text \<open>Printing and reading a number gives the number back.\<close>

lemma strtol_sprintf_d: "long_min \<le> n \<Longrightarrow> n \<le> long_max \<Longrightarrow> strtol (sprintf_d n) 10 = n"
  by (auto simp: strtol_def sprintf_d_def strtol_sign_digits digits_val_digits isspace_def code_def)

lemma strtol_sprintf_0x: "strtol (sprintf_0x n) 16 = uint32 n"
proof -
  obtain d cs where d: "digits 16 (nat (uint32 n)) = digit_char d # cs" "d < 16"
    using digits_hd[of 16 "nat (uint32 n)"] by (cases "digits 16 (nat (uint32 n))") auto
  have "strtol_sign (dropWhile isspace (sprintf_0x n)) = (False, sprintf_0x n)"
    by (simp add: sprintf_0x_def isspace_def code_def)
  moreover have "skip_0x (sprintf_0x n) = digits 16 (nat (uint32 n))"
    using d isxdigit_digit_char by (simp add: sprintf_0x_def)
  ultimately show ?thesis
    using uint32_range[of n] by (simp add: strtol_def digits_val_digits long_max_def long_min_def)
qed

lemma strtol_range: "long_min \<le> strtol s b" "strtol s b \<le> long_max"
  by (auto simp: strtol_def long_min_def long_max_def Let_def split: prod.split)

subsection \<open>Strings in memory\<close>

definition PATH_MAX :: nat where "PATH_MAX = 4096"

definition newline :: char where "newline = CHR 0x0A"

definition nul :: char where "nul = CHR 0x00"

text \<open>The C string that starts at an address, and the search in it.\<close>

definition cstr :: "string \<Rightarrow> string" where
  "cstr bs = takeWhile (\<lambda>x. x \<noteq> nul) bs"

definition strchr :: "string \<Rightarrow> char \<Rightarrow> nat option" where
  "strchr bs c =
     (let i = length (takeWhile (\<lambda>x. x \<noteq> c \<and> x \<noteq> nul) bs) in
      if i < length bs \<and> bs ! i = c then Some i else None)"

end
