(* ===== verification/KState.thy ===== *)
theory KState
  imports Kconfig_Data CLib
begin

text \<open>
  The state of the configuration engine: the static and global variables of \<^verbatim>\<open>symbol.c\<close>,
  \<^verbatim>\<open>confdata.c\<close> and \<^verbatim>\<open>menu.c\<close> and the heap objects they reach, and the symbol table
  operations of \<^verbatim>\<open>symbol.c\<close>.

  A hash chain is the list of its symbols from the head on.  Symbols, properties, menu entries
  and strings are allocated by counters.
\<close>

text \<open>
  \<^verbatim>\<open>last_entry_ptr\<close> points to the \<^verbatim>\<open>list\<close> or the \<^verbatim>\<open>next\<close> member of a menu entry.
\<close>

datatype entry_ptr = List_of nat | Next_of nat

text \<open>The source files of the configuration and their directories.\<close>

record kdir =
  dir_name :: string
  dir_enabled :: bool

record kfile =
  file_name :: string
  file_parent :: "nat option"
  file_dir :: nat
  file_lineno :: nat
  file_busy :: bool
  file_scanned :: bool

record kstate =
  syms :: symstore
  symbol_hash :: "nat \<Rightarrow> symptr list"
  props :: "nat \<Rightarrow> property"
  menus :: "nat \<Rightarrow> menu"
  modules_sym :: "symptr option"
  modules_val :: tristate
  sym_defconfig_list :: "symptr option"
  sym_env_list :: expr
  sym_change_count :: int
  callback_set :: bool
  callback_calls :: nat
  zconfnerrs :: nat
  sym_inited :: bool
  current_file :: "nat option"
  current_entry :: nat
  zconf_lineno :: nat
  next_sym :: nat
  next_prop :: nat
  next_str :: nat
  current_menu :: "nat option"
  last_entry_ptr :: entry_ptr
  next_menu :: nat
  conf_filename :: string
  conf_lineno :: nat
  conf_warnings :: nat
  conf_unsaved :: nat
  kfiles :: "nat \<Rightarrow> kfile"
  file_list :: "nat list"
  kdirs :: "nat \<Rightarrow> kdir"
  dir_list :: "nat list"

definition zero_menu :: menu where
  "zero_menu = \<lparr>menu_next = None, menu_parent = None, menu_list = None, menu_sym = None,
     menu_prompt = None, menu_dep = Null, menu_flags = {}, menu_help = None, menu_file = None,
     menu_lineno = 0\<rparr>"

definition upd_sym :: "symptr \<Rightarrow> (symbol \<Rightarrow> symbol) \<Rightarrow> kstate \<Rightarrow> kstate" where
  "upd_sym s f st = st\<lparr>syms := (syms st)(s := f (syms st s))\<rparr>"

definition upd_prop :: "nat \<Rightarrow> (property \<Rightarrow> property) \<Rightarrow> kstate \<Rightarrow> kstate" where
  "upd_prop p f st = st\<lparr>props := (props st)(p := f (props st p))\<rparr>"

definition upd_menu :: "nat \<Rightarrow> (menu \<Rightarrow> menu) \<Rightarrow> kstate \<Rightarrow> kstate" where
  "upd_menu m f st = st\<lparr>menus := (menus st)(m := f (menus st m))\<rparr>"

text \<open>\<^verbatim>\<open>sym->flags |= fs\<close> and \<^verbatim>\<open>sym->flags &= ~fs\<close>.\<close>

definition set_flags :: "sym_flag set \<Rightarrow> symptr \<Rightarrow> kstate \<Rightarrow> kstate" where
  "set_flags fs s = upd_sym s (\<lambda>y. y\<lparr>flags := flags y \<union> fs\<rparr>)"

definition clear_flags :: "sym_flag set \<Rightarrow> symptr \<Rightarrow> kstate \<Rightarrow> kstate" where
  "clear_flags fs s = upd_sym s (\<lambda>y. y\<lparr>flags := flags y - fs\<rparr>)"

text \<open>Assigning one component of \<^verbatim>\<open>sym->def[i]\<close>.\<close>

definition set_def_val :: "def_index \<Rightarrow> sval \<Rightarrow> symptr \<Rightarrow> kstate \<Rightarrow> kstate" where
  "set_def_val i v s = upd_sym s (\<lambda>y. y\<lparr>def := (def y)(i := (def y i)\<lparr>sv_val := v\<rparr>)\<rparr>)"

definition set_def_tri :: "def_index \<Rightarrow> tristate \<Rightarrow> symptr \<Rightarrow> kstate \<Rightarrow> kstate" where
  "set_def_tri i t s = upd_sym s (\<lambda>y. y\<lparr>def := (def y)(i := (def y i)\<lparr>sv_tri := t\<rparr>)\<rparr>)"

definition set_curr :: "symbol_value \<Rightarrow> symptr \<Rightarrow> kstate \<Rightarrow> kstate" where
  "set_curr v s = upd_sym s (\<lambda>y. y\<lparr>curr := v\<rparr>)"

lemma upd_sym_simps [simp]:
  "syms (upd_sym s f st) t = (if t = s then f (syms st s) else syms st t)"
  "symbol_hash (upd_sym s f st) = symbol_hash st" "props (upd_sym s f st) = props st"
  "menus (upd_sym s f st) = menus st" "modules_sym (upd_sym s f st) = modules_sym st"
  "modules_val (upd_sym s f st) = modules_val st" "next_sym (upd_sym s f st) = next_sym st"
  "sym_env_list (upd_sym s f st) = sym_env_list st" "next_prop (upd_sym s f st) = next_prop st"
  "next_str (upd_sym s f st) = next_str st"
  "sym_defconfig_list (upd_sym s f st) = sym_defconfig_list st"
  "sym_change_count (upd_sym s f st) = sym_change_count st"
  "callback_set (upd_sym s f st) = callback_set st"
  "callback_calls (upd_sym s f st) = callback_calls st"
  "zconfnerrs (upd_sym s f st) = zconfnerrs st" "sym_inited (upd_sym s f st) = sym_inited st"
  "current_file (upd_sym s f st) = current_file st"
  "current_entry (upd_sym s f st) = current_entry st"
  "zconf_lineno (upd_sym s f st) = zconf_lineno st"
  "current_menu (upd_sym s f st) = current_menu st"
  "last_entry_ptr (upd_sym s f st) = last_entry_ptr st"
  "next_menu (upd_sym s f st) = next_menu st"
  "conf_filename (upd_sym s f st) = conf_filename st"
  "conf_lineno (upd_sym s f st) = conf_lineno st"
  "conf_warnings (upd_sym s f st) = conf_warnings st"
  "conf_unsaved (upd_sym s f st) = conf_unsaved st"
  "kfiles (upd_sym s f st) = kfiles st"
  "file_list (upd_sym s f st) = file_list st"
  "kdirs (upd_sym s f st) = kdirs st"
  "dir_list (upd_sym s f st) = dir_list st"
  by (simp_all add: upd_sym_def)

lemma upd_prop_simps [simp]:
  "props (upd_prop p f st) q = (if q = p then f (props st p) else props st q)"
  "symbol_hash (upd_prop p f st) = symbol_hash st" "syms (upd_prop p f st) = syms st"
  "menus (upd_prop p f st) = menus st" "modules_sym (upd_prop p f st) = modules_sym st"
  "modules_val (upd_prop p f st) = modules_val st" "next_sym (upd_prop p f st) = next_sym st"
  "sym_env_list (upd_prop p f st) = sym_env_list st" "next_prop (upd_prop p f st) = next_prop st"
  "next_str (upd_prop p f st) = next_str st"
  "sym_defconfig_list (upd_prop p f st) = sym_defconfig_list st"
  "sym_change_count (upd_prop p f st) = sym_change_count st"
  "callback_set (upd_prop p f st) = callback_set st"
  "callback_calls (upd_prop p f st) = callback_calls st"
  "zconfnerrs (upd_prop p f st) = zconfnerrs st" "sym_inited (upd_prop p f st) = sym_inited st"
  "current_file (upd_prop p f st) = current_file st"
  "current_entry (upd_prop p f st) = current_entry st"
  "zconf_lineno (upd_prop p f st) = zconf_lineno st"
  "current_menu (upd_prop p f st) = current_menu st"
  "last_entry_ptr (upd_prop p f st) = last_entry_ptr st"
  "next_menu (upd_prop p f st) = next_menu st"
  "conf_filename (upd_prop p f st) = conf_filename st"
  "conf_lineno (upd_prop p f st) = conf_lineno st"
  "conf_warnings (upd_prop p f st) = conf_warnings st"
  "conf_unsaved (upd_prop p f st) = conf_unsaved st"
  "kfiles (upd_prop p f st) = kfiles st"
  "file_list (upd_prop p f st) = file_list st"
  "kdirs (upd_prop p f st) = kdirs st"
  "dir_list (upd_prop p f st) = dir_list st"
  by (simp_all add: upd_prop_def)

lemma upd_menu_simps [simp]:
  "menus (upd_menu m f st) k = (if k = m then f (menus st m) else menus st k)"
  "symbol_hash (upd_menu m f st) = symbol_hash st" "syms (upd_menu m f st) = syms st"
  "props (upd_menu m f st) = props st" "modules_sym (upd_menu m f st) = modules_sym st"
  "modules_val (upd_menu m f st) = modules_val st" "next_sym (upd_menu m f st) = next_sym st"
  "sym_env_list (upd_menu m f st) = sym_env_list st" "next_prop (upd_menu m f st) = next_prop st"
  "next_str (upd_menu m f st) = next_str st"
  "sym_defconfig_list (upd_menu m f st) = sym_defconfig_list st"
  "sym_change_count (upd_menu m f st) = sym_change_count st"
  "callback_set (upd_menu m f st) = callback_set st"
  "callback_calls (upd_menu m f st) = callback_calls st"
  "zconfnerrs (upd_menu m f st) = zconfnerrs st" "sym_inited (upd_menu m f st) = sym_inited st"
  "current_file (upd_menu m f st) = current_file st"
  "current_entry (upd_menu m f st) = current_entry st"
  "zconf_lineno (upd_menu m f st) = zconf_lineno st"
  "current_menu (upd_menu m f st) = current_menu st"
  "last_entry_ptr (upd_menu m f st) = last_entry_ptr st"
  "next_menu (upd_menu m f st) = next_menu st"
  "conf_filename (upd_menu m f st) = conf_filename st"
  "conf_lineno (upd_menu m f st) = conf_lineno st"
  "conf_warnings (upd_menu m f st) = conf_warnings st"
  "conf_unsaved (upd_menu m f st) = conf_unsaved st"
  "kfiles (upd_menu m f st) = kfiles st"
  "file_list (upd_menu m f st) = file_list st"
  "kdirs (upd_menu m f st) = kdirs st"
  "dir_list (upd_menu m f st) = dir_list st"
  by (simp_all add: upd_menu_def)

subsection \<open>Names and hashing\<close>

text \<open>A plain \<^verbatim>\<open>char\<close> is signed: \<^verbatim>\<open>hash += *ptr\<close> adds a negative number for a byte above 127.\<close>

definition schar :: "char \<Rightarrow> int" where
  "schar c = (if 128 \<le> code c then int (code c) - 256 else int (code c))"

definition name_hash :: "string \<Rightarrow> nat" where
  "name_hash name = nat (sum_list (map schar name) mod 256)"

lemma name_hash_bound: "name_hash name < 256"
proof -
  have "nat (sum_list (map schar name) mod 256) < nat 256" by (subst nat_less_eq_zless) simp_all
  then show ?thesis by (simp add: name_hash_def)
qed

fun static_name :: "string \<Rightarrow> symptr option" where
  "static_name [c] =
     (if c = CHR ''y'' then Some symbol_yes
      else if c = CHR ''m'' then Some symbol_mod
      else if c = CHR ''n'' then Some symbol_no
      else None)"
| "static_name _ = None"

definition lookup_match :: "kstate \<Rightarrow> string \<Rightarrow> sym_flag set \<Rightarrow> symptr \<Rightarrow> bool" where
  "lookup_match st name fl s \<longleftrightarrow>
     sym_name (syms st s) = Some name \<and>
     (if fl \<noteq> {} then flags (syms st s) \<inter> fl \<noteq> {}
      else flags (syms st s) \<inter> {SYMBOL_CONST, SYMBOL_CHOICE} = {})"

definition alloc_symbol :: "string option \<Rightarrow> sym_flag set \<Rightarrow> nat \<Rightarrow> kstate \<Rightarrow> symptr \<times> kstate" where
  "alloc_symbol name fl h st =
     (let s = Sym (next_sym st) in
      (s, st\<lparr>syms := (syms st)(s := zero_symbol\<lparr>sym_name := name, sym_type := S_UNKNOWN, flags := fl,
                                     sym_file := current_file st\<rparr>),
             symbol_hash := (symbol_hash st)(h := s # symbol_hash st h),
             next_sym := Suc (next_sym st)\<rparr>))"

definition sym_lookup :: "string option \<Rightarrow> sym_flag set \<Rightarrow> kstate \<Rightarrow> symptr \<times> kstate" where
  "sym_lookup nm fl st =
     (case nm of
        None \<Rightarrow> alloc_symbol None fl 256 st
      | Some name \<Rightarrow>
          (case static_name name of
             Some s \<Rightarrow> (s, st)
           | None \<Rightarrow>
               (case find (lookup_match st name fl) (symbol_hash st (name_hash name)) of
                  Some s \<Rightarrow> (s, st)
                | None \<Rightarrow> alloc_symbol (Some name) fl (name_hash name) st)))"

definition sym_find :: "string option \<Rightarrow> kstate \<Rightarrow> symptr option" where
  "sym_find nm st =
     (case nm of
        None \<Rightarrow> None
      | Some name \<Rightarrow>
          (case static_name name of
             Some s \<Rightarrow> Some s
           | None \<Rightarrow>
               find (\<lambda>s. sym_name (syms st s) = Some name \<and> SYMBOL_CONST \<notin> flags (syms st s))
                 (symbol_hash st (name_hash name))))"

text \<open>\<open>for_all_symbols\<close>: all chains in order, skipping symbols of type \<open>S_OTHER\<close>.\<close>

definition all_symbols :: "kstate \<Rightarrow> symptr list" where
  "all_symbols st =
     filter (\<lambda>s. sym_type (syms st s) \<noteq> S_OTHER) (concat (map (symbol_hash st) [0..<257]))"

text \<open>
  \<open>regcomp\<close> is the C library's: it compiles a pattern to a matcher, or fails.  The result is
  the null-terminated array of matching symbols; null when there is none.
\<close>

definition sym_re_search ::
    "(string \<Rightarrow> (string \<Rightarrow> bool) option) \<Rightarrow> string \<Rightarrow> kstate \<Rightarrow> symptr list option" where
  "sym_re_search regcomp pattern st =
     (if pattern = [] then None
      else case regcomp pattern of
        None \<Rightarrow> None
      | Some matches \<Rightarrow>
          (let arr = filter (\<lambda>s. SYMBOL_CONST \<notin> flags (syms st s) \<and>
                (case sym_name (syms st s) of Some n \<Rightarrow> matches n | None \<Rightarrow> False)) (all_symbols st)
           in if arr = [] then None else Some arr))"

subsection \<open>Properties\<close>

definition zero_property :: property where
  "zero_property = \<lparr>prop_sym = None, prop_type = P_UNKNOWN, prop_text = None, visible_expr = Null,
     visible_tri = TNo, prop_expr = Null, prop_menu = None, prop_file = None, prop_lineno = 0\<rparr>"

definition prop_alloc :: "prop_type \<Rightarrow> symptr option \<Rightarrow> kstate \<Rightarrow> nat \<times> kstate" where
  "prop_alloc ty so st =
     (let p = next_prop st;
          st1 = st\<lparr>props := (props st)(p := zero_property\<lparr>prop_type := ty, prop_sym := so,
                     prop_file := current_file st, prop_lineno := zconf_lineno st\<rparr>),
                   next_prop := Suc p\<rparr>
      in (p, (case so of
                None \<Rightarrow> st1
              | Some s \<Rightarrow> upd_sym s (\<lambda>y. y\<lparr>sym_prop := sym_prop y @ [p]\<rparr>) st1)))"

text \<open>
  For an \<open>E_LIST\<close> the code reads the \<^verbatim>\<open>left\<close> union as a symbol although it holds an expression
  (see the findings); no caller passes one, and the model returns null.
\<close>

definition prop_get_symbol :: "property \<Rightarrow> symptr option" where
  "prop_get_symbol p = (case prop_expr p of E_SYMBOL s \<Rightarrow> Some s | _ \<Rightarrow> None)"

definition first_prop :: "prop_type \<Rightarrow> symptr \<Rightarrow> kstate \<Rightarrow> nat option" where
  "first_prop ty s st = find (\<lambda>p. prop_type (props st p) = ty) (sym_prop (syms st s))"

definition sym_get_choice_prop :: "symptr \<Rightarrow> kstate \<Rightarrow> nat option" where
  "sym_get_choice_prop s st = first_prop P_CHOICE s st"

definition sym_get_env_prop :: "symptr \<Rightarrow> kstate \<Rightarrow> nat option" where
  "sym_get_env_prop s st = first_prop P_ENV s st"

definition sym_get_pkg_prop :: "symptr \<Rightarrow> kstate \<Rightarrow> nat option" where
  "sym_get_pkg_prop s st =
     (if SYMBOL_PACKAGE \<notin> flags (syms st s) then None else first_prop P_PACKAGE s st)"

definition sym_get_srcdir_prop :: "symptr \<Rightarrow> kstate \<Rightarrow> nat option" where
  "sym_get_srcdir_prop s st =
     (if SYMBOL_SRCDIR \<notin> flags (syms st s) then None else first_prop P_SRCDIR s st)"

fun prop_get_type_name :: "prop_type \<Rightarrow> string" where
  "prop_get_type_name P_PROMPT = ''prompt''"
| "prop_get_type_name P_ENV = ''env''"
| "prop_get_type_name P_COMMENT = ''comment''"
| "prop_get_type_name P_MENU = ''menu''"
| "prop_get_type_name P_DEFAULT = ''default''"
| "prop_get_type_name P_CHOICE = ''choice''"
| "prop_get_type_name P_SELECT = ''select''"
| "prop_get_type_name P_RANGE = ''range''"
| "prop_get_type_name P_PACKAGE = ''package''"
| "prop_get_type_name P_SRCDIR = ''srcdir''"
| "prop_get_type_name P_BUILD_DEPENDS = ''build_depends''"
| "prop_get_type_name P_BUILD_SELECT = ''build_select''"
| "prop_get_type_name P_UNKNOWN = ''unknown''"

fun sym_type_name :: "symbol_type \<Rightarrow> string" where
  "sym_type_name S_BOOLEAN = ''boolean''"
| "sym_type_name S_TRISTATE = ''tristate''"
| "sym_type_name S_INT = ''integer''"
| "sym_type_name S_HEX = ''hex''"
| "sym_type_name S_STRING = ''string''"
| "sym_type_name S_PACKAGE = ''package''"
| "sym_type_name S_SRCDIR = ''srcdir''"
| "sym_type_name S_UNKNOWN = ''unknown''"
| "sym_type_name S_OTHER = ''???''"

definition set_prop_expr :: "nat \<Rightarrow> expr \<Rightarrow> kstate \<Rightarrow> kstate" where
  "set_prop_expr p e = upd_prop p (\<lambda>q. q\<lparr>prop_expr := e\<rparr>)"

definition sym_add_default :: "symptr \<Rightarrow> string \<Rightarrow> kstate \<Rightarrow> kstate" where
  "sym_add_default s d st =
     (let (p, st1) = prop_alloc P_DEFAULT (Some s) st;
          (c, st2) = sym_lookup (Some d) {SYMBOL_CONST} st1
      in set_prop_expr p (E_SYMBOL c) st2)"

text \<open>\<open>release\<close> is what \<open>uname\<close> reports.\<close>

definition sym_init :: "string \<Rightarrow> kstate \<Rightarrow> kstate" where
  "sym_init release st =
     (if sym_inited st then st
      else
        let (s, st1) = sym_lookup (Some ''UNAME_RELEASE'') {} (st\<lparr>sym_inited := True\<rparr>)
        in sym_add_default s release
             (set_flags {SYMBOL_AUTO} s (upd_sym s (\<lambda>y. y\<lparr>sym_type := S_STRING\<rparr>) st1)))"

text \<open>
  \<open>getenv\<close> is the environment.  The warnings go to standard error and are not modelled; a menu
  entry without a symbol would be a null dereference (\<open>None\<close>).
\<close>

definition prop_add_env :: "(string \<Rightarrow> string option) \<Rightarrow> string \<Rightarrow> kstate \<Rightarrow> kstate option" where
  "prop_add_env getenv env st =
     Option.bind (menu_sym (menus st (current_entry st))) (\<lambda>s.
       let st1 = set_flags {SYMBOL_AUTO} s st in
       case sym_get_env_prop s st1 of
         Some p \<Rightarrow> map_option (\<lambda>_. st1) (prop_get_symbol (props st1 p))
       | None \<Rightarrow>
           let (p, st2) = prop_alloc P_ENV (Some s) st1;
               (c, st3) = sym_lookup (Some env) {SYMBOL_CONST} st2;
               st4 = set_prop_expr p (E_SYMBOL c) st3;
               st5 = st4\<lparr>sym_env_list := E_LIST (sym_env_list st4) s\<rparr>
           in Some (case getenv env of Some v \<Rightarrow> sym_add_default s v st5 | None \<Rightarrow> st5))"

subsection \<open>Change tracking\<close>

definition sym_set_change_count :: "int \<Rightarrow> kstate \<Rightarrow> kstate" where
  "sym_set_change_count count st =
     (let st' = st\<lparr>sym_change_count := count\<rparr> in
      if callback_set st \<and> (sym_change_count st \<noteq> 0) \<noteq> (count \<noteq> 0)
      then st'\<lparr>callback_calls := Suc (callback_calls st)\<rparr> else st')"

definition sym_add_change_count :: "int \<Rightarrow> kstate \<Rightarrow> kstate" where
  "sym_add_change_count count st = sym_set_change_count (count + sym_change_count st) st"

definition conf_get_changed :: "kstate \<Rightarrow> bool" where
  "conf_get_changed st \<longleftrightarrow> sym_change_count st \<noteq> 0"

definition conf_set_changed_callback :: "bool \<Rightarrow> kstate \<Rightarrow> kstate" where
  "conf_set_changed_callback fn st = st\<lparr>callback_set := fn\<rparr>"

definition mark_menu_changed :: "nat \<Rightarrow> kstate \<Rightarrow> kstate" where
  "mark_menu_changed p st =
     (case prop_menu (props st p) of
        None \<Rightarrow> st
      | Some m \<Rightarrow> upd_menu m (\<lambda>x. x\<lparr>menu_flags := menu_flags x \<union> {MENU_CHANGED}\<rparr>) st)"

definition sym_set_changed :: "symptr \<Rightarrow> kstate \<Rightarrow> kstate" where
  "sym_set_changed s st =
     (let st' = set_flags {SYMBOL_CHANGED} s st
      in fold mark_menu_changed (sym_prop (syms st' s)) st')"

definition sym_set_all_changed :: "kstate \<Rightarrow> kstate" where
  "sym_set_all_changed st = fold sym_set_changed (all_symbols st) st"

subsection \<open>Types of symbols\<close>

definition sym_get_type :: "symptr \<Rightarrow> kstate \<Rightarrow> symbol_type" where
  "sym_get_type s st =
     (let y = syms st s in
      if sym_type y = S_TRISTATE then
        (if sym_is_choice_value y \<and> visible y = TYes then S_BOOLEAN
         else if modules_val st = TNo then S_BOOLEAN
         else S_TRISTATE)
      else sym_type y)"

definition sym_is_changable :: "symptr \<Rightarrow> kstate \<Rightarrow> bool" where
  "sym_is_changable s st \<longleftrightarrow> visible (syms st s) > rev_dep_tri (syms st s)"

end
