(* ===== verification/SymCalc.thy ===== *)
theory SymCalc
  imports KState
begin

text \<open>
  The calculation of symbol values: \<open>sym_calc_value\<close> of \<^verbatim>\<open>symbol.c\<close> and the functions it is
  mutually recursive with.  Each of these takes the calculating function as an argument, and
  \<open>sym_calc_value\<close> ties the knot with one unit of fuel per nested call.  The result \<open>None\<close>
  means that the code does not return: a null pointer is followed, or the fuel ran out; the
  theory of the contract proves that neither happens.
\<close>

type_synonym calc = "symptr \<Rightarrow> kstate \<Rightarrow> kstate option"

subsection \<open>Expressions and properties\<close>

fun expr_calc_value_by :: "calc \<Rightarrow> expr \<Rightarrow> kstate \<Rightarrow> (tristate \<times> kstate) option" where
  "expr_calc_value_by scv Null st = Some (TYes, st)"
| "expr_calc_value_by scv (E_SYMBOL s) st =
     do { st1 \<leftarrow> scv s st; Some (sym_get_tristate_value (syms st1 s), st1) }"
| "expr_calc_value_by scv (E_AND l r) st =
     do { (v1, st1) \<leftarrow> expr_calc_value_by scv l st;
          (v2, st2) \<leftarrow> expr_calc_value_by scv r st1;
          Some (EXPR_AND v1 v2, st2) }"
| "expr_calc_value_by scv (E_OR l r) st =
     do { (v1, st1) \<leftarrow> expr_calc_value_by scv l st;
          (v2, st2) \<leftarrow> expr_calc_value_by scv r st1;
          Some (EXPR_OR v1 v2, st2) }"
| "expr_calc_value_by scv (E_NOT a) st =
     do { (v, st1) \<leftarrow> expr_calc_value_by scv a st; Some (EXPR_NOT v, st1) }"
| "expr_calc_value_by scv (E_EQUAL a b) st =
     do { st1 \<leftarrow> scv a st; st2 \<leftarrow> scv b st1;
          Some (if sym_get_string_value (syms st2 a) = sym_get_string_value (syms st2 b)
                then TYes else TNo, st2) }"
| "expr_calc_value_by scv (E_UNEQUAL a b) st =
     do { st1 \<leftarrow> scv a st; st2 \<leftarrow> scv b st1;
          Some (if sym_get_string_value (syms st2 a) = sym_get_string_value (syms st2 b)
                then TNo else TYes, st2) }"
| "expr_calc_value_by scv e st = Some (TNo, st)"

text \<open>\<^verbatim>\<open>prop->visible.tri = expr_calc_value(prop->visible.expr)\<close>\<close>

definition calc_prop_visible :: "calc \<Rightarrow> nat \<Rightarrow> kstate \<Rightarrow> (tristate \<times> kstate) option" where
  "calc_prop_visible scv p st =
     do { (t, st1) \<leftarrow> expr_calc_value_by scv (visible_expr (props st p)) st;
          Some (t, upd_prop p (\<lambda>q. q\<lparr>visible_tri := t\<rparr>) st1) }"

text \<open>The loop of \<open>sym_get_default_prop\<close> and \<open>sym_get_range_prop\<close>.\<close>

fun first_visible :: "calc \<Rightarrow> prop_type \<Rightarrow> nat list \<Rightarrow> kstate \<Rightarrow> (nat option \<times> kstate) option" where
  "first_visible scv ty [] st = Some (None, st)"
| "first_visible scv ty (p # ps) st =
     (if prop_type (props st p) = ty then
        do { (t, st1) \<leftarrow> calc_prop_visible scv p st;
             if t \<noteq> TNo then Some (Some p, st1) else first_visible scv ty ps st1 }
      else first_visible scv ty ps st)"

definition sym_get_default_prop :: "calc \<Rightarrow> symptr \<Rightarrow> kstate \<Rightarrow> (nat option \<times> kstate) option" where
  "sym_get_default_prop scv s st = first_visible scv P_DEFAULT (sym_prop (syms st s)) st"

definition sym_get_range_prop :: "calc \<Rightarrow> symptr \<Rightarrow> kstate \<Rightarrow> (nat option \<times> kstate) option" where
  "sym_get_range_prop scv s st = first_visible scv P_RANGE (sym_prop (syms st s)) st"

subsection \<open>Ranges\<close>

definition sym_get_range_val :: "calc \<Rightarrow> symptr \<Rightarrow> nat \<Rightarrow> kstate \<Rightarrow> (int \<times> kstate) option" where
  "sym_get_range_val scv s base st =
     do { st1 \<leftarrow> scv s st;
          let base' = (case sym_type (syms st1 s) of S_INT \<Rightarrow> 10 | S_HEX \<Rightarrow> 16 | _ \<Rightarrow> base);
          Some (int32 (strtol (sval_string (sv_val (curr (syms st1 s)))) base'), st1) }"

fun range_bounds :: "expr \<Rightarrow> (symptr \<times> symptr) option" where
  "range_bounds (E_RANGE a b) = Some (a, b)"
| "range_bounds _ = None"

text \<open>\<^verbatim>\<open>sym->curr.val = strdup(str)\<close>\<close>

definition strdup_curr :: "symptr \<Rightarrow> string \<Rightarrow> kstate \<Rightarrow> kstate" where
  "strdup_curr s str st =
     (upd_sym s (\<lambda>y. y\<lparr>curr := (curr y)\<lparr>sv_val := VStr (Heap (next_str st)) str\<rparr>\<rparr>) st)
       \<lparr>next_str := Suc (next_str st)\<rparr>"

definition range_base :: "symbol_type \<Rightarrow> nat option" where
  "range_base ty = (case ty of S_INT \<Rightarrow> Some 10 | S_HEX \<Rightarrow> Some 16 | _ \<Rightarrow> None)"

definition sym_validate_range :: "calc \<Rightarrow> symptr \<Rightarrow> kstate \<Rightarrow> kstate option" where
  "sym_validate_range scv s st =
     (case range_base (sym_type (syms st s)) of
        None \<Rightarrow> Some st
      | Some base \<Rightarrow>
          do { (po, st1) \<leftarrow> sym_get_range_prop scv s st;
               case po of
                 None \<Rightarrow> Some st1
               | Some p \<Rightarrow>
                   do { let val = int32 (strtol (sval_string (sv_val (curr (syms st1 s)))) base);
                        (lo, hi) \<leftarrow> range_bounds (prop_expr (props st1 p));
                        (v1, st2) \<leftarrow> sym_get_range_val scv lo base st1;
                        (v2, st3) \<leftarrow> (if val \<ge> v1 then sym_get_range_val scv hi base st2
                                        else Some (v1, st2));
                        if val \<ge> v1 \<and> val \<le> v2 then Some st3
                        else Some (strdup_curr s
                               (if sym_type (syms st3 s) = S_INT then sprintf_d v2
                                else sprintf_0x v2) st3) } })"

subsection \<open>Visibility\<close>

text \<open>\<open>for_all_prompts\<close>: the properties with a text.\<close>

fun calc_prompts :: "calc \<Rightarrow> nat list \<Rightarrow> tristate \<Rightarrow> kstate \<Rightarrow> (tristate \<times> kstate) option" where
  "calc_prompts scv [] tri st = Some (tri, st)"
| "calc_prompts scv (p # ps) tri st =
     (if prop_text (props st p) \<noteq> None then
        do { (t, st1) \<leftarrow> calc_prop_visible scv p st; calc_prompts scv ps (EXPR_OR tri t) st1 }
      else calc_prompts scv ps tri st)"

definition set_visible :: "symptr \<Rightarrow> tristate \<Rightarrow> kstate \<Rightarrow> kstate" where
  "set_visible s tri st =
     (if visible (syms st s) \<noteq> tri
      then sym_set_changed s (upd_sym s (\<lambda>y. y\<lparr>visible := tri\<rparr>) st) else st)"

definition set_rev_dep_tri :: "symptr \<Rightarrow> tristate \<Rightarrow> kstate \<Rightarrow> kstate" where
  "set_rev_dep_tri s tri st =
     (if rev_dep_tri (syms st s) \<noteq> tri
      then sym_set_changed s (upd_sym s (\<lambda>y. y\<lparr>rev_dep_tri := tri\<rparr>) st) else st)"

definition sym_calc_visibility :: "calc \<Rightarrow> symptr \<Rightarrow> kstate \<Rightarrow> kstate option" where
  "sym_calc_visibility scv s st =
     do { (tri, st1) \<leftarrow> calc_prompts scv (sym_prop (syms st s)) TNo st;
          let tri' = (if tri = TMod \<and> (sym_type (syms st1 s) \<noteq> S_TRISTATE \<or> modules_val st1 = TNo)
                      then TYes else tri);
          let st2 = set_visible s tri' st1;
          if sym_is_choice_value (syms st2 s) then Some st2
          else
            do { (r, st3) \<leftarrow> (if rev_dep_expr (syms st2 s) \<noteq> Null
                               then expr_calc_value_by scv (rev_dep_expr (syms st2 s)) st2
                               else Some (TNo, st2));
                 Some (set_rev_dep_tri s
                   (if r = TMod \<and> sym_get_type s st3 = S_BOOLEAN then TYes else r) st3) } }"

subsection \<open>Choices\<close>

fun choice_defaults :: "calc \<Rightarrow> nat list \<Rightarrow> kstate \<Rightarrow> (symptr option \<times> kstate) option" where
  "choice_defaults scv [] st = Some (None, st)"
| "choice_defaults scv (p # ps) st =
     (if prop_type (props st p) = P_DEFAULT then
        do { (t, st1) \<leftarrow> calc_prop_visible scv p st;
             if t = TNo then choice_defaults scv ps st1
             else do { d \<leftarrow> prop_get_symbol (props st1 p);
                       st2 \<leftarrow> sym_calc_visibility scv d st1;
                       if visible (syms st2 d) \<noteq> TNo then Some (Some d, st2)
                       else choice_defaults scv ps st2 } }
      else choice_defaults scv ps st)"

fun first_visible_value :: "calc \<Rightarrow> symptr list \<Rightarrow> kstate \<Rightarrow> (symptr option \<times> kstate) option" where
  "first_visible_value scv [] st = Some (None, st)"
| "first_visible_value scv (d # ds) st =
     do { st1 \<leftarrow> sym_calc_visibility scv d st;
          if visible (syms st1 d) \<noteq> TNo then Some (Some d, st1) else first_visible_value scv ds st1 }"

fun choice_user_value :: "calc \<Rightarrow> sval \<Rightarrow> kstate \<Rightarrow> (symptr option \<times> kstate) option" where
  "choice_user_value scv (VSym d) st =
     do { st1 \<leftarrow> sym_calc_visibility scv d st;
          Some (if visible (syms st1 d) \<noteq> TNo then Some d else None, st1) }"
| "choice_user_value scv _ st = Some (None, st)"

definition sym_calc_choice :: "calc \<Rightarrow> symptr \<Rightarrow> kstate \<Rightarrow> (symptr option \<times> kstate) option" where
  "sym_calc_choice scv s st =
     do { (u, st1) \<leftarrow> choice_user_value scv (sv_val (def (syms st s) S_DEF_USER)) st;
          if u \<noteq> None then Some (u, st1)
          else do {
            (d, st2) \<leftarrow> choice_defaults scv (sym_prop (syms st1 s)) st1;
            if d \<noteq> None then Some (d, st2)
            else do {
              p \<leftarrow> sym_get_choice_prop s st2;
              (f, st3) \<leftarrow> first_visible_value scv (expr_list_syms (prop_expr (props st2 p))) st2;
              if f \<noteq> None then Some (f, st3)
              else Some (None, upd_sym s (\<lambda>y. y\<lparr>curr := (curr y)\<lparr>sv_tri := TNo\<rparr>\<rparr>) st3) } } }"

subsection \<open>The value of a symbol\<close>

text \<open>The first \<^verbatim>\<open>switch\<close>: the value to start from; \<open>None\<close> for the types that have no value.\<close>

definition initial_value :: "symptr \<Rightarrow> kstate \<Rightarrow> symbol_value option" where
  "initial_value s st =
     (case sym_type (syms st s) of
        S_INT \<Rightarrow> Some (curr (syms st symbol_empty))
      | S_HEX \<Rightarrow> Some (curr (syms st symbol_empty))
      | S_STRING \<Rightarrow> Some (curr (syms st symbol_empty))
      | S_BOOLEAN \<Rightarrow> Some (curr (syms st symbol_no))
      | S_TRISTATE \<Rightarrow> Some (curr (syms st symbol_no))
      | _ \<Rightarrow> None)"

definition name_value :: "symptr \<Rightarrow> kstate \<Rightarrow> symbol_value" where
  "name_value s st =
     \<lparr>sv_val = (case sym_name (syms st s) of Some n \<Rightarrow> VStr (NameOf s) n | None \<Rightarrow> VNull),
      sv_tri = TNo\<rparr>"

text \<open>
  The macro \<open>EXPR_AND\<close> evaluates its argument \<^verbatim>\<open>expr_calc_value(prop->expr)\<close> a second time when
  it is the smaller one; the repetition finds every symbol valid and changes nothing.
\<close>

definition calc_default_tri ::
    "calc \<Rightarrow> symptr \<Rightarrow> symbol_value \<Rightarrow> kstate \<Rightarrow> (symbol_value \<times> kstate) option" where
  "calc_default_tri scv s newval st =
     (let y = syms st s;
          st1 = (if visible y \<noteq> TNo \<or> rev_dep_tri y \<noteq> TNo then set_flags {SYMBOL_WRITE} s st else st)
      in if sym_is_choice y then Some (newval, st1)
         else
           do { (po, st2) \<leftarrow> sym_get_default_prop scv s st1;
                case po of
                  None \<Rightarrow> Some (newval, st2)
                | Some p \<Rightarrow>
                    do { let st3 = set_flags {SYMBOL_WRITE} s st2;
                         (v, st4) \<leftarrow> expr_calc_value_by scv (prop_expr (props st3 p)) st3;
                         Some (newval\<lparr>sv_tri := EXPR_AND v (visible_tri (props st4 p))\<rparr>, st4) } })"

definition promote :: "symptr \<Rightarrow> kstate \<Rightarrow> symbol_value \<Rightarrow> symbol_value" where
  "promote s st v =
     (if sv_tri v = TMod \<and> sym_get_type s st = S_BOOLEAN then v\<lparr>sv_tri := TYes\<rparr> else v)"

definition calc_new_tristate ::
    "calc \<Rightarrow> symptr \<Rightarrow> symbol_value \<Rightarrow> kstate \<Rightarrow> (symbol_value \<times> kstate) option" where
  "calc_new_tristate scv s newval st =
     (let y = syms st s in
      if sym_is_choice_value y \<and> visible y = TYes then
        do { p \<leftarrow> sym_get_choice_prop s st;
             c \<leftarrow> prop_get_symbol (props st p);
             Some (promote s st
               (newval\<lparr>sv_tri := (if sv_val (curr (syms st c)) = VSym s then TYes else TNo)\<rparr>), st) }
      else
        do { (v, st1) \<leftarrow>
               (if visible y \<noteq> TNo \<and> sym_has_value y
                then Some (newval\<lparr>sv_tri := EXPR_AND (sv_tri (def y S_DEF_USER)) (visible y)\<rparr>,
                           set_flags {SYMBOL_WRITE} s st)
                else calc_default_tri scv s newval st);
             Some (promote s st1
               (v\<lparr>sv_tri := EXPR_OR (sv_tri v) (rev_dep_tri (syms st1 s))\<rparr>), st1) })"

definition calc_new_string ::
    "calc \<Rightarrow> symptr \<Rightarrow> symbol_value \<Rightarrow> kstate \<Rightarrow> (symbol_value \<times> kstate) option" where
  "calc_new_string scv s newval st =
     (let y = syms st s;
          st1 = (if visible y \<noteq> TNo then set_flags {SYMBOL_WRITE} s st else st)
      in if visible y \<noteq> TNo \<and> sym_has_value y
         then Some (newval\<lparr>sv_val := sv_val (def y S_DEF_USER)\<rparr>, st1)
         else
           do { (po, st2) \<leftarrow> sym_get_default_prop scv s st1;
                case po of
                  None \<Rightarrow> Some (newval, st2)
                | Some p \<Rightarrow>
                    (case prop_get_symbol (props st2 p) of
                       None \<Rightarrow> Some (newval, st2)
                     | Some d \<Rightarrow>
                         do { st3 \<leftarrow> scv d (set_flags {SYMBOL_WRITE} s st2);
                              Some (newval\<lparr>sv_val := sv_val (curr (syms st3 d))\<rparr>, st3) }) })"

definition calc_new_value ::
    "calc \<Rightarrow> symptr \<Rightarrow> symbol_value \<Rightarrow> kstate \<Rightarrow> (symbol_value \<times> kstate) option" where
  "calc_new_value scv s newval st =
     (case sym_get_type s st of
        S_BOOLEAN \<Rightarrow> calc_new_tristate scv s newval st
      | S_TRISTATE \<Rightarrow> calc_new_tristate scv s newval st
      | S_STRING \<Rightarrow> calc_new_string scv s newval st
      | S_HEX \<Rightarrow> calc_new_string scv s newval st
      | S_INT \<Rightarrow> calc_new_string scv s newval st
      | _ \<Rightarrow> Some (newval, st))"

definition note_change :: "symptr \<Rightarrow> symbol_value \<Rightarrow> kstate \<Rightarrow> kstate" where
  "note_change s oldval st =
     (if oldval \<noteq> curr (syms st s) then
        let st1 = sym_set_changed s st in
        if modules_sym st1 = Some s then
          let st2 = sym_set_all_changed st1 in st2\<lparr>modules_val := sv_tri (curr (syms st2 s))\<rparr>
        else st1
      else st)"

definition propagate_flags :: "sym_flag set \<Rightarrow> symptr \<Rightarrow> kstate \<Rightarrow> kstate" where
  "propagate_flags fl c st =
     (let st1 = set_flags fl c st in if SYMBOL_CHANGED \<in> fl then sym_set_changed c st1 else st1)"

definition propagate_choice :: "symptr \<Rightarrow> kstate \<Rightarrow> kstate option" where
  "propagate_choice s st =
     (if sym_is_choice (syms st s) then
        do { p \<leftarrow> sym_get_choice_prop s st;
             let fl = flags (syms st s) \<inter> {SYMBOL_CHANGED, SYMBOL_WRITE};
             Some (fold (propagate_flags fl) (expr_list_syms (prop_expr (props st p))) st) }
      else Some st)"

definition select_choice :: "calc \<Rightarrow> symptr \<Rightarrow> kstate \<Rightarrow> kstate option" where
  "select_choice scv s st =
     (if sym_is_choice (syms st s) \<and> sv_tri (curr (syms st s)) = TYes then
        do { (c, st1) \<leftarrow> sym_calc_choice scv s st;
             Some (upd_sym s (\<lambda>y. y\<lparr>curr := (curr y)\<lparr>sv_val :=
                     (case c of Some d \<Rightarrow> VSym d | None \<Rightarrow> VNull)\<rparr>\<rparr>) st1) }
      else Some st)"

definition clear_auto_write :: "symptr \<Rightarrow> kstate \<Rightarrow> kstate" where
  "clear_auto_write s st =
     (if SYMBOL_AUTO \<in> flags (syms st s) then clear_flags {SYMBOL_WRITE} s st else st)"

text \<open>The body after the test and setting of \<open>SYMBOL_VALID\<close>.\<close>

definition calc_body :: "calc \<Rightarrow> symptr \<Rightarrow> kstate \<Rightarrow> kstate option" where
  "calc_body scv s st =
     (let oldval = curr (syms st s) in
      case initial_value s st of
        None \<Rightarrow> Some (set_curr (name_value s st) s st)
      | Some newval \<Rightarrow>
          do { let st1 = (if sym_is_choice_value (syms st s) then st
                          else clear_flags {SYMBOL_WRITE} s st);
               st2 \<leftarrow> sym_calc_visibility scv s st1;
               (v, st3) \<leftarrow> calc_new_value scv s newval (set_curr newval s st2);
               st4 \<leftarrow> select_choice scv s (set_curr v s st3);
               st5 \<leftarrow> sym_validate_range scv s st4;
               st6 \<leftarrow> propagate_choice s (note_change s oldval st5);
               Some (clear_auto_write s st6) })"

fun sym_calc_value :: "nat \<Rightarrow> symptr \<Rightarrow> kstate \<Rightarrow> kstate option" where
  "sym_calc_value 0 s st = None"
| "sym_calc_value (Suc n) s st =
     (if SYMBOL_VALID \<in> flags (syms st s) then Some st
      else calc_body (sym_calc_value n) s (set_flags {SYMBOL_VALID} s st))"

text \<open>
  Fuel for a call from outside: every nested call is for a symbol that was not yet valid, and
  the statically allocated symbols always are.
\<close>

definition calc_fuel :: "kstate \<Rightarrow> nat" where
  "calc_fuel st = Suc (next_sym st)"

definition calc_value :: "symptr \<Rightarrow> kstate \<Rightarrow> kstate option" where
  "calc_value s st = sym_calc_value (calc_fuel st) s st"

definition expr_calc_value :: "expr \<Rightarrow> kstate \<Rightarrow> (tristate \<times> kstate) option" where
  "expr_calc_value e st = expr_calc_value_by calc_value e st"

end
