(* ===== verification/SymContract.thy ===== *)
theory SymContract
  imports SymCalc ExprSem
begin

text \<open>
  The contract of the value calculation.  \<open>wf_calc\<close> is what the parser establishes of the symbol
  table; \<open>keeps\<close> is what a calculation leaves alone.  The locale \<open>calculator\<close> states the
  contract of the function the others call back; it is interpreted on \<open>sym_calc_value\<close> itself,
  for every amount of fuel, which proves at once that the recursion ends, that no null pointer
  is followed and that the contract holds.
\<close>

subsection \<open>What a calculation does not touch\<close>

definition calc_flags :: "sym_flag set" where
  "calc_flags = {SYMBOL_VALID, SYMBOL_WRITE, SYMBOL_CHANGED}"

lemma calc_flags_diff:
  "fs \<subseteq> calc_flags \<Longrightarrow> A \<union> fs - calc_flags = A - calc_flags"
  "A - {SYMBOL_WRITE} - calc_flags = A - calc_flags"
  by (auto simp: calc_flags_def)

definition static_sym :: "symbol \<Rightarrow> symbol" where
  "static_sym y = y\<lparr>curr := null_value, visible := TNo,
     flags := flags y - calc_flags, rev_dep_tri := TNo\<rparr>"

definition static_prop :: "property \<Rightarrow> property" where
  "static_prop p = p\<lparr>visible_tri := TNo\<rparr>"

definition static_menu :: "menu \<Rightarrow> menu" where
  "static_menu m = m\<lparr>menu_flags := menu_flags m - {MENU_CHANGED}\<rparr>"

definition static_state :: "kstate \<Rightarrow> kstate" where
  "static_state st = st\<lparr>syms := static_sym \<circ> syms st, props := static_prop \<circ> props st,
     menus := static_menu \<circ> menus st, modules_val := TNo, next_str := 0\<rparr>"

lemma static_sym_fields:
  assumes "static_sym y = static_sym z"
  shows "sym_name y = sym_name z" "sym_type y = sym_type z" "def y = def z"
    "sym_prop y = sym_prop z" "rev_dep_expr y = rev_dep_expr z" "sym_file y = sym_file z"
    "f \<notin> calc_flags \<Longrightarrow> f \<in> flags y \<longleftrightarrow> f \<in> flags z"
    "sym_is_choice y = sym_is_choice z" "sym_is_choice_value y = sym_is_choice_value z"
    "sym_has_value y = sym_has_value z"
proof -
  have *: "\<And>g. g (static_sym y) = g (static_sym z)" using assms by simp
  show "sym_name y = sym_name z" "sym_type y = sym_type z" "def y = def z"
    "sym_prop y = sym_prop z" "rev_dep_expr y = rev_dep_expr z" "sym_file y = sym_file z"
    using *[of sym_name] *[of sym_type] *[of def] *[of sym_prop] *[of rev_dep_expr] *[of sym_file]
    by (simp_all add: static_sym_def)
  have fl: "f \<notin> calc_flags \<Longrightarrow> f \<in> flags y \<longleftrightarrow> f \<in> flags z" for f
    using *[of flags] by (auto simp: static_sym_def)
  then show "f \<notin> calc_flags \<Longrightarrow> f \<in> flags y \<longleftrightarrow> f \<in> flags z" .
  show "sym_is_choice y = sym_is_choice z" "sym_is_choice_value y = sym_is_choice_value z"
    "sym_has_value y = sym_has_value z"
    using fl by (simp_all add: calc_flags_def sym_is_choice_def sym_is_choice_value_def sym_has_value_def)
qed

lemma static_prop_fields:
  assumes "static_prop p = static_prop q"
  shows "prop_sym p = prop_sym q" "prop_type p = prop_type q" "prop_text p = prop_text q"
    "visible_expr p = visible_expr q" "prop_expr p = prop_expr q" "prop_menu p = prop_menu q"
    "prop_get_symbol p = prop_get_symbol q"
proof -
  have *: "\<And>g. g (static_prop p) = g (static_prop q)" using assms by simp
  show "prop_sym p = prop_sym q" "prop_type p = prop_type q" "prop_text p = prop_text q"
    "visible_expr p = visible_expr q" "prop_expr p = prop_expr q" "prop_menu p = prop_menu q"
    "prop_get_symbol p = prop_get_symbol q"
    using *[of prop_sym] *[of prop_type] *[of prop_text] *[of visible_expr] *[of prop_expr]
      *[of prop_menu] *[of prop_get_symbol]
    by (simp_all add: static_prop_def prop_get_symbol_def)
qed

text \<open>
  \<open>keeps X st st'\<close>: the static part is the same, no symbol becomes invalid, and for a valid
  symbol outside \<open>X\<close> the value is the same and, unless it is a choice value (whose visibility
  the calculation of its choice may refresh), so are its visibility and its properties'.
\<close>

definition valid :: "kstate \<Rightarrow> symptr \<Rightarrow> bool" where
  "valid st s \<longleftrightarrow> SYMBOL_VALID \<in> flags (syms st s)"

definition bool_ok :: "symbol \<Rightarrow> bool" where
  "bool_ok y \<longleftrightarrow> (sym_type y = S_BOOLEAN \<longrightarrow> sym_get_tristate_value y \<noteq> TMod)"

definition keeps :: "symptr set \<Rightarrow> kstate \<Rightarrow> kstate \<Rightarrow> bool" where
  "keeps X st st' \<longleftrightarrow>
     static_state st' = static_state st \<and>
     (\<forall>s. valid st s \<longrightarrow> valid st' s) \<and>
     (\<forall>s. valid st s \<longrightarrow> s \<notin> X \<longrightarrow> curr (syms st' s) = curr (syms st s)) \<and>
     (\<forall>s. valid st s \<longrightarrow> s \<notin> X \<longrightarrow> \<not> sym_is_choice_value (syms st s) \<longrightarrow>
        visible (syms st' s) = visible (syms st s) \<and>
        rev_dep_tri (syms st' s) = rev_dep_tri (syms st s) \<and>
        (\<forall>p. prop_sym (props st p) = Some s \<longrightarrow>
           visible_tri (props st' p) = visible_tri (props st p))) \<and>
     ((\<forall>m. modules_sym st = Some m \<longrightarrow> valid st m \<and> m \<notin> X) \<longrightarrow> modules_val st' = modules_val st) \<and>
     (\<forall>s. bool_ok (syms st s) \<longrightarrow> bool_ok (syms st' s))"

lemma keeps_static:
  assumes "keeps X st st'"
  shows "static_sym (syms st' s) = static_sym (syms st s)"
    "static_prop (props st' p) = static_prop (props st p)"
    "symbol_hash st' = symbol_hash st" "modules_sym st' = modules_sym st"
    "next_sym st' = next_sym st" "next_prop st' = next_prop st"
    "sym_change_count st' = sym_change_count st"
proof -
  have *: "\<And>g. g (static_state st') = g (static_state st)" using assms by (simp add: keeps_def)
  show "static_sym (syms st' s) = static_sym (syms st s)"
    "static_prop (props st' p) = static_prop (props st p)"
    "symbol_hash st' = symbol_hash st" "modules_sym st' = modules_sym st"
    "next_sym st' = next_sym st" "next_prop st' = next_prop st"
    "sym_change_count st' = sym_change_count st"
    using *[of "\<lambda>x. syms x s"] *[of "\<lambda>x. props x p"] *[of symbol_hash] *[of modules_sym]
      *[of next_sym] *[of next_prop] *[of sym_change_count]
    by (simp_all add: static_state_def)
qed

lemmas keeps_sym = static_sym_fields[OF keeps_static(1)]
lemmas keeps_prop = static_prop_fields[OF keeps_static(2)]

lemma keeps_valid: "keeps X st st' \<Longrightarrow> valid st s \<Longrightarrow> valid st' s"
  by (simp add: keeps_def)

lemma keeps_curr: "keeps X st st' \<Longrightarrow> valid st s \<Longrightarrow> s \<notin> X \<Longrightarrow> curr (syms st' s) = curr (syms st s)"
  by (simp add: keeps_def)

lemma keeps_visible:
  assumes "keeps X st st'" "valid st s" "s \<notin> X" "\<not> sym_is_choice_value (syms st s)"
  shows "visible (syms st' s) = visible (syms st s)"
    "rev_dep_tri (syms st' s) = rev_dep_tri (syms st s)"
    "prop_sym (props st p) = Some s \<Longrightarrow> visible_tri (props st' p) = visible_tri (props st p)"
  using assms by (simp_all add: keeps_def)

lemma keeps_modules:
  "keeps X st st' \<Longrightarrow> (\<And>m. modules_sym st = Some m \<Longrightarrow> valid st m \<and> m \<notin> X) \<Longrightarrow>
   modules_val st' = modules_val st"
  by (simp add: keeps_def)

lemma keeps_refl [simp]: "keeps X st st"
  by (simp add: keeps_def)

lemma keeps_trans:
  assumes a: "keeps X st st1" and b: "keeps X st1 st2"
  shows "keeps X st st2"
  unfolding keeps_def
proof (intro conjI allI impI)
  show "static_state st2 = static_state st" using a b by (simp add: keeps_def)
  show "valid st2 s" if "valid st s" for s
    using that a b by (simp add: keeps_valid)
  show "curr (syms st2 s) = curr (syms st s)" if "valid st s" "s \<notin> X" for s
    using that a b by (simp add: keeps_curr keeps_valid)
  show "visible (syms st2 s) = visible (syms st s)"
    "rev_dep_tri (syms st2 s) = rev_dep_tri (syms st s)"
    if "valid st s" "s \<notin> X" "\<not> sym_is_choice_value (syms st s)" for s
    using that keeps_visible(1,2)[OF a that] keeps_visible(1,2)[OF b, of s] keeps_valid[OF a]
      keeps_sym(9)[OF a, of s] by simp_all
  show "visible_tri (props st2 p) = visible_tri (props st p)"
    if "valid st s" "s \<notin> X" "\<not> sym_is_choice_value (syms st s)" "prop_sym (props st p) = Some s" for s p
    using that(4) keeps_visible(3)[OF a that(1-3)] keeps_visible(3)[OF b, of s p] keeps_valid[OF a]
      keeps_sym(9)[OF a, of s] keeps_prop(1)[OF a, of p] that by simp
  show "modules_val st2 = modules_val st" if "\<forall>m. modules_sym st = Some m \<longrightarrow> valid st m \<and> m \<notin> X"
    using keeps_modules[OF a] keeps_modules[OF b] keeps_static(4)[OF a] keeps_valid[OF a] that by simp
  show "bool_ok (syms st2 s)" if "bool_ok (syms st s)" for s
    using that a b by (simp add: keeps_def)
qed

lemma keeps_mono: "keeps X st st' \<Longrightarrow> X \<subseteq> Y \<Longrightarrow> keeps Y st st'"
  unfolding keeps_def by (elim conjE, intro conjI) blast+

lemma keeps_empty: "keeps {} st st' \<Longrightarrow> keeps X st st'"
  by (erule keeps_mono) simp

text \<open>A symbol that was not valid needs no exemption.\<close>

lemma keeps_invalid:
  assumes "keeps {s} st st'" "\<not> valid st s"
  shows "keeps {} st st'"
proof -
  have ne: "x \<notin> {s}" if "valid st x" for x using that assms(2) by auto
  show ?thesis
    unfolding keeps_def
  proof (intro conjI allI impI)
    show "modules_val st' = modules_val st" if "\<forall>m. modules_sym st = Some m \<longrightarrow> valid st m \<and> m \<notin> {}"
      using that ne by (intro keeps_modules[OF assms(1)]) blast
  qed (use assms(1) ne in \<open>auto simp: keeps_def\<close>)
qed

subsection \<open>The updates\<close>

lemma static_upd_sym:
  "static_sym (f (syms st s)) = static_sym (syms st s) \<Longrightarrow>
   static_state (upd_sym s f st) = static_state st"
  by (auto simp: static_state_def upd_sym_def fun_eq_iff intro!: kstate.equality)

lemma static_upd_prop:
  "static_prop (f (props st p)) = static_prop (props st p) \<Longrightarrow>
   static_state (upd_prop p f st) = static_state st"
  by (auto simp: static_state_def upd_prop_def fun_eq_iff intro!: kstate.equality)

lemma static_upd_menu:
  "static_menu (f (menus st m)) = static_menu (menus st m) \<Longrightarrow>
   static_state (upd_menu m f st) = static_state st"
  by (auto simp: static_state_def upd_menu_def fun_eq_iff intro!: kstate.equality)

lemma keeps_upd_sym:
  assumes "static_sym (f (syms st s)) = static_sym (syms st s)"
    and "SYMBOL_VALID \<in> flags (syms st s) \<Longrightarrow> SYMBOL_VALID \<in> flags (f (syms st s))"
    and "s \<notin> X \<Longrightarrow> curr (f (syms st s)) = curr (syms st s)"
    and "s \<notin> X \<Longrightarrow> \<not> sym_is_choice_value (syms st s) \<Longrightarrow>
      visible (f (syms st s)) = visible (syms st s) \<and>
      rev_dep_tri (f (syms st s)) = rev_dep_tri (syms st s)"
    and "bool_ok (syms st s) \<Longrightarrow> bool_ok (f (syms st s))"
  shows "keeps X st (upd_sym s f st)"
  using assms static_upd_sym[of f st s, OF assms(1)] by (auto simp: keeps_def valid_def)

lemma keeps_upd_prop:
  assumes "\<And>q. static_prop (f q) = static_prop q"
    and "\<And>s. prop_sym (props st p) = Some s \<Longrightarrow> s \<in> X \<or> sym_is_choice_value (syms st s)"
  shows "keeps X st (upd_prop p f st)"
  using assms static_upd_prop[of f st p] by (auto simp: keeps_def valid_def)

lemma keeps_upd_menu: "static_menu (f (menus st m)) = static_menu (menus st m) \<Longrightarrow> keeps X st (upd_menu m f st)"
  using static_upd_menu[of f st m] by (auto simp: keeps_def valid_def)

lemma bool_ok_flags [simp]: "bool_ok (y\<lparr>flags := fl\<rparr>) = bool_ok y"
  by (simp add: bool_ok_def sym_get_tristate_value_def)

lemma keeps_set_flags:
  assumes "fs \<subseteq> calc_flags"
  shows "keeps X st (set_flags fs s st)"
  unfolding set_flags_def
  by (intro keeps_upd_sym) (simp_all add: static_sym_def calc_flags_diff(1)[OF assms])

lemma write_changed_subset [simp]:
  "{SYMBOL_WRITE} \<subseteq> calc_flags" "{SYMBOL_VALID} \<subseteq> calc_flags" "{SYMBOL_CHANGED} \<subseteq> calc_flags"
  by (simp_all add: calc_flags_def)

lemma keeps_clear_write: "keeps X st (clear_flags {SYMBOL_WRITE} s st)"
  unfolding clear_flags_def
  by (intro keeps_upd_sym) (simp_all add: static_sym_def calc_flags_diff(2))

lemma keeps_mark_menu: "keeps X st (mark_menu_changed p st)"
  by (auto simp: mark_menu_changed_def static_menu_def intro!: keeps_upd_menu split: option.split)

lemma keeps_fold: "(\<And>x s. keeps X s (f x s)) \<Longrightarrow> keeps X st (fold f xs st)"
  by (induction xs arbitrary: st) (auto intro: keeps_trans)

lemma keeps_set_changed: "keeps X st (sym_set_changed s st)"
  unfolding sym_set_changed_def Let_def
  by (rule keeps_trans[OF keeps_set_flags[OF write_changed_subset(3)] keeps_fold[OF keeps_mark_menu]])

lemma keeps_set_all_changed: "keeps X st (sym_set_all_changed st)"
  unfolding sym_set_all_changed_def by (rule keeps_fold) (rule keeps_set_changed)

lemma keeps_propagate:
  "fl \<subseteq> calc_flags \<Longrightarrow> keeps X st (propagate_flags fl c st)"
  unfolding propagate_flags_def Let_def
  by (auto intro: keeps_trans[OF keeps_set_flags keeps_set_changed] keeps_set_flags)

lemma keeps_set_curr:
  "s \<in> X \<Longrightarrow> (sym_type (syms st s) = S_BOOLEAN \<Longrightarrow> sv_tri v \<noteq> TMod) \<Longrightarrow> keeps X st (set_curr v s st)"
  unfolding set_curr_def
  by (intro keeps_upd_sym) (simp_all add: static_sym_def bool_ok_def sym_get_tristate_value_def)

lemma keeps_set_curr_val:
  "s \<in> X \<Longrightarrow> keeps X st (upd_sym s (\<lambda>y. y\<lparr>curr := (curr y)\<lparr>sv_val := v\<rparr>\<rparr>) st)"
  by (intro keeps_upd_sym) (simp_all add: static_sym_def bool_ok_def sym_get_tristate_value_def)

lemma keeps_reset_curr_tri:
  "s \<in> X \<Longrightarrow> keeps X st (upd_sym s (\<lambda>y. y\<lparr>curr := (curr y)\<lparr>sv_tri := TNo\<rparr>\<rparr>) st)"
  by (intro keeps_upd_sym) (simp_all add: static_sym_def bool_ok_def sym_get_tristate_value_def)

lemma keeps_set_visible:
  "s \<in> X \<or> sym_is_choice_value (syms st s) \<Longrightarrow> keeps X st (set_visible s t st)"
  unfolding set_visible_def
  by (auto intro!: keeps_trans[OF keeps_upd_sym keeps_set_changed]
      simp: static_sym_def bool_ok_def sym_get_tristate_value_def)

lemma keeps_set_rev_dep: "s \<in> X \<Longrightarrow> keeps X st (set_rev_dep_tri s t st)"
  unfolding set_rev_dep_tri_def
  by (auto intro!: keeps_trans[OF keeps_upd_sym keeps_set_changed]
      simp: static_sym_def bool_ok_def sym_get_tristate_value_def)

lemma keeps_next_str: "keeps X st (st\<lparr>next_str := n\<rparr>)"
  by (simp add: keeps_def static_state_def valid_def)

lemma keeps_strdup_curr: "s \<in> X \<Longrightarrow> keeps X st (strdup_curr s str st)"
  unfolding strdup_curr_def
  by (rule keeps_trans[OF keeps_set_curr_val keeps_next_str])

lemma keeps_modules_val:
  "modules_sym st = Some s \<Longrightarrow> s \<in> X \<Longrightarrow> keeps X st (st\<lparr>modules_val := t\<rparr>)"
  by (auto simp: keeps_def static_state_def valid_def)

lemma keeps_note_change:
  assumes "s \<in> X"
  shows "keeps X st (note_change s v st)"
proof -
  have "keeps X st ((sym_set_all_changed (sym_set_changed s st))\<lparr>modules_val := t\<rparr>)"
    if "modules_sym (sym_set_changed s st) = Some s" for t
  proof (rule keeps_trans[OF keeps_trans[OF keeps_set_changed keeps_set_all_changed] keeps_modules_val])
    show "modules_sym (sym_set_all_changed (sym_set_changed s st)) = Some s"
      using that by (simp only: keeps_static(4)[OF keeps_set_all_changed])
  qed (rule assms)
  then show ?thesis
    unfolding note_change_def Let_def by (simp add: keeps_set_changed)
qed

lemma keeps_clear_auto: "keeps X st (clear_auto_write s st)"
  by (simp add: clear_auto_write_def keeps_clear_write)

subsection \<open>Well-formed symbol tables\<close>

fun expr_syms :: "expr \<Rightarrow> symptr set" where
  "expr_syms (E_SYMBOL s) = {s}"
| "expr_syms (E_EQUAL a b) = {a, b}"
| "expr_syms (E_UNEQUAL a b) = {a, b}"
| "expr_syms (E_RANGE a b) = {a, b}"
| "expr_syms (E_NOT a) = expr_syms a"
| "expr_syms (E_AND l r) = expr_syms l \<union> expr_syms r"
| "expr_syms (E_OR l r) = expr_syms l \<union> expr_syms r"
| "expr_syms (E_LIST l s) = insert s (expr_syms l)"
| "expr_syms Null = {}"
| "expr_syms E_NONE = {}"

fun alloc :: "kstate \<Rightarrow> symptr \<Rightarrow> bool" where
  "alloc st (Sym n) = (n < next_sym st)"
| "alloc st s = True"

text \<open>
  The static symbols are valid; a symbol's properties belong to it and mention only allocated
  symbols; a range property has two bounds; the defaults, the user value and the values of a
  choice are choice values; a choice value belongs to a choice.
\<close>

definition wf_props :: "kstate \<Rightarrow> symptr \<Rightarrow> bool" where
  "wf_props st s \<longleftrightarrow>
     (\<forall>e\<in>{rev_dep_expr (syms st s)}. \<forall>t\<in>expr_syms e. alloc st t) \<and>
     (\<forall>p\<in>set (sym_prop (syms st s)).
        prop_sym (props st p) = Some s \<and>
        (\<forall>t\<in>expr_syms (visible_expr (props st p)). alloc st t) \<and>
        (\<forall>t\<in>expr_syms (prop_expr (props st p)). alloc st t) \<and>
        (prop_type (props st p) = P_RANGE \<longrightarrow> range_bounds (prop_expr (props st p)) \<noteq> None))"

definition wf_choice :: "kstate \<Rightarrow> symptr \<Rightarrow> bool" where
  "wf_choice st s \<longleftrightarrow>
     (\<forall>d. sv_val (def (syms st s) S_DEF_USER) = VSym d \<longrightarrow>
        alloc st d \<and> sym_is_choice_value (syms st d)) \<and>
     (\<forall>p\<in>set (sym_prop (syms st s)). prop_type (props st p) = P_DEFAULT \<longrightarrow>
        (\<exists>d. prop_get_symbol (props st p) = Some d \<and> alloc st d \<and> sym_is_choice_value (syms st d))) \<and>
     (\<exists>p. sym_get_choice_prop s st = Some p \<and>
        (\<forall>d\<in>set (expr_list_syms (prop_expr (props st p))). alloc st d \<and> sym_is_choice_value (syms st d)))"

definition wf_choice_value :: "kstate \<Rightarrow> symptr \<Rightarrow> bool" where
  "wf_choice_value st s \<longleftrightarrow>
     (\<exists>p c. sym_get_choice_prop s st = Some p \<and> prop_get_symbol (props st p) = Some c \<and> alloc st c)"

definition wf_calc :: "kstate \<Rightarrow> bool" where
  "wf_calc st \<longleftrightarrow>
     (\<forall>s\<in>{symbol_yes, symbol_mod, symbol_no, symbol_empty}.
        valid st s \<and> curr (syms st s) = curr (init_static s)) \<and>
     (\<forall>s. alloc st s \<longrightarrow> wf_props st s) \<and>
     (\<forall>s. alloc st s \<longrightarrow> sym_is_choice (syms st s) \<longrightarrow> wf_choice st s) \<and>
     (\<forall>s. alloc st s \<longrightarrow> sym_is_choice_value (syms st s) \<longrightarrow> wf_choice_value st s)"

lemma alloc_cong: "next_sym st' = next_sym st \<Longrightarrow> alloc st' s = alloc st s"
  by (cases s) simp_all

lemma keeps_alloc: "keeps X st st' \<Longrightarrow> alloc st' s = alloc st s"
  by (rule alloc_cong) (rule keeps_static(5))

lemma keeps_first_prop: "keeps X st st' \<Longrightarrow> first_prop ty s st' = first_prop ty s st"
  by (simp add: first_prop_def keeps_sym(4) keeps_prop(2))

lemma keeps_choice_prop: "keeps X st st' \<Longrightarrow> sym_get_choice_prop s st' = sym_get_choice_prop s st"
  by (simp add: sym_get_choice_prop_def keeps_first_prop)

lemmas keeps_fields = keeps_sym(1-6,8-10) keeps_prop keeps_static(3-6) keeps_alloc keeps_choice_prop

lemma keeps_wf:
  assumes k: "keeps X st st'" and wf: "wf_calc st"
    and X: "X \<inter> {symbol_yes, symbol_mod, symbol_no, symbol_empty} = {}"
  shows "wf_calc st'"
proof -
  have "wf_props st' s = wf_props st s" "wf_choice st' s = wf_choice st s"
    "wf_choice_value st' s = wf_choice_value st s" for s
    by (simp_all add: wf_props_def wf_choice_def wf_choice_value_def keeps_fields[OF k])
  moreover have "\<forall>s\<in>{symbol_yes, symbol_mod, symbol_no, symbol_empty}.
      valid st' s \<and> curr (syms st' s) = curr (init_static s)"
    using wf X keeps_valid[OF k] keeps_curr[OF k] unfolding wf_calc_def by (metis disjoint_iff)
  ultimately show ?thesis
    using wf by (simp add: wf_calc_def keeps_fields[OF k])
qed

end
