(* ===== verification/SymTotal.thy ===== *)
theory SymTotal
  imports SymContract
begin

text \<open>
  The functions of the value calculation under the contract: each returns, keeps what it must,
  and computes the value the abstract specification gives.
\<close>

subsection \<open>Values are stable\<close>

text \<open>The symbols whose values an evaluation reads.\<close>

fun eval_syms :: "expr \<Rightarrow> symptr set" where
  "eval_syms (E_SYMBOL s) = {s}"
| "eval_syms (E_EQUAL a b) = {a, b}"
| "eval_syms (E_UNEQUAL a b) = {a, b}"
| "eval_syms (E_NOT a) = eval_syms a"
| "eval_syms (E_AND l r) = eval_syms l \<union> eval_syms r"
| "eval_syms (E_OR l r) = eval_syms l \<union> eval_syms r"
| "eval_syms _ = {}"

definition evald :: "kstate \<Rightarrow> expr \<Rightarrow> bool" where
  "evald st e \<longleftrightarrow> (\<forall>s\<in>eval_syms e. valid st s)"

lemma evald_keeps: "keeps X st st' \<Longrightarrow> evald st e \<Longrightarrow> evald st' e"
  by (auto simp: evald_def keeps_valid)

lemma string_keeps:
  "keeps X st st' \<Longrightarrow> valid st s \<Longrightarrow> s \<notin> X \<Longrightarrow>
   sym_get_string_value (syms st' s) = sym_get_string_value (syms st s) \<and>
   sym_get_tristate_value (syms st' s) = sym_get_tristate_value (syms st s)"
  by (cases "sym_type (syms st s)")
     (simp_all add: sym_get_string_value_def sym_get_tristate_value_def keeps_curr keeps_sym(2))

lemma value_keeps:
  assumes "keeps X st st'"
  shows "evald st e \<Longrightarrow> eval_syms e \<inter> X = {} \<Longrightarrow> expr_value (syms st') e = expr_value (syms st) e"
proof (induction e)
  case (E_EQUAL a b)
  then show ?case using string_keeps[OF assms, of a] string_keeps[OF assms, of b] by (simp add: evald_def)
next
  case (E_UNEQUAL a b)
  then show ?case using string_keeps[OF assms, of a] string_keeps[OF assms, of b] by (simp add: evald_def)
next
  case (E_SYMBOL s)
  then show ?case using string_keeps[OF assms, of s] by (simp add: evald_def)
next
  case (E_AND l r)
  then show ?case by (simp add: evald_def Int_Un_distrib2)
next
  case (E_OR l r)
  then show ?case by (simp add: evald_def Int_Un_distrib2)
qed (simp_all add: evald_def)

subsection \<open>The abstract specification\<close>

fun prompts_value :: "symstore \<Rightarrow> (nat \<Rightarrow> property) \<Rightarrow> nat list \<Rightarrow> tristate" where
  "prompts_value ss pr [] = TNo"
| "prompts_value ss pr (p # ps) =
     (if prop_text (pr p) \<noteq> None
      then max (expr_value ss (visible_expr (pr p))) (prompts_value ss pr ps)
      else prompts_value ss pr ps)"

definition find_prop :: "prop_type \<Rightarrow> kstate \<Rightarrow> nat list \<Rightarrow> nat option" where
  "find_prop ty st ps =
     find (\<lambda>p. prop_type (props st p) = ty \<and> expr_value (syms st) (visible_expr (props st p)) \<noteq> TNo) ps"

definition visible_spec :: "kstate \<Rightarrow> symptr \<Rightarrow> tristate" where
  "visible_spec st s =
     (let v = prompts_value (syms st) (props st) (sym_prop (syms st s))
      in if v = TMod \<and> (sym_type (syms st s) \<noteq> S_TRISTATE \<or> modules_val st = TNo) then TYes else v)"

definition two_valued_type :: "kstate \<Rightarrow> symptr \<Rightarrow> bool" where
  "two_valued_type st s \<longleftrightarrow>
     sym_type (syms st s) = S_BOOLEAN \<or> sym_type (syms st s) = S_TRISTATE \<and> modules_val st = TNo"

definition round_up :: "kstate \<Rightarrow> symptr \<Rightarrow> tristate \<Rightarrow> tristate" where
  "round_up st s t = (if t = TMod \<and> two_valued_type st s then TYes else t)"

definition rev_dep_spec :: "kstate \<Rightarrow> symptr \<Rightarrow> tristate" where
  "rev_dep_spec st s =
     round_up st s (if rev_dep_expr (syms st s) = Null then TNo
                    else expr_value (syms st) (rev_dep_expr (syms st s)))"

definition default_spec :: "kstate \<Rightarrow> symptr \<Rightarrow> tristate" where
  "default_spec st s =
     (case find_prop P_DEFAULT st (sym_prop (syms st s)) of
        None \<Rightarrow> TNo
      | Some p \<Rightarrow> min (expr_value (syms st) (prop_expr (props st p)))
                      (expr_value (syms st) (visible_expr (props st p))))"

definition value_spec :: "kstate \<Rightarrow> symptr \<Rightarrow> tristate" where
  "value_spec st s =
     round_up st s (max
       (if visible_spec st s \<noteq> TNo \<and> sym_has_value (syms st s)
        then min (sv_tri (def (syms st s) S_DEF_USER)) (visible_spec st s)
        else default_spec st s)
       (rev_dep_spec st s))"

lemma get_type_two_valued:
  "\<not> sym_is_choice_value (syms st s) \<Longrightarrow> sym_get_type s st = S_BOOLEAN \<longleftrightarrow> two_valued_type st s"
  by (auto simp: sym_get_type_def two_valued_type_def Let_def)

subsection \<open>The contract\<close>

definition static_syms :: "symptr set" where
  "static_syms = {symbol_yes, symbol_mod, symbol_no, symbol_empty}"

text \<open>\<open>exempt X st s\<close>: the calculation may change the symbol's visibility.\<close>

definition exempt :: "symptr set \<Rightarrow> kstate \<Rightarrow> symptr \<Rightarrow> bool" where
  "exempt X st s \<longleftrightarrow> X \<inter> static_syms = {} \<and> (s \<in> X \<or> sym_is_choice_value (syms st s))"

text \<open>\<open>steady\<close>: visibility and reverse dependency of a valid symbol stay.\<close>

definition steady :: "kstate \<Rightarrow> kstate \<Rightarrow> symptr \<Rightarrow> bool" where
  "steady st st' s \<longleftrightarrow>
     (valid st s \<longrightarrow> \<not> sym_is_choice_value (syms st s) \<longrightarrow>
        visible (syms st' s) = visible (syms st s) \<and>
        rev_dep_tri (syms st' s) = rev_dep_tri (syms st s))"

text \<open>The expressions of a symbol that do not read a symbol of \<open>X\<close>.\<close>

definition reads_none :: "symptr set \<Rightarrow> kstate \<Rightarrow> symptr \<Rightarrow> bool" where
  "reads_none X st s \<longleftrightarrow>
     eval_syms (rev_dep_expr (syms st s)) \<inter> X = {} \<and>
     (\<forall>p\<in>set (sym_prop (syms st s)). eval_syms (visible_expr (props st p)) \<inter> X = {} \<and>
        eval_syms (prop_expr (props st p)) \<inter> X = {})"

text \<open>The symbol that switches modules on is calculated, or there is none.\<close>

definition modules_settled :: "symptr set \<Rightarrow> kstate \<Rightarrow> bool" where
  "modules_settled X st \<longleftrightarrow> (\<forall>m. modules_sym st = Some m \<longrightarrow> valid st m \<and> m \<notin> X)"

lemma settled_keeps:
  "modules_settled X st \<Longrightarrow> keeps X st st' \<Longrightarrow> modules_settled X st' \<and> modules_val st' = modules_val st"
  using keeps_modules[of X st st'] by (auto simp: modules_settled_def keeps_static(4) keeps_valid)

locale calculator =
  fixes scv :: calc and ready :: "kstate \<Rightarrow> bool"
  assumes scv_ok: "ready st \<Longrightarrow> alloc st s \<Longrightarrow>
      \<exists>st'. scv s st = Some st' \<and> keeps {} st st' \<and> valid st' s"
    and ready_wf: "ready st \<Longrightarrow> wf_calc st"
    and ready_keeps: "ready st \<Longrightarrow> keeps X st st' \<Longrightarrow> X \<inter> static_syms = {} \<Longrightarrow> ready st'"
begin

lemma ready_empty: "ready st \<Longrightarrow> keeps {} st st' \<Longrightarrow> ready st'"
  using ready_keeps[of st "{}" st'] by simp

lemma expr_ok:
  "ready st \<Longrightarrow> \<forall>t\<in>expr_syms e. alloc st t \<Longrightarrow>
   \<exists>st'. expr_calc_value_by scv e st = Some (expr_value (syms st') e, st') \<and>
     keeps {} st st' \<and> evald st' e"
proof (induction e arbitrary: st)
  case (E_SYMBOL s)
  then obtain st1 where "scv s st = Some st1" "keeps {} st st1" "valid st1 s"
    using scv_ok[of st s] by auto
  then show ?case by (auto simp: evald_def)
next
  case (E_EQUAL a b)
  then obtain st1 where a: "scv a st = Some st1" "keeps {} st st1" "valid st1 a"
    using scv_ok[of st a] by auto
  obtain st2 where b: "scv b st1 = Some st2" "keeps {} st1 st2" "valid st2 b"
    using scv_ok[of st1 b] E_EQUAL ready_empty[OF _ a(2)] keeps_alloc[OF a(2)] by auto
  show ?case
    using a b keeps_trans[OF a(2) b(2)] keeps_valid[OF b(2) a(3)] by (auto simp: evald_def)
next
  case (E_UNEQUAL a b)
  then obtain st1 where a: "scv a st = Some st1" "keeps {} st st1" "valid st1 a"
    using scv_ok[of st a] by auto
  obtain st2 where b: "scv b st1 = Some st2" "keeps {} st1 st2" "valid st2 b"
    using scv_ok[of st1 b] E_UNEQUAL ready_empty[OF _ a(2)] keeps_alloc[OF a(2)] by auto
  show ?case
    using a b keeps_trans[OF a(2) b(2)] keeps_valid[OF b(2) a(3)] by (auto simp: evald_def)
next
  case (E_NOT a)
  then obtain st1 where "expr_calc_value_by scv a st = Some (expr_value (syms st1) a, st1)"
      "keeps {} st st1" "evald st1 a"
    using E_NOT.IH[of st] by auto
  then show ?case by (auto simp: evald_def)
next
  case (E_AND l r)
  obtain st1 where a: "expr_calc_value_by scv l st = Some (expr_value (syms st1) l, st1)"
      "keeps {} st st1" "evald st1 l"
    using E_AND.IH(1)[of st] E_AND.prems by auto
  obtain st2 where b: "expr_calc_value_by scv r st1 = Some (expr_value (syms st2) r, st2)"
      "keeps {} st1 st2" "evald st2 r"
    using E_AND.IH(2)[of st1] E_AND.prems ready_empty[OF _ a(2)] keeps_alloc[OF a(2)] by auto
  show ?case
    using a b keeps_trans[OF a(2) b(2)] evald_keeps[OF b(2) a(3)] value_keeps[OF b(2) a(3)]
    by (auto simp: evald_def)
next
  case (E_OR l r)
  obtain st1 where a: "expr_calc_value_by scv l st = Some (expr_value (syms st1) l, st1)"
      "keeps {} st st1" "evald st1 l"
    using E_OR.IH(1)[of st] E_OR.prems by auto
  obtain st2 where b: "expr_calc_value_by scv r st1 = Some (expr_value (syms st2) r, st2)"
      "keeps {} st1 st2" "evald st2 r"
    using E_OR.IH(2)[of st1] E_OR.prems ready_empty[OF _ a(2)] keeps_alloc[OF a(2)] by auto
  show ?case
    using a b keeps_trans[OF a(2) b(2)] evald_keeps[OF b(2) a(3)] value_keeps[OF b(2) a(3)]
    by (auto simp: evald_def)
qed (auto simp: evald_def)

text \<open>The facts about a property of an allocated symbol.\<close>

lemma own_prop:
  assumes "ready st" "alloc st s" "p \<in> set (sym_prop (syms st s))"
  shows "prop_sym (props st p) = Some s" "\<forall>t\<in>expr_syms (visible_expr (props st p)). alloc st t"
    "\<forall>t\<in>expr_syms (prop_expr (props st p)). alloc st t"
    "prop_type (props st p) = P_RANGE \<Longrightarrow> range_bounds (prop_expr (props st p)) \<noteq> None"
proof -
  have "wf_props st s" using ready_wf[OF assms(1)] assms(2) unfolding wf_calc_def by blast
  from this[unfolded wf_props_def] assms(3)
  show "prop_sym (props st p) = Some s" "\<forall>t\<in>expr_syms (visible_expr (props st p)). alloc st t"
    "\<forall>t\<in>expr_syms (prop_expr (props st p)). alloc st t"
    "prop_type (props st p) = P_RANGE \<Longrightarrow> range_bounds (prop_expr (props st p)) \<noteq> None"
    by blast+
qed

lemma exempt_keeps: "keeps Y st st' \<Longrightarrow> exempt X st s \<Longrightarrow> exempt X st' s"
  by (simp add: exempt_def keeps_sym(9))

lemma steady_keeps: "keeps {} st st' \<Longrightarrow> steady st st' s"
  using keeps_visible(1,2)[of "{}" st st' s] by (simp add: steady_def)

lemma steady_trans:
  "steady st st1 s \<Longrightarrow> steady st1 st2 s \<Longrightarrow> keeps X st st1 \<Longrightarrow> steady st st2 s"
  using keeps_valid[of X st st1 s] keeps_sym(9)[of X st st1 s] by (simp add: steady_def)

lemma prop_visible_ok:
  assumes "ready st" "alloc st s" "p \<in> set (sym_prop (syms st s))" "exempt X st s"
  shows "\<exists>st'. calc_prop_visible scv p st =
        Some (expr_value (syms st') (visible_expr (props st p)), st') \<and>
      keeps X st st' \<and> evald st' (visible_expr (props st p)) \<and>
      visible_tri (props st' p) = expr_value (syms st') (visible_expr (props st p)) \<and>
      steady st st' s"
proof -
  note own = own_prop[OF assms(1-3)]
  obtain st1 where e: "expr_calc_value_by scv (visible_expr (props st p)) st =
        Some (expr_value (syms st1) (visible_expr (props st p)), st1)"
      "keeps {} st st1" "evald st1 (visible_expr (props st p))"
    using expr_ok[OF assms(1) own(2)] by blast
  let ?v = "expr_value (syms st1) (visible_expr (props st p))"
  let ?st = "upd_prop p (\<lambda>q. q\<lparr>visible_tri := ?v\<rparr>) st1"
  have "keeps X st1 ?st"
    using own(1) assms(4) keeps_prop(1)[OF e(2)] keeps_sym(9)[OF e(2)]
    by (intro keeps_upd_prop) (auto simp: static_prop_def exempt_def)
  then have "keeps X st ?st" by (rule keeps_trans[OF keeps_empty[OF e(2)]])
  moreover have "steady st ?st s" using steady_keeps[OF e(2), of s] by (simp add: steady_def)
  ultimately show ?thesis using e(1,3) by (auto simp: calc_prop_visible_def evald_def valid_def)
qed

lemma ready_exempt: "ready st \<Longrightarrow> exempt X st s \<Longrightarrow> keeps X st st' \<Longrightarrow> ready st'"
  using ready_keeps[of st X st'] by (simp add: exempt_def)

text \<open>
  A result that depends on values is stated for every later state: the symbols it read are
  valid, and stay as they are.
\<close>

lemma first_visible_ok:
  "ready st \<Longrightarrow> alloc st s \<Longrightarrow> set ps \<subseteq> set (sym_prop (syms st s)) \<Longrightarrow> exempt X st s \<Longrightarrow>
   \<exists>po st'. first_visible scv ty ps st = Some (po, st') \<and> keeps X st st' \<and> steady st st' s \<and>
     (\<forall>p. po = Some p \<longrightarrow> p \<in> set ps \<and> prop_type (props st p) = ty \<and>
        visible_tri (props st' p) = expr_value (syms st') (visible_expr (props st p)) \<and>
        visible_tri (props st' p) \<noteq> TNo \<and> evald st' (visible_expr (props st p))) \<and>
     ((\<forall>p\<in>set ps. eval_syms (visible_expr (props st p)) \<inter> X = {}) \<longrightarrow>
        (\<forall>st''. keeps X st' st'' \<longrightarrow> find_prop ty st'' ps = po))"
proof (induction ps arbitrary: st)
  case Nil
  then show ?case by (simp add: find_prop_def steady_def)
next
  case (Cons p ps)
  have step: "find_prop ty st'' (p # ps) =
      (if prop_type (props st'' p) = ty \<and> expr_value (syms st'') (visible_expr (props st'' p)) \<noteq> TNo
       then Some p else find_prop ty st'' ps)" for st''
    by (simp add: find_prop_def)
  show ?case
  proof (cases "prop_type (props st p) = ty")
    case False
    obtain po st' where r: "first_visible scv ty ps st = Some (po, st')" "keeps X st st'"
        "steady st st' s" and
      rest: "(\<forall>p. po = Some p \<longrightarrow> p \<in> set ps \<and> prop_type (props st p) = ty \<and>
        visible_tri (props st' p) = expr_value (syms st') (visible_expr (props st p)) \<and>
        visible_tri (props st' p) \<noteq> TNo \<and> evald st' (visible_expr (props st p)))"
      "(\<forall>p\<in>set ps. eval_syms (visible_expr (props st p)) \<inter> X = {}) \<longrightarrow>
        (\<forall>st''. keeps X st' st'' \<longrightarrow> find_prop ty st'' ps = po)"
      using Cons.IH[OF Cons.prems(1,2) _ Cons.prems(4)] Cons.prems(3) by auto
    have "prop_type (props st'' p) \<noteq> ty" if "keeps X st' st''" for st''
      using False keeps_prop(2)[OF r(2), of p] keeps_prop(2)[OF that, of p] by simp
    with r rest False show ?thesis by (auto simp: step)
  next
    case True
    obtain st1 where v: "calc_prop_visible scv p st =
          Some (expr_value (syms st1) (visible_expr (props st p)), st1)"
        "keeps X st st1" "evald st1 (visible_expr (props st p))"
        "visible_tri (props st1 p) = expr_value (syms st1) (visible_expr (props st p))"
        "steady st st1 s"
      using prop_visible_ok[OF Cons.prems(1,2) _ Cons.prems(4), of p] Cons.prems(3) by auto
    have later: "expr_value (syms st'') (visible_expr (props st'' p)) =
        expr_value (syms st1) (visible_expr (props st p)) \<and> prop_type (props st'' p) = ty"
      if "keeps X st1 st''" "eval_syms (visible_expr (props st p)) \<inter> X = {}" for st''
      using value_keeps[OF that(1) v(3) that(2)] keeps_prop(2,4)[OF that(1), of p]
        keeps_prop(2,4)[OF v(2), of p] True by simp
    show ?thesis
    proof (cases "expr_value (syms st1) (visible_expr (props st p)) = TNo")
      case False
      with True v later show ?thesis by (auto simp: step)
    next
      case no: True
      have "ready st1" by (rule ready_exempt[OF Cons.prems(1,4) v(2)])
      moreover have "alloc st1 s" "set ps \<subseteq> set (sym_prop (syms st1 s))" "exempt X st1 s"
        using Cons.prems exempt_keeps[OF v(2)] by (simp_all add: keeps_alloc[OF v(2)] keeps_sym(4)[OF v(2)])
      ultimately obtain po st' where r: "first_visible scv ty ps st1 = Some (po, st')" "keeps X st1 st'"
          "steady st1 st' s" and
        rest: "(\<forall>p. po = Some p \<longrightarrow> p \<in> set ps \<and> prop_type (props st1 p) = ty \<and>
          visible_tri (props st' p) = expr_value (syms st') (visible_expr (props st1 p)) \<and>
          visible_tri (props st' p) \<noteq> TNo \<and> evald st' (visible_expr (props st1 p)))"
        "(\<forall>p\<in>set ps. eval_syms (visible_expr (props st1 p)) \<inter> X = {}) \<longrightarrow>
          (\<forall>st''. keeps X st' st'' \<longrightarrow> find_prop ty st'' ps = po)"
        using Cons.IH[of st1] by blast
      have "find_prop ty st'' (p # ps) = find_prop ty st'' ps"
        if "keeps X st' st''" "eval_syms (visible_expr (props st p)) \<inter> X = {}" for st''
        using later[OF keeps_trans[OF r(2) that(1)] that(2)] no by (simp add: step)
      with True v no r rest keeps_trans[OF v(2) r(2)] steady_trans[OF v(5) r(3) v(2)] show ?thesis
        by (auto simp: keeps_prop[OF v(2)])
    qed
  qed
qed

lemma prompts_ok:
  "ready st \<Longrightarrow> alloc st s \<Longrightarrow> set ps \<subseteq> set (sym_prop (syms st s)) \<Longrightarrow> exempt X st s \<Longrightarrow>
   \<exists>t st'. calc_prompts scv ps tri st = Some (t, st') \<and> keeps X st st' \<and>
     ((\<forall>p\<in>set ps. eval_syms (visible_expr (props st p)) \<inter> X = {}) \<longrightarrow>
        (\<forall>st''. keeps X st' st'' \<longrightarrow> t = max tri (prompts_value (syms st'') (props st'') ps)))"
proof (induction ps arbitrary: tri st)
  case Nil
  then show ?case by simp
next
  case (Cons p ps)
  show ?case
  proof (cases "prop_text (props st p) = None")
    case True
    obtain t st' where r: "calc_prompts scv ps tri st = Some (t, st')" "keeps X st st'" and
      rest: "(\<forall>p\<in>set ps. eval_syms (visible_expr (props st p)) \<inter> X = {}) \<longrightarrow>
        (\<forall>st''. keeps X st' st'' \<longrightarrow> t = max tri (prompts_value (syms st'') (props st'') ps))"
      using Cons.IH[OF Cons.prems(1,2) _ Cons.prems(4), of tri] Cons.prems(3) by auto
    have "prop_text (props st'' p) = None" if "keeps X st' st''" for st''
      using True keeps_prop(3)[OF r(2), of p] keeps_prop(3)[OF that, of p] by simp
    with r rest True show ?thesis by simp
  next
    case False
    obtain st1 where v: "calc_prop_visible scv p st =
          Some (expr_value (syms st1) (visible_expr (props st p)), st1)"
        "keeps X st st1" "evald st1 (visible_expr (props st p))"
      using prop_visible_ok[OF Cons.prems(1,2) _ Cons.prems(4), of p] Cons.prems(3) by auto
    let ?v = "expr_value (syms st1) (visible_expr (props st p))"
    have "ready st1" by (rule ready_exempt[OF Cons.prems(1,4) v(2)])
    moreover have "alloc st1 s" "set ps \<subseteq> set (sym_prop (syms st1 s))" "exempt X st1 s"
      using Cons.prems exempt_keeps[OF v(2)] by (simp_all add: keeps_alloc[OF v(2)] keeps_sym(4)[OF v(2)])
    ultimately obtain t st' where r: "calc_prompts scv ps (EXPR_OR tri ?v) st1 = Some (t, st')"
        "keeps X st1 st'" and
      rest: "(\<forall>p\<in>set ps. eval_syms (visible_expr (props st1 p)) \<inter> X = {}) \<longrightarrow>
        (\<forall>st''. keeps X st' st'' \<longrightarrow> t = max (EXPR_OR tri ?v) (prompts_value (syms st'') (props st'') ps))"
      using Cons.IH[of st1 "EXPR_OR tri ?v"] by blast
    have "expr_value (syms st'') (visible_expr (props st'' p)) = ?v \<and> prop_text (props st'' p) \<noteq> None"
      if "keeps X st' st''" "eval_syms (visible_expr (props st p)) \<inter> X = {}" for st''
      using value_keeps[OF keeps_trans[OF r(2) that(1)] v(3) that(2)] False
        keeps_prop(3,4)[OF keeps_trans[OF r(2) that(1)], of p] keeps_prop(3,4)[OF v(2), of p] by simp
    with False v r rest keeps_trans[OF v(2) r(2)] show ?thesis
      by (simp add: keeps_prop[OF v(2)] EXPR_OR_max max.assoc)
  qed
qed

subsection \<open>Visibility and choices\<close>

lemma set_changed_visible:
  "visible (syms (sym_set_changed s st) t) = visible (syms st t)"
  "rev_dep_tri (syms (sym_set_changed s st) t) = rev_dep_tri (syms st t)"
proof -
  have fold: "syms (fold mark_menu_changed ps st) = syms st" for ps st
    by (induction ps arbitrary: st) (auto simp: mark_menu_changed_def split: option.split)
  show "visible (syms (sym_set_changed s st) t) = visible (syms st t)"
    "rev_dep_tri (syms (sym_set_changed s st) t) = rev_dep_tri (syms st t)"
    by (simp_all add: sym_set_changed_def Let_def fold set_flags_def)
qed

lemma visible_set_visible [simp]: "visible (syms (set_visible s t st) s) = t"
  by (simp add: set_visible_def set_changed_visible)

lemma set_rev_dep_tri_value [simp]:
  "rev_dep_tri (syms (set_rev_dep_tri s t st) s) = t"
  "visible (syms (set_rev_dep_tri s t st) u) = visible (syms st u)"
  by (simp_all add: set_rev_dep_tri_def set_changed_visible)

lemma visibility_ok:
  assumes "ready st" "alloc st s" "exempt X st s"
  shows "\<exists>st'. sym_calc_visibility scv s st = Some st' \<and> keeps X st st' \<and>
     (reads_none X st s \<longrightarrow> modules_settled X st \<longrightarrow> \<not> sym_is_choice_value (syms st s) \<longrightarrow>
      valid st s \<longrightarrow>
        (\<forall>st''. keeps X st' st'' \<longrightarrow> visible (syms st' s) = visible_spec st'' s \<and>
           rev_dep_tri (syms st' s) = rev_dep_spec st'' s))"
proof -
  obtain t st1 where p: "calc_prompts scv (sym_prop (syms st s)) TNo st = Some (t, st1)"
      "keeps X st st1"
    and prompts: "(\<forall>p\<in>set (sym_prop (syms st s)). eval_syms (visible_expr (props st p)) \<inter> X = {}) \<longrightarrow>
        (\<forall>st''. keeps X st1 st'' \<longrightarrow>
          t = max TNo (prompts_value (syms st'') (props st'') (sym_prop (syms st s))))"
    using prompts_ok[OF assms(1,2) subset_refl assms(3), of TNo] by blast
  define t' where "t' = (if t = TMod \<and> (sym_type (syms st1 s) \<noteq> S_TRISTATE \<or> modules_val st1 = TNo)
                      then TYes else t)"
  define st2 where "st2 = set_visible s t' st1"
  have k12: "keeps X st1 st2"
    unfolding st2_def using exempt_keeps[OF p(2) assms(3)] by (intro keeps_set_visible) (simp add: exempt_def)
  have k2: "keeps X st st2" by (rule keeps_trans[OF p(2) k12])
  have vis: "t' = visible_spec st'' s" if "reads_none X st s" "modules_settled X st" "keeps X st1 st''" for st''
  proof -
    have "t = prompts_value (syms st'') (props st'') (sym_prop (syms st'' s))"
      using prompts that(1,3) keeps_sym(4)[OF keeps_trans[OF p(2) that(3)], of s]
      by (simp add: reads_none_def)
    moreover have "sym_type (syms st1 s) = sym_type (syms st'' s)" "modules_val st1 = modules_val st''"
      using keeps_sym(2)[OF that(3), of s] settled_keeps[OF that(2) p(2)] settled_keeps[OF _ that(3)] by auto
    ultimately show ?thesis by (simp add: t'_def visible_spec_def Let_def)
  qed
  show ?thesis
  proof (cases "sym_is_choice_value (syms st s)")
    case True
    then have "sym_calc_visibility scv s st = Some st2"
      using keeps_sym(9)[OF k2, of s] p(1) by (simp add: sym_calc_visibility_def Let_def t'_def st2_def)
    with True k2 show ?thesis by auto
  next
    case False
    then have sX: "s \<in> X" using assms(3) by (simp add: exempt_def)
    let ?rd = "rev_dep_expr (syms st s)"
    have wf: "wf_props st s" using ready_wf[OF assms(1)] assms(2) unfolding wf_calc_def by blast
    have "\<exists>r st3. (if ?rd \<noteq> Null then expr_calc_value_by scv ?rd st2 else Some (TNo, st2)) = Some (r, st3) \<and>
        keeps {} st2 st3 \<and> evald st3 ?rd \<and> r = (if ?rd = Null then TNo else expr_value (syms st3) ?rd)"
    proof (cases "?rd = Null")
      case False
      have "\<forall>t\<in>expr_syms ?rd. alloc st2 t"
        using wf by (simp add: wf_props_def keeps_alloc[OF k2])
      from expr_ok[OF ready_exempt[OF assms(1,3) k2] this] False show ?thesis by auto
    qed (auto simp: evald_def)
    then obtain r st3 where r: "(if ?rd \<noteq> Null then expr_calc_value_by scv ?rd st2 else Some (TNo, st2)) =
          Some (r, st3)" "keeps {} st2 st3" "evald st3 ?rd"
        "r = (if ?rd = Null then TNo else expr_value (syms st3) ?rd)" by blast
    define r' where "r' = (if r = TMod \<and> sym_get_type s st3 = S_BOOLEAN then TYes else r)"
    define st4 where "st4 = set_rev_dep_tri s r' st3"
    have k34: "keeps X st3 st4" unfolding st4_def by (rule keeps_set_rev_dep[OF sX])
    have k23: "keeps X st2 st3" by (rule keeps_empty[OF r(2)])
    have k3: "keeps X st st3" by (rule keeps_trans[OF k2 k23])
    have k4: "keeps X st st4" by (rule keeps_trans[OF k3 k34])
    have res: "sym_calc_visibility scv s st = Some st4"
      unfolding sym_calc_visibility_def p(1)
      using False keeps_sym(9)[OF k2, of s]
      by (simp only: Option.bind.simps prod.case Let_def t'_def[symmetric] st2_def[symmetric] if_False
          keeps_sym(5)[OF k2] r(1) r'_def[symmetric] st4_def)
    have "visible (syms st4 s) = visible_spec st'' s \<and> rev_dep_tri (syms st4 s) = rev_dep_spec st'' s"
      if "reads_none X st s" "modules_settled X st" "keeps X st4 st''" "valid st s" for st''
    proof -
      note k3'' = keeps_trans[OF k34 that(3)]
      note k'' = keeps_trans[OF k3 k3'']
      have "visible (syms st4 s) = visible (syms st3 s)" by (simp add: st4_def)
      also have "\<dots> = visible (syms st2 s)"
        using keeps_visible(1)[OF r(2), of s] keeps_valid[OF k2 that(4)] False keeps_sym(9)[OF k2, of s]
        by simp
      also have "\<dots> = t'" by (simp add: st2_def)
      also have "t' = visible_spec st'' s"
        by (rule vis[OF that(1,2) keeps_trans[OF k12 keeps_trans[OF k23 k3'']]])
      finally have v4: "visible (syms st4 s) = visible_spec st'' s" .
      have rr: "r = (if rev_dep_expr (syms st'' s) = Null then TNo
            else expr_value (syms st'') (rev_dep_expr (syms st'' s)))"
        using r(4) value_keeps[OF k3'' r(3)] that(1) keeps_sym(5)[OF k'', of s]
        by (simp add: reads_none_def)
      have "sym_get_type s st3 = S_BOOLEAN \<longleftrightarrow> two_valued_type st'' s"
        using False keeps_sym(2,9)[OF k3, of s] keeps_sym(2,9)[OF k'', of s]
          settled_keeps[OF that(2) k3] settled_keeps[OF that(2) k'']
        by (simp add: get_type_two_valued two_valued_type_def)
      then have rd: "rev_dep_tri (syms st4 s) = rev_dep_spec st'' s"
        by (simp add: st4_def r'_def rev_dep_spec_def round_up_def rr[symmetric])
      with v4 show ?thesis by simp
    qed
    then show ?thesis using res k4 by blast
  qed
qed

end

end
