(* ===== verification/SymSpec.thy ===== *)
theory SymSpec
  imports SymTotal
begin

text \<open>
  The body of \<open>sym_calc_value\<close> under the contract, and the interpretation of the contract on
  \<open>sym_calc_value\<close> itself.
\<close>

lemma in_calc_flags [simp]:
  "SYMBOL_WRITE \<in> calc_flags" "SYMBOL_VALID \<in> calc_flags" "SYMBOL_CHANGED \<in> calc_flags"
  by (simp_all add: calc_flags_def)

context calculator
begin

lemma wf_choice_of: "ready st \<Longrightarrow> alloc st s \<Longrightarrow> sym_is_choice (syms st s) \<Longrightarrow> wf_choice st s"
  using ready_wf[of st] unfolding wf_calc_def by blast

lemma value_visibility:
  assumes "ready st" "alloc st d" "sym_is_choice_value (syms st d)"
  shows "\<exists>st'. sym_calc_visibility scv d st = Some st' \<and> keeps {} st st'"
  using visibility_ok[OF assms(1,2), of "{}"] assms(3) by (auto simp: exempt_def)

lemma choice_user_ok:
  assumes "ready st" "\<And>d. v = VSym d \<Longrightarrow> alloc st d \<and> sym_is_choice_value (syms st d)"
  shows "\<exists>u st'. choice_user_value scv v st = Some (u, st') \<and> keeps {} st st'"
proof (cases v)
  case (VSym d)
  with value_visibility[of st d] assms show ?thesis by auto
qed auto

lemma first_visible_value_ok:
  "ready st \<Longrightarrow> \<forall>d\<in>set ds. alloc st d \<and> sym_is_choice_value (syms st d) \<Longrightarrow>
   \<exists>u st'. first_visible_value scv ds st = Some (u, st') \<and> keeps {} st st'"
proof (induction ds arbitrary: st)
  case (Cons d ds)
  obtain st1 where v: "sym_calc_visibility scv d st = Some st1" "keeps {} st st1"
    using value_visibility[of st d] Cons.prems by auto
  obtain u st' where "first_visible_value scv ds st1 = Some (u, st')" "keeps {} st1 st'"
    using Cons.IH[OF ready_empty[OF Cons.prems(1) v(2)]] Cons.prems(2)
    by (auto simp: keeps_alloc[OF v(2)] keeps_sym(9)[OF v(2)])
  with v keeps_trans[OF v(2)] show ?case by auto
qed simp

lemma choice_defaults_ok:
  "ready st \<Longrightarrow> alloc st s \<Longrightarrow> s \<notin> static_syms \<Longrightarrow> sym_is_choice (syms st s) \<Longrightarrow>
   set ps \<subseteq> set (sym_prop (syms st s)) \<Longrightarrow>
   \<exists>d st'. choice_defaults scv ps st = Some (d, st') \<and> keeps {s} st st'"
proof (induction ps arbitrary: st)
  case (Cons p ps)
  have ex: "exempt {s} st s" using Cons.prems(3) by (simp add: exempt_def)
  have next_ok: "\<exists>d st'. choice_defaults scv ps st1 = Some (d, st') \<and> keeps {s} st1 st'"
    if "keeps {s} st st1" for st1
    using Cons.IH[OF ready_exempt[OF Cons.prems(1) ex that]] Cons.prems
    by (simp add: keeps_alloc[OF that] keeps_sym[OF that])
  show ?case
  proof (cases "prop_type (props st p) = P_DEFAULT")
    case False
    with next_ok[OF keeps_refl] show ?thesis by simp
  next
    case True
    obtain t st1 where v: "calc_prop_visible scv p st = Some (t, st1)" "keeps {s} st st1"
      using prop_visible_ok[OF Cons.prems(1,2) _ ex, of p] Cons.prems(5) by auto
    show ?thesis
    proof (cases "t = TNo")
      case t: True
      from next_ok[OF v(2)] obtain d st' where "choice_defaults scv ps st1 = Some (d, st')"
          "keeps {s} st1 st'" by blast
      with True t v keeps_trans[OF v(2)] show ?thesis by auto
    next
      case t: False
      obtain d where d: "prop_get_symbol (props st p) = Some d" "alloc st d"
          "sym_is_choice_value (syms st d)"
        using wf_choice_of[OF Cons.prems(1,2,4)] True Cons.prems(5) by (auto simp: wf_choice_def)
      obtain st2 where v2: "sym_calc_visibility scv d st1 = Some st2" "keeps {} st1 st2"
        using value_visibility[OF ready_exempt[OF Cons.prems(1) ex v(2)], of d] d
        by (auto simp: keeps_alloc[OF v(2)] keeps_sym(9)[OF v(2)])
      have k2: "keeps {s} st st2" by (rule keeps_trans[OF v(2) keeps_empty[OF v2(2)]])
      obtain e st' where "choice_defaults scv ps st2 = Some (e, st')" "keeps {s} st2 st'"
        using next_ok[OF k2] by blast
      with True t v v2 d k2 keeps_trans[OF k2] keeps_prop(7)[OF v(2), of p] show ?thesis by auto
    qed
  qed
qed simp

lemma calc_choice_ok:
  assumes "ready st" "alloc st s" "s \<notin> static_syms" "sym_is_choice (syms st s)"
  shows "\<exists>d st'. sym_calc_choice scv s st = Some (d, st') \<and> keeps {s} st st'"
proof -
  have ex: "exempt {s} st s" using assms(3) by (simp add: exempt_def)
  note wf = wf_choice_of[OF assms(1,2,4), unfolded wf_choice_def]
  obtain u st1 where u: "choice_user_value scv (sv_val (def (syms st s) S_DEF_USER)) st = Some (u, st1)"
      "keeps {} st st1"
    using choice_user_ok[OF assms(1), of "sv_val (def (syms st s) S_DEF_USER)"] wf by auto
  have r1: "ready st1" by (rule ready_empty[OF assms(1) u(2)])
  obtain d st2 where d: "choice_defaults scv (sym_prop (syms st1 s)) st1 = Some (d, st2)"
      "keeps {s} st1 st2"
    using choice_defaults_ok[OF r1, of s "sym_prop (syms st1 s)"] assms(2-4)
    by (auto simp: keeps_alloc[OF u(2)] keeps_sym(8)[OF u(2)])
  have k2: "keeps {s} st st2" by (rule keeps_trans[OF keeps_empty[OF u(2)] d(2)])
  obtain p where p: "sym_get_choice_prop s st = Some p"
      "\<forall>d\<in>set (expr_list_syms (prop_expr (props st p))). alloc st d \<and> sym_is_choice_value (syms st d)"
    using wf by blast
  obtain f st3 where f: "first_visible_value scv (expr_list_syms (prop_expr (props st2 p))) st2 = Some (f, st3)"
      "keeps {} st2 st3"
    using first_visible_value_ok[OF ready_exempt[OF assms(1) ex k2],
        of "expr_list_syms (prop_expr (props st2 p))"] p(2)
    by (auto simp: keeps_alloc[OF k2] keeps_sym(9)[OF k2] keeps_prop(5)[OF k2])
  have k3: "keeps {s} st st3" by (rule keeps_trans[OF k2 keeps_empty[OF f(2)]])
  have k4: "keeps {s} st (upd_sym s (\<lambda>y. y\<lparr>curr := (curr y)\<lparr>sv_tri := TNo\<rparr>\<rparr>) st3)"
    by (rule keeps_trans[OF k3 keeps_reset_curr_tri]) simp
  have "sym_get_choice_prop s st2 = Some p" using p(1) by (simp add: keeps_choice_prop[OF k2])
  with u d f k2 k3 k4 keeps_empty[OF u(2), of "{s}"] show ?thesis
    by (auto simp: sym_calc_choice_def simp del: not_None_eq)
qed

lemma select_choice_ok:
  assumes "ready st" "alloc st s" "s \<notin> static_syms"
  shows "\<exists>st'. select_choice scv s st = Some st' \<and> keeps {s} st st' \<and>
    (\<not> sym_is_choice (syms st s) \<longrightarrow> st' = st)"
proof (cases "sym_is_choice (syms st s) \<and> sv_tri (curr (syms st s)) = TYes")
  case True
  then obtain d st1 where d: "sym_calc_choice scv s st = Some (d, st1)" "keeps {s} st st1"
    using calc_choice_ok[OF assms] by blast
  then show ?thesis
    using True keeps_trans[OF d(2) keeps_set_curr_val[of s "{s}"]] by (simp add: select_choice_def)
qed (auto simp: select_choice_def)

lemma range_val_ok:
  "ready st \<Longrightarrow> alloc st s \<Longrightarrow>
   \<exists>v st'. sym_get_range_val scv s base st = Some (v, st') \<and> keeps {} st st'"
  using scv_ok[of st s] by (auto simp: sym_get_range_val_def)

lemma validate_range_ok:
  assumes "ready st" "alloc st s" "s \<notin> static_syms"
  shows "\<exists>st'. sym_validate_range scv s st = Some st' \<and> keeps {s} st st' \<and>
    (range_base (sym_type (syms st s)) = None \<longrightarrow> st' = st)"
proof (cases "range_base (sym_type (syms st s))")
  case None
  then show ?thesis by (simp add: sym_validate_range_def)
next
  case (Some base)
  have ex: "exempt {s} st s" using assms(3) by (simp add: exempt_def)
  obtain po st1 where f: "sym_get_range_prop scv s st = Some (po, st1)" "keeps {s} st st1"
      "\<And>p. po = Some p \<Longrightarrow> p \<in> set (sym_prop (syms st s)) \<and> prop_type (props st p) = P_RANGE"
    using first_visible_ok[OF assms(1,2) subset_refl ex, of P_RANGE]
    unfolding sym_get_range_prop_def by blast
  have r1: "ready st1" by (rule ready_exempt[OF assms(1) ex f(2)])
  show ?thesis
  proof (cases po)
    case None
    with f Some show ?thesis by (simp add: sym_validate_range_def)
  next
    case po: (Some p)
    note own = own_prop[OF assms(1,2) conjunct1[OF f(3)[OF po]]]
    obtain lo hi where b: "range_bounds (prop_expr (props st p)) = Some (lo, hi)"
      using own(4) f(3)[OF po] by auto
    then have al: "alloc st lo" "alloc st hi"
      using own(3) by (cases "prop_expr (props st p)"; simp)+
    obtain v1 st2 where v1: "sym_get_range_val scv lo base st1 = Some (v1, st2)" "keeps {} st1 st2"
      using range_val_ok[OF r1, of lo base] al(1) by (auto simp: keeps_alloc[OF f(2)])
    have k2: "keeps {s} st st2" by (rule keeps_trans[OF f(2) keeps_empty[OF v1(2)]])
    obtain v3 st3 where v3: "sym_get_range_val scv hi base st2 = Some (v3, st3)" "keeps {} st2 st3"
      using range_val_ok[OF ready_empty[OF r1 v1(2)], of hi base] al(2) by (auto simp: keeps_alloc[OF k2])
    have k3: "keeps {s} st st3" by (rule keeps_trans[OF k2 keeps_empty[OF v3(2)]])
    note dup = keeps_trans[OF k2 keeps_strdup_curr[of s "{s}"]] keeps_trans[OF k3 keeps_strdup_curr[of s "{s}"]]
    show ?thesis
      using Some po f(1) v1(1) v3(1) b k2 k3 dup
      by (auto simp: sym_validate_range_def Let_def keeps_prop(5)[OF f(2)])
  qed
qed

lemma default_tri_ok:
  assumes "ready st" "alloc st s" "s \<notin> static_syms" "sv_tri newval = TNo"
  shows "\<exists>v st'. calc_default_tri scv s newval st = Some (v, st') \<and> keeps {s} st st' \<and>
    steady st st' s \<and>
    (reads_none {s} st s \<longrightarrow> \<not> sym_is_choice (syms st s) \<longrightarrow>
     \<not> sym_is_choice_value (syms st s) \<longrightarrow> valid st s \<longrightarrow>
       (\<forall>st''. keeps {s} st' st'' \<longrightarrow> sv_tri v = default_spec st'' s))"
proof -
  define st1 where "st1 = (if visible (syms st s) \<noteq> TNo \<or> rev_dep_tri (syms st s) \<noteq> TNo
      then set_flags {SYMBOL_WRITE} s st else st)"
  have k1: "keeps {} st st1" by (simp add: st1_def keeps_set_flags)
  have r1: "ready st1" by (rule ready_empty[OF assms(1) k1])
  show ?thesis
  proof (cases "sym_is_choice (syms st s)")
    case True
    then have "calc_default_tri scv s newval st = Some (newval, st1)"
      by (simp add: calc_default_tri_def Let_def st1_def)
    with True keeps_empty[OF k1] steady_keeps[OF k1] show ?thesis by blast
  next
    case False
    then have eq: "calc_default_tri scv s newval st =
        do { (po, st2) \<leftarrow> sym_get_default_prop scv s st1;
             case po of
               None \<Rightarrow> Some (newval, st2)
             | Some p \<Rightarrow>
                 do { (v, st4) \<leftarrow> expr_calc_value_by scv
                        (prop_expr (props (set_flags {SYMBOL_WRITE} s st2) p)) (set_flags {SYMBOL_WRITE} s st2);
                      Some (newval\<lparr>sv_tri := EXPR_AND v (visible_tri (props st4 p))\<rparr>, st4) } }"
      unfolding calc_default_tri_def Let_def st1_def by (simp only: if_False)
    have ex: "exempt {s} st1 s" using assms(3) by (simp add: exempt_def)
    have al: "alloc st1 s" using assms(2) by (simp add: keeps_alloc[OF k1])
    obtain po st2 where f: "sym_get_default_prop scv s st1 = Some (po, st2)" "keeps {s} st1 st2"
        "steady st1 st2 s" and
      found: "\<And>p. po = Some p \<Longrightarrow> p \<in> set (sym_prop (syms st1 s)) \<and>
          visible_tri (props st2 p) = expr_value (syms st2) (visible_expr (props st1 p)) \<and>
          evald st2 (visible_expr (props st1 p))" and
      later: "\<And>st''. \<forall>p\<in>set (sym_prop (syms st1 s)). eval_syms (visible_expr (props st1 p)) \<inter> {s} = {} \<Longrightarrow>
        keeps {s} st2 st'' \<Longrightarrow> find_prop P_DEFAULT st'' (sym_prop (syms st1 s)) = po"
      using first_visible_ok[OF r1 al subset_refl ex, of P_DEFAULT]
      unfolding sym_get_default_prop_def by blast
    have k2: "keeps {s} st st2" by (rule keeps_trans[OF keeps_empty[OF k1] f(2)])
    have s2: "steady st st2 s" by (rule steady_trans[OF steady_keeps[OF k1] f(3) k1])
    have rn: "reads_none {s} st1 s" if "reads_none {s} st s"
      using that by (simp add: reads_none_def keeps_sym[OF k1] keeps_prop[OF k1])
    show ?thesis
    proof (cases po)
      case None
      have "default_spec st'' s = TNo" if "reads_none {s} st s" "keeps {s} st2 st''" for st''
        using later[OF _ that(2)] rn[OF that(1)] None keeps_sym(4)[OF keeps_trans[OF f(2) that(2)], of s]
        by (simp add: default_spec_def reads_none_def)
      with None f k2 s2 assms(4) show ?thesis by (auto simp: eq)
    next
      case (Some p)
      note p = found[OF Some]
      define st3 where "st3 = set_flags {SYMBOL_WRITE} s st2"
      have k3: "keeps {} st2 st3" by (simp add: st3_def keeps_set_flags)
      have k23: "keeps {s} st1 st3" by (rule keeps_trans[OF f(2) keeps_empty[OF k3]])
      have r3: "ready st3" by (rule ready_exempt[OF r1 ex k23])
      have "\<forall>t\<in>expr_syms (prop_expr (props st3 p)). alloc st3 t"
        using own_prop(3)[OF r1 al conjunct1[OF p]]
        by (simp add: keeps_prop(5)[OF k23] keeps_alloc[OF k23])
      then obtain st4 where e: "expr_calc_value_by scv (prop_expr (props st3 p)) st3 =
            Some (expr_value (syms st4) (prop_expr (props st3 p)), st4)"
          "keeps {} st3 st4" "evald st4 (prop_expr (props st3 p))"
        using expr_ok[OF r3] by blast
      let ?v = "expr_value (syms st4) (prop_expr (props st3 p))"
      have k34: "keeps {} st2 st4" by (rule keeps_trans[OF k3 e(2)])
      have k4: "keeps {s} st st4" by (rule keeps_trans[OF k2 keeps_empty[OF k34]])
      have s4: "steady st st4 s" by (rule steady_trans[OF s2 steady_keeps[OF k34] k2])
      have "EXPR_AND ?v (visible_tri (props st4 p)) = default_spec st'' s"
        if "reads_none {s} st s" "keeps {s} st4 st''" "visible_tri (props st4 p) = visible_tri (props st2 p)"
        for st''
      proof -
        have fut: "keeps {s} st2 st''" "keeps {s} st1 st''"
          using keeps_trans[OF keeps_empty[OF k34] that(2)] keeps_trans[OF f(2)] by blast+
        have none: "eval_syms (visible_expr (props st1 p)) \<inter> {s} = {}"
          "eval_syms (prop_expr (props st3 p)) \<inter> {s} = {}"
          using rn[OF that(1)] p keeps_prop(5)[OF k23, of p] by (auto simp: reads_none_def)
        have "find_prop P_DEFAULT st'' (sym_prop (syms st'' s)) = Some p"
          using later[OF _ fut(1)] rn[OF that(1)] Some keeps_sym(4)[OF fut(2), of s]
          by (simp add: reads_none_def)
        moreover have "expr_value (syms st'') (prop_expr (props st'' p)) = ?v"
          using value_keeps[OF that(2) e(3) none(2)] keeps_prop(5)[OF fut(2), of p]
            keeps_prop(5)[OF k23, of p] by simp
        moreover have "expr_value (syms st'') (visible_expr (props st'' p)) = visible_tri (props st4 p)"
          using value_keeps[OF fut(1) _ none(1)] p that(3) keeps_prop(4)[OF fut(2), of p] by simp
        ultimately show ?thesis by (simp add: default_spec_def EXPR_AND_min)
      qed
      moreover have "visible_tri (props st4 p) = visible_tri (props st2 p)"
        if "valid st s" "\<not> sym_is_choice_value (syms st s)"
        using keeps_visible(3)[OF k34 keeps_valid[OF k2 that(1)], of p] that(2)
          own_prop(1)[OF r1 al conjunct1[OF p]] keeps_sym(9)[OF k2, of s] keeps_prop(1)[OF f(2), of p]
        by simp
      ultimately show ?thesis
        using Some f k4 s4 e by (auto simp: eq st3_def[symmetric])
    qed
  qed
qed

lemma promote_bool:
  "sym_type (syms st s) = S_BOOLEAN \<Longrightarrow> sv_tri (promote s st v) \<noteq> TMod"
  by (simp add: promote_def sym_get_type_def Let_def)

lemma promote_round:
  assumes "\<not> sym_is_choice_value (syms st s)" "two_valued_type st s = two_valued_type st'' s"
  shows "sv_tri (promote s st v) = round_up st'' s (sv_tri v)"
  using assms by (simp add: promote_def round_up_def get_type_two_valued)

lemma settled_type:
  assumes "keeps X st st'" "modules_settled X st"
  shows "two_valued_type st' s = two_valued_type st s"
  using settled_keeps[OF assms(2,1)] keeps_sym(2)[OF assms(1), of s] by (simp add: two_valued_type_def)

lemma new_tristate_ok:
  assumes "ready st" "alloc st s" "s \<notin> static_syms" "sv_tri newval = TNo"
  shows "\<exists>v st'. calc_new_tristate scv s newval st = Some (v, st') \<and> keeps {s} st st' \<and>
    steady st st' s \<and> (sym_type (syms st s) = S_BOOLEAN \<longrightarrow> sv_tri v \<noteq> TMod) \<and>
    (reads_none {s} st s \<longrightarrow> \<not> sym_is_choice (syms st s) \<longrightarrow>
     \<not> sym_is_choice_value (syms st s) \<longrightarrow> valid st s \<longrightarrow> modules_settled {s} st \<longrightarrow>
     (\<forall>st''. keeps {s} st st'' \<longrightarrow> visible (syms st s) = visible_spec st'' s \<and>
        rev_dep_tri (syms st s) = rev_dep_spec st'' s) \<longrightarrow>
     (\<forall>st''. keeps {s} st' st'' \<longrightarrow> sv_tri v = value_spec st'' s))"
proof (cases "sym_is_choice_value (syms st s) \<and> visible (syms st s) = TYes")
  case True
  obtain p c where "sym_get_choice_prop s st = Some p" "prop_get_symbol (props st p) = Some c"
    using ready_wf[OF assms(1)] assms(2) True unfolding wf_calc_def wf_choice_value_def by blast
  with True show ?thesis
    by (auto simp: calc_new_tristate_def Let_def promote_bool steady_def)
next
  case False
  let ?user = "visible (syms st s) \<noteq> TNo \<and> sym_has_value (syms st s)"
  let ?uval = "EXPR_AND (sv_tri (def (syms st s) S_DEF_USER)) (visible (syms st s))"
  have "\<exists>v st1. (if ?user then Some (newval\<lparr>sv_tri := ?uval\<rparr>, set_flags {SYMBOL_WRITE} s st)
        else calc_default_tri scv s newval st) = Some (v, st1) \<and> keeps {s} st st1 \<and> steady st st1 s \<and>
      (reads_none {s} st s \<longrightarrow> \<not> sym_is_choice (syms st s) \<longrightarrow>
       \<not> sym_is_choice_value (syms st s) \<longrightarrow> valid st s \<longrightarrow>
       (\<forall>st''. keeps {s} st1 st'' \<longrightarrow> sv_tri v = (if ?user then ?uval else default_spec st'' s)))"
  proof (cases ?user)
    case True
    have "keeps {} st (set_flags {SYMBOL_WRITE} s st)" by (rule keeps_set_flags) simp
    from keeps_empty[OF this] steady_keeps[OF this] True show ?thesis by auto
  next
    case no: False
    from default_tri_ok[OF assms] obtain v st' where
      "calc_default_tri scv s newval st = Some (v, st')" "keeps {s} st st'" "steady st st' s"
      "reads_none {s} st s \<longrightarrow> \<not> sym_is_choice (syms st s) \<longrightarrow>
        \<not> sym_is_choice_value (syms st s) \<longrightarrow> valid st s \<longrightarrow>
        (\<forall>st''. keeps {s} st' st'' \<longrightarrow> sv_tri v = default_spec st'' s)" by blast
    with no show ?thesis by auto
  qed
  then obtain v st1 where v: "(if ?user then Some (newval\<lparr>sv_tri := ?uval\<rparr>, set_flags {SYMBOL_WRITE} s st)
        else calc_default_tri scv s newval st) = Some (v, st1)" "keeps {s} st st1" "steady st st1 s" and
      spec: "reads_none {s} st s \<longrightarrow> \<not> sym_is_choice (syms st s) \<longrightarrow>
       \<not> sym_is_choice_value (syms st s) \<longrightarrow> valid st s \<longrightarrow>
       (\<forall>st''. keeps {s} st1 st'' \<longrightarrow> sv_tri v = (if ?user then ?uval else default_spec st'' s))"
    by blast
  let ?v = "v\<lparr>sv_tri := EXPR_OR (sv_tri v) (rev_dep_tri (syms st1 s))\<rparr>"
  have res: "calc_new_tristate scv s newval st = Some (promote s st1 ?v, st1)"
    unfolding calc_new_tristate_def Let_def if_not_P[OF False] v(1) by simp
  have "sym_type (syms st s) = S_BOOLEAN \<longrightarrow> sv_tri (promote s st1 ?v) \<noteq> TMod"
    by (simp add: promote_bool keeps_sym(2)[OF v(2)])
  moreover have "sv_tri (promote s st1 ?v) = value_spec st'' s"
    if h: "reads_none {s} st s" "\<not> sym_is_choice (syms st s)" "\<not> sym_is_choice_value (syms st s)"
      "valid st s" "modules_settled {s} st"
      and vis: "\<forall>st''. keeps {s} st st'' \<longrightarrow> visible (syms st s) = visible_spec st'' s \<and>
        rev_dep_tri (syms st s) = rev_dep_spec st'' s"
      and k: "keeps {s} st1 st''" for st''
  proof -
    note k'' = keeps_trans[OF v(2) k]
    have ty: "two_valued_type st1 s = two_valued_type st'' s"
      using settled_type[OF v(2) h(5)] settled_type[OF k'' h(5)] by simp
    have "rev_dep_tri (syms st1 s) = rev_dep_spec st'' s"
      using v(3) h(3,4) vis k'' by (auto simp: steady_def)
    moreover have "sv_tri v = (if visible_spec st'' s \<noteq> TNo \<and> sym_has_value (syms st'' s)
        then min (sv_tri (def (syms st'' s) S_DEF_USER)) (visible_spec st'' s) else default_spec st'' s)"
      using spec h k vis k'' keeps_sym(3,10)[OF k'', of s] by (auto simp: EXPR_AND_min)
    ultimately show ?thesis
      using promote_round[of st1 s st'' ?v] ty h(3) keeps_sym(9)[OF v(2), of s]
      by (simp add: value_spec_def EXPR_OR_max)
  qed
  ultimately show ?thesis using res v(2,3) by blast
qed

lemma new_string_ok:
  assumes "ready st" "alloc st s" "s \<notin> static_syms"
  shows "\<exists>v st'. calc_new_string scv s newval st = Some (v, st') \<and> keeps {s} st st' \<and> steady st st' s"
proof -
  define st1 where "st1 = (if visible (syms st s) \<noteq> TNo then set_flags {SYMBOL_WRITE} s st else st)"
  have k1: "keeps {} st st1" by (simp add: st1_def keeps_set_flags)
  have r1: "ready st1" by (rule ready_empty[OF assms(1) k1])
  have al: "alloc st1 s" using assms(2) by (simp add: keeps_alloc[OF k1])
  have ex: "exempt {s} st1 s" using assms(3) by (simp add: exempt_def)
  obtain po st2 where f: "sym_get_default_prop scv s st1 = Some (po, st2)" "keeps {s} st1 st2"
      "steady st1 st2 s" "\<And>p. po = Some p \<Longrightarrow> p \<in> set (sym_prop (syms st1 s))"
    using first_visible_ok[OF r1 al subset_refl ex, of P_DEFAULT]
    unfolding sym_get_default_prop_def by blast
  have k2: "keeps {s} st st2" by (rule keeps_trans[OF keeps_empty[OF k1] f(2)])
  have s2: "steady st st2 s" by (rule steady_trans[OF steady_keeps[OF k1] f(3) k1])
  show ?thesis
  proof (cases "visible (syms st s) \<noteq> TNo \<and> sym_has_value (syms st s)")
    case True
    then have "calc_new_string scv s newval st =
        Some (newval\<lparr>sv_val := sv_val (def (syms st s) S_DEF_USER)\<rparr>, st1)"
      unfolding calc_new_string_def Let_def st1_def by simp
    with keeps_empty[OF k1] steady_keeps[OF k1] show ?thesis by blast
  next
    case False
    then have eq: "calc_new_string scv s newval st =
        Option.bind (sym_get_default_prop scv s st1) (\<lambda>(po, st2).
                case po of
                  None \<Rightarrow> Some (newval, st2)
                | Some p \<Rightarrow>
                    (case prop_get_symbol (props st2 p) of
                       None \<Rightarrow> Some (newval, st2)
                     | Some d \<Rightarrow>
                         do { st3 \<leftarrow> scv d (set_flags {SYMBOL_WRITE} s st2);
                              Some (newval\<lparr>sv_val := sv_val (curr (syms st3 d))\<rparr>, st3) }))"
      unfolding calc_new_string_def Let_def st1_def by (simp only: if_False)
    show ?thesis
    proof (cases "po = None \<or> (\<exists>p. po = Some p \<and> prop_get_symbol (props st2 p) = None)")
      case True
      then have "calc_new_string scv s newval st = Some (newval, st2)" by (auto simp: eq f(1))
      with k2 s2 show ?thesis by blast
    next
      case False
      then obtain p d where p: "po = Some p" "prop_get_symbol (props st2 p) = Some d" by auto
      have "prop_get_symbol (props st1 p) = Some d" using p(2) keeps_prop(7)[OF f(2), of p] by simp
      then have "prop_expr (props st1 p) = E_SYMBOL d"
        by (auto simp: prop_get_symbol_def split: expr.splits)
      then have "alloc st1 d" using own_prop(3)[OF r1 al f(4)[OF p(1)]] by simp
      let ?st3 = "set_flags {SYMBOL_WRITE} s st2"
      have k23: "keeps {} st2 ?st3" by (rule keeps_set_flags) simp
      have k3: "keeps {s} st1 ?st3" by (rule keeps_trans[OF f(2) keeps_empty[OF k23]])
      obtain st4 where c: "scv d ?st3 = Some st4" "keeps {} ?st3 st4"
        using scv_ok[OF ready_exempt[OF r1 ex k3], of d] \<open>alloc st1 d\<close> by (auto simp: keeps_alloc[OF k3])
      have k24: "keeps {} st2 st4" by (rule keeps_trans[OF k23 c(2)])
      have "calc_new_string scv s newval st = Some (newval\<lparr>sv_val := sv_val (curr (syms st4 d))\<rparr>, st4)"
        by (simp add: eq f(1) p c(1))
      with keeps_trans[OF k2 keeps_empty[OF k24]] steady_trans[OF s2 steady_keeps[OF k24] k2]
      show ?thesis by blast
    qed
  qed
qed

lemma new_value_ok:
  assumes "ready st" "alloc st s" "s \<notin> static_syms" "sv_tri newval = TNo"
  shows "\<exists>v st'. calc_new_value scv s newval st = Some (v, st') \<and> keeps {s} st st' \<and>
    steady st st' s \<and> (sym_type (syms st s) = S_BOOLEAN \<longrightarrow> sv_tri v \<noteq> TMod) \<and>
    (sym_type (syms st s) = S_BOOLEAN \<or> sym_type (syms st s) = S_TRISTATE \<longrightarrow>
     reads_none {s} st s \<longrightarrow> \<not> sym_is_choice (syms st s) \<longrightarrow>
     \<not> sym_is_choice_value (syms st s) \<longrightarrow> valid st s \<longrightarrow> modules_settled {s} st \<longrightarrow>
     (\<forall>st''. keeps {s} st st'' \<longrightarrow> visible (syms st s) = visible_spec st'' s \<and>
        rev_dep_tri (syms st s) = rev_dep_spec st'' s) \<longrightarrow>
     (\<forall>st''. keeps {s} st' st'' \<longrightarrow> sv_tri v = value_spec st'' s))"
proof (cases "sym_type (syms st s) = S_BOOLEAN \<or> sym_type (syms st s) = S_TRISTATE")
  case True
  then have "calc_new_value scv s newval st = calc_new_tristate scv s newval st"
    by (auto simp: calc_new_value_def sym_get_type_def Let_def)
  then show ?thesis using new_tristate_ok[OF assms] by (simp only:) blast
next
  case False
  then have ty: "sym_get_type s st = sym_type (syms st s)"
    by (simp add: sym_get_type_def Let_def)
  show ?thesis
  proof (cases "sym_type (syms st s) \<in> {S_STRING, S_HEX, S_INT}")
    case True
    then have "calc_new_value scv s newval st = calc_new_string scv s newval st"
      using ty by (auto simp: calc_new_value_def)
    with new_string_ok[OF assms(1-3)] False show ?thesis by simp
  next
    case no: False
    then have "calc_new_value scv s newval st = Some (newval, st)"
      using ty False by (cases "sym_type (syms st s)") (simp_all add: calc_new_value_def)
    with False show ?thesis by (simp add: steady_def)
  qed
qed

end

subsection \<open>The end of the body\<close>

text \<open>Noting a change touches only flags, and \<open>modules_val\<close>.\<close>

definition same_values :: "kstate \<Rightarrow> kstate \<Rightarrow> bool" where
  "same_values st st' \<longleftrightarrow> (\<forall>t. curr (syms st' t) = curr (syms st t) \<and>
     visible (syms st' t) = visible (syms st t) \<and> rev_dep_tri (syms st' t) = rev_dep_tri (syms st t))"

lemma same_values_refl [simp]: "same_values st st"
  by (simp add: same_values_def)

lemma same_values_trans: "same_values a b \<Longrightarrow> same_values b c \<Longrightarrow> same_values a c"
  by (simp add: same_values_def)

lemma set_changed_same: "same_values st (sym_set_changed s st)"
proof -
  have fold: "syms (fold mark_menu_changed ps st) = syms st" for ps st
    by (induction ps arbitrary: st) (auto simp: mark_menu_changed_def split: option.split)
  show ?thesis by (simp add: same_values_def sym_set_changed_def Let_def fold set_flags_def)
qed

lemma fold_same: "(\<And>x st. same_values st (f x st)) \<Longrightarrow> same_values st (fold f xs st)"
  by (induction xs arbitrary: st) (auto intro: same_values_trans)

lemma note_change_same: "same_values st (note_change s v st)"
proof -
  have "same_values st ((sym_set_all_changed (sym_set_changed s st))\<lparr>modules_val := t\<rparr>)" for t
    using same_values_trans[OF set_changed_same[of st s] fold_same[OF set_changed_same]]
    by (simp add: same_values_def sym_set_all_changed_def)
  then show ?thesis
    by (simp add: note_change_def Let_def set_changed_same)
qed

lemma propagate_same: "same_values st (propagate_flags fl c st)"
proof -
  have "same_values st (set_flags fl c st)" by (simp add: same_values_def set_flags_def)
  then show ?thesis
    by (auto simp: propagate_flags_def Let_def intro: same_values_trans[OF _ set_changed_same])
qed

lemma clear_auto_same: "same_values st (clear_auto_write s st)"
  by (simp add: same_values_def clear_auto_write_def clear_flags_def)

definition meets_spec :: "kstate \<Rightarrow> symptr \<Rightarrow> bool" where
  "meets_spec st s \<longleftrightarrow>
     visible (syms st s) = visible_spec st s \<and> rev_dep_tri (syms st s) = rev_dep_spec st s \<and>
     sym_get_tristate_value (syms st s) = value_spec st s"

definition plain_tristate :: "kstate \<Rightarrow> symptr \<Rightarrow> bool" where
  "plain_tristate st s \<longleftrightarrow>
     (sym_type (syms st s) = S_BOOLEAN \<or> sym_type (syms st s) = S_TRISTATE) \<and>
     \<not> sym_is_choice (syms st s) \<and> \<not> sym_is_choice_value (syms st s)"

lemma keeps_set_curr_same: "syms (set_curr v s st) s = (syms st s)\<lparr>curr := v\<rparr>"
  by (simp add: set_curr_def)

context calculator
begin

lemma propagate_ok:
  assumes "ready st" "alloc st s"
  shows "\<exists>st'. propagate_choice s st = Some st' \<and> keeps X st st' \<and> same_values st st'"
proof (cases "sym_is_choice (syms st s)")
  case True
  obtain p where "sym_get_choice_prop s st = Some p"
    using wf_choice_of[OF assms True] by (auto simp: wf_choice_def)
  moreover have "keeps X st (fold (propagate_flags fl) xs st)" if "fl \<subseteq> calc_flags" for fl xs
    by (rule keeps_fold) (rule keeps_propagate[OF that])
  moreover have "flags (syms st s) \<inter> {SYMBOL_CHANGED, SYMBOL_WRITE} \<subseteq> calc_flags"
    by (auto simp: calc_flags_def)
  ultimately show ?thesis
    using True fold_same[OF propagate_same] by (simp add: propagate_choice_def Let_def)
qed (simp add: propagate_choice_def)

lemma initial_value_tri:
  assumes "ready st" "initial_value s st = Some v"
  shows "sv_tri v = TNo"
proof -
  have "curr (syms st symbol_no) = curr (init_static symbol_no)"
    "curr (syms st symbol_empty) = curr (init_static symbol_empty)"
    using ready_wf[OF assms(1)] unfolding wf_calc_def by blast+
  then have "sv_tri (curr (syms st symbol_no)) = TNo" "sv_tri (curr (syms st symbol_empty)) = TNo"
    by simp_all
  with assms(2) show ?thesis
    by (auto simp: initial_value_def split: symbol_type.splits)
qed

text \<open>The body returns, keeps what it must, and computes the specified value.\<close>

lemma body_ok:
  assumes "ready st" "alloc st s" "s \<notin> static_syms" "valid st s"
  shows "\<exists>st'. calc_body scv s st = Some st' \<and> keeps {s} st st' \<and>
    (plain_tristate st s \<longrightarrow> reads_none {s} st s \<longrightarrow> modules_settled {s} st \<longrightarrow> meets_spec st' s)"
proof (cases "initial_value s st")
  case None
  then have "\<not> plain_tristate st s"
    by (auto simp: plain_tristate_def initial_value_def)
  moreover have "keeps {s} st (set_curr (name_value s st) s st)"
    by (rule keeps_set_curr) (simp_all add: name_value_def)
  ultimately show ?thesis using None by (simp add: calc_body_def)
next
  case (Some nv)
  note nv = initial_value_tri[OF assms(1) Some]
  have ex: "exempt {s} st s" using assms(3) by (simp add: exempt_def)
  define st1 where "st1 = (if sym_is_choice_value (syms st s) then st else clear_flags {SYMBOL_WRITE} s st)"
  have k1: "keeps {} st st1" by (simp add: st1_def keeps_clear_write)
  note r1 = ready_empty[OF assms(1) k1]
  obtain st2 where v: "sym_calc_visibility scv s st1 = Some st2" "keeps {s} st1 st2" and
    vspec: "reads_none {s} st1 s \<longrightarrow> modules_settled {s} st1 \<longrightarrow> \<not> sym_is_choice_value (syms st1 s) \<longrightarrow>
      valid st1 s \<longrightarrow>
        (\<forall>st''. keeps {s} st2 st'' \<longrightarrow> visible (syms st2 s) = visible_spec st'' s \<and>
           rev_dep_tri (syms st2 s) = rev_dep_spec st'' s)"
    using visibility_ok[OF r1 _ exempt_keeps[OF k1 ex]] assms(2) by (auto simp: keeps_alloc[OF k1])
  have k2: "keeps {s} st st2" by (rule keeps_trans[OF keeps_empty[OF k1] v(2)])
  let ?st2 = "set_curr nv s st2"
  have k22: "keeps {s} st2 ?st2" by (rule keeps_set_curr) (simp_all add: nv)
  have k2': "keeps {s} st ?st2" by (rule keeps_trans[OF k2 k22])
  have r2: "ready ?st2" by (rule ready_exempt[OF assms(1) ex k2'])
  obtain nv' st3 where n: "calc_new_value scv s nv ?st2 = Some (nv', st3)" "keeps {s} ?st2 st3"
      "steady ?st2 st3 s" "sym_type (syms ?st2 s) = S_BOOLEAN \<longrightarrow> sv_tri nv' \<noteq> TMod" and
    nspec: "sym_type (syms ?st2 s) = S_BOOLEAN \<or> sym_type (syms ?st2 s) = S_TRISTATE \<longrightarrow>
     reads_none {s} ?st2 s \<longrightarrow> \<not> sym_is_choice (syms ?st2 s) \<longrightarrow>
     \<not> sym_is_choice_value (syms ?st2 s) \<longrightarrow> valid ?st2 s \<longrightarrow> modules_settled {s} ?st2 \<longrightarrow>
     (\<forall>st''. keeps {s} ?st2 st'' \<longrightarrow> visible (syms ?st2 s) = visible_spec st'' s \<and>
        rev_dep_tri (syms ?st2 s) = rev_dep_spec st'' s) \<longrightarrow>
     (\<forall>st''. keeps {s} st3 st'' \<longrightarrow> sv_tri nv' = value_spec st'' s)"
    using new_value_ok[OF r2 _ assms(3) nv] assms(2) unfolding keeps_alloc[OF k2'] by blast
  have k3: "keeps {s} st st3" by (rule keeps_trans[OF k2' n(2)])
  let ?st3 = "set_curr nv' s st3"
  have k33: "keeps {s} st3 ?st3"
    by (rule keeps_set_curr) (use n(4) in \<open>simp_all add: keeps_sym(2)[OF n(2)]\<close>)
  have k3': "keeps {s} st ?st3" by (rule keeps_trans[OF k3 k33])
  have r3: "ready ?st3" by (rule ready_exempt[OF assms(1) ex k3'])
  obtain st4 where c: "select_choice scv s ?st3 = Some st4" "keeps {s} ?st3 st4"
      "\<not> sym_is_choice (syms ?st3 s) \<longrightarrow> st4 = ?st3"
    using select_choice_ok[OF r3 _ assms(3)] assms(2) unfolding keeps_alloc[OF k3'] by blast
  have k4: "keeps {s} st st4" by (rule keeps_trans[OF k3' c(2)])
  have al4: "alloc st4 s" using assms(2) by (simp add: keeps_alloc[OF k4])
  obtain st5 where g: "sym_validate_range scv s st4 = Some st5" "keeps {s} st4 st5"
      "range_base (sym_type (syms st4 s)) = None \<longrightarrow> st5 = st4"
    using validate_range_ok[OF ready_exempt[OF assms(1) ex k4] al4 assms(3)]
    by (elim exE conjE) (rule that)
  have k5: "keeps {s} st st5" by (rule keeps_trans[OF k4 g(2)])
  let ?st5 = "note_change s (curr (syms st s)) st5"
  have k5': "keeps {s} st ?st5" by (rule keeps_trans[OF k5 keeps_note_change]) simp
  obtain st6 where p: "propagate_choice s ?st5 = Some st6" "keeps {s} ?st5 st6" "same_values ?st5 st6"
    using propagate_ok[OF ready_exempt[OF assms(1) ex k5']] assms(2) unfolding keeps_alloc[OF k5'] by blast
  let ?fin = "clear_auto_write s st6"
  have k56: "keeps {s} st5 ?fin"
    by (rule keeps_trans[OF keeps_trans[OF keeps_note_change p(2)] keeps_clear_auto]) simp
  have kend: "keeps {s} st ?fin" by (rule keeps_trans[OF k5 k56])
  have same: "same_values st5 ?fin"
    by (rule same_values_trans[OF same_values_trans[OF note_change_same p(3)] clear_auto_same])
  have res: "calc_body scv s st = Some ?fin"
    using Some v(1) n(1) c(1) g(1) p(1) by (simp add: calc_body_def Let_def st1_def del: not_None_eq)
  have "meets_spec ?fin s"
    if "plain_tristate st s" "reads_none {s} st s" "modules_settled {s} st"
  proof -
    have rn: "reads_none {s} st' s" if "keeps X st st'" for X st'
      using \<open>reads_none {s} st s\<close> by (simp add: reads_none_def keeps_sym[OF that] keeps_prop[OF that])
    have pl: "plain_tristate st' s" if "keeps X st st'" for X st'
      using \<open>plain_tristate st s\<close> by (simp add: plain_tristate_def keeps_sym[OF that])
    have ms: "modules_settled {s} st'" if "keeps {s} st st'" for st'
      using settled_keeps[OF \<open>modules_settled {s} st\<close> that] by simp
    have fin: "keeps {s} st2 ?fin" "keeps {s} ?st2 ?fin" "keeps {s} st3 ?fin"
      using keeps_trans[OF k33 keeps_trans[OF c(2) keeps_trans[OF g(2) k56]]]
        keeps_trans[OF n(2)] keeps_trans[OF k22] by blast+
    have vs: "\<forall>st''. keeps {s} st2 st'' \<longrightarrow> visible (syms st2 s) = visible_spec st'' s \<and>
           rev_dep_tri (syms st2 s) = rev_dep_spec st'' s"
      using vspec rn[OF k1] ms[OF keeps_empty[OF k1]] pl[OF k1] keeps_valid[OF k1 assms(4)]
      unfolding plain_tristate_def by blast
    then have "\<forall>st''. keeps {s} ?st2 st'' \<longrightarrow> visible (syms ?st2 s) = visible_spec st'' s \<and>
           rev_dep_tri (syms ?st2 s) = rev_dep_spec st'' s"
      using keeps_trans[OF k22] by (simp add: keeps_set_curr_same)
    then have val: "sv_tri nv' = value_spec ?fin s"
      using nspec rn[OF k2'] ms[OF k2'] pl[OF k2'] keeps_valid[OF k2' assms(4)] fin(3)
      unfolding plain_tristate_def by blast
    have "st5 = ?st3"
      using c(3) g(3) pl[OF k3'] pl[OF k4] by (auto simp: plain_tristate_def range_base_def)
    then have "syms st5 s = (syms st3 s)\<lparr>curr := nv'\<rparr>" by (simp add: keeps_set_curr_same)
    moreover have "visible (syms st3 s) = visible (syms st2 s) \<and> rev_dep_tri (syms st3 s) = rev_dep_tri (syms st2 s)"
      using n(3) pl[OF k2'] keeps_valid[OF k2' assms(4)]
      by (simp add: steady_def plain_tristate_def keeps_set_curr_same)
    ultimately show ?thesis
      using same vs fin(1) val by (simp add: meets_spec_def same_values_def sym_get_tristate_value_def)
  qed
  with res kend show ?thesis by blast
qed

end

subsection \<open>The contract holds\<close>

definition unvalid :: "kstate \<Rightarrow> nat" where
  "unvalid st = card {n. n < next_sym st \<and> \<not> valid st (Sym n)}"

lemma unvalid_le: "unvalid st \<le> next_sym st"
proof -
  have "card {n. n < next_sym st \<and> \<not> valid st (Sym n)} \<le> card {..<next_sym st}"
    by (rule card_mono) auto
  then show ?thesis by (simp add: unvalid_def)
qed

lemma unvalid_keeps: "keeps X st st' \<Longrightarrow> unvalid st' \<le> unvalid st"
  unfolding unvalid_def
  by (rule card_mono) (auto simp: keeps_static(5) dest: keeps_valid)

lemma unvalid_less:
  assumes "n < next_sym st" "\<not> valid st (Sym n)"
  shows "unvalid (set_flags {SYMBOL_VALID} (Sym n) st) < unvalid st"
  unfolding unvalid_def
  by (rule psubset_card_mono) (use assms in \<open>auto simp: valid_def set_flags_def\<close>)

lemma wf_static_valid: "wf_calc st \<Longrightarrow> s \<in> static_syms \<Longrightarrow> valid st s"
  unfolding wf_calc_def static_syms_def by blast

lemma wf_keeps: "wf_calc st \<Longrightarrow> keeps X st st' \<Longrightarrow> X \<inter> static_syms = {} \<Longrightarrow> wf_calc st'"
  using keeps_wf[of X st st'] by (simp add: static_syms_def)

lemma not_static: "s \<notin> static_syms \<Longrightarrow> \<exists>n. s = Sym n"
  by (cases s) (simp_all add: static_syms_def)

text \<open>The specification part of a call for a symbol that is not yet valid.\<close>

definition spec_ok :: "calc \<Rightarrow> kstate \<Rightarrow> symptr \<Rightarrow> bool" where
  "spec_ok scv st s \<longleftrightarrow>
     (\<forall>st'. scv s st = Some st' \<longrightarrow> \<not> valid st s \<longrightarrow> plain_tristate st s \<longrightarrow> reads_none {s} st s \<longrightarrow>
        modules_settled {} st \<longrightarrow> meets_spec st' s)"

lemma settled_drop: "modules_settled {} st \<Longrightarrow> \<not> valid st s \<Longrightarrow> modules_settled {s} st"
  by (auto simp: modules_settled_def)

lemma calc_step:
  assumes IH: "calculator (sym_calc_value k) (\<lambda>st. wf_calc st \<and> unvalid st < k)"
    and st: "wf_calc st" "unvalid st < Suc k" "alloc st s"
  shows "(\<exists>st'. sym_calc_value (Suc k) s st = Some st' \<and> keeps {} st st' \<and> valid st' s) \<and>
    spec_ok (sym_calc_value (Suc k)) st s"
proof (cases "valid st s")
  case True
  then show ?thesis by (auto simp: valid_def spec_ok_def)
next
  case False
  then have ns: "s \<notin> static_syms" using wf_static_valid[OF st(1)] by blast
  let ?st = "set_flags {SYMBOL_VALID} s st"
  have k1: "keeps {} st ?st" by (rule keeps_set_flags) simp
  obtain n where n: "s = Sym n" using not_static[OF ns] by blast
  have ready: "wf_calc ?st \<and> unvalid ?st < k"
    using wf_keeps[OF st(1) k1] unvalid_less[of n st] st(2,3) False n by simp
  have v: "valid ?st s" by (simp add: valid_def set_flags_def)
  obtain st' where b: "calc_body (sym_calc_value k) s ?st = Some st'" "keeps {s} ?st st'" and
    spec: "plain_tristate ?st s \<longrightarrow> reads_none {s} ?st s \<longrightarrow> modules_settled {s} ?st \<longrightarrow> meets_spec st' s"
    using calculator.body_ok[OF IH ready _ ns v] st(3) unfolding keeps_alloc[OF k1] by blast
  have "keeps {} st st'"
    using keeps_trans[OF keeps_empty[OF k1] b(2)] False by (rule keeps_invalid)
  moreover have "valid st' s" by (rule keeps_valid[OF b(2) v])
  moreover have res: "sym_calc_value (Suc k) s st = Some st'" using False b(1) by (simp add: valid_def)
  moreover have "spec_ok (sym_calc_value (Suc k)) st s"
    unfolding spec_ok_def res
  proof (intro allI impI)
    fix st2
    assume h: "Some st' = Some st2" "plain_tristate st s" "reads_none {s} st s" "modules_settled {} st"
    have "plain_tristate ?st s" "reads_none {s} ?st s"
      using h(2,3) by (simp_all add: plain_tristate_def reads_none_def keeps_sym[OF k1] keeps_prop[OF k1])
    moreover have "modules_settled {s} ?st"
      using settled_keeps[OF settled_drop[OF h(4) False] keeps_empty[OF k1]] by simp
    ultimately show "meets_spec st2 s" using spec h(1) by simp
  qed
  ultimately show ?thesis by blast
qed

lemma calc_contract: "calculator (sym_calc_value k) (\<lambda>st. wf_calc st \<and> unvalid st < k)"
proof (induction k)
  case 0
  show ?case by unfold_locales simp_all
next
  case (Suc k)
  show ?case
  proof
    fix st s
    assume "wf_calc st \<and> unvalid st < Suc k" "alloc st s"
    with calc_step[OF Suc, of st s] show "\<exists>st'. sym_calc_value (Suc k) s st = Some st' \<and> keeps {} st st' \<and> valid st' s"
      by blast
  next
    fix st X st'
    assume "wf_calc st \<and> unvalid st < Suc k" "keeps X st st'" "X \<inter> static_syms = {}"
    then show "wf_calc st' \<and> unvalid st' < Suc k"
      using wf_keeps[of st X st'] unvalid_keeps[of X st st'] by auto
  qed simp
qed

interpretation fuelled: calculator "sym_calc_value k" "\<lambda>st. wf_calc st \<and> unvalid st < k" for k
  by (rule calc_contract)

interpretation calc: calculator calc_value wf_calc
proof
  fix st s
  assume "wf_calc st" "alloc st s"
  then show "\<exists>st'. calc_value s st = Some st' \<and> keeps {} st st' \<and> valid st' s"
    using fuelled.scv_ok[of st "calc_fuel st" s] unvalid_le[of st]
    by (simp add: calc_value_def calc_fuel_def)
qed (auto intro: wf_keeps)

lemma calc_value_spec: "wf_calc st \<Longrightarrow> alloc st s \<Longrightarrow> spec_ok calc_value st s"
  using calc_step[OF calc_contract, of st "next_sym st" s] unvalid_le[of st]
  by (simp add: spec_ok_def calc_value_def calc_fuel_def less_Suc_eq_le)

end
