(* ===== verification/SymOps.thy ===== *)
theory SymOps
  imports SymSpec
begin

text \<open>
  The operations of \<^verbatim>\<open>symbol.c\<close> that the front ends call: invalidating and setting values,
  checking strings, and the search for recursive dependencies.  \<open>None\<close> stands for a call that
  does not return, as in the value calculation.
\<close>

subsection \<open>Setting tristate values\<close>

definition sym_clear_all_valid :: "kstate \<Rightarrow> kstate option" where
  "sym_clear_all_valid st =
     (let st1 = fold (clear_flags {SYMBOL_VALID}) (all_symbols st) st;
          st2 = sym_add_change_count 1 st1
      in case modules_sym st2 of None \<Rightarrow> Some st2 | Some m \<Rightarrow> calc_value m st2)"

definition sym_tristate_within_range :: "symptr \<Rightarrow> tristate \<Rightarrow> kstate \<Rightarrow> bool" where
  "sym_tristate_within_range s val st \<longleftrightarrow>
     (let ty = sym_get_type s st; y = syms st s in
      if visible y = TNo then False
      else if ty \<noteq> S_BOOLEAN \<and> ty \<noteq> S_TRISTATE then False
      else if ty = S_BOOLEAN \<and> val = TMod then False
      else if visible y \<le> rev_dep_tri y then False
      else if sym_is_choice_value y \<and> visible y = TYes then val = TYes
      else val \<ge> rev_dep_tri y \<and> val \<le> visible y)"

definition mark_user_value :: "symptr \<Rightarrow> kstate \<Rightarrow> kstate" where
  "mark_user_value s st =
     (if SYMBOL_DEF_USER \<notin> flags (syms st s)
      then sym_set_changed s (set_flags {SYMBOL_DEF_USER} s st) else st)"

definition mark_visible_value :: "symptr \<Rightarrow> kstate \<Rightarrow> kstate" where
  "mark_visible_value d st =
     (if visible (syms st d) \<noteq> TNo then set_flags {SYMBOL_DEF_USER} d st else st)"

text \<open>Setting a choice value to \<open>y\<close> selects it in its choice and marks all visible values as set.\<close>

definition set_choice_user :: "symptr \<Rightarrow> kstate \<Rightarrow> kstate option" where
  "set_choice_user s st =
     do { p \<leftarrow> sym_get_choice_prop s st;
          cs \<leftarrow> prop_get_symbol (props st p);
          let st1 = set_flags {SYMBOL_DEF_USER} cs (set_def_val S_DEF_USER (VSym s) cs st);
          q \<leftarrow> sym_get_choice_prop cs st1;
          Some (fold mark_visible_value (expr_list_syms (prop_expr (props st1 q))) st1) }"

definition sym_set_tristate_value :: "symptr \<Rightarrow> tristate \<Rightarrow> kstate \<Rightarrow> (bool \<times> kstate) option" where
  "sym_set_tristate_value s val st =
     (let oldval = sym_get_tristate_value (syms st s) in
      if oldval \<noteq> val \<and> \<not> sym_tristate_within_range s val st then Some (False, st)
      else
        do { let st1 = mark_user_value s st;
             st2 \<leftarrow> (if sym_is_choice_value (syms st1 s) \<and> val = TYes then set_choice_user s st1
                      else Some st1);
             let st3 = set_def_tri S_DEF_USER val s st2;
             st4 \<leftarrow> (if oldval \<noteq> val then sym_clear_all_valid st3 else Some st3);
             Some (True, st4) })"

fun next_tristate :: "tristate \<Rightarrow> tristate" where
  "next_tristate TNo = TMod"
| "next_tristate TMod = TYes"
| "next_tristate TYes = TNo"

text \<open>The \<^verbatim>\<open>do\<close> loop: at most three steps, since the third comes back to the old value.\<close>

fun toggle_loop :: "nat \<Rightarrow> symptr \<Rightarrow> tristate \<Rightarrow> tristate \<Rightarrow> kstate \<Rightarrow> (tristate \<times> kstate) option" where
  "toggle_loop 0 s oldval newval st = None"
| "toggle_loop (Suc n) s oldval newval st =
     do { let v = next_tristate newval;
          (ok, st1) \<leftarrow> sym_set_tristate_value s v st;
          if ok \<or> oldval = v then Some (v, st1) else toggle_loop n s oldval v st1 }"

definition sym_toggle_tristate_value :: "symptr \<Rightarrow> kstate \<Rightarrow> (tristate \<times> kstate) option" where
  "sym_toggle_tristate_value s st =
     (let v = sym_get_tristate_value (syms st s) in toggle_loop 3 s v v st)"

subsection \<open>Strings\<close>

fun strip_minus :: "string \<Rightarrow> string" where
  "strip_minus (c # s) = (if c = CHR ''-'' then s else c # s)"
| "strip_minus [] = []"

fun int_digits_valid :: "string \<Rightarrow> bool" where
  "int_digits_valid [] = False"
| "int_digits_valid (c # s) = (isdigit c \<and> \<not> (c = CHR ''0'' \<and> s \<noteq> []) \<and> list_all isdigit s)"

fun strip_0x :: "string \<Rightarrow> string" where
  "strip_0x (a # x # s) =
     (if a = CHR ''0'' \<and> (x = CHR ''x'' \<or> x = CHR ''X'') then s else a # x # s)"
| "strip_0x s = s"

text \<open>The tristate a string starts with.\<close>

fun tri_letter :: "string \<Rightarrow> tristate option" where
  "tri_letter (c # s) =
     (if c = CHR ''y'' \<or> c = CHR ''Y'' then Some TYes
      else if c = CHR ''m'' \<or> c = CHR ''M'' then Some TMod
      else if c = CHR ''n'' \<or> c = CHR ''N'' then Some TNo
      else None)"
| "tri_letter [] = None"

definition sym_string_valid :: "symbol_type \<Rightarrow> string \<Rightarrow> bool" where
  "sym_string_valid ty str \<longleftrightarrow>
     (case ty of
        S_STRING \<Rightarrow> True
      | S_INT \<Rightarrow> int_digits_valid (strip_minus str)
      | S_HEX \<Rightarrow> (let s = strip_0x str in s \<noteq> [] \<and> list_all isxdigit s)
      | S_BOOLEAN \<Rightarrow> tri_letter str \<noteq> None
      | S_TRISTATE \<Rightarrow> tri_letter str \<noteq> None
      | _ \<Rightarrow> False)"

definition within_range_prop :: "symptr \<Rightarrow> nat \<Rightarrow> string \<Rightarrow> kstate \<Rightarrow> (bool \<times> kstate) option" where
  "within_range_prop s base str st =
     do { (po, st1) \<leftarrow> sym_get_range_prop calc_value s st;
          case po of
            None \<Rightarrow> Some (True, st1)
          | Some p \<Rightarrow>
              do { let val = int32 (strtol str base);
                   (lo, hi) \<leftarrow> range_bounds (prop_expr (props st1 p));
                   (v1, st2) \<leftarrow> sym_get_range_val calc_value lo base st1;
                   if val \<ge> v1 then
                     do { (v2, st3) \<leftarrow> sym_get_range_val calc_value hi base st2; Some (val \<le> v2, st3) }
                   else Some (False, st2) } }"

definition sym_string_within_range :: "symptr \<Rightarrow> string \<Rightarrow> kstate \<Rightarrow> (bool \<times> kstate) option" where
  "sym_string_within_range s str st =
     (let ty = sym_type (syms st s) in
      case ty of
        S_STRING \<Rightarrow> Some (sym_string_valid ty str, st)
      | S_INT \<Rightarrow> (if \<not> sym_string_valid ty str then Some (False, st) else within_range_prop s 10 str st)
      | S_HEX \<Rightarrow> (if \<not> sym_string_valid ty str then Some (False, st) else within_range_prop s 16 str st)
      | S_BOOLEAN \<Rightarrow> Some (case tri_letter str of Some t \<Rightarrow> sym_tristate_within_range s t st | None \<Rightarrow> False, st)
      | S_TRISTATE \<Rightarrow> Some (case tri_letter str of Some t \<Rightarrow> sym_tristate_within_range s t st | None \<Rightarrow> False, st)
      | _ \<Rightarrow> Some (False, st))"

text \<open>A fresh copy of a string becomes the user value; the old one is freed.\<close>

definition store_user_string :: "symptr \<Rightarrow> string \<Rightarrow> kstate \<Rightarrow> kstate" where
  "store_user_string s str st =
     (set_def_val S_DEF_USER (VStr (Heap (next_str st)) str) s st)\<lparr>next_str := Suc (next_str st)\<rparr>"

definition sym_set_string_value :: "symptr \<Rightarrow> string \<Rightarrow> kstate \<Rightarrow> (bool \<times> kstate) option" where
  "sym_set_string_value s newval st =
     (let ty = sym_type (syms st s) in
      if ty = S_BOOLEAN \<or> ty = S_TRISTATE then
        (case tri_letter newval of Some t \<Rightarrow> sym_set_tristate_value s t st | None \<Rightarrow> Some (False, st))
      else
        do { (ok, st1) \<leftarrow> sym_string_within_range s newval st;
             if \<not> ok then Some (False, st1)
             else
               do { let st2 = mark_user_value s st1;
                    let oldval = sv_val (def (syms st2 s) S_DEF_USER);
                    if ty = S_HEX \<and> strip_0x newval = newval then
                      do { st3 \<leftarrow> sym_clear_all_valid (store_user_string s (''0x'' @ newval) st2);
                           Some (True, st3) }
                    else if oldval = VNull \<or> sval_string oldval \<noteq> newval then
                      do { st3 \<leftarrow> sym_clear_all_valid (store_user_string s newval st2);
                           Some (True, st3) }
                    else Some (True, st2) } })"

subsection \<open>Recursive dependencies\<close>

text \<open>
  \<open>sym_check_deps\<close> and its helpers, with the recursive call as an argument.  The result is the
  symbol at which a cycle was closed, or null.  When a cycle is reported the code prints
  \<^verbatim>\<open>sym->prop->file->name\<close>: without a property, or with one from no file, that follows a null
  pointer.
\<close>

type_synonym check = "symptr \<Rightarrow> kstate \<Rightarrow> (symptr option \<times> kstate) option"

fun sym_check_expr_deps :: "check \<Rightarrow> expr \<Rightarrow> kstate \<Rightarrow> (symptr option \<times> kstate) option" where
  "sym_check_expr_deps chk (E_OR l r) st =
     do { (s, st1) \<leftarrow> sym_check_expr_deps chk l st;
          if s \<noteq> None then Some (s, st1) else sym_check_expr_deps chk r st1 }"
| "sym_check_expr_deps chk (E_AND l r) st =
     do { (s, st1) \<leftarrow> sym_check_expr_deps chk l st;
          if s \<noteq> None then Some (s, st1) else sym_check_expr_deps chk r st1 }"
| "sym_check_expr_deps chk (E_NOT a) st = sym_check_expr_deps chk a st"
| "sym_check_expr_deps chk (E_EQUAL a b) st =
     do { (s, st1) \<leftarrow> chk a st; if s \<noteq> None then Some (s, st1) else chk b st1 }"
| "sym_check_expr_deps chk (E_UNEQUAL a b) st =
     do { (s, st1) \<leftarrow> chk a st; if s \<noteq> None then Some (s, st1) else chk b st1 }"
| "sym_check_expr_deps chk (E_SYMBOL a) st = chk a st"
| "sym_check_expr_deps chk e st = Some (None, st)"

fun check_props :: "check \<Rightarrow> symptr \<Rightarrow> nat list \<Rightarrow> kstate \<Rightarrow> (symptr option \<times> kstate) option" where
  "check_props chk s [] st = Some (None, st)"
| "check_props chk s (p # ps) st =
     (if prop_type (props st p) \<in> {P_CHOICE, P_SELECT, P_BUILD_SELECT, P_BUILD_DEPENDS}
      then check_props chk s ps st
      else
        do { (r, st1) \<leftarrow> sym_check_expr_deps chk (visible_expr (props st p)) st;
             if r \<noteq> None then Some (r, st1)
             else if prop_type (props st1 p) \<noteq> P_DEFAULT \<or> sym_is_choice (syms st1 s)
             then check_props chk s ps st1
             else
               do { (r2, st2) \<leftarrow> sym_check_expr_deps chk (prop_expr (props st1 p)) st1;
                    if r2 \<noteq> None then Some (r2, st2) else check_props chk s ps st2 } })"

definition sym_check_sym_deps :: "check \<Rightarrow> symptr \<Rightarrow> kstate \<Rightarrow> (symptr option \<times> kstate) option" where
  "sym_check_sym_deps chk s st =
     do { (r, st1) \<leftarrow> sym_check_expr_deps chk (rev_dep_expr (syms st s)) st;
          if r \<noteq> None then Some (r, st1) else check_props chk s (sym_prop (syms st1 s)) st1 }"

fun check_values :: "check \<Rightarrow> symptr list \<Rightarrow> kstate \<Rightarrow> (symptr option \<times> kstate) option" where
  "check_values chk [] st = Some (None, st)"
| "check_values chk (d # ds) st =
     do { (r, st1) \<leftarrow> sym_check_sym_deps chk d st;
          if r \<noteq> None then Some (r, st1) else check_values chk ds st1 }"

definition sym_check_choice_deps :: "check \<Rightarrow> symptr \<Rightarrow> kstate \<Rightarrow> (symptr option \<times> kstate) option" where
  "sym_check_choice_deps chk choice st =
     do { p \<leftarrow> sym_get_choice_prop choice st;
          let vals = expr_list_syms (prop_expr (props st p));
          let st1 = fold (set_flags {SYMBOL_CHECK, SYMBOL_CHECKED}) vals st;
          let st2 = set_flags {SYMBOL_CHECK, SYMBOL_CHECKED} choice st1;
          (r, st3) \<leftarrow> sym_check_sym_deps chk choice st2;
          let st4 = clear_flags {SYMBOL_CHECK} choice st3;
          (r2, st5) \<leftarrow> (if r \<noteq> None then Some (r, st4) else check_values chk vals st4);
          let st6 = fold (clear_flags {SYMBOL_CHECK}) vals st5;
          case r2 of
            None \<Rightarrow> Some (None, st6)
          | Some t \<Rightarrow>
              if sym_is_choice_value (syms st6 t) then
                do { q \<leftarrow> sym_get_choice_prop t st6;
                     Some (if prop_get_symbol (props st6 q) = Some choice then Some choice else Some t, st6) }
              else Some (Some t, st6) }"

definition report_cycle :: "symptr \<Rightarrow> symptr option \<times> kstate \<Rightarrow> symptr option \<times> kstate" where
  "report_cycle s rs =
     (case rs of (r, st) \<Rightarrow>
        if r = Some s then (None, st\<lparr>zconfnerrs := Suc (zconfnerrs st)\<rparr>) else (r, st))"

fun sym_check_deps :: "nat \<Rightarrow> symptr \<Rightarrow> kstate \<Rightarrow> (symptr option \<times> kstate) option" where
  "sym_check_deps 0 s st = None"
| "sym_check_deps (Suc n) s st =
     (if SYMBOL_CHECK \<in> flags (syms st s) then
        (case sym_prop (syms st s) of
           [] \<Rightarrow> None
         | p # ps \<Rightarrow> if prop_file (props st p) = None then None else Some (Some s, st))
      else if SYMBOL_CHECKED \<in> flags (syms st s) then Some (None, st)
      else map_option (report_cycle s)
        (if sym_is_choice_value (syms st s) then
           do { p \<leftarrow> sym_get_choice_prop s st;
                c \<leftarrow> prop_get_symbol (props st p);
                sym_check_deps n c st }
         else if sym_is_choice (syms st s) then sym_check_choice_deps (sym_check_deps n) s st
         else
           do { (r, st1) \<leftarrow> sym_check_sym_deps (sym_check_deps n) s
                   (set_flags {SYMBOL_CHECK, SYMBOL_CHECKED} s st);
                Some (r, clear_flags {SYMBOL_CHECK} s st1) }))"

text \<open>
  Every call that recurses marks a symbol, after at most one step from a choice value to its
  choice.
\<close>

definition check_fuel :: "kstate \<Rightarrow> nat" where
  "check_fuel st = 2 * next_sym st + 12"

definition check_deps :: "symptr \<Rightarrow> kstate \<Rightarrow> (symptr option \<times> kstate) option" where
  "check_deps s st = sym_check_deps (check_fuel st) s st"

end
