(* ===== verification/SymTable.thy ===== *)
theory SymTable
  imports SymOps
begin

text \<open>
  The symbol table: the invariant of the hash chains, and what \<open>sym_lookup\<close> and \<open>sym_find\<close>
  guarantee.
\<close>

subsection \<open>The empty table\<close>

definition empty_state :: kstate where
  "empty_state = \<lparr>syms = init_static, symbol_hash = (\<lambda>_. []), props = (\<lambda>_. zero_property),
     menus = (\<lambda>_. zero_menu), modules_sym = None, modules_val = TNo, sym_defconfig_list = None,
     sym_env_list = Null, sym_change_count = 0, callback_set = False, callback_calls = 0,
     zconfnerrs = 0, sym_inited = False, current_file = Some 0, current_entry = 0,
     zconf_lineno = 1, next_sym = 0, next_prop = 0, next_str = 0,
     current_menu = None, last_entry_ptr = List_of 0, next_menu = 1, conf_filename = [], conf_lineno = 0,
     conf_warnings = 0, conf_unsaved = 0,
     kfiles = (\<lambda>_. \<lparr>file_name = [], file_parent = None, file_dir = 0, file_lineno = 0,
       file_busy = False, file_scanned = False\<rparr>),
     file_list = [0], kdirs = (\<lambda>_. \<lparr>dir_name = [], dir_enabled = False\<rparr>), dir_list = [0]\<rparr>"

subsection \<open>Hash chains\<close>

text \<open>
  Chain \<open>h\<close> holds distinct allocated symbols; below 256 they are named, and their name hashes to
  \<open>h\<close> and is not that of a static symbol.
\<close>

definition chain_ok :: "kstate \<Rightarrow> nat \<Rightarrow> bool" where
  "chain_ok st h \<longleftrightarrow>
     distinct (symbol_hash st h) \<and>
     (\<forall>s\<in>set (symbol_hash st h). alloc st s \<and> s \<notin> static_syms \<and>
        (h < 256 \<longrightarrow> (\<exists>name. sym_name (syms st s) = Some name \<and> name_hash name = h \<and>
           static_name name = None)))"

definition hash_inv :: "kstate \<Rightarrow> bool" where
  "hash_inv st \<longleftrightarrow> (\<forall>h. chain_ok st h)"

lemma alloc_symbol_fields:
  assumes "alloc_symbol nm fl h st = (s, st')"
  shows "s = Sym (next_sym st)" "next_sym st' = Suc (next_sym st)"
    "symbol_hash st' = (symbol_hash st)(h := s # symbol_hash st h)"
    "syms st' = (syms st)(s := zero_symbol\<lparr>sym_name := nm, sym_type := S_UNKNOWN, flags := fl,
                                    sym_file := current_file st\<rparr>)"
    "props st' = props st"
  using assms by (auto simp: alloc_symbol_def Let_def)

lemma alloc_Suc: "next_sym st' = Suc (next_sym st) \<Longrightarrow> alloc st s \<Longrightarrow> alloc st' s"
  by (cases s) simp_all

lemma alloc_symbol_inv:
  assumes "hash_inv st" "alloc_symbol nm fl h st = (s, st')"
    and "h < 256 \<Longrightarrow> \<exists>name. nm = Some name \<and> name_hash name = h \<and> static_name name = None"
  shows "hash_inv st'"
  unfolding hash_inv_def chain_ok_def
proof (intro allI conjI ballI)
  note f = alloc_symbol_fields[OF assms(2)]
  have old: "alloc st t \<and> t \<notin> static_syms \<and> t \<noteq> s \<and> (k < 256 \<longrightarrow>
      (\<exists>name. sym_name (syms st' t) = Some name \<and> name_hash name = k \<and> static_name name = None))"
    if "t \<in> set (symbol_hash st k)" for k t
  proof -
    have c: "alloc st t \<and> t \<notin> static_syms \<and> (k < 256 \<longrightarrow>
        (\<exists>name. sym_name (syms st t) = Some name \<and> name_hash name = k \<and> static_name name = None))"
      using assms(1) that unfolding hash_inv_def chain_ok_def by blast
    moreover have "t \<noteq> s" using c f(1) by (cases t) auto
    ultimately show ?thesis by (simp add: f(4))
  qed
  fix k
  show "distinct (symbol_hash st' k)"
    using assms(1) old[of s k] by (auto simp: hash_inv_def chain_ok_def f(3))
  fix t
  assume t: "t \<in> set (symbol_hash st' k)"
  show "alloc st' t" "t \<notin> static_syms"
    using t old[of t k] alloc_Suc[OF f(2)] f(1,2)
    by (auto simp: f(3) static_syms_def split: if_splits)
  show "k < 256 \<longrightarrow> (\<exists>name. sym_name (syms st' t) = Some name \<and> name_hash name = k \<and>
      static_name name = None)"
    using t old[of t k] assms(3) by (auto simp: f(3,4) split: if_splits)
qed

lemma lookup_cases:
  obtains (static) name s where "nm = Some name" "static_name name = Some s"
      "sym_lookup nm fl st = (s, st)"
  | (found) name s where "nm = Some name" "static_name name = None"
      "find (lookup_match st name fl) (symbol_hash st (name_hash name)) = Some s"
      "sym_lookup nm fl st = (s, st)"
  | (fresh) name where "nm = Some name" "static_name name = None"
      "find (lookup_match st name fl) (symbol_hash st (name_hash name)) = None"
      "sym_lookup nm fl st = alloc_symbol nm fl (name_hash name) st"
  | (unnamed) "nm = None" "sym_lookup nm fl st = alloc_symbol None fl 256 st"
  by (cases nm; cases "static_name (the nm)";
      cases "find (lookup_match st (the nm) fl) (symbol_hash st (name_hash (the nm)))")
     (auto simp: sym_lookup_def)

lemma lookup_inv: "hash_inv st \<Longrightarrow> sym_lookup nm fl st = (s, st') \<Longrightarrow> hash_inv st'"
proof (cases rule: lookup_cases[of nm fl st])
  case (fresh name)
  assume "hash_inv st" "sym_lookup nm fl st = (s, st')"
  with fresh show ?thesis using alloc_symbol_inv[of st nm fl "name_hash name" s st'] by simp
next
  case unnamed
  assume "hash_inv st" "sym_lookup nm fl st = (s, st')"
  with unnamed show ?thesis using alloc_symbol_inv[of st None fl 256 s st'] by simp
qed simp_all

text \<open>
  C14.  Looking a name up leaves a well-formed table, in which looking it up again, with the
  same flags, finds the same symbol and allocates nothing; other symbols are not touched.
\<close>

theorem sym_lookup_stable:
  assumes "hash_inv st" "sym_lookup (Some name) fl st = (s, st')"
  shows "hash_inv st' \<and> sym_lookup (Some name) fl st' = (s, st') \<and>
    (\<forall>t. alloc st t \<longrightarrow> syms st' t = syms st t)"
proof (cases rule: lookup_cases[of "Some name" fl st])
  case (static name' s')
  with assms show ?thesis by simp
next
  case (found name' s')
  with assms show ?thesis by simp
next
  case (fresh name')
  with assms(2) have a: "alloc_symbol (Some name) fl (name_hash name) st = (s, st')" by simp
  note f = alloc_symbol_fields[OF a]
  have "lookup_match st' name fl s" by (auto simp: lookup_match_def f(4))
  then have "sym_lookup (Some name) fl st' = (s, st')"
    using fresh by (simp add: sym_lookup_def f(3))
  moreover have "syms st' t = syms st t" if "alloc st t" for t
    using that f(1) by (cases t) (auto simp: f(4))
  ultimately show ?thesis using lookup_inv[OF assms] by blast
qed simp

lemma empty_inv: "hash_inv empty_state"
  by (simp add: hash_inv_def chain_ok_def empty_state_def)

lemma sym_lookup_stable_witness:
  "(case sym_lookup (Some ''FOO'') {} empty_state of (s, st) \<Rightarrow>
      s = Sym 0 \<and> next_sym st = 1 \<and> sym_lookup (Some ''FOO'') {} st = (s, st))"
proof -
  obtain s st where r: "sym_lookup (Some ''FOO'') {} empty_state = (s, st)"
    by (cases "sym_lookup (Some ''FOO'') {} empty_state") auto
  then have "s = Sym 0 \<and> next_sym st = 1"
    by (auto simp: sym_lookup_def alloc_symbol_def empty_state_def Let_def)
  with sym_lookup_stable[OF empty_inv r] r show ?thesis by simp
qed

text \<open>
  A symbol declared under a name, by a look-up without flags, is the one \<open>sym_find\<close> gives
  for the name, as long as no choice bears the same name.
\<close>

theorem sym_find_declared:
  assumes "hash_inv st" "sym_lookup (Some name) {} st = (s, st')"
    and "\<And>t. t \<in> set (symbol_hash st (name_hash name)) \<Longrightarrow> sym_name (syms st t) = Some name \<Longrightarrow>
      SYMBOL_CHOICE \<notin> flags (syms st t)"
  shows "sym_find (Some name) st' = Some s"
proof -
  have find_eq: "find P xs = find Q xs" if "\<And>x. x \<in> set xs \<Longrightarrow> P x = Q x" for P Q and xs :: "symptr list"
    using that by (induction xs) auto
  have same: "find (\<lambda>t. sym_name (syms st t) = Some name \<and> SYMBOL_CONST \<notin> flags (syms st t))
        (symbol_hash st (name_hash name)) = find (lookup_match st name {}) (symbol_hash st (name_hash name))"
    using assms(3) by (intro find_eq) (auto simp: lookup_match_def)
  show ?thesis
  proof (cases rule: lookup_cases[of "Some name" "{}" st])
    case (static name' s')
    with assms show ?thesis by (simp add: sym_find_def)
  next
    case (found name' s')
    with assms(2) same show ?thesis by (simp add: sym_find_def)
  next
    case (fresh name')
    with assms(2) have "alloc_symbol (Some name) {} (name_hash name) st = (s, st')" by simp
    from alloc_symbol_fields[OF this] fresh show ?thesis by (simp add: sym_find_def)
  qed simp
qed

lemma sym_find_declared_witness:
  "sym_find (Some ''FOO'') (snd (sym_lookup (Some ''FOO'') {} empty_state)) = Some (Sym 0)"
proof (rule sym_find_declared[OF empty_inv])
  show "sym_lookup (Some ''FOO'') {} empty_state =
      (Sym 0, snd (sym_lookup (Some ''FOO'') {} empty_state))"
    by (simp add: sym_lookup_def alloc_symbol_def empty_state_def Let_def)
qed (simp add: empty_state_def)

end
