(* ===== verification/SymProps.thy ===== *)
theory SymProps
  imports SymTable
begin

text \<open>
  The properties of the value calculation and of the operations of the front ends, and the
  example configuration their witnesses use.
\<close>

subsection \<open>An example\<close>

text \<open>
  \<^verbatim>\<open>FOO\<close> (tristate) with a prompt and \<^verbatim>\<open>default m\<close>; \<^verbatim>\<open>BAR\<close> (boolean) with a prompt that depends on
  \<^verbatim>\<open>FOO\<close>, set to \<^verbatim>\<open>y\<close> by the user; \<^verbatim>\<open>NUM\<close> (integer) with the current value 50 and the range
  from \<^verbatim>\<open>LOW\<close> to \<^verbatim>\<open>HIGH\<close>, constants 3 and 9.
\<close>

definition ex_syms :: "nat \<Rightarrow> symbol" where
  "ex_syms n =
     (if n = 0 then zero_symbol\<lparr>sym_name := Some ''FOO'', sym_type := S_TRISTATE, sym_prop := [0, 1]\<rparr>
      else if n = 2 then zero_symbol\<lparr>sym_name := Some ''BAR'', sym_type := S_BOOLEAN, sym_prop := [2],
          def := (\<lambda>_. null_value)(S_DEF_USER := \<lparr>sv_val = VNull, sv_tri = TYes\<rparr>),
          flags := {SYMBOL_DEF_USER}\<rparr>
      else if n = 3 then zero_symbol\<lparr>sym_name := Some ''NUM'', sym_type := S_INT, sym_prop := [3],
          curr := \<lparr>sv_val = VStr Lit ''50'', sv_tri = TNo\<rparr>, flags := {SYMBOL_VALID}\<rparr>
      else if n = 4 then zero_symbol\<lparr>sym_name := Some ''3''\<rparr>
      else if n = 5 then zero_symbol\<lparr>sym_name := Some ''9''\<rparr>
      else zero_symbol)"

definition ex_props :: "nat \<Rightarrow> property" where
  "ex_props n =
     (if n = 0 then zero_property\<lparr>prop_sym := Some (Sym 0), prop_type := P_PROMPT, prop_text := Some ''foo''\<rparr>
      else if n = 1 then zero_property\<lparr>prop_sym := Some (Sym 0), prop_type := P_DEFAULT, prop_expr := E_SYMBOL symbol_mod\<rparr>
      else if n = 2 then zero_property\<lparr>prop_sym := Some (Sym 2), prop_type := P_PROMPT, prop_text := Some ''bar'',
          visible_expr := E_SYMBOL (Sym 0)\<rparr>
      else zero_property\<lparr>prop_sym := Some (Sym 3), prop_type := P_RANGE, prop_expr := E_RANGE (Sym 4) (Sym 5)\<rparr>)"

definition ex_state :: kstate where
  "ex_state = empty_state\<lparr>syms := (\<lambda>s. case s of Sym n \<Rightarrow> ex_syms n | _ \<Rightarrow> init_static s),
     props := ex_props, next_sym := 6, next_prop := 4\<rparr>"

lemma ex_state_simps [simp]:
  "syms ex_state (Sym n) = ex_syms n" "syms ex_state symbol_yes = init_static symbol_yes"
  "syms ex_state symbol_mod = init_static symbol_mod" "syms ex_state symbol_no = init_static symbol_no"
  "syms ex_state symbol_empty = init_static symbol_empty" "props ex_state = ex_props"
  "next_sym ex_state = 6" "modules_sym ex_state = None" "modules_val ex_state = TNo"
  "symbol_hash ex_state h = []"
  by (simp_all add: ex_state_def empty_state_def)

lemma ex_alloc_cases:
  assumes "alloc ex_state s"
  obtains "s = symbol_yes" | "s = symbol_mod" | "s = symbol_no" | "s = symbol_empty"
    | n where "s = Sym n" "n < 6"
  using assms by (cases s) auto

lemma ex_wf: "wf_calc ex_state"
proof -
  have "wf_props ex_state s" for s
    by (cases s) (auto simp: wf_props_def ex_syms_def ex_props_def zero_symbol_def zero_property_def
        split: if_splits)
  moreover have "\<not> sym_is_choice (syms ex_state s)" "\<not> sym_is_choice_value (syms ex_state s)" for s
    by (cases s; simp add: sym_is_choice_def sym_is_choice_value_def ex_syms_def zero_symbol_def)+
  ultimately show ?thesis
    by (simp add: wf_calc_def valid_def zero_symbol_def)
qed

lemma ex_plain [simp]: "plain_tristate ex_state (Sym 2)" "modules_settled X ex_state"
  "\<not> valid ex_state (Sym 2)" "reads_none {Sym 2} ex_state (Sym 2)"
  by (simp_all add: plain_tristate_def modules_settled_def valid_def reads_none_def ex_syms_def
      ex_props_def zero_symbol_def zero_property_def sym_is_choice_def sym_is_choice_value_def)

lemma ex_bool_ok: "bool_ok (syms ex_state t)"
  by (cases t) (simp_all add: bool_ok_def ex_syms_def zero_symbol_def null_value_def
      sym_get_tristate_value_def)

subsection \<open>The calculation\<close>

lemma calc_value_ok:
  assumes "wf_calc st" "alloc st s"
  shows "\<exists>st'. calc_value s st = Some st' \<and> valid st' s \<and> wf_calc st' \<and> keeps {} st st'"
  using calc.scv_ok[OF assms] calc.ready_empty[OF assms(1)] by blast





text \<open>
  C12.  \<open>expr_calc_value\<close> calculates the symbols it needs, and returns the value the expression
  has in the resulting table.
\<close>

theorem expr_calc_value_correct:
  assumes "wf_calc st" "\<And>t. t \<in> expr_syms e \<Longrightarrow> alloc st t"
  shows "\<exists>st'. expr_calc_value e st = Some (expr_value (syms st') e, st') \<and> keeps {} st st' \<and> wf_calc st'"
proof -
  have "\<forall>t\<in>expr_syms e. alloc st t" using assms(2) by blast
  from calc.expr_ok[OF assms(1) this] calc.ready_empty[OF assms(1)]
  show ?thesis unfolding expr_calc_value_def by blast
qed

lemma expr_calc_value_correct_witness:
  "\<exists>st'. expr_calc_value (E_AND (E_SYMBOL (Sym 0)) (E_NOT (E_SYMBOL (Sym 2)))) ex_state =
    Some (expr_value (syms st') (E_AND (E_SYMBOL (Sym 0)) (E_NOT (E_SYMBOL (Sym 2)))), st')"
proof -
  have "\<And>t. t \<in> expr_syms (E_AND (E_SYMBOL (Sym 0)) (E_NOT (E_SYMBOL (Sym 2)))) \<Longrightarrow> alloc ex_state t"
    by auto
  from expr_calc_value_correct[OF ex_wf this] show ?thesis by blast
qed

text \<open>
  C15.  No calculation gives a symbol of type boolean the value \<open>m\<close>: that holds of all
  symbols before and after.
\<close>

theorem boolean_never_m:
  assumes "wf_calc st" "alloc st s" "\<And>t. bool_ok (syms st t)" "calc_value s st = Some st'"
    and "sym_type (syms st' t) = S_BOOLEAN"
  shows "sym_get_tristate_value (syms st' t) \<noteq> TMod"
proof -
  have "keeps {} st st'" using calc.scv_ok[OF assms(1,2)] assms(4) by auto
  then have "bool_ok (syms st' t)" using assms(3)[of t] by (simp add: keeps_def)
  with assms(5) show ?thesis by (simp add: bool_ok_def)
qed

lemma boolean_never_m_witness:
  "\<exists>st'. calc_value (Sym 2) ex_state = Some st' \<and> sym_get_tristate_value (syms st' (Sym 2)) \<noteq> TMod"
proof -
  obtain st' where c: "calc_value (Sym 2) ex_state = Some st'" "keeps {} ex_state st'"
    using calc.scv_ok[OF ex_wf, of "Sym 2"] by auto
  have "sym_type (syms st' (Sym 2)) = S_BOOLEAN"
    by (simp add: keeps_sym(2)[OF c(2)] ex_syms_def)
  with boolean_never_m[OF ex_wf _ ex_bool_ok c(1)] c(1) show ?thesis by auto
qed

end
