(* ===== verification/SymSet.thy ===== *)
theory SymSet
  imports SymProps
begin

text \<open>
  Setting values.  \<open>user_step\<close> is what the operations of the front ends may do to the table
  between two calculations; it keeps \<open>wf_table\<close>, so that the calculation that follows returns.
\<close>

subsection \<open>Steps of the user\<close>

definition wf_table :: "kstate \<Rightarrow> bool" where
  "wf_table st \<longleftrightarrow>
     wf_calc st \<and> hash_inv st \<and> (\<forall>m. modules_sym st = Some m \<longrightarrow> alloc st m) \<and>
     (\<forall>s p c. alloc st s \<longrightarrow> sym_is_choice_value (syms st s) \<longrightarrow> sym_get_choice_prop s st = Some p \<longrightarrow>
        prop_get_symbol (props st p) = Some c \<longrightarrow> sym_is_choice (syms st c))"

definition user_flags :: "sym_flag set" where
  "user_flags = {SYMBOL_VALID, SYMBOL_CHANGED, SYMBOL_DEF_USER}"

definition sym_step :: "kstate \<Rightarrow> symptr \<Rightarrow> symbol \<Rightarrow> symbol \<Rightarrow> bool" where
  "sym_step st t y z \<longleftrightarrow>
     sym_name z = sym_name y \<and> sym_type z = sym_type y \<and> curr z = curr y \<and> visible z = visible y \<and>
     sym_prop z = sym_prop y \<and> rev_dep_expr z = rev_dep_expr y \<and> rev_dep_tri z = rev_dep_tri y \<and>
     flags z - user_flags = flags y - user_flags \<and>
     (t \<in> static_syms \<longrightarrow> SYMBOL_VALID \<in> flags y \<longrightarrow> SYMBOL_VALID \<in> flags z) \<and>
     (\<forall>d. sv_val (def z S_DEF_USER) = VSym d \<longrightarrow> sv_val (def y S_DEF_USER) = VSym d \<or>
        alloc st d \<and> sym_is_choice_value (syms st d))"

definition user_step :: "kstate \<Rightarrow> kstate \<Rightarrow> bool" where
  "user_step st st' \<longleftrightarrow>
     next_sym st' = next_sym st \<and> symbol_hash st' = symbol_hash st \<and>
     modules_sym st' = modules_sym st \<and> modules_val st' = modules_val st \<and>
     props st' = props st \<and> (\<forall>t. sym_step st t (syms st t) (syms st' t))"

lemma sym_step_flags:
  assumes "sym_step st t y z" "f \<notin> user_flags"
  shows "f \<in> flags z \<longleftrightarrow> f \<in> flags y"
  using assms unfolding sym_step_def by blast

lemma sym_step_choice:
  "sym_step st t y z \<Longrightarrow> sym_is_choice z = sym_is_choice y"
  "sym_step st t y z \<Longrightarrow> sym_is_choice_value z = sym_is_choice_value y"
  using sym_step_flags[of st t y z]
  by (simp_all add: sym_is_choice_def sym_is_choice_value_def user_flags_def)

lemma user_step_fields:
  assumes "user_step st st'"
  shows "next_sym st' = next_sym st" "symbol_hash st' = symbol_hash st"
    "modules_sym st' = modules_sym st" "props st' = props st"
    "sym_name (syms st' t) = sym_name (syms st t)" "sym_type (syms st' t) = sym_type (syms st t)"
    "curr (syms st' t) = curr (syms st t)" "sym_prop (syms st' t) = sym_prop (syms st t)"
    "rev_dep_expr (syms st' t) = rev_dep_expr (syms st t)"
    "sym_is_choice (syms st' t) = sym_is_choice (syms st t)"
    "sym_is_choice_value (syms st' t) = sym_is_choice_value (syms st t)"
    "modules_val st' = modules_val st" "visible (syms st' t) = visible (syms st t)"
    "rev_dep_tri (syms st' t) = rev_dep_tri (syms st t)"
proof -
  have *: "sym_step st t (syms st t) (syms st' t)" using assms by (simp add: user_step_def)
  show "next_sym st' = next_sym st" "symbol_hash st' = symbol_hash st"
    "modules_sym st' = modules_sym st" "props st' = props st" "modules_val st' = modules_val st"
    using assms by (simp_all add: user_step_def)
  show "sym_name (syms st' t) = sym_name (syms st t)" "sym_type (syms st' t) = sym_type (syms st t)"
    "curr (syms st' t) = curr (syms st t)" "sym_prop (syms st' t) = sym_prop (syms st t)"
    "rev_dep_expr (syms st' t) = rev_dep_expr (syms st t)"
    "visible (syms st' t) = visible (syms st t)" "rev_dep_tri (syms st' t) = rev_dep_tri (syms st t)"
    using * by (simp_all add: sym_step_def)
  show "sym_is_choice (syms st' t) = sym_is_choice (syms st t)"
    "sym_is_choice_value (syms st' t) = sym_is_choice_value (syms st t)"
    using sym_step_choice[OF *] by blast+
qed

lemma user_step_alloc: "user_step st st' \<Longrightarrow> alloc st' s = alloc st s"
  by (rule alloc_cong) (simp add: user_step_fields)

lemma user_step_refl [simp]: "user_step st st"
  by (simp add: user_step_def sym_step_def)

lemma user_step_trans:
  assumes "user_step a b" "user_step b c"
  shows "user_step a c"
proof -
  have "sym_step a t (syms a t) (syms c t)" for t
  proof -
    have 1: "sym_step a t (syms a t) (syms b t)" and 2: "sym_step b t (syms b t) (syms c t)"
      using assms by (simp_all add: user_step_def)
    have "\<And>d. alloc b d = alloc a d" "\<And>d. sym_is_choice_value (syms b d) = sym_is_choice_value (syms a d)"
      using user_step_alloc[OF assms(1)] user_step_fields(11)[OF assms(1)] by blast+
    with 1 2 show ?thesis unfolding sym_step_def by metis
  qed
  with assms show ?thesis by (simp add: user_step_def)
qed

lemma user_step_fold: "(\<And>x st. user_step st (f x st)) \<Longrightarrow> user_step st (fold f xs st)"
  by (induction xs arbitrary: st) (auto intro: user_step_trans)

lemma user_step_choice_prop:
  "user_step st st' \<Longrightarrow> sym_get_choice_prop s st' = sym_get_choice_prop s st"
  by (simp add: sym_get_choice_prop_def first_prop_def user_step_fields)

lemma user_step_wf_calc:
  assumes "user_step st st'" "wf_calc st"
  shows "wf_calc st'"
proof -
  note f = user_step_fields[OF assms(1)] user_step_alloc[OF assms(1)] user_step_choice_prop[OF assms(1)]
  have "wf_props st' s = wf_props st s" "wf_choice_value st' s = wf_choice_value st s" for s
    by (simp_all add: wf_props_def wf_choice_value_def f)
  moreover have "wf_choice st' s" if "wf_choice st s" for s
  proof -
    have "sym_step st s (syms st s) (syms st' s)" using assms(1) by (simp add: user_step_def)
    then show ?thesis using that unfolding wf_choice_def sym_step_def by (auto simp: f)
  qed
  moreover have "valid st' s" if "valid st s" "s \<in> static_syms" for s
    using assms(1) that by (simp add: user_step_def sym_step_def valid_def)
  ultimately show ?thesis
    using assms(2) by (simp add: wf_calc_def f static_syms_def)
qed

lemma user_step_wf:
  assumes "user_step st st'" "wf_table st"
  shows "wf_table st'"
proof -
  note f = user_step_fields[OF assms(1)] user_step_alloc[OF assms(1)] user_step_choice_prop[OF assms(1)]
  have "hash_inv st'" using assms(2) by (simp add: wf_table_def hash_inv_def chain_ok_def f)
  with user_step_wf_calc[OF assms(1)] assms(2) show ?thesis by (simp add: wf_table_def f)
qed

lemma keeps_wf_table:
  assumes "keeps X st st'" "wf_table st" "X \<inter> static_syms = {}"
  shows "wf_table st'"
proof -
  have "hash_inv st'" using assms(2)
    by (simp add: wf_table_def hash_inv_def chain_ok_def keeps_fields[OF assms(1)])
  with assms wf_keeps[of st X st'] show ?thesis
    by (simp add: wf_table_def keeps_fields[OF assms(1)])
qed

subsection \<open>Each operation is a step\<close>

lemma step_upd_sym:
  "sym_step st s (syms st s) (f (syms st s)) \<Longrightarrow> user_step st (upd_sym s f st)"
  by (simp add: user_step_def sym_step_def)

lemma step_set_flags: "fs \<subseteq> user_flags \<Longrightarrow> user_step st (set_flags fs s st)"
  unfolding set_flags_def by (rule step_upd_sym) (auto simp: sym_step_def)

lemma step_clear_valid: "s \<notin> static_syms \<Longrightarrow> user_step st (clear_flags {SYMBOL_VALID} s st)"
  unfolding clear_flags_def by (rule step_upd_sym) (auto simp: sym_step_def user_flags_def)

lemma step_mark_menu: "user_step st (mark_menu_changed p st)"
  by (simp add: mark_menu_changed_def user_step_def sym_step_def split: option.split)

lemma step_set_changed: "user_step st (sym_set_changed s st)"
  unfolding sym_set_changed_def Let_def
  by (rule user_step_trans[OF step_set_flags user_step_fold[OF step_mark_menu]]) (simp add: user_flags_def)

lemma step_mark_user: "user_step st (mark_user_value s st)"
  using user_step_trans[OF step_set_flags step_set_changed, of "{SYMBOL_DEF_USER}" st s s]
  by (simp add: mark_user_value_def user_flags_def)

lemma step_mark_visible: "user_step st (mark_visible_value d st)"
  using step_set_flags[of "{SYMBOL_DEF_USER}"] by (simp add: mark_visible_value_def user_flags_def)

lemma step_set_def_tri: "user_step st (set_def_tri i t s st)"
  unfolding set_def_tri_def by (rule step_upd_sym) (simp add: sym_step_def)

lemma step_set_def_val:
  "(\<And>d. v = VSym d \<Longrightarrow> alloc st d \<and> sym_is_choice_value (syms st d)) \<Longrightarrow> user_step st (set_def_val i v s st)"
  unfolding set_def_val_def by (rule step_upd_sym) (auto simp: sym_step_def)

lemma step_change_count: "user_step st (sym_add_change_count n st)"
  by (simp add: sym_add_change_count_def sym_set_change_count_def Let_def user_step_def sym_step_def)

lemma step_store_string: "user_step st (store_user_string s str st)"
proof -
  have "user_step a (a\<lparr>next_str := n\<rparr>)" for a n by (simp add: user_step_def sym_step_def)
  with user_step_trans[OF step_set_def_val] show ?thesis unfolding store_user_string_def by blast
qed

lemma step_clear_list: "set xs \<inter> static_syms = {} \<Longrightarrow> user_step st (fold (clear_flags {SYMBOL_VALID}) xs st)"
  by (induction xs arbitrary: st) (auto intro: user_step_trans[OF step_clear_valid])

lemma all_symbols_not_static: "hash_inv st \<Longrightarrow> set (all_symbols st) \<inter> static_syms = {}"
  by (auto simp: all_symbols_def hash_inv_def chain_ok_def)

text \<open>\<open>set_by_user a b\<close>: steps of the user, followed by a calculation.\<close>

lemma def_keeps: "keeps X st st' \<Longrightarrow> def (syms st' s) = def (syms st s)"
  by (rule keeps_sym(3))

lemma clear_all_ok:
  assumes "wf_table st"
  shows "\<exists>st1 st'. sym_clear_all_valid st = Some st' \<and> user_step st st1 \<and> keeps {} st1 st' \<and> wf_table st' \<and>
    (\<forall>t. def (syms st1 t) = def (syms st t) \<and> sym_has_value (syms st1 t) = sym_has_value (syms st t))"
proof -
  let ?st1 = "fold (clear_flags {SYMBOL_VALID}) (all_symbols st) st"
  let ?st2 = "sym_add_change_count 1 ?st1"
  have s2: "user_step st ?st2"
    using user_step_trans[OF step_clear_list step_change_count] all_symbols_not_static assms
    by (simp add: wf_table_def)
  have fold: "def (syms (fold (clear_flags {SYMBOL_VALID}) xs a) t) = def (syms a t) \<and>
      sym_has_value (syms (fold (clear_flags {SYMBOL_VALID}) xs a) t) = sym_has_value (syms a t)" for xs a t
    by (induction xs arbitrary: a) (auto simp: clear_flags_def sym_has_value_def)
  have cnt: "syms (sym_add_change_count n a) = syms a" for n a
    by (simp add: sym_add_change_count_def sym_set_change_count_def Let_def)
  have d: "\<forall>t. def (syms ?st2 t) = def (syms st t) \<and> sym_has_value (syms ?st2 t) = sym_has_value (syms st t)"
    using fold by (simp add: cnt)
  have wf: "wf_table ?st2" by (rule user_step_wf[OF s2 assms])
  show ?thesis
  proof (cases "modules_sym ?st2")
    case None
    then have "sym_clear_all_valid st = Some ?st2" by (simp add: sym_clear_all_valid_def Let_def)
    with s2 wf d show ?thesis using keeps_refl by blast
  next
    case (Some m)
    have "wf_calc ?st2" "alloc ?st2 m" using wf Some by (simp_all add: wf_table_def)
    then obtain st' where c: "calc_value m ?st2 = Some st'" "keeps {} ?st2 st'"
      using calc.scv_ok[of ?st2 m] by blast
    have "sym_clear_all_valid st = Some st'"
      using Some c(1) by (simp add: sym_clear_all_valid_def Let_def)
    with s2 c d keeps_wf_table[OF c(2) wf] show ?thesis by (simp add: static_syms_def) blast
  qed
qed

lemma mark_visible_def: "def (syms (mark_visible_value d st) t) = def (syms st t)"
  "sym_has_value (syms st t) \<Longrightarrow> sym_has_value (syms (mark_visible_value d st) t)"
  by (auto simp: mark_visible_value_def set_flags_def sym_has_value_def)

lemma set_choice_ok:
  assumes "wf_table st" "alloc st s" "sym_is_choice_value (syms st s)" "sym_has_value (syms st s)"
  shows "\<exists>st'. set_choice_user s st = Some st' \<and> user_step st st' \<and> sym_has_value (syms st' s)"
proof -
  obtain p c where p: "sym_get_choice_prop s st = Some p" "prop_get_symbol (props st p) = Some c" "alloc st c"
    using assms(1-3) unfolding wf_table_def wf_calc_def wf_choice_value_def by blast
  let ?st1 = "set_flags {SYMBOL_DEF_USER} c (set_def_val S_DEF_USER (VSym s) c st)"
  have s1: "user_step st ?st1"
    by (rule user_step_trans[OF step_set_def_val step_set_flags])
      (use assms(2,3) in \<open>auto simp: user_flags_def\<close>)
  have "sym_is_choice (syms st c)" using assms(1-3) p by (simp add: wf_table_def)
  then obtain q where q: "sym_get_choice_prop c st = Some q"
    using assms(1) p(3) unfolding wf_table_def wf_calc_def wf_choice_def by blast
  let ?st2 = "fold mark_visible_value (expr_list_syms (prop_expr (props ?st1 q))) ?st1"
  have "set_choice_user s st = Some ?st2"
    using p q user_step_choice_prop[OF s1, of c] by (simp add: set_choice_user_def Let_def)
  moreover have "user_step st ?st2"
    by (rule user_step_trans[OF s1 user_step_fold[OF step_mark_visible]])
  moreover have "sym_has_value (syms (fold mark_visible_value xs a) s)" if "sym_has_value (syms a s)" for xs a
    using that by (induction xs arbitrary: a) (auto simp: mark_visible_def)
  moreover have "sym_has_value (syms ?st1 s)"
    using assms(4) by (simp add: sym_has_value_def set_flags_def set_def_val_def)
  ultimately show ?thesis by blast
qed

subsection \<open>Setting tristate values\<close>

lemma mark_user_has: "sym_has_value (syms (mark_user_value s st) s)"
proof -
  have "sym_has_value (syms (fold mark_menu_changed ps a) s) = sym_has_value (syms a s)" for ps a
    by (induction ps arbitrary: a) (simp_all add: mark_menu_changed_def split: option.split)
  then show ?thesis
    by (simp add: mark_user_value_def sym_set_changed_def Let_def sym_has_value_def set_flags_def)
qed

lemma set_def_tri_value:
  "sv_tri (def (syms (set_def_tri i t s st) s) i) = t"
  "sym_has_value (syms (set_def_tri i t s st) s) = sym_has_value (syms st s)"
  by (simp_all add: set_def_tri_def sym_has_value_def)

lemma set_tristate_ok:
  assumes "wf_table st" "alloc st s"
  shows "\<exists>ok st'. sym_set_tristate_value s val st = Some (ok, st') \<and> wf_table st' \<and>
    (ok \<longleftrightarrow> sym_get_tristate_value (syms st s) = val \<or> sym_tristate_within_range s val st) \<and>
    (if ok then sv_tri (def (syms st' s) S_DEF_USER) = val \<and> sym_has_value (syms st' s) else st' = st)"
proof (cases "sym_get_tristate_value (syms st s) \<noteq> val \<and> \<not> sym_tristate_within_range s val st")
  case True
  then have "sym_set_tristate_value s val st = Some (False, st)" by (simp add: sym_set_tristate_value_def)
  with True assms show ?thesis by auto
next
  case False
  let ?st1 = "mark_user_value s st"
  have s1: "user_step st ?st1" by (rule step_mark_user)
  note wf1 = user_step_wf[OF s1 assms(1)]
  obtain st2 where c: "(if sym_is_choice_value (syms ?st1 s) \<and> val = TYes then set_choice_user s ?st1
      else Some ?st1) = Some st2" "user_step ?st1 st2" "sym_has_value (syms st2 s)"
    using set_choice_ok[OF wf1, of s] mark_user_has[of s st] assms(2) user_step_alloc[OF s1]
    by (cases "sym_is_choice_value (syms ?st1 s) \<and> val = TYes") auto
  let ?st3 = "set_def_tri S_DEF_USER val s st2"
  have s3: "user_step st ?st3"
    by (rule user_step_trans[OF user_step_trans[OF s1 c(2)] step_set_def_tri])
  have wf3: "wf_table ?st3" by (rule user_step_wf[OF s3 assms(1)])
  show ?thesis
  proof (cases "sym_get_tristate_value (syms st s) = val")
    case True
    with c(1) have "sym_set_tristate_value s val st = Some (True, ?st3)"
      by (simp add: sym_set_tristate_value_def Let_def)
    with True wf3 c(3) show ?thesis by (intro exI[of _ True] exI[of _ ?st3]) (simp add: set_def_tri_value)
  next
    case ne: False
    obtain st4 st' where k: "sym_clear_all_valid ?st3 = Some st'" "keeps {} st4 st'" "wf_table st'"
        "\<forall>t. def (syms st4 t) = def (syms ?st3 t) \<and> sym_has_value (syms st4 t) = sym_has_value (syms ?st3 t)"
      using clear_all_ok[OF wf3] by blast
    have "sym_set_tristate_value s val st = Some (True, st')"
      using ne False c(1) k(1) by (simp add: sym_set_tristate_value_def Let_def)
    with ne False k(3,4) c(3) show ?thesis
      by (intro exI[of _ True] exI[of _ st']) (simp add: set_def_tri_value keeps_sym(3,10)[OF k(2)])
  qed
qed

text \<open>
  Setting a tristate value always returns, in a well-formed table: with false and the
  table as it was, exactly when the value is a new one that is not in range; and with true
  otherwise, when the value is the user value of the symbol.
\<close>

theorem set_tristate_value_total:
  assumes "wf_table st" "alloc st s"
  shows "\<exists>ok st'. sym_set_tristate_value s val st = Some (ok, st') \<and> wf_table st' \<and>
    (ok \<longleftrightarrow> sym_get_tristate_value (syms st s) = val \<or> sym_tristate_within_range s val st) \<and>
    (if ok then sv_tri (def (syms st' s) S_DEF_USER) = val \<and> sym_has_value (syms st' s) else st' = st)"
  by (rule set_tristate_ok[OF assms])

lemma ex_table: "wf_table ex_state"
proof -
  have "\<not> sym_is_choice_value (syms ex_state s)" for s
    by (cases s) (simp_all add: sym_is_choice_value_def ex_syms_def zero_symbol_def)
  then show ?thesis using ex_wf by (simp add: wf_table_def hash_inv_def chain_ok_def)
qed

lemma set_tristate_value_total_witness:
  "\<exists>st'. sym_set_tristate_value (Sym 2) TNo ex_state = Some (True, st') \<and>
     sv_tri (def (syms st' (Sym 2)) S_DEF_USER) = TNo \<and> sym_has_value (syms st' (Sym 2))"
proof -
  have "alloc ex_state (Sym 2)" by simp
  moreover have "sym_get_tristate_value (syms ex_state (Sym 2)) = TNo"
    by (simp add: sym_get_tristate_value_def ex_syms_def zero_symbol_def null_value_def)
  ultimately show ?thesis using set_tristate_value_total[OF ex_table, of "Sym 2" TNo] by auto
qed

subsection \<open>Toggling\<close>

lemma toggle_step:
  assumes "wf_table st" "alloc st s"
    and "\<And>v. oldval \<noteq> next_tristate newval \<Longrightarrow> v = next_tristate newval \<Longrightarrow>
      \<exists>w st'. toggle_loop n s oldval v st = Some (w, st') \<and> wf_table st' \<and>
        sv_tri (def (syms st' s) S_DEF_USER) = w"
    and "sym_get_tristate_value (syms st s) = oldval"
  shows "\<exists>w st'. toggle_loop (Suc n) s oldval newval st = Some (w, st') \<and> wf_table st' \<and>
    sv_tri (def (syms st' s) S_DEF_USER) = w"
proof -
  let ?v = "next_tristate newval"
  obtain ok st' where r: "sym_set_tristate_value s ?v st = Some (ok, st')" "wf_table st'"
      "ok \<longleftrightarrow> sym_get_tristate_value (syms st s) = ?v \<or> sym_tristate_within_range s ?v st"
      "if ok then sv_tri (def (syms st' s) S_DEF_USER) = ?v \<and> sym_has_value (syms st' s) else st' = st"
    using set_tristate_ok[OF assms(1,2), of ?v] by blast
  show ?thesis
  proof (cases ok)
    case True
    with r show ?thesis by simp
  next
    case False
    with r assms(4) have "oldval \<noteq> ?v" "st' = st" by auto
    with assms(3)[OF _ refl] r(1) False show ?thesis by simp
  qed
qed

text \<open>
  Toggling a tristate symbol returns after at most three attempts, in a well-formed table;
  the value it reports is the user value of the symbol.
\<close>

theorem toggle_returns:
  assumes "wf_table st" "alloc st s"
  shows "\<exists>v st'. sym_toggle_tristate_value s st = Some (v, st') \<and> wf_table st' \<and>
    sv_tri (def (syms st' s) S_DEF_USER) = v"
proof -
  let ?o = "sym_get_tristate_value (syms st s)"
  have cycle: "next_tristate (next_tristate (next_tristate ?o)) = ?o" by (cases ?o) simp_all
  note step = toggle_step[OF assms _ refl]
  have "\<exists>w st'. toggle_loop (Suc (Suc (Suc 0))) s ?o ?o st = Some (w, st') \<and> wf_table st' \<and>
      sv_tri (def (syms st' s) S_DEF_USER) = w"
  proof (rule step)
    fix v assume "v = next_tristate ?o"
    show "\<exists>w st'. toggle_loop (Suc (Suc 0)) s ?o v st = Some (w, st') \<and> wf_table st' \<and>
        sv_tri (def (syms st' s) S_DEF_USER) = w"
    proof (rule step)
      fix w assume "w = next_tristate v"
      show "\<exists>u st'. toggle_loop (Suc 0) s ?o w st = Some (u, st') \<and> wf_table st' \<and>
          sv_tri (def (syms st' s) S_DEF_USER) = u"
        by (rule step) (use cycle \<open>w = _\<close> \<open>v = _\<close> in simp)
    qed
  qed
  then show ?thesis by (simp add: sym_toggle_tristate_value_def Let_def eval_nat_numeral)
qed

lemma toggle_returns_witness:
  "\<exists>v st'. sym_toggle_tristate_value (Sym 2) ex_state = Some (v, st') \<and>
    sv_tri (def (syms st' (Sym 2)) S_DEF_USER) = v"
proof -
  have "alloc ex_state (Sym 2)" by simp
  with toggle_returns[OF ex_table] show ?thesis by blast
qed

end
