(* ===== verification/SymRange.thy ===== *)
theory SymRange
  imports SymSet
begin

text \<open>
  What the accepted inputs of the user do: a tristate in range becomes the value, a number is
  clamped into the range of its symbol, printed numbers are valid strings; and what the search
  for recursive dependencies finds.
\<close>

subsection \<open>Accepted tristates\<close>

lemma expr_value_same:
  assumes "\<And>t. sym_type (ss t) = sym_type (ss' t)" "\<And>t. curr (ss t) = curr (ss' t)"
  shows "expr_value ss e = expr_value ss' e"
proof -
  have "sym_get_tristate_value (ss t) = sym_get_tristate_value (ss' t)"
    "sym_get_string_value (ss t) = sym_get_string_value (ss' t)" for t
    using assms[of t]
    by (simp_all add: sym_get_tristate_value_def sym_get_string_value_def split: symbol_type.split)
  then show ?thesis by (induction e) simp_all
qed

lemma prompts_value_same:
  assumes "\<And>e. expr_value ss e = expr_value ss' e"
  shows "prompts_value ss pr ps = prompts_value ss' pr ps"
  by (induction ps) (simp_all add: assms)

lemma user_step_spec:
  assumes "user_step st st'"
  shows "visible_spec st' s = visible_spec st s" "rev_dep_spec st' s = rev_dep_spec st s"
    "two_valued_type st' s = two_valued_type st s"
proof -
  note f = user_step_fields[OF assms]
  have e: "expr_value (syms st') e = expr_value (syms st) e" for e
    by (rule expr_value_same) (simp_all add: f)
  show "visible_spec st' s = visible_spec st s" "rev_dep_spec st' s = rev_dep_spec st s"
    "two_valued_type st' s = two_valued_type st s"
    using prompts_value_same[of "syms st'" "syms st"] e
    by (simp_all add: visible_spec_def rev_dep_spec_def round_up_def two_valued_type_def Let_def f)
qed

text \<open>
  An accepted value takes effect: once a value in range is stored as the user value of a
  symbol outside a choice, it is the value the language gives the symbol.
\<close>

theorem accepted_value_effective:
  assumes "meets_spec st s" "plain_tristate st s" "sym_tristate_within_range s val st"
  shows "value_spec (set_def_tri S_DEF_USER val s (mark_user_value s st)) s = val"
proof -
  let ?st = "set_def_tri S_DEF_USER val s (mark_user_value s st)"
  have step: "user_step st ?st" by (rule user_step_trans[OF step_mark_user step_set_def_tri])
  have nc: "\<not> sym_is_choice_value (syms st s)" using assms(2) by (simp add: plain_tristate_def)
  have m: "val \<ge> rev_dep_spec st s" "val \<le> visible_spec st s" "visible_spec st s \<noteq> TNo"
    "\<not> (two_valued_type st s \<and> val = TMod)"
    using assms(1,3) nc get_type_two_valued[OF nc]
    by (auto simp: sym_tristate_within_range_def meets_spec_def Let_def split: if_splits)
  have "value_spec ?st s = round_up st s (max (min val (visible_spec st s)) (rev_dep_spec st s))"
    using m(3) mark_user_has[of s st]
    by (simp add: value_spec_def user_step_spec[OF step] set_def_tri_value round_up_def)
  also have "\<dots> = val" using m by (auto simp: round_up_def min_def max_def)
  finally show ?thesis .
qed

lemma accepted_value_effective_witness:
  "value_spec (set_def_tri S_DEF_USER TYes (Sym 0) (mark_user_value (Sym 0)
     (upd_sym (Sym 0) (\<lambda>y. y\<lparr>visible := TYes, curr := \<lparr>sv_val = VNull, sv_tri = TYes\<rparr>\<rparr>) ex_state))) (Sym 0) = TYes"
proof (rule accepted_value_effective)
  let ?st = "upd_sym (Sym 0) (\<lambda>y. y\<lparr>visible := TYes, curr := \<lparr>sv_val = VNull, sv_tri = TYes\<rparr>\<rparr>) ex_state"
  show "meets_spec ?st (Sym 0)"
    by (simp add: meets_spec_def visible_spec_def rev_dep_spec_def value_spec_def default_spec_def
        ex_syms_def ex_props_def zero_symbol_def zero_property_def find_prop_def round_up_def Let_def
        two_valued_type_def sym_get_tristate_value_def sym_has_value_def)
  show "plain_tristate ?st (Sym 0)" "sym_tristate_within_range (Sym 0) TYes ?st"
    by (simp_all add: plain_tristate_def sym_tristate_within_range_def ex_syms_def zero_symbol_def
        sym_is_choice_def sym_is_choice_value_def sym_get_type_def Let_def)
qed

subsection \<open>Ranges\<close>

text \<open>The number a bound of a range stands for in a table.\<close>

definition bound_num :: "kstate \<Rightarrow> nat \<Rightarrow> symptr \<Rightarrow> int" where
  "bound_num st base d =
     int32 (strtol (sval_string (sv_val (curr (syms st d))))
       (case sym_type (syms st d) of S_INT \<Rightarrow> 10 | S_HEX \<Rightarrow> 16 | _ \<Rightarrow> base))"

definition current_num :: "kstate \<Rightarrow> nat \<Rightarrow> symptr \<Rightarrow> int" where
  "current_num st base s = int32 (strtol (sval_string (sv_val (curr (syms st s)))) base)"

lemma bound_num_idem [simp]: "int32 (bound_num st base d) = bound_num st base d"
  by (simp add: bound_num_def)

lemma range_val_num:
  assumes "wf_calc st" "alloc st d"
  shows "\<exists>st'. sym_get_range_val calc_value d base st = Some (bound_num st' base d, st') \<and>
    keeps {} st st' \<and> valid st' d \<and> wf_calc st'"
  using calc.scv_ok[OF assms] calc.ready_empty[OF assms(1)]
  by (auto simp: sym_get_range_val_def bound_num_def Let_def)

lemma bound_num_keeps:
  "keeps {} st st' \<Longrightarrow> valid st d \<Longrightarrow> bound_num st' base d = bound_num st base d"
  by (simp add: bound_num_def keeps_curr keeps_sym(2))

lemma bound_num_strdup [simp]: "d \<noteq> s \<Longrightarrow> bound_num (strdup_curr s str st) base d = bound_num st base d"
  by (simp add: bound_num_def strdup_curr_def)

lemma current_num_strdup [simp]: "current_num (strdup_curr s str st) base s = int32 (strtol str base)"
  by (simp add: current_num_def strdup_curr_def)

lemma current_num_keeps:
  "keeps {} st st' \<Longrightarrow> valid st s \<Longrightarrow> current_num st' base s = current_num st base s"
  by (simp add: current_num_def keeps_curr)

lemma printed_num:
  "int32 n = n \<Longrightarrow> int32 (strtol (sprintf_d n) 10) = n" "int32 (strtol (sprintf_0x n) 16) = int32 n"
proof -
  assume "int32 n = n"
  then have "long_min \<le> n" "n \<le> long_max"
    using int32_range[of n] by (simp_all add: long_min_def long_max_def)
  with \<open>int32 n = n\<close> show "int32 (strtol (sprintf_d n) 10) = n" by (simp add: strtol_sprintf_d)
qed (simp add: strtol_sprintf_0x)

lemma clamp_arith:
  assumes "val \<ge> v1 \<longrightarrow> \<not> val \<le> v2" "v1 \<le> (v2 :: int)" "r = (if val \<ge> v1 then v2 else v1)"
  shows "v1 \<le> r \<and> r \<le> v2"
  using assms by auto

text \<open>
  C13.  \<open>sym_validate_range\<close> leaves the value of an integer or hexadecimal symbol with a visible
  range within the bounds, when these are in order and are not the symbol itself.
\<close>

theorem range_clamped:
  assumes "wf_calc st" "alloc st s" "s \<notin> static_syms" "valid st s"
    and "range_base (sym_type (syms st s)) = Some base"
  shows "\<exists>po st1 st'. sym_get_range_prop calc_value s st = Some (po, st1) \<and>
    sym_validate_range calc_value s st = Some st' \<and>
    (case po of
       None \<Rightarrow> st' = st1
     | Some p \<Rightarrow> \<exists>lo hi. range_bounds (prop_expr (props st p)) = Some (lo, hi) \<and>
         (lo \<noteq> s \<longrightarrow> hi \<noteq> s \<longrightarrow> bound_num st' base lo \<le> bound_num st' base hi \<longrightarrow>
            bound_num st' base lo \<le> current_num st' base s \<and>
            current_num st' base s \<le> bound_num st' base hi))"
proof -
  have ex: "exempt {s} st s" using assms(3) by (simp add: exempt_def)
  obtain po st1 where f: "sym_get_range_prop calc_value s st = Some (po, st1)" "keeps {s} st st1"
      "\<And>p. po = Some p \<Longrightarrow> p \<in> set (sym_prop (syms st s)) \<and> prop_type (props st p) = P_RANGE"
    using calc.first_visible_ok[OF assms(1,2) subset_refl ex, of P_RANGE]
    unfolding sym_get_range_prop_def by blast
  note r1 = calc.ready_exempt[OF assms(1) ex f(2)]
  show ?thesis
  proof (cases po)
    case None
    with f(1) assms(5) show ?thesis by (simp add: sym_validate_range_def)
  next
    case po: (Some p)
    note own = calc.own_prop[OF assms(1,2) conjunct1[OF f(3)[OF po]]]
    obtain lo hi where b: "range_bounds (prop_expr (props st p)) = Some (lo, hi)"
      using own(4) f(3)[OF po] by auto
    then have al: "alloc st1 lo" "alloc st1 hi"
      using own(3) by (cases "prop_expr (props st p)"; simp add: keeps_alloc[OF f(2)])+
    obtain st2 where v1: "sym_get_range_val calc_value lo base st1 = Some (bound_num st2 base lo, st2)"
        "keeps {} st1 st2" "valid st2 lo" "wf_calc st2"
      using range_val_num[OF r1 al(1)] by blast
    obtain st3 where v2: "sym_get_range_val calc_value hi base st2 = Some (bound_num st3 base hi, st3)"
        "keeps {} st2 st3" "valid st3 hi"
      using range_val_num[OF v1(4), of hi] al(2) by (auto simp: keeps_alloc[OF v1(2)])
    have v: "valid st1 s" "valid st2 s" using keeps_valid[OF f(2) assms(4)] keeps_valid[OF v1(2)] by auto
    note num = current_num_keeps[OF v1(2) v(1)] current_num_keeps[OF v2(2) v(2)]
      bound_num_keeps[OF v2(2) v1(3)]
    define val where "val = current_num st1 base s"
    define low where "low = bound_num st2 base lo"
    define end_st where "end_st = (if val \<ge> low then st3 else st2)"
    define res where "res = (if val \<ge> low then bound_num st3 base hi else low)"
    define str where "str = (if base = 10 then sprintf_d res else sprintf_0x res)"
    have ty: "base = 10 \<longleftrightarrow> sym_type (syms st s) = S_INT" "base = 10 \<or> base = 16"
      using assms(5) by (auto simp: range_base_def split: symbol_type.splits)
    have types: "sym_type (syms st1 s) = sym_type (syms st s)" "sym_type (syms st2 s) = sym_type (syms st s)"
      "sym_type (syms st3 s) = sym_type (syms st s)"
      using keeps_sym(2)[OF f(2)] keeps_sym(2)[OF v1(2)] keeps_sym(2)[OF v2(2)] by simp_all
    have eq: "sym_validate_range calc_value s st =
        Some (if val \<ge> low \<and> val \<le> bound_num st3 base hi then st3 else strdup_curr s str end_st)"
      using assms(5) f(1) po b v1(1) v2(1) ty
      by (simp add: sym_validate_range_def Let_def keeps_prop(5)[OF f(2)] types end_st_def res_def str_def
          val_def[unfolded current_num_def] low_def)
    have str: "int32 (strtol str base) = res"
      using ty(2) printed_num[of res] by (auto simp: str_def res_def low_def)
    show ?thesis
    proof (cases "val \<ge> low \<and> val \<le> bound_num st3 base hi")
      case True
      with f(1) po b eq num show ?thesis by (simp add: val_def low_def)
    next
      case False
      have "bound_num end_st base lo = low" using num by (simp add: end_st_def low_def)
      moreover have "val \<ge> low \<longrightarrow> bound_num end_st base hi = res" by (simp add: end_st_def res_def)
      moreover have "\<not> val \<ge> low \<longrightarrow> res = low" by (simp add: res_def)
      ultimately show ?thesis using f(1) po b eq False str by auto
    qed
  qed
qed

text \<open>A constant is its name.\<close>

lemma calc_constant:
  "sym_type (syms st d) = S_UNKNOWN \<Longrightarrow> SYMBOL_VALID \<notin> flags (syms st d) \<Longrightarrow>
   calc_value d st = Some (set_curr (name_value d st) d (set_flags {SYMBOL_VALID} d st))"
  by (simp add: calc_value_def calc_fuel_def calc_body_def initial_value_def name_value_def set_flags_def)

lemma int32_digit: "int32 (strtol ''3'' 10) = 3" "int32 (strtol ''9'' 10) = 9" "int32 (strtol ''50'' 10) = 50"
  by (simp_all add: strtol_def isspace_def code_def digit_val_def isdigit_def long_max_def long_min_def int32_id)

lemma range_clamped_witness:
  "\<exists>st'. sym_validate_range calc_value (Sym 3) ex_state = Some st' \<and>
    3 \<le> current_num st' 10 (Sym 3) \<and> current_num st' 10 (Sym 3) \<le> 9"
proof -
  have "alloc ex_state (Sym 3)" "Sym 3 \<notin> static_syms" "valid ex_state (Sym 3)"
    "range_base (sym_type (syms ex_state (Sym 3))) = Some 10"
    by (simp_all add: static_syms_def valid_def ex_syms_def range_base_def)
  from range_clamped[OF ex_wf this] obtain po st1 st' where
    r: "sym_get_range_prop calc_value (Sym 3) ex_state = Some (po, st1)"
      "sym_validate_range calc_value (Sym 3) ex_state = Some st'"
      "case po of None \<Rightarrow> st' = st1
       | Some p \<Rightarrow> \<exists>lo hi. range_bounds (prop_expr (props ex_state p)) = Some (lo, hi) \<and>
         (lo \<noteq> Sym 3 \<longrightarrow> hi \<noteq> Sym 3 \<longrightarrow> bound_num st' 10 lo \<le> bound_num st' 10 hi \<longrightarrow>
            bound_num st' 10 lo \<le> current_num st' 10 (Sym 3) \<and>
            current_num st' 10 (Sym 3) \<le> bound_num st' 10 hi)"
    by blast
  have "po = Some 3"
    using r(1) by (simp add: sym_get_range_prop_def ex_syms_def ex_props_def calc_prop_visible_def
        zero_property_def)
  moreover have "bound_num st' 10 (Sym 4) = 3 \<and> bound_num st' 10 (Sym 5) = 9"
    using r(2) by (auto simp: sym_validate_range_def range_base_def ex_syms_def
        sym_get_range_prop_def ex_props_def calc_prop_visible_def sym_get_range_val_def calc_constant
        zero_property_def Let_def bound_num_def zero_symbol_def name_value_def set_curr_def set_flags_def
        int32_digit strdup_curr_def)
  ultimately show ?thesis using r(2,3) by (simp add: ex_props_def)
qed

subsection \<open>Printed numbers\<close>

lemma digits_hd_nonzero: "2 \<le> b \<Longrightarrow> b \<le> 16 \<Longrightarrow> 0 < n \<Longrightarrow> hd (digits b n) \<noteq> CHR ''0''"
proof (induction b n rule: digits.induct)
  case (1 b n)
  show ?case
  proof (cases "n < b")
    case True
    then have "code (digit_char n) \<noteq> 48" using 1(3,4) code_digit_char[of n] by simp
    then show ?thesis using True by (auto simp: digits.simps[of b n] code_def)
  next
    case False
    then have "0 < n div b" using 1(2) by (simp add: div_greater_zero_iff)
    with 1 False show ?thesis by (simp add: digits.simps[of b n])
  qed
qed

lemma digits_all: "2 \<le> b \<Longrightarrow> b \<le> 16 \<Longrightarrow> (\<And>d. d < b \<Longrightarrow> P (digit_char d)) \<Longrightarrow> list_all P (digits b n)"
  using digits_set[of b _ n] by (fastforce simp: list_all_iff)

lemma int_digits_valid_digits: "int_digits_valid (digits 10 n)"
proof (cases "n = 0")
  case True
  then show ?thesis by (simp add: digits.simps[of 10 0] isdigit_digit_char)
next
  case False
  have "list_all isdigit (digits 10 n)" by (rule digits_all) (simp_all add: isdigit_digit_char)
  moreover have "hd (digits 10 n) \<noteq> CHR ''0''" using False digits_hd_nonzero[of 10 n] by simp
  ultimately show ?thesis by (cases "digits 10 n") auto
qed

lemma strip_minus_digits: "strip_minus (digits 10 n) = digits 10 n"
proof -
  obtain d cs where "digits 10 n = digit_char d # cs" "d < 10"
    using digits_hd[of 10 n] by (cases "digits 10 n") auto
  with digit_char_first[of d] show ?thesis by simp
qed

text \<open>
  The strings the code prints for the bound of a range are valid values of an integer and
  of a hexadecimal symbol, and are read back as the number printed.
\<close>

theorem printed_number_valid:
  assumes "- (2 ^ 31) \<le> n" "n < 2 ^ 31"
  shows "sym_string_valid S_INT (sprintf_d n) \<and> int32 (strtol (sprintf_d n) 10) = n \<and>
    sym_string_valid S_HEX (sprintf_0x n) \<and> int32 (strtol (sprintf_0x n) 16) = n"
proof -
  have "int32 n = n" using assms by (rule int32_id)
  moreover have "list_all isxdigit (digits 16 m)" for m
    by (rule digits_all) (simp_all add: isxdigit_digit_char)
  ultimately show ?thesis
    using printed_num[of n]
    by (auto simp: sym_string_valid_def sprintf_d_def sprintf_0x_def Let_def
        int_digits_valid_digits strip_minus_digits)
qed

lemma printed_number_valid_witness: "sym_string_valid S_INT (sprintf_d (- 12)) \<and>
   int32 (strtol (sprintf_d (- 12)) 10) = - 12"
  using printed_number_valid[of "- 12"] by simp

subsection \<open>Recursive dependencies\<close>

text \<open>
  The report of a recursive dependency follows a null pointer when the check starts at a
  symbol that is only selected, never declared (so that it has no property), and the symbol
  that selects it depends on it: the check does not return.
\<close>

theorem cycle_report_null:
  assumes "sym_prop (syms st x) = []" "rev_dep_expr (syms st x) = E_SYMBOL a"
    and "flags (syms st x) = {}" "flags (syms st a) = {}" "a \<noteq> x"
    and "rev_dep_expr (syms st a) = Null" "sym_prop (syms st a) = p # ps"
    and "prop_type (props st p) = P_PROMPT" "visible_expr (props st p) = E_SYMBOL x"
  shows "check_deps x st = None"
proof -
  obtain n where n: "check_fuel st = Suc (Suc (Suc n))"
    by (auto simp: check_fuel_def eval_nat_numeral intro: that[of "2 * next_sym st + 9"])
  show ?thesis
    using assms unfolding check_deps_def n
    by (simp add: sym_check_sym_deps_def sym_is_choice_value_def sym_is_choice_def set_flags_def)
qed

definition ex_cycle :: kstate where
  "ex_cycle = empty_state\<lparr>
     syms := (\<lambda>s. if s = Sym 0 then zero_symbol\<lparr>sym_name := Some ''X'', rev_dep_expr := E_SYMBOL (Sym 2)\<rparr>
       else if s = Sym 2 then zero_symbol\<lparr>sym_name := Some ''A'', sym_type := S_BOOLEAN, sym_prop := [0, 1]\<rparr>
       else init_static s),
     props := (\<lambda>n. if n = 0 then zero_property\<lparr>prop_sym := Some (Sym 2), prop_type := P_PROMPT,
         prop_text := Some ''a'', visible_expr := E_SYMBOL (Sym 0), prop_file := Some 0\<rparr>
       else zero_property\<lparr>prop_sym := Some (Sym 2), prop_type := P_SELECT, prop_expr := E_SYMBOL (Sym 0),
         prop_file := Some 0\<rparr>),
     next_sym := 3, next_prop := 2\<rparr>"

lemma cycle_report_null_witness: "check_deps (Sym 0) ex_cycle = None"
  by (rule cycle_report_null[where a = "Sym 2" and p = 0 and ps = "[1]"])
    (simp_all add: ex_cycle_def empty_state_def zero_symbol_def zero_property_def)

end
