(* ===== verification/Fixdep.thy ===== *)
theory Fixdep
  imports CLib
begin

text \<open>
  \<^verbatim>\<open>fixdep\<close>, the program that rewrites the dependency files of the compiler: \<^verbatim>\<open>fixdep.c\<close>.

  A mapped file is the list of its bytes; reads past its end, within the last page, give zero
  bytes.  The files are a map from names to contents.  The result is an error (an exit status,
  or undefined behaviour: a buffer overrun or a negative length) or the new state.
\<close>

datatype fix_error = Exit nat | Undefined

type_synonym 'a result = "fix_error + 'a"

record fixdep =
  str_config :: string
  out :: string

definition emit :: "string \<Rightarrow> fixdep \<Rightarrow> fixdep" where
  "emit s st = st\<lparr>out := out st @ s\<rparr>"

subsection \<open>The configuration string\<close>

definition is_defined_config :: "string \<Rightarrow> fixdep \<Rightarrow> bool" where
  "is_defined_config name st =
     (let cfg = str_config st; len = length name in
      list_ex (\<lambda>p. cfg ! (p - 1) = newline \<and> cfg ! (p + len) = newline \<and> take len (drop p cfg) = name)
        [1..<length cfg - len])"

definition define_config :: "string \<Rightarrow> fixdep \<Rightarrow> fixdep" where
  "define_config name st = st\<lparr>str_config := str_config st @ name @ [newline]\<rparr>"

definition clear_config :: "fixdep \<Rightarrow> fixdep" where
  "clear_config st = define_config [] (st\<lparr>str_config := []\<rparr>)"

definition config_path :: "string \<Rightarrow> string" where
  "config_path = map (\<lambda>c. if c = CHR ''_'' then CHR ''/'' else tolower c)"

definition wildcard_line :: "string \<Rightarrow> string" where
  "wildcard_line name =
     ''    $(wildcard include/config/'' @ config_path name @ ''.h) '' @ [CHR 0x5C, newline]"

definition use_config :: "string \<Rightarrow> fixdep \<Rightarrow> fixdep result" where
  "use_config m st =
     (if is_defined_config m st then Inr st
      else if length m \<ge> PATH_MAX then Inl Undefined
      else Inr (emit (wildcard_line m) (define_config m st)))"

subsection \<open>Scanning a source file\<close>

text \<open>The four bytes at an aligned offset, and the start of \<^verbatim>\<open>CONFIG_\<close> they would belong to.\<close>

definition word_at :: "string \<Rightarrow> nat \<Rightarrow> string" where
  "word_at bs m = take 4 (drop m bs @ [nul, nul, nul])"

definition conf_start :: "string \<Rightarrow> nat \<Rightarrow> nat option" where
  "conf_start bs m =
     (let w = word_at bs m in
      if w = ''CONF'' then Some m
      else if w = ''ONFI'' then Some (m - 1)
      else if w = ''NFIG'' then Some (m - 2)
      else if w = ''FIG_'' then Some (m - 3)
      else None)"

definition word_char :: "char \<Rightarrow> bool" where
  "word_char c \<longleftrightarrow> isalnum c \<or> c = CHR ''_''"

text \<open>
  \<^verbatim>\<open>memcmp(p, "MKR_", 7)\<close> compares seven bytes with a literal of five: \<open>tail\<close> are the two bytes
  that follow the literal in memory.
\<close>

definition prefix_differs :: "string \<Rightarrow> string \<Rightarrow> nat \<Rightarrow> bool" where
  "prefix_differs tail bs p \<longleftrightarrow> take 7 (drop p bs) \<noteq> ''MKR_'' @ [nul] @ tail"

definition scan_at :: "string \<Rightarrow> string \<Rightarrow> nat \<Rightarrow> fixdep \<Rightarrow> fixdep result" where
  "scan_at tail bs m st =
     (case conf_start bs m of
        None \<Rightarrow> Inr st
      | Some p \<Rightarrow>
          if int p > int (length bs) - 7 then Inr st
          else if prefix_differs tail bs p then Inr st
          else
            (let q = p + 7 + length (takeWhile word_char (drop (p + 7) bs)) in
             if q \<ge> length bs then Inr st
             else
               (let q' = (if take 7 (drop (q - 7) bs) = ''_MODULE'' then q - 7 else q) in
                if q' < p + 7 then Inr st
                else use_config (take (q' - (p + 7)) (drop (p + 7) bs)) st)))"

fun fold_result :: "('a \<Rightarrow> 'b \<Rightarrow> 'b result) \<Rightarrow> 'a list \<Rightarrow> 'b \<Rightarrow> 'b result" where
  "fold_result f [] st = Inr st"
| "fold_result f (x # xs) st = (case f x st of Inl e \<Rightarrow> Inl e | Inr st' \<Rightarrow> fold_result f xs st')"

definition parse_config_file :: "string \<Rightarrow> string \<Rightarrow> fixdep \<Rightarrow> fixdep result" where
  "parse_config_file tail bs =
     fold_result (scan_at tail bs)
       (filter (\<lambda>m. m < length bs) (map ((*) 4) [1..<Suc (length bs div 4)]))"

type_synonym files = "string \<Rightarrow> string option"

definition do_config_file :: "string \<Rightarrow> files \<Rightarrow> string \<Rightarrow> fixdep \<Rightarrow> fixdep result" where
  "do_config_file tail fs name st =
     (case fs name of
        None \<Rightarrow> Inl (Exit 2)
      | Some bs \<Rightarrow> if bs = [] then Inr st else parse_config_file tail bs st)"

subsection \<open>Rewriting the dependency file\<close>

text \<open>False, as 0, when \<open>s\<close> ends in \<open>sub\<close>.\<close>

definition strrcmp :: "string \<Rightarrow> string \<Rightarrow> bool" where
  "strrcmp s sub \<longleftrightarrow> (if length sub > length s then True else drop (length s - length sub) s \<noteq> sub)"

definition wanted :: "string \<Rightarrow> bool" where
  "wanted s \<longleftrightarrow> strrcmp s ''include/generated/autoconf.h'' \<and>
     strrcmp s ''arch/um/include/uml-config.h'' \<and> strrcmp s ''.ver''"

definition blank :: "char \<Rightarrow> bool" where
  "blank c \<longleftrightarrow> c = CHR '' '' \<or> c = CHR 0x5C \<or> c = newline"

text \<open>
  The end of a name that runs to the end of the file: just after the last alphanumeric byte at
  or before it; \<open>None\<close> when the file has none and the loop runs off its start.
\<close>

fun back_to_alnum :: "string \<Rightarrow> nat \<Rightarrow> nat option" where
  "back_to_alnum bs 0 = None"
| "back_to_alnum bs (Suc p) = (if isalnum (bs ! p) then Some (Suc p) else back_to_alnum bs p)"

definition token_end :: "string \<Rightarrow> nat \<Rightarrow> nat option" where
  "token_end bs m =
     (let p = m + length (takeWhile (\<lambda>c. c \<noteq> CHR '' '') (drop m bs)) in
      if p = length bs then back_to_alnum bs p else Some p)"

definition dep_name :: "string \<Rightarrow> string" where
  "dep_name = takeWhile (\<lambda>c. c \<noteq> nul)"

definition dep_line :: "string \<Rightarrow> string" where
  "dep_line s = ''  '' @ s @ '' '' @ [CHR 0x5C, newline]"

text \<open>The loop over the names; a name that ends before it starts has a negative length.\<close>

function parse_deps :: "string \<Rightarrow> files \<Rightarrow> string \<Rightarrow> nat \<Rightarrow> fixdep \<Rightarrow> fixdep result" where
  "parse_deps tail fs bs m st =
     (if \<not> m < length bs then Inr st
      else
        (let a = m + length (takeWhile blank (drop m bs)) in
         case token_end bs a of
           None \<Rightarrow> Inl Undefined
         | Some p \<Rightarrow>
             if p < a \<or> p - a \<ge> PATH_MAX then Inl Undefined
             else
               (let s = dep_name (take (p - a) (drop a bs)) in
                case (if wanted s then do_config_file tail fs s (emit (dep_line s) st) else Inr st) of
                  Inl e \<Rightarrow> Inl e
                | Inr st' \<Rightarrow> parse_deps tail fs bs (p + 1) st')))"
  by pat_completeness auto
termination
  by (relation "measure (\<lambda>(tail, fs, bs, m, st). length bs - m)") auto

declare parse_deps.simps [simp del]

definition parse_dep_file :: "string \<Rightarrow> files \<Rightarrow> string \<Rightarrow> string \<Rightarrow> fixdep \<Rightarrow> fixdep result" where
  "parse_dep_file tail fs target bs st =
     (case strchr bs (CHR '':'') of
        None \<Rightarrow> Inl (Exit 1)
      | Some i \<Rightarrow>
          if i \<ge> PATH_MAX then Inl Undefined
          else
            (let st1 = clear_config (emit (''deps_'' @ target @ '' := '' @ [CHR 0x5C, newline]) st) in
             case parse_deps tail fs bs (i + 1) st1 of
               Inl e \<Rightarrow> Inl e
             | Inr st2 \<Rightarrow>
                 Inr (emit (newline # target @ '': $(deps_'' @ target @ '')'' @ [newline, newline] @
                   ''$(deps_'' @ target @ ''):'' @ [newline]) st2)))"

definition print_deps :: "string \<Rightarrow> files \<Rightarrow> string \<Rightarrow> string \<Rightarrow> fixdep \<Rightarrow> fixdep result" where
  "print_deps tail fs depfile target st =
     (case fs depfile of
        None \<Rightarrow> Inl (Exit 2)
      | Some bs \<Rightarrow> if bs = [] then Inr st else parse_dep_file tail fs target bs st)"

definition print_cmdline :: "string \<Rightarrow> string \<Rightarrow> fixdep \<Rightarrow> fixdep" where
  "print_cmdline target cmdline = emit (''cmd_'' @ target @ '' := '' @ cmdline @ [newline, newline])"

fun fixdep_main :: "string \<Rightarrow> files \<Rightarrow> string list \<Rightarrow> fixdep result" where
  "fixdep_main tail fs [prog, depfile, target, cmdline] =
     print_deps tail fs depfile target (print_cmdline target cmdline \<lparr>str_config = [], out = []\<rparr>)"
| "fixdep_main tail fs args = Inl (Exit 1)"

subsection \<open>The configuration string is a set of names\<close>

definition config_of :: "string list \<Rightarrow> string" where
  "config_of ns = newline # concat (map (\<lambda>n. n @ [newline]) ns)"

lemma config_of_Cons: "config_of (n # ns) = newline # n @ config_of ns"
  by (simp add: config_of_def)

lemma config_of_snoc: "config_of (ns @ [n]) = config_of ns @ n @ [newline]"
  by (simp add: config_of_def)

lemma is_defined_iff:
  "is_defined_config name st \<longleftrightarrow>
   (\<exists>a b. str_config st = a @ newline # name @ newline # b)" (is "?l \<longleftrightarrow> ?r")
proof
  assume ?l
  let ?c = "str_config st"
  obtain p where p: "1 \<le> p" "p < length ?c - length name" "?c ! (p - 1) = newline"
      "?c ! (p + length name) = newline" "take (length name) (drop p ?c) = name"
    using \<open>?l\<close> by (auto simp: is_defined_config_def Let_def list_ex_iff)
  have "?c = take (p - 1) ?c @ newline # drop p ?c"
    using p(1-3) id_take_nth_drop[of "p - 1" ?c] by simp
  moreover have "drop p ?c = name @ drop (p + length name) ?c"
    using p(5) append_take_drop_id[of "length name" "drop p ?c"] by (simp add: add.commute)
  moreover have "drop (p + length name) ?c = newline # drop (Suc (p + length name)) ?c"
    using p(2,4) Cons_nth_drop_Suc[of "p + length name" ?c] by simp
  ultimately show ?r by metis
next
  assume ?r
  then obtain a b where c: "str_config st = a @ newline # name @ newline # b" by blast
  then have "Suc (length a) \<in> {1..<length (str_config st) - length name}" by simp
  with c show ?l
    by (auto simp: is_defined_config_def Let_def list_ex_iff nth_append intro!: bexI[of _ "Suc (length a)"])
qed

lemma takeWhile_newline: "newline \<notin> set n \<Longrightarrow> takeWhile (\<lambda>c. c \<noteq> newline) (n @ newline # r) = n"
  by (induction n) auto

lemma newline_split:
  assumes "newline \<notin> set n" "newline \<notin> set m" "n @ newline # r = m @ newline # s"
  shows "n = m \<and> r = s"
  using assms takeWhile_newline[of n r] takeWhile_newline[of m s] by simp

lemma newline_skip:
  assumes "newline \<notin> set n" "a @ newline # r = n @ newline # s"
  shows "\<exists>a'. a = n @ a' \<and> a' @ newline # r = newline # s"
  using assms by (auto simp: append_eq_append_conv2 Cons_eq_append_conv append_eq_Cons_conv)

lemma config_of_mem:
  assumes "newline \<notin> set name" "\<forall>n\<in>set ns. newline \<notin> set n"
  shows "(\<exists>a b. config_of ns = a @ newline # name @ newline # b) \<longleftrightarrow> name \<in> set ns"
  using assms(2)
proof (induction ns)
  case Nil
  show ?case by (auto simp: config_of_def Cons_eq_append_conv)
next
  case (Cons n ns)
  obtain s where s: "config_of ns = newline # s" by (simp add: config_of_def)
  have "(\<exists>a b. config_of (n # ns) = a @ newline # name @ newline # b) \<longleftrightarrow>
      name = n \<or> (\<exists>a b. config_of ns = a @ newline # name @ newline # b)" (is "?l \<longleftrightarrow> ?r")
  proof
    assume ?l
    then obtain a b where ab: "newline # n @ config_of ns = a @ newline # name @ newline # b"
      by (auto simp: config_of_Cons)
    show ?r
    proof (cases a)
      case Nil
      with ab s newline_split[of n name s b] Cons.prems assms(1) show ?thesis by simp
    next
      case (Cons c a')
      with ab s have "a' @ newline # (name @ newline # b) = n @ newline # s" by simp
      then obtain a'' where "a'' @ newline # (name @ newline # b) = newline # s"
        using newline_skip[of n a' "name @ newline # b" s] Cons.prems by auto
      with s show ?thesis by metis
    qed
  next
    assume ?r
    then show ?l
    proof
      assume "name = n"
      then show ?l using s by (auto simp: config_of_Cons intro: exI[of _ "[]"])
    next
      assume "\<exists>a b. config_of ns = a @ newline # name @ newline # b"
      then obtain a b where "config_of ns = a @ newline # name @ newline # b" by blast
      then have "config_of (n # ns) = (newline # n @ a) @ newline # name @ newline # b"
        by (simp add: config_of_Cons)
      then show ?l by blast
    qed
  qed
  with Cons show ?case by auto
qed

lemma is_defined_set:
  assumes "str_config st = config_of ns" "newline \<notin> set name" "\<forall>n\<in>set ns. newline \<notin> set n"
  shows "is_defined_config name st \<longleftrightarrow> name \<in> set ns"
  using assms config_of_mem[OF assms(2,3)] by (simp add: is_defined_iff)

subsection \<open>Properties\<close>

text \<open>The names of a list at their first occurrence.\<close>

fun first_uses :: "string set \<Rightarrow> string list \<Rightarrow> string list" where
  "first_uses seen [] = []"
| "first_uses seen (n # ns) =
     (if n \<in> seen then first_uses seen ns else n # first_uses (insert n seen) ns)"

lemma use_config_of:
  assumes "str_config st = config_of ns" "newline \<notin> set n" "\<forall>n\<in>set ns. newline \<notin> set n"
    "length n < PATH_MAX"
  shows "use_config n st = Inr (if n \<in> set ns then st else
    \<lparr>str_config = config_of (ns @ [n]), out = out st @ wildcard_line n\<rparr>)"
  using assms is_defined_set[OF assms(1-3)]
  by (simp add: use_config_def config_of_snoc define_config_def emit_def)

lemma use_all:
  assumes "str_config st = config_of ns" "\<forall>n\<in>set ns. newline \<notin> set n"
    "\<forall>n\<in>set ms. newline \<notin> set n \<and> length n < PATH_MAX"
  shows "fold_result use_config ms st = Inr
    \<lparr>str_config = config_of (ns @ first_uses (set ns) ms),
     out = out st @ concat (map wildcard_line (first_uses (set ns) ms))\<rparr>"
  using assms
proof (induction ms arbitrary: st ns)
  case Nil
  then show ?case by simp
next
  case (Cons n ms)
  then have u: "use_config n st = Inr (if n \<in> set ns then st else
      \<lparr>str_config = config_of (ns @ [n]), out = out st @ wildcard_line n\<rparr>)"
    by (intro use_config_of) auto
  show ?case
  proof (cases "n \<in> set ns")
    case True
    then show ?thesis using u Cons by simp
  next
    case False
    then show ?thesis
      using u Cons.prems Cons.IH[of "\<lparr>str_config = config_of (ns @ [n]), out = out st @ wildcard_line n\<rparr>" "ns @ [n]"]
      by simp
  qed
qed

text \<open>
  C39.  Recording uses of configuration names, from a cleared configuration string on, prints
  one wildcard line for each name, in the order of the first uses: the search in the string is
  membership in the set of the names recorded.
\<close>

theorem use_config_once:
  assumes "\<And>n. n \<in> set ms \<Longrightarrow> newline \<notin> set n \<and> length n < PATH_MAX"
  shows "\<exists>st'. fold_result use_config ms (clear_config st) = Inr st' \<and>
    out st' = out st @ concat (map wildcard_line (first_uses {} ms)) \<and>
    (\<forall>n. newline \<notin> set n \<longrightarrow> is_defined_config n st' \<longleftrightarrow> n \<in> set ms)"
proof -
  have uses: "set (first_uses A ms) \<union> A = set ms \<union> A" for A
    by (induction A ms rule: first_uses.induct) auto
  have "str_config (clear_config st) = config_of []" "out (clear_config st) = out st"
    by (simp_all add: clear_config_def define_config_def config_of_def)
  then have r: "fold_result use_config ms (clear_config st) = Inr
      \<lparr>str_config = config_of (first_uses {} ms), out = out st @ concat (map wildcard_line (first_uses {} ms))\<rparr>"
    using use_all[of "clear_config st" "[]" ms] assms by simp
  have nl: "\<forall>n\<in>set (first_uses {} ms). newline \<notin> set n" using uses[of "{}"] assms by auto
  show ?thesis
    unfolding r using is_defined_set[OF _ _ nl] uses[of "{}"] by simp
qed

lemma use_config_once_witness:
  "\<exists>st'. fold_result use_config [''FOO'', ''BAR_B'', ''FOO''] (clear_config \<lparr>str_config = [], out = []\<rparr>) = Inr st' \<and>
     out st' = wildcard_line ''FOO'' @ wildcard_line ''BAR_B''"
proof -
  have "\<And>n. n \<in> set [''FOO'', ''BAR_B'', ''FOO''] \<Longrightarrow> newline \<notin> set n \<and> length n < PATH_MAX"
    by (auto simp: newline_def PATH_MAX_def)
  from use_config_once[where ms = "[''FOO'', ''BAR_B'', ''FOO'']", OF this, where st = "\<lparr>str_config = [], out = []\<rparr>"]
  obtain st' where "fold_result use_config [''FOO'', ''BAR_B'', ''FOO''] (clear_config \<lparr>str_config = [], out = []\<rparr>) = Inr st'"
    "out st' = concat (map wildcard_line (first_uses {} [''FOO'', ''BAR_B'', ''FOO'']))" by auto
  then show ?thesis by auto
qed

lemma prefix_always_differs: "conf_start bs m = Some p \<Longrightarrow> 4 \<le> m \<Longrightarrow> prefix_differs tail bs p"
proof (rule ccontr)
  assume c: "conf_start bs m = Some p" "4 \<le> m" "\<not> prefix_differs tail bs p"
  from c(3) obtain rest where "drop p bs = ''MKR_'' @ rest"
    unfolding prefix_differs_def by (metis append_assoc append_take_drop_id)
  moreover have "drop m bs = drop (m - p) (drop p bs)" "m - p \<le> 3" "p \<le> m"
    using c(1,2) by (auto simp: conf_start_def Let_def split: if_splits)
  ultimately show False
    using c(1,2) by (auto simp: conf_start_def word_at_def Let_def split: if_splits)
qed

lemma no_use:
  assumes "\<forall>m\<in>set ms. 4 \<le> m"
  shows "fold_result (scan_at tail bs) ms st = Inr st"
  using assms prefix_always_differs
  by (induction ms) (auto simp: scan_at_def split: option.split)

text \<open>
  No source file ever makes \<^verbatim>\<open>fixdep\<close> record the use of a configuration name: wherever the
  scan stops at a piece of \<^verbatim>\<open>CONFIG_\<close>, the comparison with the seven bytes of the literal
  \<^verbatim>\<open>"MKR_"\<close> and what follows it fails.
\<close>

theorem no_config_dependency: "parse_config_file tail bs st = Inr st"
  unfolding parse_config_file_def by (rule no_use) auto

subsection \<open>The dependency file\<close>

text \<open>A dependency and the blanks before it; the text of a list of them.\<close>

definition deps_text :: "(string \<times> string) list \<Rightarrow> string" where
  "deps_text ds = concat (map (\<lambda>(b, d). CHR '' '' # b @ d) ds)"

definition dep_ok :: "string \<times> string \<Rightarrow> bool" where
  "dep_ok x \<longleftrightarrow> (case x of (b, d) \<Rightarrow>
     list_all blank b \<and> d \<noteq> [] \<and> \<not> blank (hd d) \<and> CHR '' '' \<notin> set d \<and> nul \<notin> set d \<and>
     length d < PATH_MAX - 1 \<and> isalnum (last d))"

lemma takeWhile_blank: "list_all blank b \<Longrightarrow> d \<noteq> [] \<Longrightarrow> \<not> blank (hd d) \<Longrightarrow> takeWhile blank (b @ d @ r) = b"
  by (induction b) (auto simp: hd_append takeWhile_eq_Nil_iff)

lemma takeWhile_no_space: "CHR '' '' \<notin> set d \<Longrightarrow>
    takeWhile (\<lambda>c. c \<noteq> CHR '' '') (d @ r) = d @ takeWhile (\<lambda>c. c \<noteq> CHR '' '') r"
  by (induction d) auto

lemma dep_name_id: "nul \<notin> set d \<Longrightarrow> dep_name d = d"
  by (induction d) (auto simp: dep_name_def)

lemma do_config_file_ok: "fs d = Some bs \<Longrightarrow> do_config_file tail fs d st = Inr st"
proof -
  have "parse_config_file tail bs st = Inr st"
    unfolding parse_config_file_def by (rule no_use) auto
  then show "fs d = Some bs \<Longrightarrow> ?thesis" by (simp add: do_config_file_def)
qed

text \<open>One step of the loop, when the end of the name is known.\<close>

lemma parse_deps_step:
  assumes "bs = pre @ c @ d @ rest" "list_all blank c" "dep_ok (b, d)"
    and "token_end bs (length pre + length c) = Some (length pre + length c + length d)"
    and "wanted d \<Longrightarrow> fs d \<noteq> None"
  shows "parse_deps tail fs bs (length pre) st =
    parse_deps tail fs bs (length pre + length c + length d + 1)
      (if wanted d then emit (dep_line d) st else st)"
proof -
  have d: "d \<noteq> []" "\<not> blank (hd d)" "nul \<notin> set d" "length d < PATH_MAX - 1"
    using assms(3) by (simp_all add: dep_ok_def)
  have a: "length (takeWhile blank (drop (length pre) bs)) = length c"
    using takeWhile_blank[OF assms(2) d(1,2)] by (simp add: assms(1))
  have t: "take (length d) (drop (length pre + length c) bs) = d" by (simp add: assms(1))
  have "length pre < length bs" using d(1) by (simp add: assms(1))
  then show ?thesis
    using assms(4,5) d(3,4) do_config_file_ok[of fs d]
    by (subst parse_deps.simps) (auto simp: Let_def a t dep_name_id)
qed

lemma parse_deps_list:
  assumes "ds \<noteq> []" "\<forall>x\<in>set ds. dep_ok x" "\<forall>x\<in>set ds. wanted (snd x) \<longrightarrow> fs (snd x) \<noteq> None"
    and "list_all blank c" "bs = pre @ c @ snd (hd ds) @ deps_text (tl ds) @ [newline]"
  shows "parse_deps tail fs bs (length pre) st =
    Inr (emit (concat (map dep_line (filter wanted (map snd ds)))) st)"
  using assms
proof (induction ds arbitrary: pre c st)
  case Nil
  then show ?case by simp
next
  case (Cons x ds)
  obtain b d where x: "x = (b, d)" by (cases x)
  have ok: "dep_ok (b, d)" using Cons.prems(2) x by simp
  then have d: "CHR '' '' \<notin> set d" "d \<noteq> []" "isalnum (last d)" by (simp_all add: dep_ok_def)
  let ?a = "length pre + length c"
  show ?case
  proof (cases ds)
    case Nil
    then have bs: "bs = pre @ c @ d @ [newline]" using Cons.prems(5) x by (simp add: deps_text_def)
    have "takeWhile (\<lambda>k. k \<noteq> CHR '' '') (drop ?a bs) = d @ [newline]"
      using d(1) by (simp add: bs takeWhile_no_space newline_def)
    moreover have "back_to_alnum bs (Suc (?a + length d)) = Some (?a + length d)"
    proof -
      obtain n where n: "?a + length d = Suc n" using d(2) by (cases "length d") auto
      have "bs ! Suc n = newline" using n by (simp add: bs nth_append flip: n)
      moreover have "bs ! n = last d"
      proof -
        have "n = ?a + (length d - 1)" using n d(2) by (cases d) auto
        then have "bs ! n = (d @ [newline]) ! (length d - 1)"
          by (simp add: bs nth_append)
        then show ?thesis using d(2) by (simp add: nth_append last_conv_nth)
      qed
      ultimately show ?thesis using d(3) n by (simp add: newline_def isalnum_def isdigit_def isupper_def islower_def code_def)
    qed
    ultimately have "token_end bs ?a = Some (?a + length d)"
      by (simp add: token_end_def bs)
    from parse_deps_step[OF bs Cons.prems(4) ok this] Cons.prems(3) x
    have "parse_deps tail fs bs (length pre) st = parse_deps tail fs bs (?a + length d + 1)
        (if wanted d then emit (dep_line d) st else st)" by simp
    moreover have "\<not> ?a + length d + 1 < length bs" by (simp add: bs)
    ultimately show ?thesis using Nil x by (simp add: parse_deps.simps emit_def)
  next
    case (Cons y ds')
    obtain b' d' where y: "y = (b', d')" by (cases y)
    have bs: "bs = pre @ c @ d @ (CHR '' '' # b' @ d' @ deps_text ds' @ [newline])"
      using Cons.prems(5) x y Cons by (simp add: deps_text_def)
    have "takeWhile (\<lambda>k. k \<noteq> CHR '' '') (drop ?a bs) = d"
      using d(1) by (simp add: bs takeWhile_no_space)
    then have "token_end bs ?a = Some (?a + length d)" by (simp add: token_end_def bs)
    from parse_deps_step[OF bs Cons.prems(4) ok this] Cons.prems(3) x
    have step: "parse_deps tail fs bs (length pre) st = parse_deps tail fs bs (?a + length d + 1)
        (if wanted d then emit (dep_line d) st else st)" by simp
    let ?pre = "pre @ c @ d @ '' ''"
    have "bs = ?pre @ b' @ snd (hd ds) @ deps_text (tl ds) @ [newline]" using bs Cons y by simp
    moreover have "list_all blank b'" using Cons.prems(2) Cons y by (simp add: dep_ok_def)
    ultimately have "parse_deps tail fs bs (length ?pre) st' =
        Inr (emit (concat (map dep_line (filter wanted (map snd ds)))) st')" for st'
      using Cons.IH[of b' ?pre] Cons.prems(2,3) Cons by simp
    with step x show ?thesis by (simp add: emit_def add.assoc)
  qed
qed



text \<open>A blank before the end of the file makes the length of the last name negative.\<close>

lemma trailing_blank_undefined:
  "parse_dep_file [] (\<lambda>_. Some []) ''a'' (''a: b '' @ [newline]) \<lparr>str_config = [], out = []\<rparr> = Inl Undefined"
  by (simp add: parse_dep_file_def strchr_def nul_def PATH_MAX_def parse_deps.simps token_end_def Let_def
      blank_def newline_def dep_name_def wanted_def strrcmp_def do_config_file_def isalnum_def islower_def
      isupper_def isdigit_def code_def eval_nat_numeral)

end
