(* ===== verification/Fakestat.thy ===== *)
theory Fakestat
  imports CLib
begin

unbundle bit_operations_syntax

text \<open>
  The messages of fakeroot: \<^verbatim>\<open>message.h\<close>, the copying functions of \<^verbatim>\<open>communicate.c\<close>, and the
  byte order conversions of the TCP transport.  Every field has its width in bits; the fields
  of \<^verbatim>\<open>struct stat\<close> those of 64-bit Linux.
\<close>

subsection \<open>Data\<close>

record fakestat =
  f_uid :: "32 word"
  f_gid :: "32 word"
  f_ino :: "64 word"
  f_dev :: "64 word"
  f_rdev :: "64 word"
  f_mode :: "32 word"
  f_nlink :: "32 word"
  f_size :: "64 word"

record fake_msg =
  m_id :: "32 word"
  m_pid :: int
  m_serial :: int
  m_st :: fakestat
  m_remote :: "32 word"

record cstat =
  st_dev :: "64 word"
  st_ino :: "64 word"
  st_mode :: "32 word"
  st_nlink :: "64 word"
  st_uid :: "32 word"
  st_gid :: "32 word"
  st_rdev :: "64 word"
  st_size :: "64 word"
  st_blksize :: "64 word"
  st_blocks :: "64 word"
  st_atime :: "64 word"
  st_mtime :: "64 word"
  st_ctime :: "64 word"

text \<open>The function numbers, in the order of the enumeration.\<close>

definition chown_func :: "32 word" where "chown_func = 0"
definition chmod_func :: "32 word" where "chmod_func = 1"
definition mknod_func :: "32 word" where "mknod_func = 2"
definition stat_func :: "32 word" where "stat_func = 3"
definition unlink_func :: "32 word" where "unlink_func = 4"

subsection \<open>File types\<close>

definition S_IFMT :: "32 word" where "S_IFMT = 0xF000"
definition S_IFCHR :: "32 word" where "S_IFCHR = 0x2000"
definition S_IFDIR :: "32 word" where "S_IFDIR = 0x4000"
definition S_IFBLK :: "32 word" where "S_IFBLK = 0x6000"
definition S_IFREG :: "32 word" where "S_IFREG = 0x8000"

definition ftype :: "32 word \<Rightarrow> 32 word" where
  "ftype m = m AND S_IFMT"

text \<open>
  Is the record the one of the file?  A device node is a regular empty file on disk.
\<close>

definition fakestat_equal :: "fakestat \<Rightarrow> fakestat \<Rightarrow> bool" where
  "fakestat_equal hashed key \<longleftrightarrow>
     (if f_dev hashed \<noteq> f_dev key \<or> f_ino hashed \<noteq> f_ino key then False
      else if ftype (f_mode hashed) = ftype (f_mode key) then True
      else if (ftype (f_mode hashed) = S_IFCHR \<or> ftype (f_mode hashed) = S_IFBLK) \<and>
              ftype (f_mode key) = S_IFREG \<and> f_size key = 0 then True
      else False)"

lemma fakestat_equal_refl [simp]: "fakestat_equal s s"
  by (simp add: fakestat_equal_def)

lemma fakestat_equal_iff:
  "fakestat_equal h k \<longleftrightarrow> f_dev h = f_dev k \<and> f_ino h = f_ino k \<and>
     (ftype (f_mode h) = ftype (f_mode k) \<or>
      (ftype (f_mode h) = S_IFCHR \<or> ftype (f_mode h) = S_IFBLK) \<and> ftype (f_mode k) = S_IFREG \<and> f_size k = 0)"
  by (auto simp: fakestat_equal_def)

lemma fakestat_equal_inode: "fakestat_equal h k \<Longrightarrow> f_dev h = f_dev k \<and> f_ino h = f_ino k"
  by (auto simp: fakestat_equal_def split: if_splits)

lemma types_distinct:
  "S_IFCHR \<noteq> S_IFREG" "S_IFBLK \<noteq> S_IFREG" "S_IFDIR \<noteq> S_IFREG" "S_IFCHR \<noteq> S_IFBLK" "S_IFCHR \<noteq> S_IFDIR"
  by (simp_all add: S_IFCHR_def S_IFREG_def S_IFBLK_def S_IFDIR_def)

subsection \<open>Copying\<close>

definition cpyfakemstat :: "fake_msg \<Rightarrow> cstat \<Rightarrow> fake_msg" where
  "cpyfakemstat f st = f\<lparr>m_st := \<lparr>f_uid = st_uid st, f_gid = st_gid st, f_ino = st_ino st,
     f_dev = st_dev st, f_rdev = st_rdev st, f_mode = st_mode st, f_nlink = ucast (st_nlink st),
     f_size = st_size st\<rparr>\<rparr>"

definition cpyfakemstat64 :: "fake_msg \<Rightarrow> cstat \<Rightarrow> fake_msg" where
  "cpyfakemstat64 f st = f\<lparr>m_st := \<lparr>f_uid = st_uid st, f_gid = st_gid st, f_ino = st_ino st,
     f_dev = st_dev st, f_rdev = st_rdev st, f_mode = st_mode st, f_nlink = ucast (st_nlink st),
     f_size = st_size st\<rparr>\<rparr>"

definition cpystatfakem :: "cstat \<Rightarrow> fake_msg \<Rightarrow> cstat" where
  "cpystatfakem st f = st\<lparr>st_mode := f_mode (m_st f), st_ino := f_ino (m_st f),
     st_uid := f_uid (m_st f), st_gid := f_gid (m_st f), st_dev := f_dev (m_st f),
     st_rdev := f_rdev (m_st f)\<rparr>"

definition cpystat64fakem :: "cstat \<Rightarrow> fake_msg \<Rightarrow> cstat" where
  "cpystat64fakem st f = st\<lparr>st_mode := f_mode (m_st f), st_ino := f_ino (m_st f),
     st_uid := f_uid (m_st f), st_gid := f_gid (m_st f), st_dev := f_dev (m_st f),
     st_rdev := f_rdev (m_st f)\<rparr>"

definition cpyfakefake :: "fakestat \<Rightarrow> fakestat \<Rightarrow> fakestat" where
  "cpyfakefake dest source = dest\<lparr>f_mode := f_mode source, f_ino := f_ino source,
     f_uid := f_uid source, f_gid := f_gid source, f_dev := f_dev source,
     f_rdev := f_rdev source, f_size := f_size source\<rparr>"

definition stat64from32 :: "cstat \<Rightarrow> cstat \<Rightarrow> cstat" where
  "stat64from32 s64 s32 = s64\<lparr>st_dev := st_dev s32, st_ino := st_ino s32, st_mode := st_mode s32,
     st_nlink := st_nlink s32, st_uid := st_uid s32, st_gid := st_gid s32, st_rdev := st_rdev s32,
     st_size := st_size s32, st_blksize := st_blksize s32, st_blocks := st_blocks s32,
     st_atime := st_atime s32, st_mtime := st_mtime s32, st_ctime := st_ctime s32\<rparr>"

definition stat32from64 :: "cstat \<Rightarrow> cstat \<Rightarrow> cstat" where
  "stat32from64 s32 s64 = s32\<lparr>st_dev := st_dev s64, st_ino := st_ino s64, st_mode := st_mode s64,
     st_nlink := st_nlink s64, st_uid := st_uid s64, st_gid := st_gid s64, st_rdev := st_rdev s64,
     st_size := st_size s64, st_blksize := st_blksize s64, st_blocks := st_blocks s64,
     st_atime := st_atime s64, st_mtime := st_mtime s64, st_ctime := st_ctime s64\<rparr>"

subsection \<open>Byte order\<close>

text \<open>\<open>htonl\<close> of a little-endian machine, which is also \<open>ntohl\<close>.\<close>

definition htonl :: "32 word \<Rightarrow> 32 word" where
  "htonl w = push_bit 24 w OR push_bit 8 (w AND 0xFF00) OR
     (drop_bit 8 w AND 0xFF00) OR drop_bit 24 w"

definition htonll :: "64 word \<Rightarrow> 64 word" where
  "htonll n = push_bit 32 (ucast (htonl (ucast n)) :: 64 word) OR
     ucast (htonl (ucast (drop_bit 32 n)))"

text \<open>
  The message of the TCP transport has no process and serial number.  The structure the sender
  fills has no value assigned to its size: \<open>junk\<close> is what the stack holds there.  \<open>from_wire\<close>
  converts in place, so the size is as it was sent.
\<close>

record net_msg =
  n_id :: "32 word"
  n_st :: fakestat
  n_remote :: "32 word"

definition faked_send_fakem :: "64 word \<Rightarrow> net_msg \<Rightarrow> net_msg" where
  "faked_send_fakem junk buf =
     \<lparr>n_id = htonl (n_id buf),
      n_st = \<lparr>f_uid = htonl (f_uid (n_st buf)), f_gid = htonl (f_gid (n_st buf)),
        f_ino = htonll (f_ino (n_st buf)), f_dev = htonll (f_dev (n_st buf)),
        f_rdev = htonll (f_rdev (n_st buf)), f_mode = htonl (f_mode (n_st buf)),
        f_nlink = htonl (f_nlink (n_st buf)), f_size = junk\<rparr>,
      n_remote = htonl (n_remote buf)\<rparr>"

definition send_fakem_nr :: "64 word \<Rightarrow> net_msg \<Rightarrow> net_msg" where
  "send_fakem_nr junk buf = (faked_send_fakem junk buf)\<lparr>n_remote := htonl 0\<rparr>"

definition get_fakem :: "net_msg \<Rightarrow> net_msg" where
  "get_fakem buf =
     \<lparr>n_id = htonl (n_id buf),
      n_st = \<lparr>f_uid = htonl (f_uid (n_st buf)), f_gid = htonl (f_gid (n_st buf)),
        f_ino = htonll (f_ino (n_st buf)), f_dev = htonll (f_dev (n_st buf)),
        f_rdev = htonll (f_rdev (n_st buf)), f_mode = htonl (f_mode (n_st buf)),
        f_nlink = htonl (f_nlink (n_st buf)), f_size = f_size (n_st buf)\<rparr>,
      n_remote = htonl (n_remote buf)\<rparr>"

lemma htonl_alt: "htonl w = push_bit 24 w OR push_bit 8 (w AND push_bit 8 (mask 8)) OR
     (drop_bit 8 w AND push_bit 8 (mask 8)) OR drop_bit 24 w"
  by (simp add: htonl_def mask_eq_exp_minus_1 push_bit_eq_mult)

lemma htonl_bit: "n < 32 \<Longrightarrow> bit (htonl w) n \<longleftrightarrow> bit w (8 * (3 - n div 8) + n mod 8)"
proof -
  assume "n < 32"
  then consider "n < 8" | "8 \<le> n" "n < 16" | "16 \<le> n" "n < 24" | "24 \<le> n" by linarith
  then show ?thesis
  proof cases
    case 1
    then have "n div 8 = 0" "n mod 8 = n" by simp_all
    with 1 show ?thesis by (auto simp: htonl_alt bit_simps add.commute)
  next
    case 2
    then have "n div 8 = 1" "n mod 8 = n - 8" by (simp_all add: le_div_geq le_mod_geq)
    with 2 show ?thesis by (auto simp: htonl_alt bit_simps dest: bit_imp_le_length)
  next
    case 3
    then have "n div 8 = 2" "n mod 8 = n - 16" by (simp_all add: le_div_geq le_mod_geq)
    with 3 show ?thesis by (auto simp: htonl_alt bit_simps dest: bit_imp_le_length)
  next
    case 4
    with \<open>n < 32\<close> have "n div 8 = 3" "n mod 8 = n - 24" by (simp_all add: le_div_geq le_mod_geq)
    with 4 show ?thesis by (auto simp: htonl_alt bit_simps dest: bit_imp_le_length)
  qed
qed

lemma htonl_htonl [simp]: "htonl (htonl w) = w"
proof (rule bit_word_eqI)
  fix n
  assume "n < LENGTH(32)"
  then have n: "n < 32" by simp
  let ?m = "8 * (3 - n div 8) + n mod 8"
  have q: "n div 8 < 4" using n by (simp add: div_less_iff_less_mult)
  then have "?m < 32" using mod_less_divisor[of 8 n] by linarith
  moreover have "?m div 8 = 3 - n div 8" "?m mod 8 = n mod 8" by simp_all
  moreover have "8 * (n div 8) + n mod 8 = n" by simp
  ultimately show "bit (htonl (htonl w)) n = bit w n"
    using n q by (simp add: htonl_bit)
qed

lemma htonll_halves:
  "ucast (htonll n) = htonl (ucast (drop_bit 32 n))"
  "ucast (drop_bit 32 (htonll n)) = htonl (ucast n)"
  unfolding htonll_def
  by (rule bit_word_eqI; auto simp: bit_simps dest: bit_imp_le_length)+

lemma htonll_htonll [simp]: "htonll (htonll n) = n"
proof -
  have "htonll (htonll n) = push_bit 32 (ucast (ucast (drop_bit 32 n) :: 32 word)) OR ucast (ucast n :: 32 word)"
    by (subst htonll_def) (simp add: htonll_halves)
  also have "\<dots> = n" by (rule bit_word_eqI) (auto simp: bit_simps)
  finally show ?thesis .
qed

text \<open>
  What one end of the TCP transport sends, the other receives unchanged, except for the
  size, which is not sent.
\<close>

theorem wire_roundtrip:
  "get_fakem (faked_send_fakem junk m) = m\<lparr>n_st := (n_st m)\<lparr>f_size := junk\<rparr>\<rparr> \<and>
   get_fakem (send_fakem_nr junk m) = m\<lparr>n_st := (n_st m)\<lparr>f_size := junk\<rparr>, n_remote := 0\<rparr>"
  by (simp_all add: get_fakem_def faked_send_fakem_def send_fakem_nr_def)

text \<open>
  The fields copied from the result of a system call to a message and back are the same,
  and the number of links, the size and the times are not touched.
\<close>

theorem stat_roundtrip: "cpystatfakem st (cpyfakemstat f st) = st"
  by (simp add: cpystatfakem_def cpyfakemstat_def)

end
