(* ===== verification/FakedTable.thy ===== *)
theory FakedTable
  imports Fakestat
begin

text \<open>
  The hash table of the fakeroot daemon (\<^verbatim>\<open>faked.c\<close>).  A chain is the list of its nodes; a pointer
  to a node is the number of its chain and its position there.
\<close>

record data_node =
  dn_buf :: fakestat
  dn_remote :: "32 word"

type_synonym data_table = "nat \<Rightarrow> data_node list"

type_synonym node_ptr = "nat \<times> nat"

definition HASH_TABLE_SIZE :: nat where "HASH_TABLE_SIZE = 10009"

definition data_hash_val :: "fakestat \<Rightarrow> nat" where
  "data_hash_val key = unat ((f_dev key * 8328 + f_ino key) mod 10009)"

definition init_hash_table :: data_table where
  "init_hash_table = (\<lambda>_. [])"

subsection \<open>Finding, inserting, erasing\<close>

definition node_is :: "fakestat \<Rightarrow> 32 word \<Rightarrow> data_node \<Rightarrow> bool" where
  "node_is key remote n \<longleftrightarrow> fakestat_equal (dn_buf n) key \<and> dn_remote n = remote"

fun find_pos :: "('a \<Rightarrow> bool) \<Rightarrow> 'a list \<Rightarrow> nat option" where
  "find_pos P [] = None"
| "find_pos P (x # xs) = (if P x then Some 0 else map_option Suc (find_pos P xs))"

definition data_find :: "fakestat \<Rightarrow> 32 word \<Rightarrow> data_table \<Rightarrow> node_ptr option" where
  "data_find key remote t =
     (let h = data_hash_val key in map_option (Pair h) (find_pos (node_is key remote) (t h)))"

definition node_at :: "data_table \<Rightarrow> node_ptr \<Rightarrow> data_node" where
  "node_at t i = (case i of (h, p) \<Rightarrow> t h ! p)"

definition set_buf :: "node_ptr \<Rightarrow> fakestat \<Rightarrow> data_table \<Rightarrow> data_table" where
  "set_buf i st t = (case i of (h, p) \<Rightarrow> t(h := (t h)[p := (t h ! p)\<lparr>dn_buf := st\<rparr>]))"

definition data_insert :: "fakestat \<Rightarrow> 32 word \<Rightarrow> data_table \<Rightarrow> data_table" where
  "data_insert buf remote t =
     (let h = data_hash_val buf; n = \<lparr>dn_buf = buf, dn_remote = remote\<rparr> in
      case find_pos (node_is buf remote) (t h) of
        None \<Rightarrow> t(h := t h @ [n])
      | Some p \<Rightarrow> t(h := (t h)[p := n]))"

text \<open>
  The node is looked for in the chain of its own key; \<open>None\<close> when it is not there, which would
  be a null dereference.  The result is the pointer to the next node of the chain.
\<close>

definition data_erase :: "node_ptr \<Rightarrow> data_table \<Rightarrow> (node_ptr option \<times> data_table) option" where
  "data_erase i t =
     (case i of (h, p) \<Rightarrow>
        if data_hash_val (dn_buf (t h ! p)) = h \<and> p < length (t h)
        then Some (if Suc p < length (t h) then Some (h, p) else None,
                   t(h := take p (t h) @ drop (Suc p) (t h)))
        else None)"

subsection \<open>Iteration\<close>

fun first_chain :: "data_table \<Rightarrow> nat list \<Rightarrow> node_ptr option" where
  "first_chain t [] = None"
| "first_chain t (h # hs) = (if t h = [] then first_chain t hs else Some (h, 0))"

definition data_node_next :: "data_table \<Rightarrow> node_ptr option \<Rightarrow> node_ptr option" where
  "data_node_next t n =
     (case n of
        None \<Rightarrow> first_chain t [0..<HASH_TABLE_SIZE]
      | Some (h, p) \<Rightarrow>
          if Suc p < length (t h) then Some (h, Suc p)
          else first_chain t [data_hash_val (dn_buf (t h ! p)) + 1..<HASH_TABLE_SIZE])"

definition data_size :: "data_table \<Rightarrow> nat" where
  "data_size t = sum_list (map (length \<circ> t) [0..<HASH_TABLE_SIZE])"

subsection \<open>Lemmas\<close>

lemma data_hash_bound: "data_hash_val key < HASH_TABLE_SIZE"
proof -
  have "(f_dev key * 8328 + f_ino key) mod 10009 < (10009 :: 64 word)" by (rule word_mod_less_divisor) simp
  then show ?thesis by (simp add: data_hash_val_def HASH_TABLE_SIZE_def word_less_nat_alt)
qed

lemma find_pos_Some: "find_pos P xs = Some p \<longleftrightarrow> p < length xs \<and> P (xs ! p) \<and> (\<forall>q<p. \<not> P (xs ! q))"
proof (induction xs arbitrary: p)
  case (Cons x xs)
  then show ?case by (cases p) (auto simp: All_less_Suc2)
qed simp

lemma find_pos_None: "find_pos P xs = None \<longleftrightarrow> (\<forall>x\<in>set xs. \<not> P x)"
  by (induction xs) auto

lemma find_pos_cong:
  "length xs = length ys \<Longrightarrow> (\<And>q. q < length xs \<Longrightarrow> P (xs ! q) = Q (ys ! q)) \<Longrightarrow> find_pos P xs = find_pos Q ys"
proof (induction xs arbitrary: ys)
  case (Cons x xs)
  then obtain y ys' where y: "ys = y # ys'" by (cases ys) auto
  have "P x = Q y" using Cons.prems(2)[of 0] y by simp
  moreover have "find_pos P xs = find_pos Q ys'"
    using Cons.IH[of ys'] Cons.prems(1) Cons.prems(2)[of "Suc _"] y by simp
  ultimately show ?case using y by simp
qed simp

lemma find_pos_append: "find_pos P (xs @ ys) =
    (case find_pos P xs of Some p \<Rightarrow> Some p | None \<Rightarrow> map_option ((+) (length xs)) (find_pos P ys))"
proof (induction xs)
  case Nil
  have "(+) 0 = (id :: nat \<Rightarrow> nat)" by auto
  then show ?case by (simp add: option.map_id)
next
  case (Cons x xs)
  then show ?case by (cases "find_pos P ys") (auto split: option.splits)
qed

lemma find_pos_update:
  assumes "find_pos P xs = Some p" "P y"
  shows "find_pos P (xs[p := y]) = Some p"
  using assms by (auto simp: find_pos_Some nth_list_update)

lemma find_pos_replace: "P y = P (xs ! p) \<Longrightarrow> find_pos P (xs[p := y]) = find_pos P xs"
proof (rule find_pos_cong)
  fix q
  assume "P y = P (xs ! p)" "q < length (xs[p := y])"
  then show "P (xs[p := y] ! q) = P (xs ! q)" by (cases "q = p") simp_all
qed simp

lemma hash_of_inode: "f_dev a = f_dev b \<Longrightarrow> f_ino a = f_ino b \<Longrightarrow> data_hash_val a = data_hash_val b"
  by (simp add: data_hash_val_def)

lemma data_find_Some:
  "data_find key remote t = Some (h, p) \<longleftrightarrow>
     h = data_hash_val key \<and> find_pos (node_is key remote) (t h) = Some p"
  by (auto simp: data_find_def Let_def)

lemma data_find_None: "data_find key remote t = None \<longleftrightarrow> (\<forall>n\<in>set (t (data_hash_val key)). \<not> node_is key remote n)"
  by (simp add: data_find_def Let_def find_pos_None)

text \<open>The record the table holds for a key.\<close>

definition lookup :: "fakestat \<times> 32 word \<Rightarrow> data_table \<Rightarrow> fakestat option" where
  "lookup k t = map_option (\<lambda>i. dn_buf (node_at t i)) (data_find (fst k) (snd k) t)"

lemma lookup_chain:
  "lookup (k, r) t = map_option (\<lambda>p. dn_buf (t (data_hash_val k) ! p)) (find_pos (node_is k r) (t (data_hash_val k)))"
  by (simp add: lookup_def data_find_def Let_def node_at_def option.map_comp comp_def)

lemma find_pos_find: "map_option ((!) xs) (find_pos P xs) = find P xs"
  by (induction xs) (auto simp: option.map_comp comp_def)

lemma lookup_find: "lookup (k, r) t = map_option dn_buf (find (node_is k r) (t (data_hash_val k)))"
  by (simp add: lookup_chain option.map_comp comp_def flip: find_pos_find)

definition put :: "fakestat \<times> 32 word \<Rightarrow> data_table \<Rightarrow> data_table" where
  "put k = data_insert (fst k) (snd k)"

definition same_file :: "fakestat \<times> 32 word \<Rightarrow> fakestat \<times> 32 word \<Rightarrow> bool" where
  "same_file k k' \<longleftrightarrow> f_dev (fst k) = f_dev (fst k') \<and> f_ino (fst k) = f_ino (fst k') \<and> snd k = snd k'"

lemma data_insert_chain:
  "data_insert buf remote t h =
     (if h \<noteq> data_hash_val buf then t h
      else case find_pos (node_is buf remote) (t h) of
        None \<Rightarrow> t h @ [\<lparr>dn_buf = buf, dn_remote = remote\<rparr>]
      | Some p \<Rightarrow> (t h)[p := \<lparr>dn_buf = buf, dn_remote = remote\<rparr>])"
  by (auto simp: data_insert_def Let_def split: option.split)

lemma lookup_put: "lookup k (put k t) = Some (fst k)"
proof -
  obtain buf r where k: "k = (buf, r)" by (cases k)
  let ?h = "data_hash_val buf" and ?n = "\<lparr>dn_buf = buf, dn_remote = r\<rparr>"
  have n: "node_is buf r ?n" by (simp add: node_is_def)
  show ?thesis
  proof (cases "find_pos (node_is buf r) (t ?h)")
    case None
    then have "find_pos (node_is buf r) (data_insert buf r t ?h) = Some (length (t ?h))"
      using n by (simp add: data_insert_chain find_pos_append)
    with None show ?thesis
      by (simp add: k lookup_def put_def data_find_def Let_def node_at_def data_insert_chain)
  next
    case (Some p)
    then have "find_pos (node_is buf r) (data_insert buf r t ?h) = Some p"
      using n find_pos_update[OF Some n] by (simp add: data_insert_chain)
    moreover have "p < length (t ?h)" using Some by (simp add: find_pos_Some)
    ultimately show ?thesis using Some
      by (simp add: k lookup_def put_def data_find_def Let_def node_at_def data_insert_chain)
  qed
qed

lemma lookup_put_other:
  assumes "\<not> same_file k k'"
  shows "lookup k' (put k t) = lookup k' t"
proof -
  obtain buf r key r' where k: "k = (buf, r)" "k' = (key, r')" by (cases k; cases k')
  let ?n = "\<lparr>dn_buf = buf, dn_remote = r\<rparr>" and ?c = "t (data_hash_val key)"
  have other: "\<not> node_is key r' ?n"
    using assms k fakestat_equal_inode[of buf key] by (auto simp: node_is_def same_file_def)
  have repl: "\<not> node_is key r' (xs ! p)" if "find_pos (node_is buf r) xs = Some p" for xs p
  proof -
    have "node_is buf r (xs ! p)" using that by (simp add: find_pos_Some)
    then show ?thesis
      using assms k fakestat_equal_inode[of "dn_buf (xs ! p)" buf] fakestat_equal_inode[of "dn_buf (xs ! p)" key]
      by (auto simp: node_is_def same_file_def)
  qed
  show ?thesis
  proof (cases "data_hash_val key = data_hash_val buf")
    case False
    then show ?thesis
      by (cases "find_pos (node_is key r') ?c")
        (simp_all add: k lookup_def put_def data_find_def Let_def data_insert_chain node_at_def)
  next
    case True
    show ?thesis
    proof (cases "find_pos (node_is buf r) ?c")
      case None
      have "find_pos (node_is key r') (?c @ [?n]) = find_pos (node_is key r') ?c"
        using other by (simp add: find_pos_append split: option.split)
      moreover have "q < length ?c" if "find_pos (node_is key r') ?c = Some q" for q
        using that by (simp add: find_pos_Some)
      ultimately show ?thesis using None True
        by (cases "find_pos (node_is key r') ?c")
          (simp_all add: k lookup_def put_def data_find_def Let_def data_insert_chain node_at_def
            nth_append)
    next
      case (Some p)
      have "find_pos (node_is key r') (?c[p := ?n]) = find_pos (node_is key r') ?c"
        using other repl[OF Some] by (simp add: find_pos_replace)
      moreover have "q \<noteq> p" if "find_pos (node_is key r') ?c = Some q" for q
        using that repl[OF Some] by (auto simp: find_pos_Some)
      ultimately show ?thesis using Some True
        by (cases "find_pos (node_is key r') ?c")
          (simp_all add: k lookup_def put_def data_find_def Let_def data_insert_chain node_at_def)
    qed
  qed
qed

subsection \<open>The interface\<close>

text \<open>
  What the loader of the database relies on: an inserted record is found, and the records of
  other files are as before.
\<close>

locale record_table =
  fixes find_rec :: "'k \<Rightarrow> 't \<Rightarrow> 'v option" and put_rec :: "'k \<Rightarrow> 't \<Rightarrow> 't"
    and val :: "'k \<Rightarrow> 'v" and clash :: "'k \<Rightarrow> 'k \<Rightarrow> bool"
  assumes find_put: "find_rec k (put_rec k t) = Some (val k)"
    and find_put_other: "\<not> clash k k' \<Longrightarrow> find_rec k' (put_rec k t) = find_rec k' t"
    and clash_refl: "clash k k"
begin

lemma find_fold_other: "\<forall>k\<in>set ks. \<not> clash k k' \<Longrightarrow> find_rec k' (fold put_rec ks t) = find_rec k' t"
  by (induction ks arbitrary: t) (simp_all add: find_put_other)

lemma find_fold_put:
  assumes "sorted_wrt (\<lambda>a b. \<not> clash b a) ks" "k \<in> set ks"
  shows "find_rec k (fold put_rec ks t) = Some (val k)"
  using assms
proof (induction ks arbitrary: t)
  case (Cons a ks)
  show ?case
  proof (cases "k \<in> set ks")
    case True
    with Cons show ?thesis by simp
  next
    case False
    with Cons.prems have "k = a" "\<forall>b\<in>set ks. \<not> clash b a" by auto
    then show ?thesis using find_fold_other[of ks a "put_rec a t"] by (simp add: find_put)
  qed
qed simp

end

interpretation tab: record_table lookup put fst same_file
  by unfold_locales (simp_all add: lookup_put lookup_put_other same_file_def)

end
