(* ===== verification/Faked.thy ===== *)
theory Faked
  imports FakedTable
begin

text \<open>
  The fakeroot daemon (\<^verbatim>\<open>faked.c\<close>): the handlers of the requests and the loop that receives them.

  A handler takes the message buffer and the state and returns both, since some write to the
  buffer.  Replies are appended to \<open>fd_sent\<close>.
\<close>

record faked =
  fd_table :: data_table
  fd_unknown_is_real :: bool
  fd_sent :: "fake_msg list"

type_synonym handler = "fake_msg \<Rightarrow> faked \<Rightarrow> fake_msg \<times> faked"

subsection \<open>Handlers\<close>

definition insert_or_overwrite :: "fakestat \<Rightarrow> 32 word \<Rightarrow> data_table \<Rightarrow> data_table" where
  "insert_or_overwrite st remote t =
     (case data_find st remote t of
        None \<Rightarrow> data_insert st remote t
      | Some i \<Rightarrow> set_buf i st t)"

definition process_chown :: handler where
  "process_chown buf s =
     (let st = m_st buf; t = fd_table s in
      case data_find st (m_remote buf) t of
        Some i \<Rightarrow>
          (let old = dn_buf (node_at t i) in
           (buf, s\<lparr>fd_table := set_buf i
              (old\<lparr>f_uid := (if f_uid st \<noteq> - 1 then f_uid st else f_uid old),
                   f_gid := (if f_gid st \<noteq> - 1 then f_gid st else f_gid old)\<rparr>) t\<rparr>))
      | None \<Rightarrow>
          (buf, s\<lparr>fd_table := insert_or_overwrite
              (st\<lparr>f_uid := (if f_uid st = - 1 then 0 else f_uid st),
                  f_gid := (if f_gid st = - 1 then 0 else f_gid st)\<rparr>) (m_remote buf) t\<rparr>))"

text \<open>
  The new mode of a known file.  \<^verbatim>\<open>!st->mode&(S_IFBLK|S_IFCHR)\<close> is the conjunction of the bits of
  \<^verbatim>\<open>!st->mode\<close>, 0 or 1, with the mask.
\<close>

definition chmod_mode :: "32 word \<Rightarrow> 32 word \<Rightarrow> 32 word" where
  "chmod_mode req old =
     (if ftype req \<noteq> ftype old \<and>
         (ftype req \<noteq> S_IFREG \<or> (if old = 0 then 1 else 0) AND (S_IFBLK OR S_IFCHR) \<noteq> 0)
      then req
      else (req AND NOT S_IFMT) OR (old AND S_IFMT))"

definition process_chmod :: handler where
  "process_chmod buf s =
     (let t = fd_table s in
      case data_find (m_st buf) (m_remote buf) t of
        Some i \<Rightarrow>
          (let old = dn_buf (node_at t i);
               st = old\<lparr>f_mode := chmod_mode (f_mode (m_st buf)) (f_mode old)\<rparr>
           in (buf, s\<lparr>fd_table := insert_or_overwrite st (m_remote buf) (set_buf i st t)\<rparr>))
      | None \<Rightarrow>
          (let st = (m_st buf)\<lparr>f_uid := 0, f_gid := 0\<rparr>
           in (buf\<lparr>m_st := st\<rparr>, s\<lparr>fd_table := insert_or_overwrite st (m_remote buf) t\<rparr>)))"

definition process_mknod :: handler where
  "process_mknod buf s =
     (let t = fd_table s in
      case data_find (m_st buf) (m_remote buf) t of
        Some i \<Rightarrow>
          (let st = (dn_buf (node_at t i))\<lparr>f_mode := f_mode (m_st buf), f_rdev := f_rdev (m_st buf)\<rparr>
           in (buf, s\<lparr>fd_table := insert_or_overwrite st (m_remote buf) (set_buf i st t)\<rparr>))
      | None \<Rightarrow>
          (let st = (m_st buf)\<lparr>f_uid := 0, f_gid := 0\<rparr>
           in (buf\<lparr>m_st := st\<rparr>, s\<lparr>fd_table := insert_or_overwrite st (m_remote buf) t\<rparr>)))"

definition process_stat :: handler where
  "process_stat buf s =
     (let t = fd_table s;
          buf' = (case data_find (m_st buf) (m_remote buf) t of
                    None \<Rightarrow> (if fd_unknown_is_real s then buf
                             else buf\<lparr>m_st := (m_st buf)\<lparr>f_uid := 0, f_gid := 0\<rparr>\<rparr>)
                  | Some i \<Rightarrow> buf\<lparr>m_st := cpyfakefake (m_st buf) (dn_buf (node_at t i))\<rparr>)
      in (buf', s\<lparr>fd_sent := fd_sent s @ [buf']\<rparr>))"

definition process_unlink :: "fake_msg \<Rightarrow> faked \<Rightarrow> (fake_msg \<times> faked) option" where
  "process_unlink buf s =
     (let st = m_st buf; t = fd_table s in
      if f_nlink st = 1 \<or> ftype (f_mode st) = S_IFDIR \<and> f_nlink st = 2 then
        (case data_find st (m_remote buf) t of
           None \<Rightarrow> Some (buf, s)
         | Some i \<Rightarrow> map_option (\<lambda>(_, t'). (buf, s\<lparr>fd_table := t'\<rparr>)) (data_erase i t))
      else Some (buf, s))"

text \<open>
  The dispatch.  The table of functions has five entries, and the test admits index 5: the call
  through what follows the table in memory is undefined (\<open>None\<close>).
\<close>

definition highest_funcid :: "32 word" where "highest_funcid = 5"

definition process_msg :: "fake_msg \<Rightarrow> faked \<Rightarrow> (fake_msg \<times> faked) option" where
  "process_msg buf s =
     (if m_id buf \<le> highest_funcid then
        (if m_id buf = chown_func then Some (process_chown buf s)
         else if m_id buf = chmod_func then Some (process_chmod buf s)
         else if m_id buf = mknod_func then Some (process_mknod buf s)
         else if m_id buf = stat_func then Some (process_stat buf s)
         else if m_id buf = unlink_func then process_unlink buf s
         else None)
      else Some (buf, s))"

text \<open>
  The loop of \<open>get_msg\<close>: each call of \<^verbatim>\<open>msgrcv\<close> delivers a message, is interrupted by a signal, or
  fails, which ends the loop.  Only the assignment to \<^verbatim>\<open>buf.remote\<close> depends on the result:
  the message is processed in all cases, so that after an interruption the buffer is processed
  again.  The buffer holds \<open>buf\<close> before the first call.
\<close>

datatype event = Message fake_msg | Interrupted | Failed

fun get_msg :: "fake_msg \<Rightarrow> event list \<Rightarrow> faked \<Rightarrow> (fake_msg \<times> faked) option" where
  "get_msg buf [] s = Some (buf, s)"
| "get_msg buf (Message m # es) s =
     Option.bind (process_msg (m\<lparr>m_remote := 0\<rparr>) s) (\<lambda>(buf', s'). get_msg buf' es s')"
| "get_msg buf (Interrupted # es) s =
     Option.bind (process_msg buf s) (\<lambda>(buf', s'). get_msg buf' es s')"
| "get_msg buf (Failed # es) s = process_msg buf s"

subsection \<open>The invariant of the table\<close>

text \<open>
  Each node is in the chain of its hash value, and no node is hidden behind an earlier one that
  a search for its own key would find.
\<close>

definition hidden :: "data_node \<Rightarrow> data_node \<Rightarrow> bool" where
  "hidden a b \<longleftrightarrow> node_is (dn_buf b) (dn_remote b) a"

definition chain_ok :: "nat \<Rightarrow> data_node list \<Rightarrow> bool" where
  "chain_ok h c \<longleftrightarrow> (\<forall>n\<in>set c. data_hash_val (dn_buf n) = h) \<and> sorted_wrt (\<lambda>a b. \<not> hidden a b) c"

definition table_ok :: "data_table \<Rightarrow> bool" where
  "table_ok t \<longleftrightarrow> (\<forall>h. chain_ok h (t h))"

text \<open>Records that every search and every comparison treat alike.\<close>

definition alike :: "fakestat \<Rightarrow> fakestat \<Rightarrow> bool" where
  "alike a b \<longleftrightarrow> f_dev a = f_dev b \<and> f_ino a = f_ino b \<and> ftype (f_mode a) = ftype (f_mode b) \<and>
     (f_size a = 0 \<longleftrightarrow> f_size b = 0)"

lemma alike_equal:
  "alike a b \<Longrightarrow> fakestat_equal a k = fakestat_equal b k"
  "alike a b \<Longrightarrow> fakestat_equal k a = fakestat_equal k b"
  by (simp_all add: alike_def fakestat_equal_iff)

lemma alike_hash: "alike a b \<Longrightarrow> data_hash_val a = data_hash_val b"
  by (rule hash_of_inode) (simp_all add: alike_def)

lemma alike_node_is: "alike k k' \<Longrightarrow> node_is k r = node_is k' r"
  using alike_equal(2)[of k k'] by (intro ext) (simp add: node_is_def)

lemma alike_find: "alike k k' \<Longrightarrow> data_find k r t = data_find k' r t"
  using alike_node_is[of k k' r] alike_hash[of k k'] by (simp add: data_find_def)

lemma found:
  assumes "data_find k r t = Some i"
  obtains p where "i = (data_hash_val k, p)" "p < length (t (data_hash_val k))"
    "node_is k r (t (data_hash_val k) ! p)" "\<forall>q<p. \<not> node_is k r (t (data_hash_val k) ! q)"
proof -
  obtain h p where i: "i = (h, p)" by (cases i)
  show ?thesis by (rule that[of p]) (use assms i in \<open>auto simp: data_find_Some find_pos_Some\<close>)
qed

text \<open>Overwriting a node by a record that is alike.\<close>

lemma set_buf_alike:
  assumes "p < length (t h)" "alike (dn_buf (t h ! p)) st"
  shows "data_find k r (set_buf (h, p) st t) = data_find k r t"
    "table_ok t \<Longrightarrow> table_ok (set_buf (h, p) st t)"
proof -
  let ?n = "(t h ! p)\<lparr>dn_buf := st\<rparr>"
  have eq: "node_is k r ?n = node_is k r (t h ! p)" for k r
    by (simp add: node_is_def alike_equal(1)[OF assms(2)])
  have "find_pos (node_is k r) ((t h)[p := ?n]) = find_pos (node_is k r) (t h)" for k r
    by (rule find_pos_replace) (rule eq)
  then show "data_find k r (set_buf (h, p) st t) = data_find k r t"
    by (auto simp: data_find_def Let_def set_buf_def)
  assume t: "table_ok t"
  have nth: "(t h)[p := ?n] ! q = (if q = p then ?n else t h ! q)" if "q < length (t h)" for q
    using that by simp
  have hid: "hidden ((t h)[p := ?n] ! a) ((t h)[p := ?n] ! b) = hidden (t h ! a) (t h ! b)"
    if "a < length (t h)" "b < length (t h)" for a b
    using that eq alike_node_is[OF assms(2)] by (simp add: nth hidden_def)
  have "data_hash_val (dn_buf (t h ! p)) = h"
    using t assms(1) by (simp add: table_ok_def chain_ok_def)
  then have "data_hash_val st = h" using alike_hash[OF assms(2)] by simp
  then have "chain_ok h ((t h)[p := ?n])"
    using t unfolding table_ok_def chain_ok_def
    by (auto simp: sorted_wrt_iff_nth_less hid dest!: set_update_subset_insert[THEN subsetD])
  with t show "table_ok (set_buf (h, p) st t)" by (simp add: table_ok_def set_buf_def)
qed

lemma node_at_set_buf: "p < length (t h) \<Longrightarrow> dn_buf (node_at (set_buf (h, p) st t) (h, p)) = st"
  by (simp add: node_at_def set_buf_def)

lemma set_buf_idem: "p < length (t h) \<Longrightarrow> set_buf (h, p) st (set_buf (h, p) st t) = set_buf (h, p) st t"
  by (simp add: set_buf_def)

lemma insert_ok:
  assumes "table_ok t" "data_find st r t = None"
  shows "table_ok (data_insert st r t)"
    "alike k st \<Longrightarrow> data_find k r (data_insert st r t) =
       Some (data_hash_val st, length (t (data_hash_val st)))"
    "dn_buf (node_at (data_insert st r t) (data_hash_val st, length (t (data_hash_val st)))) = st"
proof -
  let ?h = "data_hash_val st" and ?n = "\<lparr>dn_buf = st, dn_remote = r\<rparr>"
  have no: "find_pos (node_is st r) (t ?h) = None" using assms(2) by (simp add: data_find_def Let_def)
  then have eq: "data_insert st r t = t(?h := t ?h @ [?n])" by (simp add: data_insert_def Let_def)
  have "chain_ok ?h (t ?h @ [?n])"
    using assms(1) no by (auto simp: table_ok_def chain_ok_def sorted_wrt_append hidden_def find_pos_None)
  with assms(1) eq show "table_ok (data_insert st r t)" by (simp add: table_ok_def)
  show "dn_buf (node_at (data_insert st r t) (?h, length (t ?h))) = st" by (simp add: eq node_at_def)
  assume "alike k st"
  then have k: "node_is k r = node_is st r" "data_hash_val k = ?h" by (rule alike_node_is, rule alike_hash)
  have "node_is st r ?n" by (simp add: node_is_def)
  with no show "data_find k r (data_insert st r t) = Some (?h, length (t ?h))"
    by (simp add: data_find_def Let_def k eq find_pos_append)
qed

text \<open>The second search of a handler finds the node that was just written.\<close>

lemma overwrite_same:
  assumes "table_ok t" "data_find k r t = Some (h, p)" "alike (dn_buf (t h ! p)) st"
  shows "insert_or_overwrite st r (set_buf (h, p) st t) = set_buf (h, p) st t"
proof -
  have p: "p < length (t h)" "node_is k r (t h ! p)" "h = data_hash_val k"
    using assms(2) by (auto simp: data_find_Some find_pos_Some)
  have c: "chain_ok h (t h)" using assms(1) by (simp add: table_ok_def)
  have h: "data_hash_val st = h"
    using c p(1) alike_hash[OF assms(3)] unfolding chain_ok_def by force
  have r: "dn_remote (t h ! p) = r" using p(2) by (simp add: node_is_def)
  have "find_pos (node_is st r) (t h) = Some p"
    using c p(1) r alike_equal(2)[OF assms(3)]
    by (auto simp: find_pos_Some chain_ok_def sorted_wrt_iff_nth_less hidden_def
        node_is_def alike_equal(1)[OF assms(3)])
  then have "data_find st r t = Some (h, p)" by (simp add: data_find_Some h)
  then show ?thesis
    using set_buf_alike(1)[of p t h st, OF p(1) assms(3)] set_buf_idem[of p t h, OF p(1)]
    by (simp add: insert_or_overwrite_def)
qed

lemma erase_ok:
  assumes "table_ok t" "data_find k r t = Some (h, p)"
  shows "\<exists>n t'. data_erase (h, p) t = Some (n, t') \<and> t' = t(h := take p (t h) @ drop (Suc p) (t h)) \<and> table_ok t'"
proof -
  have p: "p < length (t h)" using assms(2) by (auto simp: data_find_Some find_pos_Some)
  have c: "chain_ok h (t h)" using assms(1) by (simp add: table_ok_def)
  then have "data_hash_val (dn_buf (t h ! p)) = h" using p by (simp add: chain_ok_def)
  moreover have "chain_ok h (take p (t h) @ drop (Suc p) (t h))"
  proof -
    have "t h = take p (t h) @ t h ! p # drop (Suc p) (t h)" using p by (rule id_take_nth_drop)
    with c have "chain_ok h (take p (t h) @ t h ! p # drop (Suc p) (t h))" by simp
    then show ?thesis by (auto simp: chain_ok_def sorted_wrt_append)
  qed
  ultimately show ?thesis
    using assms(1) p by (simp add: data_erase_def table_ok_def)
qed

end
