(* ===== verification/FakedProps.thy ===== *)
theory FakedProps
  imports Faked
begin

text \<open>
  The properties of the daemon: what it reports about a file after each request, that requests
  about one file do not touch the others, and the invariant of the table through a run of the
  receiving loop.
\<close>

subsection \<open>Modes\<close>

lemma mask_not_blk_chr: "(if old = 0 then 1 else 0) AND (S_IFBLK OR S_IFCHR) = (0 :: 32 word)"
  by (simp add: S_IFBLK_def S_IFCHR_def)

lemma chmod_mode_known:
  "ftype req = ftype old \<or> ftype req = S_IFREG \<Longrightarrow> chmod_mode req old = (req AND NOT S_IFMT) OR ftype old"
  by (auto simp: chmod_mode_def mask_not_blk_chr ftype_def simp del: word_bitwise_1_simps)

lemma ftype_masked [simp]: "ftype ((a AND NOT S_IFMT) OR ftype b) = ftype b"
  unfolding ftype_def by (rule bit_word_eqI) (auto simp: bit_simps)

lemma ftype_split: "(a AND NOT S_IFMT) OR ftype a = a"
  unfolding ftype_def by (rule bit_word_eqI) (auto simp: bit_simps)

lemma found_type:
  assumes "data_find k r t = Some (h, p)"
  shows "p < length (t h)" "h = data_hash_val k" "dn_remote (t h ! p) = r"
    "f_dev (dn_buf (t h ! p)) = f_dev k" "f_ino (dn_buf (t h ! p)) = f_ino k"
    "ftype (f_mode k) = ftype (f_mode (dn_buf (t h ! p))) \<or> ftype (f_mode k) = S_IFREG"
  using assms by (auto simp: data_find_Some find_pos_Some node_is_def fakestat_equal_iff)

subsection \<open>What a handler does to the table\<close>

text \<open>
  The record a search finds is replaced by one that is alike, or a new record is appended.
\<close>

definition chowned :: "fakestat \<Rightarrow> fakestat \<Rightarrow> fakestat" where
  "chowned st old = old\<lparr>f_uid := (if f_uid st \<noteq> - 1 then f_uid st else f_uid old),
     f_gid := (if f_gid st \<noteq> - 1 then f_gid st else f_gid old)\<rparr>"

lemma chown_table:
  "fd_table (snd (process_chown buf s)) =
     (case data_find (m_st buf) (m_remote buf) (fd_table s) of
        Some i \<Rightarrow> set_buf i (chowned (m_st buf) (dn_buf (node_at (fd_table s) i))) (fd_table s)
      | None \<Rightarrow> data_insert (chowned (m_st buf) ((m_st buf)\<lparr>f_uid := 0, f_gid := 0\<rparr>)) (m_remote buf) (fd_table s))"
proof (cases "data_find (m_st buf) (m_remote buf) (fd_table s)")
  case None
  let ?new = "(m_st buf)\<lparr>f_uid := (if f_uid (m_st buf) = - 1 then 0 else f_uid (m_st buf)),
                 f_gid := (if f_gid (m_st buf) = - 1 then 0 else f_gid (m_st buf))\<rparr>"
  have "alike ?new (m_st buf)" by (simp add: alike_def)
  then have "insert_or_overwrite ?new (m_remote buf) (fd_table s) = data_insert ?new (m_remote buf) (fd_table s)"
    using None by (simp add: insert_or_overwrite_def alike_find[of ?new "m_st buf"])
  moreover have "chowned (m_st buf) ((m_st buf)\<lparr>f_uid := 0, f_gid := 0\<rparr>) = ?new"
    by (simp add: chowned_def)
  ultimately show ?thesis using None by (simp add: process_chown_def Let_def)
qed (simp add: process_chown_def Let_def chowned_def)

lemma chmod_table:
  assumes "table_ok (fd_table s)"
  shows "fd_table (snd (process_chmod buf s)) =
     (case data_find (m_st buf) (m_remote buf) (fd_table s) of
        Some i \<Rightarrow> let old = dn_buf (node_at (fd_table s) i) in
          set_buf i (old\<lparr>f_mode := (f_mode (m_st buf) AND NOT S_IFMT) OR ftype (f_mode old)\<rparr>) (fd_table s)
      | None \<Rightarrow> data_insert ((m_st buf)\<lparr>f_uid := 0, f_gid := 0\<rparr>) (m_remote buf) (fd_table s))"
proof (cases "data_find (m_st buf) (m_remote buf) (fd_table s)")
  case None
  have "alike (m_st buf\<lparr>f_uid := 0, f_gid := 0\<rparr>) (m_st buf)" by (simp add: alike_def)
  with None show ?thesis
    by (simp add: process_chmod_def Let_def insert_or_overwrite_def alike_find[of "m_st buf\<lparr>f_uid := 0, f_gid := 0\<rparr>" "m_st buf"])
next
  case (Some i)
  obtain h p where i: "i = (h, p)" by (cases i)
  note f = found_type[OF Some[unfolded i]]
  let ?old = "dn_buf (fd_table s h ! p)"
  let ?new = "?old\<lparr>f_mode := (f_mode (m_st buf) AND NOT S_IFMT) OR ftype (f_mode ?old)\<rparr>"
  have "alike ?old ?new" by (simp add: alike_def)
  from overwrite_same[OF assms Some[unfolded i] this] show ?thesis
    using Some i chmod_mode_known[OF f(6)] by (simp add: process_chmod_def Let_def node_at_def)
qed

lemma mknod_table:
  assumes "table_ok (fd_table s)" "ftype (f_mode (m_st buf)) \<noteq> S_IFREG"
  shows "fd_table (snd (process_mknod buf s)) =
     (case data_find (m_st buf) (m_remote buf) (fd_table s) of
        Some i \<Rightarrow> set_buf i ((dn_buf (node_at (fd_table s) i))\<lparr>f_mode := f_mode (m_st buf),
          f_rdev := f_rdev (m_st buf)\<rparr>) (fd_table s)
      | None \<Rightarrow> data_insert ((m_st buf)\<lparr>f_uid := 0, f_gid := 0\<rparr>) (m_remote buf) (fd_table s))"
proof (cases "data_find (m_st buf) (m_remote buf) (fd_table s)")
  case None
  have "alike (m_st buf\<lparr>f_uid := 0, f_gid := 0\<rparr>) (m_st buf)" by (simp add: alike_def)
  with None show ?thesis
    by (simp add: process_mknod_def Let_def insert_or_overwrite_def alike_find[of "m_st buf\<lparr>f_uid := 0, f_gid := 0\<rparr>" "m_st buf"])
next
  case (Some i)
  obtain h p where i: "i = (h, p)" by (cases i)
  note f = found_type[OF Some[unfolded i]]
  let ?old = "dn_buf (fd_table s h ! p)"
  have "alike ?old (?old\<lparr>f_mode := f_mode (m_st buf), f_rdev := f_rdev (m_st buf)\<rparr>)"
    using f(6) assms(2) by (simp add: alike_def)
  from overwrite_same[OF assms(1) Some[unfolded i] this] show ?thesis
    using Some i by (simp add: process_mknod_def Let_def node_at_def)
qed

text \<open>
  The common step: the record of a key is replaced by \<open>g\<close> of it when there is one, and
  otherwise \<open>new\<close> is inserted.
\<close>

definition step_table :: "fakestat \<Rightarrow> 32 word \<Rightarrow> (fakestat \<Rightarrow> fakestat) \<Rightarrow> fakestat \<Rightarrow> data_table \<Rightarrow> data_table" where
  "step_table k r g new t =
     (case data_find k r t of
        Some i \<Rightarrow> set_buf i (g (dn_buf (node_at t i))) t
      | None \<Rightarrow> data_insert new r t)"

lemma step_table_ok:
  assumes "table_ok t" "\<And>i. data_find k r t = Some i \<Longrightarrow> alike (dn_buf (node_at t i)) (g (dn_buf (node_at t i)))"
    and "alike k new"
  shows "table_ok (step_table k r g new t)"
    "alike k' k \<Longrightarrow> lookup (k', r) (step_table k r g new t) =
       Some (case lookup (k', r) t of Some old \<Rightarrow> g old | None \<Rightarrow> new)"
proof -
  have "table_ok (step_table k r g new t) \<and> (alike k' k \<longrightarrow> lookup (k', r) (step_table k r g new t) =
       Some (case lookup (k', r) t of Some old \<Rightarrow> g old | None \<Rightarrow> new))"
  proof (cases "data_find k r t")
    case None
    then have n: "data_find new r t = None" using alike_find[OF assms(3)] by simp
    have "alike k' k \<Longrightarrow> alike k' new" using assms(3) by (simp add: alike_def)
    with insert_ok(1,3)[OF assms(1) n] insert_ok(2)[OF assms(1) n, of k'] None alike_find[of k' k r t] show ?thesis
      by (auto simp: step_table_def lookup_def)
  next
    case (Some i)
    obtain h p where i: "i = (h, p)" by (cases i)
    have p: "p < length (t h)" using Some i by (auto simp: data_find_Some find_pos_Some)
    have a: "alike (dn_buf (t h ! p)) (g (dn_buf (t h ! p)))" using assms(2)[OF Some] i by (simp add: node_at_def)
    have "alike k' k \<Longrightarrow> data_find k' r t = Some (h, p)" using Some i alike_find[of k' k r t] by simp
    with set_buf_alike[where t = t and h = h, OF p a] node_at_set_buf[where t = t and h = h, OF p] assms(1) Some i show ?thesis
      by (auto simp: step_table_def lookup_def node_at_def set_buf_def)
  qed
  then show "table_ok (step_table k r g new t)"
    "alike k' k \<Longrightarrow> lookup (k', r) (step_table k r g new t) =
       Some (case lookup (k', r) t of Some old \<Rightarrow> g old | None \<Rightarrow> new)" by blast+
qed

lemma chown_step:
  "fd_table (snd (process_chown buf s)) = step_table (m_st buf) (m_remote buf) (chowned (m_st buf))
     (chowned (m_st buf) ((m_st buf)\<lparr>f_uid := 0, f_gid := 0\<rparr>)) (fd_table s)"
  by (simp add: chown_table step_table_def)

lemma chmod_step:
  "table_ok (fd_table s) \<Longrightarrow> fd_table (snd (process_chmod buf s)) = step_table (m_st buf) (m_remote buf)
     (\<lambda>old. old\<lparr>f_mode := (f_mode (m_st buf) AND NOT S_IFMT) OR ftype (f_mode old)\<rparr>)
     ((m_st buf)\<lparr>f_uid := 0, f_gid := 0\<rparr>) (fd_table s)"
  by (simp add: chmod_table step_table_def Let_def split: option.split)

lemma mknod_step:
  "table_ok (fd_table s) \<Longrightarrow> ftype (f_mode (m_st buf)) \<noteq> S_IFREG \<Longrightarrow>
   fd_table (snd (process_mknod buf s)) = step_table (m_st buf) (m_remote buf)
     (\<lambda>old. old\<lparr>f_mode := f_mode (m_st buf), f_rdev := f_rdev (m_st buf)\<rparr>)
     ((m_st buf)\<lparr>f_uid := 0, f_gid := 0\<rparr>) (fd_table s)"
  by (simp add: mknod_table step_table_def)

lemma alike_chowned: "alike old (chowned st old)"
  by (simp add: alike_def chowned_def)

lemma alike_reset [simp]: "alike st (st\<lparr>f_uid := u, f_gid := g\<rparr>)"
  by (simp add: alike_def)

lemma alike_refl [simp]: "alike st st"
  by (simp add: alike_def)

lemma alike_trans: "alike a b \<Longrightarrow> alike b c \<Longrightarrow> alike a c"
  by (simp add: alike_def)

lemma mknod_alike:
  assumes "ftype (f_mode k) \<noteq> S_IFREG" "data_find k r t = Some i"
  shows "alike (dn_buf (node_at t i)) ((dn_buf (node_at t i))\<lparr>f_mode := f_mode k, f_rdev := x\<rparr>)"
proof -
  obtain h p where i: "i = (h, p)" by (cases i)
  with found_type[OF assms(2)[unfolded i]] assms(1) show ?thesis by (simp add: alike_def node_at_def)
qed

lemma process_unlink_ok:
  assumes "table_ok (fd_table s)"
  shows "\<exists>s'. process_unlink buf s = Some (buf, s') \<and> table_ok (fd_table s') \<and>
    fd_unknown_is_real s' = fd_unknown_is_real s"
proof (cases "data_find (m_st buf) (m_remote buf) (fd_table s)")
  case None
  with assms show ?thesis by (simp add: process_unlink_def Let_def)
next
  case (Some i)
  obtain h p where i: "i = (h, p)" by (cases i)
  show ?thesis using erase_ok[OF assms Some[unfolded i]] Some i assms
    by (auto simp: process_unlink_def Let_def)
qed

subsection \<open>What the daemon reports\<close>

text \<open>The answer to a request for the attributes of a file.\<close>

definition reported :: "faked \<Rightarrow> fake_msg \<Rightarrow> fakestat" where
  "reported s m = m_st (fst (process_stat m s))"

lemma reported_lookup:
  "\<not> fd_unknown_is_real s \<Longrightarrow> reported s m =
     (case lookup (m_st m, m_remote m) (fd_table s) of
        Some r \<Rightarrow> cpyfakefake (m_st m) r
      | None \<Rightarrow> (m_st m)\<lparr>f_uid := 0, f_gid := 0\<rparr>)"
  by (simp add: reported_def process_stat_def Let_def lookup_def split: option.split)

lemma unknown_same [simp]:
  "fd_unknown_is_real (snd (process_chown m s)) = fd_unknown_is_real s"
  "fd_unknown_is_real (snd (process_chmod m s)) = fd_unknown_is_real s"
  "fd_unknown_is_real (snd (process_mknod m s)) = fd_unknown_is_real s"
  "fd_unknown_is_real (snd (process_stat m s)) = fd_unknown_is_real s"
  by (simp_all add: process_chown_def process_chmod_def process_mknod_def process_stat_def Let_def split: option.split)

text \<open>An empty daemon, and messages about a file of mode 0644 on inode 7 of device 1.\<close>

definition ex_daemon :: faked where
  "ex_daemon = \<lparr>fd_table = init_hash_table, fd_unknown_is_real = False, fd_sent = []\<rparr>"

definition ex_stat :: fakestat where
  "ex_stat = \<lparr>f_uid = 500, f_gid = 500, f_ino = 7, f_dev = 1, f_rdev = 0, f_mode = 0x81A4, f_nlink = 1,
     f_size = 0\<rparr>"

definition ex_msg :: "32 word \<Rightarrow> fakestat \<Rightarrow> fake_msg" where
  "ex_msg f st = \<lparr>m_id = f, m_pid = 42, m_serial = 1, m_st = st, m_remote = 0\<rparr>"

lemma ex_msg_simps [simp]:
  "m_id (ex_msg f st) = f" "m_st (ex_msg f st) = st" "m_remote (ex_msg f st) = 0"
  "m_pid (ex_msg f st) = 42" "m_serial (ex_msg f st) = 1"
  by (simp_all add: ex_msg_def)

lemma ex_daemon_ok [simp]: "table_ok (fd_table ex_daemon)" "\<not> fd_unknown_is_real ex_daemon"
  "fd_table ex_daemon h = []" "fd_sent ex_daemon = []"
  by (simp_all add: ex_daemon_def init_hash_table_def table_ok_def chain_ok_def)

lemma ex_stat_mode [simp]: "ftype (f_mode ex_stat) = S_IFREG" "f_size ex_stat = 0" "f_nlink ex_stat = 1"
  "f_ino ex_stat = 7" "f_dev ex_stat = 1"
  by (simp_all add: ex_stat_def ftype_def S_IFMT_def S_IFREG_def)

lemma ex_reported: "reported ex_daemon (ex_msg stat_func st) = st\<lparr>f_uid := 0, f_gid := 0\<rparr>"
  by (simp add: reported_lookup lookup_find)

lemma chown_report:
  assumes "table_ok (fd_table s)" "\<not> fd_unknown_is_real s"
    and "alike (m_st q) (m_st m)" "m_remote q = m_remote m"
  shows "f_uid (reported (snd (process_chown m s)) q) =
      (if f_uid (m_st m) = - 1 then f_uid (reported s q) else f_uid (m_st m)) \<and>
    f_gid (reported (snd (process_chown m s)) q) =
      (if f_gid (m_st m) = - 1 then f_gid (reported s q) else f_gid (m_st m))"
proof -
  have "lookup (m_st q, m_remote q) (fd_table (snd (process_chown m s))) =
      Some (case lookup (m_st q, m_remote q) (fd_table s) of Some old \<Rightarrow> chowned (m_st m) old
            | None \<Rightarrow> chowned (m_st m) ((m_st m)\<lparr>f_uid := 0, f_gid := 0\<rparr>))"
    unfolding chown_step assms(4)
    by (rule step_table_ok(2)[OF assms(1) alike_chowned alike_trans[OF alike_reset alike_chowned] assms(3)])
  then show ?thesis
    by (simp add: reported_lookup assms(2) chowned_def cpyfakefake_def split: option.split)
qed

text \<open>
  After a \<^verbatim>\<open>chown\<close> the daemon reports the requested owner and group, or what it reported
  before for the one that is to stay (-1), whether or not the file was known.
\<close>

theorem chown_reported:
  assumes "table_ok (fd_table s)" "\<not> fd_unknown_is_real s"
    and "alike (m_st q) (m_st m)" "m_remote q = m_remote m"
  shows "f_uid (reported (snd (process_chown m s)) q) =
      (if f_uid (m_st m) = - 1 then f_uid (reported s q) else f_uid (m_st m)) \<and>
    f_gid (reported (snd (process_chown m s)) q) =
      (if f_gid (m_st m) = - 1 then f_gid (reported s q) else f_gid (m_st m))"
  by (rule chown_report[OF assms])

lemma chown_reported_witness:
  "f_uid (reported (snd (process_chown (ex_msg chown_func (ex_stat\<lparr>f_uid := 1000, f_gid := - 1\<rparr>)) ex_daemon))
     (ex_msg stat_func ex_stat)) = 1000 \<and>
   f_gid (reported (snd (process_chown (ex_msg chown_func (ex_stat\<lparr>f_uid := 1000, f_gid := - 1\<rparr>)) ex_daemon))
     (ex_msg stat_func ex_stat)) = 0"
  using chown_reported[of ex_daemon "ex_msg stat_func ex_stat"
      "ex_msg chown_func (ex_stat\<lparr>f_uid := 1000, f_gid := - 1\<rparr>)"]
  by (simp add: alike_def ex_reported)

text \<open>
  After a \<^verbatim>\<open>chmod\<close> the daemon reports the requested permissions with the file type it
  reported before (in particular a device node stays one, although the request, like the file
  on disk, is for a regular file), and the same owner and group.
\<close>

theorem chmod_reported:
  assumes "table_ok (fd_table s)" "\<not> fd_unknown_is_real s"
    and "alike (m_st q) (m_st m)" "m_remote q = m_remote m"
  shows "f_mode (reported (snd (process_chmod m s)) q) =
      (f_mode (m_st m) AND NOT S_IFMT) OR ftype (f_mode (reported s q)) \<and>
    f_uid (reported (snd (process_chmod m s)) q) = f_uid (reported s q) \<and>
    f_gid (reported (snd (process_chmod m s)) q) = f_gid (reported s q)"
proof -
  let ?g = "\<lambda>old. old\<lparr>f_mode := (f_mode (m_st m) AND NOT S_IFMT) OR ftype (f_mode old)\<rparr>"
  have "alike old (?g old)" for old by (simp add: alike_def)
  from step_table_ok(2)[OF assms(1) this alike_reset assms(3)]
  have "lookup (m_st q, m_remote q) (fd_table (snd (process_chmod m s))) =
      Some (case lookup (m_st q, m_remote q) (fd_table s) of Some old \<Rightarrow> ?g old
            | None \<Rightarrow> (m_st m)\<lparr>f_uid := 0, f_gid := 0\<rparr>)"
    unfolding chmod_step[OF assms(1)] assms(4) .
  moreover have "ftype (f_mode (m_st q)) = ftype (f_mode (m_st m))" using assms(3) by (simp add: alike_def)
  ultimately show ?thesis
    by (simp add: reported_lookup assms(2) cpyfakefake_def ftype_split split: option.split)
qed

lemma chmod_reported_witness:
  "f_mode (reported (snd (process_chmod (ex_msg chmod_func (ex_stat\<lparr>f_mode := 0x81ED\<rparr>)) ex_daemon))
     (ex_msg stat_func ex_stat)) = 0x81ED"
proof -
  have t: "ftype 0x81ED = S_IFREG" by (simp add: ftype_def S_IFMT_def S_IFREG_def)
  then have "f_mode (reported (snd (process_chmod (ex_msg chmod_func (ex_stat\<lparr>f_mode := 0x81ED\<rparr>)) ex_daemon))
     (ex_msg stat_func ex_stat)) = (0x81ED AND NOT S_IFMT) OR ftype 0x81ED"
    using chmod_reported[of ex_daemon "ex_msg stat_func ex_stat" "ex_msg chmod_func (ex_stat\<lparr>f_mode := 0x81ED\<rparr>)"]
    by (simp add: alike_def ex_reported)
  then show ?thesis unfolding ftype_split .
qed

text \<open>
  After a \<^verbatim>\<open>mknod\<close> of a device on an inode of which nothing was known, the daemon reports
  the requested mode and device number, owned by root, for the empty regular file that is on
  disk.
\<close>

theorem mknod_reported:
  assumes "table_ok (fd_table s)" "\<not> fd_unknown_is_real s"
    and "ftype (f_mode (m_st m)) = S_IFCHR \<or> ftype (f_mode (m_st m)) = S_IFBLK"
    and "\<And>n. n \<in> set (fd_table s (data_hash_val (m_st m))) \<Longrightarrow> dn_remote n = m_remote m \<Longrightarrow>
      f_ino (dn_buf n) = f_ino (m_st m) \<Longrightarrow> f_dev (dn_buf n) \<noteq> f_dev (m_st m)"
    and "f_dev (m_st q) = f_dev (m_st m)" "f_ino (m_st q) = f_ino (m_st m)" "m_remote q = m_remote m"
    and "ftype (f_mode (m_st q)) = S_IFREG" "f_size (m_st q) = 0"
  shows "f_mode (reported (snd (process_mknod m s)) q) = f_mode (m_st m) \<and>
    f_rdev (reported (snd (process_mknod m s)) q) = f_rdev (m_st m) \<and>
    f_uid (reported (snd (process_mknod m s)) q) = 0 \<and> f_gid (reported (snd (process_mknod m s)) q) = 0"
proof -
  let ?h = "data_hash_val (m_st m)" and ?t = "fd_table s"
  let ?new = "(m_st m)\<lparr>f_uid := 0, f_gid := 0\<rparr>"
  have hq: "data_hash_val (m_st q) = ?h" using assms(5,6) by (rule hash_of_inode)
  have none: "find_pos (node_is k (m_remote m)) (?t ?h) = None"
    if "f_dev k = f_dev (m_st m)" "f_ino k = f_ino (m_st m)" for k
    using assms(4) that fakestat_equal_inode by (fastforce simp: find_pos_None node_is_def)
  have "data_find (m_st m) (m_remote m) ?t = None" using none by (simp add: data_find_def Let_def)
  then have "fd_table (snd (process_mknod m s)) = data_insert ?new (m_remote m) ?t"
    using mknod_step[OF assms(1), of m] assms(3) types_distinct by (auto simp: step_table_def)
  moreover have "data_insert ?new (m_remote m) ?t = ?t(?h := ?t ?h @ [\<lparr>dn_buf = ?new, dn_remote = m_remote m\<rparr>])"
    using none[of ?new] hash_of_inode[of ?new "m_st m"] by (simp add: data_insert_def Let_def)
  moreover have "find_pos (node_is (m_st q) (m_remote m)) (?t ?h @ [\<lparr>dn_buf = ?new, dn_remote = m_remote m\<rparr>]) = Some (length (?t ?h))"
    using none[OF assms(5,6)] assms(3,5,6,8,9)
    by (simp add: find_pos_append node_is_def fakestat_equal_iff)
  ultimately have "lookup (m_st q, m_remote q) (fd_table (snd (process_mknod m s))) = Some ?new"
    by (simp add: lookup_def data_find_def Let_def hq assms(7) node_at_def)
  then show ?thesis by (simp add: reported_lookup assms(2) cpyfakefake_def)
qed

lemma mknod_reported_witness:
  "f_mode (reported (snd (process_mknod (ex_msg mknod_func (ex_stat\<lparr>f_mode := 0x2180, f_rdev := 0x103\<rparr>)) ex_daemon))
     (ex_msg stat_func ex_stat)) = 0x2180 \<and>
   f_rdev (reported (snd (process_mknod (ex_msg mknod_func (ex_stat\<lparr>f_mode := 0x2180, f_rdev := 0x103\<rparr>)) ex_daemon))
     (ex_msg stat_func ex_stat)) = 0x103"
proof -
  have "ftype 0x2180 = S_IFCHR" by (simp add: ftype_def S_IFMT_def S_IFCHR_def)
  then show ?thesis
    using mknod_reported[of ex_daemon "ex_msg mknod_func (ex_stat\<lparr>f_mode := 0x2180, f_rdev := 0x103\<rparr>)"
      "ex_msg stat_func ex_stat"] by simp
qed

subsection \<open>The run of the daemon\<close>

text \<open>
  The messages the library sends: a known function, and a \<^verbatim>\<open>mknod\<close> is not for a regular file.
\<close>

definition request_ok :: "fake_msg \<Rightarrow> bool" where
  "request_ok m \<longleftrightarrow> m_id m < 5 \<and> (m_id m = mknod_func \<longrightarrow> ftype (f_mode (m_st m)) \<noteq> S_IFREG)"

lemma func_cases: "m_id m < 5 \<Longrightarrow> m_id m = chown_func \<or> m_id m = chmod_func \<or> m_id m = mknod_func \<or>
    m_id m = stat_func \<or> m_id m = unlink_func"
proof -
  assume "m_id m < 5"
  then have "unat (m_id m) < 5" by (simp add: word_less_nat_alt)
  then have "unat (m_id m) \<in> {0, 1, 2, 3, 4}" by auto
  then show ?thesis
    by (auto simp: chown_func_def chmod_func_def mknod_func_def stat_func_def unlink_func_def
        word_unat_eq_iff)
qed

lemma funcs_distinct [simp]:
  "chmod_func \<noteq> chown_func" "mknod_func \<noteq> chown_func" "mknod_func \<noteq> chmod_func" "stat_func \<noteq> chown_func"
  "stat_func \<noteq> chmod_func" "stat_func \<noteq> mknod_func" "unlink_func \<noteq> chown_func" "unlink_func \<noteq> chmod_func"
  "unlink_func \<noteq> mknod_func" "unlink_func \<noteq> stat_func"
  "chmod_func \<noteq> mknod_func" "chown_func \<noteq> mknod_func"
  "chown_func \<le> highest_funcid" "chmod_func \<le> highest_funcid" "mknod_func \<le> highest_funcid"
  "stat_func \<le> highest_funcid" "unlink_func \<le> highest_funcid"
  by (simp_all add: chown_func_def chmod_func_def mknod_func_def stat_func_def unlink_func_def highest_funcid_def)

lemma process_msg_ok:
  assumes "table_ok (fd_table s)" "request_ok m"
  shows "\<exists>m' s'. process_msg m s = Some (m', s') \<and> table_ok (fd_table s') \<and> request_ok m'"
proof -
  consider "m_id m = chown_func" | "m_id m = chmod_func" | "m_id m = mknod_func" | "m_id m = stat_func"
    | "m_id m = unlink_func"
    using assms(2) func_cases by (auto simp: request_ok_def)
  then show ?thesis
  proof cases
    case 1
    have "table_ok (fd_table (snd (process_chown m s)))"
      unfolding chown_step
      by (rule step_table_ok(1)[OF assms(1) alike_chowned alike_trans[OF alike_reset alike_chowned]])
    moreover have "fst (process_chown m s) = m" by (simp add: process_chown_def Let_def split: option.split)
    ultimately show ?thesis using 1 assms(2) by (cases "process_chown m s") (simp add: process_msg_def)
  next
    case 2
    have "table_ok (fd_table (snd (process_chmod m s)))"
      unfolding chmod_step[OF assms(1)]
      by (rule step_table_ok(1)[OF assms(1) _ alike_reset]) (simp add: alike_def)
    moreover have "m_id (fst (process_chmod m s)) = m_id m"
      by (simp add: process_chmod_def Let_def split: option.split)
    ultimately show ?thesis using 2 assms(2)
      by (cases "process_chmod m s") (simp add: process_msg_def request_ok_def)
  next
    case 3
    have nr: "ftype (f_mode (m_st m)) \<noteq> S_IFREG" using 3 assms(2) by (simp add: request_ok_def)
    have "table_ok (fd_table (snd (process_mknod m s)))"
      unfolding mknod_step[OF assms(1) nr]
      by (rule step_table_ok(1)[OF assms(1) mknod_alike[OF nr] alike_reset])
    moreover have "m_id (fst (process_mknod m s)) = m_id m \<and>
        f_mode (m_st (fst (process_mknod m s))) = f_mode (m_st m)"
      by (simp add: process_mknod_def Let_def split: option.split)
    ultimately show ?thesis using 3 assms(2)
      by (cases "process_mknod m s") (simp add: process_msg_def request_ok_def)
  next
    case 4
    have "fd_table (snd (process_stat m s)) = fd_table s" by (simp add: process_stat_def Let_def)
    moreover have "m_id (fst (process_stat m s)) = m_id m"
      by (simp add: process_stat_def Let_def split: option.split)
    ultimately show ?thesis using 4 assms
      by (cases "process_stat m s") (simp add: process_msg_def request_ok_def)
  next
    case 5
    with process_unlink_ok[OF assms(1), of m] assms(2) show ?thesis by (auto simp: process_msg_def)
  qed
qed



subsection \<open>Removed files and interruptions\<close>

text \<open>The daemon after a \<^verbatim>\<open>chown\<close> of the file.\<close>

definition ex_known :: faked where
  "ex_known = snd (process_chown (ex_msg chown_func ex_stat) ex_daemon)"

lemma ex_known_table: "fd_table ex_known h = (if h = 8335 then [\<lparr>dn_buf = ex_stat, dn_remote = 0\<rparr>] else [])"
proof -
  have "data_hash_val ex_stat = 8335" by (simp add: data_hash_val_def)
  moreover have "data_find ex_stat 0 (fd_table ex_daemon) = None" by (simp add: data_find_None)
  moreover have "chowned ex_stat (ex_stat\<lparr>f_uid := 0, f_gid := 0\<rparr>) = ex_stat"
    by (simp add: chowned_def ex_stat_def)
  ultimately show ?thesis
    by (simp add: ex_known_def chown_step step_table_def data_insert_chain)
qed

lemma ex_known_ok: "table_ok (fd_table ex_known)" "\<not> fd_unknown_is_real ex_known"
  "data_find ex_stat 0 (fd_table ex_known) = Some (8335, 0)"
proof -
  have h: "data_hash_val ex_stat = 8335" by (simp add: data_hash_val_def)
  then show "data_find ex_stat 0 (fd_table ex_known) = Some (8335, 0)"
    by (simp add: data_find_Some ex_known_table node_is_def)
  show "table_ok (fd_table ex_known)" using h by (simp add: table_ok_def chain_ok_def ex_known_table)
  show "\<not> fd_unknown_is_real ex_known" by (simp add: ex_known_def)
qed

text \<open>
  When the last link of a file goes away, or the empty directory, the daemon forgets it:
  the next file on the same inode is reported as it is on disk, owned by root, as long as there
  was only one record for the inode.
\<close>

theorem unlink_reported:
  assumes "table_ok (fd_table s)" "\<not> fd_unknown_is_real s"
    and "f_nlink (m_st m) = 1 \<or> ftype (f_mode (m_st m)) = S_IFDIR \<and> f_nlink (m_st m) = 2"
    and "data_find (m_st m) (m_remote m) (fd_table s) = Some (h, p)"
    and "\<And>n. n \<in> set (take p (fd_table s h) @ drop (Suc p) (fd_table s h)) \<Longrightarrow>
      dn_remote n = m_remote m \<Longrightarrow> f_ino (dn_buf n) = f_ino (m_st m) \<Longrightarrow> f_dev (dn_buf n) \<noteq> f_dev (m_st m)"
    and "f_dev (m_st q) = f_dev (m_st m)" "f_ino (m_st q) = f_ino (m_st m)" "m_remote q = m_remote m"
  shows "\<exists>s'. process_unlink m s = Some (m, s') \<and> reported s' q = (m_st q)\<lparr>f_uid := 0, f_gid := 0\<rparr>"
proof -
  let ?t = "fd_table s" and ?c = "take p (fd_table s h) @ drop (Suc p) (fd_table s h)"
  obtain n where e: "data_erase (h, p) ?t = Some (n, ?t(h := ?c))"
    using erase_ok[OF assms(1,4)] by auto
  then have u: "process_unlink m s = Some (m, s\<lparr>fd_table := ?t(h := ?c)\<rparr>)"
    using assms(3,4) by (auto simp: process_unlink_def Let_def)
  have "h = data_hash_val (m_st m)" using assms(4) by (simp add: data_find_Some)
  then have hq: "data_hash_val (m_st q) = h" using hash_of_inode[OF assms(6,7)] by simp
  have "data_find (m_st q) (m_remote q) (?t(h := ?c)) = None"
    using assms(5-8) fakestat_equal_inode by (fastforce simp: data_find_None hq node_is_def)
  then have "reported (s\<lparr>fd_table := ?t(h := ?c)\<rparr>) q = (m_st q)\<lparr>f_uid := 0, f_gid := 0\<rparr>"
    using assms(2) by (simp add: reported_lookup lookup_def)
  with u show ?thesis by blast
qed

lemma unlink_reported_witness:
  "\<exists>s'. process_unlink (ex_msg unlink_func ex_stat) ex_known = Some (ex_msg unlink_func ex_stat, s') \<and>
     f_uid (reported s' (ex_msg stat_func ex_stat)) = 0"
  using unlink_reported[of ex_known "ex_msg unlink_func ex_stat" 8335 0 "ex_msg stat_func ex_stat"]
    ex_known_ok by (auto simp: ex_known_table)

lemma lookup_set_buf_other:
  assumes "data_find k r t = Some i" "\<not> same_file (k, r) (k', r')"
    "f_dev st = f_dev k" "f_ino st = f_ino k"
  shows "lookup (k', r') (set_buf i st t) = lookup (k', r') t"
proof -
  obtain h p where i: "i = (h, p)" by (cases i)
  note f = found_type[OF assms(1)[unfolded i]]
  let ?n = "(t h ! p)\<lparr>dn_buf := st\<rparr>"
  have "\<not> node_is k' r' ?n" "\<not> node_is k' r' (t h ! p)"
    using assms(2-4) f by (auto simp: same_file_def node_is_def fakestat_equal_iff)
  then have "find_pos (node_is k' r') ((t h)[p := ?n]) = find_pos (node_is k' r') (t h)"
    and "find_pos (node_is k' r') (t h) \<noteq> Some p"
    by (simp add: find_pos_replace) (simp add: find_pos_Some \<open>\<not> node_is k' r' (t h ! p)\<close>)
  then show ?thesis
    by (cases "find_pos (node_is k' r') (t h)") (auto simp: lookup_chain set_buf_def i)
qed

lemma step_table_other:
  assumes "\<not> same_file (k, r) (k', r')" "\<And>x. f_dev (g x) = f_dev x \<and> f_ino (g x) = f_ino x"
    "f_dev new = f_dev k" "f_ino new = f_ino k"
  shows "lookup (k', r') (step_table k r g new t) = lookup (k', r') t"
proof (cases "data_find k r t")
  case None
  have "\<not> same_file (new, r) (k', r')" using assms(1,3,4) by (simp add: same_file_def)
  from lookup_put_other[OF this] None show ?thesis by (simp add: step_table_def put_def)
next
  case (Some i)
  obtain h p where i: "i = (h, p)" by (cases i)
  note f = found_type[OF Some[unfolded i]]
  show ?thesis using lookup_set_buf_other[OF Some assms(1)] Some assms(2) f(4,5) i
    by (simp add: step_table_def node_at_def)
qed

lemma find_append: "find P (xs @ ys) = (case find P xs of Some x \<Rightarrow> Some x | None \<Rightarrow> find P ys)"
  by (induction xs) auto

lemma find_erase:
  assumes "p < length c" "\<not> P (c ! p)"
  shows "find P (take p c @ drop (Suc p) c) = find P c"
proof -
  have "find P c = find P (take p c @ c ! p # drop (Suc p) c)" using id_take_nth_drop[OF assms(1)] by simp
  then show ?thesis using assms(2) by (simp add: find_append split: option.split)
qed

lemma unlink_other:
  assumes "table_ok (fd_table s)" "\<not> same_file (m_st m, m_remote m) k" "process_unlink m s = Some (m', s')"
  shows "lookup k (fd_table s') = lookup k (fd_table s)"
proof (cases "fd_table s' = fd_table s")
  case False
  then obtain i where i: "data_find (m_st m) (m_remote m) (fd_table s) = Some i"
    using assms(3) by (auto simp: process_unlink_def Let_def split: if_splits option.splits)
  obtain h p where hp: "i = (h, p)" by (cases i)
  let ?c = "fd_table s h"
  note f = found_type[OF i[unfolded hp]]
  obtain k' r' where k: "k = (k', r')" by (cases k)
  have t': "fd_table s' = (fd_table s)(h := take p ?c @ drop (Suc p) ?c)"
    using erase_ok[OF assms(1) i[unfolded hp]] assms(3) i hp False
    by (auto simp: process_unlink_def Let_def split: if_splits)
  have "\<not> node_is k' r' (?c ! p)"
    using assms(2) f by (auto simp: k same_file_def node_is_def fakestat_equal_iff)
  with f(1) show ?thesis
    by (cases "data_hash_val k' = h") (simp_all add: k lookup_find t' find_erase)
qed simp

text \<open>
  C35.  A request about one file does not change what the daemon knows about a file on another
  inode, device or host.
\<close>

theorem requests_isolated:
  assumes "table_ok (fd_table s)" "request_ok m" "process_msg m s = Some (m', s')"
    and "\<not> same_file (m_st m, m_remote m) k"
  shows "lookup k (fd_table s') = lookup k (fd_table s)"
proof -
  obtain k' r' where k: "k = (k', r')" by (cases k)
  note other = step_table_other[OF assms(4)[unfolded k]]
  consider "m_id m = chown_func" | "m_id m = chmod_func" | "m_id m = mknod_func" | "m_id m = stat_func"
    | "m_id m = unlink_func"
    using assms(2) func_cases by (auto simp: request_ok_def)
  then show ?thesis
  proof cases
    case 1
    then have "s' = snd (process_chown m s)" using assms(3) by (auto simp: process_msg_def)
    then show ?thesis unfolding k by (simp add: chown_step other chowned_def)
  next
    case 2
    then have "s' = snd (process_chmod m s)" using assms(3) by (auto simp: process_msg_def)
    then show ?thesis unfolding k by (simp add: chmod_step[OF assms(1)] other)
  next
    case 3
    then have "s' = snd (process_mknod m s)" using assms(3) by (auto simp: process_msg_def)
    moreover have "ftype (f_mode (m_st m)) \<noteq> S_IFREG" using 3 assms(2) by (simp add: request_ok_def)
    ultimately show ?thesis unfolding k by (simp add: mknod_step[OF assms(1)] other)
  next
    case 4
    then have "s' = snd (process_stat m s)" using assms(3) by (auto simp: process_msg_def)
    then show ?thesis by (simp add: process_stat_def Let_def)
  next
    case 5
    then have "process_unlink m s = Some (m', s')" using assms(3) by (simp add: process_msg_def)
    from unlink_other[OF assms(1,4) this] show ?thesis .
  qed
qed

lemma requests_isolated_witness:
  "lookup (ex_stat, 0) (fd_table (snd (the (process_msg (ex_msg unlink_func (ex_stat\<lparr>f_ino := 8\<rparr>)) ex_known)))) =
   Some ex_stat"
proof -
  let ?m = "ex_msg unlink_func (ex_stat\<lparr>f_ino := 8\<rparr>)"
  have ok: "request_ok ?m" by (simp add: request_ok_def unlink_func_def mknod_func_def)
  obtain m' s' where r: "process_msg ?m ex_known = Some (m', s')"
    using process_msg_ok[OF ex_known_ok(1) ok] by blast
  have "\<not> same_file (m_st ?m, m_remote ?m) (ex_stat, 0)" by (simp add: same_file_def)
  from requests_isolated[OF ex_known_ok(1) ok r this] r show ?thesis
    by (simp add: lookup_def ex_known_ok node_at_def ex_known_table)
qed

text \<open>
  A signal that interrupts the daemon while it waits makes it process the last request
  again: a request for attributes is answered twice, and the second answer stays in the queue.
\<close>

theorem interruption_replies_twice:
  assumes "m_id m = stat_func" "m_remote m = 0"
  shows "\<exists>b s' r r'. get_msg buf [Message m, Interrupted] s = Some (b, s') \<and>
    fd_sent s' = fd_sent s @ [r, r'] \<and> m_pid r = m_pid m \<and> m_serial r = m_serial m \<and>
    m_pid r' = m_pid m \<and> m_serial r' = m_serial m"
proof -
  have st: "\<exists>b s'. process_msg n a = Some (b, s') \<and> fd_sent s' = fd_sent a @ [b] \<and> m_id b = m_id n \<and>
      m_pid b = m_pid n \<and> m_serial b = m_serial n" if "m_id n = stat_func" for n a
    using that by (auto simp: process_msg_def process_stat_def Let_def split: option.split)
  have m: "m\<lparr>m_remote := 0\<rparr> = m" using assms(2) by simp
  obtain b1 s1 where 1: "process_msg m s = Some (b1, s1)" "fd_sent s1 = fd_sent s @ [b1]" "m_id b1 = m_id m"
      "m_pid b1 = m_pid m" "m_serial b1 = m_serial m" using st[OF assms(1)] by blast
  obtain b2 s2 where 2: "process_msg b1 s1 = Some (b2, s2)" "fd_sent s2 = fd_sent s1 @ [b2]"
      "m_pid b2 = m_pid b1" "m_serial b2 = m_serial b1" using st[of b1 s1] 1(3) assms(1) by auto
  show ?thesis using 1 2 m by simp
qed

lemma interruption_replies_twice_witness:
  "\<exists>b s' r r'. get_msg (ex_msg stat_func ex_stat) [Message (ex_msg stat_func ex_stat), Interrupted] ex_daemon =
     Some (b, s') \<and> fd_sent s' = [r, r'] \<and> m_pid r' = 42"
  using interruption_replies_twice[of "ex_msg stat_func ex_stat" "ex_msg stat_func ex_stat" ex_daemon]
  by (auto simp del: get_msg.simps)

end
