(* ===== verification/FakedDb.thy ===== *)
theory FakedDb
  imports FakedProps
begin

text \<open>
  Saving and loading the database of the fakeroot daemon (\<open>save_database\<close> and \<open>load_database\<close>
  of \<^verbatim>\<open>faked.c\<close>), with the conversions of \<^verbatim>\<open>fprintf\<close> and \<^verbatim>\<open>scanf\<close> they use.
\<close>

subsection \<open>Saving\<close>

text \<open>The walk over the nodes, one unit of fuel per node and one for the end.\<close>

fun walk :: "nat \<Rightarrow> data_table \<Rightarrow> node_ptr option \<Rightarrow> node_ptr list option" where
  "walk 0 t i = None"
| "walk (Suc k) t None = Some []"
| "walk (Suc k) t (Some i) = map_option (Cons i) (walk k t (data_node_next t (Some i)))"

definition all_nodes :: "data_table \<Rightarrow> node_ptr list option" where
  "all_nodes t = walk (Suc (data_size t)) t (data_node_next t None)"

definition save_line :: "fakestat \<Rightarrow> string" where
  "save_line st =
     ''dev='' @ digits 16 (unat (f_dev st)) @ '',ino='' @ digits 10 (unat (f_ino st)) @
     '',mode='' @ digits 8 (unat (f_mode st)) @ '',uid='' @ digits 10 (unat (f_uid st)) @
     '',gid='' @ digits 10 (unat (f_gid st)) @ '',nlink='' @ digits 10 (unat (f_nlink st)) @
     '',rdev='' @ digits 10 (unat (f_rdev st)) @ [newline]"

text \<open>
  The results of \<^verbatim>\<open>stat\<close> on the save file, one per turn of the loop that waits for a reader of a
  pipe; for a pipe, whether it can be opened.
\<close>

datatype save_stat = No_entry | Stat_error | Not_fifo | Fifo bool

fun wait_reader :: "save_stat list \<Rightarrow> bool option" where
  "wait_reader [] = None"
| "wait_reader (No_entry # es) = Some True"
| "wait_reader (Stat_error # es) = Some False"
| "wait_reader (Not_fifo # es) = Some True"
| "wait_reader (Fifo opened # es) = (if opened then Some True else wait_reader es)"

text \<open>
  The result, 0 or \<^verbatim>\<open>EOF\<close>, and what is written; \<open>None\<close> while it waits for a reader.
\<close>

definition save_database ::
    "bool \<Rightarrow> save_stat list \<Rightarrow> bool \<Rightarrow> bool \<Rightarrow> 32 word \<Rightarrow> data_table \<Rightarrow> (int \<times> string) option" where
  "save_database save_file stats fopen_ok fclose_ok remote t =
     (if \<not> save_file then Some (0, [])
      else
        do { ok \<leftarrow> wait_reader stats;
             if \<not> ok \<or> \<not> fopen_ok then Some (- 1, [])
             else
               do { is \<leftarrow> all_nodes t;
                    Some (if fclose_ok then 0 else - 1,
                      concat (map (\<lambda>i. save_line (dn_buf (node_at t i)))
                        (filter (\<lambda>i. dn_remote (node_at t i) = remote) is))) } })"

subsection \<open>Loading\<close>

text \<open>
  A conversion \<^verbatim>\<open>%llu\<close>, \<^verbatim>\<open>%llx\<close> or \<^verbatim>\<open>%llo\<close>: white space, a sign, \<^verbatim>\<open>0x\<close> for base 16, and digits; the
  result is that of \<^verbatim>\<open>strtoull\<close>.  \<open>None\<close> when there is no digit.
\<close>

definition scan_num :: "nat \<Rightarrow> string \<Rightarrow> (64 word \<times> string) option" where
  "scan_num base s =
     (let (neg, s1) = strtol_sign s;
          s2 = (if base = 16 then skip_0x s1 else s1);
          ds = takeWhile (\<lambda>c. digit_val c < base) s2;
          v = min (digits_val base 0 ds) (2 ^ 64 - 1)
      in if ds = [] then None
         else Some (if neg then - of_nat v else of_nat v, dropWhile (\<lambda>c. digit_val c < base) s2))"

text \<open>
  \<open>scanf\<close> with a list of literals and bases and a final white space: the number of conversions
  or \<^verbatim>\<open>EOF\<close> (-1), when the input ends before the first one, the values, and the rest.
\<close>

definition skip_lit :: "string \<Rightarrow> string \<Rightarrow> string" where
  "skip_lit lit s = dropWhile isspace (drop (length lit) s)"

fun scanf :: "(string \<times> nat) list \<Rightarrow> string \<Rightarrow> int \<Rightarrow> 64 word list \<Rightarrow> int \<times> 64 word list \<times> string" where
  "scanf [] s n vs = (n, vs, dropWhile isspace s)"
| "scanf ((lit, base) # items) s n vs =
     (if take (length lit) s = lit then
        (let s1 = skip_lit lit s in
         if s1 = [] then (if n = 0 then - 1 else n, vs, s1)
         else case scan_num base s1 of
           None \<Rightarrow> (n, vs, s1)
         | Some (v, s2) \<Rightarrow> scanf items s2 (n + 1) (vs @ [v]))
      else if s = take (length s) lit then (if n = 0 then - 1 else n, vs, [])
      else (n, vs, s))"

definition db_items :: "(string \<times> nat) list" where
  "db_items = [(''dev='', 16), ('',ino='', 10), ('',mode='', 8), ('',uid='', 10), ('',gid='', 10),
     ('',nlink='', 10), ('',rdev='', 10)]"

text \<open>
  The record built from the values.  Its size is not assigned: \<open>junk\<close> is what the stack holds.
\<close>

fun record_of :: "64 word \<Rightarrow> 64 word list \<Rightarrow> fakestat" where
  "record_of junk [stdev, stino, stmode, stuid, stgid, stnlink, strdev] =
     \<lparr>f_uid = ucast stuid, f_gid = ucast stgid, f_ino = stino, f_dev = stdev, f_rdev = strdev,
      f_mode = ucast stmode, f_nlink = ucast stnlink, f_size = junk\<rparr>"
| "record_of junk _ =
     \<lparr>f_uid = 0, f_gid = 0, f_ino = 0, f_dev = 0, f_rdev = 0, f_mode = 0, f_nlink = 0, f_size = junk\<rparr>"

lemma scan_num_length:
  assumes "scan_num base s = Some (v, s')"
  shows "length s' < length s"
proof -
  obtain neg s1 where s1: "strtol_sign s = (neg, s1)" by (cases "strtol_sign s")
  have l1: "length s1 \<le> length s" using s1 by (cases s) (auto split: if_splits)
  define s2 where "s2 = (if base = 16 then skip_0x s1 else s1)"
  have "length (skip_0x x) \<le> length x" for x by (cases x rule: skip_0x.cases) simp_all
  then have l2: "length s2 \<le> length s1" by (simp add: s2_def)
  have r: "takeWhile (\<lambda>c. digit_val c < base) s2 \<noteq> []" "s' = dropWhile (\<lambda>c. digit_val c < base) s2"
    using assms s1 by (auto simp: scan_num_def Let_def s2_def split: if_splits)
  have "length (takeWhile (\<lambda>c. digit_val c < base) s2) + length s' = length s2"
    unfolding r(2) by (metis length_append takeWhile_dropWhile_id)
  moreover have "0 < length (takeWhile (\<lambda>c. digit_val c < base) s2)" using r(1) by blast
  ultimately show ?thesis using l1 l2 by linarith
qed

lemma skip_lit_length: "length (skip_lit lit s) \<le> length s"
  using length_dropWhile_le[of isspace "drop (length lit) s"] by (simp add: skip_lit_def)

lemma scanf_length:
  "scanf items s n vs = (m, vs', s') \<Longrightarrow> length s' \<le> length s \<and> (n < m \<longrightarrow> length s' < length s)"
proof (induction items s n vs rule: scanf.induct)
  case (1 s n vs)
  then show ?case by (auto simp: length_dropWhile_le)
next
  case (2 lit base items s n vs)
  show ?case
  proof (cases "take (length lit) s = lit \<and> skip_lit lit s \<noteq> []")
    case True
    show ?thesis
    proof (cases "scan_num base (skip_lit lit s)")
      case None
      with True 2(2) show ?thesis by (auto simp: Let_def skip_lit_length)
    next
      case (Some a)
      obtain v s2 where a: "a = (v, s2)" by (cases a)
      have "scanf items s2 (n + 1) (vs @ [v]) = (m, vs', s')" using 2(2) True Some a by (simp add: Let_def)
      then have "length s' \<le> length s2" using 2(1)[OF _ refl _ Some a[symmetric]] True by blast
      with scan_num_length[OF Some[unfolded a]] skip_lit_length[of lit s] show ?thesis by simp
    qed
  next
    case False
    with 2(2) show ?thesis by (auto simp: Let_def split: if_splits)
  qed
qed

lemma scanf_progress: "(7, vs, s') = scanf db_items s 0 [] \<Longrightarrow> length s' < length s"
  using scanf_length[of db_items s 0 "[]" 7 vs s'] by simp

function load_loop :: "64 word \<Rightarrow> 32 word \<Rightarrow> string \<Rightarrow> data_table \<Rightarrow> bool \<times> data_table" where
  "load_loop junk remote s t =
     (let (r, vs, s') = scanf db_items s 0 [] in
      if r \<noteq> 7 then (r = 0 \<or> r = - 1, t)
      else load_loop junk remote s' (data_insert (record_of junk vs) remote t))"
  by pat_completeness auto
termination
  by (relation "measure (\<lambda>(junk, remote, s, t). length s)") (auto dest: scanf_progress)

declare load_loop.simps [simp del]

definition load_database :: "64 word \<Rightarrow> 32 word \<Rightarrow> string \<Rightarrow> data_table \<Rightarrow> bool \<times> data_table" where
  "load_database = load_loop"

subsection \<open>The walk visits every node once\<close>

definition ptrs :: "data_table \<Rightarrow> nat list \<Rightarrow> node_ptr list" where
  "ptrs t hs = concat (map (\<lambda>h. map (Pair h) [0..<length (t h)]) hs)"

lemma ptrs_simps [simp]:
  "ptrs t [] = []" "ptrs t (h # hs) = map (Pair h) [0..<length (t h)] @ ptrs t hs"
  by (simp_all add: ptrs_def)

lemma ptrs_head:
  "ptrs t [a..<n] = (h, p) # r \<Longrightarrow>
   r = map (Pair h) [Suc p..<length (t h)] @ ptrs t [Suc h..<n] \<and> p < length (t h)"
proof (induction "n - a" arbitrary: a)
  case (Suc k)
  then have u: "[a..<n] = a # [Suc a..<n]" by (simp add: upt_conv_Cons)
  show ?case
  proof (cases "t a = []")
    case True
    have "k = n - Suc a" using Suc.hyps(2) by simp
    moreover have "ptrs t [Suc a..<n] = (h, p) # r" using Suc.prems u True by simp
    ultimately show ?thesis by (rule Suc.hyps(1))
  next
    case False
    then have "[0..<length (t a)] = 0 # [Suc 0..<length (t a)]" by (simp add: upt_conv_Cons)
    with Suc.prems u False show ?thesis by auto
  qed
qed simp

lemma first_chain_ptrs: "first_chain t hs = (case ptrs t hs of [] \<Rightarrow> None | i # r \<Rightarrow> Some i)"
proof (induction hs)
  case (Cons h hs)
  then show ?case by (cases "t h") (simp_all add: upt_conv_Cons del: upt_Suc)
qed simp

text \<open>The nodes after a node.\<close>

definition after :: "data_table \<Rightarrow> node_ptr \<Rightarrow> node_ptr list" where
  "after t i = (case i of (h, p) \<Rightarrow> map (Pair h) [Suc p..<length (t h)] @ ptrs t [Suc h..<HASH_TABLE_SIZE])"

lemma next_after:
  assumes "table_ok t" "p < length (t h)"
  shows "data_node_next t (Some (h, p)) = (case after t (h, p) of [] \<Rightarrow> None | i # r \<Rightarrow> Some i)"
proof -
  have "data_hash_val (dn_buf (t h ! p)) = h" using assms by (simp add: table_ok_def chain_ok_def)
  then show ?thesis
    using assms(2)
    by (auto simp: data_node_next_def after_def first_chain_ptrs upt_conv_Cons simp del: upt_Suc)
qed

lemma after_step:
  assumes "after t (h, p) = (h', p') # r" "p < length (t h)"
  shows "r = after t (h', p') \<and> p' < length (t h')"
proof (cases "Suc p < length (t h)")
  case True
  then show ?thesis using assms by (auto simp: after_def upt_conv_Cons simp del: upt_Suc)
next
  case False
  with assms ptrs_head[of t "Suc h" HASH_TABLE_SIZE h' p' r] show ?thesis
    by (simp add: after_def del: upt_Suc)
qed

lemma walk_after:
  "table_ok t \<Longrightarrow> p < length (t h) \<Longrightarrow> length (after t (h, p)) < k \<Longrightarrow>
   walk (Suc k) t (Some (h, p)) = Some ((h, p) # after t (h, p))"
proof (induction k arbitrary: h p)
  case (Suc k)
  have w: "walk (Suc (Suc k)) t (Some (h, p)) =
      map_option (Cons (h, p)) (walk (Suc k) t (data_node_next t (Some (h, p))))" by (rule walk.simps)
  show ?case
  proof (cases "after t (h, p)")
    case Nil
    with next_after[OF Suc.prems(1,2)] show ?thesis unfolding w by simp
  next
    case (Cons i r)
    obtain h' p' where i: "i = (h', p')" by (cases i)
    have st: "r = after t (h', p')" "p' < length (t h')"
      using after_step[OF Cons[unfolded i] Suc.prems(2)] by simp_all
    have "length (after t (h', p')) < k" using Suc.prems(3) Cons st by simp
    from Suc.IH[OF Suc.prems(1) st(2) this]
    have "walk (Suc k) t (Some (h', p')) = Some ((h', p') # after t (h', p'))" .
    moreover have "data_node_next t (Some (h, p)) = Some (h', p')"
      using next_after[OF Suc.prems(1,2)] Cons i by simp
    ultimately show ?thesis unfolding w using Cons i st by simp
  qed
qed simp

lemma ptrs_length: "length (ptrs t [0..<HASH_TABLE_SIZE]) = data_size t"
  by (simp add: ptrs_def data_size_def length_concat comp_def)

lemma all_nodes_ptrs:
  assumes "table_ok t"
  shows "all_nodes t = Some (ptrs t [0..<HASH_TABLE_SIZE])"
proof (cases "ptrs t [0..<HASH_TABLE_SIZE]")
  case Nil
  then show ?thesis by (simp add: all_nodes_def data_node_next_def first_chain_ptrs)
next
  case (Cons i r)
  obtain h p where i: "i = (h, p)" by (cases i)
  have "r = after t (h, p)" "p < length (t h)"
    using ptrs_head[of t 0 HASH_TABLE_SIZE h p r] Cons i by (simp_all add: after_def)
  moreover have "Suc (length r) = data_size t" using Cons ptrs_length[of t] by simp
  ultimately have "walk (Suc (data_size t)) t (Some (h, p)) = Some ((h, p) # r)"
    using walk_after[OF assms, of p h "data_size t"] by simp
  with Cons i show ?thesis
    by (simp add: all_nodes_def data_node_next_def first_chain_ptrs del: walk.simps)
qed

text \<open>
  The iteration over the hash table ends, and visits every node once, chain by chain.
\<close>

theorem iteration_complete:
  assumes "table_ok t"
  shows "all_nodes t = Some (concat (map (\<lambda>h. map (Pair h) [0..<length (t h)]) [0..<HASH_TABLE_SIZE]))"
  using all_nodes_ptrs[OF assms] by (simp add: ptrs_def)

lemma iteration_complete_witness:
  "map_option length (all_nodes (fd_table ex_known)) = Some (data_size (fd_table ex_known))"
  using iteration_complete[OF ex_known_ok(1)] ptrs_length[of "fd_table ex_known"]
  by (simp add: ptrs_def)

subsection \<open>Round trip\<close>

lemma digits_span:
  assumes "2 \<le> b" "b \<le> 16" "\<not> digit_val c < b"
  shows "takeWhile (\<lambda>x. digit_val x < b) (digits b n @ c # r) = digits b n"
    "dropWhile (\<lambda>x. digit_val x < b) (digits b n @ c # r) = c # r"
proof -
  have "\<forall>x\<in>set (digits b n). digit_val x < b" using digits_set[OF assms(1,2)] assms(2) by force
  then show "takeWhile (\<lambda>x. digit_val x < b) (digits b n @ c # r) = digits b n"
    "dropWhile (\<lambda>x. digit_val x < b) (digits b n @ c # r) = c # r"
    using assms(3) by (simp_all add: takeWhile_append2 dropWhile_append2)
qed

lemma skip_0x_digits:
  assumes "c \<noteq> CHR ''x''" "c \<noteq> CHR ''X''"
  shows "skip_0x (digits 16 n @ c # r) = digits 16 n @ c # r"
proof -
  obtain d ds where d: "digits 16 n = d # ds" by (cases "digits 16 n") auto
  have notx: "k \<noteq> CHR ''x'' \<and> k \<noteq> CHR ''X''" if k: "k \<in> set (digits 16 n)" for k
  proof -
    obtain v where v: "k = digit_char v" "v < 16" using digits_set[of 16 k n] k by auto
    have "code k \<noteq> 120 \<and> code k \<noteq> 88" using code_digit_char[OF v(2)] v by auto
    then show ?thesis by (auto simp: code_def)
  qed
  show ?thesis
  proof (cases ds)
    case Nil
    with d assms show ?thesis by (cases r) simp_all
  next
    case (Cons e es)
    have "e \<noteq> CHR ''x'' \<and> e \<noteq> CHR ''X''" using notx[of e] d Cons by simp
    with d Cons show ?thesis by (cases "es @ c # r") simp_all
  qed
qed

lemma digits_start:
  assumes "2 \<le> b" "b \<le> 16"
  shows "strtol_sign (digits b n @ r) = (False, digits b n @ r)" "dropWhile isspace (digits b n @ r) = digits b n @ r"
proof -
  obtain d ds where d: "digits b n = digit_char d # ds" "d < 16"
    using digits_hd[OF assms, of n] assms(2) by (cases "digits b n") auto
  with digit_char_first[of d] show "strtol_sign (digits b n @ r) = (False, digits b n @ r)"
    "dropWhile isspace (digits b n @ r) = digits b n @ r" by simp_all
qed

lemma digits_length: "2 \<le> b \<Longrightarrow> n < b ^ k \<Longrightarrow> 0 < k \<Longrightarrow> length (digits b n) \<le> k"
proof (induction b n arbitrary: k rule: digits.induct)
  case (1 b n)
  show ?case
  proof (cases "n < b")
    case True
    then show ?thesis using 1(4) by (simp add: digits.simps[of b n])
  next
    case False
    then obtain j where k: "k = Suc j" "0 < j" using 1(3,4) by (cases k; cases "k - 1") auto
    then have "n div b < b ^ j" using 1(2,3) by (simp add: div_less_iff_less_mult mult.commute)
    then have "length (digits b (n div b)) \<le> j" using 1 False k by simp
    then show ?thesis using 1(2) False k by (simp add: digits.simps[of b n])
  qed
qed

lemma scan_num_digits:
  assumes "b = 8 \<or> b = 10 \<or> b = 16" "c = CHR '','' \<or> c = newline" "n < 2 ^ 64"
  shows "scan_num b (digits b n @ c # r) = Some (of_nat n, c # r)"
proof -
  have b: "2 \<le> b" "b \<le> 16" using assms(1) by auto
  have c: "\<not> digit_val c < b" "c \<noteq> CHR ''x''" "c \<noteq> CHR ''X''"
    using assms(1,2) by (auto simp: digit_val_def isdigit_def code_def newline_def)
  show ?thesis
    using assms(3) b c
    by (simp add: scan_num_def digits_start digits_span skip_0x_digits Let_def digits_val_digits)
qed

lemma scanf_step:
  assumes "b = 8 \<or> b = 10 \<or> b = 16" "c = CHR '','' \<or> c = newline" "v < 2 ^ 64"
  shows "scanf ((lit, b) # items) (lit @ digits b v @ c # r) n vs = scanf items (c # r) (n + 1) (vs @ [of_nat v])"
proof -
  have "skip_lit lit (lit @ digits b v @ c # r) = digits b v @ c # r"
    using assms(1) digits_start(2)[of b v "c # r"] by (auto simp: skip_lit_def)
  then show ?thesis using scan_num_digits[OF assms] by simp
qed

lemma unat_bound64: "unat (w :: 64 word) < 2 ^ 64" "unat (u :: 32 word) < 2 ^ 64"
proof -
  have "unat u < 2 ^ 32" using unsigned_less[of u, where ?'a = nat] by simp
  also have "(2 ^ 32 :: nat) < 2 ^ 64" by simp
  finally show "unat u < 2 ^ 64" .
  show "unat w < 2 ^ 64" using unsigned_less[of w, where ?'a = nat] by simp
qed

text \<open>A line as its fields: literal, base and value.\<close>

definition fields_text :: "(string \<times> nat \<times> nat) list \<Rightarrow> string" where
  "fields_text xs = concat (map (\<lambda>(l, b, v). l @ digits b v) xs)"

definition field_ok :: "string \<times> nat \<times> nat \<Rightarrow> bool" where
  "field_ok x \<longleftrightarrow> (case x of (l, b, v) \<Rightarrow> (b = 8 \<or> b = 10 \<or> b = 16) \<and> v < 2 ^ 64)"

lemma scanf_fields:
  "\<forall>x\<in>set xs. field_ok x \<Longrightarrow> \<forall>x\<in>set (tl xs). \<exists>l. fst x = CHR '','' # l \<Longrightarrow>
   scanf (map (\<lambda>(l, b, v). (l, b)) xs) (fields_text xs @ newline # r) n vs =
     (n + int (length xs), vs @ map (\<lambda>(l, b, v). of_nat v) xs, dropWhile isspace r)"
proof (induction xs arbitrary: n vs)
  case Nil
  have "isspace newline" by (simp add: isspace_def newline_def code_def)
  then show ?case by (simp add: fields_text_def)
next
  case (Cons x xs)
  obtain l b v where x: "x = (l, b, v)" by (cases x)
  have ok: "b = 8 \<or> b = 10 \<or> b = 16" "v < 2 ^ 64" using Cons.prems(1) x by (simp_all add: field_ok_def)
  have "\<exists>c q. fields_text xs @ newline # r = c # q \<and> (c = CHR '','' \<or> c = newline)"
  proof (cases xs)
    case Nil
    then show ?thesis by (simp add: fields_text_def)
  next
    case (Cons y ys)
    then obtain k where "fst y = CHR '','' # k" using Cons.prems(2) by auto
    then show ?thesis using Cons by (cases y) (simp add: fields_text_def)
  qed
  then obtain c q where c: "fields_text xs @ newline # r = c # q" "c = CHR '','' \<or> c = newline" by blast
  have line: "fields_text (x # xs) @ newline # r = l @ digits b v @ c # q"
    using c(1) x by (simp add: fields_text_def)
  have "\<forall>y\<in>set (tl xs). \<exists>l. fst y = CHR '','' # l" using Cons.prems(2) by (cases xs) auto
  then have IH: "scanf (map (\<lambda>(l, b, v). (l, b)) xs) (c # q) (n + 1) (vs @ [of_nat v]) =
     (n + 1 + int (length xs), (vs @ [of_nat v]) @ map (\<lambda>(l, b, v). of_nat v) xs, dropWhile isspace r)"
    using Cons.IH[of "n + 1" "vs @ [of_nat v]"] Cons.prems(1) c(1) by simp
  show ?case unfolding line using scanf_step[OF ok(1) c(2) ok(2), of l "map (\<lambda>(l, b, v). (l, b)) xs" q n vs] IH
    by (simp add: x)
qed

lemma scanf_save_line:
  "scanf db_items (save_line st @ r) 0 [] =
    (7, [f_dev st, f_ino st, ucast (f_mode st), ucast (f_uid st), ucast (f_gid st), ucast (f_nlink st), f_rdev st],
     dropWhile isspace r)"
proof -
  define xs :: "(string \<times> nat \<times> nat) list" where "xs = [(''dev='', 16, unat (f_dev st)), ('',ino='', 10, unat (f_ino st)),
    ('',mode='', 8, unat (f_mode st)), ('',uid='', 10, unat (f_uid st)), ('',gid='', 10, unat (f_gid st)),
    ('',nlink='', 10, unat (f_nlink st)), ('',rdev='', 10, unat (f_rdev st))]"
  have "save_line st @ r = fields_text xs @ newline # r" by (simp add: save_line_def fields_text_def xs_def)
  moreover have "db_items = map (\<lambda>(l, b, v). (l, b)) xs" by (simp add: db_items_def xs_def)
  moreover have "\<forall>x\<in>set xs. field_ok x" by (simp add: xs_def field_ok_def unat_bound64 del: power_numeral)
  moreover have "\<forall>x\<in>set (tl xs). \<exists>l. fst x = CHR '','' # l" by (simp add: xs_def)
  ultimately have "scanf db_items (save_line st @ r) 0 [] =
      (int (length xs), map (\<lambda>(l, b, v). of_nat v) xs, dropWhile isspace r)"
    using scanf_fields[of xs r 0 "[]"] by simp
  then show ?thesis by (simp add: xs_def)
qed

lemma record_of_save:
  "record_of junk [f_dev st, f_ino st, ucast (f_mode st), ucast (f_uid st), ucast (f_gid st), ucast (f_nlink st), f_rdev st] =
   st\<lparr>f_size := junk\<rparr>"
proof -
  have "(ucast (ucast (w :: 32 word) :: 64 word) :: 32 word) = w" for w
    by (rule bit_word_eqI) (auto simp: bit_simps)
  then show ?thesis by (cases st) simp
qed

lemma load_lines:
  "load_database junk r (concat (map save_line sts)) t = (True, fold (\<lambda>st. put (st\<lparr>f_size := junk\<rparr>, r)) sts t)"
proof (induction sts arbitrary: t)
  case Nil
  have "scanf db_items [] 0 [] = (- 1, [], [])" by (simp add: db_items_def)
  then show ?case by (simp add: load_database_def load_loop.simps[of _ _ "[]"])
next
  case (Cons st sts)
  have "dropWhile isspace (concat (map save_line sts)) = concat (map save_line sts)"
    by (cases sts) (simp_all add: save_line_def isspace_def code_def)
  then have "scanf db_items (save_line st @ concat (map save_line sts)) 0 [] =
      (7, [f_dev st, f_ino st, ucast (f_mode st), ucast (f_uid st), ucast (f_gid st), ucast (f_nlink st), f_rdev st],
        concat (map save_line sts))"
    using scanf_save_line[of st "concat (map save_line sts)"] by simp
  then have "load_loop junk r (save_line st @ concat (map save_line sts)) t =
      load_loop junk r (concat (map save_line sts)) (data_insert (st\<lparr>f_size := junk\<rparr>) r t)"
    by (subst load_loop.simps) (simp only: Let_def prod.case record_of_save, simp)
  with Cons[of "data_insert (st\<lparr>f_size := junk\<rparr>) r t"] show ?case
    by (simp add: load_database_def put_def)
qed

text \<open>The records of a host, in the order of the iteration.\<close>

definition saved_records :: "32 word \<Rightarrow> data_table \<Rightarrow> fakestat list" where
  "saved_records r t = map dn_buf (filter (\<lambda>n. dn_remote n = r) (concat (map t [0..<HASH_TABLE_SIZE])))"

lemma map_ptrs: "map (node_at t) (ptrs t hs) = concat (map t hs)"
proof (induction hs)
  case (Cons h hs)
  have "map (node_at t \<circ> Pair h) [0..<length (t h)] = t h"
    by (rule nth_equalityI) (simp_all add: node_at_def)
  with Cons show ?case by simp
qed simp

lemma save_text:
  assumes "table_ok t" "wait_reader stats = Some True"
  shows "save_database True stats True True r t = Some (0, concat (map save_line (saved_records r t)))"
proof -
  let ?is = "ptrs t [0..<HASH_TABLE_SIZE]"
  have "map (\<lambda>i. save_line (dn_buf (node_at t i))) (filter (\<lambda>i. dn_remote (node_at t i) = r) ?is) =
      map save_line (map dn_buf (filter (\<lambda>n. dn_remote n = r) (map (node_at t) ?is)))"
    by (simp add: filter_map comp_def)
  then show ?thesis
    by (simp add: save_database_def assms(2) all_nodes_ptrs[OF assms(1)] saved_records_def map_ptrs)
qed

text \<open>
  What the daemon saves, it can load: from the saved text an empty daemon gets back every
  record (except for the size, which is not saved), when there is one record per inode.
\<close>

theorem save_load_roundtrip:
  assumes "table_ok t" "wait_reader stats = Some True"
    and "sorted_wrt (\<lambda>a b. f_dev a = f_dev b \<longrightarrow> f_ino a \<noteq> f_ino b) (saved_records r t)"
  shows "\<exists>out t'. save_database True stats True True r t = Some (0, out) \<and>
    load_database junk r out init_hash_table = (True, t') \<and>
    (\<forall>st\<in>set (saved_records r t). lookup (st\<lparr>f_size := junk\<rparr>, r) t' = Some (st\<lparr>f_size := junk\<rparr>))"
proof -
  let ?ks = "map (\<lambda>st. (st\<lparr>f_size := junk\<rparr>, r)) (saved_records r t)"
  have "sorted_wrt (\<lambda>a b. \<not> same_file b a) ?ks"
    using assms(3) by (auto simp: sorted_wrt_map same_file_def elim!: sorted_wrt_mono_rel[rotated])
  then have "\<forall>st\<in>set (saved_records r t). lookup (st\<lparr>f_size := junk\<rparr>, r) (fold put ?ks init_hash_table) = Some (st\<lparr>f_size := junk\<rparr>)"
    using tab.find_fold_put[of ?ks "(_, r)" init_hash_table] by auto
  with save_text[OF assms(1,2), of r] load_lines[of junk r "saved_records r t" init_hash_table]
  show ?thesis by (simp add: fold_map comp_def)
qed

lemma single_chain: "a < n \<Longrightarrow> concat (map (\<lambda>h. if h = a then xs else []) [0..<n]) = xs"
proof (induction n)
  case (Suc n)
  then show ?case by (cases "a = n") (auto simp: concat_eq_Nil_conv)
qed simp

lemma save_load_roundtrip_witness:
  "\<exists>out t'. save_database True [Fifo False, Not_fifo] True True 0 (fd_table ex_known) = Some (0, out) \<and>
     load_database 99 0 out init_hash_table = (True, t') \<and>
     lookup (ex_stat\<lparr>f_size := 99\<rparr>, 0) t' = Some (ex_stat\<lparr>f_size := 99\<rparr>)"
proof -
  have "fd_table ex_known = (\<lambda>h. if h = 8335 then [\<lparr>dn_buf = ex_stat, dn_remote = 0\<rparr>] else [])"
    by (rule ext) (rule ex_known_table)
  then have r: "saved_records 0 (fd_table ex_known) = [ex_stat]"
    by (simp add: saved_records_def single_chain HASH_TABLE_SIZE_def)
  from save_load_roundtrip[OF ex_known_ok(1), of "[Fifo False, Not_fifo]" 0 99]
  show ?thesis unfolding r by auto
qed

end
