(* ===== verification/FakedClient.thy ===== *)
theory FakedClient
  imports FakedDb
begin

text \<open>
  The client side of fakeroot (\<^verbatim>\<open>communicate.c\<close>, System V queues) together with the daemon: the
  requests and the answers are two queues.  Queue operations that fail and the semaphore, which
  serialises the clients, are not modelled.  The list of connections of the TCP build of the
  daemon is here too.
\<close>

subsection \<open>The connection\<close>

text \<open>The static variables of the client.\<close>

record client =
  c_pid :: int
  c_serial :: int
  c_key :: int
  c_msg_snd :: int
  c_msg_get :: int
  c_done :: bool

definition env_var_set :: "(string \<Rightarrow> string option) \<Rightarrow> string \<Rightarrow> string option" where
  "env_var_set getenv env = (case getenv env of Some s \<Rightarrow> if s \<noteq> [] then Some s else None | None \<Rightarrow> None)"

definition atoi :: "string \<Rightarrow> int" where
  "atoi s = int32 (strtol s 10)"

definition get_ipc_key :: "(string \<Rightarrow> string option) \<Rightarrow> int \<Rightarrow> client \<Rightarrow> int \<times> client" where
  "get_ipc_key getenv new_key c =
     (if c_key c = - 1 then
        (let k = (if new_key \<noteq> 0 then new_key
                  else case env_var_set getenv ''FAKEROOTKEY'' of Some s \<Rightarrow> atoi s | None \<Rightarrow> 0)
         in (k, c\<lparr>c_key := k\<rparr>))
      else (c_key c, c))"

text \<open>\<open>msgget\<close> maps a key to the identifier of a queue, or -1.\<close>

definition init_get_msg :: "(string \<Rightarrow> string option) \<Rightarrow> (int \<Rightarrow> int) \<Rightarrow> client \<Rightarrow> int \<times> client" where
  "init_get_msg getenv msgget c =
     (if \<not> c_done c \<and> c_msg_get c = - 1 then
        (let (k, c1) = get_ipc_key getenv 0 c;
             c2 = (if k \<noteq> 0 then c1\<lparr>c_msg_snd := msgget k, c_msg_get := msgget (k + 1)\<rparr>
                   else c1\<lparr>c_msg_get := - 1, c_msg_snd := - 1\<rparr>)
         in (c_msg_snd c2, c2\<lparr>c_done := True\<rparr>))
      else (c_msg_snd c, c))"

subsection \<open>The two queues and the daemon\<close>

record ipc =
  requests :: "fake_msg list"
  replies :: "fake_msg list"
  daemon :: faked

definition send_fakem :: "fake_msg \<Rightarrow> ipc \<Rightarrow> ipc" where
  "send_fakem m i = i\<lparr>requests := requests i @ [m]\<rparr>"

text \<open>The daemon receives all waiting requests; \<open>buf\<close> is its buffer.\<close>

definition daemon_run :: "fake_msg \<Rightarrow> ipc \<Rightarrow> ipc option" where
  "daemon_run buf i =
     map_option (\<lambda>(_, d). i\<lparr>requests := [], replies := replies i @ fd_sent d, daemon := d\<lparr>fd_sent := []\<rparr>\<rparr>)
       (get_msg buf (map Message (requests i)) (daemon i))"

text \<open>The loop around \<open>msgrcv\<close>: answers with another serial number or process are dropped.\<close>

fun await :: "int \<Rightarrow> int \<Rightarrow> fake_msg list \<Rightarrow> (fake_msg \<times> fake_msg list) option" where
  "await serial pid [] = None"
| "await serial pid (r # rs) =
     (if m_serial r \<noteq> serial \<or> m_pid r \<noteq> pid then await serial pid rs else Some (r, rs))"

definition send_get_fakem :: "fake_msg \<Rightarrow> fake_msg \<Rightarrow> client \<Rightarrow> ipc \<Rightarrow> (fake_msg \<times> client \<times> ipc) option" where
  "send_get_fakem dbuf buf c i =
     (let serial = c_serial c + 1 in
      do { i1 \<leftarrow> daemon_run dbuf (send_fakem (buf\<lparr>m_serial := serial, m_pid := c_pid c\<rparr>) i);
           (r, rs) \<leftarrow> await serial (c_pid c) (replies i1);
           Some (r, c\<lparr>c_serial := serial\<rparr>, i1\<lparr>replies := rs\<rparr>) })"

text \<open>\<open>buf\<close> is the uninitialised message on the stack.\<close>

definition send_stat ::
    "(string \<Rightarrow> string option) \<Rightarrow> (int \<Rightarrow> int) \<Rightarrow> fake_msg \<Rightarrow> cstat \<Rightarrow> 32 word \<Rightarrow> client \<Rightarrow> ipc \<Rightarrow> client \<times> ipc" where
  "send_stat getenv msgget buf st f c i =
     (let (q, c1) = init_get_msg getenv msgget c in
      if q \<noteq> - 1 then (c1, send_fakem ((cpyfakemstat buf st)\<lparr>m_id := f\<rparr>) i) else (c1, i))"

definition send_get_stat ::
    "(string \<Rightarrow> string option) \<Rightarrow> (int \<Rightarrow> int) \<Rightarrow> fake_msg \<Rightarrow> fake_msg \<Rightarrow> cstat \<Rightarrow> client \<Rightarrow> ipc \<Rightarrow>
     (cstat \<times> client \<times> ipc) option" where
  "send_get_stat getenv msgget dbuf buf st c i =
     (let (q, c1) = init_get_msg getenv msgget c in
      if q \<noteq> - 1 then
        map_option (\<lambda>(r, c2, i2). (cpystatfakem st r, c2, i2))
          (send_get_fakem dbuf ((cpyfakemstat buf st)\<lparr>m_id := stat_func\<rparr>) c1 i)
      else Some (st, c1, i))"

definition send_stat64 ::
    "(string \<Rightarrow> string option) \<Rightarrow> (int \<Rightarrow> int) \<Rightarrow> fake_msg \<Rightarrow> cstat \<Rightarrow> 32 word \<Rightarrow> client \<Rightarrow> ipc \<Rightarrow> client \<times> ipc" where
  "send_stat64 getenv msgget buf st f c i =
     (let (q, c1) = init_get_msg getenv msgget c in
      if q \<noteq> - 1 then (c1, send_fakem ((cpyfakemstat64 buf st)\<lparr>m_id := f\<rparr>) i) else (c1, i))"

definition send_get_stat64 ::
    "(string \<Rightarrow> string option) \<Rightarrow> (int \<Rightarrow> int) \<Rightarrow> fake_msg \<Rightarrow> fake_msg \<Rightarrow> cstat \<Rightarrow> client \<Rightarrow> ipc \<Rightarrow>
     (cstat \<times> client \<times> ipc) option" where
  "send_get_stat64 getenv msgget dbuf buf st c i =
     (let (q, c1) = init_get_msg getenv msgget c in
      if q \<noteq> - 1 then
        map_option (\<lambda>(r, c2, i2). (cpystat64fakem st r, c2, i2))
          (send_get_fakem dbuf ((cpyfakemstat64 buf st)\<lparr>m_id := stat_func\<rparr>) c1 i)
      else Some (st, c1, i))"

text \<open>
  \<open>fake_get_owner\<close>: \<open>stat_result\<close> is what \<^verbatim>\<open>stat\<close> or \<^verbatim>\<open>lstat\<close> gives for the path, an error (negative)
  or the attributes.
\<close>

definition fake_get_owner ::
    "(string \<Rightarrow> string option) \<Rightarrow> (int \<Rightarrow> int) \<Rightarrow> fake_msg \<Rightarrow> fake_msg \<Rightarrow> string option \<Rightarrow> int + cstat \<Rightarrow>
     client \<Rightarrow> ipc \<Rightarrow> (int \<times> (32 word \<times> 32 word \<times> 32 word) option \<times> client \<times> ipc) option" where
  "fake_get_owner getenv msgget dbuf buf key stat_result c i =
     (case key of
        None \<Rightarrow> Some (0, None, c, i)
      | Some k \<Rightarrow>
          if k = [] then Some (0, None, c, i)
          else case stat_result of
            Inl e \<Rightarrow> Some (e, None, c, i)
          | Inr st \<Rightarrow>
              (let (_, c1) = get_ipc_key getenv (atoi k) c in
               map_option (\<lambda>(st', c2, i2). (0, Some (st_uid st', st_gid st', st_mode st'), c2, i2))
                 (send_get_stat getenv msgget dbuf buf st c1 i)))"

subsection \<open>Lemmas\<close>

lemma await_skip:
  "\<forall>r\<in>set rs. m_serial r \<noteq> serial \<or> m_pid r \<noteq> pid \<Longrightarrow> m_serial a = serial \<Longrightarrow> m_pid a = pid \<Longrightarrow>
   await serial pid (rs @ a # qs) = Some (a, qs)"
  by (induction rs) auto

text \<open>A connected client.\<close>

definition connected :: "client \<Rightarrow> bool" where
  "connected c \<longleftrightarrow> c_done c \<and> c_msg_snd c \<noteq> - 1"

lemma init_connected: "connected c \<Longrightarrow> init_get_msg getenv msgget c = (c_msg_snd c, c) \<and> c_msg_snd c \<noteq> - 1"
  by (simp add: init_get_msg_def connected_def)

lemma chown_msg: "m_id m = chown_func \<Longrightarrow> process_msg m s = Some (m, snd (process_chown m s))"
proof -
  have "fst (process_chown m s) = m" by (simp add: process_chown_def Let_def split: option.split)
  then show "m_id m = chown_func \<Longrightarrow> process_msg m s = Some (m, snd (process_chown m s))"
    by (cases "process_chown m s") (simp add: process_msg_def)
qed

lemma stat_msg: "m_id m = stat_func \<Longrightarrow> \<exists>b. process_msg m s = Some (b, s\<lparr>fd_sent := fd_sent s @ [b]\<rparr>) \<and>
    m_st b = reported s m \<and> m_serial b = m_serial m \<and> m_pid b = m_pid m"
  by (auto simp: process_msg_def reported_def process_stat_def Let_def split: option.split)

lemma chown_sent: "fd_sent (snd (process_chown m s)) = fd_sent s"
  by (simp add: process_chown_def Let_def split: option.split)

lemma get_msg_snoc:
  "get_msg buf (map Message ms @ [Message q]) s =
     Option.bind (get_msg buf (map Message ms) s) (\<lambda>(_, s'). process_msg (q\<lparr>m_remote := 0\<rparr>) s')"
proof (induction ms arbitrary: buf s)
  case Nil
  show ?case by (cases "process_msg (q\<lparr>m_remote := 0\<rparr>) s") auto
next
  case (Cons m ms)
  then show ?case by (cases "process_msg (m\<lparr>m_remote := 0\<rparr>) s") (simp_all split: prod.split)
qed

text \<open>The request a client sends for the attributes of a file, as the daemon sees it.\<close>

definition asked :: "fake_msg \<Rightarrow> cstat \<Rightarrow> client \<Rightarrow> fake_msg" where
  "asked buf st c = ((cpyfakemstat buf st)\<lparr>m_id := stat_func\<rparr>)\<lparr>m_serial := c_serial c + 1, m_pid := c_pid c, m_remote := 0\<rparr>"

lemma asked_simps [simp]:
  "m_id (asked buf st c) = stat_func" "m_remote (asked buf st c) = 0" "m_pid (asked buf st c) = c_pid c"
  "m_serial (asked buf st c) = c_serial c + 1" "m_st (asked buf st c) = m_st (cpyfakemstat buf st)"
  by (simp_all add: asked_def)

text \<open>No answer with the next serial number of the client is in the queue.\<close>

definition fresh_serial :: "client \<Rightarrow> fake_msg list \<Rightarrow> bool" where
  "fresh_serial c rs \<longleftrightarrow> (\<forall>r\<in>set rs. m_pid r = c_pid c \<longrightarrow> m_serial r \<noteq> c_serial c + 1)"

text \<open>The daemon works off the requests before that of the client, and the client gets its answer.\<close>

lemma stat_after:
  assumes "connected c" "fresh_serial c (replies i)"
    and "get_msg dbuf (map Message (requests i)) (daemon i) = Some (b, d)" "fd_sent d = []"
  shows "\<exists>r. send_get_stat getenv msgget dbuf buf st c i =
      Some (cpystatfakem st r, c\<lparr>c_serial := c_serial c + 1\<rparr>, i\<lparr>requests := [], replies := [], daemon := d\<rparr>) \<and>
    m_st r = reported d (asked buf st c)"
proof -
  let ?q = "asked buf st c"
  let ?m = "((cpyfakemstat buf st)\<lparr>m_id := stat_func\<rparr>)\<lparr>m_serial := c_serial c + 1, m_pid := c_pid c\<rparr>"
  have q: "?m\<lparr>m_remote := 0\<rparr> = ?q" by (simp add: asked_def)
  obtain r where r: "process_msg ?q d = Some (r, d\<lparr>fd_sent := [r]\<rparr>)" "m_st r = reported d ?q"
      "m_serial r = c_serial c + 1" "m_pid r = c_pid c"
    using stat_msg[of ?q d] assms(4) by auto
  have "get_msg dbuf (map Message (requests i) @ [Message ?m]) (daemon i) = Some (r, d\<lparr>fd_sent := [r]\<rparr>)"
    unfolding get_msg_snoc q assms(3) using r(1) by simp
  then have "daemon_run dbuf (send_fakem ?m i) = Some (i\<lparr>requests := [], replies := replies i @ [r], daemon := d\<rparr>)"
    using assms(4) by (simp add: daemon_run_def send_fakem_def)
  moreover have "await (c_serial c + 1) (c_pid c) (replies i @ [r]) = Some (r, [])"
    using assms(2) r(3,4) by (intro await_skip) (auto simp: fresh_serial_def)
  ultimately have "send_get_stat getenv msgget dbuf buf st c i =
      Some (cpystatfakem st r, c\<lparr>c_serial := c_serial c + 1\<rparr>, i\<lparr>requests := [], replies := [], daemon := d\<rparr>)"
    using init_connected[OF assms(1)] by (simp add: send_get_stat_def send_get_fakem_def Let_def)
  with r(2) show ?thesis by blast
qed

lemma reported_inode: "f_ino (reported d q) = f_ino (m_st q)" "f_dev (reported d q) = f_dev (m_st q)"
proof -
  have "f_ino (reported d q) = f_ino (m_st q) \<and> f_dev (reported d q) = f_dev (m_st q)"
  proof (cases "data_find (m_st q) (m_remote q) (fd_table d)")
    case (Some j)
    obtain h p where j: "j = (h, p)" by (cases j)
    from found_type[OF Some[unfolded j]] Some j show ?thesis
      by (simp add: reported_def process_stat_def Let_def cpyfakefake_def node_at_def)
  qed (simp add: reported_def process_stat_def Let_def)
  then show "f_ino (reported d q) = f_ino (m_st q)" "f_dev (reported d q) = f_dev (m_st q)" by simp_all
qed

lemma send64 [simp]: "send_stat64 = send_stat" "send_get_stat64 = send_get_stat"
proof -
  have "cpyfakemstat64 = cpyfakemstat" "cpystat64fakem = cpystatfakem"
    by (intro ext; simp add: cpyfakemstat64_def cpyfakemstat_def cpystat64fakem_def cpystatfakem_def)+
  note eq = this
  show "send_stat64 = send_stat" "send_get_stat64 = send_get_stat"
    by (intro ext; unfold send_stat64_def send_stat_def send_get_stat64_def send_get_stat_def eq; rule refl)+
qed

text \<open>
  Client and daemon together: after a client has told the daemon of a \<^verbatim>\<open>chown\<close>, a request for
  the attributes of the file gives it the new owner and group, whatever answers to dead
  clients are still in the queue; the inode is that of the file and the number of links, the
  size and the times are those of the system.
\<close>

theorem chown_seen_by_client:
  assumes "table_ok (fd_table (daemon i))" "\<not> fd_unknown_is_real (daemon i)" "fd_sent (daemon i) = []"
    and "requests i = []" "connected c"
    and "\<And>r. r \<in> set (replies i) \<Longrightarrow> m_pid r = c_pid c \<Longrightarrow> m_serial r \<noteq> c_serial c + 1"
    and "u \<noteq> - 1" "g \<noteq> - 1"
    and "send_stat getenv msgget buf (st\<lparr>st_uid := u, st_gid := g\<rparr>) chown_func c i = (c1, i1)"
  shows "\<exists>st' c2 i2. send_get_stat getenv msgget dbuf buf st c1 i1 = Some (st', c2, i2) \<and>
    st_uid st' = u \<and> st_gid st' = g \<and> st_ino st' = st_ino st \<and> st_dev st' = st_dev st \<and>
    st_nlink st' = st_nlink st \<and> st_size st' = st_size st \<and> st_mtime st' = st_mtime st"
proof -
  let ?m = "((cpyfakemstat buf (st\<lparr>st_uid := u, st_gid := g\<rparr>))\<lparr>m_id := chown_func\<rparr>)\<lparr>m_remote := 0\<rparr>"
  let ?d = "snd (process_chown ?m (daemon i))"
  have 1: "c1 = c" "i1 = i\<lparr>requests := [(cpyfakemstat buf (st\<lparr>st_uid := u, st_gid := g\<rparr>))\<lparr>m_id := chown_func\<rparr>]\<rparr>"
    using assms(4,9) init_connected[OF assms(5)] by (auto simp: send_stat_def send_fakem_def)
  have al: "alike (m_st (asked buf st c)) (m_st ?m)" "m_remote (asked buf st c) = m_remote ?m"
    by (simp_all add: alike_def cpyfakemstat_def)
  have fr: "fresh_serial c (replies i1)" using assms(6) by (auto simp: 1(2) fresh_serial_def)
  have run: "get_msg dbuf (map Message (requests i1)) (daemon i1) = Some (?m, ?d)"
    using chown_msg[of ?m "daemon i"] by (simp add: 1(2))
  have "fd_sent ?d = []" by (simp add: chown_sent assms(3))
  from stat_after[OF assms(5) fr run this]
  obtain r where r: "send_get_stat getenv msgget dbuf buf st c i1 =
      Some (cpystatfakem st r, c\<lparr>c_serial := c_serial c + 1\<rparr>, i1\<lparr>requests := [], replies := [], daemon := ?d\<rparr>)"
    "m_st r = reported ?d (asked buf st c)" by blast
  show ?thesis
    using r chown_report[OF assms(1,2) al] assms(7,8) reported_inode[of ?d "asked buf st c"]
    by (simp add: 1(1) cpystatfakem_def cpyfakemstat_def)
qed

definition ex_cstat :: cstat where
  "ex_cstat = \<lparr>st_dev = 1, st_ino = 7, st_mode = 0x81A4, st_nlink = 1, st_uid = 500, st_gid = 500, st_rdev = 0,
     st_size = 10, st_blksize = 4096, st_blocks = 8, st_atime = 0, st_mtime = 0, st_ctime = 0\<rparr>"

lemma chown_seen_by_client_witness:
  "\<exists>c1 i1 st' c2 i2. send_stat (\<lambda>_. None) (\<lambda>k. k) (ex_msg 0 ex_stat) (ex_cstat\<lparr>st_uid := 3, st_gid := 4\<rparr>) chown_func
       \<lparr>c_pid = 42, c_serial = 0, c_key = 9, c_msg_snd = 9, c_msg_get = 10, c_done = True\<rparr>
       \<lparr>requests = [], replies = [(ex_msg stat_func ex_stat)\<lparr>m_serial := 0\<rparr>], daemon = ex_daemon\<rparr> = (c1, i1) \<and>
     send_get_stat (\<lambda>_. None) (\<lambda>k. k) (ex_msg 0 ex_stat) (ex_msg 0 ex_stat) ex_cstat c1 i1 = Some (st', c2, i2) \<and>
     st_uid st' = 3 \<and> st_gid st' = 4"
proof -
  let ?c = "\<lparr>c_pid = 42, c_serial = 0, c_key = 9, c_msg_snd = 9, c_msg_get = 10, c_done = True\<rparr>"
  let ?i = "\<lparr>requests = [], replies = [(ex_msg stat_func ex_stat)\<lparr>m_serial := 0\<rparr>], daemon = ex_daemon\<rparr>"
  obtain c1 i1 where s: "send_stat (\<lambda>_. None) (\<lambda>k. k) (ex_msg 0 ex_stat) (ex_cstat\<lparr>st_uid := 3, st_gid := 4\<rparr>) chown_func ?c ?i = (c1, i1)"
    by (cases "send_stat (\<lambda>_. None) (\<lambda>k. k) (ex_msg 0 ex_stat) (ex_cstat\<lparr>st_uid := 3, st_gid := 4\<rparr>) chown_func ?c ?i")
  have "connected ?c" by (simp add: connected_def)
  from chown_seen_by_client[OF _ _ _ _ this _ _ _ s] s show ?thesis by simp blast
qed

subsection \<open>The connections of the TCP build\<close>

definition sd_list_add :: "int \<Rightarrow> int list \<Rightarrow> int list" where
  "sd_list_add sd sds = sds @ [sd]"

text \<open>The elements above index \<open>i\<close> are moved down one by one, then the size is decreased.\<close>

definition sd_list_remove :: "nat \<Rightarrow> int list \<Rightarrow> int list" where
  "sd_list_remove i sds =
     take (length sds - 1) (fold (\<lambda>j a. a[j - 1 := a ! j]) [i + 1..<length sds] sds)"

lemma shift_down:
  "i < length xs \<Longrightarrow> fold (\<lambda>j a. a[j - 1 := a ! j]) [Suc i..<length xs] xs = take i xs @ drop (Suc i) xs @ [last xs]"
proof (induction "length xs - i" arbitrary: i xs rule: less_induct)
  case less
  show ?case
  proof (cases "Suc i < length xs")
    case False
    with less(2) have l: "length xs = Suc i" by simp
    then have "xs \<noteq> []" by auto
    then have "last xs = xs ! i" using l by (simp add: last_conv_nth)
    moreover have "take i xs @ [xs ! i] = xs" using take_Suc_conv_app_nth[of i xs] l by simp
    ultimately show ?thesis using l by simp
  next
    case True
    let ?ys = "xs[i := xs ! Suc i]"
    have "fold (\<lambda>j a. a[j - 1 := a ! j]) [Suc i..<length xs] xs =
        fold (\<lambda>j a. a[j - 1 := a ! j]) [Suc (Suc i)..<length ?ys] ?ys"
      using True by (simp add: upt_conv_Cons del: upt_Suc)
    also have "\<dots> = take (Suc i) ?ys @ drop (Suc (Suc i)) ?ys @ [last ?ys]"
      by (rule less(1)) (use True in simp_all)
    also have "take (Suc i) ?ys = take i xs @ [xs ! Suc i]" using True by (simp add: take_Suc_conv_app_nth)
    also have "last ?ys = last xs"
      using True by (subst (1 2) last_conv_nth) auto
    also have "drop (Suc (Suc i)) ?ys = drop (Suc (Suc i)) xs" by simp
    finally show ?thesis using True by (simp add: Cons_nth_drop_Suc[symmetric])
  qed
qed

lemma sd_list_remove_correct:
  "i < length sds \<Longrightarrow> sd_list_remove i sds = take i sds @ drop (Suc i) sds"
  using shift_down[of i sds] by (simp add: sd_list_remove_def del: upt_Suc)

end
