(* ===== verification/FakedMain.thy ===== *)
theory FakedMain
  imports FakedDb FakedClient
begin

text \<open>
  The rest of the daemon (\<^verbatim>\<open>faked.c\<close>, System V build): its options, its start, the signals, what
  it does when it stops, and the search for the path of an inode that the build with
  \<^verbatim>\<open>FAKEROOT_DB_PATH\<close> uses.
\<close>

subsection \<open>Options\<close>

record options =
  o_key :: int
  o_foreground :: bool
  o_debug :: bool
  o_load :: bool
  o_save_file :: "string option"
  o_unknown_is_real :: bool
  o_justcleanup :: bool

definition no_options :: options where
  "no_options = \<lparr>o_key = 0, o_foreground = False, o_debug = False, o_load = False, o_save_file = None,
     o_unknown_is_real = False, o_justcleanup = False\<rparr>"

text \<open>
  The options are set, the program exits with a status, or it reads beyond the end of the
  arguments, which happens when \<^verbatim>\<open>--save-file\<close> is the last one.
\<close>

datatype parsed = Parsed options | Exits int | Beyond

fun parse_args :: "string list \<Rightarrow> options \<Rightarrow> parsed" where
  "parse_args [] p = Parsed p"
| "parse_args (a # as) p =
     (if a = ''--key'' then
        (case as of [] \<Rightarrow> Exits 1 | v # as' \<Rightarrow> parse_args as' (p\<lparr>o_key := atoi v\<rparr>))
      else if a = ''--cleanup'' then
        (case as of [] \<Rightarrow> Exits 1 | v # as' \<Rightarrow> parse_args as' (p\<lparr>o_key := atoi v, o_justcleanup := True\<rparr>))
      else if a = ''--port'' then parse_args as p
      else if a = ''--foreground'' then parse_args as (p\<lparr>o_foreground := True\<rparr>)
      else if a = ''--debug'' then parse_args as (p\<lparr>o_debug := True\<rparr>)
      else if a = ''--save-file'' then
        (case as of [] \<Rightarrow> Beyond | f # as' \<Rightarrow> parse_args as' (p\<lparr>o_save_file := Some f\<rparr>))
      else if a = ''--load'' then parse_args as (p\<lparr>o_load := True\<rparr>)
      else if a = ''--unknown-is-real'' then parse_args as (p\<lparr>o_unknown_is_real := True\<rparr>)
      else if a = ''--version'' then Exits 0
      else Exits 1)"

text \<open>
  The key of the queues: random numbers are drawn while it is 0; \<open>None\<close> when they are used up.
\<close>

fun choose_key :: "int list \<Rightarrow> int \<Rightarrow> int option" where
  "choose_key rs key =
     (if key = 0 \<and> key \<noteq> - 1 then (case rs of [] \<Rightarrow> None | r # rs' \<Rightarrow> choose_key rs' (int32 r))
      else Some key)"

subsection \<open>Start and stop\<close>

text \<open>
  What \<open>save\<close> needs to know of the system: the results of \<^verbatim>\<open>stat\<close> on the save file, and whether
  it can be opened and closed.
\<close>

record save_system =
  sv_stats :: "save_stat list"
  sv_fopen :: bool
  sv_fclose :: bool

text \<open>The text written to the save file; \<open>None\<close> while it waits for a reader.\<close>

definition save :: "save_system \<Rightarrow> options \<Rightarrow> faked \<Rightarrow> string option" where
  "save sys p s = map_option snd
     (save_database (o_save_file p \<noteq> None) (sv_stats sys) (sv_fopen sys) (sv_fclose sys) 0 (fd_table s))"

text \<open>
  The daemon runs with a key and a state, it has stopped with a status and what it saved, it
  waits for a reader of the save file, or its behaviour is undefined.
\<close>

datatype daemon = Running options int faked | Stopped int string | Waiting | Undefined

text \<open>\<open>cleanup\<close>, after which the process ends; \<open>status\<close> is that of \<^verbatim>\<open>exit\<close> or of \<^verbatim>\<open>return\<close>.\<close>

definition cleanup :: "save_system \<Rightarrow> options \<Rightarrow> int \<Rightarrow> faked \<Rightarrow> daemon" where
  "cleanup sys p status s = (case save sys p s of None \<Rightarrow> Waiting | Some out \<Rightarrow> Stopped status out)"

text \<open>
  \<open>main\<close> up to the loop.  \<open>ipc\<close> says whether the queues and the semaphore could be created, \<open>rs\<close>
  are random numbers.
\<close>

definition faked_start ::
    "(string \<Rightarrow> string option) \<Rightarrow> save_system \<Rightarrow> 64 word \<Rightarrow> int list \<Rightarrow> bool \<Rightarrow> string list \<Rightarrow> string \<Rightarrow> daemon" where
  "faked_start getenv sys junk rs ipc args stdin =
     (if getenv ''FAKEROOTKEY'' \<noteq> None then Stopped 1 []
      else case parse_args args no_options of
        Exits n \<Rightarrow> Stopped n []
      | Beyond \<Rightarrow> Undefined
      | Parsed p \<Rightarrow>
          (let (ok, t) = (if o_load p then load_database junk 0 stdin init_hash_table else (True, init_hash_table));
               s = \<lparr>fd_table = t, fd_unknown_is_real = o_unknown_is_real p, fd_sent = []\<rparr>
           in if \<not> ok then Stopped 1 []
              else case choose_key rs (o_key p) of
                None \<Rightarrow> Waiting
              | Some key \<Rightarrow>
                  if \<not> ipc then cleanup sys p 1 s
                  else if o_justcleanup p then cleanup sys p 0 s
                  else Running p key s))"

text \<open>The handlers that are installed, for the numbers of Linux.\<close>

datatype action = Default_action | Save_database | Print_table | Clean_up

definition signal_action :: "int \<Rightarrow> action" where
  "signal_action i =
     (if i = 9 \<or> i = 20 \<or> i = 18 then Default_action
      else if i = 10 then Save_database
      else if i = 12 then Print_table
      else Clean_up)"

text \<open>
  The life of the daemon: requests, signals whose handler runs while it waits, and a failure of
  \<^verbatim>\<open>msgrcv\<close>.  After a handler has returned, \<^verbatim>\<open>msgrcv\<close> is interrupted and the buffer is processed
  again, as in \<open>get_msg\<close>.
\<close>

datatype occurrence = Request fake_msg | Signal int | Queue_gone

fun faked_life :: "save_system \<Rightarrow> fake_msg \<Rightarrow> occurrence list \<Rightarrow> daemon \<Rightarrow> daemon" where
  "faked_life sys buf (Request m # es) (Running p key s) =
     (case process_msg (m\<lparr>m_remote := 0\<rparr>) s of
        None \<Rightarrow> Undefined
      | Some (buf', s') \<Rightarrow> faked_life sys buf' es (Running p key s'))"
| "faked_life sys buf (Signal i # es) (Running p key s) =
     (case signal_action i of
        Default_action \<Rightarrow> faked_life sys buf es (Running p key s)
      | Clean_up \<Rightarrow> cleanup sys p 0 s
      | Save_database \<Rightarrow>
          (if save sys p s = None then Waiting
           else case process_msg buf s of
             None \<Rightarrow> Undefined
           | Some (buf', s') \<Rightarrow> faked_life sys buf' es (Running p key s'))
      | Print_table \<Rightarrow>
          (case process_msg buf s of
             None \<Rightarrow> Undefined
           | Some (buf', s') \<Rightarrow> faked_life sys buf' es (Running p key s')))"
| "faked_life sys buf (Queue_gone # es) (Running p key s) =
     (case process_msg buf s of
        None \<Rightarrow> Undefined
      | Some (_, s') \<Rightarrow> cleanup sys p 1 s')"
| "faked_life sys buf es d = d"

subsection \<open>The path of an inode\<close>

definition DB_PATH_LEN :: nat where "DB_PATH_LEN = 4095"

record dirent =
  d_name :: string
  d_ino :: "64 word"
  d_is_dir :: bool

record dir_tree =
  opendir :: "string \<Rightarrow> dirent list option"
  lstat_dev :: "string \<Rightarrow> 64 word option"

text \<open>
  The buffer is the result; what it holds when nothing is found is not used.  The name of an entry
  is cut off at the end of the buffer.  The length of the path bounds the depth.
\<close>

function (sequential) scan_dir :: "dir_tree \<Rightarrow> 64 word \<Rightarrow> 64 word \<Rightarrow> string \<Rightarrow> string option"
  and scan_entries :: "dir_tree \<Rightarrow> 64 word \<Rightarrow> 64 word \<Rightarrow> string \<Rightarrow> dirent list \<Rightarrow> string option" where
  "scan_dir T dev ino path =
     (if length path + 1 \<ge> DB_PATH_LEN then None
      else case opendir T (path @ ''/'') of
        None \<Rightarrow> None
      | Some ents \<Rightarrow> scan_entries T dev ino (path @ ''/'') ents)"
| "scan_entries T dev ino pre [] = None"
| "scan_entries T dev ino pre (ent # ents) =
     (if d_name ent = ''.'' \<or> d_name ent = ''..'' then scan_entries T dev ino pre ents
      else
        (let path = pre @ take (DB_PATH_LEN - length pre) (d_name ent) in
         if d_ino ent = ino then
           (if lstat_dev T path = Some dev then Some path else scan_entries T dev ino pre ents)
         else if d_is_dir ent then
           (case scan_dir T dev ino path of
              Some p \<Rightarrow> Some p
            | None \<Rightarrow> scan_entries T dev ino pre ents)
         else scan_entries T dev ino pre ents))"
  by pat_completeness auto
termination
  by (relation "measures
      [\<lambda>x. case x of Inl (T, dev, ino, path) \<Rightarrow> 2 * (DB_PATH_LEN - length path)
                   | Inr (T, dev, ino, pre, ents) \<Rightarrow> 2 * (DB_PATH_LEN - length pre) + 1,
       \<lambda>x. case x of Inl _ \<Rightarrow> 0 | Inr (T, dev, ino, pre, ents) \<Rightarrow> length ents]")
    auto

declare scan_dir.simps [simp del]

text \<open>The roots are separated by colons.\<close>

function find_path :: "dir_tree \<Rightarrow> 64 word \<Rightarrow> 64 word \<Rightarrow> string \<Rightarrow> string option" where
  "find_path T dev ino roots =
     (let seg = takeWhile (\<lambda>c. c \<noteq> CHR '':'') roots;
          seg' = (if seg \<noteq> [] \<and> last seg = CHR ''/'' then butlast seg else seg);
          found = (if seg = [] then None else scan_dir T dev ino (take DB_PATH_LEN seg'))
      in case found of
           Some p \<Rightarrow> Some p
         | None \<Rightarrow>
             (case dropWhile (\<lambda>c. c \<noteq> CHR '':'') roots of
                [] \<Rightarrow> None
              | _ # rest \<Rightarrow> find_path T dev ino rest))"
  by pat_completeness auto
termination
proof (relation "measure (\<lambda>(T, dev, ino, roots). length roots)", goal_cases)
  case (2 T dev ino roots x xa xb x21 x22)
  then have "length (x21 # x22) \<le> length roots" using length_dropWhile_le[of "\<lambda>c. c \<noteq> CHR '':''" roots] by simp
  then show ?case by simp
qed simp

declare find_path.simps [simp del]

subsection \<open>Properties\<close>

text \<open>The entry of a directory that a path names.\<close>

definition names_inode :: "dir_tree \<Rightarrow> 64 word \<Rightarrow> 64 word \<Rightarrow> string \<Rightarrow> bool" where
  "names_inode T dev ino p \<longleftrightarrow> lstat_dev T p = Some dev \<and>
     (\<exists>pre ents ent. opendir T pre = Some ents \<and> ent \<in> set ents \<and> d_ino ent = ino \<and> d_name ent \<noteq> ''.'' \<and>
        d_name ent \<noteq> ''..'' \<and> p = pre @ take (DB_PATH_LEN - length pre) (d_name ent))"

lemma scan_names:
  "scan_dir T dev ino path = Some p \<Longrightarrow> names_inode T dev ino p"
  "scan_entries T dev ino pre ents = Some p \<Longrightarrow> opendir T pre = Some all \<Longrightarrow> set ents \<subseteq> set all \<Longrightarrow>
   names_inode T dev ino p"
proof (induction T dev ino path and T dev ino pre ents arbitrary: and all rule: scan_dir_scan_entries.induct)
  case (1 T dev ino path)
  from "1.prems" obtain ents where e: "\<not> DB_PATH_LEN \<le> length path + 1" "opendir T (path @ ''/'') = Some ents"
    "scan_entries T dev ino (path @ ''/'') ents = Some p"
    by (auto simp: scan_dir.simps[of T dev ino path] split: if_splits option.splits)
  from "1.IH"[OF e e(2)] show ?case by simp
next
  case (3 T dev ino pre ent ents)
  let ?p = "pre @ take (DB_PATH_LEN - length pre) (d_name ent)"
  show ?case
  proof (cases "d_name ent = ''.'' \<or> d_name ent = ''..''")
    case True
    then show ?thesis using "3.IH"(1)[OF True] "3.prems" by simp
  next
    case no: False
    show ?thesis
    proof (cases "d_ino ent = ino")
      case True
      show ?thesis
      proof (cases "lstat_dev T ?p = Some dev")
        case ok: True
        then have "p = ?p" using "3.prems"(1) no True by simp
        with ok True no "3.prems"(2,3) show ?thesis unfolding names_inode_def by auto
      next
        case False
        then show ?thesis using "3.IH"(2)[OF no refl True False] "3.prems" no True by simp
      qed
    next
      case other: False
      show ?thesis
      proof (cases "d_is_dir ent")
        case dir: True
        show ?thesis
        proof (cases "scan_dir T dev ino ?p")
          case None
          then show ?thesis using "3.IH"(4)[OF no refl other dir None] "3.prems" no other dir by simp
        next
          case (Some q)
          then show ?thesis using "3.IH"(3)[OF no refl other dir] "3.prems" no other dir by simp
        qed
      next
        case False
        then show ?thesis using "3.IH"(5)[OF no refl other False] "3.prems" no other by simp
      qed
    qed
  qed
qed simp_all

text \<open>
  The search for the path of an inode ends, and a path it finds is that of a directory entry
  with the inode number, on the device.
\<close>

theorem find_path_names:
  "find_path T dev ino roots = Some p \<Longrightarrow> names_inode T dev ino p"
proof (induction T dev ino roots rule: find_path.induct)
  case (1 T dev ino roots)
  let ?seg = "takeWhile (\<lambda>c. c \<noteq> CHR '':'') roots"
  let ?seg' = "if ?seg \<noteq> [] \<and> last ?seg = CHR ''/'' then butlast ?seg else ?seg"
  let ?found = "if ?seg = [] then None else scan_dir T dev ino (take DB_PATH_LEN ?seg')"
  show ?case
  proof (cases ?found)
    case (Some q)
    then have "scan_dir T dev ino (take DB_PATH_LEN ?seg') = Some p"
      using "1.prems" by (subst (asm) find_path.simps) (auto simp: Let_def split: if_splits)
    then show ?thesis by (rule scan_names(1))
  next
    case None
    then obtain c rest where r: "dropWhile (\<lambda>c. c \<noteq> CHR '':'') roots = c # rest" "find_path T dev ino rest = Some p"
      using "1.prems" by (subst (asm) find_path.simps) (auto simp: Let_def split: if_splits list.splits option.splits)
    show ?thesis by (rule "1.IH"[OF refl refl refl None r(1,2)])
  qed
qed

text \<open>
  C38.  A daemon that is told by a signal to stop saves what it knows, and one that is started with
  \<^verbatim>\<open>--load\<close> on the saved text knows every record again (except for the size, which is not
  saved), when there is one record per inode.
\<close>

theorem restart_knows:
  assumes "table_ok (fd_table s)" "signal_action i = Clean_up" "o_save_file p \<noteq> None"
    and "wait_reader (sv_stats sys) = Some True" "sv_fopen sys" "sv_fclose sys"
    and "sorted_wrt (\<lambda>a b. f_dev a = f_dev b \<longrightarrow> f_ino a \<noteq> f_ino b) (saved_records 0 (fd_table s))"
    and "getenv ''FAKEROOTKEY'' = None" "int32 r \<noteq> 0"
  shows "\<exists>out p' s'. faked_life sys buf (Signal i # es) (Running p key s) = Stopped 0 out \<and>
    faked_start getenv sys' junk (r # rs) True [''--load''] out = Running p' (int32 r) s' \<and>
    (\<forall>st\<in>set (saved_records 0 (fd_table s)). lookup (st\<lparr>f_size := junk\<rparr>, 0) (fd_table s') = Some (st\<lparr>f_size := junk\<rparr>))"
proof -
  obtain out t' where o: "save_database True (sv_stats sys) True True 0 (fd_table s) = Some (0, out)"
    "load_database junk 0 out init_hash_table = (True, t')"
    "\<forall>st\<in>set (saved_records 0 (fd_table s)). lookup (st\<lparr>f_size := junk\<rparr>, 0) t' = Some (st\<lparr>f_size := junk\<rparr>)"
    using save_load_roundtrip[OF assms(1,4,7), of junk] by blast
  have "faked_life sys buf (Signal i # es) (Running p key s) = Stopped 0 out"
    using o(1) assms(2,3,5,6) by (simp add: cleanup_def save_def)
  moreover have "faked_start getenv sys' junk (r # rs) True [''--load''] out =
      Running (no_options\<lparr>o_load := True\<rparr>) (int32 r) \<lparr>fd_table = t', fd_unknown_is_real = False, fd_sent = []\<rparr>"
    using o(2) assms(8,9) by (simp add: faked_start_def no_options_def)
  ultimately show ?thesis using o(3) by auto
qed

definition ex_dirs :: dir_tree where
  "ex_dirs = \<lparr>opendir = \<lambda>d.
       if d = ''/x/'' then Some [\<lparr>d_name = ''..'', d_ino = 7, d_is_dir = True\<rparr>, \<lparr>d_name = ''y'', d_ino = 3, d_is_dir = True\<rparr>]
       else if d = ''/x/y/'' then Some [\<lparr>d_name = ''f'', d_ino = 7, d_is_dir = False\<rparr>]
       else None,
     lstat_dev = \<lambda>p. if p = ''/x/y/f'' then Some 1 else None\<rparr>"

lemma find_path_names_witness:
  "find_path ex_dirs 1 7 ''/w::/x/'' = Some ''/x/y/f'' \<and> names_inode ex_dirs 1 7 ''/x/y/f''"
proof -
  have "find_path ex_dirs 1 7 ''/w::/x/'' = Some ''/x/y/f''" by code_simp
  with find_path_names[OF this] show ?thesis by simp
qed

lemma restart_knows_witness:
  "\<exists>out p' s'. faked_life \<lparr>sv_stats = [Fifo False, Not_fifo], sv_fopen = True, sv_fclose = True\<rparr> (ex_msg 0 ex_stat)
       [Signal 15] (Running (no_options\<lparr>o_save_file := Some ''db''\<rparr>) 5 ex_known) = Stopped 0 out \<and>
     faked_start Map.empty \<lparr>sv_stats = [], sv_fopen = True, sv_fclose = True\<rparr> 99 [12] True [''--load''] out =
       Running p' (int32 12) s' \<and>
     lookup (ex_stat\<lparr>f_size := 99\<rparr>, 0) (fd_table s') = Some (ex_stat\<lparr>f_size := 99\<rparr>)"
proof -
  have "fd_table ex_known = (\<lambda>h. if h = 8335 then [\<lparr>dn_buf = ex_stat, dn_remote = 0\<rparr>] else [])"
    by (rule ext) (rule ex_known_table)
  then have r: "saved_records 0 (fd_table ex_known) = [ex_stat]"
    by (simp add: saved_records_def single_chain HASH_TABLE_SIZE_def)
  have "int32 12 \<noteq> 0" by (simp add: int32_id)
  from restart_knows[OF ex_known_ok(1) _ _ _ _ _ _ _ this, of 15 "no_options\<lparr>o_save_file := Some ''db''\<rparr>"
      "\<lparr>sv_stats = [Fifo False, Not_fifo], sv_fopen = True, sv_fclose = True\<rparr>" Map.empty
      "ex_msg 0 ex_stat" "[]" 5 "\<lparr>sv_stats = [], sv_fopen = True, sv_fclose = True\<rparr>" 99 "[]"]
  show ?thesis unfolding r by (auto simp: signal_action_def)
qed

text \<open>An option that needs a value and is the last one: the arguments are read beyond their end.\<close>

lemma save_file_needs_name: "parse_args [''--save-file''] p = Beyond"
  by simp

end
