(* ===== verification/FakedNet.thy ===== *)
theory FakedNet
  imports FakedClient
begin

text \<open>
  The TCP transport of fakeroot: the client side of \<^verbatim>\<open>communicate.c\<close> (a message is written and read
  with as many calls as the system needs) and the loop of the daemon over its connections
  (\<^verbatim>\<open>get_msg\<close> of \<^verbatim>\<open>faked.c\<close>).  The mutex of the client, which serialises its threads, is not modelled.
\<close>

subsection \<open>Messages as bytes\<close>

text \<open>The packed structure in the memory of a little-endian machine.\<close>

type_synonym bytes = "8 word list"

definition le32 :: "32 word \<Rightarrow> bytes" where
  "le32 w = [ucast w, ucast (drop_bit 8 w), ucast (drop_bit 16 w), ucast (drop_bit 24 w)]"

definition le64 :: "64 word \<Rightarrow> bytes" where
  "le64 w = le32 (ucast w) @ le32 (ucast (drop_bit 32 w))"

fun of_le32 :: "bytes \<Rightarrow> 32 word" where
  "of_le32 (a # b # c # d # _) =
     ucast a OR push_bit 8 (ucast b) OR push_bit 16 (ucast c) OR push_bit 24 (ucast d)"
| "of_le32 _ = 0"

definition of_le64 :: "bytes \<Rightarrow> 64 word" where
  "of_le64 bs = ucast (of_le32 bs) OR push_bit 32 (ucast (of_le32 (drop 4 bs)))"

definition msg_bytes :: "net_msg \<Rightarrow> bytes" where
  "msg_bytes m =
     (let st = n_st m in
      le32 (n_id m) @ le32 (f_uid st) @ le32 (f_gid st) @ le64 (f_ino st) @ le64 (f_dev st) @
      le64 (f_rdev st) @ le32 (f_mode st) @ le32 (f_nlink st) @ le64 (f_size st) @ le32 (n_remote m))"

definition bytes_msg :: "bytes \<Rightarrow> net_msg" where
  "bytes_msg bs =
     \<lparr>n_id = of_le32 bs,
      n_st = \<lparr>f_uid = of_le32 (drop 4 bs), f_gid = of_le32 (drop 8 bs), f_ino = of_le64 (drop 12 bs),
        f_dev = of_le64 (drop 20 bs), f_rdev = of_le64 (drop 28 bs), f_mode = of_le32 (drop 36 bs),
        f_nlink = of_le32 (drop 40 bs), f_size = of_le64 (drop 44 bs)\<rparr>,
      n_remote = of_le32 (drop 52 bs)\<rparr>"

definition msg_size :: nat where "msg_size = 56"

lemma of_le32_le32 [simp]: "of_le32 (le32 w @ r) = w"
proof -
  have "ucast (ucast w :: 8 word) OR push_bit 8 (ucast (ucast (drop_bit 8 w) :: 8 word)) OR
      push_bit 16 (ucast (ucast (drop_bit 16 w) :: 8 word)) OR push_bit 24 (ucast (ucast (drop_bit 24 w) :: 8 word)) = w" (is "?lhs = w")
  proof (rule bit_word_eqI)
    fix n
    assume n: "n < LENGTH(32)"
    then consider "n < 8" | "8 \<le> n" "n < 16" | "16 \<le> n" "n < 24" | "24 \<le> n" "n < 32" by fastforce
    then show "bit ?lhs n = bit w n"
      by cases (auto simp: bit_simps)
  qed
  then show ?thesis by (simp add: le32_def)
qed

lemma of_le32_end [simp]: "of_le32 (le32 w) = w"
  using of_le32_le32[of w "[]"] by simp

lemma le_length [simp]: "length (le32 w) = 4" "length (le64 v) = 8"
  by (simp_all add: le32_def le64_def)

lemma of_le64_le64 [simp]: "of_le64 (le64 w @ r) = w"
proof -
  have "drop 4 (le64 w @ r) = le32 (ucast (drop_bit 32 w)) @ r" by (simp add: le64_def)
  moreover have "of_le32 (le64 w @ r) = ucast w" by (simp add: le64_def)
  moreover have "ucast (ucast w :: 32 word) OR push_bit 32 (ucast (ucast (drop_bit 32 w) :: 32 word)) = w"
    by (rule bit_word_eqI) (auto simp: bit_simps)
  ultimately show ?thesis by (simp add: of_le64_def)
qed

lemma bytes_msg_bytes [simp]: "bytes_msg (msg_bytes m) = m"
  by (simp add: bytes_msg_def msg_bytes_def Let_def)

lemma msg_bytes_length [simp]: "length (msg_bytes m) = msg_size"
  by (simp add: msg_bytes_def msg_size_def Let_def)

lemma msg_bytes_not_Nil [simp]: "msg_bytes m \<noteq> []"
  by (simp add: msg_bytes_def Let_def le32_def)

subsection \<open>Reading and writing\<close>

text \<open>
  How an operation ends: with a value, with the message of \<open>fail\<close>, which exits the program, or
  never, when the other side is silent.
\<close>

datatype 'a net = Net 'a | Dies string | Blocks

text \<open>What arrives at a socket, and a call of \<^verbatim>\<open>read\<close> for at most \<open>n\<close> bytes.\<close>

datatype arrival = Data bytes | Closed | Error int

fun sys_read :: "nat \<Rightarrow> arrival list \<Rightarrow> (arrival \<times> arrival list) option" where
  "sys_read n [] = None"
| "sys_read n (Data bs # es) =
     (if length bs \<le> n then Some (Data bs, es) else Some (Data (take n bs), Data (drop n bs) # es))"
| "sys_read n (Closed # es) = Some (Closed, Closed # es)"
| "sys_read n (Error e # es) = Some (Error e, es)"

definition EINTR :: int where "EINTR = 4"

text \<open>
  \<open>read_all\<close> returns the number of bytes of the message, 0 at the end of the stream or -1 (with
  the error); it dies when the stream ends within a message.
\<close>

function read_all :: "nat \<Rightarrow> nat \<Rightarrow> bytes \<Rightarrow> arrival list \<Rightarrow> (int \<times> int \<times> bytes \<times> arrival list) net" where
  "read_all count remaining buf es =
     (if remaining = 0 then Net (int count, 0, buf, es)
      else case sys_read remaining es of
        None \<Rightarrow> Blocks
      | Some (Data bs, es') \<Rightarrow>
          if bs = [] then (if remaining = count then Net (0, 0, buf, es') else Dies ''partial read'')
          else read_all count (remaining - length bs) (buf @ bs) es'
      | Some (Closed, es') \<Rightarrow> (if remaining = count then Net (0, 0, buf, es') else Dies ''partial read'')
      | Some (Error e, es') \<Rightarrow> (if remaining = count then Net (- 1, e, buf, es') else Dies ''partial read''))"
  by pat_completeness auto
termination
  by (relation "measure (\<lambda>(count, remaining, buf, es). remaining)") (auto simp: length_greater_0_conv[symmetric] simp del: length_greater_0_conv)

declare read_all.simps [simp del]

text \<open>The loop that repeats an interrupted read, one turn per event at most.\<close>

fun get_fakem_loop :: "nat \<Rightarrow> arrival list \<Rightarrow> (bytes \<times> arrival list) net" where
  "get_fakem_loop 0 es = Blocks"
| "get_fakem_loop (Suc k) es =
     (case read_all msg_size msg_size [] es of
        Dies m \<Rightarrow> Dies m
      | Blocks \<Rightarrow> Blocks
      | Net (len, e, buf, es') \<Rightarrow>
          if len > 0 then Net (buf, es')
          else if len = 0 then Dies ''read: socket is closed''
          else if e = EINTR then get_fakem_loop k es'
          else Dies ''read'')"

definition get_fakem_nr :: "arrival list \<Rightarrow> (net_msg \<times> arrival list) net" where
  "get_fakem_nr es =
     (case get_fakem_loop (Suc (length es)) es of
        Dies m \<Rightarrow> Dies m
      | Blocks \<Rightarrow> Blocks
      | Net (buf, es') \<Rightarrow> Net (get_fakem (bytes_msg buf), es'))"

text \<open>
  A call of \<^verbatim>\<open>write\<close> takes some of the bytes or fails; \<open>rcs\<close> are its results, \<open>out\<close> is what the
  other side receives.
\<close>

fun write_all :: "nat \<Rightarrow> int list \<Rightarrow> int \<Rightarrow> bytes \<Rightarrow> bytes \<Rightarrow> (int \<times> int list \<times> bytes) net" where
  "write_all count [] err bs out = (if bs = [] then Net (int count, [], out) else Blocks)"
| "write_all count (rc # rcs) err bs out =
     (if bs = [] then Net (int count, rc # rcs, out)
      else if rc \<le> 0 then (if length bs = count then Net (rc, rcs, out) else Dies ''partial write'')
      else write_all count rcs err (drop (nat rc) bs) (out @ take (nat rc) bs))"

fun send_fakem_loop :: "nat \<Rightarrow> int list \<Rightarrow> int \<Rightarrow> bytes \<Rightarrow> bytes \<Rightarrow> (int list \<times> bytes) net" where
  "send_fakem_loop 0 rcs err bs out = Blocks"
| "send_fakem_loop (Suc k) rcs err bs out =
     (case write_all (length bs) rcs err bs out of
        Dies m \<Rightarrow> Dies m
      | Blocks \<Rightarrow> Blocks
      | Net (len, rcs', out') \<Rightarrow>
          if len > 0 then Net (rcs', out')
          else if len = 0 then Dies ''write: socket is closed''
          else if err = EINTR then send_fakem_loop k rcs' err bs out'
          else Dies ''write'')"

definition send_message :: "64 word \<Rightarrow> int list \<Rightarrow> int \<Rightarrow> net_msg \<Rightarrow> bytes \<Rightarrow> (int list \<times> bytes) net" where
  "send_message junk rcs err m out =
     send_fakem_loop (Suc (length rcs)) rcs err (msg_bytes (send_fakem_nr junk m)) out"

subsection \<open>The connection of the client\<close>

text \<open>The address is read from the environment once.  \<open>port\<close> is the static \<^verbatim>\<open>addr.sin_port\<close>.\<close>

definition get_addr :: "(string \<Rightarrow> string option) \<Rightarrow> 16 word \<Rightarrow> 16 word net" where
  "get_addr getenv port =
     (if port = 0 then
        (case env_var_set getenv ''FAKEROOTKEY'' of
           None \<Rightarrow> Dies ''FAKEROOTKEY not defined in environment''
         | Some str \<Rightarrow>
             (let p = atoi str in
              if p \<le> 0 \<or> p \<ge> 65536 then Dies ''invalid port number in FAKEROOTKEY'' else Net (word_of_int p)))
      else Net port)"

text \<open>\<open>sock\<close>, \<open>fcntl\<close> and \<open>connect\<close> are the results of the system calls.\<close>

definition open_comm_sd ::
    "(string \<Rightarrow> string option) \<Rightarrow> int \<Rightarrow> int \<Rightarrow> (16 word \<Rightarrow> int) \<Rightarrow> int \<times> 16 word \<Rightarrow> (int \<times> 16 word) net" where
  "open_comm_sd getenv sock fcntl connect s =
     (let (comm_sd, port) = s in
      if comm_sd \<ge> 0 then Net s
      else if sock < 0 then Dies ''socket''
      else if fcntl < 0 then Dies ''fcntl(F_SETFD, FD_CLOEXEC)''
      else case get_addr getenv port of
        Dies m \<Rightarrow> Dies m
      | Blocks \<Rightarrow> Blocks
      | Net port' \<Rightarrow> if connect port' < 0 then Dies ''connect'' else Net (sock, port'))"

text \<open>\<open>send_get_fakem\<close>: the request is written, then the answer is read.\<close>

definition send_get_message ::
    "64 word \<Rightarrow> int list \<Rightarrow> int \<Rightarrow> net_msg \<Rightarrow> arrival list \<Rightarrow> (net_msg \<times> bytes \<times> arrival list) net" where
  "send_get_message junk rcs err m es =
     (case send_message junk rcs err m [] of
        Dies x \<Rightarrow> Dies x
      | Blocks \<Rightarrow> Blocks
      | Net (_, out) \<Rightarrow>
          (case get_fakem_nr es of
             Dies x \<Rightarrow> Dies x
           | Blocks \<Rightarrow> Blocks
           | Net (r, es') \<Rightarrow> Net (r, out, es')))"

subsection \<open>The semaphore of the System V build\<close>

text \<open>The results of \<^verbatim>\<open>semop\<close>: \<open>None\<close> is success, \<open>Some e\<close> an error.\<close>

fun semop_loop :: "string \<Rightarrow> int option list \<Rightarrow> unit net" where
  "semop_loop msg [] = Blocks"
| "semop_loop msg (None # es) = Net ()"
| "semop_loop msg (Some e # es) = (if e \<noteq> EINTR then Dies msg else semop_loop msg es)"

text \<open>The state is the identifier of the semaphore set and the client.\<close>

definition semaphore_up ::
    "(string \<Rightarrow> string option) \<Rightarrow> (int \<Rightarrow> int) \<Rightarrow> (int \<Rightarrow> int) \<Rightarrow> int option list \<Rightarrow> int \<times> client \<Rightarrow> (int \<times> client) net" where
  "semaphore_up getenv msgget semget es s =
     (let (sem_id, c) = s;
          (sem_id1, c1) = (if sem_id = - 1 then (let (k, c') = get_ipc_key getenv 0 c in (semget (k + 2), c'))
                           else (sem_id, c));
          (_, c2) = init_get_msg getenv msgget c1
      in case semop_loop ''semop(1): encountered an error'' es of
           Net _ \<Rightarrow> Net (sem_id1, c2) | Dies m \<Rightarrow> Dies m | Blocks \<Rightarrow> Blocks)"

definition semaphore_down ::
    "(string \<Rightarrow> string option) \<Rightarrow> (int \<Rightarrow> int) \<Rightarrow> int option list \<Rightarrow> int \<times> client \<Rightarrow> (int \<times> client) net" where
  "semaphore_down getenv semget es s =
     (let (sem_id, c) = s;
          (sem_id1, c1) = (if sem_id = - 1 then (let (k, c') = get_ipc_key getenv 0 c in (semget (k + 2), c'))
                           else (sem_id, c))
      in case semop_loop ''semop(2): encountered an error'' es of
           Net _ \<Rightarrow> Net (sem_id1, c1) | Dies m \<Rightarrow> Dies m | Blocks \<Rightarrow> Blocks)"

subsection \<open>The connections of the daemon\<close>

text \<open>
  The descriptors of the clients, the state of the handlers, and the answers with the connection
  they were written to (\<^verbatim>\<open>comm_sd\<close> is the one that is served).
\<close>

record net_daemon =
  nd_sds :: "int list"
  nd_state :: faked
  nd_sent :: "(int \<times> fake_msg) list"
  nd_detached :: bool

text \<open>The message has no process and no serial number in this build.\<close>

definition to_fake :: "net_msg \<Rightarrow> fake_msg" where
  "to_fake m = \<lparr>m_id = n_id m, m_pid = 0, m_serial = 0, m_st = n_st m, m_remote = n_remote m\<rparr>"

definition serve_msg :: "int \<Rightarrow> net_msg \<Rightarrow> net_daemon \<Rightarrow> net_daemon option" where
  "serve_msg sd m s =
     map_option (\<lambda>(_, d). s\<lparr>nd_state := d\<lparr>fd_sent := []\<rparr>, nd_sent := nd_sent s @ map (Pair sd) (fd_sent d)\<rparr>)
       (process_msg (to_fake m) ((nd_state s)\<lparr>fd_sent := []\<rparr>))"

text \<open>What a descriptor has in a turn of the loop: nothing, a message, or the end of the stream.\<close>

datatype input = Quiet | Msg net_msg | Hangup

lemma sd_list_remove_length [simp]: "length (sd_list_remove i sds) = length sds - 1"
proof -
  have "length (fold (\<lambda>j a. a[j - 1 := a ! j]) js xs) = length xs" for js and xs :: "int list"
    by (induction js arbitrary: xs) simp_all
  then show ?thesis by (simp add: sd_list_remove_def)
qed

lemma serve_msg_sds: "serve_msg sd m s = Some s' \<Longrightarrow> nd_sds s' = nd_sds s \<and> nd_detached s' = nd_detached s"
  by (auto simp: serve_msg_def)

function serve :: "(int \<Rightarrow> input) \<Rightarrow> nat \<Rightarrow> net_daemon \<Rightarrow> net_daemon option" where
  "serve inp i s =
     (if i < length (nd_sds s) then
        (let sd = nd_sds s ! i in
         case inp sd of
           Quiet \<Rightarrow> serve inp (Suc i) s
         | Hangup \<Rightarrow> serve inp i (s\<lparr>nd_sds := sd_list_remove i (nd_sds s)\<rparr>)
         | Msg m \<Rightarrow>
             (case serve_msg sd m s of
                None \<Rightarrow> None
              | Some s' \<Rightarrow> serve inp (Suc i) s'))
      else Some s)"
  by pat_completeness auto
termination
  by (relation "measure (\<lambda>(inp, i, s). length (nd_sds s) - i)") (auto dest: serve_msg_sds)

declare serve.simps [simp del]

text \<open>A new connection: its first message is read at once.\<close>

definition accept_conn :: "(int \<times> net_msg option) option \<Rightarrow> net_daemon \<Rightarrow> net_daemon option" where
  "accept_conn conn s =
     (case conn of
        None \<Rightarrow> Some s
      | Some (sd, None) \<Rightarrow> Some s
      | Some (sd, Some m) \<Rightarrow>
          map_option (\<lambda>s'. s'\<lparr>nd_sds := sd_list_add sd (nd_sds s')\<rparr>) (serve_msg sd m s))"

text \<open>
  The events of the loop: \<^verbatim>\<open>select\<close> is interrupted, the signal handler asks the daemon to detach, or
  descriptors are ready.  \<open>Inl\<close> is the state when the daemon exits.
\<close>

datatype turn = Select_interrupted | Detach | Ready "int \<Rightarrow> input" "(int \<times> net_msg option) option"

fun net_get_msg :: "turn list \<Rightarrow> net_daemon \<Rightarrow> (net_daemon + net_daemon) option" where
  "net_get_msg ts s =
     (if nd_detached s \<and> nd_sds s = [] then Some (Inl s)
      else case ts of
        [] \<Rightarrow> Some (Inr s)
      | Select_interrupted # ts' \<Rightarrow> net_get_msg ts' s
      | Detach # ts' \<Rightarrow> net_get_msg ts' (s\<lparr>nd_detached := True\<rparr>)
      | Ready inp conn # ts' \<Rightarrow>
          Option.bind (serve inp 0 s) (\<lambda>s1. Option.bind (accept_conn conn s1) (net_get_msg ts')))"

subsection \<open>Fragments\<close>

text \<open>The bytes that arrive before an error or the end of the stream.\<close>

fun stream :: "arrival list \<Rightarrow> bytes" where
  "stream (Data bs # es) = bs @ stream es"
| "stream _ = []"

definition no_empty :: "arrival list \<Rightarrow> bool" where
  "no_empty es \<longleftrightarrow> Data [] \<notin> set es"

lemma read_all_stream:
  "no_empty es \<Longrightarrow> remaining \<le> length (stream es) \<Longrightarrow>
   \<exists>es'. read_all count remaining buf es = Net (int count, 0, buf @ take remaining (stream es), es') \<and>
     stream es' = drop remaining (stream es) \<and> no_empty es'"
proof (induction es arbitrary: remaining buf)
  case Nil
  then show ?case by (simp add: read_all.simps)
next
  case (Cons e es)
  show ?case
  proof (cases "remaining = 0")
    case True
    with Cons.prems(1) show ?thesis by (simp add: read_all.simps)
  next
    case False
    then obtain bs where e: "e = Data bs" using Cons.prems(2) by (cases e) simp_all
    have bs: "bs \<noteq> []" "no_empty es" using Cons.prems(1) e by (auto simp: no_empty_def)
    show ?thesis
    proof (cases "length bs \<le> remaining")
      case True
      then have "remaining - length bs \<le> length (stream es)" using Cons.prems(2) e by simp
      from Cons.IH[OF bs(2) this, of "buf @ bs"] show ?thesis
        using True False bs(1) e by (subst read_all.simps) auto
    next
      case short: False
      then have "take remaining bs \<noteq> []" "drop remaining bs \<noteq> []" using False bs(1) by auto
      then show ?thesis using short False e bs
        by (subst read_all.simps) (simp add: read_all.simps[of _ 0] no_empty_def)
    qed
  qed
qed

lemma get_fakem_stream:
  assumes "no_empty es" "stream es = msg_bytes m @ rest" "j < k"
  shows "\<exists>es'. get_fakem_loop k (replicate j (Error EINTR) @ es) = Net (msg_bytes m, es') \<and> stream es' = rest \<and> no_empty es'"
  using assms(3)
proof (induction j arbitrary: k)
  case 0
  then obtain i where k: "k = Suc i" by (cases k) auto
  have "0 < msg_size" by (simp add: msg_size_def)
  with read_all_stream[OF assms(1), of msg_size msg_size "[]"] assms(2) show ?case by (auto simp: k)
next
  case (Suc j)
  then obtain i where k: "k = Suc i" "j < i" by (cases k) auto
  have "read_all msg_size msg_size [] (Error EINTR # es') = Net (- 1, EINTR, [], es')" for es'
    by (subst read_all.simps) (simp add: msg_size_def)
  with Suc.IH[OF k(2)] show ?case by (simp add: k)
qed

lemma write_all_stream:
  "\<forall>rc\<in>set rcs. 0 < rc \<Longrightarrow> int (length bs) \<le> sum_list rcs \<Longrightarrow>
   \<exists>rcs'. write_all count rcs err bs out = Net (int count, rcs', out @ bs)"
proof (induction rcs arbitrary: bs out)
  case (Cons rc rcs)
  show ?case
  proof (cases "bs = []")
    case False
    have "int (length (drop (nat rc) bs)) \<le> sum_list rcs \<or> length bs \<le> nat rc" using Cons.prems by auto
    moreover have "0 \<le> sum_list rcs" using Cons.prems(1) by (intro sum_list_nonneg) auto
    ultimately have "int (length (drop (nat rc) bs)) \<le> sum_list rcs" by auto
    from Cons.IH[OF _ this, of "out @ take (nat rc) bs"] Cons.prems(1) False show ?thesis by auto
  qed simp
qed simp



subsection \<open>A turn of the daemon\<close>

text \<open>
  What a turn is for: the messages of the connections that have one are handled in the order
  of the list, and the connections that were closed are taken out of it.
\<close>

fun visit :: "(int \<Rightarrow> input) \<Rightarrow> int list \<Rightarrow> net_daemon \<Rightarrow> net_daemon option" where
  "visit inp [] s = Some s"
| "visit inp (sd # sds) s =
     (case inp sd of
        Msg m \<Rightarrow> Option.bind (serve_msg sd m s) (visit inp sds)
      | _ \<Rightarrow> visit inp sds s)"

lemma serve_msg_update: "serve_msg sd m (s\<lparr>nd_sds := sds\<rparr>) = map_option (\<lambda>s'. s'\<lparr>nd_sds := sds\<rparr>) (serve_msg sd m s)"
  by (cases s) (simp add: serve_msg_def option.map_comp comp_def case_prod_unfold)

lemma visit_update: "visit inp l (s\<lparr>nd_sds := sds\<rparr>) = map_option (\<lambda>s'. s'\<lparr>nd_sds := sds\<rparr>) (visit inp l s)"
proof (induction l arbitrary: s)
  case (Cons sd l)
  show ?case
  proof (cases "inp sd")
    case (Msg m)
    then show ?thesis using Cons by (cases "serve_msg sd m s") (simp_all add: serve_msg_update)
  qed (simp_all add: Cons)
qed simp

lemma serve_visit:
  "i \<le> length (nd_sds s) \<Longrightarrow> serve inp i s =
   map_option (\<lambda>s'. s'\<lparr>nd_sds := take i (nd_sds s) @ filter (\<lambda>sd. inp sd \<noteq> Hangup) (drop i (nd_sds s))\<rparr>)
     (visit inp (drop i (nd_sds s)) s)"
proof (induction "length (nd_sds s) - i" arbitrary: i s)
  case 0
  then show ?case by (simp add: serve.simps[of inp i s])
next
  case (Suc k)
  then have i: "i < length (nd_sds s)" by simp
  let ?sd = "nd_sds s ! i"
  have d: "drop i (nd_sds s) = ?sd # drop (Suc i) (nd_sds s)" using i by (rule Cons_nth_drop_Suc[symmetric])
  have t: "take (Suc i) (nd_sds s) = take i (nd_sds s) @ [?sd]" using i by (rule take_Suc_conv_app_nth)
  show ?case
  proof (cases "inp ?sd")
    case Quiet
    have "k = length (nd_sds s) - Suc i" using Suc.hyps(2) by simp
    from Suc.hyps(1)[OF this] i Quiet show ?thesis by (simp add: serve.simps[of inp i s] d t)
  next
    case (Msg m)
    show ?thesis
    proof (cases "serve_msg ?sd m s")
      case None
      with i Msg show ?thesis by (simp add: serve.simps[of inp i s] d)
    next
      case (Some s1)
      have n: "nd_sds s1 = nd_sds s" using serve_msg_sds[OF Some] by simp
      then have "k = length (nd_sds s1) - Suc i" using Suc.hyps(2) by simp
      from Suc.hyps(1)[OF this] i Msg Some n show ?thesis by (simp add: serve.simps[of inp i s] d t)
    qed
  next
    case Hangup
    let ?sds = "take i (nd_sds s) @ drop (Suc i) (nd_sds s)"
    have r: "sd_list_remove i (nd_sds s) = ?sds" using i by (rule sd_list_remove_correct)
    have "k = length (nd_sds (s\<lparr>nd_sds := ?sds\<rparr>)) - i" using Suc.hyps(2) i by simp
    from Suc.hyps(1)[OF this] i Hangup show ?thesis
      by (simp add: serve.simps[of inp i s] d r visit_update option.map_comp comp_def)
  qed
qed

text \<open>
  In a turn of the loop the TCP daemon handles the message of every connection that has one,
  once and in the order of the list, although the list shrinks while it is walked, and the
  connections that were closed, no others, are taken out of it.
\<close>

theorem serve_turn:
  "serve inp 0 s =
   map_option (\<lambda>s'. s'\<lparr>nd_sds := filter (\<lambda>sd. inp sd \<noteq> Hangup) (nd_sds s)\<rparr>) (visit inp (nd_sds s) s)"
  using serve_visit[of 0 s inp] by simp

text \<open>The answers of a turn go to connections whose message asked for attributes.\<close>

lemma serve_msg_sent:
  assumes "serve_msg sd m s = Some s'" "(x, b) \<in> set (nd_sent s')" "(x, b) \<notin> set (nd_sent s)"
  shows "x = sd \<and> n_id m = stat_func"
proof -
  obtain b0 d where d: "process_msg (to_fake m) ((nd_state s)\<lparr>fd_sent := []\<rparr>) = Some (b0, d)"
    "(x, b) \<in> set (map (Pair sd) (fd_sent d))"
    using assms by (auto simp: serve_msg_def)
  have "fd_sent d = []" if "n_id m \<noteq> stat_func"
  proof -
    have "fd_sent (snd (process_chown (to_fake m) ((nd_state s)\<lparr>fd_sent := []\<rparr>))) = []" by (simp add: chown_sent)
    moreover have "fd_sent (snd (process_chmod (to_fake m) ((nd_state s)\<lparr>fd_sent := []\<rparr>))) = []"
      "fd_sent (snd (process_mknod (to_fake m) ((nd_state s)\<lparr>fd_sent := []\<rparr>))) = []"
      by (simp_all add: process_chmod_def process_mknod_def Let_def split: option.split)
    moreover have "process_unlink n a = Some (b0, d) \<Longrightarrow> fd_sent d = fd_sent a" for n a
      by (auto simp: process_unlink_def Let_def split: if_splits option.splits)
    ultimately show ?thesis
      using d(1) that by (auto simp: process_msg_def to_fake_def split: if_splits dest: arg_cong[where f = snd])
  qed
  with d(2) show ?thesis by (cases "n_id m = stat_func") auto
qed

lemma visit_sent:
  "visit inp sds s = Some s' \<Longrightarrow> (x, b) \<in> set (nd_sent s') \<Longrightarrow> (x, b) \<notin> set (nd_sent s) \<Longrightarrow>
   x \<in> set sds \<and> (\<exists>m. inp x = Msg m \<and> n_id m = stat_func)"
proof (induction sds arbitrary: s)
  case (Cons sd sds)
  show ?case
  proof (cases "inp sd")
    case (Msg m)
    then obtain s1 where s1: "serve_msg sd m s = Some s1" "visit inp sds s1 = Some s'"
      using Cons.prems(1) by (cases "serve_msg sd m s") auto
    show ?thesis
    proof (cases "(x, b) \<in> set (nd_sent s1)")
      case True
      from serve_msg_sent[OF s1(1) True Cons.prems(3)] Msg show ?thesis by auto
    next
      case False
      from Cons.IH[OF s1(2) Cons.prems(2) False] show ?thesis by auto
    qed
  qed (use Cons in auto)
qed simp

text \<open>
  An answer the TCP daemon sends goes to a client that asked for attributes in this turn,
  on its own connection.
\<close>

theorem answers_go_to_askers:
  assumes "serve inp 0 s = Some s'" "(sd, b) \<in> set (nd_sent s')" "(sd, b) \<notin> set (nd_sent s)"
  shows "sd \<in> set (nd_sds s) \<and> (\<exists>m. inp sd = Msg m \<and> n_id m = stat_func)"
proof -
  obtain s1 where "visit inp (nd_sds s) s = Some s1" "nd_sent s' = nd_sent s1"
    using assms(1) serve_visit[of 0 s inp] by auto
  with visit_sent[of inp "nd_sds s" s s1 sd b] assms(2,3) show ?thesis by simp
qed

definition ex_net :: net_daemon where
  "ex_net = \<lparr>nd_sds = [5, 6], nd_state = ex_daemon, nd_sent = [], nd_detached = False\<rparr>"

definition ex_input :: "int \<Rightarrow> input" where
  "ex_input sd = (if sd = 5 then Hangup else Msg \<lparr>n_id = stat_func, n_st = ex_stat, n_remote = 0\<rparr>)"

lemma answers_go_to_askers_witness:
  "\<exists>s' b. serve ex_input 0 ex_net = Some s' \<and> nd_sent s' = [(6, b)] \<and> ex_input 6 \<noteq> Hangup"
proof -
  let ?q = "to_fake \<lparr>n_id = stat_func, n_st = ex_stat, n_remote = 0\<rparr>"
  obtain b where b: "process_msg ?q (ex_daemon\<lparr>fd_sent := []\<rparr>) = Some (b, ex_daemon\<lparr>fd_sent := [b]\<rparr>)"
    using stat_msg[of ?q "ex_daemon\<lparr>fd_sent := []\<rparr>"] by (auto simp: to_fake_def)
  then have "\<exists>s'. serve ex_input 0 ex_net = Some s' \<and> nd_sent s' = [(6, b)]"
    using serve_visit[of 0 ex_net ex_input] by (simp add: ex_net_def ex_input_def serve_msg_def)
  then obtain s' where s': "serve ex_input 0 ex_net = Some s'" "nd_sent s' = [(6, b)]" by blast
  have "\<exists>m. ex_input 6 = Msg m \<and> n_id m = stat_func"
    using answers_go_to_askers[OF s'(1), of 6 b] s'(2) by (simp add: ex_net_def)
  then show ?thesis using s' by auto
qed

end
