(* ===== verification/FakeFilter.thy ===== *)
theory FakeFilter
  imports FakedDb
begin

text \<open>
  The filter of the build (\<^verbatim>\<open>fakeroot-filter.c\<close>): it copies from a state saved by the fakeroot
  daemon the lines of those files that a list names.  Files are strings; \<^verbatim>\<open>lstat\<close> and \<^verbatim>\<open>pathconf\<close>
  are parameters, the first as a function from paths to inode numbers or an error.
\<close>

text \<open>\<^verbatim>\<open>fgets\<close> with a buffer of \<open>n\<close> bytes: the line and the rest of the input.\<close>

fun take_line :: "nat \<Rightarrow> string \<Rightarrow> string \<times> string" where
  "take_line 0 s = ([], s)"
| "take_line (Suc k) [] = ([], [])"
| "take_line (Suc k) (c # s) =
     (if c = newline then ([c], s) else (let (a, b) = take_line k s in (c # a, b)))"

definition fgets_text :: "int \<Rightarrow> string \<Rightarrow> (string \<times> string) option" where
  "fgets_text n s =
     (if n \<le> 0 then None
      else if n = 1 then Some ([], s)
      else if s = [] then None
      else Some (take_line (nat (n - 1)) s))"

text \<open>
  How a step ends: it goes on, the program prints something and exits with failure, it writes
  beyond a buffer, or the fuel is used up.
\<close>

datatype 'a filtered = Goes_on 'a | Exit_failure string | Overrun | No_fuel

definition ENOENT :: int where "ENOENT = 2"

text \<open>
  The list: the last character of each line is cut off, and the inode of the file goes into the
  tree.  \<open>n\<close> is the room in the buffer behind the directory.
\<close>

fun read_list :: "nat \<Rightarrow> (string \<Rightarrow> int + 64 word) \<Rightarrow> string \<Rightarrow> int \<Rightarrow> string \<Rightarrow> 64 word list \<Rightarrow> 64 word list filtered" where
  "read_list 0 lstat basedir n s troot = No_fuel"
| "read_list (Suc k) lstat basedir n s troot =
     (case fgets_text n s of
        None \<Rightarrow> Goes_on troot
      | Some (line, s') \<Rightarrow>
          (case lstat (butlast (basedir @ ''/'' @ cstr line)) of
             Inl e \<Rightarrow> if e = ENOENT then read_list k lstat basedir n s' troot else Exit_failure []
           | Inr ino \<Rightarrow>
               if ino \<in> set troot then Exit_failure []
               else read_list k lstat basedir n s' (ino # troot)))"

text \<open>\<^verbatim>\<open>sscanf\<close> with \<^verbatim>\<open>dev=%lx,ino=%ld\<close>: the inode, when both numbers are there.\<close>

definition scan_ld :: "string \<Rightarrow> int option" where
  "scan_ld s =
     (let (neg, s1) = strtol_sign s; ds = takeWhile (\<lambda>c. digit_val c < 10) s1; v = int (digits_val 10 0 ds)
      in if ds = [] then None else Some (max long_min (min long_max (if neg then - v else v))))"

definition sscanf_entry :: "string \<Rightarrow> int option" where
  "sscanf_entry s =
     (if take 4 s = ''dev='' then
        (case scan_num 16 (skip_lit ''dev='' s) of
           None \<Rightarrow> None
         | Some (_, s2) \<Rightarrow> if take 5 s2 = '',ino='' then scan_ld (skip_lit '',ino='' s2) else None)
      else None)"

lemma take_line_rest: "length (snd (take_line k s)) \<le> length s" "0 < k \<Longrightarrow> s \<noteq> [] \<Longrightarrow> length (snd (take_line k s)) < length s"
proof -
  show 1: "length (snd (take_line k s)) \<le> length s" for k s
    by (induction k s rule: take_line.induct) (auto split: prod.splits)
  assume "0 < k" "s \<noteq> []"
  then show "length (snd (take_line k s)) < length s"
    using 1[of "k - 1" "tl s"] by (cases k; cases s) (auto split: prod.splits)
qed

lemma fgets_rest: "fgets_text n s = Some (line, s') \<Longrightarrow> 1 < n \<Longrightarrow> length s' < length s"
  using take_line_rest(2)[of "nat (n - 1)" s] by (auto simp: fgets_text_def split: if_splits)

text \<open>The state: a line is printed when the inode is in the tree.\<close>

function copy_state :: "64 word list \<Rightarrow> string \<Rightarrow> string \<Rightarrow> string filtered" where
  "copy_state troot s out =
     (case fgets_text 256 s of
        None \<Rightarrow> Goes_on out
      | Some (line, s') \<Rightarrow>
          (case sscanf_entry (cstr line) of
             None \<Rightarrow> Exit_failure out
           | Some ino \<Rightarrow> copy_state troot s' (if word_of_int ino \<in> set troot then out @ cstr line else out)))"
  by pat_completeness auto
termination
  by (relation "measure (\<lambda>(troot, s, out). length s)") (auto dest: fgets_rest)

declare copy_state.simps [simp del]

text \<open>
  The whole program.  The arguments are those after the name of the program; \<open>fopen\<close> gives the
  contents of a file.
\<close>

definition filter_main ::
    "nat \<Rightarrow> (string \<Rightarrow> string option) \<Rightarrow> (string \<Rightarrow> int) \<Rightarrow> (string \<Rightarrow> int + 64 word) \<Rightarrow> string list \<Rightarrow> string filtered" where
  "filter_main fuel fopen pathconf lstat args =
     (case args of
        [basedir, list, state] \<Rightarrow>
          (case fopen list of
             None \<Rightarrow> Exit_failure []
           | Some names \<Rightarrow>
               (let len = (if pathconf basedir = - 1 then 256 else pathconf basedir);
                    used = int (length basedir) + 1
                in if used > len then Overrun
                   else case read_list fuel lstat basedir (len - used) names [] of
                     Goes_on troot \<Rightarrow>
                       (case fopen state of
                          None \<Rightarrow> Exit_failure []
                        | Some lines \<Rightarrow> copy_state troot lines [])
                   | Exit_failure out \<Rightarrow> Exit_failure out
                   | Overrun \<Rightarrow> Overrun
                   | No_fuel \<Rightarrow> No_fuel))
      | _ \<Rightarrow> Exit_failure [])"

subsection \<open>Lines\<close>

lemma take_line_newline: "newline \<notin> set a \<Longrightarrow> length a < k \<Longrightarrow> take_line k (a @ newline # r) = (a @ [newline], r)"
proof (induction a arbitrary: k)
  case Nil
  then show ?case by (cases k) simp_all
next
  case (Cons c a)
  then show ?case by (cases k) auto
qed

lemma fgets_name: "newline \<notin> set a \<Longrightarrow> int (length a) + 1 < n \<Longrightarrow> fgets_text n (a @ newline # r) = Some (a @ [newline], r)"
  using take_line_newline[of a "nat (n - 1)" r] by (simp add: fgets_text_def)

lemma fgets_end: "1 < n \<Longrightarrow> fgets_text n [] = None"
  by (simp add: fgets_text_def)

lemma cstr_line: "nul \<notin> set a \<Longrightarrow> cstr (a @ [newline]) = a @ [newline]"
  by (auto simp: cstr_def nul_def newline_def takeWhile_eq_all_conv)

lemma digits_no_char:
  assumes "2 \<le> b" "b \<le> 16" "c \<in> set (digits b n)"
  shows "c \<noteq> newline" "c \<noteq> nul"
proof -
  obtain v where v: "c = digit_char v" "v < 16" using digits_set[OF assms] assms(2) by auto
  have "code c \<noteq> 10 \<and> code c \<noteq> 0" using code_digit_char[OF v(2)] v by auto
  then show "c \<noteq> newline" "c \<noteq> nul" by (auto simp: code_def newline_def nul_def)
qed

text \<open>A line of the state without its newline.\<close>

definition entry_text :: "fakestat \<Rightarrow> string" where
  "entry_text st = butlast (save_line st)"

lemma save_line_text: "save_line st = entry_text st @ [newline]"
proof -
  have "save_line st \<noteq> []" "last (save_line st) = newline" by (simp_all add: save_line_def)
  then show ?thesis using append_butlast_last_id[of "save_line st"] by (simp add: entry_text_def)
qed

lemma entry_text_chars: "newline \<notin> set (entry_text st)" "nul \<notin> set (entry_text st)"
  by (auto simp: entry_text_def save_line_def butlast_append newline_def nul_def
      dest: digits_no_char[rotated 2, unfolded newline_def nul_def])

lemma entry_text_length: "length (entry_text st) < 200"
proof -
  have w: "unat (x :: 64 word) < 16 ^ 16" "unat x < 10 ^ 20" "unat (y :: 32 word) < 8 ^ 11" "unat y < 10 ^ 10" for x y
    using unsigned_less[of x, where ?'a = nat] unsigned_less[of y, where ?'a = nat] by simp_all
  have "length (digits 16 (unat (x :: 64 word))) \<le> 16" "length (digits 10 (unat x)) \<le> 20"
    "length (digits 8 (unat (y :: 32 word))) \<le> 11" "length (digits 10 (unat y)) \<le> 10" for x y
    by (rule digits_length; (rule w)?; simp)+
  note b = this(1)[of "f_dev st"] this(2)[of "f_ino st"] this(2)[of "f_rdev st"] this(3)[of "f_mode st"]
    this(4)[of "f_uid st"] this(4)[of "f_gid st"] this(4)[of "f_nlink st"]
  then show ?thesis by (simp add: entry_text_def save_line_def butlast_append)
qed

lemma scan_ld_digits:
  "n < 2 ^ 63 \<Longrightarrow> c = CHR '','' \<or> c = newline \<Longrightarrow> scan_ld (digits 10 n @ c # r) = Some (int n)"
proof -
  assume n: "n < 2 ^ 63" and c: "c = CHR '','' \<or> c = newline"
  have "\<not> digit_val c < 10" using c by (auto simp: digit_val_def isdigit_def code_def newline_def)
  with n show ?thesis
    by (simp add: scan_ld_def digits_start digits_span digits_val_digits Let_def long_max_def long_min_def)
qed

lemma sscanf_saved:
  assumes "unat (f_ino st) < 2 ^ 63"
  shows "sscanf_entry (save_line st) = Some (int (unat (f_ino st)))"
proof -
  obtain r where line: "save_line st = ''dev='' @ digits 16 (unat (f_dev st)) @ '',ino='' @ digits 10 (unat (f_ino st)) @ CHR '','' # r"
    by (simp add: save_line_def)
  let ?r = "digits 10 (unat (f_ino st)) @ CHR '','' # r"
  have 1: "skip_lit ''dev='' (save_line st) = digits 16 (unat (f_dev st)) @ CHR '','' # ''ino='' @ ?r"
    using digits_start(2)[of 16 "unat (f_dev st)" "'',ino='' @ ?r"] by (simp add: skip_lit_def line)
  have 2: "scan_num 16 (digits 16 (unat (f_dev st)) @ CHR '','' # ''ino='' @ ?r) =
      Some (of_nat (unat (f_dev st)), CHR '','' # ''ino='' @ ?r)"
    by (rule scan_num_digits) (simp_all add: unat_bound64 del: power_numeral)
  have 3: "skip_lit '',ino='' (CHR '','' # ''ino='' @ ?r) = ?r"
    using digits_start(2)[of 10 "unat (f_ino st)" "CHR '','' # r"] by (simp add: skip_lit_def)
  have "take 4 (save_line st) = ''dev=''" by (simp add: line)
  then show ?thesis
    unfolding sscanf_entry_def 1 2 using 3 scan_ld_digits[OF assms, of "CHR '',''" r] by simp
qed

lemma copy_lines:
  assumes "\<forall>st\<in>set sts. unat (f_ino st) < 2 ^ 63"
  shows "copy_state troot (concat (map save_line sts)) out =
    Goes_on (out @ concat (map save_line (filter (\<lambda>st. f_ino st \<in> set troot) sts)))"
  using assms
proof (induction sts arbitrary: out)
  case Nil
  show ?case by (simp add: copy_state.simps[of _ "[]"] fgets_end)
next
  case (Cons st sts)
  have g: "fgets_text 256 (concat (map save_line (st # sts))) = Some (save_line st, concat (map save_line sts))"
    using fgets_name[OF entry_text_chars(1), of st 256 "concat (map save_line sts)"] entry_text_length[of st]
    by (simp add: save_line_text)
  have c: "cstr (save_line st) = save_line st" using cstr_line[OF entry_text_chars(2)] by (simp add: save_line_text)
  have i: "sscanf_entry (save_line st) = Some (int (unat (f_ino st)))" using Cons.prems by (intro sscanf_saved) simp
  have w: "word_of_int (int (unat (f_ino st))) = f_ino st" by simp
  have "copy_state troot (concat (map save_line (st # sts))) out =
      copy_state troot (concat (map save_line sts)) (if f_ino st \<in> set troot then out @ save_line st else out)"
    by (subst copy_state.simps) (simp only: g option.case prod.case c i w)
  then show ?case using Cons.IH Cons.prems by (simp del: concat.simps list.map) simp
qed

text \<open>The inodes of the files of a list that exist.\<close>

definition inode_of :: "(string \<Rightarrow> int + 64 word) \<Rightarrow> string \<Rightarrow> string \<Rightarrow> 64 word list" where
  "inode_of lstat basedir name = (case lstat (basedir @ ''/'' @ name) of Inr ino \<Rightarrow> [ino] | Inl _ \<Rightarrow> [])"

definition inodes :: "(string \<Rightarrow> int + 64 word) \<Rightarrow> string \<Rightarrow> string list \<Rightarrow> 64 word list" where
  "inodes lstat basedir names = concat (map (inode_of lstat basedir) names)"

definition listed_ok :: "(string \<Rightarrow> int + 64 word) \<Rightarrow> string \<Rightarrow> int \<Rightarrow> string \<Rightarrow> bool" where
  "listed_ok lstat basedir n name \<longleftrightarrow> newline \<notin> set name \<and> nul \<notin> set name \<and> int (length name) + 1 < n \<and>
     (case lstat (basedir @ ''/'' @ name) of Inl e \<Rightarrow> e = ENOENT | Inr _ \<Rightarrow> True)"

lemma read_names:
  assumes "\<forall>name\<in>set names. listed_ok lstat basedir n name" "distinct (inodes lstat basedir names @ troot)"
    and "length names < k" "1 < n"
  shows "read_list k lstat basedir n (concat (map (\<lambda>x. x @ [newline]) names)) troot =
    Goes_on (rev (inodes lstat basedir names) @ troot)"
  using assms
proof (induction names arbitrary: k troot)
  case Nil
  then show ?case by (cases k) (simp_all add: fgets_end inodes_def)
next
  case (Cons name names)
  obtain j where k: "k = Suc j" using Cons.prems(3) by (cases k) auto
  have ok: "newline \<notin> set name" "nul \<notin> set name" "int (length name) + 1 < n"
    using Cons.prems(1) by (simp_all add: listed_ok_def)
  have g: "fgets_text n (concat (map (\<lambda>x. x @ [newline]) (name # names))) =
      Some (name @ [newline], concat (map (\<lambda>x. x @ [newline]) names))"
    using fgets_name[OF ok(1,3)] by simp
  have path: "butlast (basedir @ ''/'' @ cstr (name @ [newline])) = basedir @ ''/'' @ name"
    using cstr_line[OF ok(2)] by (simp add: butlast_append)
  show ?case
  proof (cases "lstat (basedir @ ''/'' @ name)")
    case (Inl e)
    then have "inode_of lstat basedir name = []" and e: "e = ENOENT"
      using Cons.prems(1) by (simp_all add: inode_of_def listed_ok_def)
    then have i: "inodes lstat basedir (name # names) = inodes lstat basedir names" by (simp add: inodes_def)
    have "read_list j lstat basedir n (concat (map (\<lambda>x. x @ [newline]) names)) troot =
        Goes_on (rev (inodes lstat basedir names) @ troot)"
      by (rule Cons.IH) (use Cons.prems k i in auto)
    then show ?thesis unfolding k read_list.simps g using path Inl e i by simp
  next
    case (Inr ino)
    then have i: "inode_of lstat basedir name = [ino]" by (simp add: inode_of_def)
    then have d: "ino \<notin> set troot" "distinct (inodes lstat basedir names @ ino # troot)"
      using Cons.prems(2) by (auto simp: inodes_def)
    have "read_list j lstat basedir n (concat (map (\<lambda>x. x @ [newline]) names)) (ino # troot) =
        Goes_on (rev (inodes lstat basedir names) @ ino # troot)"
      by (rule Cons.IH) (use Cons.prems d(2) k in auto)
    moreover have "inodes lstat basedir (name # names) = ino # inodes lstat basedir names" using i by (simp add: inodes_def)
    ultimately show ?thesis unfolding k read_list.simps g using path Inr d(1) by simp
  qed
qed

text \<open>
  From a state the daemon saved the filter prints, unchanged and in order, the lines of the
  records whose inode is that of a file of the list, when no name is too long for the buffer
  and no two names share an inode; files that do not exist are left out.
\<close>

theorem filter_keeps_listed:
  assumes "fopen list = Some (concat (map (\<lambda>x. x @ [newline]) names))"
    and "fopen state = Some (concat (map save_line sts))"
    and "len = (if pathconf basedir = - 1 then 256 else pathconf basedir)" "int (length basedir) + 2 < len"
    and "\<forall>name\<in>set names. listed_ok lstat basedir (len - (int (length basedir) + 1)) name"
    and "distinct (inodes lstat basedir names)" "\<forall>st\<in>set sts. unat (f_ino st) < 2 ^ 63" "length names < fuel"
  shows "filter_main fuel fopen pathconf lstat [basedir, list, state] =
    Goes_on (concat (map save_line (filter (\<lambda>st. f_ino st \<in> set (inodes lstat basedir names)) sts)))"
proof -
  have "read_list fuel lstat basedir (len - (int (length basedir) + 1)) (concat (map (\<lambda>x. x @ [newline]) names)) [] =
      Goes_on (rev (inodes lstat basedir names))"
    using read_names[OF assms(5) _ assms(8), of "[]"] assms(4,6) by simp
  moreover have "copy_state (rev (inodes lstat basedir names)) (concat (map save_line sts)) [] =
      Goes_on (concat (map save_line (filter (\<lambda>st. f_ino st \<in> set (inodes lstat basedir names)) sts)))"
    using copy_lines[OF assms(7), of "rev (inodes lstat basedir names)" "[]"] by simp
  ultimately show ?thesis
    using assms(4) by (simp add: filter_main_def assms(1,2) assms(3)[symmetric] Let_def)
qed

text \<open>The last name is cut short when the list does not end with a newline.\<close>

lemma last_name_cut:
  "newline \<notin> set name \<Longrightarrow> nul \<notin> set name \<Longrightarrow> name \<noteq> [] \<Longrightarrow> int (length name) + 1 < n \<Longrightarrow>
   lstat (basedir @ ''/'' @ butlast name) = Inr ino \<Longrightarrow>
   read_list 2 lstat basedir n name [] = Goes_on [ino]"
proof -
  assume a: "newline \<notin> set name" "nul \<notin> set name" "name \<noteq> []" "int (length name) + 1 < n"
    "lstat (basedir @ ''/'' @ butlast name) = Inr ino"
  have "take_line k xs = (xs, [])" if "newline \<notin> set xs" "length xs < k" for k xs
    using that by (induction k xs rule: take_line.induct) auto
  then have "fgets_text n name = Some (name, [])" using a(1,3,4) by (simp add: fgets_text_def)
  moreover have "cstr name = name" using a(2) by (auto simp: cstr_def takeWhile_eq_all_conv)
  moreover have "butlast (basedir @ ''/'' @ name) = basedir @ ''/'' @ butlast name" using a(3) by (simp add: butlast_append)
  ultimately show ?thesis using a(4,5) fgets_end[of n] by (simp add: numeral_2_eq_2)
qed

definition ex_tree :: "string \<Rightarrow> int + 64 word" where
  "ex_tree path = (if path = ''root/f'' then Inr 7 else Inl ENOENT)"

definition ex_files :: "string \<Rightarrow> string option" where
  "ex_files f = (if f = ''list'' then Some (''f'' @ [newline] @ ''g'' @ [newline])
     else if f = ''state'' then Some (save_line ex_stat @ save_line (ex_stat\<lparr>f_ino := 8\<rparr>)) else None)"

lemma filter_keeps_listed_witness:
  "filter_main 3 ex_files (\<lambda>_. - 1) ex_tree [''root'', ''list'', ''state''] = Goes_on (save_line ex_stat)"
proof -
  have n: "newline \<noteq> CHR ''f''" "newline \<noteq> CHR ''g''" "nul \<noteq> CHR ''f''" "nul \<noteq> CHR ''g''"
    by (simp_all add: newline_def nul_def)
  have i: "inodes ex_tree ''root'' [''f'', ''g''] = [7]" by (simp add: inodes_def inode_of_def ex_tree_def)
  have ok: "\<forall>name\<in>set [''f'', ''g'']. listed_ok ex_tree ''root'' (256 - (int (length ''root'') + 1)) name"
    using n by (simp add: listed_ok_def ex_tree_def)
  have "\<forall>st\<in>set [ex_stat, ex_stat\<lparr>f_ino := 8\<rparr>]. unat (f_ino st) < 2 ^ 63" by simp
  from filter_keeps_listed[OF _ _ _ _ _ _ this, of ex_files "''list''" "[''f'', ''g'']" "''state''" 256 "\<lambda>_. - 1" "''root''" ex_tree 3]
  show ?thesis using ok by (simp add: i ex_files_def)
qed

end
