(* ===== verification/FakeIds.thy ===== *)
theory FakeIds
  imports FakedClient
begin

text \<open>
  The user and group identities that \<^verbatim>\<open>libfakeroot.c\<close> pretends a process has.  They are cached
  in static variables, read from the environment the first time they are needed and written back
  to it by the functions of the setuid family, so that child processes inherit them.  The source
  has every function twice, for users and for groups; here the four identities of a family are
  a record and the functions have the names of the four environment variables as an argument.
\<close>

subsection \<open>The environment\<close>

type_synonym env = "string \<Rightarrow> string option"

text \<open>\<open>room\<close> says whether there is memory for a new value.\<close>

type_synonym room = "env \<Rightarrow> string \<Rightarrow> string \<Rightarrow> bool"

definition setenv :: "room \<Rightarrow> string \<Rightarrow> string \<Rightarrow> env \<Rightarrow> int \<times> env" where
  "setenv room key val e = (if room e key val then (0, e(key \<mapsto> val)) else (- 1, e))"

definition unsetenv :: "string \<Rightarrow> env \<Rightarrow> env" where
  "unsetenv key e = e(key := None)"

definition snprintf_d :: "nat \<Rightarrow> int \<Rightarrow> string" where
  "snprintf_d len n = take (len - 1) (sprintf_d n)"

definition env_get_id :: "string \<Rightarrow> env \<Rightarrow> int" where
  "env_get_id key e = (case e key of Some str \<Rightarrow> atoi str | None \<Rightarrow> 0)"

definition env_set_id :: "room \<Rightarrow> string \<Rightarrow> int \<Rightarrow> env \<Rightarrow> int \<times> env" where
  "env_set_id room key n e =
     (if n = 0 then (0, unsetenv key e) else setenv room key (snprintf_d 12 n) e)"

definition read_id :: "32 word \<Rightarrow> string \<Rightarrow> env \<Rightarrow> 32 word" where
  "read_id n key e = (if n = - 1 then word_of_int (env_get_id key e) else n)"

definition write_id :: "room \<Rightarrow> string \<Rightarrow> int \<Rightarrow> env \<Rightarrow> int \<times> env" where
  "write_id room key n e = (if env_get_id key e \<noteq> n then env_set_id room key n e else (0, e))"

subsection \<open>A family of identities\<close>

record ids =
  real_id :: "32 word"
  effective_id :: "32 word"
  saved_id :: "32 word"
  fs_id :: "32 word"

text \<open>The initial values of the static variables.\<close>

definition unread_ids :: ids where
  "unread_ids = \<lparr>real_id = - 1, effective_id = - 1, saved_id = - 1, fs_id = - 1\<rparr>"

record id_keys =
  k_real :: string
  k_effective :: string
  k_saved :: string
  k_fs :: string

definition uid_keys :: id_keys where
  "uid_keys = \<lparr>k_real = ''FAKEROOTUID'', k_effective = ''FAKEROOTEUID'', k_saved = ''FAKEROOTSUID'',
     k_fs = ''FAKEROOTFUID''\<rparr>"

definition gid_keys :: id_keys where
  "gid_keys = \<lparr>k_real = ''FAKEROOTGID'', k_effective = ''FAKEROOTEGID'', k_saved = ''FAKEROOTSGID'',
     k_fs = ''FAKEROOTFGID''\<rparr>"

definition read_real :: "id_keys \<Rightarrow> env \<Rightarrow> ids \<Rightarrow> ids" where
  "read_real ks e v = v\<lparr>real_id := read_id (real_id v) (k_real ks) e\<rparr>"

definition read_effective :: "id_keys \<Rightarrow> env \<Rightarrow> ids \<Rightarrow> ids" where
  "read_effective ks e v = v\<lparr>effective_id := read_id (effective_id v) (k_effective ks) e\<rparr>"

definition read_saved :: "id_keys \<Rightarrow> env \<Rightarrow> ids \<Rightarrow> ids" where
  "read_saved ks e v = v\<lparr>saved_id := read_id (saved_id v) (k_saved ks) e\<rparr>"

definition read_fs :: "id_keys \<Rightarrow> env \<Rightarrow> ids \<Rightarrow> ids" where
  "read_fs ks e v = v\<lparr>fs_id := read_id (fs_id v) (k_fs ks) e\<rparr>"

definition read_ids :: "id_keys \<Rightarrow> env \<Rightarrow> ids \<Rightarrow> ids" where
  "read_ids ks e v = read_fs ks e (read_saved ks e (read_effective ks e (read_real ks e v)))"

definition write_real :: "room \<Rightarrow> id_keys \<Rightarrow> ids \<Rightarrow> env \<Rightarrow> int \<times> env" where
  "write_real room ks v = write_id room (k_real ks) (sint (real_id v))"

definition write_effective :: "room \<Rightarrow> id_keys \<Rightarrow> ids \<Rightarrow> env \<Rightarrow> int \<times> env" where
  "write_effective room ks v = write_id room (k_effective ks) (sint (effective_id v))"

definition write_saved :: "room \<Rightarrow> id_keys \<Rightarrow> ids \<Rightarrow> env \<Rightarrow> int \<times> env" where
  "write_saved room ks v = write_id room (k_saved ks) (sint (saved_id v))"

definition write_fs :: "room \<Rightarrow> id_keys \<Rightarrow> ids \<Rightarrow> env \<Rightarrow> int \<times> env" where
  "write_fs room ks v = write_id room (k_fs ks) (sint (fs_id v))"

text \<open>\<^verbatim>\<open>if (f() < 0) return -1;\<close> and then the rest.\<close>

definition or_fail :: "('s \<Rightarrow> int \<times> 's) \<Rightarrow> ('s \<Rightarrow> int \<times> 's) \<Rightarrow> 's \<Rightarrow> int \<times> 's" where
  "or_fail f g s = (let (r, s') = f s in if r < 0 then (- 1, s') else g s')"

definition write_ids :: "room \<Rightarrow> id_keys \<Rightarrow> ids \<Rightarrow> env \<Rightarrow> int \<times> env" where
  "write_ids room ks v =
     or_fail (write_real room ks v) (or_fail (write_effective room ks v)
       (or_fail (write_saved room ks v) (or_fail (write_fs room ks v) (Pair 0))))"

subsection \<open>Getting and setting\<close>

definition get_real :: "id_keys \<Rightarrow> ids \<Rightarrow> env \<Rightarrow> 32 word \<times> ids" where
  "get_real ks v e = (let v' = read_real ks e v in (real_id v', v'))"

definition get_effective :: "id_keys \<Rightarrow> ids \<Rightarrow> env \<Rightarrow> 32 word \<times> ids" where
  "get_effective ks v e = (let v' = read_effective ks e v in (effective_id v', v'))"

definition get_saved :: "id_keys \<Rightarrow> ids \<Rightarrow> env \<Rightarrow> 32 word \<times> ids" where
  "get_saved ks v e = (let v' = read_saved ks e v in (saved_id v', v'))"

definition get_fs :: "id_keys \<Rightarrow> ids \<Rightarrow> env \<Rightarrow> 32 word \<times> ids" where
  "get_fs ks v e = (let v' = read_fs ks e v in (fs_id v', v'))"

definition set_id :: "room \<Rightarrow> id_keys \<Rightarrow> 32 word \<Rightarrow> ids \<Rightarrow> env \<Rightarrow> int \<times> ids \<times> env" where
  "set_id room ks i v e =
     (let v1 = read_ids ks e v;
          v2 = (if effective_id v1 = 0 then v1\<lparr>real_id := i, effective_id := i, saved_id := i\<rparr>
                else v1\<lparr>effective_id := i\<rparr>);
          v3 = v2\<lparr>fs_id := i\<rparr>;
          (r, e') = write_ids room ks v3 e
      in (r, v3, e'))"

definition set_eid :: "room \<Rightarrow> id_keys \<Rightarrow> 32 word \<Rightarrow> ids \<Rightarrow> env \<Rightarrow> int \<times> ids \<times> env" where
  "set_eid room ks i v e =
     (let v1 = (read_effective ks e v)\<lparr>effective_id := i\<rparr>;
          v2 = (read_fs ks e v1)\<lparr>fs_id := i\<rparr>;
          (r, e') = or_fail (write_effective room ks v2) (or_fail (write_fs room ks v2) (Pair 0)) e
      in (r, v2, e'))"

definition set_reid :: "room \<Rightarrow> id_keys \<Rightarrow> 32 word \<Rightarrow> 32 word \<Rightarrow> ids \<Rightarrow> env \<Rightarrow> int \<times> ids \<times> env" where
  "set_reid room ks r e' v e =
     (let v1 = read_ids ks e v;
          v2 = (if r \<noteq> - 1 \<or> e' \<noteq> - 1 then v1\<lparr>saved_id := effective_id v1\<rparr> else v1);
          v3 = (if r \<noteq> - 1 then v2\<lparr>real_id := r\<rparr> else v2);
          v4 = (if e' \<noteq> - 1 then v3\<lparr>effective_id := e'\<rparr> else v3);
          v5 = v4\<lparr>fs_id := effective_id v4\<rparr>;
          (ret, e1) = write_ids room ks v5 e
      in (ret, v5, e1))"

definition set_resid ::
    "room \<Rightarrow> id_keys \<Rightarrow> 32 word \<Rightarrow> 32 word \<Rightarrow> 32 word \<Rightarrow> ids \<Rightarrow> env \<Rightarrow> int \<times> ids \<times> env" where
  "set_resid room ks r e' s v e =
     (let v1 = read_ids ks e v;
          v2 = (if r \<noteq> - 1 then v1\<lparr>real_id := r\<rparr> else v1);
          v3 = (if e' \<noteq> - 1 then v2\<lparr>effective_id := e'\<rparr> else v2);
          v4 = (if s \<noteq> - 1 then v3\<lparr>saved_id := s\<rparr> else v3);
          v5 = v4\<lparr>fs_id := effective_id v4\<rparr>;
          (ret, e1) = write_ids room ks v5 e
      in (ret, v5, e1))"

definition set_fsid :: "id_keys \<Rightarrow> 32 word \<Rightarrow> ids \<Rightarrow> env \<Rightarrow> 32 word \<times> ids" where
  "set_fsid ks i v e = (let (prev, v1) = get_fs ks v e in (prev, v1\<lparr>fs_id := i\<rparr>))"

text \<open>The functions of the source, for users and for groups.\<close>

definition read_uids :: "env \<Rightarrow> ids \<Rightarrow> ids" where "read_uids = read_ids uid_keys"
definition read_gids :: "env \<Rightarrow> ids \<Rightarrow> ids" where "read_gids = read_ids gid_keys"
definition write_uids :: "room \<Rightarrow> ids \<Rightarrow> env \<Rightarrow> int \<times> env" where "write_uids room = write_ids room uid_keys"
definition write_gids :: "room \<Rightarrow> ids \<Rightarrow> env \<Rightarrow> int \<times> env" where "write_gids room = write_ids room gid_keys"
definition get_faked_uid :: "ids \<Rightarrow> env \<Rightarrow> 32 word \<times> ids" where "get_faked_uid = get_real uid_keys"
definition get_faked_gid :: "ids \<Rightarrow> env \<Rightarrow> 32 word \<times> ids" where "get_faked_gid = get_real gid_keys"
definition get_faked_euid :: "ids \<Rightarrow> env \<Rightarrow> 32 word \<times> ids" where "get_faked_euid = get_effective uid_keys"
definition get_faked_egid :: "ids \<Rightarrow> env \<Rightarrow> 32 word \<times> ids" where "get_faked_egid = get_effective gid_keys"
definition get_faked_suid :: "ids \<Rightarrow> env \<Rightarrow> 32 word \<times> ids" where "get_faked_suid = get_saved uid_keys"
definition get_faked_sgid :: "ids \<Rightarrow> env \<Rightarrow> 32 word \<times> ids" where "get_faked_sgid = get_saved gid_keys"
definition get_faked_fsuid :: "ids \<Rightarrow> env \<Rightarrow> 32 word \<times> ids" where "get_faked_fsuid = get_fs uid_keys"
definition get_faked_fsgid :: "ids \<Rightarrow> env \<Rightarrow> 32 word \<times> ids" where "get_faked_fsgid = get_fs gid_keys"
definition set_faked_uid :: "room \<Rightarrow> 32 word \<Rightarrow> ids \<Rightarrow> env \<Rightarrow> int \<times> ids \<times> env" where
  "set_faked_uid room = set_id room uid_keys"
definition set_faked_gid :: "room \<Rightarrow> 32 word \<Rightarrow> ids \<Rightarrow> env \<Rightarrow> int \<times> ids \<times> env" where
  "set_faked_gid room = set_id room gid_keys"
definition set_faked_euid :: "room \<Rightarrow> 32 word \<Rightarrow> ids \<Rightarrow> env \<Rightarrow> int \<times> ids \<times> env" where
  "set_faked_euid room = set_eid room uid_keys"
definition set_faked_egid :: "room \<Rightarrow> 32 word \<Rightarrow> ids \<Rightarrow> env \<Rightarrow> int \<times> ids \<times> env" where
  "set_faked_egid room = set_eid room gid_keys"
definition set_faked_reuid :: "room \<Rightarrow> 32 word \<Rightarrow> 32 word \<Rightarrow> ids \<Rightarrow> env \<Rightarrow> int \<times> ids \<times> env" where
  "set_faked_reuid room = set_reid room uid_keys"
definition set_faked_regid :: "room \<Rightarrow> 32 word \<Rightarrow> 32 word \<Rightarrow> ids \<Rightarrow> env \<Rightarrow> int \<times> ids \<times> env" where
  "set_faked_regid room = set_reid room gid_keys"
definition set_faked_resuid :: "room \<Rightarrow> 32 word \<Rightarrow> 32 word \<Rightarrow> 32 word \<Rightarrow> ids \<Rightarrow> env \<Rightarrow> int \<times> ids \<times> env" where
  "set_faked_resuid room = set_resid room uid_keys"
definition set_faked_resgid :: "room \<Rightarrow> 32 word \<Rightarrow> 32 word \<Rightarrow> 32 word \<Rightarrow> ids \<Rightarrow> env \<Rightarrow> int \<times> ids \<times> env" where
  "set_faked_resgid room = set_resid room gid_keys"
definition set_faked_fsuid :: "32 word \<Rightarrow> ids \<Rightarrow> env \<Rightarrow> 32 word \<times> ids" where "set_faked_fsuid = set_fsid uid_keys"
definition set_faked_fsgid :: "32 word \<Rightarrow> ids \<Rightarrow> env \<Rightarrow> 32 word \<times> ids" where "set_faked_fsgid = set_fsid gid_keys"

lemmas faked_ids = read_uids_def read_gids_def write_uids_def write_gids_def get_faked_uid_def
  get_faked_gid_def get_faked_euid_def get_faked_egid_def get_faked_suid_def get_faked_sgid_def
  get_faked_fsuid_def get_faked_fsgid_def set_faked_uid_def set_faked_gid_def set_faked_euid_def
  set_faked_egid_def set_faked_reuid_def set_faked_regid_def set_faked_resuid_def set_faked_resgid_def
  set_faked_fsuid_def set_faked_fsgid_def

subsection \<open>Numbers in the environment\<close>

text \<open>The buffer of twelve bytes holds every 32-bit number.\<close>

lemma snprintf_fits: "- (2 ^ 31) \<le> n \<Longrightarrow> n < 2 ^ 31 \<Longrightarrow> snprintf_d 12 n = sprintf_d n"
proof -
  assume "- (2 ^ 31) \<le> n" "n < 2 ^ 31"
  then have "nat n < 10 ^ 10" "nat (- n) < 10 ^ 10" by simp_all
  then have "length (digits 10 (nat n)) \<le> 10" "length (digits 10 (nat (- n))) \<le> 10"
    by (simp_all add: digits_length)
  then show ?thesis by (simp add: snprintf_d_def sprintf_d_def)
qed

lemma atoi_printed: "- (2 ^ 31) \<le> n \<Longrightarrow> n < 2 ^ 31 \<Longrightarrow> atoi (snprintf_d 12 n) = n"
  by (simp add: snprintf_fits atoi_def strtol_sprintf_d long_min_def long_max_def int32_id)

lemma env_get_set:
  assumes "env_set_id room key n e = (0, e')" "- (2 ^ 31) \<le> n" "n < 2 ^ 31"
  shows "env_get_id key e' = n" "key' \<noteq> key \<Longrightarrow> e' key' = e key'"
  using assms(1) atoi_printed[OF assms(2,3)]
  by (auto simp: env_set_id_def env_get_id_def unsetenv_def setenv_def split: if_splits)

lemma write_id_result: "fst (write_id room key n e) \<in> {0, - 1}"
  by (simp add: write_id_def env_set_id_def setenv_def)

lemma write_id_ok:
  assumes "write_id room key n e = (r, e')" "\<not> r < 0" "- (2 ^ 31) \<le> n" "n < 2 ^ 31"
  shows "env_get_id key e' = n" "key' \<noteq> key \<Longrightarrow> e' key' = e key'"
proof -
  have r: "r = 0" using write_id_result[of room key n e] assms(1,2) by simp
  show "env_get_id key e' = n" "key' \<noteq> key \<Longrightarrow> e' key' = e key'"
    using assms(1) env_get_set[OF _ assms(3,4), of room key e e'] r
    by (auto simp: write_id_def split: if_splits)
qed

lemma env_get_cong: "e key = e' key \<Longrightarrow> env_get_id key e = env_get_id key e'"
  by (simp add: env_get_id_def)

lemma sint32: "- (2 ^ 31) \<le> sint (w :: 32 word)" "sint (w :: 32 word) < 2 ^ 31"
  using sint_ge[of w] sint_lt[of w] by simp_all

lemma or_fail_ok: "or_fail f g s = (r, s'') \<Longrightarrow> \<not> r < 0 \<Longrightarrow>
    \<exists>r1 s'. f s = (r1, s') \<and> \<not> r1 < 0 \<and> g s' = (r, s'')"
  by (auto simp: or_fail_def split: prod.splits if_splits)

subsection \<open>What the identities are\<close>

text \<open>
  The identities of a process are the values its static variables have once they have been read,
  whether they have been read or not.
\<close>

abbreviation identities :: "id_keys \<Rightarrow> env \<Rightarrow> ids \<Rightarrow> ids" where
  "identities \<equiv> read_ids"

definition distinct_keys :: "id_keys \<Rightarrow> bool" where
  "distinct_keys ks \<longleftrightarrow> distinct [k_real ks, k_effective ks, k_saved ks, k_fs ks]"

lemma distinct_uid_keys: "distinct_keys uid_keys" and distinct_gid_keys: "distinct_keys gid_keys"
  by (simp_all add: distinct_keys_def uid_keys_def gid_keys_def)

lemma read_ids_eq:
  "read_ids ks e v = \<lparr>real_id = read_id (real_id v) (k_real ks) e,
     effective_id = read_id (effective_id v) (k_effective ks) e,
     saved_id = read_id (saved_id v) (k_saved ks) e, fs_id = read_id (fs_id v) (k_fs ks) e\<rparr>"
  by (simp add: read_ids_def read_real_def read_effective_def read_saved_def read_fs_def)

text \<open>The environment of the process holds an identity.\<close>

definition holds :: "string \<Rightarrow> 32 word \<Rightarrow> env \<Rightarrow> bool" where
  "holds key i e \<longleftrightarrow> env_get_id key e = sint i"

lemma read_holds: "holds key i e \<Longrightarrow> read_id i key e = i" "holds key i e \<Longrightarrow> read_id (- 1) key e = i"
  by (simp_all add: read_id_def holds_def)

lemma write_holds:
  assumes "write_id room key (sint i) e = (r, e')" "\<not> r < 0"
  shows "holds key i e'" "key' \<noteq> key \<Longrightarrow> holds key' j e \<Longrightarrow> holds key' j e'"
    "key' \<noteq> key \<Longrightarrow> e' key' = e key'"
  using write_id_ok[OF assms sint32] env_get_cong[of e' key' e]
  by (auto simp: holds_def)

lemma write_ids_ok:
  assumes "write_ids room ks v e = (r, e')" "\<not> r < 0" "distinct_keys ks"
  shows "holds (k_real ks) (real_id v) e'" "holds (k_effective ks) (effective_id v) e'"
    "holds (k_saved ks) (saved_id v) e'" "holds (k_fs ks) (fs_id v) e'"
    "key \<notin> {k_real ks, k_effective ks, k_saved ks, k_fs ks} \<Longrightarrow> e' key = e key" "r = 0"
proof -
  note w = assms(1)[unfolded write_ids_def]
  obtain r1 e1 r2 e2 r3 e3 r4 where s: "write_real room ks v e = (r1, e1)" "\<not> r1 < 0"
      "write_effective room ks v e1 = (r2, e2)" "\<not> r2 < 0"
      "write_saved room ks v e2 = (r3, e3)" "\<not> r3 < 0"
      "write_fs room ks v e3 = (r4, e')" "\<not> r4 < 0" "r = 0"
    using w assms(2) by (auto simp: or_fail_def split: prod.splits if_splits)
  note h1 = write_holds[OF s(1)[unfolded write_real_def] s(2)]
  note h2 = write_holds[OF s(3)[unfolded write_effective_def] s(4)]
  note h3 = write_holds[OF s(5)[unfolded write_saved_def] s(6)]
  note h4 = write_holds[OF s(7)[unfolded write_fs_def] s(8)]
  have d: "k_real ks \<noteq> k_effective ks" "k_real ks \<noteq> k_saved ks" "k_real ks \<noteq> k_fs ks"
    "k_effective ks \<noteq> k_saved ks" "k_effective ks \<noteq> k_fs ks" "k_saved ks \<noteq> k_fs ks"
    using assms(3) by (auto simp: distinct_keys_def)
  show "holds (k_real ks) (real_id v) e'" using h1(1) h2(2) h3(2) h4(2) d by metis
  show "holds (k_effective ks) (effective_id v) e'" using h2(1) h3(2) h4(2) d by metis
  show "holds (k_saved ks) (saved_id v) e'" using h3(1) h4(2) d by metis
  show "holds (k_fs ks) (fs_id v) e'" by (rule h4(1))
  show "e' key = e key" if "key \<notin> {k_real ks, k_effective ks, k_saved ks, k_fs ks}"
    using that h1(3)[of key] h2(3)[of key] h3(3)[of key] h4(3)[of key] by auto
  show "r = 0" by (rule s(9))
qed

text \<open>After a write that succeeds, this process and a new one have the identities of the variables.\<close>

lemma write_ids_identities:
  assumes "write_ids room ks v e = (0, e')" "distinct_keys ks"
  shows "identities ks e' v = v" "identities ks e' unread_ids = v"
  using write_ids_ok[OF assms(1) _ assms(2)] by (simp_all add: read_ids_eq unread_ids_def read_holds)

subsection \<open>What the calls are for\<close>

text \<open>A call of the setuid family, and what it does to the identities of a process.\<close>

datatype id_call = Set "32 word" | Set_e "32 word" | Set_re "32 word" "32 word" | Set_res "32 word" "32 word" "32 word"

fun run_id_call :: "room \<Rightarrow> id_keys \<Rightarrow> id_call \<Rightarrow> ids \<Rightarrow> env \<Rightarrow> int \<times> ids \<times> env" where
  "run_id_call room ks (Set i) = set_id room ks i"
| "run_id_call room ks (Set_e i) = set_eid room ks i"
| "run_id_call room ks (Set_re r e) = set_reid room ks r e"
| "run_id_call room ks (Set_res r e s) = set_resid room ks r e s"

definition keep :: "32 word \<Rightarrow> 32 word \<Rightarrow> 32 word" where
  "keep new old = (if new = - 1 then old else new)"

fun id_spec :: "id_call \<Rightarrow> ids \<Rightarrow> ids" where
  "id_spec (Set i) a =
     (if effective_id a = 0 then \<lparr>real_id = i, effective_id = i, saved_id = i, fs_id = i\<rparr>
      else a\<lparr>effective_id := i, fs_id := i\<rparr>)"
| "id_spec (Set_e i) a = a\<lparr>effective_id := i, fs_id := i\<rparr>"
| "id_spec (Set_re r e) a =
     \<lparr>real_id = keep r (real_id a), effective_id = keep e (effective_id a),
      saved_id = (if r = - 1 \<and> e = - 1 then saved_id a else effective_id a), fs_id = keep e (effective_id a)\<rparr>"
| "id_spec (Set_res r e s) a =
     \<lparr>real_id = keep r (real_id a), effective_id = keep e (effective_id a),
      saved_id = keep s (saved_id a), fs_id = keep e (effective_id a)\<rparr>"

definition keys :: "id_keys \<Rightarrow> string set" where
  "keys ks = {k_real ks, k_effective ks, k_saved ks, k_fs ks}"

text \<open>All functions but \<open>set_eid\<close> compute the new identities and write all of them.\<close>

lemma id_call_writes:
  assumes "\<forall>i. c \<noteq> Set_e i"
  shows "run_id_call room ks c v e = (let v' = id_spec c (identities ks e v); (r, e') = write_ids room ks v' e in (r, v', e'))"
proof -
  obtain a b d f where "identities ks e v = \<lparr>real_id = a, effective_id = b, saved_id = d, fs_id = f\<rparr>"
    by (cases "identities ks e v")
  then show ?thesis
    using assms by (cases c) (simp_all add: set_id_def set_reid_def set_resid_def keep_def Let_def)
qed

lemma set_eid_ok:
  assumes "set_eid room ks i v e = (r, v', e')" "\<not> r < 0" "distinct_keys ks"
  shows "r = 0" "v' = v\<lparr>effective_id := i, fs_id := i\<rparr>" "holds (k_effective ks) i e'" "holds (k_fs ks) i e'"
    "key \<noteq> k_effective ks \<Longrightarrow> key \<noteq> k_fs ks \<Longrightarrow> e' key = e key"
proof -
  let ?v = "v\<lparr>effective_id := i, fs_id := i\<rparr>"
  have v: "v' = ?v" and w: "or_fail (write_effective room ks ?v) (or_fail (write_fs room ks ?v) (Pair 0)) e = (r, e')"
    using assms(1) by (auto simp: set_eid_def read_effective_def read_fs_def Let_def split: prod.splits)
  obtain r1 e1 r2 where s: "write_effective room ks ?v e = (r1, e1)" "\<not> r1 < 0"
      "write_fs room ks ?v e1 = (r2, e')" "\<not> r2 < 0" "r = 0"
    using w assms(2) by (auto simp: or_fail_def split: prod.splits if_splits)
  note h1 = write_holds[OF s(1)[unfolded write_effective_def] s(2), simplified]
  note h2 = write_holds[OF s(3)[unfolded write_fs_def] s(4), simplified]
  have d: "k_effective ks \<noteq> k_fs ks" using assms(3) by (simp add: distinct_keys_def)
  show "r = 0" "v' = ?v" by (rule s(5), rule v)
  show "holds (k_effective ks) i e'" using h1(1) h2(2) d by metis
  show "holds (k_fs ks) i e'" by (rule h2(1))
  show "e' key = e key" if "key \<noteq> k_effective ks" "key \<noteq> k_fs ks" using that h1(3) h2(3) by simp
qed

lemma id_call_ok:
  assumes "run_id_call room ks c v e = (r, v', e')" "\<not> r < 0" "distinct_keys ks"
  shows "r = 0" "identities ks e' v' = id_spec c (identities ks e v)"
    "identities ks e unread_ids = identities ks e v \<Longrightarrow> identities ks e' unread_ids = identities ks e' v'"
    "key \<notin> keys ks \<Longrightarrow> e' key = e key"
proof -
  have "r = 0 \<and> identities ks e' v' = id_spec c (identities ks e v) \<and>
    (identities ks e unread_ids = identities ks e v \<longrightarrow> identities ks e' unread_ids = identities ks e' v') \<and>
    (key \<notin> keys ks \<longrightarrow> e' key = e key)"
  proof (cases "\<forall>i. c \<noteq> Set_e i")
    case True
    have v: "v' = id_spec c (identities ks e v)" and w: "write_ids room ks v' e = (r, e')"
      using assms(1) id_call_writes[OF True, of room ks v e] by (auto simp: Let_def split: prod.splits)
    have r: "r = 0" by (rule write_ids_ok(6)[OF w assms(2,3)])
    show ?thesis
      using write_ids_identities[OF w[unfolded r] assms(3)] write_ids_ok(5)[OF w assms(2,3), of key] r v
      by (auto simp: keys_def)
  next
    case False
    then obtain i where c: "c = Set_e i" by blast
    have s: "set_eid room ks i v e = (r, v', e')" using assms(1) c by simp
    note o = set_eid_ok[OF s assms(2,3)]
    have d: "k_real ks \<noteq> k_effective ks" "k_real ks \<noteq> k_fs ks" "k_saved ks \<noteq> k_effective ks" "k_saved ks \<noteq> k_fs ks"
      using assms(3) by (auto simp: distinct_keys_def)
    have g: "env_get_id (k_real ks) e' = env_get_id (k_real ks) e" "env_get_id (k_saved ks) e' = env_get_id (k_saved ks) e"
      by (rule env_get_cong; simp add: o(5) d)+
    have n: "read_id i (k_effective ks) e' = i" "read_id i (k_fs ks) e' = i"
      "read_id (- 1) (k_effective ks) e' = i" "read_id (- 1) (k_fs ks) e' = i"
      using read_holds[OF o(3)] read_holds[OF o(4)] by simp_all
    have k: "read_id x (k_real ks) e' = read_id x (k_real ks) e" "read_id x (k_saved ks) e' = read_id x (k_saved ks) e" for x
      by (simp_all add: read_id_def g)
    show ?thesis using o(1) o(5)[of key] by (auto simp: c o(2) read_ids_eq n k keys_def unread_ids_def)
  qed
  then show "r = 0" "identities ks e' v' = id_spec c (identities ks e v)"
    "identities ks e unread_ids = identities ks e v \<Longrightarrow> identities ks e' unread_ids = identities ks e' v'"
    "key \<notin> keys ks \<Longrightarrow> e' key = e key" by blast+
qed

lemma identities_cong: "(\<And>key. key \<in> keys ks \<Longrightarrow> e' key = e key) \<Longrightarrow> identities ks e' v = identities ks e v"
proof -
  assume a: "\<And>key. key \<in> keys ks \<Longrightarrow> e' key = e key"
  have "env_get_id key e' = env_get_id key e" if "key \<in> keys ks" for key by (rule env_get_cong) (rule a[OF that])
  then show ?thesis by (simp add: read_ids_eq read_id_def keys_def)
qed

lemma keys_disjoint: "keys uid_keys \<inter> keys gid_keys = {}"
  by (simp add: keys_def uid_keys_def gid_keys_def)

lemma get_identities:
  "fst (get_real ks v e) = real_id (identities ks e v)" "fst (get_effective ks v e) = effective_id (identities ks e v)"
  "fst (get_saved ks v e) = saved_id (identities ks e v)" "fst (get_fs ks v e) = fs_id (identities ks e v)"
  "identities ks e (snd (get_real ks v e)) = identities ks e v"
  "identities ks e (snd (get_effective ks v e)) = identities ks e v"
  "identities ks e (snd (get_saved ks v e)) = identities ks e v"
  "identities ks e (snd (get_fs ks v e)) = identities ks e v"
  by (simp_all add: get_real_def get_effective_def get_saved_def get_fs_def read_real_def read_effective_def
      read_saved_def read_fs_def read_ids_eq read_id_def Let_def)

end
