(* ===== verification/LibFakeroot.thy ===== *)
theory LibFakeroot
  imports FakeIds
begin

text \<open>
  The library that is loaded into every program run under fakeroot (\<^verbatim>\<open>libfakeroot.c\<close>): the
  functions that take the place of those of the C library.  The functions they call in turn, the
  \<open>next_\<close> ones, are parameters: they read and change a world of type \<open>'w\<close>.  A call that succeeds
  returns 0 (\<open>None\<close>), a call that fails returns -1 and sets \<^verbatim>\<open>errno\<close> (\<open>Some errno\<close>).  The programs of
  Linux are modelled: \<^verbatim>\<open>LCHOWN_SUPPORT\<close>, \<^verbatim>\<open>STAT64_SUPPORT\<close> and the functions relative to a directory
  are there, \<^verbatim>\<open>EFTYPE\<close> is not.
\<close>

subsection \<open>The functions of the C library\<close>

record ftsent =
  fts_name :: string
  fts_statp :: "cstat option"

record 'w libc =
  next_stat :: "string \<Rightarrow> 'w \<Rightarrow> int + cstat"
  next_lstat :: "string \<Rightarrow> 'w \<Rightarrow> int + cstat"
  next_fstat :: "int \<Rightarrow> 'w \<Rightarrow> int + cstat"
  next_fstatat :: "int \<Rightarrow> string \<Rightarrow> 32 word \<Rightarrow> 'w \<Rightarrow> int + cstat"
  next_stat64 :: "string \<Rightarrow> 'w \<Rightarrow> int + cstat"
  next_lstat64 :: "string \<Rightarrow> 'w \<Rightarrow> int + cstat"
  next_fstat64 :: "int \<Rightarrow> 'w \<Rightarrow> int + cstat"
  next_fstatat64 :: "int \<Rightarrow> string \<Rightarrow> 32 word \<Rightarrow> 'w \<Rightarrow> int + cstat"
  next_lchown :: "string \<Rightarrow> 32 word \<Rightarrow> 32 word \<Rightarrow> 'w \<Rightarrow> int option \<times> 'w"
  next_fchown :: "int \<Rightarrow> 32 word \<Rightarrow> 32 word \<Rightarrow> 'w \<Rightarrow> int option \<times> 'w"
  next_fchownat :: "int \<Rightarrow> string \<Rightarrow> 32 word \<Rightarrow> 32 word \<Rightarrow> 32 word \<Rightarrow> 'w \<Rightarrow> int option \<times> 'w"
  next_chmod :: "string \<Rightarrow> 32 word \<Rightarrow> 'w \<Rightarrow> int option \<times> 'w"
  next_fchmod :: "int \<Rightarrow> 32 word \<Rightarrow> 'w \<Rightarrow> int option \<times> 'w"
  next_fchmodat :: "int \<Rightarrow> string \<Rightarrow> 32 word \<Rightarrow> 32 word \<Rightarrow> 'w \<Rightarrow> int option \<times> 'w"
  next_umask :: "32 word \<Rightarrow> 'w \<Rightarrow> 32 word \<times> 'w"
  next_open :: "string \<Rightarrow> 32 word \<Rightarrow> 32 word \<Rightarrow> 'w \<Rightarrow> (int + int) \<times> 'w"
  next_openat :: "int \<Rightarrow> string \<Rightarrow> 32 word \<Rightarrow> 32 word \<Rightarrow> 'w \<Rightarrow> (int + int) \<times> 'w"
  next_mkdir :: "string \<Rightarrow> 32 word \<Rightarrow> 'w \<Rightarrow> int option \<times> 'w"
  next_mkdirat :: "int \<Rightarrow> string \<Rightarrow> 32 word \<Rightarrow> 'w \<Rightarrow> int option \<times> 'w"
  next_unlink :: "string \<Rightarrow> 'w \<Rightarrow> int option \<times> 'w"
  next_unlinkat :: "int \<Rightarrow> string \<Rightarrow> 32 word \<Rightarrow> 'w \<Rightarrow> int option \<times> 'w"
  next_rmdir :: "string \<Rightarrow> 'w \<Rightarrow> int option \<times> 'w"
  next_remove :: "string \<Rightarrow> 'w \<Rightarrow> int option \<times> 'w"
  next_rename :: "string \<Rightarrow> string \<Rightarrow> 'w \<Rightarrow> int option \<times> 'w"
  next_renameat :: "int \<Rightarrow> string \<Rightarrow> int \<Rightarrow> string \<Rightarrow> 'w \<Rightarrow> int option \<times> 'w"
  next_close :: "int \<Rightarrow> 'w \<Rightarrow> int option \<times> 'w"
  next_dup :: "int \<Rightarrow> 'w \<Rightarrow> (int + int) \<times> 'w"
  next_dup2 :: "int \<Rightarrow> int \<Rightarrow> 'w \<Rightarrow> (int + int) \<times> 'w"
  next_fork :: "'w \<Rightarrow> (int + int) \<times> 'w"
  next_fts_read :: "int \<Rightarrow> 'w \<Rightarrow> ftsent option \<times> 'w"
  next_fts_children :: "int \<Rightarrow> int \<Rightarrow> 'w \<Rightarrow> ftsent list \<times> 'w"
  msgget :: "int \<Rightarrow> int"
  daemon_buf :: fake_msg
  stack_buf :: fake_msg

record 'w id_calls =
  next_getuid :: "'w \<Rightarrow> 32 word"
  next_geteuid :: "'w \<Rightarrow> 32 word"
  next_getgid :: "'w \<Rightarrow> 32 word"
  next_getegid :: "'w \<Rightarrow> 32 word"
  next_getresuid :: "'w \<Rightarrow> int + 32 word \<times> 32 word \<times> 32 word"
  next_getresgid :: "'w \<Rightarrow> int + 32 word \<times> 32 word \<times> 32 word"
  next_setuid :: "32 word \<Rightarrow> 'w \<Rightarrow> int option \<times> 'w"
  next_setgid :: "32 word \<Rightarrow> 'w \<Rightarrow> int option \<times> 'w"
  next_seteuid :: "32 word \<Rightarrow> 'w \<Rightarrow> int option \<times> 'w"
  next_setegid :: "32 word \<Rightarrow> 'w \<Rightarrow> int option \<times> 'w"
  next_setreuid :: "32 word \<Rightarrow> 32 word \<Rightarrow> 'w \<Rightarrow> int option \<times> 'w"
  next_setregid :: "32 word \<Rightarrow> 32 word \<Rightarrow> 'w \<Rightarrow> int option \<times> 'w"
  next_setresuid :: "32 word \<Rightarrow> 32 word \<Rightarrow> 32 word \<Rightarrow> 'w \<Rightarrow> int option \<times> 'w"
  next_setresgid :: "32 word \<Rightarrow> 32 word \<Rightarrow> 32 word \<Rightarrow> 'w \<Rightarrow> int option \<times> 'w"
  next_setfsuid :: "32 word \<Rightarrow> 'w \<Rightarrow> 32 word \<times> 'w"
  next_setfsgid :: "32 word \<Rightarrow> 'w \<Rightarrow> 32 word \<times> 'w"
  next_initgroups :: "string \<Rightarrow> 32 word \<Rightarrow> 'w \<Rightarrow> int option \<times> 'w"
  next_setgroups :: "32 word list \<Rightarrow> 'w \<Rightarrow> int option \<times> 'w"

definition EPERM :: int where "EPERM = 1"
definition EBADF :: int where "EBADF = 9"
definition ENOTSUP :: int where "ENOTSUP = 95"
definition AT_SYMLINK_NOFOLLOW :: "32 word" where "AT_SYMLINK_NOFOLLOW = 0x100"
definition AT_REMOVEDIR :: "32 word" where "AT_REMOVEDIR = 0x200"

text \<open>\<^verbatim>\<open>O_WRONLY|O_CREAT|O_TRUNC\<close>\<close>

definition CREAT_TRUNC :: "32 word" where "CREAT_TRUNC = 0x241"

definition ALLPERMS :: "32 word" where "ALLPERMS = 0xFFF"

subsection \<open>A process\<close>

text \<open>
  The state of a process that runs with the library: the world, its environment and \<^verbatim>\<open>errno\<close>, and
  the static variables of the library and of the client.
\<close>

record 'w fproc =
  world :: 'w
  environ :: env
  errno :: int
  conn :: client
  queues :: ipc
  comm_sd :: int
  uids :: ids
  gids :: ids
  fakeroot_disabled :: int
  chown_inited :: bool
  chown_donttry :: bool

definition syscall :: "('w \<Rightarrow> int option \<times> 'w) \<Rightarrow> 'w fproc \<Rightarrow> int \<times> 'w fproc" where
  "syscall f p =
     (case f (world p) of
        (None, w) \<Rightarrow> (0, p\<lparr>world := w\<rparr>)
      | (Some e, w) \<Rightarrow> (- 1, p\<lparr>world := w, errno := e\<rparr>))"

text \<open>A call that returns a number, a file descriptor for instance, or -1.\<close>

definition syscall_num :: "('w \<Rightarrow> (int + int) \<times> 'w) \<Rightarrow> 'w fproc \<Rightarrow> int \<times> 'w fproc" where
  "syscall_num f p =
     (case f (world p) of
        (Inr n, w) \<Rightarrow> (n, p\<lparr>world := w\<rparr>)
      | (Inl e, w) \<Rightarrow> (- 1, p\<lparr>world := w, errno := e\<rparr>))"

definition dont_try_chown :: "'w fproc \<Rightarrow> bool \<times> 'w fproc" where
  "dont_try_chown p =
     (let p' = (if \<not> chown_inited p then
                  p\<lparr>chown_donttry := env_var_set (environ p) ''FAKEROOTDONTTRYCHOWN'' \<noteq> None,
                    chown_inited := True\<rparr>
                else p)
      in (chown_donttry p', p'))"

definition int_send_stat :: "'w libc \<Rightarrow> cstat \<Rightarrow> 32 word \<Rightarrow> 'w fproc \<Rightarrow> 'w fproc" where
  "int_send_stat L st f p =
     (let (c, i) = send_stat64 (environ p) (msgget L) (stack_buf L) st f (conn p) (queues p)
      in p\<lparr>conn := c, queues := i\<rparr>)"

subsection \<open>Attributes\<close>

text \<open>
  The result is the value returned and what is stored in the buffer of the caller (nothing when
  the call fails), or \<open>None\<close> when the answer of the daemon never comes.
\<close>

type_synonym 'w stat_result = "(int \<times> cstat option \<times> 'w fproc) option"

definition send_get :: "'w libc \<Rightarrow> cstat \<Rightarrow> 'w fproc \<Rightarrow> (cstat \<times> 'w fproc) option" where
  "send_get L st p =
     map_option (\<lambda>(st', c, i). (st', p\<lparr>conn := c, queues := i\<rparr>))
       (send_get_stat (environ p) (msgget L) (daemon_buf L) (stack_buf L) st (conn p) (queues p))"

definition send_get64 :: "'w libc \<Rightarrow> cstat \<Rightarrow> 'w fproc \<Rightarrow> (cstat \<times> 'w fproc) option" where
  "send_get64 L st p =
     map_option (\<lambda>(st', c, i). (st', p\<lparr>conn := c, queues := i\<rparr>))
       (send_get_stat64 (environ p) (msgget L) (daemon_buf L) (stack_buf L) st (conn p) (queues p))"

definition wrap_lstat :: "'w libc \<Rightarrow> string \<Rightarrow> 'w fproc \<Rightarrow> 'w stat_result" where
  "wrap_lstat L file_name p =
     (case next_lstat L file_name (world p) of
        Inl e \<Rightarrow> Some (- 1, None, p\<lparr>errno := e\<rparr>)
      | Inr st \<Rightarrow> map_option (\<lambda>(st', p'). (0, Some st', p')) (send_get L st p))"

definition wrap_stat :: "'w libc \<Rightarrow> string \<Rightarrow> 'w fproc \<Rightarrow> 'w stat_result" where
  "wrap_stat L file_name p =
     (case next_stat L file_name (world p) of
        Inl e \<Rightarrow> Some (- 1, None, p\<lparr>errno := e\<rparr>)
      | Inr st \<Rightarrow> map_option (\<lambda>(st', p'). (0, Some st', p')) (send_get L st p))"

definition wrap_fstat :: "'w libc \<Rightarrow> int \<Rightarrow> 'w fproc \<Rightarrow> 'w stat_result" where
  "wrap_fstat L fd p =
     (case next_fstat L fd (world p) of
        Inl e \<Rightarrow> Some (- 1, None, p\<lparr>errno := e\<rparr>)
      | Inr st \<Rightarrow> map_option (\<lambda>(st', p'). (0, Some st', p')) (send_get L st p))"

definition wrap_fstatat :: "'w libc \<Rightarrow> int \<Rightarrow> string \<Rightarrow> 32 word \<Rightarrow> 'w fproc \<Rightarrow> 'w stat_result" where
  "wrap_fstatat L dir_fd path flags p =
     (case next_fstatat L dir_fd path flags (world p) of
        Inl e \<Rightarrow> Some (- 1, None, p\<lparr>errno := e\<rparr>)
      | Inr st \<Rightarrow> map_option (\<lambda>(st', p'). (0, Some st', p')) (send_get L st p))"

definition wrap_lstat64 :: "'w libc \<Rightarrow> string \<Rightarrow> 'w fproc \<Rightarrow> 'w stat_result" where
  "wrap_lstat64 L file_name p =
     (case next_lstat64 L file_name (world p) of
        Inl e \<Rightarrow> Some (- 1, None, p\<lparr>errno := e\<rparr>)
      | Inr st \<Rightarrow> map_option (\<lambda>(st', p'). (0, Some st', p')) (send_get64 L st p))"

definition wrap_stat64 :: "'w libc \<Rightarrow> string \<Rightarrow> 'w fproc \<Rightarrow> 'w stat_result" where
  "wrap_stat64 L file_name p =
     (case next_stat64 L file_name (world p) of
        Inl e \<Rightarrow> Some (- 1, None, p\<lparr>errno := e\<rparr>)
      | Inr st \<Rightarrow> map_option (\<lambda>(st', p'). (0, Some st', p')) (send_get64 L st p))"

definition wrap_fstat64 :: "'w libc \<Rightarrow> int \<Rightarrow> 'w fproc \<Rightarrow> 'w stat_result" where
  "wrap_fstat64 L fd p =
     (case next_fstat64 L fd (world p) of
        Inl e \<Rightarrow> Some (- 1, None, p\<lparr>errno := e\<rparr>)
      | Inr st \<Rightarrow> map_option (\<lambda>(st', p'). (0, Some st', p')) (send_get64 L st p))"

definition wrap_fstatat64 :: "'w libc \<Rightarrow> int \<Rightarrow> string \<Rightarrow> 32 word \<Rightarrow> 'w fproc \<Rightarrow> 'w stat_result" where
  "wrap_fstatat64 L dir_fd path flags p =
     (case next_fstatat64 L dir_fd path flags (world p) of
        Inl e \<Rightarrow> Some (- 1, None, p\<lparr>errno := e\<rparr>)
      | Inr st \<Rightarrow> map_option (\<lambda>(st', p'). (0, Some st', p')) (send_get64 L st p))"

subsection \<open>Owners\<close>

text \<open>\<open>chown\<close> asks for the attributes of the target of a link, and calls \<open>next_lchown\<close>.\<close>

definition chown :: "'w libc \<Rightarrow> string \<Rightarrow> 32 word \<Rightarrow> 32 word \<Rightarrow> 'w fproc \<Rightarrow> int \<times> 'w fproc" where
  "chown L path owner grp p =
     (case next_stat64 L path (world p) of
        Inl e \<Rightarrow> (- 1, p\<lparr>errno := e\<rparr>)
      | Inr st \<Rightarrow>
          (let p1 = int_send_stat L (st\<lparr>st_uid := owner, st_gid := grp\<rparr>) chown_func p;
               (dont, p2) = dont_try_chown p1;
               (r, p3) = (if \<not> dont then syscall (next_lchown L path owner grp) p2 else (0, p2))
           in (if r \<noteq> 0 \<and> errno p3 = EPERM then 0 else r, p3)))"

definition lchown :: "'w libc \<Rightarrow> string \<Rightarrow> 32 word \<Rightarrow> 32 word \<Rightarrow> 'w fproc \<Rightarrow> int \<times> 'w fproc" where
  "lchown L path owner grp p =
     (case next_lstat64 L path (world p) of
        Inl e \<Rightarrow> (- 1, p\<lparr>errno := e\<rparr>)
      | Inr st \<Rightarrow>
          (let p1 = int_send_stat L (st\<lparr>st_uid := owner, st_gid := grp\<rparr>) chown_func p;
               (dont, p2) = dont_try_chown p1;
               (r, p3) = (if \<not> dont then syscall (next_lchown L path owner grp) p2 else (0, p2))
           in (if r \<noteq> 0 \<and> errno p3 = EPERM then 0 else r, p3)))"

definition fchown :: "'w libc \<Rightarrow> int \<Rightarrow> 32 word \<Rightarrow> 32 word \<Rightarrow> 'w fproc \<Rightarrow> int \<times> 'w fproc" where
  "fchown L fd owner grp p =
     (case next_fstat64 L fd (world p) of
        Inl e \<Rightarrow> (- 1, p\<lparr>errno := e\<rparr>)
      | Inr st \<Rightarrow>
          (let p1 = int_send_stat L (st\<lparr>st_uid := owner, st_gid := grp\<rparr>) chown_func p;
               (dont, p2) = dont_try_chown p1;
               (r, p3) = (if \<not> dont then syscall (next_fchown L fd owner grp) p2 else (0, p2))
           in (if r \<noteq> 0 \<and> errno p3 = EPERM then 0 else r, p3)))"

definition fchownat :: "'w libc \<Rightarrow> int \<Rightarrow> string \<Rightarrow> 32 word \<Rightarrow> 32 word \<Rightarrow> 32 word \<Rightarrow> 'w fproc \<Rightarrow> int \<times> 'w fproc" where
  "fchownat L dir_fd path owner grp flags p =
     (case next_fstatat64 L dir_fd path (flags AND AT_SYMLINK_NOFOLLOW) (world p) of
        Inl e \<Rightarrow> (- 1, p\<lparr>errno := e\<rparr>)
      | Inr st \<Rightarrow>
          (let p1 = int_send_stat L (st\<lparr>st_uid := owner, st_gid := grp\<rparr>) chown_func p;
               (dont, p2) = dont_try_chown p1;
               (r, p3) = (if \<not> dont then syscall (next_fchownat L dir_fd path owner grp flags) p2 else (0, p2))
           in (if r \<noteq> 0 \<and> errno p3 = EPERM then 0 else r, p3)))"

subsection \<open>Permissions\<close>

text \<open>
  The daemon is told the mode that was asked for, with the file type of the system; the system
  the same mode with the owner's rights to read and write, and to search a directory.
\<close>

definition S_ISDIR :: "32 word \<Rightarrow> bool" where
  "S_ISDIR m \<longleftrightarrow> m AND S_IFMT = S_IFDIR"

definition new_mode :: "32 word \<Rightarrow> 32 word \<Rightarrow> 32 word" where
  "new_mode mode old = (mode AND ALLPERMS) OR (old AND NOT ALLPERMS)"

definition real_mode :: "32 word \<Rightarrow> 32 word \<Rightarrow> 32 word" where
  "real_mode mode st_mode' = (let m = mode OR 0x180 in if S_ISDIR st_mode' then m OR 0x40 else m)"

definition chmod :: "'w libc \<Rightarrow> string \<Rightarrow> 32 word \<Rightarrow> 'w fproc \<Rightarrow> int \<times> 'w fproc" where
  "chmod L path mode p =
     (case next_stat64 L path (world p) of
        Inl e \<Rightarrow> (- 1, p\<lparr>errno := e\<rparr>)
      | Inr st \<Rightarrow>
          (let st1 = st\<lparr>st_mode := new_mode mode (st_mode st)\<rparr>;
               p1 = int_send_stat L st1 chmod_func p;
               (r, p2) = syscall (next_chmod L path (real_mode mode (st_mode st1))) p1
           in (if r \<noteq> 0 \<and> errno p2 = EPERM then 0 else r, p2)))"

definition fchmod :: "'w libc \<Rightarrow> int \<Rightarrow> 32 word \<Rightarrow> 'w fproc \<Rightarrow> int \<times> 'w fproc" where
  "fchmod L fd mode p =
     (case next_fstat64 L fd (world p) of
        Inl e \<Rightarrow> (- 1, p\<lparr>errno := e\<rparr>)
      | Inr st \<Rightarrow>
          (let st1 = st\<lparr>st_mode := new_mode mode (st_mode st)\<rparr>;
               p1 = int_send_stat L st1 chmod_func p;
               (r, p2) = syscall (next_fchmod L fd (real_mode mode (st_mode st1))) p1
           in (if r \<noteq> 0 \<and> errno p2 = EPERM then 0 else r, p2)))"

definition fchmodat :: "'w libc \<Rightarrow> int \<Rightarrow> string \<Rightarrow> 32 word \<Rightarrow> 32 word \<Rightarrow> 'w fproc \<Rightarrow> int \<times> 'w fproc" where
  "fchmodat L dir_fd path mode flags p =
     (case next_fstatat64 L dir_fd path (flags AND AT_SYMLINK_NOFOLLOW) (world p) of
        Inl e \<Rightarrow> (- 1, p\<lparr>errno := e\<rparr>)
      | Inr st \<Rightarrow>
          (let st1 = st\<lparr>st_mode := new_mode mode (st_mode st)\<rparr>;
               p1 = int_send_stat L st1 chmod_func p;
               (r, p2) = syscall (next_fchmodat L dir_fd path (real_mode mode (st_mode st1)) flags) p1
           in (if r \<noteq> 0 \<and> errno p2 = EPERM then 0 else r, p2)))"

subsection \<open>Creation\<close>

text \<open>The mask of the process: it is read by setting another one and setting it back.\<close>

definition old_umask :: "'w libc \<Rightarrow> 'w fproc \<Rightarrow> 32 word \<times> 'w fproc" where
  "old_umask L p =
     (let (old_mask, w) = next_umask L 0x12 (world p);
          (_, w') = next_umask L old_mask w
      in (old_mask, p\<lparr>world := w'\<rparr>))"

text \<open>A device node is created as an empty regular file.\<close>

definition mknod :: "'w libc \<Rightarrow> string \<Rightarrow> 32 word \<Rightarrow> 64 word \<Rightarrow> 'w fproc \<Rightarrow> int \<times> 'w fproc" where
  "mknod L pathname mode dev p =
     (let (old_mask, p0) = old_umask L p;
          (fd, p1) = syscall_num (next_open L pathname CREAT_TRUNC 0x1A4) p0
      in if fd = - 1 then (- 1, p1)
         else
           (let (_, p2) = syscall (next_close L fd) p1 in
            case next_lstat64 L pathname (world p2) of
              Inl e \<Rightarrow> (- 1, p2\<lparr>errno := e\<rparr>)
            | Inr st \<Rightarrow>
                (0, int_send_stat L (st\<lparr>st_mode := mode AND NOT old_mask, st_rdev := dev\<rparr>) mknod_func p2)))"

definition mknodat :: "'w libc \<Rightarrow> int \<Rightarrow> string \<Rightarrow> 32 word \<Rightarrow> 64 word \<Rightarrow> 'w fproc \<Rightarrow> int \<times> 'w fproc" where
  "mknodat L dir_fd pathname mode dev p =
     (let (old_mask, p0) = old_umask L p;
          (fd, p1) = syscall_num (next_openat L dir_fd pathname CREAT_TRUNC 0x1A4) p0
      in if fd = - 1 then (- 1, p1)
         else
           (let (_, p2) = syscall (next_close L fd) p1 in
            case next_fstatat64 L dir_fd pathname 0 (world p2) of
              Inl e \<Rightarrow> (- 1, p2\<lparr>errno := e\<rparr>)
            | Inr st \<Rightarrow>
                (0, int_send_stat L (st\<lparr>st_mode := mode AND NOT old_mask, st_rdev := dev\<rparr>) mknod_func p2)))"

definition dir_mode :: "32 word \<Rightarrow> 32 word \<Rightarrow> 32 word \<Rightarrow> 32 word" where
  "dir_mode mode old_mask st_mode' =
     (mode AND NOT old_mask AND ALLPERMS) OR (st_mode' AND NOT ALLPERMS) OR S_IFDIR"

definition mkdir :: "'w libc \<Rightarrow> string \<Rightarrow> 32 word \<Rightarrow> 'w fproc \<Rightarrow> int \<times> 'w fproc" where
  "mkdir L path mode p =
     (let (old_mask, p0) = old_umask L p;
          (r, p1) = syscall (next_mkdir L path (mode OR 0x1C0)) p0
      in if r \<noteq> 0 then (- 1, p1)
         else case next_stat64 L path (world p1) of
           Inl e \<Rightarrow> (- 1, p1\<lparr>errno := e\<rparr>)
         | Inr st \<Rightarrow>
             (0, int_send_stat L (st\<lparr>st_mode := dir_mode mode old_mask (st_mode st)\<rparr>) chmod_func p1))"

definition mkdirat :: "'w libc \<Rightarrow> int \<Rightarrow> string \<Rightarrow> 32 word \<Rightarrow> 'w fproc \<Rightarrow> int \<times> 'w fproc" where
  "mkdirat L dir_fd path mode p =
     (let (old_mask, p0) = old_umask L p;
          (r, p1) = syscall (next_mkdirat L dir_fd path (mode OR 0x1C0)) p0
      in if r \<noteq> 0 then (- 1, p1)
         else case next_fstatat64 L dir_fd path 0 (world p1) of
           Inl e \<Rightarrow> (- 1, p1\<lparr>errno := e\<rparr>)
         | Inr st \<Rightarrow>
             (0, int_send_stat L (st\<lparr>st_mode := dir_mode mode old_mask (st_mode st)\<rparr>) chmod_func p1))"

subsection \<open>Removal\<close>

text \<open>The attributes are read before the file is gone, and sent to the daemon afterwards.\<close>

definition unlink :: "'w libc \<Rightarrow> string \<Rightarrow> 'w fproc \<Rightarrow> int \<times> 'w fproc" where
  "unlink L pathname p =
     (case next_lstat64 L pathname (world p) of
        Inl e \<Rightarrow> (- 1, p\<lparr>errno := e\<rparr>)
      | Inr st \<Rightarrow>
          (let (r, p1) = syscall (next_unlink L pathname) p
           in if r \<noteq> 0 then (- 1, p1) else (0, int_send_stat L st unlink_func p1)))"

definition unlinkat :: "'w libc \<Rightarrow> int \<Rightarrow> string \<Rightarrow> 32 word \<Rightarrow> 'w fproc \<Rightarrow> int \<times> 'w fproc" where
  "unlinkat L dir_fd pathname flags p =
     (case next_fstatat64 L dir_fd pathname ((flags AND NOT AT_REMOVEDIR) OR AT_SYMLINK_NOFOLLOW) (world p) of
        Inl e \<Rightarrow> (- 1, p\<lparr>errno := e\<rparr>)
      | Inr st \<Rightarrow>
          (let (r, p1) = syscall (next_unlinkat L dir_fd pathname flags) p
           in if r \<noteq> 0 then (- 1, p1) else (0, int_send_stat L st unlink_func p1)))"

definition rmdir :: "'w libc \<Rightarrow> string \<Rightarrow> 'w fproc \<Rightarrow> int \<times> 'w fproc" where
  "rmdir L pathname p =
     (case next_lstat64 L pathname (world p) of
        Inl e \<Rightarrow> (- 1, p\<lparr>errno := e\<rparr>)
      | Inr st \<Rightarrow>
          (let (r, p1) = syscall (next_rmdir L pathname) p
           in if r \<noteq> 0 then (- 1, p1) else (0, int_send_stat L st unlink_func p1)))"

definition remove :: "'w libc \<Rightarrow> string \<Rightarrow> 'w fproc \<Rightarrow> int \<times> 'w fproc" where
  "remove L pathname p =
     (case next_lstat64 L pathname (world p) of
        Inl e \<Rightarrow> (- 1, p\<lparr>errno := e\<rparr>)
      | Inr st \<Rightarrow>
          (let (r, p1) = syscall (next_remove L pathname) p
           in if r \<noteq> 0 then (- 1, p1) else (0, int_send_stat L st unlink_func p1)))"

text \<open>A file that exists under the new name goes away.\<close>

definition rename :: "'w libc \<Rightarrow> string \<Rightarrow> string \<Rightarrow> 'w fproc \<Rightarrow> int \<times> 'w fproc" where
  "rename L oldpath newpath p =
     (let r = next_lstat64 L newpath (world p);
          p0 = (case r of Inl e \<Rightarrow> p\<lparr>errno := e\<rparr> | Inr _ \<Rightarrow> p);
          (s, p1) = syscall (next_rename L oldpath newpath) p0
      in if s \<noteq> 0 then (- 1, p1)
         else (0, case r of Inr st \<Rightarrow> int_send_stat L st unlink_func p1 | Inl _ \<Rightarrow> p1))"

definition renameat :: "'w libc \<Rightarrow> int \<Rightarrow> string \<Rightarrow> int \<Rightarrow> string \<Rightarrow> 'w fproc \<Rightarrow> int \<times> 'w fproc" where
  "renameat L olddir_fd oldpath newdir_fd newpath p =
     (let r = next_fstatat64 L newdir_fd newpath AT_SYMLINK_NOFOLLOW (world p);
          p0 = (case r of Inl e \<Rightarrow> p\<lparr>errno := e\<rparr> | Inr _ \<Rightarrow> p);
          (s, p1) = syscall (next_renameat L olddir_fd oldpath newdir_fd newpath) p0
      in if s \<noteq> 0 then (- 1, p1)
         else (0, case r of Inr st \<Rightarrow> int_send_stat L st unlink_func p1 | Inl _ \<Rightarrow> p1))"

subsection \<open>The descriptor of the connection (TCP build)\<close>

text \<open>The lock around these functions is not modelled: one thread runs.\<close>

definition fork :: "'w libc \<Rightarrow> 'w fproc \<Rightarrow> int \<times> 'w fproc" where
  "fork L p =
     (let (pid, p1) = syscall_num (next_fork L) p
      in (pid, if pid = 0 \<and> comm_sd p1 \<ge> 0
               then (snd (syscall (next_close L (comm_sd p1)) p1))\<lparr>comm_sd := - 1\<rparr> else p1))"

definition vfork :: "'w libc \<Rightarrow> 'w fproc \<Rightarrow> int \<times> 'w fproc" where
  "vfork L p = fork L p"

definition close :: "'w libc \<Rightarrow> int \<Rightarrow> 'w fproc \<Rightarrow> int \<times> 'w fproc" where
  "close L fd p =
     (if comm_sd p \<ge> 0 \<and> comm_sd p = fd then (- 1, p\<lparr>errno := EBADF\<rparr>) else syscall (next_close L fd) p)"

definition dup2 :: "'w libc \<Rightarrow> int \<Rightarrow> int \<Rightarrow> 'w fproc \<Rightarrow> int \<times> 'w fproc" where
  "dup2 L oldfd newfd p =
     (let p1 = (if comm_sd p \<ge> 0 \<and> comm_sd p = newfd then
                  (let (sd, p') = syscall_num (next_dup L newfd) p
                   in snd (syscall (next_close L newfd) (p'\<lparr>comm_sd := sd\<rparr>)))
                else p)
      in syscall_num (next_dup2 L oldfd newfd) p1)"

subsection \<open>Identities\<close>

text \<open>The cached identities and the environment of a process, in the two families.\<close>

definition on_uids :: "(ids \<Rightarrow> env \<Rightarrow> int \<times> ids \<times> env) \<Rightarrow> 'w fproc \<Rightarrow> int \<times> 'w fproc" where
  "on_uids f p = (let (r, v, e) = f (uids p) (environ p) in (r, p\<lparr>uids := v, environ := e\<rparr>))"

definition on_gids :: "(ids \<Rightarrow> env \<Rightarrow> int \<times> ids \<times> env) \<Rightarrow> 'w fproc \<Rightarrow> int \<times> 'w fproc" where
  "on_gids f p = (let (r, v, e) = f (gids p) (environ p) in (r, p\<lparr>gids := v, environ := e\<rparr>))"

definition ask_uids :: "(ids \<Rightarrow> env \<Rightarrow> 32 word \<times> ids) \<Rightarrow> 'w fproc \<Rightarrow> 32 word \<times> 'w fproc" where
  "ask_uids f p = (let (i, v) = f (uids p) (environ p) in (i, p\<lparr>uids := v\<rparr>))"

definition ask_gids :: "(ids \<Rightarrow> env \<Rightarrow> 32 word \<times> ids) \<Rightarrow> 'w fproc \<Rightarrow> 32 word \<times> 'w fproc" where
  "ask_gids f p = (let (i, v) = f (gids p) (environ p) in (i, p\<lparr>gids := v\<rparr>))"

definition getuid :: "'w id_calls \<Rightarrow> 'w fproc \<Rightarrow> 32 word \<times> 'w fproc" where
  "getuid C p =
     (if fakeroot_disabled p \<noteq> 0 then (next_getuid C (world p), p) else ask_uids get_faked_uid p)"

definition geteuid :: "'w id_calls \<Rightarrow> 'w fproc \<Rightarrow> 32 word \<times> 'w fproc" where
  "geteuid C p =
     (if fakeroot_disabled p \<noteq> 0 then (next_geteuid C (world p), p) else ask_uids get_faked_euid p)"

definition getresuid :: "'w id_calls \<Rightarrow> 'w fproc \<Rightarrow> int \<times> (32 word \<times> 32 word \<times> 32 word) option \<times> 'w fproc" where
  "getresuid C p =
     (if fakeroot_disabled p \<noteq> 0 then
        (case next_getresuid C (world p) of
           Inl e \<Rightarrow> (- 1, None, p\<lparr>errno := e\<rparr>)
         | Inr t \<Rightarrow> (0, Some t, p))
      else
        (let (r, p1) = ask_uids get_faked_uid p;
             (e, p2) = ask_uids get_faked_euid p1;
             (s, p3) = ask_uids get_faked_suid p2
         in (0, Some (r, e, s), p3)))"

definition getgid :: "'w id_calls \<Rightarrow> 'w fproc \<Rightarrow> 32 word \<times> 'w fproc" where
  "getgid C p =
     (if fakeroot_disabled p \<noteq> 0 then (next_getgid C (world p), p) else ask_gids get_faked_gid p)"

definition getegid :: "'w id_calls \<Rightarrow> 'w fproc \<Rightarrow> 32 word \<times> 'w fproc" where
  "getegid C p =
     (if fakeroot_disabled p \<noteq> 0 then (next_getegid C (world p), p) else ask_gids get_faked_egid p)"

definition getresgid :: "'w id_calls \<Rightarrow> 'w fproc \<Rightarrow> int \<times> (32 word \<times> 32 word \<times> 32 word) option \<times> 'w fproc" where
  "getresgid C p =
     (if fakeroot_disabled p \<noteq> 0 then
        (case next_getresgid C (world p) of
           Inl e \<Rightarrow> (- 1, None, p\<lparr>errno := e\<rparr>)
         | Inr t \<Rightarrow> (0, Some t, p))
      else
        (let (r, p1) = ask_gids get_faked_gid p;
             (e, p2) = ask_gids get_faked_egid p1;
             (s, p3) = ask_gids get_faked_sgid p2
         in (0, Some (r, e, s), p3)))"

definition setuid :: "'w id_calls \<Rightarrow> room \<Rightarrow> 32 word \<Rightarrow> 'w fproc \<Rightarrow> int \<times> 'w fproc" where
  "setuid C room i p =
     (if fakeroot_disabled p \<noteq> 0 then syscall (next_setuid C i) p
      else on_uids (set_faked_uid room i) p)"

definition setgid :: "'w id_calls \<Rightarrow> room \<Rightarrow> 32 word \<Rightarrow> 'w fproc \<Rightarrow> int \<times> 'w fproc" where
  "setgid C room i p =
     (if fakeroot_disabled p \<noteq> 0 then syscall (next_setgid C i) p
      else on_gids (set_faked_gid room i) p)"

definition seteuid :: "'w id_calls \<Rightarrow> room \<Rightarrow> 32 word \<Rightarrow> 'w fproc \<Rightarrow> int \<times> 'w fproc" where
  "seteuid C room i p =
     (if fakeroot_disabled p \<noteq> 0 then syscall (next_seteuid C i) p
      else on_uids (set_faked_euid room i) p)"

definition setegid :: "'w id_calls \<Rightarrow> room \<Rightarrow> 32 word \<Rightarrow> 'w fproc \<Rightarrow> int \<times> 'w fproc" where
  "setegid C room i p =
     (if fakeroot_disabled p \<noteq> 0 then syscall (next_setegid C i) p
      else on_gids (set_faked_egid room i) p)"

definition setreuid :: "'w id_calls \<Rightarrow> room \<Rightarrow> 32 word \<Rightarrow> 32 word \<Rightarrow> 'w fproc \<Rightarrow> int \<times> 'w fproc" where
  "setreuid C room r e p =
     (if fakeroot_disabled p \<noteq> 0 then syscall (next_setreuid C r e) p
      else on_uids (set_faked_reuid room r e) p)"

definition setregid :: "'w id_calls \<Rightarrow> room \<Rightarrow> 32 word \<Rightarrow> 32 word \<Rightarrow> 'w fproc \<Rightarrow> int \<times> 'w fproc" where
  "setregid C room r e p =
     (if fakeroot_disabled p \<noteq> 0 then syscall (next_setregid C r e) p
      else on_gids (set_faked_regid room r e) p)"

definition setresuid :: "'w id_calls \<Rightarrow> room \<Rightarrow> 32 word \<Rightarrow> 32 word \<Rightarrow> 32 word \<Rightarrow> 'w fproc \<Rightarrow> int \<times> 'w fproc" where
  "setresuid C room r e s p =
     (if fakeroot_disabled p \<noteq> 0 then syscall (next_setresuid C r e s) p
      else on_uids (set_faked_resuid room r e s) p)"

definition setresgid :: "'w id_calls \<Rightarrow> room \<Rightarrow> 32 word \<Rightarrow> 32 word \<Rightarrow> 32 word \<Rightarrow> 'w fproc \<Rightarrow> int \<times> 'w fproc" where
  "setresgid C room r e s p =
     (if fakeroot_disabled p \<noteq> 0 then syscall (next_setresgid C r e s) p
      else on_gids (set_faked_resgid room r e s) p)"

definition setfsuid :: "'w id_calls \<Rightarrow> 32 word \<Rightarrow> 'w fproc \<Rightarrow> 32 word \<times> 'w fproc" where
  "setfsuid C i p =
     (if fakeroot_disabled p \<noteq> 0 then (let (prev, w) = next_setfsuid C i (world p) in (prev, p\<lparr>world := w\<rparr>))
      else ask_uids (set_faked_fsuid i) p)"

definition setfsgid :: "'w id_calls \<Rightarrow> 32 word \<Rightarrow> 'w fproc \<Rightarrow> 32 word \<times> 'w fproc" where
  "setfsgid C i p =
     (if fakeroot_disabled p \<noteq> 0 then (let (prev, w) = next_setfsgid C i (world p) in (prev, p\<lparr>world := w\<rparr>))
      else ask_gids (set_faked_fsgid i) p)"

definition initgroups :: "'w id_calls \<Rightarrow> string \<Rightarrow> 32 word \<Rightarrow> 'w fproc \<Rightarrow> int \<times> 'w fproc" where
  "initgroups C user grp p =
     (if fakeroot_disabled p \<noteq> 0 then syscall (next_initgroups C user grp) p else (0, p))"

definition setgroups :: "'w id_calls \<Rightarrow> 32 word list \<Rightarrow> 'w fproc \<Rightarrow> int \<times> 'w fproc" where
  "setgroups C list p =
     (if fakeroot_disabled p \<noteq> 0 then syscall (next_setgroups C list) p else (0, p))"

definition fakeroot_disable :: "int \<Rightarrow> 'w fproc \<Rightarrow> int \<times> 'w fproc" where
  "fakeroot_disable new p =
     (fakeroot_disabled p, p\<lparr>fakeroot_disabled := (if new \<noteq> 0 then 1 else 0)\<rparr>)"

definition fakeroot_isdisabled :: "'w fproc \<Rightarrow> int" where
  "fakeroot_isdisabled p = fakeroot_disabled p"

subsection \<open>Access control lists and file trees\<close>

definition acl_set_fd :: "int \<Rightarrow> 'w fproc \<Rightarrow> int \<times> 'w fproc" where
  "acl_set_fd fd p = (- 1, p\<lparr>errno := ENOTSUP\<rparr>)"

definition acl_set_file :: "string \<Rightarrow> 'w fproc \<Rightarrow> int \<times> 'w fproc" where
  "acl_set_file path p = (- 1, p\<lparr>errno := ENOTSUP\<rparr>)"

text \<open>The attributes of an entry of the tree, if it has any, are replaced by those of the daemon.\<close>

definition fake_entry :: "'w libc \<Rightarrow> ftsent \<Rightarrow> 'w fproc \<Rightarrow> (ftsent \<times> 'w fproc) option" where
  "fake_entry L r p =
     (case fts_statp r of
        None \<Rightarrow> Some (r, p)
      | Some st \<Rightarrow> map_option (\<lambda>(st', p'). (r\<lparr>fts_statp := Some st'\<rparr>, p')) (send_get L st p))"

definition fts_read :: "'w libc \<Rightarrow> int \<Rightarrow> 'w fproc \<Rightarrow> (ftsent option \<times> 'w fproc) option" where
  "fts_read L ftsp p =
     (let (r, w) = next_fts_read L ftsp (world p); p1 = p\<lparr>world := w\<rparr> in
      case r of
        None \<Rightarrow> Some (None, p1)
      | Some ent \<Rightarrow> map_option (\<lambda>(ent', p2). (Some ent', p2)) (fake_entry L ent p1))"

fun fake_entries :: "'w libc \<Rightarrow> ftsent list \<Rightarrow> 'w fproc \<Rightarrow> (ftsent list \<times> 'w fproc) option" where
  "fake_entries L [] p = Some ([], p)"
| "fake_entries L (r # rs) p =
     Option.bind (fake_entry L r p) (\<lambda>(r', p1).
       map_option (\<lambda>(rs', p2). (r' # rs', p2)) (fake_entries L rs p1))"

definition fts_children :: "'w libc \<Rightarrow> int \<Rightarrow> int \<Rightarrow> 'w fproc \<Rightarrow> (ftsent list \<times> 'w fproc) option" where
  "fts_children L ftsp options p =
     (let (first, w) = next_fts_children L ftsp options (world p) in fake_entries L first (p\<lparr>world := w\<rparr>))"

end
