(* ===== verification/LibProps.thy ===== *)
theory LibProps
  imports LibFakeroot
begin

text \<open>
  A process under fakeroot and the daemon together: what the functions that report the attributes
  of a file show after one of those that change them, which requests a failing call sends, and
  the inheritance of the identities.
\<close>

subsection \<open>Frames\<close>

lemma syscall_frame [simp]:
  "conn (snd (syscall f p)) = conn p" "queues (snd (syscall f p)) = queues p"
  "environ (snd (syscall f p)) = environ p" "world (snd (syscall f p)) = snd (f (world p))"
  "fst (syscall f p) = (if fst (f (world p)) = None then 0 else - 1)"
  by (auto simp: syscall_def split: option.split prod.split)

lemma syscall_num_frame [simp]:
  "conn (snd (syscall_num f p)) = conn p" "queues (snd (syscall_num f p)) = queues p"
  "environ (snd (syscall_num f p)) = environ p"
  by (auto simp: syscall_num_def split: sum.split prod.split)

lemma syscall_frameD:
  "syscall f p = (r, p') \<Longrightarrow> conn p' = conn p \<and> queues p' = queues p \<and> environ p' = environ p \<and> world p' = snd (f (world p))"
  using syscall_frame[of f p] by simp

lemma syscall_num_frameD:
  "syscall_num f p = (r, p') \<Longrightarrow> conn p' = conn p \<and> queues p' = queues p \<and> environ p' = environ p"
  using syscall_num_frame[of f p] by simp

lemma dont_try_chown_frame:
  "dont_try_chown p = (b, p') \<Longrightarrow> conn p' = conn p \<and> queues p' = queues p \<and> world p' = world p \<and> environ p' = environ p"
  by (auto simp: dont_try_chown_def Let_def split: if_splits)

text \<open>The mask of the process.\<close>

abbreviation mask_of :: "'w libc \<Rightarrow> 'w fproc \<Rightarrow> 32 word" where
  "mask_of L p \<equiv> fst (next_umask L 0x12 (world p))"

lemma old_umask_frame:
  "old_umask L p = (m, p') \<Longrightarrow> conn p' = conn p \<and> queues p' = queues p \<and> environ p' = environ p \<and>
   m = mask_of L p"
  by (auto simp: old_umask_def Let_def split: prod.splits)

lemma int_send_frame [simp]: "world (int_send_stat L st f p) = world p" "environ (int_send_stat L st f p) = environ p"
  "chown_inited (int_send_stat L st f p) = chown_inited p"
  by (simp_all add: int_send_stat_def Let_def split: prod.split)

subsection \<open>A process and an idle daemon\<close>

definition idle :: "'w fproc \<Rightarrow> bool" where
  "idle p \<longleftrightarrow> connected (conn p) \<and> fresh_serial (conn p) (replies (queues p)) \<and> requests (queues p) = [] \<and>
     fd_sent (daemon (queues p)) = [] \<and> table_ok (fd_table (daemon (queues p))) \<and>
     \<not> fd_unknown_is_real (daemon (queues p))"

text \<open>What the daemon says of a file now.\<close>

definition fake_of :: "'w libc \<Rightarrow> cstat \<Rightarrow> 'w fproc \<Rightarrow> fakestat" where
  "fake_of L st p = reported (daemon (queues p)) (asked (stack_buf L) st (conn p))"

text \<open>The request that is sent, as the daemon sees it.\<close>

definition told :: "'w libc \<Rightarrow> cstat \<Rightarrow> 32 word \<Rightarrow> fake_msg" where
  "told L st f = (cpyfakemstat (stack_buf L) st)\<lparr>m_id := f, m_remote := 0\<rparr>"

lemma told_simps [simp]: "m_id (told L st f) = f" "m_remote (told L st f) = 0"
  "m_st (told L st f) = m_st (cpyfakemstat (stack_buf L) st)"
  by (simp_all add: told_def)

lemma get_idle:
  assumes "idle p"
  shows "\<exists>r p'. send_get L st p = Some (cpystatfakem st r, p') \<and> m_st r = fake_of L st p"
proof -
  have c: "connected (conn p)" "fresh_serial (conn p) (replies (queues p))" "fd_sent (daemon (queues p)) = []"
    "get_msg (daemon_buf L) (map Message (requests (queues p))) (daemon (queues p)) =
       Some (daemon_buf L, daemon (queues p))"
    using assms by (simp_all add: idle_def)
  from stat_after[OF c(1,2,4,3), of "environ p" "msgget L" "stack_buf L" st]
  show ?thesis by (auto simp: send_get_def fake_of_def)
qed

lemma get_after:
  assumes "idle p" "conn q = conn (int_send_stat L st f p)" "queues q = queues (int_send_stat L st f p)"
    and "process_msg (told L st f) (daemon (queues p)) = Some (b, d)" "fd_sent d = []"
  shows "\<exists>r q'. send_get L st2 q = Some (cpystatfakem st2 r, q') \<and> m_st r = reported d (asked (stack_buf L) st2 (conn p))"
proof -
  have c: "connected (conn p)" "fresh_serial (conn p) (replies (queues p))" "requests (queues p) = []"
    using assms(1) by (simp_all add: idle_def)
  have s: "conn q = conn p" "queues q = queues p\<lparr>requests := [(cpyfakemstat (stack_buf L) st)\<lparr>m_id := f\<rparr>]\<rparr>"
    using assms(2,3) init_connected[OF c(1)] c(3)
    by (simp_all add: int_send_stat_def send_stat_def send_fakem_def)
  have run: "get_msg (daemon_buf L) (map Message (requests (queues q))) (daemon (queues q)) = Some (b, d)"
    using assms(4) by (simp add: s told_def)
  have "connected (conn q)" "fresh_serial (conn q) (replies (queues q))" using c s by simp_all
  from stat_after[OF this run assms(5), of "environ q" "msgget L" "stack_buf L" st2]
  show ?thesis by (auto simp: send_get_def s(1))
qed

text \<open>The same inode, as far as the daemon can tell.\<close>

definition same_inode :: "cstat \<Rightarrow> cstat \<Rightarrow> bool" where
  "same_inode a b \<longleftrightarrow> st_dev a = st_dev b \<and> st_ino a = st_ino b \<and> ftype (st_mode a) = ftype (st_mode b) \<and>
     (st_size a = 0 \<longleftrightarrow> st_size b = 0)"

lemma same_alike: "same_inode a b \<Longrightarrow> alike (m_st (cpyfakemstat m a)) (m_st (cpyfakemstat m b))"
  by (simp add: same_inode_def alike_def cpyfakemstat_def)

lemma chmod_msg: "m_id m = chmod_func \<Longrightarrow> \<exists>b. process_msg m s = Some (b, snd (process_chmod m s))"
  by (cases "process_chmod m s") (simp add: process_msg_def)

lemma mknod_msg: "m_id m = mknod_func \<Longrightarrow> \<exists>b. process_msg m s = Some (b, snd (process_mknod m s))"
  by (cases "process_mknod m s") (simp add: process_msg_def)

lemma chmod_sent: "fd_sent (snd (process_chmod m s)) = fd_sent s" "fd_sent (snd (process_mknod m s)) = fd_sent s"
  by (simp_all add: process_chmod_def process_mknod_def Let_def split: option.split)

lemma unlink_sent: "process_unlink m s = Some (b, s') \<Longrightarrow> fd_sent s' = fd_sent s"
  by (auto simp: process_unlink_def Let_def split: if_splits option.splits)

subsection \<open>An example\<close>

text \<open>
  A world with at most one file, which every path and descriptor means; the system refuses to
  change its owner as it is on a read-only file system.
\<close>

definition ex_stat_of :: "cstat option \<Rightarrow> int + cstat" where
  "ex_stat_of w = (case w of None \<Rightarrow> Inl 2 | Some st \<Rightarrow> Inr st)"

definition EROFS :: int where "EROFS = 30"

definition ex_file :: cstat where
  "ex_file = ex_cstat\<lparr>st_size := 0\<rparr>"

definition ex_libc :: "cstat option libc" where
  "ex_libc = \<lparr>next_stat = \<lambda>_. ex_stat_of, next_lstat = \<lambda>_. ex_stat_of, next_fstat = \<lambda>_. ex_stat_of,
     next_fstatat = \<lambda>_ _ _. ex_stat_of, next_stat64 = \<lambda>_. ex_stat_of, next_lstat64 = \<lambda>_. ex_stat_of,
     next_fstat64 = \<lambda>_. ex_stat_of, next_fstatat64 = \<lambda>_ _ _. ex_stat_of,
     next_lchown = \<lambda>_ _ _ w. (Some EROFS, w), next_fchown = \<lambda>_ _ _ w. (Some EROFS, w),
     next_fchownat = \<lambda>_ _ _ _ _ w. (Some EROFS, w),
     next_chmod = \<lambda>_ m. Pair None \<circ> map_option (\<lambda>st. st\<lparr>st_mode := new_mode m (st_mode st)\<rparr>),
     next_fchmod = \<lambda>_ m. Pair None \<circ> map_option (\<lambda>st. st\<lparr>st_mode := new_mode m (st_mode st)\<rparr>),
     next_fchmodat = \<lambda>_ _ m _. Pair None \<circ> map_option (\<lambda>st. st\<lparr>st_mode := new_mode m (st_mode st)\<rparr>),
     next_umask = \<lambda>_ w. (0x12, w), next_open = \<lambda>_ _ _ _. (Inr 3, Some ex_file),
     next_openat = \<lambda>_ _ _ _ _. (Inr 3, Some ex_file), next_mkdir = \<lambda>_ _ w. (Some EROFS, w),
     next_mkdirat = \<lambda>_ _ _ w. (Some EROFS, w), next_unlink = \<lambda>_ _. (None, None),
     next_unlinkat = \<lambda>_ _ _ _. (None, None), next_rmdir = \<lambda>_ w. (Some 20, w), next_remove = \<lambda>_ _. (None, None),
     next_rename = \<lambda>_ _ w. (None, w), next_renameat = \<lambda>_ _ _ _ w. (None, w), next_close = \<lambda>_ w. (None, w),
     next_dup = \<lambda>_ w. (Inr 5, w), next_dup2 = \<lambda>_ n w. (Inr n, w), next_fork = \<lambda>w. (Inr 0, w),
     next_fts_read = \<lambda>_ w. (None, w), next_fts_children = \<lambda>_ _ w. ([], w), msgget = \<lambda>k. k,
     daemon_buf = ex_msg 0 ex_stat, stack_buf = ex_msg 0 ex_stat\<rparr>"

definition ex_proc :: "faked \<Rightarrow> cstat option fproc" where
  "ex_proc d = \<lparr>world = Some ex_file, environ = Map.empty, errno = 0,
     conn = \<lparr>c_pid = 42, c_serial = 0, c_key = 9, c_msg_snd = 9, c_msg_get = 10, c_done = True\<rparr>,
     queues = \<lparr>requests = [], replies = [], daemon = d\<rparr>, comm_sd = - 1, uids = unread_ids, gids = unread_ids,
     fakeroot_disabled = 0, chown_inited = False, chown_donttry = False\<rparr>"

lemma ex_proc_simps [simp]:
  "world (ex_proc d) = Some ex_file" "environ (ex_proc d) = Map.empty" "daemon (queues (ex_proc d)) = d"
  "connected (conn (ex_proc d))" "chown_inited (ex_proc d) = False"
  by (simp_all add: ex_proc_def connected_def)

lemma ex_libc_simps [simp]:
  "next_stat ex_libc path = ex_stat_of" "next_lstat ex_libc path = ex_stat_of"
  "next_stat64 ex_libc path = ex_stat_of" "next_lstat64 ex_libc path = ex_stat_of"
  "next_lchown ex_libc path u g w = (Some EROFS, w)" "next_umask ex_libc m w = (0x12, w)"
  "next_chmod ex_libc path mode w = (None, map_option (\<lambda>st. st\<lparr>st_mode := new_mode mode (st_mode st)\<rparr>) w)"
  "next_open ex_libc path fl mode w = (Inr 3, Some ex_file)" "next_close ex_libc fd w = (None, w)"
  "next_unlink ex_libc path w = (None, None)" "next_rename ex_libc path path' w = (None, w)"
  by (simp_all add: ex_libc_def)

lemma ex_idle: "table_ok (fd_table d) \<Longrightarrow> \<not> fd_unknown_is_real d \<Longrightarrow> fd_sent d = [] \<Longrightarrow> idle (ex_proc d)"
  by (simp add: idle_def ex_proc_def connected_def fresh_serial_def)

lemma ex_known_sent: "fd_sent ex_known = []"
  by (simp add: ex_known_def chown_sent)

lemma ex_file_simps [simp]: "st_nlink ex_file = 1" "st_mode ex_file = 0x81A4" "st_size ex_file = 0"
  "ftype (st_mode ex_file) = S_IFREG" "ftype 0x81A4 = S_IFREG" "st_ino ex_file = 7" "st_dev ex_file = 1"
  "ex_stat_of (Some st) = Inr st"
  by (simp_all add: ex_file_def ex_cstat_def ftype_def S_IFMT_def S_IFREG_def ex_stat_of_def)

subsection \<open>Owners\<close>

lemma chown_effect:
  assumes "next_stat64 L path (world p) = Inr st" "chown L path u g p = (ret, p1)"
  shows "conn p1 = conn (int_send_stat L (st\<lparr>st_uid := u, st_gid := g\<rparr>) chown_func p)"
    "queues p1 = queues (int_send_stat L (st\<lparr>st_uid := u, st_gid := g\<rparr>) chown_func p)"
  using assms
  by (auto simp: chown_def Let_def split: prod.splits if_splits dest!: dont_try_chown_frame syscall_frameD)



subsection \<open>Permissions\<close>

lemma chmod_effect:
  assumes "next_stat64 L path (world p) = Inr st" "chmod L path mode p = (ret, p1)"
  shows "conn p1 = conn (int_send_stat L (st\<lparr>st_mode := new_mode mode (st_mode st)\<rparr>) chmod_func p)"
    "queues p1 = queues (int_send_stat L (st\<lparr>st_mode := new_mode mode (st_mode st)\<rparr>) chmod_func p)"
  using assms by (auto simp: chmod_def Let_def split: prod.splits if_splits dest!: syscall_frameD)

lemma mode_masks:
  "((m AND NOT S_IFMT) OR ftype k) AND ALLPERMS = m AND ALLPERMS"
  "new_mode m k AND ALLPERMS = m AND ALLPERMS" "ftype (new_mode m k) = ftype k"
proof -
  have no: "bit ALLPERMS n \<Longrightarrow> bit S_IFMT n \<Longrightarrow> False" for n
  proof -
    have "ALLPERMS AND S_IFMT = 0" by (simp add: ALLPERMS_def S_IFMT_def)
    then have "\<not> bit (ALLPERMS AND S_IFMT) n" by simp
    then show "bit ALLPERMS n \<Longrightarrow> bit S_IFMT n \<Longrightarrow> False" by (simp add: bit_and_iff)
  qed
  then show "((m AND NOT S_IFMT) OR ftype k) AND ALLPERMS = m AND ALLPERMS"
    "new_mode m k AND ALLPERMS = m AND ALLPERMS" "ftype (new_mode m k) = ftype k"
    by (auto intro!: bit_word_eqI simp: bit_simps ftype_def new_mode_def dest: no)
qed

text \<open>
  After \<open>chmod\<close> the wrapped \<^verbatim>\<open>stat\<close> shows the permissions that were asked for, and the file
  type, owner and group it would have shown before; the system is asked for permissions that
  leave the owner the right to read and write, and to search a directory.
\<close>

theorem chmod_shown:
  assumes "idle p" "next_stat64 L path (world p) = Inr st" "chmod L path mode p = (ret, p1)"
    and "next_stat L path (world p1) = Inr st2" "same_inode st2 st"
  shows "(\<exists>st' p2. wrap_stat L path p1 = Some (0, Some st', p2) \<and>
    st_mode st' AND ALLPERMS = mode AND ALLPERMS \<and> ftype (st_mode st') = ftype (f_mode (fake_of L st2 p)) \<and>
    st_uid st' = f_uid (fake_of L st2 p) \<and> st_gid st' = f_gid (fake_of L st2 p)) \<and>
    (\<exists>m. world p1 = snd (next_chmod L path m (world p)) \<and> m AND 0x180 = 0x180 \<and>
      (S_ISDIR (st_mode st) \<longrightarrow> m AND 0x1C0 = 0x1C0))"
proof
  let ?st = "st\<lparr>st_mode := new_mode mode (st_mode st)\<rparr>"
  let ?m = "told L ?st chmod_func" and ?q = "asked (stack_buf L) st2 (conn p)"
  let ?d = "snd (process_chmod ?m (daemon (queues p)))"
  have d: "table_ok (fd_table (daemon (queues p)))" "\<not> fd_unknown_is_real (daemon (queues p))" "fd_sent ?d = []"
    using assms(1) by (simp_all add: idle_def chmod_sent)
  have "same_inode st2 ?st" using assms(5) by (simp add: same_inode_def mode_masks)
  then have al: "alike (m_st ?q) (m_st ?m)" by (simp add: same_alike)
  obtain b where run: "process_msg ?m (daemon (queues p)) = Some (b, ?d)" using chmod_msg by fastforce
  obtain r p2 where r: "send_get L st2 p1 = Some (cpystatfakem st2 r, p2)" "m_st r = reported ?d ?q"
    using get_after[OF assms(1) chmod_effect[OF assms(2,3)] run d(3)] by blast
  have "wrap_stat L path p1 = Some (0, Some (cpystatfakem st2 r), p2)" using assms(4) r(1) by (simp add: wrap_stat_def)
  then show "\<exists>st' p2. wrap_stat L path p1 = Some (0, Some st', p2) \<and>
    st_mode st' AND ALLPERMS = mode AND ALLPERMS \<and> ftype (st_mode st') = ftype (f_mode (fake_of L st2 p)) \<and>
    st_uid st' = f_uid (fake_of L st2 p) \<and> st_gid st' = f_gid (fake_of L st2 p)"
    using chmod_reported[OF d(1,2) al] r(2) by (simp add: cpystatfakem_def cpyfakemstat_def fake_of_def mode_masks)
next
  let ?m = "real_mode mode (new_mode mode (st_mode st))"
  have "ftype (new_mode mode (st_mode st)) = ftype (st_mode st)" by (rule mode_masks)
  then have dir: "S_ISDIR (new_mode mode (st_mode st)) = S_ISDIR (st_mode st)" by (simp add: S_ISDIR_def ftype_def)
  have sub: "(a OR b) AND b = b" "((a OR b) OR c) AND b = b" for a b c :: "32 word"
    by (auto intro!: bit_word_eqI simp: bit_simps)
  have or: "(mode OR 0x180) OR 0x40 = mode OR 0x1C0" by (simp add: or.assoc)
  have "world p1 = snd (next_chmod L path ?m (world p))"
    using assms(2,3) by (auto simp: chmod_def Let_def split: prod.splits if_splits dest!: syscall_frameD)
  moreover have "?m AND 0x180 = 0x180" by (simp add: real_mode_def Let_def sub)
  moreover have "S_ISDIR (st_mode st) \<longrightarrow> ?m AND 0x1C0 = 0x1C0" by (simp add: real_mode_def Let_def dir or sub)
  ultimately show "\<exists>m. world p1 = snd (next_chmod L path m (world p)) \<and> m AND 0x180 = 0x180 \<and>
      (S_ISDIR (st_mode st) \<longrightarrow> m AND 0x1C0 = 0x1C0)" by blast
qed

lemma chmod_shown_witness:
  "\<exists>p1 st' p2. chmod ex_libc ''f'' 0x124 (ex_proc ex_daemon) = (0, p1) \<and>
     wrap_stat ex_libc ''f'' p1 = Some (0, Some st', p2) \<and> st_mode st' AND ALLPERMS = 0x124"
proof -
  let ?st = "ex_file\<lparr>st_mode := new_mode (real_mode 0x124 (new_mode 0x124 0x81A4)) 0x81A4\<rparr>"
  obtain p1 where c: "chmod ex_libc ''f'' 0x124 (ex_proc ex_daemon) = (0, p1)" and w: "world p1 = Some ?st"
    by (simp add: chmod_def syscall_def Let_def)
  have "next_stat64 ex_libc ''f'' (world (ex_proc ex_daemon)) = Inr ex_file" "next_stat ex_libc ''f'' (world p1) = Inr ?st"
    by (simp_all add: w)
  from chmod_shown[OF ex_idle this(1) c this(2)] c show ?thesis
    by (auto simp: same_inode_def mode_masks ALLPERMS_def)
qed

subsection \<open>Device nodes\<close>

lemma int_send_cong:
  "conn p = conn q \<Longrightarrow> queues p = queues q \<Longrightarrow> environ p = environ q \<Longrightarrow>
   conn (int_send_stat L st f p) = conn (int_send_stat L st f q) \<and>
   queues (int_send_stat L st f p) = queues (int_send_stat L st f q)"
  by (simp add: int_send_stat_def Let_def split: prod.split)

lemma mknod_effect:
  assumes "mknod L path mode dev p = (0, p1)"
  shows "\<exists>st. next_lstat64 L path (world p1) = Inr st \<and>
    (let st' = st\<lparr>st_mode := mode AND NOT (mask_of L p), st_rdev := dev\<rparr> in
     conn p1 = conn (int_send_stat L st' mknod_func p) \<and> queues p1 = queues (int_send_stat L st' mknod_func p))"
proof -
  obtain mask p0 where 0: "old_umask L p = (mask, p0)" by fastforce
  obtain fd p2 where 2: "syscall_num (next_open L path CREAT_TRUNC 0x1A4) p0 = (fd, p2)" by fastforce
  obtain r p3 where 3: "syscall (next_close L fd) p2 = (r, p3)" by fastforce
  obtain st where st: "next_lstat64 L path (world p3) = Inr st"
    "p1 = int_send_stat L (st\<lparr>st_mode := mode AND NOT mask, st_rdev := dev\<rparr>) mknod_func p3"
    using assms by (auto simp: mknod_def 0 2 3 split: if_splits sum.splits)
  show ?thesis
    using st old_umask_frame[OF 0] syscall_num_frameD[OF 2] syscall_frameD[OF 3] int_send_cong[of p3 p]
    by (simp add: Let_def)
qed

text \<open>
  After \<open>mknod\<close> of a device the wrapped \<^verbatim>\<open>lstat\<close> shows a device with the mode that was asked
  for, less the mask of the process, and the device number, owned by root, although an empty
  regular file is on disk: as long as the daemon had no record of the inode.
\<close>

theorem mknod_shown:
  assumes "idle p" "mknod L path mode dev p = (0, p1)" "next_lstat L path (world p1) = next_lstat64 L path (world p1)"
    and "next_lstat L path (world p1) = Inr st2" "ftype (st_mode st2) = S_IFREG" "st_size st2 = 0"
    and "ftype (mode AND NOT (mask_of L p)) \<in> {S_IFCHR, S_IFBLK}"
    and "\<forall>n\<in>set (fd_table (daemon (queues p)) (data_hash_val (m_st (cpyfakemstat (stack_buf L) st2)))).
      dn_remote n = 0 \<and> f_ino (dn_buf n) = st_ino st2 \<longrightarrow> f_dev (dn_buf n) \<noteq> st_dev st2"
  shows "\<exists>st' p2. wrap_lstat L path p1 = Some (0, Some st', p2) \<and> st_rdev st' = dev \<and>
    st_mode st' = mode AND NOT (mask_of L p) \<and> st_uid st' = 0 \<and> st_gid st' = 0"
proof -
  let ?st = "st2\<lparr>st_mode := mode AND NOT (mask_of L p), st_rdev := dev\<rparr>"
  let ?m = "told L ?st mknod_func" and ?q = "asked (stack_buf L) st2 (conn p)"
  let ?d = "snd (process_mknod ?m (daemon (queues p)))"
  have e: "conn p1 = conn (int_send_stat L ?st mknod_func p)" "queues p1 = queues (int_send_stat L ?st mknod_func p)"
    using mknod_effect[OF assms(2)] assms(3,4) by (auto simp: Let_def)
  have d: "table_ok (fd_table (daemon (queues p)))" "\<not> fd_unknown_is_real (daemon (queues p))" "fd_sent ?d = []"
    using assms(1) by (simp_all add: idle_def chmod_sent)
  obtain b where run: "process_msg ?m (daemon (queues p)) = Some (b, ?d)" using mknod_msg by fastforce
  obtain r p2 where r: "send_get L st2 p1 = Some (cpystatfakem st2 r, p2)" "m_st r = reported ?d ?q"
    using get_after[OF assms(1) e run d(3)] by blast
  have "wrap_lstat L path p1 = Some (0, Some (cpystatfakem st2 r), p2)" using assms(4) r(1) by (simp add: wrap_lstat_def)
  moreover have "f_mode (reported ?d ?q) = f_mode (m_st ?m) \<and> f_rdev (reported ?d ?q) = f_rdev (m_st ?m) \<and>
      f_uid (reported ?d ?q) = 0 \<and> f_gid (reported ?d ?q) = 0"
    by (rule mknod_reported[OF d(1,2)])
      (use assms(5-8) in \<open>auto simp: cpyfakemstat_def data_hash_val_def\<close>)
  ultimately show ?thesis using r(2) by (simp add: cpystatfakem_def cpyfakemstat_def)
qed

lemma mknod_shown_witness:
  "\<exists>p1 st' p2. mknod ex_libc ''sda'' 0x61B6 0x800 (ex_proc ex_daemon) = (0, p1) \<and>
     wrap_lstat ex_libc ''sda'' p1 = Some (0, Some st', p2) \<and> st_rdev st' = 0x800 \<and> st_mode st' = 0x61A4"
proof -
  obtain p1 where c: "mknod ex_libc ''sda'' 0x61B6 0x800 (ex_proc ex_daemon) = (0, p1)" and w: "world p1 = Some ex_file"
    by (simp add: mknod_def old_umask_def syscall_def syscall_num_def Let_def)
  have l: "next_lstat ex_libc ''sda'' (world p1) = next_lstat64 ex_libc ''sda'' (world p1)"
    "next_lstat ex_libc ''sda'' (world p1) = Inr ex_file"
    by (simp_all add: w)
  have m: "mask_of ex_libc (ex_proc ex_daemon) = 0x12" by simp
  have "ftype (0x61B6 AND NOT (mask_of ex_libc (ex_proc ex_daemon))) \<in> {S_IFCHR, S_IFBLK}"
    by (simp add: m ftype_def S_IFMT_def S_IFBLK_def)
  from mknod_shown[OF ex_idle c l _ _ this] c show ?thesis by (auto simp: m)
qed

subsection \<open>Removal\<close>

text \<open>The record the daemon has of a file is the only one for its inode.\<close>

definition sole_record :: "data_table \<Rightarrow> fakestat \<Rightarrow> bool" where
  "sole_record t k \<longleftrightarrow>
     (case data_find k 0 t of
        None \<Rightarrow> False
      | Some (h, i) \<Rightarrow> (\<forall>n\<in>set (take i (t h) @ drop (Suc i) (t h)).
          dn_remote n = 0 \<and> f_ino (dn_buf n) = f_ino k \<longrightarrow> f_dev (dn_buf n) \<noteq> f_dev k))"

lemma ex_sole: "sole_record (fd_table ex_known) (m_st (cpyfakemstat (stack_buf ex_libc) ex_file))"
proof -
  let ?k = "m_st (cpyfakemstat (stack_buf ex_libc) ex_file)"
  have "alike ?k ex_stat" by (simp add: alike_def cpyfakemstat_def)
  then have "data_find ?k 0 (fd_table ex_known) = Some (8335, 0)" using alike_find ex_known_ok(3) by simp
  then show ?thesis by (simp add: sole_record_def ex_known_table)
qed

lemma get_after_unlink:
  assumes "idle p" "conn q = conn (int_send_stat L st unlink_func p)" "queues q = queues (int_send_stat L st unlink_func p)"
    and "st_nlink st = 1" "sole_record (fd_table (daemon (queues p))) (m_st (cpyfakemstat (stack_buf L) st))"
    and "st_dev st2 = st_dev st" "st_ino st2 = st_ino st"
  shows "\<exists>q'. send_get L st2 q = Some (st2\<lparr>st_uid := 0, st_gid := 0\<rparr>, q')"
proof -
  let ?m = "told L st unlink_func" and ?q = "asked (stack_buf L) st2 (conn p)" and ?d0 = "daemon (queues p)"
  obtain h i where f: "data_find (m_st ?m) (m_remote ?m) (fd_table ?d0) = Some (h, i)"
    and sole: "\<forall>n\<in>set (take i (fd_table ?d0 h) @ drop (Suc i) (fd_table ?d0 h)).
      dn_remote n = 0 \<and> f_ino (dn_buf n) = f_ino (m_st ?m) \<longrightarrow> f_dev (dn_buf n) \<noteq> f_dev (m_st ?m)"
    using assms(5) by (auto simp: sole_record_def split: option.splits)
  have d: "table_ok (fd_table ?d0)" "\<not> fd_unknown_is_real ?d0" "fd_sent ?d0 = []"
    using assms(1) by (simp_all add: idle_def)
  have "\<exists>s'. process_unlink ?m ?d0 = Some (?m, s') \<and> reported s' ?q = (m_st ?q)\<lparr>f_uid := 0, f_gid := 0\<rparr>"
    by (rule unlink_reported[OF d(1,2) _ f]) (use assms(4,6,7) sole in \<open>auto simp: cpyfakemstat_def\<close>)
  then obtain s' where s': "process_unlink ?m ?d0 = Some (?m, s')" "reported s' ?q = (m_st ?q)\<lparr>f_uid := 0, f_gid := 0\<rparr>"
    by blast
  have run: "process_msg ?m ?d0 = Some (?m, s')" using s'(1) by (simp add: process_msg_def)
  have "fd_sent s' = []" using unlink_sent[OF s'(1)] d(3) by simp
  from get_after[OF assms(1-3) run this]
  obtain r q' where r: "send_get L st2 q = Some (cpystatfakem st2 r, q')" "m_st r = reported s' ?q" by blast
  have "cpystatfakem st2 r = st2\<lparr>st_uid := 0, st_gid := 0\<rparr>"
    using r(2) s'(2) by (simp add: cpystatfakem_def cpyfakemstat_def)
  with r(1) show ?thesis by simp
qed

lemma removal_effect:
  assumes "next_lstat64 L path (world p) = Inr st" "unlink L path p = (0, p1)"
  shows "conn p1 = conn (int_send_stat L st unlink_func p)" "queues p1 = queues (int_send_stat L st unlink_func p)"
proof -
  obtain r p2 where 1: "syscall (next_unlink L path) p = (r, p2)" by fastforce
  then have "p1 = int_send_stat L st unlink_func p2" using assms by (auto simp: unlink_def split: if_splits)
  then show "conn p1 = conn (int_send_stat L st unlink_func p)" "queues p1 = queues (int_send_stat L st unlink_func p)"
    using syscall_frameD[OF 1] int_send_cong[of p2 p] by simp_all
qed



text \<open>
  Renaming a file to its own name, which does nothing, makes the daemon forget the file: it
  is shown as owned by root, with the mode it has on disk.
\<close>

theorem rename_same_forgets:
  assumes "idle p" "next_lstat64 L path (world p) = Inr st" "next_rename L path path (world p) = (None, world p)"
    and "st_nlink st = 1" "sole_record (fd_table (daemon (queues p))) (m_st (cpyfakemstat (stack_buf L) st))"
    and "next_lstat L path (world p) = Inr st2" "st_dev st2 = st_dev st" "st_ino st2 = st_ino st"
  shows "\<exists>p1 p2. rename L path path p = (0, p1) \<and>
    wrap_lstat L path p1 = Some (0, Some (st2\<lparr>st_uid := 0, st_gid := 0\<rparr>), p2)"
proof -
  let ?p1 = "int_send_stat L st unlink_func p"
  have "syscall (next_rename L path path) p = (0, p)" using assms(3) by (simp add: syscall_def)
  then have "rename L path path p = (0, ?p1)" using assms(2) by (simp add: rename_def)
  with get_after_unlink[OF assms(1) refl refl assms(4,5,7,8)] show ?thesis
    using assms(6) by (auto simp: wrap_lstat_def)
qed

lemma rename_same_forgets_witness:
  "\<exists>p1 p2. rename ex_libc ''f'' ''f'' (ex_proc ex_known) = (0, p1) \<and>
     wrap_lstat ex_libc ''f'' p1 = Some (0, Some (ex_file\<lparr>st_uid := 0, st_gid := 0\<rparr>), p2)"
proof -
  have "next_lstat64 ex_libc ''f'' (world (ex_proc ex_known)) = Inr ex_file"
    "next_rename ex_libc ''f'' ''f'' (world (ex_proc ex_known)) = (None, world (ex_proc ex_known))"
    "next_lstat ex_libc ''f'' (world (ex_proc ex_known)) = Inr ex_file"
    by simp_all
  from rename_same_forgets[OF ex_idle this(1,2) _ _ this(3)] show ?thesis
    by (simp add: ex_known_ok ex_known_sent ex_sole)
qed

subsection \<open>Requests of a call\<close>

text \<open>A call that fails tells the daemon nothing, one that succeeds sends one request.\<close>

definition tells_iff_ok :: "32 word \<Rightarrow> ('w fproc \<Rightarrow> int \<times> 'w fproc) \<Rightarrow> 'w fproc \<Rightarrow> bool" where
  "tells_iff_ok f call p \<longleftrightarrow>
     (let (r, p') = call p in
      if r = 0 then requests (queues p') \<noteq> [] \<and> butlast (requests (queues p')) = requests (queues p) \<and>
        m_id (last (requests (queues p'))) = f
      else r = - 1 \<and> queues p' = queues p)"

lemma tells_send:
  "connected (conn p) \<Longrightarrow> conn q = conn p \<Longrightarrow> queues q = queues p \<Longrightarrow>
   \<exists>m. requests (queues (int_send_stat L st f q)) = requests (queues p) @ [m] \<and> m_id m = f"
  using init_connected[of "conn p" "environ q" "msgget L"] by (simp add: int_send_stat_def send_stat_def send_fakem_def)

lemma tells_ok: "call p = (0, int_send_stat L st f q) \<Longrightarrow> connected (conn p) \<Longrightarrow> conn q = conn p \<Longrightarrow>
    queues q = queues p \<Longrightarrow> tells_iff_ok f call p"
  using tells_send[of p q L st f] by (auto simp: tells_iff_ok_def)

lemma tells_fail: "call p = (- 1, q) \<Longrightarrow> queues q = queues p \<Longrightarrow> tells_iff_ok f call p"
  by (simp add: tells_iff_ok_def)

text \<open>The two shapes of the functions: read the attributes and act, act and read the attributes.\<close>

lemma tells_removal:
  assumes "connected (conn p)"
  shows "tells_iff_ok f (\<lambda>p. case stat (world p) of Inl e \<Rightarrow> (- 1, p\<lparr>errno := e\<rparr>)
      | Inr st \<Rightarrow> let (r, p1) = syscall act p in if r \<noteq> 0 then (- 1, p1) else (0, int_send_stat L st f p1)) p"
proof (cases "stat (world p)")
  case (Inl e)
  then show ?thesis by (intro tells_fail[where q = "p\<lparr>errno := e\<rparr>"]) simp_all
next
  case (Inr st)
  obtain r p1 where 1: "syscall act p = (r, p1)" by fastforce
  note fr = syscall_frameD[OF 1]
  show ?thesis
  proof (cases "r = 0")
    case True
    show ?thesis by (rule tells_ok[where q = p1 and L = L and st = st]) (use Inr 1 True fr assms in simp_all)
  next
    case False
    show ?thesis by (rule tells_fail[where q = p1]) (use Inr 1 False fr in simp_all)
  qed
qed

lemma tells_mkdir:
  assumes "connected (conn p)"
  shows "tells_iff_ok f (\<lambda>p. let (m, p0) = old_umask L p; (r, p1) = syscall act p0 in
      if r \<noteq> 0 then (- 1, p1)
      else case stat (world p1) of Inl e \<Rightarrow> (- 1, p1\<lparr>errno := e\<rparr>) | Inr st \<Rightarrow> (0, int_send_stat L (g m st) f p1)) p"
proof -
  obtain m p0 where 0: "old_umask L p = (m, p0)" by fastforce
  obtain r p1 where 1: "syscall act p0 = (r, p1)" by fastforce
  note fr = old_umask_frame[OF 0] syscall_frameD[OF 1]
  show ?thesis
  proof (cases "r = 0 \<and> (\<exists>st. stat (world p1) = Inr st)")
    case True
    then obtain st where "stat (world p1) = Inr st" by blast
    show ?thesis by (rule tells_ok[where q = p1 and L = L and st = "g m st"]) (use 0 1 True fr assms \<open>stat (world p1) = Inr st\<close> in simp_all)
  next
    case False
    let ?q = "if r = 0 then p1\<lparr>errno := projl (stat (world p1))\<rparr> else p1"
    show ?thesis by (rule tells_fail[where q = ?q]) (use 0 1 False fr in \<open>auto split: sum.split\<close>)
  qed
qed

lemma tells_mknod:
  assumes "connected (conn p)"
  shows "tells_iff_ok f (\<lambda>p. let (m, p0) = old_umask L p; (fd, p1) = syscall_num opn p0 in
      if fd = - 1 then (- 1, p1)
      else let (_, p2) = syscall (cls fd) p1 in
        case stat (world p2) of Inl e \<Rightarrow> (- 1, p2\<lparr>errno := e\<rparr>) | Inr st \<Rightarrow> (0, int_send_stat L (g m st) f p2)) p"
proof -
  obtain m p0 where 0: "old_umask L p = (m, p0)" by fastforce
  obtain fd p1 where 1: "syscall_num opn p0 = (fd, p1)" by fastforce
  obtain r p2 where 2: "syscall (cls fd) p1 = (r, p2)" by fastforce
  note fr = old_umask_frame[OF 0] syscall_num_frameD[OF 1] syscall_frameD[OF 2]
  show ?thesis
  proof (cases "fd \<noteq> - 1 \<and> (\<exists>st. stat (world p2) = Inr st)")
    case True
    then obtain st where "stat (world p2) = Inr st" by blast
    show ?thesis by (rule tells_ok[where q = p2 and L = L and st = "g m st"])
        (use 0 1 2 True fr assms \<open>stat (world p2) = Inr st\<close> in simp_all)
  next
    case False
    let ?q = "if fd = - 1 then p1 else p2\<lparr>errno := projl (stat (world p2))\<rparr>"
    show ?thesis by (rule tells_fail[where q = ?q]) (use 0 1 2 False fr in \<open>auto split: sum.split\<close>)
  qed
qed

text \<open>
  C36.  The functions that create and remove files tell the daemon about it exactly when they
  succeed: a call that returns -1 leaves the queues alone, and one that returns 0 sends one
  request, of its kind.
\<close>

theorem daemon_told_iff_ok:
  assumes "connected (conn p)"
  shows "tells_iff_ok unlink_func (unlink L a) p \<and> tells_iff_ok unlink_func (unlinkat L d a fl) p \<and>
    tells_iff_ok unlink_func (rmdir L a) p \<and> tells_iff_ok unlink_func (remove L a) p \<and>
    tells_iff_ok chmod_func (mkdir L a mode) p \<and> tells_iff_ok chmod_func (mkdirat L d a mode) p \<and>
    tells_iff_ok mknod_func (mknod L a mode dev) p \<and> tells_iff_ok mknod_func (mknodat L d a mode dev) p"
  unfolding unlink_def[abs_def] unlinkat_def[abs_def] rmdir_def[abs_def] remove_def[abs_def]
    mkdir_def[abs_def] mkdirat_def[abs_def] mknod_def[abs_def] mknodat_def[abs_def]
  by (intro conjI tells_removal tells_mkdir tells_mknod assms)

lemma daemon_told_iff_ok_witness:
  "tells_iff_ok unlink_func (unlink ex_libc ''f'') (ex_proc ex_daemon) \<and>
   tells_iff_ok chmod_func (mkdir ex_libc ''f'' 0x1ED) (ex_proc ex_daemon)"
  using daemon_told_iff_ok[of "ex_proc ex_daemon" ex_libc "''f''" _ _ "0x1ED"] by simp

end
