(* ===== verification/LibIds.thy ===== *)
theory LibIds
  imports LibFakeroot
begin

text \<open>
  The identities of a process and of the programs it starts: the functions of the setuid family
  through \<open>libfakeroot\<close>, a sequence of calls, and what a new program sees in the environment.
\<close>

datatype id_op = Of_user id_call | Of_group id_call

fun run_op :: "'w id_calls \<Rightarrow> room \<Rightarrow> id_op \<Rightarrow> 'w fproc \<Rightarrow> int \<times> 'w fproc" where
  "run_op C room (Of_user (Set i)) = setuid C room i"
| "run_op C room (Of_user (Set_e i)) = seteuid C room i"
| "run_op C room (Of_user (Set_re r e)) = setreuid C room r e"
| "run_op C room (Of_user (Set_res r e s)) = setresuid C room r e s"
| "run_op C room (Of_group (Set i)) = setgid C room i"
| "run_op C room (Of_group (Set_e i)) = setegid C room i"
| "run_op C room (Of_group (Set_re r e)) = setregid C room r e"
| "run_op C room (Of_group (Set_res r e s)) = setresgid C room r e s"

text \<open>A sequence of calls that all return 0.\<close>

fun run_ops :: "'w id_calls \<Rightarrow> room \<Rightarrow> id_op list \<Rightarrow> 'w fproc \<Rightarrow> 'w fproc option" where
  "run_ops C room [] p = Some p"
| "run_ops C room (op # ops) p = (let (r, p') = run_op C room op p in if r = 0 then run_ops C room ops p' else None)"

fun user_spec :: "id_op list \<Rightarrow> ids \<Rightarrow> ids" where
  "user_spec [] a = a"
| "user_spec (Of_user c # ops) a = user_spec ops (id_spec c a)"
| "user_spec (Of_group c # ops) a = user_spec ops a"

fun group_spec :: "id_op list \<Rightarrow> ids \<Rightarrow> ids" where
  "group_spec [] a = a"
| "group_spec (Of_user c # ops) a = group_spec ops a"
| "group_spec (Of_group c # ops) a = group_spec ops (id_spec c a)"

text \<open>A program that has just been started.\<close>

definition started :: "'w fproc \<Rightarrow> bool" where
  "started p \<longleftrightarrow> fakeroot_disabled p = 0 \<and> uids p = unread_ids \<and> gids p = unread_ids"

text \<open>The identities of a process are those a program it starts will have.\<close>

definition passes_on :: "ids \<Rightarrow> ids \<Rightarrow> 'w fproc \<Rightarrow> bool" where
  "passes_on u g p \<longleftrightarrow> fakeroot_disabled p = 0 \<and>
     identities uid_keys (environ p) (uids p) = u \<and> identities uid_keys (environ p) unread_ids = u \<and>
     identities gid_keys (environ p) (gids p) = g \<and> identities gid_keys (environ p) unread_ids = g"

lemma run_op_user:
  "fakeroot_disabled p = 0 \<Longrightarrow> run_op C room (Of_user c) p = on_uids (run_id_call room uid_keys c) p"
  by (cases c) (simp_all add: setuid_def seteuid_def setreuid_def setresuid_def faked_ids)

lemma run_op_group:
  "fakeroot_disabled p = 0 \<Longrightarrow> run_op C room (Of_group c) p = on_gids (run_id_call room gid_keys c) p"
  by (cases c) (simp_all add: setgid_def setegid_def setregid_def setresgid_def faked_ids)

lemma run_op_passes_on:
  assumes "passes_on u g p" "run_op C room op p = (0, p')"
  shows "passes_on (user_spec [op] u) (group_spec [op] g) p'"
proof (cases op)
  case (Of_user c)
  have d: "fakeroot_disabled p = 0" using assms(1) by (simp add: passes_on_def)
  obtain v e where c: "run_id_call room uid_keys c (uids p) (environ p) = (0, v, e)" and p': "p' = p\<lparr>uids := v, environ := e\<rparr>"
    using assms(2) unfolding Of_user run_op_user[OF d] by (auto simp: on_uids_def Let_def split: prod.splits)
  note o = id_call_ok[OF c _ distinct_uid_keys, simplified]
  have "identities gid_keys e x = identities gid_keys (environ p) x" for x
    by (rule identities_cong, rule o(4)) (use keys_disjoint in auto)
  with assms(1) o(2,3) show ?thesis by (simp add: passes_on_def Of_user p')
next
  case (Of_group c)
  have d: "fakeroot_disabled p = 0" using assms(1) by (simp add: passes_on_def)
  obtain v e where c: "run_id_call room gid_keys c (gids p) (environ p) = (0, v, e)" and p': "p' = p\<lparr>gids := v, environ := e\<rparr>"
    using assms(2) unfolding Of_group run_op_group[OF d] by (auto simp: on_gids_def Let_def split: prod.splits)
  note o = id_call_ok[OF c _ distinct_gid_keys, simplified]
  have "identities uid_keys e x = identities uid_keys (environ p) x" for x
    by (rule identities_cong, rule o(4)) (use keys_disjoint in auto)
  with assms(1) o(2,3) show ?thesis by (simp add: passes_on_def Of_group p')
qed

lemma run_ops_passes_on:
  "passes_on u g p \<Longrightarrow> run_ops C room ops p = Some p' \<Longrightarrow> passes_on (user_spec ops u) (group_spec ops g) p'"
proof (induction ops arbitrary: u g p)
  case (Cons op ops)
  obtain p1 where 1: "run_op C room op p = (0, p1)" "run_ops C room ops p1 = Some p'"
    using Cons.prems(2) by (auto split: prod.splits if_splits)
  from Cons.IH[OF run_op_passes_on[OF Cons.prems(1) 1(1)] 1(2)] show ?case by (cases op) simp_all
qed simp

lemma ask_identities:
  "fakeroot_disabled p = 0 \<Longrightarrow> passes_on u g p \<Longrightarrow>
   (\<exists>q. getresuid C p = (0, Some (real_id u, effective_id u, saved_id u), q)) \<and>
   (\<exists>q. getresgid C p = (0, Some (real_id g, effective_id g, saved_id g), q)) \<and>
   fst (getuid C p) = real_id u \<and> fst (geteuid C p) = effective_id u \<and>
   fst (getgid C p) = real_id g \<and> fst (getegid C p) = effective_id g"
  by (auto simp: getresuid_def getresgid_def getuid_def geteuid_def getgid_def getegid_def
      ask_uids_def ask_gids_def faked_ids get_real_def get_effective_def get_saved_def passes_on_def read_ids_def
      read_real_def read_effective_def read_saved_def read_fs_def Let_def)

text \<open>
  C33.  After any sequence of successful calls of the setuid and setgid family in a program, what
  the \<^verbatim>\<open>get\<close> functions return is what the calls ask for, starting from the identities in
  the environment, and a program started from it sees the same identities.
\<close>

theorem ids_inherited:
  assumes "started p" "run_ops C room ops p = Some p'" "started q" "environ q = environ p'" "x \<in> {p', q}"
  defines "u \<equiv> user_spec ops (identities uid_keys (environ p) unread_ids)"
    and "g \<equiv> group_spec ops (identities gid_keys (environ p) unread_ids)"
  shows "(\<exists>y. getresuid C x = (0, Some (real_id u, effective_id u, saved_id u), y)) \<and>
    (\<exists>y. getresgid C x = (0, Some (real_id g, effective_id g, saved_id g), y)) \<and>
    fst (getuid C x) = real_id u \<and> fst (geteuid C x) = effective_id u \<and>
    fst (getgid C x) = real_id g \<and> fst (getegid C x) = effective_id g"
proof -
  have "passes_on (identities uid_keys (environ p) unread_ids) (identities gid_keys (environ p) unread_ids) p"
    using assms(1) by (simp add: started_def passes_on_def)
  from run_ops_passes_on[OF this assms(2)] have p': "passes_on u g p'" by (simp add: u_def g_def)
  then have "passes_on u g q" using assms(3,4) by (simp add: started_def passes_on_def)
  with p' assms(5) have "passes_on u g x" by blast
  moreover from this have "fakeroot_disabled x = 0" by (simp add: passes_on_def)
  ultimately show ?thesis by (intro ask_identities)
qed

text \<open>The calls of a system that refuses everything.\<close>

definition ex_calls :: "unit id_calls" where
  "ex_calls = \<lparr>next_getuid = \<lambda>_. 7, next_geteuid = \<lambda>_. 7, next_getgid = \<lambda>_. 7, next_getegid = \<lambda>_. 7,
     next_getresuid = \<lambda>_. Inr (7, 7, 7), next_getresgid = \<lambda>_. Inr (7, 7, 7),
     next_setuid = \<lambda>_ w. (Some EPERM, w), next_setgid = \<lambda>_ w. (Some EPERM, w),
     next_seteuid = \<lambda>_ w. (Some EPERM, w), next_setegid = \<lambda>_ w. (Some EPERM, w),
     next_setreuid = \<lambda>_ _ w. (Some EPERM, w), next_setregid = \<lambda>_ _ w. (Some EPERM, w),
     next_setresuid = \<lambda>_ _ _ w. (Some EPERM, w), next_setresgid = \<lambda>_ _ _ w. (Some EPERM, w),
     next_setfsuid = \<lambda>_ w. (7, w), next_setfsgid = \<lambda>_ w. (7, w),
     next_initgroups = \<lambda>_ _ w. (Some EPERM, w), next_setgroups = \<lambda>_ w. (Some EPERM, w)\<rparr>"

definition ex_start :: "env \<Rightarrow> unit fproc" where
  "ex_start e = \<lparr>world = (), environ = e, errno = 0,
     conn = \<lparr>c_pid = 42, c_serial = 0, c_key = 9, c_msg_snd = 9, c_msg_get = 10, c_done = True\<rparr>,
     queues = \<lparr>requests = [], replies = [], daemon = ex_daemon\<rparr>, comm_sd = - 1, uids = unread_ids, gids = unread_ids,
     fakeroot_disabled = 0, chown_inited = False, chown_donttry = False\<rparr>"

definition ex_ops :: "id_op list" where
  "ex_ops = [Of_group (Set 50), Of_user (Set_re 1000 1000)]"

text \<open>
  After \<open>setreuid (1000, 1000)\<close> by root the saved identity is still root, while the system call
  sets it to the new effective identity.
\<close>

lemma ids_inherited_witness:
  "\<exists>p' y. run_ops ex_calls (\<lambda>_ _ _. True) ex_ops (ex_start Map.empty) = Some p' \<and>
     getresuid ex_calls (ex_start (environ p')) = (0, Some (1000, 1000, 0), y) \<and>
     fst (getgid ex_calls (ex_start (environ p'))) = 50"
proof -
  have "run_ops ex_calls (\<lambda>_ _ _. True) ex_ops (ex_start Map.empty) \<noteq> None" by code_simp
  then obtain p' where p': "run_ops ex_calls (\<lambda>_ _ _. True) ex_ops (ex_start Map.empty) = Some p'" by blast
  have st: "started (ex_start e)" "environ (ex_start e) = e" for e by (simp_all add: started_def ex_start_def)
  have i: "identities ks Map.empty unread_ids = \<lparr>real_id = 0, effective_id = 0, saved_id = 0, fs_id = 0\<rparr>" for ks
    by (simp add: read_ids_eq unread_ids_def read_id_def env_get_id_def)
  have u: "user_spec ex_ops (identities uid_keys Map.empty unread_ids) =
      \<lparr>real_id = 1000, effective_id = 1000, saved_id = 0, fs_id = 1000\<rparr>"
    and g: "group_spec ex_ops (identities gid_keys Map.empty unread_ids) =
      \<lparr>real_id = 50, effective_id = 50, saved_id = 50, fs_id = 50\<rparr>"
    by (simp_all add: i ex_ops_def keep_def)
  show ?thesis
    using ids_inherited[OF st(1) p' st, of "ex_start (environ p')"] p' by (simp add: st u g)
qed

text \<open>The identity for the file system is not passed on.\<close>

lemma setfsuid_not_passed_on:
  "fakeroot_disabled p = 0 \<Longrightarrow> environ (snd (setfsuid C i p)) = environ p"
  by (simp add: setfsuid_def ask_uids_def split: prod.split)

end
