(* ===== verification/ConfRead.thy ===== *)
theory ConfRead
  imports SymOps "HOL-Library.Stream"
begin

text \<open>
  Reading a configuration (\<^verbatim>\<open>confdata.c\<close>): the expansion of names, the parser of the
  \<^verbatim>\<open>.config\<close> lines, \<open>conf_read_simple\<close> and \<open>conf_read\<close>.

  Parameters: \<open>getenv\<close> is the environment, \<open>fs\<close> gives the contents of the files that can be
  opened.  The \<^verbatim>\<open>line\<close> buffer is modelled byte by byte: what an earlier line left behind stays in it.
  The result \<open>None\<close> stands for a null pointer that is followed or a buffer that overflows.
  Messages are not modelled, the count of warnings is.
\<close>

subsection \<open>File names\<close>

definition conf_warning :: "kstate \<Rightarrow> kstate" where
  "conf_warning st = st\<lparr>conf_warnings := Suc (conf_warnings st)\<rparr>"

definition conf_defname :: string where "conf_defname = ''arch/$ARCH/defconfig''"

definition conf_get_configname :: "(string \<Rightarrow> string option) \<Rightarrow> string" where
  "conf_get_configname getenv = (case getenv ''KCONFIG_CONFIG'' of Some n \<Rightarrow> n | None \<Rightarrow> ''.config'')"

definition conf_get_autoconfig_name :: "(string \<Rightarrow> string option) \<Rightarrow> string" where
  "conf_get_autoconfig_name getenv =
     (case getenv ''KCONFIG_AUTOCONFIG'' of Some n \<Rightarrow> n | None \<Rightarrow> ''include/config/auto.conf'')"

fun strstr :: "string \<Rightarrow> string \<Rightarrow> bool" where
  "strstr [] pat = (pat = [])"
| "strstr (c # s) pat = (take (length pat) (c # s) = pat \<or> strstr s pat)"

definition zconf_fopen :: "(string \<Rightarrow> string option) \<Rightarrow> (string \<Rightarrow> string option) \<Rightarrow> string \<Rightarrow> string option" where
  "zconf_fopen getenv fs name =
     (case (if strstr name ''Kconfig'' then None else fs name) of
        Some f \<Rightarrow> Some f
      | None \<Rightarrow>
          if take 1 name \<noteq> ''/'' then
            (case getenv ''srctree'' of Some env \<Rightarrow> fs (env @ ''/'' @ name) | None \<Rightarrow> None)
          else None)"

definition SYMBOL_MAXLENGTH :: nat where "SYMBOL_MAXLENGTH = 256"

definition expand_char :: "char \<Rightarrow> bool" where
  "expand_char c \<longleftrightarrow> isalnum c \<or> c = CHR ''_''"

text \<open>
  The loop of \<open>conf_expand_value\<close>: \<open>res\<close> is \<^verbatim>\<open>res_value\<close>.  Neither buffer is checked against its
  length of 256 bytes.
\<close>

function expand_loop :: "string \<Rightarrow> string \<Rightarrow> kstate \<Rightarrow> (string \<times> kstate) option" where
  "expand_loop res inp st =
     (case dropWhile (\<lambda>c. c \<noteq> CHR ''$'') inp of
        [] \<Rightarrow>
          if length (res @ inp) < SYMBOL_MAXLENGTH then Some (res @ inp, st) else None
      | d # src \<Rightarrow>
          do { let name = takeWhile expand_char src;
               let (s, st1) = sym_lookup (Some name) {} st;
               st2 \<leftarrow> (if length name < SYMBOL_MAXLENGTH then calc_value s st1 else None);
               let res' = res @ takeWhile (\<lambda>c. c \<noteq> CHR ''$'') inp @ sym_get_string_value (syms st2 s);
               if length res' < SYMBOL_MAXLENGTH
               then expand_loop res' (dropWhile expand_char src) st2 else None })"
  by pat_completeness auto
termination
proof (relation "measure (\<lambda>(res, inp, st). length inp)")
  fix res inp :: string and st :: kstate and d src x y s st1 st2 x'
  assume "dropWhile (\<lambda>c. c \<noteq> CHR ''$'') inp = d # src"
  then have "length src < length inp"
    using length_dropWhile_le[of "\<lambda>c. c \<noteq> CHR ''$''" inp] by simp
  then show "((res', dropWhile expand_char src, st2), res, inp, st) \<in> measure (\<lambda>(res, inp, st). length inp)" for res'
    using length_dropWhile_le[of expand_char src] by (simp del: length_dropWhile_le)
qed auto

declare expand_loop.simps [simp del]

definition conf_expand_value :: "string \<Rightarrow> kstate \<Rightarrow> (string \<times> kstate) option" where
  "conf_expand_value inp st = expand_loop [] inp st"

definition conf_get_default_confname ::
    "(string \<Rightarrow> string option) \<Rightarrow> (string \<Rightarrow> string option) \<Rightarrow> kstate \<Rightarrow> (string \<times> kstate) option" where
  "conf_get_default_confname getenv fs st =
     do { (name, st1) \<leftarrow> conf_expand_value conf_defname st;
          Some (case getenv ''srctree'' of
                  None \<Rightarrow> (name, st1)
                | Some env \<Rightarrow>
                    let fullname = env @ ''/'' @ name in
                    if fs fullname \<noteq> None then (fullname, st1) else (name, st1)) }"

subsection \<open>The value of a line\<close>

text \<open>\<^verbatim>\<open>sym->def[def].val = strdup(p)\<close>\<close>

definition store_def_string :: "def_index \<Rightarrow> symptr \<Rightarrow> string \<Rightarrow> kstate \<Rightarrow> kstate" where
  "store_def_string i s str st =
     (set_def_val i (VStr (Heap (next_str st)) str) s st)\<lparr>next_str := Suc (next_str st)\<rparr>"

definition set_def_known :: "def_index \<Rightarrow> tristate \<Rightarrow> symptr \<Rightarrow> kstate \<Rightarrow> kstate" where
  "set_def_known i t s st = set_flags {def_flag i} s (set_def_tri i t s st)"

definition set_string_or_warn :: "def_index \<Rightarrow> symptr \<Rightarrow> string \<Rightarrow> kstate \<Rightarrow> bool \<times> kstate" where
  "set_string_or_warn i s p st =
     (if sym_string_valid (sym_type (syms st s)) p
      then (False, set_flags {def_flag i} s (store_def_string i s p st))
      else (True, conf_warning st))"

text \<open>
  \<open>conf_set_sym_val\<close>: the value is \<^verbatim>\<open>True\<close> for the return value 1.  A symbol of type \<open>S_OTHER\<close>
  becomes a string unless the text starts with a quote; then the type is still \<open>S_OTHER\<close> when
  \<open>sym_string_valid\<close> is asked, which refuses it.
\<close>

definition conf_set_sym_val :: "def_index \<Rightarrow> string \<Rightarrow> symptr \<Rightarrow> kstate \<Rightarrow> bool \<times> kstate" where
  "conf_set_sym_val i p s st =
     (let c = take 1 p; ty = sym_type (syms st s) in
      if ty = S_TRISTATE \<and> c = ''m'' then (False, set_def_known i TMod s st)
      else if ty = S_TRISTATE \<or> ty = S_BOOLEAN then
        (if c = ''y'' then (False, set_def_known i TYes s st)
         else if c = ''n'' then (False, set_def_known i TNo s st)
         else (False, conf_warning st))
      else if ty = S_OTHER then
        set_string_or_warn i s p
          (if c \<noteq> [CHR 0x22] then upd_sym s (\<lambda>y. y\<lparr>sym_type := S_STRING\<rparr>) st else st)
      else if ty = S_STRING \<or> ty = S_INT \<or> ty = S_HEX then set_string_or_warn i s p st
      else (False, st))"

subsection \<open>The line buffer\<close>

definition LINE_SIZE :: nat where "LINE_SIZE = 1024"

definition first_line :: "string \<Rightarrow> string" where
  "first_line inp =
     (let l = takeWhile (\<lambda>c. c \<noteq> newline) inp in if length l < length inp then l @ [newline] else l)"

text \<open>
  \<open>fgets(line, sizeof(line), in)\<close>: at most 1023 bytes and not past a newline, then a zero byte;
  the rest of the buffer stays.  \<^verbatim>\<open>None\<close> at the end of the file.
\<close>

definition fgets :: "string \<Rightarrow> string \<Rightarrow> (string \<times> string) option" where
  "fgets buf inp =
     (if inp = [] then None
      else let l = take (LINE_SIZE - 1) (first_line inp)
           in Some (l @ [nul] @ drop (Suc (length l)) buf, drop (length l) inp))"

lemma first_line_nonempty: "inp \<noteq> [] \<Longrightarrow> first_line inp \<noteq> []"
  by (cases inp) (auto simp: first_line_def Let_def)

lemma fgets_progress: "fgets buf inp = Some (buf', rest) \<Longrightarrow> length rest < length inp"
  using first_line_nonempty[of inp]
  by (cases "first_line inp") (auto simp: fgets_def LINE_SIZE_def split: if_splits)

subsection \<open>One line\<close>

text \<open>
  What the \<^verbatim>\<open>switch\<close> on the first byte leaves: the next line is read (\<^verbatim>\<open>continue\<close>), or the
  code behind the switch runs with \<^verbatim>\<open>sym\<close>.
\<close>

datatype line_end = Next_line | Go_on "symptr option"

text \<open>
  The lookup of both kinds of line: the user's file names symbols of the Kconfig files only, the
  automatic ones may create them, with the type that is given.
\<close>

definition line_symbol :: "def_index \<Rightarrow> symbol_type \<Rightarrow> string \<Rightarrow> kstate \<Rightarrow> symptr option \<times> kstate" where
  "line_symbol i ty name st =
     (if i = S_DEF_USER then
        (case sym_find (Some name) st of
           None \<Rightarrow> (None, sym_add_change_count 1 st)
         | Some s \<Rightarrow> (Some s, st))
      else
        let (s, st1) = sym_lookup (Some name) {} st in
        (Some s, if sym_type (syms st1 s) = S_UNKNOWN
                 then upd_sym s (\<lambda>y. y\<lparr>sym_type := ty\<rparr>) st1 else st1))"

definition warn_override :: "def_index \<Rightarrow> symptr \<Rightarrow> kstate \<Rightarrow> kstate" where
  "warn_override i s st = (if def_flag i \<in> flags (syms st s) then conf_warning st else st)"

definition unset_line :: "def_index \<Rightarrow> string \<Rightarrow> kstate \<Rightarrow> line_end \<times> string \<times> kstate" where
  "unset_line i buf st =
     (if take 4 (drop 2 buf) \<noteq> ''MKR_'' then (Next_line, buf, st)
      else case strchr (drop 6 buf) (CHR '' '') of
        None \<Rightarrow> (Next_line, buf, st)
      | Some j \<Rightarrow>
          let buf1 = buf[6 + j := nul] in
          if take 10 (cstr (drop (7 + j) buf1)) \<noteq> ''is not set'' then (Next_line, buf1, st)
          else case line_symbol i S_BOOLEAN (cstr (drop 6 buf1)) st of
            (None, st1) \<Rightarrow> (Go_on None, buf1, st1)
          | (Some s, st1) \<Rightarrow>
              let st2 = warn_override i s st1 in
              (Go_on (Some s), buf1,
               if sym_type (syms st2 s) = S_BOOLEAN \<or> sym_type (syms st2 s) = S_TRISTATE
               then set_def_known i TNo s st2 else st2))"

text \<open>The newline behind the value is cut off, and a carriage return before it.\<close>

definition cut_newline :: "nat \<Rightarrow> string \<Rightarrow> string" where
  "cut_newline p buf =
     (case strchr (drop p buf) newline of
        None \<Rightarrow> buf
      | Some k \<Rightarrow>
          let buf1 = buf[p + k := nul] in
          if buf1 ! (p + k - 1) = CHR 0x0D then buf1[p + k - 1 := nul] else buf1)"

definition value_line :: "def_index \<Rightarrow> string \<Rightarrow> kstate \<Rightarrow> line_end \<times> string \<times> kstate" where
  "value_line i buf st =
     (if take 4 buf \<noteq> ''MKR_'' then (Next_line, buf, conf_warning st)
      else case strchr (drop 4 buf) (CHR ''='') of
        None \<Rightarrow> (Next_line, buf, st)
      | Some j \<Rightarrow>
          let buf1 = cut_newline (5 + j) (buf[4 + j := nul]) in
          case line_symbol i S_OTHER (cstr (drop 4 buf1)) st of
            (None, st1) \<Rightarrow> (Go_on None, buf1, st1)
          | (Some s, st1) \<Rightarrow>
              let (bad, st2) = conf_set_sym_val i (cstr (drop (5 + j) buf1)) s (warn_override i s st1) in
              (if bad then Next_line else Go_on (Some s), buf1, st2))"

definition switch_line :: "def_index \<Rightarrow> string \<Rightarrow> kstate \<Rightarrow> line_end \<times> string \<times> kstate" where
  "switch_line i buf st =
     (let c = buf ! 0 in
      if c = CHR ''#'' then unset_line i buf st
      else if c = CHR ''M'' then value_line i buf st
      else if c = CHR 0x0D \<or> c = newline then (Go_on None, buf, st)
      else (Next_line, buf, conf_warning st))"

text \<open>A value of a choice also sets the value of the choice.\<close>

definition update_choice :: "def_index \<Rightarrow> symptr \<Rightarrow> kstate \<Rightarrow> kstate option" where
  "update_choice i s st =
     do { p \<leftarrow> sym_get_choice_prop s st;
          cs \<leftarrow> prop_get_symbol (props st p);
          let old = sv_tri (def (syms st cs) i);
          let st1 = (case sv_tri (def (syms st s) i) of
              TNo \<Rightarrow> st
            | TMod \<Rightarrow> if old = TYes then clear_flags {def_flag i} cs (conf_warning st) else st
            | TYes \<Rightarrow> set_def_val i (VSym s) cs (if old \<noteq> TNo then conf_warning st else st));
          Some (set_def_tri i (EXPR_OR (sv_tri (def (syms st1 cs) i)) (sv_tri (def (syms st1 s) i))) cs st1) }"

definition read_line :: "def_index \<Rightarrow> string \<Rightarrow> kstate \<Rightarrow> (string \<times> kstate) option" where
  "read_line i buf st =
     (case switch_line i buf (st\<lparr>conf_lineno := Suc (conf_lineno st)\<rparr>) of
        (Go_on (Some s), buf1, st1) \<Rightarrow>
          if sym_is_choice_value (syms st1 s)
          then map_option (Pair buf1) (update_choice i s st1) else Some (buf1, st1)
      | (_, buf1, st1) \<Rightarrow> Some (buf1, st1))"

function read_lines :: "def_index \<Rightarrow> string \<Rightarrow> string \<Rightarrow> kstate \<Rightarrow> kstate option" where
  "read_lines i buf inp st =
     (case fgets buf inp of
        None \<Rightarrow> Some st
      | Some (buf1, rest) \<Rightarrow>
          do { (buf2, st1) \<leftarrow> read_line i buf1 st; read_lines i buf2 rest st1 })"
  by pat_completeness auto
termination
  by (relation "measure (\<lambda>(i, buf, inp, st). length inp)") (auto dest: fgets_progress)

declare read_lines.simps [simp del]

subsection \<open>Reading a file\<close>

text \<open>
  The file to read; without a name the one of the environment, or the first default of
  \<^verbatim>\<open>sym_defconfig_list\<close> that can be opened.  An \<^verbatim>\<open>Inr\<close> has the name and the contents.
\<close>

type_synonym opened = "(string \<times> string) option"

fun try_defaults ::
    "(string \<Rightarrow> string option) \<Rightarrow> (string \<Rightarrow> string option) \<Rightarrow> nat list \<Rightarrow> kstate \<Rightarrow> (opened \<times> kstate) option" where
  "try_defaults getenv fs [] st = Some (None, st)"
| "try_defaults getenv fs (p # ps) st =
     (if prop_type (props st p) = P_DEFAULT then
        do { (t, st1) \<leftarrow> expr_calc_value (visible_expr (props st p)) st;
             if t = TNo then try_defaults getenv fs ps st1
             else case prop_expr (props st1 p) of
               Null \<Rightarrow> None
             | E_SYMBOL d \<Rightarrow>
                 do { n \<leftarrow> sym_name (syms st1 d);
                      (name, st2) \<leftarrow> conf_expand_value n st1;
                      case zconf_fopen getenv fs name of
                        Some f \<Rightarrow> Some (Some (name, f), st2)
                      | None \<Rightarrow> try_defaults getenv fs ps st2 }
             | _ \<Rightarrow> try_defaults getenv fs ps st1 }
      else try_defaults getenv fs ps st)"

definition open_config ::
    "(string \<Rightarrow> string option) \<Rightarrow> (string \<Rightarrow> string option) \<Rightarrow> string option \<Rightarrow> kstate \<Rightarrow> (opened \<times> kstate) option" where
  "open_config getenv fs nm st =
     (case nm of
        Some name \<Rightarrow> Some (map_option (Pair name) (zconf_fopen getenv fs name), st)
      | None \<Rightarrow>
          let name = conf_get_configname getenv in
          case zconf_fopen getenv fs name of
            Some f \<Rightarrow> Some (Some (name, f), st)
          | None \<Rightarrow>
              let st1 = sym_add_change_count 1 st in
              case sym_defconfig_list st1 of
                None \<Rightarrow> Some (None, st1)
              | Some d \<Rightarrow> try_defaults getenv fs (sym_prop (syms st1 d)) st1)"

text \<open>The old values of the kind that is read are forgotten.\<close>

definition reset_def :: "def_index \<Rightarrow> symptr \<Rightarrow> kstate \<Rightarrow> kstate" where
  "reset_def i s st =
     (let st1 = clear_flags {def_flag i, SYMBOL_VALID} s (set_flags {SYMBOL_CHANGED} s st);
          st2 = (if sym_is_choice (syms st1 s) then set_flags {def_flag i} s st1 else st1)
      in set_def_tri i TNo s (set_def_val i VNull s st2))"

text \<open>\<open>conf_read_simple\<close>: the value is \<^verbatim>\<open>True\<close> for the return value 1; \<open>junk\<close> is what the buffer holds at first.\<close>

definition conf_read_simple ::
    "(string \<Rightarrow> string option) \<Rightarrow> (string \<Rightarrow> string option) \<Rightarrow> string \<Rightarrow> string option \<Rightarrow> def_index \<Rightarrow> kstate \<Rightarrow>
     (bool \<times> kstate) option" where
  "conf_read_simple getenv fs junk nm i st =
     do { (f, st1) \<leftarrow> open_config getenv fs nm st;
          case f of
            None \<Rightarrow> Some (True, st1)
          | Some (name, text) \<Rightarrow>
              do { let st2 = st1\<lparr>conf_filename := name, conf_lineno := 0, conf_warnings := 0, conf_unsaved := 0\<rparr>;
                   st3 \<leftarrow> read_lines i junk text (fold (reset_def i) (all_symbols st2) st2);
                   st4 \<leftarrow> (case modules_sym st3 of None \<Rightarrow> Some st3 | Some m \<Rightarrow> calc_value m st3);
                   Some (False, st4) } }"

subsection \<open>Checking the values that were read\<close>

text \<open>\<^verbatim>\<open>strcmp\<close> of two values; \<open>None\<close> when one of them is no string.\<close>

fun strcmp_vals :: "sval \<Rightarrow> sval \<Rightarrow> bool option" where
  "strcmp_vals (VStr _ a) (VStr _ b) = Some (a = b)"
| "strcmp_vals _ _ = None"

definition agrees_with_saved :: "symbol \<Rightarrow> bool option" where
  "agrees_with_saved y =
     (if sym_is_choice y \<or> SYMBOL_AUTO \<in> flags y then Some True
      else if sym_has_value y \<and> SYMBOL_WRITE \<in> flags y then
        (if sym_type y = S_BOOLEAN \<or> sym_type y = S_TRISTATE
         then Some (sv_tri (def y S_DEF_USER) = sym_get_tristate_value y)
         else strcmp_vals (sv_val (curr y)) (sv_val (def y S_DEF_USER)))
      else Some (\<not> sym_has_value y \<and> SYMBOL_WRITE \<notin> flags y))"

definition count_unsaved :: "kstate \<Rightarrow> kstate" where
  "count_unsaved st = st\<lparr>conf_unsaved := Suc (conf_unsaved st)\<rparr>"

text \<open>A choice keeps its value only when all its visible values have one.\<close>

definition check_choice_set :: "symptr \<Rightarrow> kstate \<Rightarrow> kstate option" where
  "check_choice_set s st =
     do { p \<leftarrow> sym_get_choice_prop s st;
          let fl = fold (\<lambda>d fl. if visible (syms st d) \<noteq> TNo then fl \<inter> flags (syms st d) else fl)
                     (expr_list_syms (prop_expr (props st p))) (flags (syms st s));
          Some (if SYMBOL_DEF_USER \<in> fl then st else clear_flags {SYMBOL_DEF_USER} s st) }"

definition check_saved :: "symptr \<Rightarrow> kstate \<Rightarrow> kstate option" where
  "check_saved s st =
     do { st1 \<leftarrow> calc_value s st;
          ok \<leftarrow> agrees_with_saved (syms st1 s);
          let st2 = (if ok then st1 else count_unsaved st1);
          if sym_is_choice (syms st2 s) then check_choice_set s st2 else Some st2 }"

text \<open>Values of invisible symbols, and strings out of range, count as new.\<close>

definition reset_generated :: "symptr \<Rightarrow> kstate \<Rightarrow> kstate option" where
  "reset_generated s st =
     (if sym_has_value (syms st s) \<and> \<not> sym_is_choice_value (syms st s) then
        do { let st1 = (if visible (syms st s) = TNo \<and> conf_unsaved st = 0
                        then clear_flags {SYMBOL_DEF_USER} s st else st);
             if sym_type (syms st1 s) \<in> {S_STRING, S_INT, S_HEX} then
               do { (ok, st2) \<leftarrow> sym_string_within_range s (sval_string (sv_val (def (syms st1 s) S_DEF_USER))) st1;
                    Some (if ok then st2
                          else count_unsaved (clear_flags {SYMBOL_VALID, SYMBOL_DEF_USER} s st2)) }
             else Some st1 }
      else Some st)"

fun for_each :: "(symptr \<Rightarrow> kstate \<Rightarrow> kstate option) \<Rightarrow> symptr list \<Rightarrow> kstate \<Rightarrow> kstate option" where
  "for_each f [] st = Some st"
| "for_each f (s # ss) st = do { st1 \<leftarrow> f s st; for_each f ss st1 }"

definition conf_read ::
    "(string \<Rightarrow> string option) \<Rightarrow> (string \<Rightarrow> string option) \<Rightarrow> string \<Rightarrow> string option \<Rightarrow> kstate \<Rightarrow>
     (bool \<times> kstate) option" where
  "conf_read getenv fs junk nm st =
     do { (failed, st1) \<leftarrow> conf_read_simple getenv fs junk nm S_DEF_USER (sym_set_change_count 0 st);
          if failed then Some (True, st1)
          else
            do { st2 \<leftarrow> for_each check_saved (all_symbols st1) st1;
                 st3 \<leftarrow> for_each reset_generated (all_symbols st2) st2;
                 Some (False, sym_add_change_count
                   (if conf_warnings st3 \<noteq> 0 \<or> conf_unsaved st3 \<noteq> 0 then 1 else 0) st3) } }"

subsection \<open>Values for all new symbols\<close>

datatype conf_def_mode = def_default | def_yes | def_mod | def_no | def_random

text \<open>\<open>rand\<close> is the sequence of the random numbers; every call takes one.\<close>

definition rand_tri :: "nat \<Rightarrow> tristate" where
  "rand_tri r = (if r mod 3 = 0 then TNo else if r mod 3 = 1 then TMod else TYes)"

definition new_value :: "conf_def_mode \<Rightarrow> symptr \<Rightarrow> nat stream \<times> kstate \<Rightarrow> nat stream \<times> kstate" where
  "new_value mode s rst =
     (case rst of (rs, st) \<Rightarrow>
      let y = syms st s; ty = sym_get_type s st;
          mark = (\<lambda>st1. if \<not> (sym_is_choice y \<and> mode = def_random) then set_flags {SYMBOL_DEF_USER} s st1 else st1)
      in
      if sym_has_value y \<or> (ty \<noteq> S_BOOLEAN \<and> ty \<noteq> S_TRISTATE) then (rs, st)
      else case mode of
        def_yes \<Rightarrow> (rs, mark (set_def_tri S_DEF_USER TYes s st))
      | def_mod \<Rightarrow> (rs, mark (set_def_tri S_DEF_USER TMod s st))
      | def_no \<Rightarrow> (rs, mark (set_def_tri S_DEF_USER TNo s st))
      | def_random \<Rightarrow> (stl rs, mark (set_def_tri S_DEF_USER (rand_tri (shd rs)) s st))
      | def_default \<Rightarrow> (rs, st))"

text \<open>One entry of the choice block at random becomes \<open>y\<close>, the others \<open>n\<close>.\<close>

fun pick_value :: "symptr \<Rightarrow> nat \<Rightarrow> nat \<Rightarrow> symptr list \<Rightarrow> kstate \<Rightarrow> kstate" where
  "pick_value c k n [] st = st"
| "pick_value c k n (s # ss) st =
     pick_value c k (Suc n) ss
       (if k = n then set_def_val S_DEF_USER (VSym s) c (set_def_tri S_DEF_USER TYes s st)
        else set_def_tri S_DEF_USER TNo s st)"

definition random_choice :: "symptr \<Rightarrow> nat stream \<times> kstate \<Rightarrow> (nat stream \<times> kstate) option" where
  "random_choice c rst =
     (case rst of (rs, st) \<Rightarrow>
      if sym_has_value (syms st c) \<or> \<not> sym_is_choice (syms st c) then Some (rs, st)
      else
        do { st1 \<leftarrow> calc_value c st;
             if sv_tri (curr (syms st1 c)) \<noteq> TYes then Some (rs, st1)
             else
               do { p \<leftarrow> sym_get_choice_prop c st1;
                    let vals = expr_list_syms (prop_expr (props st1 p));
                    if vals = [] then None
                    else
                      let st2 = pick_value c (shd rs mod length vals) 0 vals st1
                      in Some (stl rs, clear_flags {SYMBOL_VALID} c (set_flags {SYMBOL_DEF_USER} c st2)) } })"

fun random_choices :: "symptr list \<Rightarrow> nat stream \<times> kstate \<Rightarrow> (nat stream \<times> kstate) option" where
  "random_choices [] rst = Some rst"
| "random_choices (c # cs) rst = do { rst1 \<leftarrow> random_choice c rst; random_choices cs rst1 }"

definition conf_set_all_new_symbols :: "nat stream \<Rightarrow> conf_def_mode \<Rightarrow> kstate \<Rightarrow> kstate option" where
  "conf_set_all_new_symbols rs mode st =
     do { let (rs1, st1) = fold (new_value mode) (all_symbols st) (rs, st);
          st2 \<leftarrow> sym_clear_all_valid st1;
          if mode \<noteq> def_random then Some st2
          else map_option snd (random_choices (all_symbols st2) (rs1, st2)) }"

end
