(* ===== verification/Menu.thy ===== *)
theory Menu
  imports SymOps
begin

text \<open>
  The menu entries (\<^verbatim>\<open>menu.c\<close>): how the parser builds them, \<open>menu_finalize\<close>, and the queries of
  the front ends.  Entry 0 is \<^verbatim>\<open>rootmenu\<close>.  \<open>None\<close> stands for a null pointer that is followed, or
  a loop that does not end; warnings are not modelled, except for the check of the properties.
\<close>

definition rootmenu :: nat where "rootmenu = 0"

subsection \<open>Building the menus\<close>

definition menu_init :: "kstate \<Rightarrow> kstate" where
  "menu_init st = st\<lparr>current_entry := rootmenu, current_menu := Some rootmenu, last_entry_ptr := List_of rootmenu\<rparr>"

text \<open>\<^verbatim>\<open>*last_entry_ptr = m\<close>\<close>

definition set_link :: "entry_ptr \<Rightarrow> nat \<Rightarrow> kstate \<Rightarrow> kstate" where
  "set_link lp m st =
     (case lp of
        List_of k \<Rightarrow> upd_menu k (\<lambda>x. x\<lparr>menu_list := Some m\<rparr>) st
      | Next_of k \<Rightarrow> upd_menu k (\<lambda>x. x\<lparr>menu_next := Some m\<rparr>) st)"

definition menu_add_entry :: "symptr option \<Rightarrow> kstate \<Rightarrow> kstate" where
  "menu_add_entry so st =
     (let m = next_menu st;
          st1 = (upd_menu m (\<lambda>_. zero_menu\<lparr>menu_sym := so, menu_parent := current_menu st,
                   menu_file := current_file st, menu_lineno := zconf_lineno st\<rparr>) st)\<lparr>next_menu := Suc m\<rparr>
      in (set_link (last_entry_ptr st1) m st1)\<lparr>last_entry_ptr := Next_of m, current_entry := m\<rparr>)"

definition menu_end_entry :: "kstate \<Rightarrow> kstate" where
  "menu_end_entry st = st"

definition menu_add_menu :: "kstate \<Rightarrow> nat \<times> kstate" where
  "menu_add_menu st =
     (let st1 = menu_end_entry st; m = current_entry st1 in
      (m, st1\<lparr>last_entry_ptr := List_of m, current_menu := Some m\<rparr>))"

definition menu_end_menu :: "kstate \<Rightarrow> kstate option" where
  "menu_end_menu st =
     map_option (\<lambda>m. st\<lparr>last_entry_ptr := Next_of m, current_menu := menu_parent (menus st m)\<rparr>)
       (current_menu st)"

text \<open>\<open>m\<close> is \<^verbatim>\<open>modules_sym\<close>: a constant \<open>m\<close> in a dependency becomes \<open>m && MODULES\<close>.\<close>

fun menu_check_dep :: "symptr option \<Rightarrow> expr \<Rightarrow> expr option" where
  "menu_check_dep m (E_NOT a) = map_option E_NOT (menu_check_dep m a)"
| "menu_check_dep m (E_OR l r) =
     do { l' \<leftarrow> menu_check_dep m l; r' \<leftarrow> menu_check_dep m r; Some (E_OR l' r') }"
| "menu_check_dep m (E_AND l r) =
     do { l' \<leftarrow> menu_check_dep m l; r' \<leftarrow> menu_check_dep m r; Some (E_AND l' r') }"
| "menu_check_dep m (E_SYMBOL s) =
     (if s = symbol_mod
      then map_option (\<lambda>ms. expr_alloc_and (E_SYMBOL s) (expr_alloc_symbol ms)) m
      else Some (E_SYMBOL s))"
| "menu_check_dep m e = Some e"

definition menu_add_dep :: "expr \<Rightarrow> kstate \<Rightarrow> kstate option" where
  "menu_add_dep dep st =
     do { d \<leftarrow> menu_check_dep (modules_sym st) dep;
          Some (upd_menu (current_entry st) (\<lambda>x. x\<lparr>menu_dep := expr_alloc_and (menu_dep x) d\<rparr>) st) }"

definition menu_add_prop ::
    "prop_type \<Rightarrow> string option \<Rightarrow> expr \<Rightarrow> expr \<Rightarrow> kstate \<Rightarrow> (nat \<times> kstate) option" where
  "menu_add_prop ty prompt e dep st =
     do { let m = current_entry st;
          let (p, st1) = prop_alloc ty (menu_sym (menus st m)) st;
          d \<leftarrow> menu_check_dep (modules_sym st1) dep;
          let st2 = upd_prop p (\<lambda>q. q\<lparr>prop_menu := Some m, prop_expr := e, visible_expr := d,
                prop_text := map_option (dropWhile isspace) prompt\<rparr>) st1;
          Some (p, if prompt = None then st2 else upd_menu m (\<lambda>x. x\<lparr>menu_prompt := Some p\<rparr>) st2) }"

definition menu_add_build_dep :: "expr \<Rightarrow> kstate \<Rightarrow> kstate option" where
  "menu_add_build_dep dep st =
     do { (p, st1) \<leftarrow> menu_add_prop P_BUILD_DEPENDS None (expr_copy dep) Null st; menu_add_dep dep st1 }"

definition menu_set_type :: "symbol_type \<Rightarrow> kstate \<Rightarrow> kstate option" where
  "menu_set_type ty st =
     do { s \<leftarrow> menu_sym (menus st (current_entry st));
          let (ty', st1) =
            (if ty = S_PACKAGE
             then (S_BOOLEAN, set_flags {SYMBOL_PACKAGE} s (snd (prop_alloc P_PACKAGE (Some s) st)))
             else if ty = S_SRCDIR
             then (S_STRING, set_flags {SYMBOL_SRCDIR} s (snd (prop_alloc P_SRCDIR (Some s) st)))
             else (ty, st));
          Some (if sym_type (syms st1 s) = S_UNKNOWN
                then upd_sym s (\<lambda>y. y\<lparr>sym_type := ty'\<rparr>) st1 else st1) }"

definition menu_add_prompt :: "prop_type \<Rightarrow> string \<Rightarrow> expr \<Rightarrow> kstate \<Rightarrow> (nat \<times> kstate) option" where
  "menu_add_prompt ty prompt dep st = menu_add_prop ty (Some prompt) Null dep st"

definition menu_add_expr :: "prop_type \<Rightarrow> expr \<Rightarrow> expr \<Rightarrow> kstate \<Rightarrow> kstate option" where
  "menu_add_expr ty e dep st = map_option snd (menu_add_prop ty None e dep st)"

definition menu_add_symbol :: "prop_type \<Rightarrow> symptr \<Rightarrow> expr \<Rightarrow> kstate \<Rightarrow> kstate option" where
  "menu_add_symbol ty s dep st = map_option snd (menu_add_prop ty None (expr_alloc_symbol s) dep st)"

datatype option_token = T_OPT_MODULES | T_OPT_DEFCONFIG_LIST | T_OPT_ENV

definition menu_add_option ::
    "(string \<Rightarrow> string option) \<Rightarrow> option_token \<Rightarrow> string \<Rightarrow> kstate \<Rightarrow> kstate option" where
  "menu_add_option getenv token arg st =
     (case token of
        T_OPT_MODULES \<Rightarrow>
          do { let (p, st1) = prop_alloc P_DEFAULT (modules_sym st) st;
               s \<leftarrow> menu_sym (menus st1 (current_entry st1));
               Some (set_prop_expr p (expr_alloc_symbol s) st1) }
      | T_OPT_DEFCONFIG_LIST \<Rightarrow>
          (let so = menu_sym (menus st (current_entry st)) in
           if sym_defconfig_list st = None then Some (st\<lparr>sym_defconfig_list := so\<rparr>)
           else if sym_defconfig_list st \<noteq> so then Some (st\<lparr>zconfnerrs := Suc (zconfnerrs st)\<rparr>)
           else Some st)
      | T_OPT_ENV \<Rightarrow> prop_add_env getenv arg st)"

subsection \<open>Checking the properties of a symbol\<close>

definition menu_range_valid_sym :: "symptr \<Rightarrow> symptr \<Rightarrow> kstate \<Rightarrow> bool" where
  "menu_range_valid_sym s s2 st \<longleftrightarrow>
     sym_type (syms st s2) = S_INT \<or> sym_type (syms st s2) = S_HEX \<or>
     (sym_type (syms st s2) = S_UNKNOWN \<and>
      sym_string_valid (sym_type (syms st s)) (name_string (syms st) s2))"

datatype prop_warning =
  Default_not_symbol | Select_not_boolean | Select_wrong_type | Range_not_number | Range_invalid

definition is_tri :: "symbol_type \<Rightarrow> bool" where
  "is_tri ty \<longleftrightarrow> ty = S_BOOLEAN \<or> ty = S_TRISTATE"

definition check_one_prop :: "symptr \<Rightarrow> nat \<Rightarrow> kstate \<Rightarrow> prop_warning list option" where
  "check_one_prop s p st =
     (let ty = sym_type (syms st s); q = props st p in
      case prop_type q of
        P_DEFAULT \<Rightarrow>
          if ty \<in> {S_STRING, S_INT, S_HEX} then
            (if prop_expr q = Null then None
             else Some (if etype (prop_expr q) \<noteq> Ty_SYMBOL then [Default_not_symbol] else []))
          else Some []
      | P_SELECT \<Rightarrow>
          if \<not> is_tri ty then Some [Select_not_boolean]
          else map_option (\<lambda>s2.
                 if sym_type (syms st s2) \<noteq> S_UNKNOWN \<and> \<not> is_tri (sym_type (syms st s2))
                 then [Select_wrong_type] else []) (prop_get_symbol q)
      | P_RANGE \<Rightarrow>
          map_option (\<lambda>(a, b).
            (if ty \<noteq> S_INT \<and> ty \<noteq> S_HEX then [Range_not_number] else []) @
            (if \<not> menu_range_valid_sym s a st \<or> \<not> menu_range_valid_sym s b st
             then [Range_invalid] else [])) (range_bounds (prop_expr q))
      | _ \<Rightarrow> Some [])"

fun check_prop_list :: "symptr \<Rightarrow> nat list \<Rightarrow> kstate \<Rightarrow> prop_warning list option" where
  "check_prop_list s [] st = Some []"
| "check_prop_list s (p # ps) st =
     do { w \<leftarrow> check_one_prop s p st; ws \<leftarrow> check_prop_list s ps st; Some (w @ ws) }"

definition sym_check_prop :: "symptr \<Rightarrow> kstate \<Rightarrow> prop_warning list option" where
  "sym_check_prop s st = check_prop_list s (sym_prop (syms st s)) st"

subsection \<open>Finalizing the menus\<close>

text \<open>The entries reached from a \<^verbatim>\<open>list\<close> or \<^verbatim>\<open>next\<close> pointer; \<open>n\<close> bounds their number.\<close>

fun siblings :: "nat \<Rightarrow> (nat \<Rightarrow> menu) \<Rightarrow> nat option \<Rightarrow> nat list option" where
  "siblings n ms None = Some []"
| "siblings 0 ms (Some m) = None"
| "siblings (Suc n) ms (Some m) = map_option (Cons m) (siblings n ms (menu_next (ms m)))"

definition children :: "nat \<Rightarrow> kstate \<Rightarrow> nat list option" where
  "children m st = siblings (next_menu st) (menus st) (menu_list (menus st m))"

definition sym_type_known :: "nat \<Rightarrow> kstate \<Rightarrow> symbol_type option" where
  "sym_type_known m st =
     (case menu_sym (menus st m) of
        Some s \<Rightarrow> if sym_type (syms st s) \<noteq> S_UNKNOWN then Some (sym_type (syms st s)) else None
      | None \<Rightarrow> None)"

text \<open>The type of a choice is that of its first typed value.\<close>

fun choice_type :: "nat list \<Rightarrow> kstate \<Rightarrow> kstate option" where
  "choice_type [] st = Some st"
| "choice_type (m # ms) st =
     (case sym_type_known m st of Some ty \<Rightarrow> menu_set_type ty st | None \<Rightarrow> choice_type ms st)"

text \<open>Untyped values get the type of the choice \<open>c\<close>.\<close>

fun value_types :: "symptr \<Rightarrow> nat list \<Rightarrow> kstate \<Rightarrow> kstate option" where
  "value_types c [] st = Some st"
| "value_types c (m # ms) st =
     do { let st1 = st\<lparr>current_entry := m\<rparr>;
          st2 \<leftarrow> (if menu_sym (menus st1 m) \<noteq> None \<and> sym_type_known m st1 = None
                  then menu_set_type (sym_type (syms st1 c)) st1 else Some st1);
          value_types c ms st2 }"

definition set_choice_types :: "nat \<Rightarrow> symptr \<Rightarrow> nat list \<Rightarrow> kstate \<Rightarrow> kstate option" where
  "set_choice_types parent c ms st =
     do { st1 \<leftarrow> (if sym_type (syms st c) = S_UNKNOWN
                  then choice_type ms (st\<lparr>current_entry := parent\<rparr>) else Some st);
          value_types c ms st1 }"

definition prompt_dep :: "nat \<Rightarrow> kstate \<Rightarrow> expr option" where
  "prompt_dep m st = map_option (\<lambda>p. visible_expr (props st p)) (menu_prompt (menus st m))"

text \<open>The dependencies of a property, in place of those that were written.\<close>

definition finalize_prop :: "nat \<Rightarrow> expr \<Rightarrow> nat \<Rightarrow> kstate \<Rightarrow> kstate option" where
  "finalize_prop m basedep p st =
     (if prop_menu (props st p) \<noteq> Some m then Some st
      else
        do { let so = menu_sym (menus st m);
             dep \<leftarrow> expr_eliminate_dups (syms st)
               (expr_alloc_and (expr_copy basedep) (expr_transform (syms st) (visible_expr (props st p))));
             let dep' = (case so of
                 Some s \<Rightarrow> if sym_type (syms st s) \<noteq> S_TRISTATE then expr_trans_bool (syms st) dep else dep
               | None \<Rightarrow> dep);
             let st1 = upd_prop p (\<lambda>q. q\<lparr>visible_expr := dep'\<rparr>) st;
             if prop_type (props st1 p) = P_SELECT then
               do { es \<leftarrow> prop_get_symbol (props st1 p);
                    s \<leftarrow> so;
                    Some (upd_sym es (\<lambda>y. y\<lparr>rev_dep_expr := expr_alloc_or (rev_dep_expr y)
                      (expr_alloc_and (expr_alloc_symbol s) (expr_copy dep'))\<rparr>) st1) }
             else Some st1 })"

fun finalize_props :: "nat \<Rightarrow> expr \<Rightarrow> nat list \<Rightarrow> kstate \<Rightarrow> kstate option" where
  "finalize_props m basedep [] st = Some st"
| "finalize_props m basedep (p # ps) st =
     do { st1 \<leftarrow> finalize_prop m basedep p st; finalize_props m basedep ps st1 }"

text \<open>The properties of the symbol of an entry, or its prompt alone.\<close>

definition entry_props :: "nat \<Rightarrow> kstate \<Rightarrow> nat list" where
  "entry_props m st =
     (case menu_sym (menus st m) of
        Some s \<Rightarrow> sym_prop (syms st s)
      | None \<Rightarrow> (case menu_prompt (menus st m) of Some p \<Rightarrow> [p] | None \<Rightarrow> []))"

fun propagate_deps :: "expr \<Rightarrow> nat list \<Rightarrow> kstate \<Rightarrow> kstate option" where
  "propagate_deps parentdep [] st = Some st"
| "propagate_deps parentdep (m # ms) st =
     do { basedep \<leftarrow> expr_eliminate_dups (syms st)
            (expr_alloc_and (expr_copy parentdep) (expr_transform (syms st) (menu_dep (menus st m))));
          let st1 = upd_menu m (\<lambda>x. x\<lparr>menu_dep := basedep\<rparr>) st;
          st2 \<leftarrow> finalize_props m basedep (entry_props m st1) st1;
          propagate_deps parentdep ms st2 }"

text \<open>
  The head of \<open>menu_finalize\<close> for an entry with a list: types of choice values, then the
  dependencies of the entries of the list.
\<close>

definition finalize_head :: "nat \<Rightarrow> kstate \<Rightarrow> kstate option" where
  "finalize_head parent st =
     do { ms \<leftarrow> children parent st;
          let so = menu_sym (menus st parent);
          (parentdep, st1) \<leftarrow>
            (case so of
               Some c \<Rightarrow>
                 if sym_is_choice (syms st c)
                 then map_option (Pair (expr_alloc_symbol c)) (set_choice_types parent c ms st)
                 else Some (case prompt_dep parent st of Some d \<Rightarrow> d | None \<Rightarrow> menu_dep (menus st parent), st)
             | None \<Rightarrow> Some (case prompt_dep parent st of Some d \<Rightarrow> d | None \<Rightarrow> menu_dep (menus st parent), st));
          propagate_deps parentdep ms st1 }"

text \<open>\<open>fin\<close> is the recursive call, \<open>n\<close> bounds the number of steps of a loop.\<close>

type_synonym finalizer = "nat \<Rightarrow> kstate \<Rightarrow> kstate option"

fun finalize_list :: "nat \<Rightarrow> finalizer \<Rightarrow> nat option \<Rightarrow> kstate \<Rightarrow> kstate option" where
  "finalize_list n fin None st = Some st"
| "finalize_list 0 fin (Some m) st = None"
| "finalize_list (Suc n) fin (Some m) st =
     do { st1 \<leftarrow> fin m st; finalize_list n fin (menu_next (menus st1 m)) st1 }"

text \<open>
  Whether the dependency of the entry \<open>m\<close> follows from the prompt of \<open>s\<close>, so that it moves below
  the entry of \<open>s\<close>; \<open>None\<close> when the elimination does not return.
\<close>

definition entry_dep :: "nat \<Rightarrow> kstate \<Rightarrow> expr" where
  "entry_dep m st = (case prompt_dep m st of Some d \<Rightarrow> d | None \<Rightarrow> menu_dep (menus st m))"

definition depends_on_entry :: "symptr \<Rightarrow> expr \<Rightarrow> nat \<Rightarrow> kstate \<Rightarrow> bool option" where
  "depends_on_entry s basedep m st =
     (let dep = entry_dep m st in
      if \<not> expr_contains_symbol dep s then Some False
      else if expr_depends_symbol dep s then Some True
      else
        do { d \<leftarrow> expr_eliminate_dups (syms st)
               (expr_transform (syms st) (expr_trans_compare dep Ty_UNEQUAL symbol_no));
             Some (expr_is_yes (snd (expr_eliminate_eq d (expr_copy basedep)))) })"

text \<open>The entries behind \<open>parent\<close> that depend on it; the value is the last one.\<close>

fun take_dependents ::
    "nat \<Rightarrow> finalizer \<Rightarrow> nat \<Rightarrow> symptr \<Rightarrow> expr \<Rightarrow> nat option \<Rightarrow> nat option \<Rightarrow> kstate \<Rightarrow>
     (nat option \<times> kstate) option" where
  "take_dependents n fin parent s basedep l0 None st = Some (l0, st)"
| "take_dependents 0 fin parent s basedep l0 (Some m) st = None"
| "take_dependents (Suc n) fin parent s basedep l0 (Some m) st =
     do { b \<leftarrow> depends_on_entry s basedep m st;
          if \<not> b then Some (l0, st)
          else
            do { st1 \<leftarrow> fin m st;
                 let st2 = upd_menu m (\<lambda>x. x\<lparr>menu_parent := Some parent\<rparr>) st1;
                 take_dependents n fin parent s basedep (Some m) (menu_next (menus st2 m)) st2 } }"

definition move_dependents :: "nat \<Rightarrow> nat \<Rightarrow> kstate \<Rightarrow> kstate" where
  "move_dependents parent l st =
     (let first = menu_next (menus st parent);
          st1 = upd_menu parent (\<lambda>x. x\<lparr>menu_list := first\<rparr>) st;
          rest = menu_next (menus st1 l);
          st2 = upd_menu parent (\<lambda>x. x\<lparr>menu_next := rest\<rparr>) st1
      in upd_menu l (\<lambda>x. x\<lparr>menu_next := None\<rparr>) st2)"

definition finalize_single :: "finalizer \<Rightarrow> nat \<Rightarrow> symptr \<Rightarrow> kstate \<Rightarrow> kstate option" where
  "finalize_single fin parent s st =
     do { basedep \<leftarrow> expr_eliminate_dups (syms st) (expr_transform (syms st)
            (expr_trans_compare (case prompt_dep parent st of Some d \<Rightarrow> d | None \<Rightarrow> Null) Ty_UNEQUAL symbol_no));
          (l, st1) \<leftarrow> take_dependents (next_menu st) fin parent s basedep None (menu_next (menus st parent)) st;
          Some (case l of Some m \<Rightarrow> move_dependents parent m st1 | None \<Rightarrow> st1) }"

text \<open>A new last element of a list of symbols: the pointers to the left are followed to the null.\<close>

fun append_list :: "expr \<Rightarrow> symptr \<Rightarrow> expr option" where
  "append_list Null s = Some (E_LIST Null s)"
| "append_list (E_LIST l t) s = map_option (\<lambda>l'. E_LIST l' t) (append_list l s)"
| "append_list _ s = None"

definition add_dep_prop :: "nat \<Rightarrow> expr \<Rightarrow> nat \<Rightarrow> kstate \<Rightarrow> kstate" where
  "add_dep_prop m basedep p st =
     (if prop_menu (props st p) \<noteq> Some m then st
      else upd_prop p (\<lambda>q. q\<lparr>visible_expr := expr_alloc_and (expr_copy basedep) (visible_expr q)\<rparr>) st)"

text \<open>The entry \<open>m\<close> with the symbol \<open>s\<close> becomes a value of the choice \<open>c\<close>.\<close>

definition make_choice_value :: "symptr \<Rightarrow> nat \<Rightarrow> symptr \<Rightarrow> kstate \<Rightarrow> kstate option" where
  "make_choice_value c m s st =
     do { let st1 = set_flags {SYMBOL_CHOICEVAL} s (st\<lparr>current_entry := m\<rparr>);
          let st2 =
            (if sym_type (syms st1 c) = S_TRISTATE \<and> sym_type (syms st1 s) \<noteq> S_TRISTATE then
               let basedep = expr_alloc_comp Ty_EQUAL c symbol_yes in
               fold (add_dep_prop m basedep) (sym_prop (syms st1 s))
                 (upd_menu m (\<lambda>x. x\<lparr>menu_dep := expr_alloc_and basedep (menu_dep x)\<rparr>) st1)
             else st1);
          st3 \<leftarrow> menu_add_symbol P_CHOICE c Null st2;
          p \<leftarrow> sym_get_choice_prop c st3;
          e \<leftarrow> append_list (prop_expr (props st3 p)) s;
          Some (set_prop_expr p e st3) }"

text \<open>The list of an entry without a text moves behind the entry, one level up.\<close>

definition has_text :: "nat \<Rightarrow> kstate \<Rightarrow> bool" where
  "has_text m st \<longleftrightarrow>
     (case menu_prompt (menus st m) of Some p \<Rightarrow> prop_text (props st p) \<noteq> None | None \<Rightarrow> False)"

definition flatten_entry :: "nat \<Rightarrow> nat \<Rightarrow> kstate \<Rightarrow> kstate option" where
  "flatten_entry parent m st =
     (if menu_list (menus st m) = None \<or> has_text m st then Some st
      else
        do { ms \<leftarrow> children m st;
             let st1 = fold (\<lambda>k. upd_menu k (\<lambda>x. x\<lparr>menu_parent := Some parent\<rparr>)) ms st;
             let rest = menu_next (menus st1 m);
             let st2 = upd_menu (last ms) (\<lambda>x. x\<lparr>menu_next := rest\<rparr>) st1;
             let st3 = upd_menu m (\<lambda>x. x\<lparr>menu_next := menu_list (menus st2 m)\<rparr>) st2;
             Some (upd_menu m (\<lambda>x. x\<lparr>menu_list := None\<rparr>) st3) })"

definition finalize_value :: "nat \<Rightarrow> nat \<Rightarrow> kstate \<Rightarrow> kstate option" where
  "finalize_value parent m st =
     (case (menu_sym (menus st parent), menu_sym (menus st m)) of
        (Some c, Some s) \<Rightarrow>
          if sym_is_choice (syms st c) \<and> \<not> sym_is_choice_value (syms st s)
          then make_choice_value c m s st else Some st
      | _ \<Rightarrow> Some st)"

fun finalize_tail :: "nat \<Rightarrow> nat \<Rightarrow> nat option \<Rightarrow> kstate \<Rightarrow> kstate option" where
  "finalize_tail n parent None st = Some st"
| "finalize_tail 0 parent (Some m) st = None"
| "finalize_tail (Suc n) parent (Some m) st =
     do { st1 \<leftarrow> finalize_value parent m st;
          st2 \<leftarrow> flatten_entry parent m st1;
          finalize_tail n parent (menu_next (menus st2 m)) st2 }"

definition finalize_symbol :: "nat \<Rightarrow> symptr \<Rightarrow> kstate \<Rightarrow> kstate option" where
  "finalize_symbol parent s st =
     do { st1 \<leftarrow> (if SYMBOL_WARNED \<in> flags (syms st s) then Some st
                  else map_option (\<lambda>_. set_flags {SYMBOL_WARNED} s st) (sym_check_prop s st));
          Some (case prompt_dep parent st1 of
                  Some d \<Rightarrow>
                    if sym_is_optional (syms st1 s) then st1
                    else upd_sym s (\<lambda>y. y\<lparr>rev_dep_expr := expr_alloc_or (rev_dep_expr y)
                           (expr_alloc_and d (expr_alloc_symbol symbol_mod))\<rparr>) st1
                | None \<Rightarrow> st1) }"

fun menu_finalize :: "nat \<Rightarrow> nat \<Rightarrow> kstate \<Rightarrow> kstate option" where
  "menu_finalize 0 parent st = None"
| "menu_finalize (Suc n) parent st =
     do { let so = menu_sym (menus st parent);
          st1 \<leftarrow> (if menu_list (menus st parent) \<noteq> None then
                     do { st0 \<leftarrow> finalize_head parent st;
                          finalize_list (next_menu st0) (menu_finalize n) (menu_list (menus st0 parent)) st0 }
                   else case so of Some s \<Rightarrow> finalize_single (menu_finalize n) parent s st | None \<Rightarrow> Some st);
          st2 \<leftarrow> finalize_tail (next_menu st1) parent (menu_list (menus st1 parent)) st1;
          case so of Some s \<Rightarrow> finalize_symbol parent s st2 | None \<Rightarrow> Some st2 }"

subsection \<open>Queries\<close>

definition menu_has_prompt :: "nat \<Rightarrow> kstate \<Rightarrow> bool" where
  "menu_has_prompt m st \<longleftrightarrow> menu_prompt (menus st m) \<noteq> None"

text \<open>\<open>menu_is_visible\<close>, with fuel for the depth of the menus and the length of their lists.\<close>

fun menu_is_visible_fuel :: "nat \<Rightarrow> nat \<Rightarrow> kstate \<Rightarrow> (bool \<times> kstate) option"
  and any_visible :: "nat \<Rightarrow> nat option \<Rightarrow> kstate \<Rightarrow> (bool \<times> kstate) option" where
  "menu_is_visible_fuel 0 m st = None"
| "menu_is_visible_fuel (Suc n) m st =
     (case menu_prompt (menus st m) of
        None \<Rightarrow> Some (False, st)
      | Some p \<Rightarrow>
          do { (vis, st1) \<leftarrow>
                 (case menu_sym (menus st m) of
                    Some s \<Rightarrow> map_option (\<lambda>st1. (visible_tri (props st1 p), st1)) (calc_value s st)
                  | None \<Rightarrow> calc_prop_visible calc_value p st);
               if vis \<noteq> TNo then Some (True, st1)
               else case menu_sym (menus st1 m) of
                 None \<Rightarrow> Some (False, st1)
               | Some s \<Rightarrow>
                   if sym_get_tristate_value (syms st1 s) = TNo then Some (False, st1)
                   else any_visible n (menu_list (menus st1 m)) st1 })"
| "any_visible 0 mo st = None"
| "any_visible (Suc n) None st = Some (False, st)"
| "any_visible (Suc n) (Some m) st =
     do { (v, st1) \<leftarrow> menu_is_visible_fuel n m st;
          if v then Some (True, st1) else any_visible n (menu_next (menus st1 m)) st1 }"

definition menu_is_visible :: "nat \<Rightarrow> kstate \<Rightarrow> (bool \<times> kstate) option" where
  "menu_is_visible m st = menu_is_visible_fuel (2 * next_menu st + 2) m st"

definition menu_get_prompt :: "nat \<Rightarrow> kstate \<Rightarrow> string option" where
  "menu_get_prompt m st =
     (case menu_prompt (menus st m) of
        Some p \<Rightarrow> prop_text (props st p)
      | None \<Rightarrow> (case menu_sym (menus st m) of Some s \<Rightarrow> sym_name (syms st s) | None \<Rightarrow> None))"

definition menu_get_root_menu :: "nat \<Rightarrow> nat" where
  "menu_get_root_menu m = rootmenu"

fun menu_get_parent_menu :: "nat \<Rightarrow> nat \<Rightarrow> kstate \<Rightarrow> nat option" where
  "menu_get_parent_menu 0 m st = None"
| "menu_get_parent_menu (Suc n) m st =
     (if m = rootmenu then Some m
      else if (case menu_prompt (menus st m) of Some p \<Rightarrow> prop_type (props st p) = P_MENU | None \<Rightarrow> False)
      then Some m
      else Option.bind (menu_parent (menus st m)) (\<lambda>k. menu_get_parent_menu n k st))"

definition menu_has_help :: "nat \<Rightarrow> kstate \<Rightarrow> bool" where
  "menu_has_help m st \<longleftrightarrow> menu_help (menus st m) \<noteq> None"

definition menu_get_help :: "nat \<Rightarrow> kstate \<Rightarrow> string" where
  "menu_get_help m st = (case menu_help (menus st m) of Some h \<Rightarrow> h | None \<Rightarrow> [])"

end
