(* ===== verification/World.thy ===== *)
theory World
  imports CLib
begin

text \<open>
  The file system as the sources use it.  \<open>w_files\<close> gives the contents of the files,
  \<open>w_dirs\<close> the directories; the working directory has the empty name.  The record \<open>os\<close> holds what
  comes from outside: the environment, the operations the system refuses for reasons of its own
  (permissions, full disks), the text of \<^verbatim>\<open>ctime\<close> and the process number.
\<close>

record world =
  w_files :: "string \<Rightarrow> string option"
  w_dirs :: "string \<Rightarrow> bool"

record os =
  os_getenv :: "string \<Rightarrow> string option"
  os_denied :: "string \<Rightarrow> bool"
  os_ctime :: string
  os_pid :: nat

text \<open>The part of a path before its last slash, and the part up to and with it.\<close>

definition upto_slash :: "string \<Rightarrow> string" where
  "upto_slash p = rev (dropWhile (\<lambda>c. c \<noteq> CHR ''/'') (rev p))"

definition after_slash :: "string \<Rightarrow> string" where
  "after_slash p = rev (takeWhile (\<lambda>c. c \<noteq> CHR ''/'') (rev p))"

definition dirname :: "string \<Rightarrow> string" where
  "dirname p = butlast (upto_slash p)"

lemma upto_after_slash: "upto_slash p @ after_slash p = p"
  by (simp add: upto_slash_def after_slash_def flip: rev_append)

text \<open>Whether a path names something, as \<^verbatim>\<open>stat\<close> tells.\<close>

definition path_exists :: "string \<Rightarrow> world \<Rightarrow> bool" where
  "path_exists p w \<longleftrightarrow> w_files w p \<noteq> None \<or> w_dirs w p"

definition put_file :: "string \<Rightarrow> string \<Rightarrow> world \<Rightarrow> world" where
  "put_file p text w = w\<lparr>w_files := (w_files w)(p := Some text)\<rparr>"

text \<open>Opening a file for writing: the system refuses, the directory is missing, or it is empty now.\<close>

datatype open_result = Open_denied | Open_missing | Opened world

definition open_write :: "os \<Rightarrow> string \<Rightarrow> world \<Rightarrow> open_result" where
  "open_write env p w =
     (if \<not> (dirname p = [] \<or> w_dirs w (dirname p)) then Open_missing
      else if os_denied env p \<or> w_dirs w p then Open_denied
      else Opened (put_file p [] w))"

text \<open>\<^verbatim>\<open>rename(a, b)\<close>; \<open>None\<close> when it fails.\<close>

definition rename_file :: "os \<Rightarrow> string \<Rightarrow> string \<Rightarrow> world \<Rightarrow> world option" where
  "rename_file env a b w =
     (if os_denied env b \<or> w_dirs w b then None
      else map_option (\<lambda>text. w\<lparr>w_files := ((w_files w)(a := None))(b := Some text)\<rparr>) (w_files w a))"

definition make_dir :: "os \<Rightarrow> string \<Rightarrow> world \<Rightarrow> world option" where
  "make_dir env p w =
     (if p = [] \<or> os_denied env p \<or> path_exists p w \<or> \<not> (dirname p = [] \<or> w_dirs w (dirname p)) then None
      else Some (w\<lparr>w_dirs := (w_dirs w)(p := True)\<rparr>))"

end
