(* ===== verification/KFiles.thy ===== *)
theory KFiles
  imports SymOps World
begin

text \<open>
  The source files of the configuration and the file of dependencies for the build
  (\<^verbatim>\<open>util.c\<close>).  A directory is enabled when a package in it is selected.
\<close>

subsection \<open>Directories and files\<close>

definition dir_lookup :: "string \<Rightarrow> kstate \<Rightarrow> nat \<times> kstate" where
  "dir_lookup name st =
     (case find (\<lambda>d. dir_name (kdirs st d) = name) (dir_list st) of
        Some d \<Rightarrow> (d, st)
      | None \<Rightarrow>
          let d = length (dir_list st) in
          (d, st\<lparr>kdirs := (kdirs st)(d := \<lparr>dir_name = name, dir_enabled = False\<rparr>),
                 dir_list := d # dir_list st\<rparr>))"

definition file_lookup :: "string \<Rightarrow> kstate \<Rightarrow> nat \<times> kstate" where
  "file_lookup name st =
     (case find (\<lambda>f. file_name (kfiles st f) = name) (file_list st) of
        Some f \<Rightarrow> (f, st)
      | None \<Rightarrow>
          let f = length (file_list st);
              (d, st1) = dir_lookup (if CHR ''/'' \<in> set name then dirname name else []) st
          in (f, st1\<lparr>kfiles := (kfiles st1)(f := \<lparr>file_name = name, file_parent = None, file_dir = d,
                       file_lineno = 0, file_busy = False, file_scanned = False\<rparr>),
                     file_list := f # file_list st1\<rparr>))"

text \<open>The directory of a file; \<open>None\<close> for a null pointer.\<close>

definition dir_of :: "nat option \<Rightarrow> kstate \<Rightarrow> nat option" where
  "dir_of fo st = map_option (\<lambda>f. file_dir (kfiles st f)) fo"

subsection \<open>Dependencies between packages\<close>

text \<open>
  \<open>d\<close> is the directory of the symbol whose dependencies are printed.  The callbacks of
  \<open>expr_print\<close> print only symbols of other, enabled directories, after the head of the line when
  it is the first.
\<close>

definition dep_wanted :: "nat \<Rightarrow> symptr option \<Rightarrow> kstate \<Rightarrow> nat option" where
  "dep_wanted d so st =
     (case so of
        None \<Rightarrow> None
      | Some s \<Rightarrow>
          (case dir_of (sym_file (syms st s)) st of
             None \<Rightarrow> None
           | Some e \<Rightarrow>
               if dir_name (kdirs st e) = [] \<or> \<not> dir_enabled (kdirs st e) \<or> d = e then None else Some e))"

definition print_dir_dep :: "nat \<Rightarrow> kstate \<Rightarrow> print_call \<Rightarrow> string \<times> nat \<Rightarrow> string \<times> nat" where
  "print_dir_dep d st c acc =
     (case (dep_wanted d (fst c) st, acc) of
        (None, a) \<Rightarrow> a
      | (Some e, (text0, printed)) \<Rightarrow>
          (text0 @ (if printed = 0 then dir_name (kdirs st d) @ ''/compile: '' else []) @
             dir_name (kdirs st e) @ ''/staging '', Suc printed))"

definition print_pkg_dep :: "nat \<Rightarrow> kstate \<Rightarrow> print_call \<Rightarrow> string \<times> nat \<Rightarrow> string \<times> nat" where
  "print_pkg_dep d st c acc =
     (case (dep_wanted d (fst c) st, acc) of
        (None, a) \<Rightarrow> a
      | (Some e, (text0, printed)) \<Rightarrow>
          (text0 @ (if printed = 0 then dir_name (kdirs st d) @ ''/build-deps += '' else []) @
             dir_name (kdirs st e) @ '' '', Suc printed))"

fun print_props ::
    "(kstate \<Rightarrow> print_call \<Rightarrow> string \<times> nat \<Rightarrow> string \<times> nat) \<Rightarrow> nat list \<Rightarrow> kstate \<Rightarrow> string \<times> nat \<Rightarrow>
     ((string \<times> nat) \<times> kstate) option" where
  "print_props pr [] st acc = Some (acc, st)"
| "print_props pr (p # ps) st acc =
     (if prop_type (props st p) = P_BUILD_SELECT \<or> prop_type (props st p) = P_BUILD_DEPENDS then
        do { (v, st1) \<leftarrow> (if prop_type (props st p) = P_BUILD_SELECT
                           then expr_calc_value (visible_expr (props st p)) st else Some (TYes, st));
             print_props pr ps st1
               (if v = TNo then acc
                else fold (pr st1) (expr_print (syms st1) (prop_expr (props st1 p)) Ty_NONE) acc) }
      else print_props pr ps st acc)"

definition newline_string :: string where "newline_string = [newline]"

definition print_build_deps :: "symptr \<Rightarrow> kstate \<Rightarrow> (string \<times> kstate) option" where
  "print_build_deps s st =
     (case dir_of (sym_file (syms st s)) st of
        None \<Rightarrow> Some ([], st)
      | Some d \<Rightarrow>
          if dir_name (kdirs st d) = [] \<or> \<not> dir_enabled (kdirs st d) then Some ([], st)
          else
            do { ((t1, n1), st1) \<leftarrow> print_props (print_dir_dep d) (sym_prop (syms st s)) st ([], 0);
                 if n1 = 0 then Some (t1, st1)
                 else
                   do { ((t2, n2), st2) \<leftarrow> print_props (print_pkg_dep d) (sym_prop (syms st1 s)) st1 ([], 0);
                        Some (t1 @ newline_string @ t2 @ newline_string, st2) } })"

subsection \<open>The file\<close>

text \<open>The names of the files, the last one without a continuation.\<close>

fun file_lines :: "string list \<Rightarrow> string" where
  "file_lines [] = []"
| "file_lines (n # ns) =
     (if ns \<noteq> [] then CHR 0x09 # n @ '' '' @ [CHR 0x5C, newline] else CHR 0x09 # n @ newline_string) @ file_lines ns"

fun env_lines :: "(string \<Rightarrow> string option) \<Rightarrow> string \<Rightarrow> symptr list \<Rightarrow> kstate \<Rightarrow> string option" where
  "env_lines getenv auto [] st = Some []"
| "env_lines getenv auto (s # ss) st =
     do { p \<leftarrow> sym_get_env_prop s st;
          rest \<leftarrow> env_lines getenv auto ss st;
          case prop_get_symbol (props st p) of
            None \<Rightarrow> Some rest
          | Some e \<Rightarrow>
              (let n = name_string (syms st) e in
               Some (''ifneq '' @ [CHR 0x22] @ ''$('' @ n @ '')'' @ [CHR 0x22] @ '' '' @ [CHR 0x22] @
                 (case getenv n of Some v \<Rightarrow> v | None \<Rightarrow> []) @ [CHR 0x22, newline] @
                 auto @ '': FORCE'' @ newline_string @ ''endif'' @ newline_string @ rest)) }"

fun package_lines :: "symptr list \<Rightarrow> kstate \<Rightarrow> (string \<times> kstate) option" where
  "package_lines [] st = Some ([], st)"
| "package_lines (s # ss) st =
     (case sym_get_pkg_prop s st of
        None \<Rightarrow> package_lines ss st
      | Some p \<Rightarrow>
          do { d \<leftarrow> dir_of (prop_file (props st p)) st;
               let n = dir_name (kdirs st d);
               let on = (sym_get_tristate_value (syms st s) = TYes);
               let st1 = (if on then st\<lparr>kdirs := (kdirs st)(d := (kdirs st d)\<lparr>dir_enabled := True\<rparr>)\<rparr> else st);
               (rest, st2) \<leftarrow> package_lines ss st1;
               Some (''all_packages += '' @ n @ newline_string @
                 (if on then ''packages += '' @ n @ newline_string else []) @ newline_string @ rest, st2) })"

fun srcdir_lines :: "symptr list \<Rightarrow> kstate \<Rightarrow> (string \<times> kstate) option" where
  "srcdir_lines [] st = Some ([], st)"
| "srcdir_lines (s # ss) st =
     do { (t, st1) \<leftarrow>
            (case sym_get_srcdir_prop s st of
               Some p \<Rightarrow>
                 do { d \<leftarrow> dir_of (prop_file (props st p)) st;
                      let n = dir_name (kdirs st d);
                      let v = name_string (syms st) s;
                      Some (n @ ''/srcdir = $(call mksrcdir,$(MKR_'' @ v @ ''))'' @ newline_string @
                        n @ ''/srcdir-var = MKR_'' @ v @ newline_string @ newline_string, st) }
             | None \<Rightarrow>
                 if (sym_type (syms st s) = S_BOOLEAN \<or> sym_type (syms st s) = S_TRISTATE) \<and>
                    sym_get_tristate_value (syms st s) \<noteq> TNo
                 then print_build_deps s st else Some ([], st));
          (rest, st2) \<leftarrow> srcdir_lines ss st1;
          Some (t @ rest, st2) }"

definition dep_text :: "(string \<Rightarrow> string option) \<Rightarrow> string \<Rightarrow> kstate \<Rightarrow> (string \<times> kstate) option" where
  "dep_text getenv auto st =
     do { envs \<leftarrow> env_lines getenv auto (expr_list_syms (sym_env_list st)) st;
          (pkgs, st1) \<leftarrow> package_lines (all_symbols st) st;
          (srcs, st2) \<leftarrow> srcdir_lines (all_symbols st1) st1;
          Some (''deps_config := '' @ [CHR 0x5C, newline] @
            file_lines (map (\<lambda>f. file_name (kfiles st f)) (file_list st)) @
            newline_string @ auto @ '': '' @ [CHR 0x5C, newline, CHR 0x09] @ ''$(deps_config)'' @
            newline_string @ newline_string @ envs @
            newline_string @ ''$(deps_config): ;'' @ newline_string @ newline_string @
            ''all_packages :='' @ newline_string @ ''packages :='' @ newline_string @
            ''srcdirs ='' @ newline_string @ pkgs @ srcs, st2) }"

text \<open>\<open>file_write_dep\<close>: the value is \<^verbatim>\<open>True\<close> for the return value 1; \<open>auto\<close> names the automatic configuration.\<close>

definition file_write_dep ::
    "os \<Rightarrow> string \<Rightarrow> string option \<Rightarrow> kstate \<Rightarrow> world \<Rightarrow> (bool \<times> kstate \<times> world) option" where
  "file_write_dep env auto nm st w =
     (case open_write env ''..config.tmp'' w of
        Opened w1 \<Rightarrow>
          do { (t, st1) \<leftarrow> dep_text (os_getenv env) auto st;
               let w2 = put_file ''..config.tmp'' t w1;
               Some (False, st1,
                 case rename_file env ''..config.tmp'' (case nm of Some n \<Rightarrow> n | None \<Rightarrow> ''.kconfig.d'') w2 of
                   Some w3 \<Rightarrow> w3 | None \<Rightarrow> w2) }
      | _ \<Rightarrow> Some (True, st, w))"

subsection \<open>Growing strings\<close>

text \<open>A \<^verbatim>\<open>struct gstr\<close> with its allocated length; \<^verbatim>\<open>None\<close> for the null pointer.\<close>

record gstr =
  gs_s :: "string option"
  gs_len :: nat

definition str_new :: gstr where "str_new = \<lparr>gs_s = Some [], gs_len = 64\<rparr>"

definition str_assign :: "string \<Rightarrow> gstr" where "str_assign s = \<lparr>gs_s = Some s, gs_len = length s + 1\<rparr>"

definition str_free :: "gstr \<Rightarrow> gstr" where "str_free gs = \<lparr>gs_s = None, gs_len = 0\<rparr>"

definition str_append :: "string option \<Rightarrow> gstr \<Rightarrow> gstr option" where
  "str_append so gs =
     (case so of
        None \<Rightarrow> Some gs
      | Some s \<Rightarrow>
          map_option (\<lambda>t. let l = length t + length s + 1 in
            \<lparr>gs_s = Some (t @ s), gs_len = (if l > gs_len gs then l else gs_len gs)\<rparr>) (gs_s gs))"

text \<open>The formatted text is cut at 9999 bytes.\<close>

definition str_printf :: "string \<Rightarrow> gstr \<Rightarrow> gstr option" where
  "str_printf formatted gs = str_append (Some (take 9999 formatted)) gs"

definition str_get :: "gstr \<Rightarrow> string option" where "str_get gs = gs_s gs"

text \<open>The string always fits into what is allocated for it.\<close>

definition gstr_ok :: "gstr \<Rightarrow> bool" where
  "gstr_ok gs \<longleftrightarrow> (case gs_s gs of Some s \<Rightarrow> length s < gs_len gs | None \<Rightarrow> gs_len gs = 0)"

lemma str_append_ok: "gstr_ok gs \<Longrightarrow> str_append so gs = Some gs' \<Longrightarrow> gstr_ok gs'"
  by (auto simp: gstr_ok_def str_append_def Let_def split: option.splits if_splits)

lemma str_new_ok: "gstr_ok str_new" "gstr_ok (str_assign s)" "gstr_ok (str_free gs)"
  by (simp_all add: gstr_ok_def str_new_def str_assign_def str_free_def)

end
