(* ===== verification/ConfWrite.thy ===== *)
theory ConfWrite
  imports ConfRead Menu KFiles Fixdep
begin

text \<open>
  Writing a configuration (\<^verbatim>\<open>confdata.c\<close>): \<open>conf_write\<close> for the user's file,
  \<open>conf_write_autoconf\<close> for the automatic one, and \<open>conf_split_config\<close>, which touches one file per
  changed symbol.  Return value 1 is \<^verbatim>\<open>True\<close>.  \<open>None\<close> stands for a null pointer that is followed, or
  a path that overflows a buffer of 128 bytes.
\<close>

subsection \<open>The line of a symbol\<close>

definition config_line :: "symbol \<Rightarrow> string" where
  "config_line y =
     (let n = (case sym_name y of Some n \<Rightarrow> n | None \<Rightarrow> []);
          assign = (\<lambda>v. ''MKR_'' @ n @ ''='' @ v @ newline_string)
      in if sym_type y = S_BOOLEAN \<or> sym_type y = S_TRISTATE then
           (case sym_get_tristate_value y of
              TNo \<Rightarrow> ''# MKR_'' @ n @ '' is not set'' @ newline_string
            | TMod \<Rightarrow> assign ''m''
            | TYes \<Rightarrow> assign ''y'')
         else if sym_type y = S_STRING \<or> sym_type y = S_HEX \<or> sym_type y = S_INT
         then assign (sym_get_string_value y) else [])"

subsection \<open>Walking the menus\<close>

text \<open>The entry after \<open>m\<close>: its list, its successor, or that of the next parent that has one.\<close>

fun climb :: "nat \<Rightarrow> (nat \<Rightarrow> menu) \<Rightarrow> nat \<Rightarrow> nat option option" where
  "climb 0 ms m = None"
| "climb (Suc n) ms m =
     (case menu_parent (ms m) of
        None \<Rightarrow> Some None
      | Some p \<Rightarrow> (case menu_next (ms p) of Some k \<Rightarrow> Some (Some k) | None \<Rightarrow> climb n ms p))"

definition next_entry :: "nat \<Rightarrow> (nat \<Rightarrow> menu) \<Rightarrow> nat \<Rightarrow> nat option option" where
  "next_entry n ms m =
     (case menu_list (ms m) of
        Some c \<Rightarrow> Some (Some c)
      | None \<Rightarrow> (case menu_next (ms m) of Some k \<Rightarrow> Some (Some k) | None \<Rightarrow> climb n ms m))"

definition heading :: "string \<Rightarrow> string" where
  "heading str = newline_string @ ''#'' @ newline_string @ ''# '' @ str @ newline_string @ ''#'' @ newline_string"

text \<open>
  What the loop writes for one entry.  The type of a tristate symbol is read as boolean without
  modules; both print alike.
\<close>

definition write_symbol :: "symptr \<Rightarrow> kstate \<Rightarrow> (string \<times> kstate) option" where
  "write_symbol s st =
     do { st1 \<leftarrow> calc_value s st;
          if SYMBOL_WRITE \<notin> flags (syms st1 s) then Some ([], st1)
          else
            do { let st2 = clear_flags {SYMBOL_WRITE} s st1;
                 st3 \<leftarrow> (if sym_type (syms st2 s) = S_TRISTATE
                         then Option.bind (modules_sym st2) (\<lambda>m. calc_value m st2) else Some st2);
                 Some (config_line (syms st3 s), st3) } }"

definition write_entry :: "nat \<Rightarrow> kstate \<Rightarrow> (string \<times> kstate) option" where
  "write_entry m st =
     (case menu_sym (menus st m) of
        None \<Rightarrow>
          do { (v, st1) \<leftarrow> menu_is_visible m st;
               Some (if v then heading (case menu_get_prompt m st1 of Some t \<Rightarrow> t | None \<Rightarrow> []) else [], st1) }
      | Some s \<Rightarrow>
          if SYMBOL_CHOICE \<in> flags (syms st s) then Some ([], st) else write_symbol s st)"

fun write_entries :: "nat \<Rightarrow> nat option \<Rightarrow> kstate \<Rightarrow> (string \<times> kstate) option" where
  "write_entries n None st = Some ([], st)"
| "write_entries 0 (Some m) st = None"
| "write_entries (Suc n) (Some m) st =
     do { (t, st1) \<leftarrow> write_entry m st;
          k \<leftarrow> next_entry (next_menu st1) (menus st1) m;
          (rest, st2) \<leftarrow> write_entries n k st1;
          Some (t @ rest, st2) }"

subsection \<open>conf_write\<close>

definition fits :: "string \<Rightarrow> unit option" where
  "fits path = (if length path < 128 then Some () else None)"

text \<open>The directory, with its slash, and the name of the file to write.\<close>

definition config_path_parts :: "os \<Rightarrow> string option \<Rightarrow> world \<Rightarrow> string \<times> string" where
  "config_path_parts env nm w =
     (let cn = conf_get_configname (os_getenv env) in
      case nm of
        None \<Rightarrow> ([], cn)
      | Some name \<Rightarrow>
          if name = [] then ([], cn)
          else if w_dirs w name then (name @ ''/'', cn)
          else if CHR ''/'' \<in> set name
          then (upto_slash name, if after_slash name \<noteq> [] then after_slash name else cn)
          else ([], name))"

definition env_set :: "os \<Rightarrow> string \<Rightarrow> bool" where
  "env_set env v \<longleftrightarrow> (case os_getenv env v of Some x \<Rightarrow> x \<noteq> [] | None \<Rightarrow> False)"

definition config_header :: "os \<Rightarrow> string" where
  "config_header env =
     ''#'' @ newline_string @ ''# Automatically generated make config: don'' @ [CHR 0x27] @ ''t edit'' @ newline_string @
     (if env_set env ''KCONFIG_NOTIMESTAMP'' then [] else ''# '' @ os_ctime env) @ ''#'' @ newline_string"

text \<open>The text of the file.  When nothing changed all values are calculated anew.\<close>

definition config_text :: "os \<Rightarrow> kstate \<Rightarrow> (string \<times> kstate) option" where
  "config_text env st =
     do { st1 \<leftarrow> (if conf_get_changed st then Some st else sym_clear_all_valid st);
          (t, st2) \<leftarrow> write_entries (next_menu st1) (menu_list (menus st1 rootmenu)) st1;
          Some (config_header env @ t, st2) }"

definition conf_write ::
    "os \<Rightarrow> string option \<Rightarrow> kstate \<Rightarrow> world \<Rightarrow> (bool \<times> kstate \<times> world) option" where
  "conf_write env nm st w =
     do { let (dir, base) = config_path_parts env nm w;
          let newname = dir @ base;
          let direct = env_set env ''KCONFIG_OVERWRITECONFIG'';
          let tmpname = dir @ ''.tmpconfig.'' @ sprintf_d (int (os_pid env));
          _ \<leftarrow> fits dir; _ \<leftarrow> fits newname;
          _ \<leftarrow> (if direct then Some () else fits tmpname);
          case open_write env (if direct then newname else tmpname) w of
            Opened w1 \<Rightarrow>
              do { (t, st1) \<leftarrow> config_text env st;
                   let w2 = put_file (if direct then newname else tmpname) t w1;
                   if direct then Some (False, sym_set_change_count 0 st1, w2)
                   else
                     do { _ \<leftarrow> fits (newname @ ''.old'');
                          let w3 = (case rename_file env newname (newname @ ''.old'') w2 of Some x \<Rightarrow> x | None \<Rightarrow> w2);
                          case rename_file env tmpname newname w3 of
                            None \<Rightarrow> Some (True, st1, w3)
                          | Some w4 \<Rightarrow> Some (False, sym_set_change_count 0 st1, w4) } }
          | _ \<Rightarrow> Some (True, st, w) }"

subsection \<open>Touching the files of changed symbols\<close>

text \<open>
  Whether the value differs from the one in the old \<^verbatim>\<open>auto.conf\<close>; a value \<open>n\<close> is not stored there.
\<close>

definition split_changed :: "symbol \<Rightarrow> bool option" where
  "split_changed y =
     (if SYMBOL_AUTO \<in> flags y \<or> sym_name y = None then Some False
      else if SYMBOL_WRITE \<in> flags y then
        (if SYMBOL_DEF_AUTO \<in> flags y then
           (if sym_type y = S_BOOLEAN \<or> sym_type y = S_TRISTATE
            then Some (sym_get_tristate_value y \<noteq> sv_tri (def y S_DEF_AUTO))
            else if sym_type y = S_STRING \<or> sym_type y = S_HEX \<or> sym_type y = S_INT
            then map_option Not (strcmp_vals (sv_val (curr y)) (sv_val (def y S_DEF_AUTO)))
            else Some True)
         else Some (\<not> ((sym_type y = S_BOOLEAN \<or> sym_type y = S_TRISTATE) \<and> sym_get_tristate_value y = TNo)))
      else Some (SYMBOL_DEF_AUTO \<in> flags y))"

definition config_dir :: string where "config_dir = ''include/config''"

text \<open>Relative to \<^verbatim>\<open>include/config\<close>, where the function runs; a leading slash is absolute.\<close>

definition in_config_dir :: "string \<Rightarrow> string" where
  "in_config_dir p = (if p = [] \<or> take 1 p = ''/'' then p else config_dir @ ''/'' @ p)"

definition symbol_path :: "string \<Rightarrow> string" where
  "symbol_path name = config_path name @ ''.h''"

text \<open>The directories on the way, from the left; the flag tells that one could not be made.\<close>

fun make_dirs :: "os \<Rightarrow> nat list \<Rightarrow> string \<Rightarrow> world \<Rightarrow> bool \<times> world" where
  "make_dirs env [] p w = (True, w)"
| "make_dirs env (k # ks) p w =
     (let d = in_config_dir (take k p) in
      if d \<noteq> [] \<and> path_exists d w then make_dirs env ks p w
      else case make_dir env d w of
        None \<Rightarrow> (False, w)
      | Some w1 \<Rightarrow> make_dirs env ks p w1)"

definition slashes :: "string \<Rightarrow> nat list" where
  "slashes p = filter (\<lambda>k. p ! k = CHR ''/'') [0..<length p]"

definition touch_symbol :: "os \<Rightarrow> string \<Rightarrow> world \<Rightarrow> bool \<times> world" where
  "touch_symbol env p w =
     (case open_write env (in_config_dir p) w of
        Opened w1 \<Rightarrow> (True, w1)
      | Open_denied \<Rightarrow> (False, w)
      | Open_missing \<Rightarrow>
          (case make_dirs env (slashes p) p w of
             (False, w1) \<Rightarrow> (False, w1)
           | (True, w1) \<Rightarrow>
               (case open_write env (in_config_dir p) w1 of
                  Opened w2 \<Rightarrow> (True, w2)
                | _ \<Rightarrow> (False, w1))))"

fun split_loop :: "os \<Rightarrow> symptr list \<Rightarrow> kstate \<Rightarrow> world \<Rightarrow> (bool \<times> kstate \<times> world) option" where
  "split_loop env [] st w = Some (True, st, w)"
| "split_loop env (s # ss) st w =
     do { st1 \<leftarrow> calc_value s st;
          changed \<leftarrow> split_changed (syms st1 s);
          if \<not> changed then split_loop env ss st1 w
          else
            do { name \<leftarrow> sym_name (syms st1 s);
                 _ \<leftarrow> fits (symbol_path name);
                 case touch_symbol env (symbol_path name) w of
                   (False, w1) \<Rightarrow> Some (False, st1, w1)
                 | (True, w1) \<Rightarrow> split_loop env ss st1 w1 } }"

definition conf_split_config :: "os \<Rightarrow> string \<Rightarrow> kstate \<Rightarrow> world \<Rightarrow> (bool \<times> kstate \<times> world) option" where
  "conf_split_config env junk st w =
     do { (_, st1) \<leftarrow> conf_read_simple (os_getenv env) (w_files w) junk
            (Some (conf_get_autoconfig_name (os_getenv env))) S_DEF_AUTO st;
          if \<not> w_dirs w config_dir then Some (True, st1, w)
          else
            do { (ok, st2, w1) \<leftarrow> split_loop env (all_symbols st1) st1 w;
                 Some (if os_denied env ''../..'' then True else \<not> ok, st2, w1) } }"

subsection \<open>conf_write_autoconf\<close>

text \<open>The lines for both files; a value \<open>n\<close> is left out, the second file has the tristate symbols.\<close>

definition auto_line :: "symbol \<Rightarrow> string" where
  "auto_line y =
     (if SYMBOL_WRITE \<notin> flags y \<or> sym_name y = None then []
      else if (sym_type y = S_BOOLEAN \<or> sym_type y = S_TRISTATE) \<and> sym_get_tristate_value y = TNo then []
      else config_line y)"

definition tristate_line :: "symbol \<Rightarrow> string" where
  "tristate_line y =
     (case sym_name y of
        None \<Rightarrow> []
      | Some n \<Rightarrow>
          if SYMBOL_WRITE \<notin> flags y then []
          else if (sym_type y = S_BOOLEAN \<or> sym_type y = S_TRISTATE) \<and> sym_get_tristate_value y = TMod
          then ''MKR_'' @ n @ ''=M'' @ newline_string
          else if sym_type y = S_TRISTATE \<and> sym_get_tristate_value y = TYes
          then ''MKR_'' @ n @ ''=Y'' @ newline_string
          else [])"

fun auto_lines :: "symptr list \<Rightarrow> kstate \<Rightarrow> (string \<times> string \<times> kstate) option" where
  "auto_lines [] st = Some ([], [], st)"
| "auto_lines (s # ss) st =
     do { st1 \<leftarrow> calc_value s st;
          (a, t, st2) \<leftarrow> auto_lines ss st1;
          Some (auto_line (syms st1 s) @ a, tristate_line (syms st1 s) @ t, st2) }"

definition auto_header :: "os \<Rightarrow> string" where
  "auto_header env =
     ''#'' @ newline_string @ ''# Automatically generated make config: don'' @ [CHR 0x27] @ ''t edit'' @ newline_string @
     ''# '' @ os_ctime env @ ''#'' @ newline_string"

definition tristate_header :: string where
  "tristate_header = ''#'' @ newline_string @ ''# Automatically generated - do not edit'' @ newline_string @ newline_string"

definition conf_write_autoconf ::
    "os \<Rightarrow> string \<Rightarrow> kstate \<Rightarrow> world \<Rightarrow> (bool \<times> kstate \<times> world) option" where
  "conf_write_autoconf env junk st w =
     do { let auto = conf_get_autoconfig_name (os_getenv env);
          st1 \<leftarrow> sym_clear_all_valid st;
          (_, st2, w1) \<leftarrow> file_write_dep env auto (Some ''include/config/auto.conf.cmd'') st1 w;
          (bad, st3, w2) \<leftarrow> conf_split_config env junk st2 w1;
          if bad then Some (True, st3, w2)
          else case open_write env ''.tmpconfig'' w2 of
            Opened w3 \<Rightarrow>
              (case open_write env ''.tmpconfig_tristate'' w3 of
                 Opened w4 \<Rightarrow>
                   do { (a, t, st4) \<leftarrow> auto_lines (all_symbols st3) st3;
                        let w5 = put_file ''.tmpconfig_tristate'' (tristate_header @ t)
                                   (put_file ''.tmpconfig'' (auto_header env @ a) w4);
                        case rename_file env ''.tmpconfig_tristate''
                               (case os_getenv env ''KCONFIG_TRISTATE'' of Some n \<Rightarrow> n | None \<Rightarrow> ''include/config/tristate.conf'') w5 of
                          None \<Rightarrow> Some (True, st4, w5)
                        | Some w6 \<Rightarrow>
                            (case rename_file env ''.tmpconfig'' auto w6 of
                               None \<Rightarrow> Some (True, st4, w6)
                             | Some w7 \<Rightarrow> Some (False, st4, w7)) }
               | _ \<Rightarrow> Some (True, st3, w3))
          | _ \<Rightarrow> Some (True, st3, w2) }"

end
