(* ===== verification/ConfProps.thy ===== *)
theory ConfProps
  imports ConfWrite SymTable
begin

text \<open>
  Properties of reading and writing configurations: what is written for a symbol is read back as
  its value.
\<close>

subsection \<open>The lines in the buffer\<close>

lemma first_line_newline: "newline \<notin> set l \<Longrightarrow> first_line (l @ newline # rest) = l @ [newline]"
proof -
  assume "newline \<notin> set l"
  then have "takeWhile (\<lambda>c. c \<noteq> newline) (l @ newline # rest) = l"
    by (subst takeWhile_append2) auto
  then show ?thesis by (simp add: first_line_def)
qed

lemma fgets_line:
  assumes "newline \<notin> set l" "length l < 1023"
  shows "\<exists>junk. fgets buf (l @ newline # rest) = Some (l @ newline # nul # junk, rest)"
  using assms by (simp add: fgets_def first_line_newline LINE_SIZE_def)

lemma strchr_here:
  assumes "c \<notin> set n" "nul \<notin> set n"
  shows "strchr (n @ c # rest) c = Some (length n)"
proof -
  have "takeWhile (\<lambda>x. x \<noteq> c \<and> x \<noteq> nul) (n @ c # rest) = n"
    using assms by (subst takeWhile_append2) auto
  then show ?thesis by (simp add: strchr_def)
qed

lemma cstr_here: "nul \<notin> set n \<Longrightarrow> cstr (n @ nul # rest) = n"
  by (subst cstr_def, subst takeWhile_append2) auto

lemma update_after: "(n @ c # rest)[length n := d] = n @ d # rest"
  by simp

definition assignment :: "string \<Rightarrow> string \<Rightarrow> string" where
  "assignment n v = ''MKR_'' @ n @ CHR ''='' # v"

definition text_ok :: "string \<Rightarrow> bool" where
  "text_ok v \<longleftrightarrow> nul \<notin> set v \<and> newline \<notin> set v \<and> (v \<noteq> [] \<longrightarrow> last v \<noteq> CHR 0x0D)"

definition name_ok :: "string \<Rightarrow> bool" where
  "name_ok n \<longleftrightarrow> nul \<notin> set n \<and> newline \<notin> set n \<and> CHR ''='' \<notin> set n \<and> CHR '' '' \<notin> set n"

lemma cut_newline_here:
  assumes "text_ok v" "k = length a" "a \<noteq> []" "last a = nul"
  shows "cut_newline k (a @ v @ newline # nul # junk) = a @ v @ nul # nul # junk"
proof -
  have s: "strchr (drop k (a @ v @ newline # nul # junk)) newline = Some (length v)"
    using assms strchr_here[of newline v] by (simp add: text_ok_def)
  have u: "(a @ v @ newline # nul # junk)[k + length v := nul] = a @ v @ nul # nul # junk"
    using assms(2) by (simp add: list_update_append)
  have "(a @ v @ nul # nul # junk) ! (k + length v - 1) \<noteq> CHR 0x0D"
  proof (cases "v = []")
    case True
    then show ?thesis using assms(2-4) by (simp add: nth_append last_conv_nth nul_def)
  next
    case False
    then have "k + length v - 1 = length a + (length v - 1)" using assms(2) by (cases v) auto
    then show ?thesis using False assms(1) by (simp add: nth_append last_conv_nth text_ok_def)
  qed
  then show ?thesis unfolding cut_newline_def s by (simp add: u Let_def)
qed

lemma value_line_here:
  assumes n: "name_ok n" and v: "text_ok v"
    and found: "line_symbol i S_OTHER n st = (Some s, st)"
    and new: "def_flag i \<notin> flags (syms st s)"
  shows "\<exists>buf'. value_line i (assignment n v @ newline # nul # junk) st =
     (if fst (conf_set_sym_val i v s st) then Next_line else Go_on (Some s), buf', snd (conf_set_sym_val i v s st))"
proof -
  let ?buf = "assignment n v @ newline # nul # junk"
  let ?a = "''MKR_'' @ n @ [nul]"
  have c: "strchr (drop 4 ?buf) (CHR ''='') = Some (length n)"
    using n strchr_here[of "CHR ''=''" n] by (simp add: assignment_def name_ok_def)
  have u: "?buf[4 + length n := nul] = ?a @ v @ newline # nul # junk"
    by (simp add: assignment_def list_update_append numeral_eq_Suc)
  have cut: "cut_newline (5 + length n) (?a @ v @ newline # nul # junk) = ?a @ v @ nul # nul # junk"
    by (rule cut_newline_here[OF v]) simp_all
  have s1: "cstr (drop 4 (?a @ v @ nul # nul # junk)) = n"
    using n cstr_here[of n] by (simp add: name_ok_def)
  have "drop (5 + length n) (?a @ v @ nul # nul # junk) = v @ nul # nul # junk"
    by (simp add: numeral_eq_Suc)
  then have s2: "cstr (drop (5 + length n) (?a @ v @ nul # nul # junk)) = v"
    using v cstr_here[of v] by (simp add: text_ok_def)
  have m: "take 4 ?buf = ''MKR_''" by (simp add: assignment_def)
  have w: "warn_override i s st = st" using new by (simp add: warn_override_def)
  show ?thesis
    unfolding value_line_def m c option.case u cut s1 s2 Let_def found prod.case w
    by (cases "conf_set_sym_val i v s st") simp
qed

lemma unset_line_here:
  assumes n: "name_ok n"
    and found: "line_symbol i S_BOOLEAN n st = (Some s, st)"
    and new: "def_flag i \<notin> flags (syms st s)"
    and ty: "sym_type (syms st s) = S_BOOLEAN \<or> sym_type (syms st s) = S_TRISTATE"
  shows "\<exists>buf'. unset_line i (''# MKR_'' @ n @ '' is not set'' @ newline # nul # junk) st =
     (Go_on (Some s), buf', set_def_known i TNo s st)"
proof -
  let ?buf = "''# MKR_'' @ n @ '' is not set'' @ newline # nul # junk"
  let ?buf1 = "''# MKR_'' @ n @ nul # ''is not set'' @ newline # nul # junk"
  have c: "strchr (drop 6 ?buf) (CHR '' '') = Some (length n)"
    using n strchr_here[of "CHR '' ''" n] by (simp add: name_ok_def)
  have u: "?buf[6 + length n := nul] = ?buf1"
    by (simp add: list_update_append numeral_eq_Suc)
  have d: "drop (7 + length n) ?buf1 = (''is not set'' @ [newline]) @ nul # junk"
    by (simp add: numeral_eq_Suc)
  have s1: "take 10 (cstr (drop (7 + length n) ?buf1)) = ''is not set''"
    unfolding d by (subst cstr_here) (simp_all add: nul_def newline_def)
  have s2: "cstr (drop 6 ?buf1) = n" using n cstr_here[of n] by (simp add: name_ok_def)
  have m: "take 4 (drop 2 ?buf) = ''MKR_''" by simp
  have w: "warn_override i s st = st" using new by (simp add: warn_override_def)
  show ?thesis
    unfolding unset_line_def m c option.case u Let_def s1 s2 found prod.case w
    using ty by simp
qed

subsection \<open>One symbol\<close>

text \<open>A symbol whose line can be read back: its name and text survive the line format.\<close>

definition has_number :: "symbol \<Rightarrow> bool" where
  "has_number y \<longleftrightarrow> sym_type y = S_STRING \<or> sym_type y = S_HEX \<or> sym_type y = S_INT"

definition line_fits :: "symbol \<Rightarrow> bool" where
  "line_fits y \<longleftrightarrow>
     (\<exists>n. sym_name y = Some n \<and> name_ok n \<and> length n \<le> 256 \<and>
        (is_tri (sym_type y) \<and> (sym_type y = S_BOOLEAN \<longrightarrow> sym_get_tristate_value y \<noteq> TMod) \<or>
         has_number y \<and> text_ok (sym_get_string_value y) \<and>
         sym_string_valid (sym_type y) (sym_get_string_value y) \<and> length (sym_get_string_value y) < 700))"

text \<open>What reading the line does to the symbol \<open>s\<close>, when \<open>y\<close> is the symbol that was written.\<close>

definition load_value :: "def_index \<Rightarrow> symbol \<Rightarrow> symptr \<Rightarrow> kstate \<Rightarrow> kstate" where
  "load_value i y s st =
     (let st1 = st\<lparr>conf_lineno := Suc (conf_lineno st)\<rparr> in
      if is_tri (sym_type y) then set_def_known i (sym_get_tristate_value y) s st1
      else set_flags {def_flag i} s (store_def_string i s (sym_get_string_value y) st1))"

text \<open>The symbol \<open>s\<close> of the state is found under its name and has no value of the kind \<open>i\<close> yet.\<close>

definition loadable :: "def_index \<Rightarrow> symbol \<Rightarrow> symptr \<Rightarrow> kstate \<Rightarrow> bool" where
  "loadable i y s st \<longleftrightarrow>
     sym_type (syms st s) = sym_type y \<and>
     (i = S_DEF_USER \<longrightarrow> sym_find (sym_name y) st = Some s) \<and>
     (i \<noteq> S_DEF_USER \<longrightarrow> sym_lookup (sym_name y) {} st = (s, st)) \<and>
     def_flag i \<notin> flags (syms st s) \<and> \<not> sym_is_choice_value (syms st s)"

lemma set_flags_fields [simp]:
  "syms (set_flags fs s st) t = (if t = s then (syms st s)\<lparr>flags := flags (syms st s) \<union> fs\<rparr> else syms st t)"
  by (simp add: set_flags_def)

lemma set_def_known_sym:
  "syms (set_def_known i t s st) u =
     (if u = s then (syms st s)\<lparr>def := (def (syms st s))(i := (def (syms st s) i)\<lparr>sv_tri := t\<rparr>),
        flags := flags (syms st s) \<union> {def_flag i}\<rparr> else syms st u)"
  by (simp add: set_def_known_def set_def_tri_def)

lemma def_flag_not_choiceval [simp]: "def_flag i \<noteq> SYMBOL_CHOICEVAL" "SYMBOL_CHOICEVAL \<noteq> def_flag i"
  by (cases i; simp)+

lemma read_line_value:
  assumes n: "name_ok n" and v: "text_ok v"
    and found: "\<And>st'. symbol_hash st' = symbol_hash st \<Longrightarrow> syms st' = syms st \<Longrightarrow>
        next_sym st' = next_sym st \<Longrightarrow> line_symbol i S_OTHER n st' = (Some s, st')"
    and new: "def_flag i \<notin> flags (syms st s)"
    and set_it: "conf_set_sym_val i v s (st\<lparr>conf_lineno := Suc (conf_lineno st)\<rparr>) = (False, st1)"
    and plain: "\<not> sym_is_choice_value (syms st1 s)"
  shows "\<exists>buf'. read_line i (assignment n v @ newline # nul # junk) st = Some (buf', st1)"
proof -
  let ?st = "st\<lparr>conf_lineno := Suc (conf_lineno st)\<rparr>"
  have f: "line_symbol i S_OTHER n ?st = (Some s, ?st)" by (rule found) simp_all
  obtain buf' where b: "value_line i (assignment n v @ newline # nul # junk) ?st =
     (if fst (conf_set_sym_val i v s ?st) then Next_line else Go_on (Some s), buf', snd (conf_set_sym_val i v s ?st))"
    using value_line_here[OF n v f, of junk] new by auto
  have "switch_line i (assignment n v @ newline # nul # junk) ?st = (Go_on (Some s), buf', st1)"
    using b set_it by (simp add: switch_line_def assignment_def)
  then show ?thesis using plain by (auto simp: read_line_def)
qed

text \<open>The table is searched by names and by two flags that no value changes.\<close>

definition same_table :: "kstate \<Rightarrow> kstate \<Rightarrow> bool" where
  "same_table st st' \<longleftrightarrow> symbol_hash st' = symbol_hash st \<and>
     (\<forall>t. sym_name (syms st' t) = sym_name (syms st t) \<and>
        flags (syms st' t) \<inter> {SYMBOL_CONST, SYMBOL_CHOICE} = flags (syms st t) \<inter> {SYMBOL_CONST, SYMBOL_CHOICE})"

lemma same_table_find:
  assumes "same_table st st'"
  shows "sym_find nm st' = sym_find nm st"
proof -
  have "SYMBOL_CONST \<in> flags (syms st' t) \<longleftrightarrow> SYMBOL_CONST \<in> flags (syms st t)" for t
    using assms by (auto simp: same_table_def)
  then show ?thesis using assms by (simp add: sym_find_def same_table_def split: option.split)
qed

lemma same_table_lookup:
  assumes "same_table st st'" "sym_lookup nm {} st = (s, st)"
  shows "sym_lookup nm {} st' = (s, st')"
proof -
  have m: "lookup_match st' n {} = lookup_match st n {}" for n
    using assms(1) by (intro ext) (simp add: lookup_match_def same_table_def)
  have "alloc_symbol x fl h st \<noteq> (s, st)" for x fl h
    using n_not_Suc_n[of "next_sym st"] by (auto simp: alloc_symbol_def Let_def dest!: arg_cong[where f = next_sym])
  then show ?thesis
    using assms m by (auto simp: sym_lookup_def same_table_def split: option.splits)
qed

lemma loadable_found:
  assumes "loadable i y s st" "sym_name y = Some n" "sym_type y \<noteq> S_UNKNOWN"
    and "symbol_hash st' = symbol_hash st" "syms st' = syms st"
  shows "line_symbol i ty n st' = (Some s, st')"
proof -
  have "same_table st st'" using assms(4,5) by (simp add: same_table_def)
  then show ?thesis
    using assms same_table_find[of st st' "sym_name y"] same_table_lookup[of st st' "sym_name y" s]
    by (cases "i = S_DEF_USER") (simp_all add: line_symbol_def loadable_def)
qed

lemma set_sym_val_ok:
  assumes f: "line_fits y" and ty: "sym_type (syms st s) = sym_type y"
    and no: "is_tri (sym_type y) \<longrightarrow> sym_get_tristate_value y \<noteq> TNo"
  shows "conf_set_sym_val i (sym_get_string_value y) s (st\<lparr>conf_lineno := Suc (conf_lineno st)\<rparr>) =
    (False, load_value i y s st)"
proof (cases "is_tri (sym_type y)")
  case True
  then show ?thesis using f ty no
    by (cases "sym_get_tristate_value y")
      (auto simp: conf_set_sym_val_def load_value_def Let_def line_fits_def is_tri_def has_number_def
        sym_get_string_value_def)
next
  case False
  then have "has_number y" "sym_string_valid (sym_type y) (sym_get_string_value y)"
    using f by (auto simp: line_fits_def)
  then show ?thesis using False ty
    by (auto simp: conf_set_sym_val_def load_value_def Let_def has_number_def set_string_or_warn_def)
qed

lemma load_value_not_choiceval:
  "\<not> sym_is_choice_value (syms st s) \<Longrightarrow> \<not> sym_is_choice_value (syms (load_value i y s st) s)"
  by (auto simp: load_value_def Let_def sym_is_choice_value_def set_def_known_sym store_def_string_def set_def_val_def)

lemma config_line_assign:
  assumes "line_fits y" "is_tri (sym_type y) \<longrightarrow> sym_get_tristate_value y \<noteq> TNo" "sym_name y = Some n"
  shows "config_line y = assignment n (sym_get_string_value y) @ [newline]"
    and "text_ok (sym_get_string_value y)"
  using assms
  by (cases "sym_get_tristate_value y";
      auto simp: config_line_def line_fits_def is_tri_def has_number_def assignment_def newline_string_def
        sym_get_string_value_def Let_def text_ok_def nul_def newline_def)+

lemma read_config_line:
  assumes f: "line_fits y" and l: "loadable i y s st"
  shows "\<exists>buf'. read_line i (config_line y @ nul # junk) st = Some (buf', load_value i y s st)"
proof -
  obtain n where n: "sym_name y = Some n" "name_ok n" using f by (auto simp: line_fits_def)
  have known: "sym_type y \<noteq> S_UNKNOWN" using f by (auto simp: line_fits_def is_tri_def has_number_def)
  have ty: "sym_type (syms st s) = sym_type y" and new: "def_flag i \<notin> flags (syms st s)"
    and plain: "\<not> sym_is_choice_value (syms st s)"
    using l by (simp_all add: loadable_def)
  show ?thesis
  proof (cases "is_tri (sym_type y) \<and> sym_get_tristate_value y = TNo")
    case False
    note c = config_line_assign[OF f _ n(1)]
    have e: "config_line y @ nul # junk = assignment n (sym_get_string_value y) @ newline # nul # junk"
      using c(1) False by simp
    show ?thesis unfolding e
      by (rule read_line_value[OF n(2) c(2) loadable_found[OF l n(1) known] new set_sym_val_ok[OF f ty]
            load_value_not_choiceval[OF plain]]) (use False in auto)
  next
    case True
    let ?st = "st\<lparr>conf_lineno := Suc (conf_lineno st)\<rparr>"
    have e: "config_line y @ nul # junk = ''# MKR_'' @ n @ '' is not set'' @ newline # nul # junk"
      using True n(1) by (auto simp: config_line_def Let_def is_tri_def newline_string_def)
    have "line_symbol i S_BOOLEAN n ?st = (Some s, ?st)"
      by (rule loadable_found[OF l n(1) known]) simp_all
    then obtain buf' where b: "unset_line i (config_line y @ nul # junk) ?st = (Go_on (Some s), buf', set_def_known i TNo s ?st)"
      unfolding e using unset_line_here[OF n(2), of i ?st s junk] new ty True by (auto simp: is_tri_def)
    have "(config_line y @ nul # junk) ! 0 = CHR ''#''" unfolding e by simp
    then have "switch_line i (config_line y @ nul # junk) ?st = (Go_on (Some s), buf', load_value i y s st)"
      using b True by (simp add: switch_line_def load_value_def)
    then show ?thesis using load_value_not_choiceval[OF plain, of i y]
      by (auto simp: read_line_def)
  qed
qed

lemma config_line_fits:
  assumes "line_fits y"
  obtains l where "config_line y = l @ [newline]" "newline \<notin> set l" "length l < 1023"
proof -
  obtain n where n: "sym_name y = Some n" "name_ok n" "length n \<le> 256" using assms by (auto simp: line_fits_def)
  have p: "newline \<notin> set ''MKR_''" "newline \<notin> set ''# MKR_''" "newline \<notin> set '' is not set''" "newline \<noteq> CHR ''=''"
    by (simp_all add: newline_def)
  show ?thesis
  proof (cases "is_tri (sym_type y) \<and> sym_get_tristate_value y = TNo")
    case True
    then show ?thesis using n p
      by (intro that[of "''# MKR_'' @ n @ '' is not set''"])
        (auto simp: config_line_def is_tri_def newline_string_def name_ok_def newline_def)
  next
    case False
    have l: "length (sym_get_string_value y) < 700"
      using assms by (cases "sym_get_tristate_value y") (auto simp: line_fits_def is_tri_def sym_get_string_value_def)
    show ?thesis
      by (rule that[of "assignment n (sym_get_string_value y)"])
        (use config_line_assign[OF assms _ n(1)] False n p l in
          \<open>auto simp: assignment_def name_ok_def text_ok_def\<close>)
  qed
qed

subsection \<open>All symbols\<close>

lemma load_value_other: "t \<noteq> s \<Longrightarrow> syms (load_value i y s st) t = syms st t"
  by (simp add: load_value_def Let_def set_def_known_sym store_def_string_def set_def_val_def)

lemma load_value_fields [simp]:
  "conf_warnings (load_value i y s st) = conf_warnings st"
  "conf_lineno (load_value i y s st) = Suc (conf_lineno st)"
  by (simp_all add: load_value_def Let_def set_def_known_def set_def_tri_def store_def_string_def set_def_val_def set_flags_def)

lemma load_value_self:
  "def_flag i \<in> flags (syms (load_value i y s st) s)"
  "is_tri (sym_type y) \<Longrightarrow> sv_tri (def (syms (load_value i y s st) s) i) = sym_get_tristate_value y"
  "\<not> is_tri (sym_type y) \<Longrightarrow>
     sv_val (def (syms (load_value i y s st) s) i) = VStr (Heap (next_str st)) (sym_get_string_value y)"
  by (simp_all add: load_value_def Let_def set_def_known_sym store_def_string_def set_def_val_def)

lemma load_value_table: "same_table st (load_value i y s st)"
proof -
  have "def_flag i \<notin> {SYMBOL_CONST, SYMBOL_CHOICE}" by (cases i) simp_all
  then show ?thesis
    by (auto simp: same_table_def load_value_def Let_def set_def_known_def set_def_tri_def store_def_string_def
        set_def_val_def set_flags_def)
qed

lemma loadable_after:
  assumes "loadable i y s st" "t \<noteq> s"
  shows "loadable i y s (load_value j z t st)"
  using assms same_table_find[OF load_value_table, of "sym_name y" j z t st]
    same_table_lookup[OF load_value_table, of "sym_name y" st s j z t]
  by (auto simp: loadable_def load_value_other)

text \<open>The symbols \<open>ss\<close> of the state \<open>st\<close>, loaded one after the other.\<close>

definition load_all :: "def_index \<Rightarrow> kstate \<Rightarrow> symptr list \<Rightarrow> kstate \<Rightarrow> kstate" where
  "load_all i st ss = fold (\<lambda>s. load_value i (syms st s) s) ss"

lemma read_config_lines:
  assumes "distinct ss" "\<And>s. s \<in> set ss \<Longrightarrow> line_fits (syms st s)"
    and "\<And>s. s \<in> set ss \<Longrightarrow> loadable i (syms st s) s st0"
  shows "\<exists>buf'. read_lines i buf (concat (map (\<lambda>s. config_line (syms st s)) ss) @ rest) st0 =
      read_lines i buf' rest (load_all i st ss st0)"
  using assms
proof (induction ss arbitrary: st0 buf)
  case Nil
  then show ?case by (auto simp: load_all_def)
next
  case (Cons s ss)
  let ?y = "syms st s" and ?rest = "concat (map (\<lambda>s. config_line (syms st s)) ss) @ rest"
  obtain l where l: "config_line ?y = l @ [newline]" "newline \<notin> set l" "length l < 1023"
    using config_line_fits Cons.prems(2)[of s] by auto
  then obtain junk where g: "fgets buf (config_line ?y @ ?rest) = Some (config_line ?y @ nul # junk, ?rest)"
    using fgets_line[of l buf ?rest] by auto
  obtain buf1 where r: "read_line i (config_line ?y @ nul # junk) st0 = Some (buf1, load_value i ?y s st0)"
    using read_config_line Cons.prems(2,3)[of s] by (metis list.set_intros(1))
  have "loadable i (syms st t) t (load_value i ?y s st0)" if "t \<in> set ss" for t
    using Cons.prems(1) that by (intro loadable_after Cons.prems(3)) auto
  then obtain buf' where "read_lines i buf1 ?rest (load_value i ?y s st0) =
      read_lines i buf' rest (load_all i st ss (load_value i ?y s st0))"
    using Cons.IH[of "load_value i ?y s st0" buf1] Cons.prems(1,2) by auto
  then show ?case
    using g r by (auto simp: load_all_def read_lines.simps[of i buf])
qed

lemma load_all_other: "t \<notin> set ss \<Longrightarrow> syms (load_all i st ss st0) t = syms st0 t"
  by (induction ss arbitrary: st0) (auto simp: load_all_def load_value_other)

lemma load_all_fields:
  "conf_warnings (load_all i st ss st0) = conf_warnings st0"
  "conf_lineno (load_all i st ss st0) = conf_lineno st0 + length ss"
  by (induction ss arbitrary: st0) (auto simp: load_all_def)

lemma load_all_value:
  assumes "distinct ss" "s \<in> set ss"
  shows "def_flag i \<in> flags (syms (load_all i st ss st0) s) \<and>
    (is_tri (sym_type (syms st s)) \<longrightarrow>
       sv_tri (def (syms (load_all i st ss st0) s) i) = sym_get_tristate_value (syms st s)) \<and>
    (\<not> is_tri (sym_type (syms st s)) \<longrightarrow>
       (\<exists>h. sv_val (def (syms (load_all i st ss st0) s) i) = VStr h (sym_get_string_value (syms st s))))"
  using assms
proof (induction ss arbitrary: st0)
  case (Cons t ss)
  show ?case
  proof (cases "t = s")
    case True
    then have "syms (load_all i st (t # ss) st0) s = syms (load_value i (syms st s) s st0) s"
      using Cons.prems(1) load_all_other[of s ss i st] by (simp add: load_all_def)
    then show ?thesis by (auto simp: load_value_self)
  next
    case False
    then show ?thesis using Cons by (simp add: load_all_def)
  qed
qed simp

lemma load_value_static:
  "sym_type (syms (load_value i y s st) t) = sym_type (syms st t)"
  "sym_name (syms (load_value i y s st) t) = sym_name (syms st t)"
  "curr (syms (load_value i y s st) t) = curr (syms st t)"
  "f \<noteq> def_flag i \<Longrightarrow> f \<in> flags (syms (load_value i y s st) t) \<longleftrightarrow> f \<in> flags (syms st t)"
  by (auto simp: load_value_def Let_def set_def_known_sym store_def_string_def set_def_val_def)

lemma load_all_static:
  "sym_type (syms (load_all i st ss st0) t) = sym_type (syms st0 t)"
  "sym_name (syms (load_all i st ss st0) t) = sym_name (syms st0 t)"
  "curr (syms (load_all i st ss st0) t) = curr (syms st0 t)"
  "f \<noteq> def_flag i \<Longrightarrow> f \<in> flags (syms (load_all i st ss st0) t) \<longleftrightarrow> f \<in> flags (syms st0 t)"
  by (induction ss arbitrary: st0) (simp_all add: load_all_def load_value_static)

lemma fgets_empty [simp]: "fgets buf [] = None"
  by (simp add: fgets_def)


definition ex_conf_sym :: "string \<Rightarrow> symbol_type \<Rightarrow> symbol_value \<Rightarrow> symbol" where
  "ex_conf_sym n ty v = zero_symbol\<lparr>sym_name := Some n, sym_type := ty, curr := v, flags := {SYMBOL_VALID, SYMBOL_WRITE}\<rparr>"

definition ex_conf :: kstate where
  "ex_conf = empty_state\<lparr>
     syms := (init_static(Sym 0 := ex_conf_sym ''FOO'' S_TRISTATE \<lparr>sv_val = VNull, sv_tri = TMod\<rparr>))
       (Sym 2 := ex_conf_sym ''BAR'' S_INT \<lparr>sv_val = VStr Lit ''42'', sv_tri = TNo\<rparr>),
     symbol_hash := (\<lambda>h. if h = 228 then [Sym 0] else if h = 213 then [Sym 2] else []), next_sym := 3\<rparr>"

lemma ex_conf_syms [simp]:
  "syms ex_conf (Sym 0) = ex_conf_sym ''FOO'' S_TRISTATE \<lparr>sv_val = VNull, sv_tri = TMod\<rparr>"
  "syms ex_conf (Sym 2) = ex_conf_sym ''BAR'' S_INT \<lparr>sv_val = VStr Lit ''42'', sv_tri = TNo\<rparr>"
  by (simp_all add: ex_conf_def)

lemma ex_conf_hash [simp]:
  "name_hash ''FOO'' = 228" "name_hash ''BAR'' = 213"
  "symbol_hash ex_conf 228 = [Sym 0]" "symbol_hash ex_conf 213 = [Sym 2]"
  by (simp_all add: name_hash_def schar_def code_def) (simp_all add: ex_conf_def)

lemma ex_conf_find:
  "sym_find (Some ''FOO'') ex_conf = Some (Sym 0)" "sym_find (Some ''BAR'') ex_conf = Some (Sym 2)"
  "sym_lookup (Some ''FOO'') {} ex_conf = (Sym 0, ex_conf)" "sym_lookup (Some ''BAR'') {} ex_conf = (Sym 2, ex_conf)"
  by (simp_all add: sym_find_def sym_lookup_def lookup_match_def ex_conf_sym_def)

lemma ex_conf_fits: "s \<in> set [Sym 0, Sym 2] \<Longrightarrow> line_fits (syms ex_conf s)"
  by (auto simp: ex_conf_sym_def line_fits_def name_ok_def text_ok_def nul_def newline_def is_tri_def has_number_def
      sym_get_string_value_def sym_string_valid_def isdigit_def code_def)

lemma ex_conf_loadable: "s \<in> set [Sym 0, Sym 2] \<Longrightarrow> loadable i (syms ex_conf s) s ex_conf"
  using ex_conf_find by (cases i) (auto simp: loadable_def ex_conf_sym_def sym_is_choice_value_def)


subsection \<open>The automatic configuration\<close>

lemma auto_line_config: "line_fits y \<Longrightarrow> auto_line y \<noteq> [] \<Longrightarrow> auto_line y = config_line y"
  by (simp add: auto_line_def split: if_splits)



subsection \<open>The old configuration\<close>

definition config_name :: "os \<Rightarrow> string option \<Rightarrow> world \<Rightarrow> string" where
  "config_name env nm w = (case config_path_parts env nm w of (d, b) \<Rightarrow> d @ b)"

definition tmp_name :: "os \<Rightarrow> string option \<Rightarrow> world \<Rightarrow> string" where
  "tmp_name env nm w = fst (config_path_parts env nm w) @ ''.tmpconfig.'' @ sprintf_d (int (os_pid env))"

lemma set_change_count_0 [simp]: "\<not> conf_get_changed (sym_set_change_count 0 st)"
  by (simp add: conf_get_changed_def sym_set_change_count_def Let_def)

lemma tmp_not_old: "d @ ''.tmpconfig.'' @ sprintf_d (int p) \<noteq> new @ ''.old''"
proof
  assume eq: "d @ ''.tmpconfig.'' @ sprintf_d (int p) = new @ ''.old''"
  obtain k where k: "k < 10" "last (digits 10 p) = digit_char k" using digits_set[of 10 "last (digits 10 p)" p] by auto
  have "last (digits 10 p) = CHR ''d''"
    using arg_cong[OF eq, of last] by (simp add: sprintf_d_def)
  then have "code (digit_char k) = code (CHR ''d'')" using k by simp
  then show False using k(1) by (simp add: code_digit_char) (simp add: code_def)
qed


definition ex_os :: os where
  "ex_os = \<lparr>os_getenv = (\<lambda>_. None), os_denied = (\<lambda>_. False), os_ctime = ''now'' @ [newline], os_pid = 7\<rparr>"

definition ex_world :: world where
  "ex_world = \<lparr>w_files = (\<lambda>p. if p = ''.config'' then Some ''old'' else None), w_dirs = (\<lambda>_. False)\<rparr>"

lemma ex_os_simps [simp]:
  "os_getenv ex_os v = None" "\<not> os_denied ex_os p" "os_pid ex_os = 7" "env_set ex_os v = False"
  by (simp_all add: ex_os_def env_set_def)

lemma ex_world_simps [simp]:
  "w_files ex_world p = (if p = ''.config'' then Some ''old'' else None)" "\<not> w_dirs ex_world p"
  by (simp_all add: ex_world_def)

lemma ex_config_text: "\<exists>st1. config_text ex_os empty_state = Some (config_header ex_os, st1)"
proof -
  have a: "all_symbols empty_state = []" by (simp add: all_symbols_def empty_state_def filter_empty_conv)
  have e: "sym_change_count empty_state = 0" "\<not> callback_set empty_state" "modules_sym empty_state = None"
    "\<And>m. menus empty_state m = zero_menu" "menu_list zero_menu = None"
    by (simp_all add: empty_state_def zero_menu_def)
  show ?thesis
    by (simp add: config_text_def conf_get_changed_def sym_clear_all_valid_def a e
      sym_add_change_count_def sym_set_change_count_def)
qed


end
