(* ===== verification/MenuTree.thy ===== *)
theory MenuTree
  imports ConfWrite SymProps
begin

text \<open>
  The menu entries as trees: the shape that the \<^verbatim>\<open>list\<close>, \<^verbatim>\<open>next\<close> and \<^verbatim>\<open>parent\<close> pointers form, and
  the walk of \<open>conf_write\<close> over it.
\<close>

subsection \<open>Trees of entries\<close>

datatype mtree = Entry nat "mtree list"

fun preorder :: "mtree \<Rightarrow> nat list" where
  "preorder (Entry m ts) = m # concat (map preorder ts)"

definition pre_list :: "mtree list \<Rightarrow> nat list" where
  "pre_list ts = concat (map preorder ts)"

lemma pre_list_simps [simp]:
  "pre_list [] = []" "pre_list (Entry m cs # ts) = m # pre_list cs @ pre_list ts"
  "pre_list (ts @ us) = pre_list ts @ pre_list us"
  by (simp_all add: pre_list_def)

text \<open>
  \<open>seg ms par p ts e\<close>: from the pointer \<open>p\<close> on, the entries of \<open>ts\<close> follow each other up to the
  pointer \<open>e\<close>; their parent is \<open>par\<close>, and their lists are closed.
\<close>

fun seg :: "(nat \<Rightarrow> menu) \<Rightarrow> nat option \<Rightarrow> nat option \<Rightarrow> mtree list \<Rightarrow> nat option \<Rightarrow> bool" where
  "seg ms par p [] e \<longleftrightarrow> p = e"
| "seg ms par p (Entry m cs # ts) e \<longleftrightarrow>
     p = Some m \<and> menu_parent (ms m) = par \<and> seg ms (Some m) (menu_list (ms m)) cs None \<and>
     seg ms par (menu_next (ms m)) ts e"

lemma mtrees_induct [case_names Nil Cons]:
  "P [] \<Longrightarrow> (\<And>m cs ts. P cs \<Longrightarrow> P ts \<Longrightarrow> P (Entry m cs # ts)) \<Longrightarrow> P ts"
proof (induction "length (pre_list ts)" arbitrary: ts rule: less_induct)
  case less
  show ?case
  proof (cases ts)
    case (Cons t us)
    obtain m cs where "t = Entry m cs" by (cases t)
    with Cons less show ?thesis by simp
  qed (use less in simp)
qed

definition same_links :: "(nat \<Rightarrow> menu) \<Rightarrow> (nat \<Rightarrow> menu) \<Rightarrow> nat \<Rightarrow> bool" where
  "same_links ms ms' m \<longleftrightarrow> menu_next (ms' m) = menu_next (ms m) \<and> menu_parent (ms' m) = menu_parent (ms m) \<and>
     menu_list (ms' m) = menu_list (ms m)"

lemma seg_cong:
  "seg ms par p ts e \<Longrightarrow> (\<And>m. m \<in> set (pre_list ts) \<Longrightarrow> same_links ms ms' m) \<Longrightarrow> seg ms' par p ts e"
proof (induction ts arbitrary: par p e rule: mtrees_induct)
  case (Cons m cs ts)
  have "same_links ms ms' m" using Cons.prems(2) by simp
  with Cons show ?case by (auto simp: same_links_def)
qed simp

lemma seg_append: "seg ms par p (ts @ us) e \<longleftrightarrow> (\<exists>q. seg ms par p ts q \<and> seg ms par q us e)"
proof (induction ts arbitrary: p)
  case (Cons t ts)
  obtain m cs where "t = Entry m cs" by (cases t)
  with Cons show ?case by auto
qed simp

lemma seg_head: "seg ms par p ts e \<Longrightarrow> p = (case pre_list ts of [] \<Rightarrow> e | k # r \<Rightarrow> Some k)"
proof (cases ts)
  case (Cons t us)
  obtain m cs where "t = Entry m cs" by (cases t)
  moreover assume "seg ms par p ts e"
  ultimately show ?thesis using Cons by simp
qed simp

subsection \<open>The order of the walk\<close>

text \<open>Each entry of a list is followed by the next one, the last by \<open>e\<close>.\<close>

fun follows :: "nat \<Rightarrow> (nat \<Rightarrow> menu) \<Rightarrow> nat list \<Rightarrow> nat option \<Rightarrow> bool" where
  "follows n ms [] e \<longleftrightarrow> True"
| "follows n ms (m # r) e \<longleftrightarrow>
     next_entry n ms m = Some (case r of [] \<Rightarrow> e | k # s \<Rightarrow> Some k) \<and> follows n ms r e"

lemma follows_append:
  "follows n ms (xs @ ys) e \<longleftrightarrow> follows n ms xs (case ys of [] \<Rightarrow> e | k # s \<Rightarrow> Some k) \<and> follows n ms ys e"
  by (induction xs) (auto split: list.splits)

text \<open>
  The walk over a list of trees is their preorder, when climbing from the last entry of the list
  leads to \<open>e\<close> with any fuel from \<open>d\<close> on.
\<close>

lemma walk_preorder:
  assumes "seg ms (Some par) p ts None"
    and "\<And>x n. menu_parent (ms x) = Some par \<Longrightarrow> menu_next (ms x) = None \<Longrightarrow> d \<le> n \<Longrightarrow> climb n ms x = Some e"
    and "d + length (pre_list ts) \<le> Suc n" "0 < d"
  shows "follows n ms (pre_list ts) e"
  using assms
proof (induction ts arbitrary: par p d e rule: mtrees_induct)
  case (Cons m cs ts)
  have m: "menu_parent (ms m) = Some par" "seg ms (Some m) (menu_list (ms m)) cs None"
    "seg ms (Some par) (menu_next (ms m)) ts None"
    using Cons.prems(1) by simp_all
  have rest: "follows n ms (pre_list ts) e"
    by (rule Cons.IH(2)[OF m(3) Cons.prems(2)]) (use Cons.prems(3,4) in auto)
  let ?e = "case pre_list ts of [] \<Rightarrow> e | k # s \<Rightarrow> Some k"
  have nx: "menu_next (ms m) = (case pre_list ts of [] \<Rightarrow> None | k # s \<Rightarrow> Some k)" by (rule seg_head[OF m(3)])
  have up: "climb k ms x = Some ?e" if "menu_parent (ms x) = Some m" "menu_next (ms x) = None" "Suc d \<le> k" for x k
  proof (cases k)
    case (Suc j)
    then show ?thesis
      using that nx Cons.prems(2)[OF m(1), of j] by (auto split: list.splits)
  qed (use that in simp)
  have low: "follows n ms (pre_list cs) ?e"
    by (rule Cons.IH(1)[OF m(2) up]) (use Cons.prems(3) in auto)
  have "next_entry n ms m = Some (case pre_list cs of [] \<Rightarrow> ?e | k # s \<Rightarrow> Some k)"
    using seg_head[OF m(2)] nx Cons.prems(2)[OF m(1), of n] Cons.prems(3)
    by (auto simp: next_entry_def split: list.splits)
  then show ?case using low rest by (auto simp: follows_append split: list.splits)
qed simp

subsection \<open>Writing the entries\<close>

text \<open>The entries one after the other, in the order of a list.\<close>

fun write_every :: "nat list \<Rightarrow> kstate \<Rightarrow> (string \<times> kstate) option" where
  "write_every [] st = Some ([], st)"
| "write_every (m # r) st =
     do { (t, st1) \<leftarrow> write_entry m st; (u, st2) \<leftarrow> write_every r st1; Some (t @ u, st2) }"

lemma keeps_menus:
  assumes "keeps X st st'"
  shows "same_links (menus st) (menus st') m" "menu_sym (menus st' m) = menu_sym (menus st m)"
    "menu_prompt (menus st' m) = menu_prompt (menus st m)" "next_menu st' = next_menu st"
proof -
  have *: "\<And>g. g (static_state st') = g (static_state st)" using assms by (simp add: keeps_def)
  have "static_menu (menus st' m) = static_menu (menus st m)"
    using *[of "\<lambda>x. menus x m"] by (simp add: static_state_def)
  then have m: "\<And>g. g (static_menu (menus st' m)) = g (static_menu (menus st m))" by simp
  show "same_links (menus st) (menus st') m" "menu_sym (menus st' m) = menu_sym (menus st m)"
    "menu_prompt (menus st' m) = menu_prompt (menus st m)" "next_menu st' = next_menu st"
    using m[of menu_next] m[of menu_parent] m[of menu_list] m[of menu_sym] m[of menu_prompt] *[of next_menu]
    by (simp_all add: same_links_def static_menu_def static_state_def)
qed

text \<open>
  What an entry must have to be written: its symbol is allocated, a prompt without a symbol
  belongs to no symbol and reads allocated symbols only.
\<close>

definition entry_ok :: "kstate \<Rightarrow> nat \<Rightarrow> bool" where
  "entry_ok st m \<longleftrightarrow>
     (case menu_sym (menus st m) of
        Some s \<Rightarrow> alloc st s
      | None \<Rightarrow> (case menu_prompt (menus st m) of
          None \<Rightarrow> True
        | Some p \<Rightarrow> prop_sym (props st p) = None \<and> (\<forall>t\<in>expr_syms (visible_expr (props st p)). alloc st t)))"

lemma entry_ok_keeps: "keeps {} st st' \<Longrightarrow> entry_ok st' m = entry_ok st m"
  by (simp add: entry_ok_def keeps_menus keeps_fields split: option.split)

lemma static_prop_sym: "static_prop p = static_prop q \<Longrightarrow> prop_sym p = prop_sym q"
  by (rule static_prop_fields)

lemma write_entry_ok:
  assumes "wf_calc st" "entry_ok st m" "modules_sym st = Some mo" "alloc st mo"
  shows "\<exists>t st'. write_entry m st = Some (t, st') \<and> keeps {} st st' \<and> wf_calc st'"
proof (cases "menu_sym (menus st m)")
  case (Some s)
  have s: "alloc st s" using assms(2) Some by (simp add: entry_ok_def)
  obtain st1 where c: "calc_value s st = Some st1" "keeps {} st st1" "wf_calc st1"
    using calc_value_ok[OF assms(1) s] by blast
  let ?st2 = "clear_flags {SYMBOL_WRITE} s st1"
  have k2: "keeps {} st ?st2" by (rule keeps_trans[OF c(2) keeps_clear_write])
  have w2: "wf_calc ?st2" by (rule keeps_wf[OF k2 assms(1)]) simp
  have mo: "modules_sym ?st2 = Some mo" "alloc ?st2 mo"
    using assms(3,4) by (simp_all add: keeps_static(4)[OF k2] keeps_alloc[OF k2])
  obtain st3 where c3: "calc_value mo ?st2 = Some st3" "keeps {} ?st2 st3" "wf_calc st3"
    using calc_value_ok[OF w2 mo(2)] by blast
  have k3: "keeps {} st st3" by (rule keeps_trans[OF k2 c3(2)])
  show ?thesis
    using assms(1) Some c c3 k2 k3 w2 mo by (simp add: write_entry_def write_symbol_def Let_def)
next
  case None
  show ?thesis
  proof (cases "menu_prompt (menus st m)")
    case (Some p)
    have p: "prop_sym (props st p) = None" "\<forall>t\<in>expr_syms (visible_expr (props st p)). alloc st t"
      using assms(2) None Some by (simp_all add: entry_ok_def)
    obtain st1 where e: "expr_calc_value (visible_expr (props st p)) st =
        Some (expr_value (syms st1) (visible_expr (props st p)), st1)" "keeps {} st st1"
      using calc.expr_ok[OF assms(1) p(2)] unfolding expr_calc_value_def by blast
    let ?st2 = "upd_prop p (\<lambda>q. q\<lparr>visible_tri := expr_value (syms st1) (visible_expr (props st p))\<rparr>) st1"
    have "prop_sym (props st1 p) = None" using p(1) by (simp add: keeps_prop[OF e(2)])
    then have "keeps {} st1 ?st2" by (intro keeps_upd_prop) (simp_all add: static_prop_def)
    then have k2: "keeps {} st ?st2" by (rule keeps_trans[OF e(2)])
    have "wf_calc ?st2" by (rule keeps_wf[OF k2 assms(1)]) simp
    moreover have "menu_is_visible m st = Some (expr_value (syms st1) (visible_expr (props st p)) \<noteq> TNo, ?st2)"
      using None Some e(1) keeps_menus(2)[OF k2, of m]
      by (simp add: menu_is_visible_def calc_prop_visible_def expr_calc_value_def)
    then have "\<exists>t. write_entry m st = Some (t, ?st2)" using None by (simp add: write_entry_def)
    ultimately show ?thesis using k2 by blast
  qed (use None assms(1) in \<open>simp add: write_entry_def menu_is_visible_def\<close>)
qed

lemma write_entries_all:
  assumes "wf_calc st" "\<forall>m\<in>set xs. entry_ok st m" "modules_sym st = Some mo" "alloc st mo"
    and "follows (next_menu st) (menus st) xs None" "length xs \<le> n"
  shows "\<exists>t st'. write_every xs st = Some (t, st') \<and> keeps {} st st' \<and>
    write_entries n (case xs of [] \<Rightarrow> None | k # r \<Rightarrow> Some k) st = Some (t, st')"
  using assms
proof (induction xs arbitrary: st n)
  case (Cons m xs)
  obtain j where n: "n = Suc j" "length xs \<le> j" using Cons.prems(6) by (cases n) auto
  obtain t st1 where w: "write_entry m st = Some (t, st1)" "keeps {} st st1" "wf_calc st1"
    using write_entry_ok[OF Cons.prems(1) _ Cons.prems(3,4)] Cons.prems(2) by fastforce
  note k = keeps_menus[OF w(2)]
  have cl: "climb i (menus st1) x = climb i (menus st) x" for i x
    using k(1) by (induction i arbitrary: x) (auto simp: same_links_def split: option.split)
  have nx: "next_entry i (menus st1) x = next_entry i (menus st) x" for i x
    using k(1)[of x] by (simp add: next_entry_def cl same_links_def split: option.split)
  have fo: "follows i (menus st1) ys e = follows i (menus st) ys e" for i ys e
    by (induction ys) (simp_all add: nx)
  obtain u st2 where r: "write_every xs st1 = Some (u, st2)" "keeps {} st1 st2"
    "write_entries j (case xs of [] \<Rightarrow> None | k # r \<Rightarrow> Some k) st1 = Some (u, st2)"
    using Cons.IH[OF w(3) _ _ _ _ n(2)] Cons.prems(2-5)
    by (auto simp: entry_ok_keeps[OF w(2)] keeps_static(4)[OF w(2)] keeps_alloc[OF w(2)] k(4) fo)
  have "next_entry (next_menu st1) (menus st1) m = Some (case xs of [] \<Rightarrow> None | k # r \<Rightarrow> Some k)"
    using Cons.prems(5) by (simp add: nx k(4))
  then have "write_every (m # xs) st = Some (t @ u, st2)" "write_entries n (Some m) st = Some (t @ u, st2)"
    using w(1) r n by simp_all
  moreover have "keeps {} st st2" by (rule keeps_trans[OF w(2) r(2)])
  ultimately show ?case by simp
qed simp

text \<open>A menu tree below the root: its entries are distinct, and known to the counter of entries.\<close>

definition menu_tree :: "kstate \<Rightarrow> mtree list \<Rightarrow> bool" where
  "menu_tree st ts \<longleftrightarrow>
     seg (menus st) (Some rootmenu) (menu_list (menus st rootmenu)) ts None \<and>
     menu_parent (menus st rootmenu) = None \<and> menu_next (menus st rootmenu) = None \<and>
     distinct (rootmenu # pre_list ts) \<and> (\<forall>m\<in>set (rootmenu # pre_list ts). m < next_menu st)"

lemma menu_tree_length: "menu_tree st ts \<Longrightarrow> length (pre_list ts) < next_menu st"
proof -
  assume t: "menu_tree st ts"
  have "card (set (rootmenu # pre_list ts)) \<le> card {..<next_menu st}"
    by (rule card_mono) (use t in \<open>auto simp: menu_tree_def\<close>)
  moreover have "card (set (rootmenu # pre_list ts)) = length (rootmenu # pre_list ts)"
    by (rule distinct_card) (use t in \<open>simp add: menu_tree_def\<close>)
  ultimately show ?thesis by simp
qed

lemma menu_tree_follows:
  assumes "menu_tree st ts"
  shows "follows (next_menu st) (menus st) (pre_list ts) None"
proof (rule walk_preorder)
  show "seg (menus st) (Some rootmenu) (menu_list (menus st rootmenu)) ts None"
    using assms by (simp add: menu_tree_def)
  show "2 + length (pre_list ts) \<le> Suc (next_menu st)" using menu_tree_length[OF assms] by simp
next
  fix x n assume x: "menu_parent (menus st x) = Some rootmenu" and n: "2 \<le> (n :: nat)"
  obtain j where "n = Suc (Suc j)" using n that[of "n - 2"] by linarith
  then show "climb n (menus st) x = Some None" using x assms by (simp add: menu_tree_def)
qed simp

text \<open>
  C6.  The walk of \<open>conf_write\<close> over the menus ends and leaves no entry out: on every menu tree it
  writes what its entries, taken once each in the order of the Kconfig files, are to contribute,
  and changes nothing but calculated values.
\<close>

theorem conf_write_complete:
  assumes "menu_tree st ts" "wf_calc st" "\<forall>m\<in>set (pre_list ts). entry_ok st m"
    and "modules_sym st = Some mo" "alloc st mo"
  shows "\<exists>t st'. write_entries (next_menu st) (menu_list (menus st rootmenu)) st = Some (t, st') \<and>
    write_every (pre_list ts) st = Some (t, st') \<and> keeps {} st st'"
proof -
  have "menu_list (menus st rootmenu) = (case pre_list ts of [] \<Rightarrow> None | k # r \<Rightarrow> Some k)"
    using assms(1) by (intro seg_head[of "menus st" "Some rootmenu"]) (simp add: menu_tree_def)
  then show ?thesis
    using write_entries_all[OF assms(2-5) menu_tree_follows[OF assms(1)], of "next_menu st"]
      menu_tree_length[OF assms(1)] by auto
qed

text \<open>An entry for \<^verbatim>\<open>FOO\<close> with one for \<^verbatim>\<open>BAR\<close> below it, and a comment.\<close>

definition ex_menus :: "nat \<Rightarrow> menu" where
  "ex_menus = (\<lambda>_. zero_menu)
     (0 := zero_menu\<lparr>menu_list := Some 1\<rparr>,
      1 := zero_menu\<lparr>menu_parent := Some 0, menu_list := Some 2, menu_next := Some 3, menu_sym := Some (Sym 0), menu_prompt := Some 0\<rparr>,
      2 := zero_menu\<lparr>menu_parent := Some 1, menu_sym := Some (Sym 2), menu_prompt := Some 2\<rparr>,
      3 := zero_menu\<lparr>menu_parent := Some 0, menu_prompt := Some 9\<rparr>)"

definition ex_menu_state :: kstate where
  "ex_menu_state = ex_state\<lparr>menus := ex_menus, next_menu := 4, modules_sym := Some symbol_no,
     props := (props ex_state)(9 := zero_property\<lparr>prop_type := P_COMMENT, prop_text := Some ''note''\<rparr>)\<rparr>"

lemma ex_menu_tree: "menu_tree ex_menu_state [Entry 1 [Entry 2 []], Entry 3 []]"
  by (simp add: menu_tree_def ex_menu_state_def ex_menus_def rootmenu_def zero_menu_def)

lemma ex_menu_wf: "wf_calc ex_menu_state"
proof -
  have "wf_props ex_menu_state s" for s
    by (cases s) (auto simp: wf_props_def ex_menu_state_def ex_syms_def ex_props_def zero_symbol_def zero_property_def
        split: if_splits)
  moreover have "\<not> sym_is_choice (syms ex_menu_state s)" "\<not> sym_is_choice_value (syms ex_menu_state s)" for s
    by (cases s; simp add: ex_menu_state_def sym_is_choice_def sym_is_choice_value_def ex_syms_def zero_symbol_def)+
  ultimately show ?thesis
    by (simp add: wf_calc_def valid_def zero_symbol_def) (simp add: ex_menu_state_def)
qed

lemma conf_write_complete_witness:
  "\<exists>t st'. write_entries 4 (Some 1) ex_menu_state = Some (t, st') \<and> write_every [1, 2, 3] ex_menu_state = Some (t, st')"
proof -
  have "\<forall>m\<in>set (pre_list [Entry 1 [Entry 2 []], Entry 3 []]). entry_ok ex_menu_state m"
    by (simp add: entry_ok_def ex_menu_state_def ex_menus_def zero_menu_def zero_property_def)
  from conf_write_complete[OF ex_menu_tree ex_menu_wf this, of symbol_no] show ?thesis
    by (simp add: ex_menu_state_def ex_menus_def rootmenu_def zero_menu_def) blast
qed

end
