(* ===== verification/MenuFinalize.thy ===== *)
theory MenuFinalize
  imports MenuTree ExprElim
begin

text \<open>
  \<open>menu_finalize\<close> returns on every menu tree whose properties are well formed, and it moves
  entries between the levels of the tree without losing, doubling or reordering any: the preorder
  of the tree is the same before and after.
\<close>

subsection \<open>Dependencies\<close>

definition depends_ok :: "expr \<Rightarrow> bool" where
  "depends_ok e \<longleftrightarrow> e = Null \<or> dep_expr e"

lemma depends_ok_Null [simp]: "depends_ok Null" and depends_ok_symbol [simp]: "depends_ok (E_SYMBOL s)"
  by (simp_all add: depends_ok_def)

lemma transform_dep: "dep_expr e \<Longrightarrow> dep_expr (expr_transform ss e)"
proof (induction ss e rule: expr_transform.induct)
  case (5 ss a)
  then show ?case
    by (cases "expr_transform ss a") (auto simp: expr_alloc_one_def transform_leaf_dep simp del: transform_equal.simps)
qed (simp_all add: transform_leaf_dep del: transform_equal.simps transform_unequal.simps)

lemma trans_bool_dep: "dep_expr e \<Longrightarrow> dep_expr (expr_trans_bool ss e)"
  by (induction ss e rule: expr_trans_bool.induct) auto

lemma trans_compare_dep:
  "depends_ok e \<Longrightarrow> s \<in> {symbol_yes, symbol_no} \<Longrightarrow> ty = Ty_EQUAL \<or> ty = Ty_UNEQUAL \<Longrightarrow> dep_expr (expr_trans_compare e ty s)"
  unfolding depends_ok_def
  by (induction e ty s rule: expr_trans_compare.induct)
    (auto simp: negate_if_def expr_alloc_one_def expr_alloc_two_def expr_alloc_comp_def expr_alloc_symbol_def
      expr_copy_dep)

lemma depends_ok_transform: "depends_ok e \<Longrightarrow> depends_ok (expr_transform ss e)"
  by (auto simp: depends_ok_def transform_dep)

lemma depends_ok_copy [simp]: "depends_ok e \<Longrightarrow> expr_copy e = e"
  by (auto simp: depends_ok_def expr_copy_dep)

lemma depends_ok_and [simp]: "depends_ok a \<Longrightarrow> depends_ok b \<Longrightarrow> depends_ok (expr_alloc_and a b)"
  by (auto simp: depends_ok_def expr_alloc_and_def expr_alloc_two_def)

lemma depends_ok_trans_bool: "depends_ok e \<Longrightarrow> depends_ok (expr_trans_bool ss e)"
  by (auto simp: depends_ok_def trans_bool_dep)

lemma depends_ok_dups: "depends_ok e \<Longrightarrow> \<exists>e'. expr_eliminate_dups ss e = Some e' \<and> depends_ok e'"
  using eliminate_dups_loop_total[of e "Suc (esize e)" ss]
  by (auto simp: depends_ok_def expr_eliminate_dups_def simp del: eliminate_dups_loop.simps)

subsection \<open>The invariant\<close>

definition prop_shape :: "kstate \<Rightarrow> property \<Rightarrow> bool" where
  "prop_shape st q \<longleftrightarrow>
     depends_ok (visible_expr q) \<and>
     (prop_type q = P_SELECT \<longrightarrow> prop_get_symbol q \<noteq> None \<and>
        (\<forall>m. prop_menu q = Some m \<longrightarrow> menu_sym (menus st m) \<noteq> None)) \<and>
     (prop_type q = P_RANGE \<longrightarrow> range_bounds (prop_expr q) \<noteq> None) \<and>
     (prop_type q = P_DEFAULT \<longrightarrow> prop_expr q \<noteq> Null)"

fun list_expr :: "expr \<Rightarrow> bool" where
  "list_expr Null = True"
| "list_expr (E_LIST l s) = list_expr l"
| "list_expr _ = False"

text \<open>
  What the parser leaves: dependency expressions everywhere, the parts that a property of each
  type needs, and for every choice a property with the list of its values.
\<close>

definition fin_inv :: "kstate \<Rightarrow> bool" where
  "fin_inv st \<longleftrightarrow>
     (\<forall>m. depends_ok (menu_dep (menus st m))) \<and> (\<forall>p. prop_shape st (props st p)) \<and>
     (\<forall>s. \<forall>p\<in>set (sym_prop (syms st s)). p < next_prop st) \<and>
     (\<forall>c. sym_is_choice (syms st c) \<longrightarrow>
        (\<exists>p. sym_get_choice_prop c st = Some p \<and> list_expr (prop_expr (props st p))))"

text \<open>A step that keeps the invariant and moves no entry.\<close>

definition quiet :: "kstate \<Rightarrow> kstate \<Rightarrow> bool" where
  "quiet st st' \<longleftrightarrow> fin_inv st' \<and> next_menu st' = next_menu st \<and>
     (\<forall>c. sym_is_choice (syms st' c) = sym_is_choice (syms st c)) \<and>
     (\<forall>m. menu_sym (menus st' m) = menu_sym (menus st m) \<and> same_links (menus st) (menus st') m)"

lemma same_links_refl [simp]: "same_links ms ms m"
  by (simp add: same_links_def)

lemma quiet_refl: "fin_inv st \<Longrightarrow> quiet st st"
  by (simp add: quiet_def)

lemma quiet_trans: "quiet a b \<Longrightarrow> quiet b c \<Longrightarrow> quiet a c"
  by (simp add: quiet_def same_links_def)

lemma quiet_inv: "quiet st st' \<Longrightarrow> fin_inv st'"
  by (simp add: quiet_def)

lemma quiet_sym: "quiet st st' \<Longrightarrow> menu_sym (menus st' m) = menu_sym (menus st m)"
  by (simp add: quiet_def)

lemma quiet_entry: "fin_inv st \<Longrightarrow> quiet st (st\<lparr>current_entry := m\<rparr>)"
  by (simp add: quiet_def fin_inv_def prop_shape_def sym_get_choice_prop_def first_prop_def)

lemma quiet_upd_sym:
  assumes "fin_inv st" "sym_prop (f (syms st s)) = sym_prop (syms st s)"
    "sym_is_choice (f (syms st s)) = sym_is_choice (syms st s)"
  shows "quiet st (upd_sym s f st)"
  using assms by (auto simp: quiet_def fin_inv_def prop_shape_def sym_get_choice_prop_def first_prop_def)

lemma quiet_set_flags: "fin_inv st \<Longrightarrow> SYMBOL_CHOICE \<notin> fs \<Longrightarrow> quiet st (set_flags fs s st)"
  unfolding set_flags_def by (rule quiet_upd_sym) (auto simp: sym_is_choice_def)

lemma quiet_upd_menu:
  assumes "fin_inv st" "depends_ok (menu_dep (f (menus st m)))" "menu_sym (f (menus st m)) = menu_sym (menus st m)"
    "menu_next (f (menus st m)) = menu_next (menus st m)" "menu_parent (f (menus st m)) = menu_parent (menus st m)"
    "menu_list (f (menus st m)) = menu_list (menus st m)"
  shows "quiet st (upd_menu m f st)"
  using assms
  by (auto simp: quiet_def fin_inv_def prop_shape_def sym_get_choice_prop_def first_prop_def same_links_def)

lemma quiet_upd_prop:
  assumes "fin_inv st" "prop_shape st (f (props st p))" "prop_type (f (props st p)) = prop_type (props st p)"
    "list_expr (prop_expr (props st p)) \<Longrightarrow> list_expr (prop_expr (f (props st p))) \<or>
       (\<forall>c. sym_is_choice (syms st c) \<longrightarrow> sym_get_choice_prop c st \<noteq> Some p)"
  shows "quiet st (upd_prop p f st)"
proof -
  have fp: "first_prop ty s (upd_prop p f st) = first_prop ty s st" for ty s
    using assms(3) by (auto simp: first_prop_def intro!: arg_cong[where f = "\<lambda>P. find P _"])
  then have "\<exists>q. sym_get_choice_prop c (upd_prop p f st) = Some q \<and> list_expr (prop_expr (props (upd_prop p f st) q))"
    if c: "sym_is_choice (syms st c)" for c
  proof -
    obtain q where "sym_get_choice_prop c st = Some q" "list_expr (prop_expr (props st q))"
      using assms(1) c unfolding fin_inv_def by blast
    then show ?thesis using fp assms(4) c by (intro exI[of _ q]) (auto simp: sym_get_choice_prop_def)
  qed
  then show ?thesis
    using assms(1,2) by (simp add: quiet_def fin_inv_def prop_shape_def)
qed

lemma find_append_Some: "find P xs = Some x \<Longrightarrow> find P (xs @ ys) = Some x"
  by (induction xs) auto

lemma quiet_prop_alloc:
  assumes "fin_inv st" "ty \<notin> {P_SELECT, P_RANGE, P_DEFAULT}" "prop_alloc ty so st = (p, st')"
  shows "quiet st st'" "props st' p = zero_property\<lparr>prop_type := ty, prop_sym := so, prop_file := current_file st, prop_lineno := zconf_lineno st\<rparr>"
    "p = next_prop st" "modules_sym st' = modules_sym st" "current_entry st' = current_entry st"
    "sym_is_choice (syms st' c) \<Longrightarrow> sym_get_choice_prop c st' \<noteq> Some p"
proof -
  have new: "prop_shape st (zero_property\<lparr>prop_type := ty, prop_sym := so, prop_file := current_file st, prop_lineno := zconf_lineno st\<rparr>)"
    using assms(2) by (auto simp: prop_shape_def zero_property_def)
  have fp: "find (\<lambda>q. prop_type (props st' q) = P_CHOICE) (sym_prop (syms st' c)) = Some q"
    if "find (\<lambda>q. prop_type (props st q) = P_CHOICE) (sym_prop (syms st c)) = Some q" for c q
  proof -
    have old: "\<forall>r\<in>set (sym_prop (syms st c)). props st' r = props st r"
    proof
      fix r assume "r \<in> set (sym_prop (syms st c))"
      then have "r < next_prop st" using assms(1) by (auto simp: fin_inv_def)
      then show "props st' r = props st r"
        using assms(3) by (auto simp: prop_alloc_def Let_def split: option.splits)
    qed
    then have "find (\<lambda>q. prop_type (props st' q) = P_CHOICE) (sym_prop (syms st c)) = Some q"
      using that by (metis (mono_tags, lifting) find_cong)
    moreover have "\<exists>xs. sym_prop (syms st' c) = sym_prop (syms st c) @ xs"
      using assms(3) by (auto simp: prop_alloc_def Let_def split: option.splits)
    ultimately show ?thesis using find_append_Some by fastforce
  qed
  have lt: "q < next_prop st" if "find (\<lambda>q. prop_type (props st q) = P_CHOICE) (sym_prop (syms st c)) = Some q" for c q
  proof -
    have "q \<in> set (sym_prop (syms st c))" using that by (auto simp: find_Some_iff)
    then show ?thesis using assms(1) by (auto simp: fin_inv_def)
  qed
  have same: "menus st' = menus st" "next_menu st' = next_menu st" "next_prop st' = Suc (next_prop st)"
    "props st' = (props st)(next_prop st := zero_property\<lparr>prop_type := ty, prop_sym := so, prop_file := current_file st, prop_lineno := zconf_lineno st\<rparr>)"
    using assms(3) by (auto simp: prop_alloc_def Let_def split: option.splits)
  have same_sym: "sym_is_choice (syms st' c) = sym_is_choice (syms st c)"
    "set (sym_prop (syms st' c)) \<subseteq> insert (next_prop st) (set (sym_prop (syms st c)))" for c
    using assms(3) by (auto simp: prop_alloc_def Let_def sym_is_choice_def split: option.splits if_splits)
  have first: "\<exists>q. sym_get_choice_prop c st' = Some q \<and> q < next_prop st \<and> list_expr (prop_expr (props st' q))"
    if "sym_is_choice (syms st' c)" for c
  proof -
    have "sym_is_choice (syms st c)" using that same_sym(1) by simp
    then obtain q where q: "sym_get_choice_prop c st = Some q" "list_expr (prop_expr (props st q))"
      using assms(1) unfolding fin_inv_def by blast
    then show ?thesis
      using fp[of c q] lt[of c q] same(4) by (auto simp: sym_get_choice_prop_def first_prop_def)
  qed
  then have "\<exists>q. sym_get_choice_prop c st' = Some q \<and> list_expr (prop_expr (props st' q))"
    if "sym_is_choice (syms st' c)" for c
    using that by blast
  moreover have "q < next_prop st'" if "q \<in> set (sym_prop (syms st' s))" for s q
    using that same(3) same_sym(2)[of s] assms(1) by (force simp: fin_inv_def less_Suc_eq)
  moreover have "prop_shape st' (props st' q)" for q
    using new assms(1) by (simp add: same fin_inv_def prop_shape_def)
  ultimately show "quiet st st'"
    using assms(1) same_sym(1) by (simp add: quiet_def fin_inv_def same)
  show "props st' p = zero_property\<lparr>prop_type := ty, prop_sym := so, prop_file := current_file st, prop_lineno := zconf_lineno st\<rparr>"
    "p = next_prop st" "modules_sym st' = modules_sym st" "current_entry st' = current_entry st"
    using assms(3) by (auto simp: prop_alloc_def Let_def split: option.splits)
  then show "sym_is_choice (syms st' c) \<Longrightarrow> sym_get_choice_prop c st' \<noteq> Some p"
    using first[of c] by auto
qed

subsection \<open>The steps that move no entry\<close>

lemma menu_set_type_ok:
  assumes "fin_inv st" "menu_sym (menus st (current_entry st)) \<noteq> None"
  shows "\<exists>st'. menu_set_type ty st = Some st' \<and> quiet st st'"
proof -
  obtain s where s: "menu_sym (menus st (current_entry st)) = Some s" using assms(2) by auto
  have last: "quiet st1 (if sym_type (syms st1 s) = S_UNKNOWN then upd_sym s (\<lambda>y. y\<lparr>sym_type := ty'\<rparr>) st1 else st1)"
    if "fin_inv st1" for st1 ty'
    using that by (auto intro!: quiet_upd_sym quiet_refl simp: sym_is_choice_def)
  have alloc: "quiet st (set_flags fs s (snd (prop_alloc ty' (Some s) st)))"
    if "ty' \<notin> {P_SELECT, P_RANGE, P_DEFAULT}" "SYMBOL_CHOICE \<notin> fs" for ty' fs
    using quiet_trans[OF _ quiet_set_flags] quiet_prop_alloc(1)[OF assms(1) that(1)] quiet_inv that(2)
    by (metis prod.collapse)
  have q: "quiet st st2" if "quiet st st1" "quiet st1 st2" for st1 st2
    by (rule quiet_trans[OF that])
  show ?thesis
    using s alloc[of P_PACKAGE "{SYMBOL_PACKAGE}"] alloc[of P_SRCDIR "{SYMBOL_SRCDIR}"] last q assms(1)
    by (auto simp: menu_set_type_def Let_def quiet_inv quiet_refl)
qed

lemma choice_type_ok:
  "fin_inv st \<Longrightarrow> menu_sym (menus st (current_entry st)) \<noteq> None \<Longrightarrow> \<exists>st'. choice_type ms st = Some st' \<and> quiet st st'"
  by (induction ms) (auto intro!: quiet_refl dest: menu_set_type_ok split: option.split)

lemma value_types_ok: "fin_inv st \<Longrightarrow> \<exists>st'. value_types c ms st = Some st' \<and> quiet st st'"
proof (induction ms arbitrary: st)
  case (Cons m ms)
  let ?st1 = "st\<lparr>current_entry := m\<rparr>"
  have q1: "quiet st ?st1" by (rule quiet_entry[OF Cons.prems])
  have "\<exists>st2. (if menu_sym (menus ?st1 m) \<noteq> None \<and> sym_type_known m ?st1 = None
      then menu_set_type (sym_type (syms ?st1 c)) ?st1 else Some ?st1) = Some st2 \<and> quiet ?st1 st2"
    using menu_set_type_ok[OF quiet_inv[OF q1], of "sym_type (syms ?st1 c)"] quiet_refl[OF quiet_inv[OF q1]] by simp
  then obtain st2 where s: "(if menu_sym (menus ?st1 m) \<noteq> None \<and> sym_type_known m ?st1 = None
      then menu_set_type (sym_type (syms ?st1 c)) ?st1 else Some ?st1) = Some st2" "quiet ?st1 st2" by blast
  obtain st3 where "value_types c ms st2 = Some st3" "quiet st2 st3" using Cons.IH[OF quiet_inv[OF s(2)]] by blast
  then show ?case using s quiet_trans[OF quiet_trans[OF q1 s(2)]] by (auto simp: Let_def)
qed (simp add: quiet_refl)

lemma set_choice_types_ok:
  assumes "fin_inv st" "menu_sym (menus st parent) \<noteq> None"
  shows "\<exists>st'. set_choice_types parent c ms st = Some st' \<and> quiet st st'"
proof -
  let ?st1 = "st\<lparr>current_entry := parent\<rparr>"
  have q1: "quiet st ?st1" by (rule quiet_entry[OF assms(1)])
  obtain sta where a: "choice_type ms ?st1 = Some sta" "quiet ?st1 sta"
    using choice_type_ok[OF quiet_inv[OF q1]] assms(2) by auto
  obtain st2 where s: "(if sym_type (syms st c) = S_UNKNOWN then choice_type ms ?st1 else Some st) = Some st2" "quiet st st2"
    using a(1) quiet_trans[OF q1 a(2)] quiet_refl[OF assms(1)] by (cases "sym_type (syms st c) = S_UNKNOWN") simp_all
  show ?thesis using s(1) value_types_ok[OF quiet_inv[OF s(2)], of c ms] quiet_trans[OF s(2)]
    by (auto simp: set_choice_types_def)
qed

lemma finalize_prop_ok:
  assumes "fin_inv st" "depends_ok basedep"
  shows "\<exists>st'. finalize_prop m basedep p st = Some st' \<and> quiet st st'"
proof (cases "prop_menu (props st p) = Some m")
  case False
  then show ?thesis using assms(1) by (simp add: finalize_prop_def quiet_refl)
next
  case True
  have sh: "prop_shape st (props st p)" using assms(1) by (simp add: fin_inv_def)
  then have "depends_ok (expr_alloc_and (expr_copy basedep) (expr_transform (syms st) (visible_expr (props st p))))"
    using assms(2) by (simp add: prop_shape_def depends_ok_transform)
  then obtain dep where dep: "expr_eliminate_dups (syms st)
      (expr_alloc_and (expr_copy basedep) (expr_transform (syms st) (visible_expr (props st p)))) = Some dep"
    "depends_ok dep" using depends_ok_dups by blast
  let ?so = "menu_sym (menus st m)"
  let ?dep = "case ?so of Some s \<Rightarrow> if sym_type (syms st s) \<noteq> S_TRISTATE then expr_trans_bool (syms st) dep else dep
      | None \<Rightarrow> dep"
  have d: "depends_ok ?dep" using dep(2) by (simp add: depends_ok_trans_bool split: option.split)
  let ?st1 = "upd_prop p (\<lambda>q. q\<lparr>visible_expr := ?dep\<rparr>) st"
  have q1: "quiet st ?st1"
    by (rule quiet_upd_prop[OF assms(1)]) (use sh d in \<open>simp_all add: prop_shape_def prop_get_symbol_def\<close>)
  show ?thesis
  proof (cases "prop_type (props st p) = P_SELECT")
    case False
    then show ?thesis using True dep(1) q1 by (simp add: finalize_prop_def)
  next
    case sel: True
    then obtain es s where e: "prop_get_symbol (props st p) = Some es" "?so = Some s"
      using sh True by (auto simp: prop_shape_def)
    let ?st2 = "upd_sym es (\<lambda>y. y\<lparr>rev_dep_expr := expr_alloc_or (rev_dep_expr y)
                      (expr_alloc_and (expr_alloc_symbol s) (expr_copy ?dep))\<rparr>) ?st1"
    have "quiet ?st1 ?st2" by (rule quiet_upd_sym[OF quiet_inv[OF q1]]) (simp_all add: sym_is_choice_def)
    then have "quiet st ?st2" by (rule quiet_trans[OF q1])
    then show ?thesis using True sel dep(1) e by (auto simp: finalize_prop_def prop_get_symbol_def Let_def split: if_splits)
  qed
qed

lemma finalize_props_ok:
  "fin_inv st \<Longrightarrow> depends_ok basedep \<Longrightarrow> \<exists>st'. finalize_props m basedep ps st = Some st' \<and> quiet st st'"
proof (induction ps arbitrary: st)
  case (Cons p ps)
  obtain st1 where s: "finalize_prop m basedep p st = Some st1" "quiet st st1"
    using finalize_prop_ok[OF Cons.prems] by blast
  then show ?case using Cons.IH[OF quiet_inv[OF s(2)] Cons.prems(2)] quiet_trans[OF s(2)] by auto
qed (simp add: quiet_refl)

lemma propagate_deps_ok:
  "fin_inv st \<Longrightarrow> depends_ok parentdep \<Longrightarrow> \<exists>st'. propagate_deps parentdep ms st = Some st' \<and> quiet st st'"
proof (induction ms arbitrary: st)
  case (Cons m ms)
  have "depends_ok (menu_dep (menus st m))" using Cons.prems(1) by (simp add: fin_inv_def)
  then have "depends_ok (expr_alloc_and (expr_copy parentdep) (expr_transform (syms st) (menu_dep (menus st m))))"
    using Cons.prems(2) by (simp add: depends_ok_transform)
  then obtain b where b: "expr_eliminate_dups (syms st)
      (expr_alloc_and (expr_copy parentdep) (expr_transform (syms st) (menu_dep (menus st m)))) = Some b" "depends_ok b"
    using depends_ok_dups by blast
  let ?st1 = "upd_menu m (\<lambda>x. x\<lparr>menu_dep := b\<rparr>) st"
  have q1: "quiet st ?st1" by (rule quiet_upd_menu[OF Cons.prems(1)]) (simp_all add: b(2))
  obtain st2 where s: "finalize_props m b (entry_props m ?st1) ?st1 = Some st2" "quiet ?st1 st2"
    using finalize_props_ok[OF quiet_inv[OF q1] b(2)] by blast
  obtain st3 where "propagate_deps parentdep ms st2 = Some st3" "quiet st2 st3"
    using Cons.IH[OF quiet_inv[OF s(2)] Cons.prems(2)] by blast
  then show ?case using b(1) s quiet_trans[OF quiet_trans[OF q1 s(2)]] by (auto simp: Let_def)
qed (simp add: quiet_refl)

lemma prompt_dep_ok: "fin_inv st \<Longrightarrow> prompt_dep m st = Some d \<Longrightarrow> depends_ok d"
  by (auto simp: prompt_dep_def fin_inv_def prop_shape_def)

lemma entry_dep_ok: "fin_inv st \<Longrightarrow> depends_ok (entry_dep m st)"
  using prompt_dep_ok[of st m] by (auto simp: entry_dep_def fin_inv_def split: option.split)

lemma finalize_head_ok:
  assumes "fin_inv st" "children parent st = Some ms"
  shows "\<exists>st'. finalize_head parent st = Some st' \<and> quiet st st'"
proof -
  have d: "depends_ok (case prompt_dep parent st of Some d \<Rightarrow> d | None \<Rightarrow> menu_dep (menus st parent))"
    using entry_dep_ok[OF assms(1)] by (simp add: entry_dep_def)
  have plain: "\<exists>st'. propagate_deps (case prompt_dep parent st of Some d \<Rightarrow> d | None \<Rightarrow> menu_dep (menus st parent)) ms st = Some st' \<and> quiet st st'"
    by (rule propagate_deps_ok[OF assms(1) d])
  show ?thesis
  proof (cases "menu_sym (menus st parent)")
    case None
    then show ?thesis using plain assms(2) by (simp add: finalize_head_def)
  next
    case (Some c)
    show ?thesis
    proof (cases "sym_is_choice (syms st c)")
      case False
      then show ?thesis using plain assms(2) Some by (simp add: finalize_head_def)
    next
      case True
      obtain st1 where s: "set_choice_types parent c ms st = Some st1" "quiet st st1"
        using set_choice_types_ok[OF assms(1)] Some by blast
      obtain st2 where "propagate_deps (expr_alloc_symbol c) ms st1 = Some st2" "quiet st1 st2"
        using propagate_deps_ok[OF quiet_inv[OF s(2)], of "expr_alloc_symbol c" ms] by (auto simp: expr_alloc_symbol_def)
      then show ?thesis using s assms(2) Some True quiet_trans[OF s(2)] by (auto simp: finalize_head_def)
    qed
  qed
qed

lemma list_expr_append: "list_expr e \<Longrightarrow> \<exists>e'. append_list e s = Some e' \<and> list_expr e'"
  by (induction e) auto

lemma quiet_add_dep_props: "fin_inv st \<Longrightarrow> depends_ok d \<Longrightarrow> quiet st (fold (add_dep_prop m d) ps st)"
proof (induction ps arbitrary: st)
  case (Cons p ps)
  have "quiet st (add_dep_prop m d p st)"
    using Cons.prems
    by (auto simp: add_dep_prop_def fin_inv_def[of st] prop_shape_def prop_get_symbol_def
        intro!: quiet_refl quiet_upd_prop)
  then show ?case using Cons.IH[OF quiet_inv Cons.prems(2)] quiet_trans by simp
qed (simp add: quiet_refl)

lemma menu_add_symbol_ok:
  assumes "fin_inv st"
  shows "\<exists>st'. menu_add_symbol P_CHOICE c Null st = Some st' \<and> quiet st st'"
proof -
  let ?m = "current_entry st"
  obtain p st1 where a: "prop_alloc P_CHOICE (menu_sym (menus st ?m)) st = (p, st1)" by fastforce
  note al = quiet_prop_alloc[OF assms _ a]
  let ?f = "\<lambda>q. q\<lparr>prop_menu := Some ?m, prop_expr := E_SYMBOL c, visible_expr := Null, prop_text := None\<rparr>"
  have q1: "quiet st st1" by (rule al(1)) simp
  have "quiet st1 (upd_prop p ?f st1)"
    using al(2) al(6) by (intro quiet_upd_prop quiet_inv[OF q1]) (auto simp: prop_shape_def)
  then have "quiet st (upd_prop p ?f st1)" by (rule quiet_trans[OF q1])
  then show ?thesis using a by (simp add: menu_add_symbol_def menu_add_prop_def expr_alloc_symbol_def)
qed

lemma make_choice_value_ok:
  assumes "fin_inv st" "sym_is_choice (syms st c)"
  shows "\<exists>st'. make_choice_value c m s st = Some st' \<and> quiet st st'"
proof -
  let ?st1 = "set_flags {SYMBOL_CHOICEVAL} s (st\<lparr>current_entry := m\<rparr>)"
  have q1: "quiet st ?st1"
    using quiet_trans[OF quiet_entry quiet_set_flags] assms(1) quiet_inv[OF quiet_entry] by simp
  let ?d = "expr_alloc_comp Ty_EQUAL c symbol_yes"
  let ?sta = "upd_menu m (\<lambda>x. x\<lparr>menu_dep := expr_alloc_and ?d (menu_dep x)\<rparr>) ?st1"
  have d: "depends_ok ?d" by (simp add: depends_ok_def expr_alloc_comp_def)
  have qa: "quiet ?st1 ?sta"
    using quiet_inv[OF q1] d by (intro quiet_upd_menu) (auto simp: fin_inv_def)
  let ?st2 = "if sym_type (syms ?st1 c) = S_TRISTATE \<and> sym_type (syms ?st1 s) \<noteq> S_TRISTATE
    then fold (add_dep_prop m ?d) (sym_prop (syms ?st1 s)) ?sta else ?st1"
  have "quiet ?st1 ?st2"
    using quiet_trans[OF qa quiet_add_dep_props[OF quiet_inv[OF qa] d]] quiet_refl[OF quiet_inv[OF q1]] by simp
  then have q2: "quiet st ?st2" by (rule quiet_trans[OF q1])
  obtain st3 where s3: "menu_add_symbol P_CHOICE c Null ?st2 = Some st3" "quiet st st3"
    using menu_add_symbol_ok[OF quiet_inv[OF q2]] quiet_trans[OF q2] by blast
  have "sym_is_choice (syms st3 c)" using assms(2) s3(2) by (simp add: quiet_def)
  then obtain p where p: "sym_get_choice_prop c st3 = Some p" "list_expr (prop_expr (props st3 p))"
    using quiet_inv[OF s3(2)] unfolding fin_inv_def by blast
  obtain e where e: "append_list (prop_expr (props st3 p)) s = Some e" "list_expr e"
    using list_expr_append[OF p(2)] by blast
  have ty: "prop_type (props st3 p) = P_CHOICE"
    using p(1) by (auto simp: sym_get_choice_prop_def first_prop_def find_Some_iff)
  have "quiet st3 (set_prop_expr p e st3)"
    unfolding set_prop_expr_def using quiet_inv[OF s3(2)] ty e(2)
    by (intro quiet_upd_prop) (auto simp: fin_inv_def[of st3] prop_shape_def)
  then have "quiet st (set_prop_expr p e st3)" by (rule quiet_trans[OF s3(2)])
  moreover have "make_choice_value c m s st = Some (set_prop_expr p e st3)"
    unfolding make_choice_value_def Let_def using s3(1) p(1) e(1) by (simp split del: if_split)
  ultimately show ?thesis by blast
qed

lemma finalize_value_ok:
  "fin_inv st \<Longrightarrow> \<exists>st'. finalize_value parent m st = Some st' \<and> quiet st st'"
  by (auto simp: finalize_value_def quiet_refl make_choice_value_ok split: option.split)

lemma check_one_prop_ok: "prop_shape st (props st p) \<Longrightarrow> check_one_prop s p st \<noteq> None"
  by (auto simp: check_one_prop_def prop_shape_def Let_def split: prop_type.split)

lemma sym_check_prop_ok: "fin_inv st \<Longrightarrow> \<exists>w. sym_check_prop s st = Some w"
proof -
  assume "fin_inv st"
  then have "\<exists>w. check_prop_list s ps st = Some w" for ps
    by (induction ps) (use check_one_prop_ok in \<open>fastforce simp: fin_inv_def\<close>)+
  then show ?thesis by (simp add: sym_check_prop_def)
qed

lemma finalize_symbol_ok:
  assumes "fin_inv st"
  shows "\<exists>st'. finalize_symbol parent s st = Some st' \<and> quiet st st'"
proof -
  obtain w where w: "sym_check_prop s st = Some w" using sym_check_prop_ok[OF assms] by blast
  let ?st1 = "if SYMBOL_WARNED \<in> flags (syms st s) then st else set_flags {SYMBOL_WARNED} s st"
  have q1: "quiet st ?st1" using assms by (simp add: quiet_refl quiet_set_flags)
  have "quiet ?st1 (upd_sym s (\<lambda>y. y\<lparr>rev_dep_expr := expr_alloc_or (rev_dep_expr y)
      (expr_alloc_and d (expr_alloc_symbol symbol_mod))\<rparr>) ?st1)" for d
    by (rule quiet_upd_sym[OF quiet_inv[OF q1]]) (simp_all add: sym_is_choice_def)
  note q2 = quiet_trans[OF q1 this]
  show ?thesis
    using w q1 q2 by (cases "SYMBOL_WARNED \<in> flags (syms st s)") (auto simp: finalize_symbol_def split: option.split)
qed

lemma depends_on_entry_ok: "fin_inv st \<Longrightarrow> \<exists>b. depends_on_entry s basedep m st = Some b"
proof -
  assume "fin_inv st"
  then have "dep_expr (expr_trans_compare (entry_dep m st) Ty_UNEQUAL symbol_no)"
    by (intro trans_compare_dep entry_dep_ok) simp_all
  then have "depends_ok (expr_transform (syms st) (expr_trans_compare (entry_dep m st) Ty_UNEQUAL symbol_no))"
    using transform_dep by (simp add: depends_ok_def)
  then show ?thesis using depends_ok_dups by (fastforce simp: depends_on_entry_def Let_def)
qed

subsection \<open>The steps that move entries\<close>

text \<open>Nothing but the links of the entries of \<open>A\<close> changes, apart from what a quiet step may change.\<close>

definition moves :: "nat set \<Rightarrow> kstate \<Rightarrow> kstate \<Rightarrow> bool" where
  "moves A st st' \<longleftrightarrow> fin_inv st' \<and> next_menu st' = next_menu st \<and>
     (\<forall>m. menu_sym (menus st' m) = menu_sym (menus st m)) \<and> (\<forall>m. m \<notin> A \<longrightarrow> same_links (menus st) (menus st') m)"

lemma quiet_moves: "quiet st st' \<Longrightarrow> moves A st st'"
  by (simp add: quiet_def moves_def)

lemma moves_refl: "fin_inv st \<Longrightarrow> moves A st st"
  by (simp add: moves_def)

lemma moves_trans: "moves A a b \<Longrightarrow> moves B b c \<Longrightarrow> A \<union> B \<subseteq> C \<Longrightarrow> moves C a c"
proof -
  assume a: "moves A a b" "moves B b c" "A \<union> B \<subseteq> C"
  have "same_links (menus a) (menus c) m" if "m \<notin> C" for m
  proof -
    have "same_links (menus a) (menus b) m" "same_links (menus b) (menus c) m"
      using a that unfolding moves_def by blast+
    then show ?thesis by (simp add: same_links_def)
  qed
  then show ?thesis using a(1,2) by (simp add: moves_def)
qed

lemma moves_inv: "moves A st st' \<Longrightarrow> fin_inv st'"
  by (simp add: moves_def)

lemma moves_next: "moves A st st' \<Longrightarrow> next_menu st' = next_menu st"
  by (simp add: moves_def)

lemma moves_links: "moves A st st' \<Longrightarrow> m \<notin> A \<Longrightarrow> same_links (menus st) (menus st') m"
  by (simp add: moves_def)

lemma moves_upd_menu:
  assumes "fin_inv st" "m \<in> A" "menu_dep (f (menus st m)) = menu_dep (menus st m)" "menu_sym (f (menus st m)) = menu_sym (menus st m)"
  shows "moves A st (upd_menu m f st)"
  using assms by (auto simp: moves_def fin_inv_def prop_shape_def sym_get_choice_prop_def first_prop_def same_links_def)

lemma seg_moves:
  "moves A st st' \<Longrightarrow> seg (menus st) par p ts e \<Longrightarrow> A \<inter> set (pre_list ts) = {} \<Longrightarrow> seg (menus st') par p ts e"
proof -
  assume a: "moves A st st'" "seg (menus st) par p ts e" "A \<inter> set (pre_list ts) = {}"
  show ?thesis by (rule seg_cong[OF a(2)], rule moves_links[OF a(1)]) (use a(3) in blast)
qed

lemma seg_quiet: "quiet st st' \<Longrightarrow> seg (menus st) par p ts e \<Longrightarrow> seg (menus st') par p ts e"
  by (rule seg_moves[OF quiet_moves[of st st' "{}"]]) simp_all

lemma seg_reroot:
  assumes "moves A st st'" "seg (menus st) par (Some m) (Entry m cs # ts) e" "m \<notin> A"
    and "seg (menus st') (Some m) (menu_list (menus st m)) cs' None" "seg (menus st') par (menu_next (menus st m)) ts' e"
  shows "seg (menus st') par (Some m) (Entry m cs' # ts') e"
  using assms moves_links[OF assms(1,3)] by (simp add: same_links_def)

lemma pre_list_Nil [simp]: "pre_list ts = [] \<longleftrightarrow> ts = []"
proof (cases ts)
  case (Cons t us)
  obtain m cs where "t = Entry m cs" by (cases t)
  then show ?thesis using Cons by simp
qed simp

text \<open>What a call of \<open>menu_finalize\<close> does, for chains of at most \<open>k\<close> entries.\<close>

definition fin_ok :: "finalizer \<Rightarrow> nat \<Rightarrow> bool" where
  "fin_ok fin k \<longleftrightarrow>
     (\<forall>st par m cs ts. fin_inv st \<longrightarrow> seg (menus st) par (Some m) (Entry m cs # ts) None \<longrightarrow>
        distinct (pre_list (Entry m cs # ts)) \<longrightarrow> length (pre_list (Entry m cs # ts)) \<le> min k (next_menu st) \<longrightarrow>
        (\<exists>st' cs' ts'. fin m st = Some st' \<and> moves (set (pre_list (Entry m cs # ts))) st st' \<and>
           seg (menus st') par (Some m) (Entry m cs' # ts') None \<and>
           pre_list (Entry m cs' # ts') = pre_list (Entry m cs # ts) \<and> (ts = [] \<longrightarrow> ts' = [])))"

lemma fin_okD:
  assumes "fin_ok fin k" "fin_inv st" "seg (menus st) par (Some m) (Entry m cs # ts) None"
    "distinct (pre_list (Entry m cs # ts))" "length (pre_list (Entry m cs # ts)) \<le> min k (next_menu st)"
  obtains st' cs' ts' where "fin m st = Some st'" "moves (set (pre_list (Entry m cs # ts))) st st'"
    "seg (menus st') par (Some m) (Entry m cs' # ts') None" "pre_list (Entry m cs' # ts') = pre_list (Entry m cs # ts)"
  using assms unfolding fin_ok_def by blast

lemma finalize_list_ok:
  assumes "fin_ok fin k" "fin_inv st" "seg (menus st) par p ts None" "distinct (pre_list ts)"
    "length (pre_list ts) \<le> min k (next_menu st)" "length (pre_list ts) \<le> n"
  shows "\<exists>st' ts'. finalize_list n fin p st = Some st' \<and> moves (set (pre_list ts)) st st' \<and>
    seg (menus st') par p ts' None \<and> pre_list ts' = pre_list ts"
  using assms(2-6)
proof (induction n arbitrary: st p ts)
  case 0
  then have "ts = []" by simp
  then show ?case using 0 by (auto intro: moves_refl)
next
  case (Suc n)
  show ?case
  proof (cases ts)
    case Nil
    then show ?thesis using Suc.prems by (auto intro: moves_refl)
  next
    case (Cons t vs)
    obtain m us where t: "t = Entry m us" by (cases t)
    have p: "p = Some m" using Suc.prems(2) Cons t by simp
    obtain st1 us' vs' where f: "fin m st = Some st1" "moves (set (pre_list ts)) st st1"
      "seg (menus st1) par (Some m) (Entry m us' # vs') None" "pre_list (Entry m us' # vs') = pre_list ts"
      using fin_okD[OF assms(1) Suc.prems(1), of par m us vs] Suc.prems(2-4) Cons t p by metis
    have d: "distinct (pre_list (Entry m us' # vs'))" using f(4) Suc.prems(3) by simp
    have len: "length (pre_list (Entry m us' # vs')) = length (pre_list ts)" using f(4) by simp
    obtain st2 ws where r: "finalize_list n fin (menu_next (menus st1 m)) st1 = Some st2"
      "moves (set (pre_list vs')) st1 st2" "seg (menus st2) par (menu_next (menus st1 m)) ws None" "pre_list ws = pre_list vs'"
      using Suc.IH[OF moves_inv[OF f(2)], of "menu_next (menus st1 m)" vs'] f(2,3) d len Suc.prems(4,5) moves_next[OF f(2)] by auto
    have "seg (menus st2) (Some m) (menu_list (menus st1 m)) us' None"
      by (rule seg_moves[OF r(2)]) (use f(3) d in auto)
    then have "seg (menus st2) par (Some m) (Entry m us' # ws) None"
      using seg_reroot[OF r(2) f(3) _ _ r(3)] d by simp
    moreover have "moves (set (pre_list ts)) st st2"
      by (rule moves_trans[OF f(2) r(2)]) (use arg_cong[OF f(4), of set] in auto)
    ultimately show ?thesis using f(1,4) r(1,4) p by (intro exI[of _ st2] exI[of _ "Entry m us' # ws"]) simp
  qed
qed

fun root_of :: "mtree \<Rightarrow> nat" where
  "root_of (Entry m cs) = m"

lemma moves_parent: "fin_inv st \<Longrightarrow> m \<in> A \<Longrightarrow> moves A st (upd_menu m (\<lambda>x. x\<lparr>menu_parent := q\<rparr>) st)"
  by (rule moves_upd_menu) simp_all

lemma take_dependents_ok:
  assumes "fin_ok fin k" "fin_inv st" "seg (menus st) par p ts None" "distinct (pre_list ts)"
    "length (pre_list ts) \<le> min k (next_menu st)" "length (pre_list ts) \<le> n"
  shows "\<exists>l st' ds rs q. take_dependents n fin parent s b l0 p st = Some (l, st') \<and> moves (set (pre_list ts)) st st' \<and>
    seg (menus st') (Some parent) p ds q \<and> seg (menus st') par q rs None \<and> pre_list (ds @ rs) = pre_list ts \<and>
    l = (if ds = [] then l0 else Some (root_of (last ds)))"
  using assms(2-6)
proof (induction n arbitrary: st p ts l0)
  case 0
  then have "ts = []" "p = None" by simp_all
  then show ?case using 0 by (intro exI[of _ l0] exI[of _ st] exI[of _ "[]"] exI[of _ None]) (simp add: moves_refl)
next
  case (Suc n)
  obtain bo where bo: "\<And>m. p = Some m \<Longrightarrow> depends_on_entry s b m st = Some (bo m)"
    using depends_on_entry_ok[OF Suc.prems(1)] by metis
  show ?case
  proof (cases "ts = [] \<or> (\<exists>m. p = Some m \<and> \<not> bo m)")
    case True
    then have "take_dependents (Suc n) fin parent s b l0 p st = Some (l0, st)"
      using Suc.prems(2) bo by (cases p) auto
    then show ?thesis using Suc.prems(1,2) by (intro exI[of _ l0] exI[of _ st] exI[of _ "[]"] exI[of _ ts] exI[of _ p]) (simp add: moves_refl)
  next
    case False
    then obtain t vs where "ts = t # vs" by (cases ts) auto
    moreover obtain m us where "t = Entry m us" by (cases t)
    ultimately have ts: "ts = Entry m us # vs" by simp
    have p: "p = Some m" using Suc.prems(2) ts by simp
    have dep: "depends_on_entry s b m st = Some True" using bo[OF p] False p by simp
    obtain st1 us' vs' where f: "fin m st = Some st1" "moves (set (pre_list ts)) st st1"
      "seg (menus st1) par (Some m) (Entry m us' # vs') None" "pre_list (Entry m us' # vs') = pre_list ts"
      using fin_okD[OF assms(1) Suc.prems(1), of par m us vs] Suc.prems(2-4) ts p by metis
    have d: "distinct (pre_list (Entry m us' # vs'))" using f(4) Suc.prems(3) by simp
    have len: "length (pre_list (Entry m us' # vs')) = length (pre_list ts)" using f(4) by simp
    let ?st2 = "upd_menu m (\<lambda>x. x\<lparr>menu_parent := Some parent\<rparr>) st1"
    have q2: "moves {m} st1 ?st2" by (rule moves_parent[OF moves_inv[OF f(2)]]) simp
    have nx: "menu_next (menus ?st2 m) = menu_next (menus st1 m)" by simp
    have v: "seg (menus ?st2) par (menu_next (menus st1 m)) vs' None"
      by (rule seg_moves[OF q2]) (use f(3) d in auto)
    obtain l st3 ds rs q where r: "take_dependents n fin parent s b (Some m) (menu_next (menus st1 m)) ?st2 = Some (l, st3)"
      "moves (set (pre_list vs')) ?st2 st3" "seg (menus st3) (Some parent) (menu_next (menus st1 m)) ds q"
      "seg (menus st3) par q rs None" "pre_list (ds @ rs) = pre_list vs'"
      "l = (if ds = [] then Some m else Some (root_of (last ds)))"
      using Suc.IH[OF moves_inv[OF q2] v, of "Some m"] d len Suc.prems(4,5) moves_next[OF f(2)] moves_next[OF q2] by auto
    have us: "seg (menus st3) (Some m) (menu_list (menus st1 m)) us' None"
      by (rule seg_moves[OF r(2)], rule seg_moves[OF q2]) (use f(3) d in auto)
    have "same_links (menus ?st2) (menus st3) m" by (rule moves_links[OF r(2)]) (use d in simp)
    then have sg: "seg (menus st3) (Some parent) (Some m) (Entry m us' # ds) q"
      using us r(3) by (simp add: same_links_def)
    have "moves (set (pre_list ts)) st st3"
      by (rule moves_trans[OF moves_trans[OF f(2) q2 subset_refl] r(2)]) (use arg_cong[OF f(4), of set] in auto)
    moreover have "take_dependents (Suc n) fin parent s b l0 p st = Some (l, st3)"
      using p dep f(1) r(1) nx by (simp add: Let_def)
    moreover have "pre_list ((Entry m us' # ds) @ rs) = pre_list ts" using r(5) f(4) by simp
    moreover have "l = (if Entry m us' # ds = [] then l0 else Some (root_of (last (Entry m us' # ds))))"
      using r(6) by simp
    ultimately show ?thesis using sg r(4) unfolding p by blast
  qed
qed

text \<open>The \<^verbatim>\<open>next\<close> pointer of the last entry of a segment.\<close>

lemma seg_last:
  "seg ms par p ts e \<Longrightarrow> ts \<noteq> [] \<Longrightarrow> menu_next (ms (root_of (last ts))) = e"
proof (induction ts arbitrary: p)
  case (Cons t ts)
  obtain m cs where "t = Entry m cs" by (cases t)
  with Cons show ?case by (cases ts) auto
qed simp

lemma root_last_in: "ts \<noteq> [] \<Longrightarrow> root_of (last ts) \<in> set (pre_list ts)"
proof (induction ts)
  case (Cons t ts)
  obtain m cs where "t = Entry m cs" by (cases t)
  with Cons show ?case by (cases ts) auto
qed simp

lemma seg_set_last:
  assumes "seg ms par p ts e" "ts \<noteq> []" "distinct (pre_list ts)"
    "\<And>m. m \<in> set (pre_list ts) \<Longrightarrow> m \<noteq> root_of (last ts) \<Longrightarrow> same_links ms ms' m"
    "menu_parent (ms' (root_of (last ts))) = menu_parent (ms (root_of (last ts)))"
    "menu_list (ms' (root_of (last ts))) = menu_list (ms (root_of (last ts)))"
    "menu_next (ms' (root_of (last ts))) = e'"
  shows "seg ms' par p ts e'"
  using assms
proof (induction ts arbitrary: p)
  case (Cons t ts)
  obtain m cs where t: "t = Entry m cs" by (cases t)
  have sc: "seg ms (Some m) (menu_list (ms m)) cs None" using Cons.prems(1) t by simp
  show ?case
  proof (cases "ts = []")
    case True
    have "seg ms' (Some m) (menu_list (ms m)) cs None"
      by (rule seg_cong[OF sc]) (use Cons.prems(3,4) t True in auto)
    then show ?thesis using Cons.prems t True by simp
  next
    case False
    let ?l = "root_of (last ts)"
    have l: "?l \<in> set (pre_list ts)" by (rule root_last_in[OF False])
    have d: "m \<noteq> ?l" "?l \<notin> set (pre_list cs)" using l Cons.prems(3) t by auto
    have "seg ms' (Some m) (menu_list (ms m)) cs None"
      by (rule seg_cong[OF sc]) (use Cons.prems(4) t False d(2) in auto)
    moreover have "same_links ms ms' m" using Cons.prems(4)[of m] t False d(1) by simp
    moreover have "seg ms' par (menu_next (ms m)) ts e'"
      by (rule Cons.IH) (use Cons.prems t False in auto)
    ultimately show ?thesis using Cons.prems(1) t by (simp add: same_links_def)
  qed
qed simp

lemma finalize_single_ok:
  assumes "fin_ok fin k" "fin_inv st" "seg (menus st) par (Some m) (Entry m [] # ts) None"
    "distinct (pre_list (Entry m [] # ts))" "length (pre_list ts) \<le> min k (next_menu st)"
  shows "\<exists>st' cs' ts'. finalize_single fin m s st = Some st' \<and> moves (set (pre_list (Entry m [] # ts))) st st' \<and>
    seg (menus st') par (Some m) (Entry m cs' # ts') None \<and> pre_list (Entry m cs' # ts') = pre_list (Entry m [] # ts) \<and>
    (ts = [] \<longrightarrow> ts' = [])"
proof -
  let ?d = "case prompt_dep m st of Some d \<Rightarrow> d | None \<Rightarrow> Null"
  have "depends_ok ?d" using prompt_dep_ok[OF assms(2)] by (simp split: option.split)
  then have "depends_ok (expr_transform (syms st) (expr_trans_compare ?d Ty_UNEQUAL symbol_no))"
    using transform_dep trans_compare_dep by (simp add: depends_ok_def)
  then obtain b where b: "expr_eliminate_dups (syms st)
      (expr_transform (syms st) (expr_trans_compare ?d Ty_UNEQUAL symbol_no)) = Some b"
    using depends_ok_dups by blast
  let ?p = "menu_next (menus st m)"
  have m: "m \<notin> set (pre_list ts)" "seg (menus st) par ?p ts None" "menu_list (menus st m) = None"
    using assms(3,4) by simp_all
  obtain l st1 ds rs q where t: "take_dependents (next_menu st) fin m s b None ?p st = Some (l, st1)"
    "moves (set (pre_list ts)) st st1" "seg (menus st1) (Some m) ?p ds q" "seg (menus st1) par q rs None"
    "pre_list (ds @ rs) = pre_list ts" "l = (if ds = [] then None else Some (root_of (last ds)))"
    using take_dependents_ok[OF assms(1,2) m(2)] assms(4,5) by (metis distinct.simps(2) min.bounded_iff pre_list_simps(2) append_Nil pre_list_simps(1))
  have keep: "same_links (menus st) (menus st1) m" by (rule moves_links[OF t(2) m(1)])
  have d: "distinct (pre_list ds)" "set (pre_list ds) \<inter> set (pre_list rs) = {}" "m \<notin> set (pre_list ds)" "m \<notin> set (pre_list rs)"
    using t(5) m(1) assms(4) by (auto simp flip: t(5))
  show ?thesis
  proof (cases "ds = []")
    case True
    then have "finalize_single fin m s st = Some st1" using b t(1,6) by (simp add: finalize_single_def)
    moreover have "moves (set (pre_list (Entry m [] # ts))) st st1"
      by (rule moves_trans[OF t(2) moves_refl[OF moves_inv[OF t(2)]], of "{}"]) auto
    moreover have "seg (menus st1) par (Some m) (Entry m [] # rs) None"
      using keep t(3,4) True assms(3) by (simp add: same_links_def)
    ultimately show ?thesis using t(5) True by (intro exI[of _ st1] exI[of _ "[]"] exI[of _ rs]) auto
  next
    case False
    let ?l = "root_of (last ds)"
    let ?f = "\<lambda>x. x\<lparr>menu_list := ?p\<rparr>"
    let ?st' = "move_dependents m ?l st1"
    have l: "?l \<in> set (pre_list ds)" "menu_next (menus st1 ?l) = q"
      using root_last_in[OF False] seg_last[OF t(3) False] by auto
    then have lm: "?l \<noteq> m" using d(3) by auto
    have fields: "menus ?st' = (menus st1)(m := (menus st1 m)\<lparr>menu_list := ?p, menu_next := q\<rparr>,
        ?l := (menus st1 ?l)\<lparr>menu_next := None\<rparr>)"
      using lm l(2) keep by (auto simp: move_dependents_def Let_def same_links_def)
    have mv: "moves (set (pre_list (Entry m [] # ts))) st1 ?st'"
    proof -
      let ?A = "set (pre_list (Entry m [] # ts))"
      have lA: "?l \<in> ?A" using l(1) arg_cong[OF t(5), of set] by auto
      have 1: "moves ?A a (upd_menu m g a)" if "fin_inv a" "\<And>x. menu_dep (g x) = menu_dep x" "\<And>x. menu_sym (g x) = menu_sym x" for a g
        by (rule moves_upd_menu) (use that in simp_all)
      have 2: "moves ?A a (upd_menu ?l g a)" if "fin_inv a" "\<And>x. menu_dep (g x) = menu_dep x" "\<And>x. menu_sym (g x) = menu_sym x" for a g
        by (rule moves_upd_menu) (use that lA in simp_all)
      let ?a = "upd_menu m (\<lambda>x. x\<lparr>menu_list := menu_next (menus st1 m)\<rparr>) st1"
      let ?b = "upd_menu m (\<lambda>x. x\<lparr>menu_next := menu_next (menus ?a ?l)\<rparr>) ?a"
      have a: "moves ?A st1 ?a" by (rule 1[OF moves_inv[OF t(2)]]) simp_all
      have b: "moves ?A ?a ?b" by (rule 1[OF moves_inv[OF a]]) simp_all
      have c: "moves ?A ?b (upd_menu ?l (\<lambda>x. x\<lparr>menu_next := None\<rparr>) ?b)" by (rule 2[OF moves_inv[OF b]]) simp_all
      show ?thesis unfolding move_dependents_def Let_def
        by (rule moves_trans[OF moves_trans[OF a b, of ?A] c]) simp_all
    qed
    have "seg (menus ?st') (Some m) ?p ds None"
      by (rule seg_set_last[OF t(3) False d(1)]) (use lm d(3) in \<open>auto simp: fields same_links_def\<close>)
    moreover have "seg (menus ?st') par q rs None"
      by (rule seg_cong[OF t(4)]) (use d l(1) in \<open>auto simp: fields same_links_def\<close>)
    ultimately have "seg (menus ?st') par (Some m) (Entry m ds # rs) None"
      using lm keep assms(3) by (simp add: fields same_links_def)
    moreover have "moves (set (pre_list (Entry m [] # ts))) st ?st'"
      by (rule moves_trans[OF t(2) mv]) auto
    moreover have "finalize_single fin m s st = Some ?st'" using b t(1,6) False by (simp add: finalize_single_def)
    moreover have "pre_list (Entry m ds # rs) = pre_list (Entry m [] # ts)" "ts = [] \<longrightarrow> rs = []" using t(5) by auto
    ultimately show ?thesis by blast
  qed
qed

lemma siblings_seg: "seg ms par p ts None \<Longrightarrow> length ts \<le> n \<Longrightarrow> siblings n ms p = Some (map root_of ts)"
proof (induction ts arbitrary: n p)
  case (Cons t ts)
  obtain m cs where "t = Entry m cs" by (cases t)
  with Cons show ?case by (cases n) auto
qed simp

lemma length_pre_list: "length ts \<le> length (pre_list ts)"
proof (induction ts)
  case (Cons t ts)
  obtain m cs where "t = Entry m cs" by (cases t)
  with Cons show ?case by simp
qed simp

lemma roots_in: "set (map root_of ts) \<subseteq> set (pre_list ts)"
proof (induction ts)
  case (Cons t ts)
  obtain m cs where "t = Entry m cs" by (cases t)
  with Cons show ?case by auto
qed simp

lemma children_seg:
  "seg (menus st) par (Some m) (Entry m cs # ts) e \<Longrightarrow> length (pre_list cs) \<le> next_menu st \<Longrightarrow>
   children m st = Some (map root_of cs)"
  unfolding children_def by (rule siblings_seg) (use length_pre_list[of cs] in auto)

lemma reparent_menus:
  "menus (fold (\<lambda>k. upd_menu k (\<lambda>x. x\<lparr>menu_parent := q\<rparr>)) ks st) x =
   (if x \<in> set ks then (menus st x)\<lparr>menu_parent := q\<rparr> else menus st x)"
  by (induction ks arbitrary: st) auto

lemma reparent_moves:
  "fin_inv st \<Longrightarrow> set ks \<subseteq> A \<Longrightarrow> moves A st (fold (\<lambda>k. upd_menu k (\<lambda>x. x\<lparr>menu_parent := q\<rparr>)) ks st)"
proof (induction ks arbitrary: st)
  case (Cons k ks)
  have "moves A st (upd_menu k (\<lambda>x. x\<lparr>menu_parent := q\<rparr>) st)" by (rule moves_parent) (use Cons.prems in auto)
  moreover from this have "moves A (upd_menu k (\<lambda>x. x\<lparr>menu_parent := q\<rparr>) st)
      (fold (\<lambda>k. upd_menu k (\<lambda>x. x\<lparr>menu_parent := q\<rparr>)) ks (upd_menu k (\<lambda>x. x\<lparr>menu_parent := q\<rparr>) st))"
    by (rule Cons.IH[OF moves_inv]) (use Cons.prems in auto)
  ultimately show ?case using moves_trans[of A st _ A _ A] by simp
qed (simp add: moves_refl)

lemma seg_reparent:
  assumes "seg ms par p ts e" "distinct (pre_list ts)"
    "\<And>x. x \<in> set (pre_list ts) \<Longrightarrow> ms' x = (if x \<in> set (map root_of ts) then (ms x)\<lparr>menu_parent := q\<rparr> else ms x)"
  shows "seg ms' q p ts e"
  using assms
proof (induction ts arbitrary: p)
  case (Cons t ts)
  obtain m cs where t: "t = Entry m cs" by (cases t)
  have r: "set (map root_of ts) \<subseteq> set (pre_list ts)" by (rule roots_in)
  have m: "ms' m = (ms m)\<lparr>menu_parent := q\<rparr>" using Cons.prems(3)[of m] t by simp
  have sc: "seg ms (Some m) (menu_list (ms m)) cs None" using Cons.prems(1) t by simp
  have "ms' x = ms x" if "x \<in> set (pre_list cs)" for x
    using Cons.prems(2) Cons.prems(3)[of x] that r t by auto
  then have "seg ms' (Some m) (menu_list (ms m)) cs None" by (intro seg_cong[OF sc]) (simp add: same_links_def)
  moreover have "seg ms' q (menu_next (ms m)) ts e"
  proof (rule Cons.IH)
    fix x assume x: "x \<in> set (pre_list ts)"
    then have "x \<noteq> m" using Cons.prems(2) t by auto
    then show "ms' x = (if x \<in> set (map root_of ts) then (ms x)\<lparr>menu_parent := q\<rparr> else ms x)"
      using Cons.prems(3)[of x] x t by simp
  qed (use Cons.prems t in auto)
  ultimately show ?case using Cons.prems(1) m t by simp
qed simp

lemma flatten_entry_ok:
  assumes "fin_inv st" "seg (menus st) (Some parent) (Some m) (Entry m us # ts) None"
    "distinct (pre_list (Entry m us # ts))" "length (pre_list (Entry m us # ts)) \<le> next_menu st"
  shows "\<exists>st' us' ts'. flatten_entry parent m st = Some st' \<and> moves (set (pre_list (Entry m us # ts))) st st' \<and>
    seg (menus st') (Some parent) (Some m) (Entry m us' # ts') None \<and> pre_list (Entry m us' # ts') = pre_list (Entry m us # ts)"
proof (cases "menu_list (menus st m) = None \<or> has_text m st")
  case True
  then show ?thesis using assms(1,2) by (intro exI[of _ st] exI[of _ us] exI[of _ ts]) (simp add: flatten_entry_def moves_refl)
next
  case False
  let ?A = "set (pre_list (Entry m us # ts))"
  have ne: "us \<noteq> []" using False assms(2) by auto
  have ch: "children m st = Some (map root_of us)" by (rule children_seg[OF assms(2)]) (use assms(4) in simp)
  have last: "last (map root_of us) = root_of (last us)" using ne by (simp add: last_map)
  let ?l = "root_of (last us)"
  have l: "?l \<in> set (pre_list us)" by (rule root_last_in[OF ne])
  let ?st1 = "fold (\<lambda>k. upd_menu k (\<lambda>x. x\<lparr>menu_parent := Some parent\<rparr>)) (map root_of us) st"
  let ?st2 = "upd_menu ?l (\<lambda>x. x\<lparr>menu_next := menu_next (menus ?st1 m)\<rparr>) ?st1"
  let ?st3 = "upd_menu m (\<lambda>x. x\<lparr>menu_next := menu_list (menus ?st2 m)\<rparr>) ?st2"
  let ?st4 = "upd_menu m (\<lambda>x. x\<lparr>menu_list := None\<rparr>) ?st3"
  have up: "moves ?A a (upd_menu k g a)" if "fin_inv a" "k \<in> ?A" "\<And>x. menu_dep (g x) = menu_dep x" "\<And>x. menu_sym (g x) = menu_sym x" for a k g
    by (rule moves_upd_menu) (use that in simp_all)
  have m1: "moves ?A st ?st1" by (rule reparent_moves[OF assms(1)]) (use roots_in[of us] in auto)
  have m2: "moves ?A ?st1 ?st2" by (rule up[OF moves_inv[OF m1]]) (use l in simp_all)
  have m3: "moves ?A ?st2 ?st3" by (rule up[OF moves_inv[OF m2]]) simp_all
  have m4: "moves ?A ?st3 ?st4" by (rule up[OF moves_inv[OF m3]]) simp_all
  have mv: "moves ?A st ?st4"
    by (rule moves_trans[OF moves_trans[OF moves_trans[OF m1 m2, of ?A] m3, of ?A] m4]) simp_all
  have d: "m \<notin> set (pre_list us)" "m \<notin> set (pre_list ts)" "distinct (pre_list us)" "set (pre_list us) \<inter> set (pre_list ts) = {}"
    using assms(3) by auto
  have mr: "m \<notin> set (map root_of us)" "\<And>x. x \<in> set (pre_list ts) \<Longrightarrow> x \<notin> set (map root_of us)"
    using roots_in[of us] d by blast+
  have lm: "?l \<noteq> m" using l d(1) by auto
  have s1: "menus ?st1 x = (if x \<in> set (map root_of us) then (menus st x)\<lparr>menu_parent := Some parent\<rparr> else menus st x)" for x
    by (rule reparent_menus)
  have s4: "menus ?st4 = (menus ?st1)(?l := (menus ?st1 ?l)\<lparr>menu_next := menu_next (menus st m)\<rparr>,
      m := (menus st m)\<lparr>menu_next := menu_list (menus st m), menu_list := None\<rparr>)"
    using lm s1[of m] mr(1) by (simp add: fun_upd_def) auto
  have u1: "seg (menus ?st1) (Some parent) (menu_list (menus st m)) us None"
    by (rule seg_reparent[where ms = "menus st" and par = "Some m"]) (use assms(2) d(3) s1 in simp_all)
  have u4: "seg (menus ?st4) (Some parent) (menu_list (menus st m)) us (menu_next (menus st m))"
    unfolding s4 by (rule seg_set_last[OF u1 ne d(3)]) (use lm d(1) in \<open>auto simp: same_links_def\<close>)
  have t0: "seg (menus st) (Some parent) (menu_next (menus st m)) ts None" using assms(2) by simp
  have "same_links (menus st) (menus ?st4) x" if "x \<in> set (pre_list ts)" for x
    using that mr(2)[OF that] d(2,4) l s1[of x] unfolding s4 by (auto simp: same_links_def)
  then have t4: "seg (menus ?st4) (Some parent) (menu_next (menus st m)) ts None" by (rule seg_cong[OF t0])
  have m4: "menus ?st4 m = (menus st m)\<lparr>menu_next := menu_list (menus st m), menu_list := None\<rparr>"
    unfolding s4 by simp
  have "seg (menus ?st4) (Some parent) (menu_list (menus st m)) (us @ ts) None"
    using u4 t4 unfolding seg_append by blast
  moreover have "menu_parent (menus st m) = Some parent" using assms(2) by simp
  ultimately have "seg (menus ?st4) (Some parent) (Some m) (Entry m [] # us @ ts) None"
    unfolding seg.simps m4 by simp
  moreover have "flatten_entry parent m st = Some ?st4" 
    unfolding flatten_entry_def if_not_P[OF False] ch last[symmetric] Let_def by simp
  ultimately show ?thesis using mv by (intro exI[of _ ?st4] exI[of _ "[]"] exI[of _ "us @ ts"]) simp
qed

lemma finalize_tail_ok:
  assumes "fin_inv st" "seg (menus st) (Some parent) p ts None" "distinct (pre_list ts)"
    "length (pre_list ts) \<le> next_menu st" "length (pre_list ts) \<le> n"
  shows "\<exists>st' ts'. finalize_tail n parent p st = Some st' \<and> moves (set (pre_list ts)) st st' \<and>
    seg (menus st') (Some parent) p ts' None \<and> pre_list ts' = pre_list ts"
  using assms
proof (induction n arbitrary: st p ts)
  case 0
  then have "ts = []" by simp
  then show ?case using 0 by (auto intro: moves_refl)
next
  case (Suc n)
  show ?case
  proof (cases ts)
    case Nil
    then show ?thesis using Suc.prems by (auto intro: moves_refl)
  next
    case (Cons t vs)
    obtain m us where t: "t = Entry m us" by (cases t)
    have p: "p = Some m" using Suc.prems(2) Cons t by simp
    obtain st1 where v: "finalize_value parent m st = Some st1" "quiet st st1"
      using finalize_value_ok[OF Suc.prems(1)] by blast
    have s1: "seg (menus st1) (Some parent) (Some m) (Entry m us # vs) None"
      using seg_quiet[OF v(2) Suc.prems(2)] Cons t p by simp
    have "next_menu st1 = next_menu st" using v(2) by (simp add: quiet_def)
    then obtain st2 us' vs' where f: "flatten_entry parent m st1 = Some st2" "moves (set (pre_list ts)) st1 st2"
      "seg (menus st2) (Some parent) (Some m) (Entry m us' # vs') None" "pre_list (Entry m us' # vs') = pre_list ts"
      using flatten_entry_ok[OF quiet_inv[OF v(2)] s1] Suc.prems(3,4) Cons t by metis
    have d: "distinct (pre_list (Entry m us' # vs'))" using f(4) Suc.prems(3) by simp
    have len: "length (pre_list (Entry m us' # vs')) = length (pre_list ts)" using f(4) by simp
    have m2: "moves (set (pre_list ts)) st st2" by (rule moves_trans[OF quiet_moves[OF v(2)] f(2)]) auto
    obtain st3 ws where r: "finalize_tail n parent (menu_next (menus st2 m)) st2 = Some st3"
      "moves (set (pre_list vs')) st2 st3" "seg (menus st3) (Some parent) (menu_next (menus st2 m)) ws None" "pre_list ws = pre_list vs'"
      using Suc.IH[OF moves_inv[OF f(2)], of "menu_next (menus st2 m)" vs'] f(3) d len Suc.prems(4,5) moves_next[OF m2] by auto
    have "seg (menus st3) (Some m) (menu_list (menus st2 m)) us' None"
      by (rule seg_moves[OF r(2)]) (use f(3) d in auto)
    then have "seg (menus st3) (Some parent) (Some m) (Entry m us' # ws) None"
      using seg_reroot[OF r(2) f(3) _ _ r(3)] d by simp
    moreover have "moves (set (pre_list ts)) st st3"
      by (rule moves_trans[OF m2 r(2)]) (use arg_cong[OF f(4), of set] in auto)
    ultimately show ?thesis using v(1) f(1,4) r(1,4) p by (intro exI[of _ st3] exI[of _ "Entry m us' # ws"]) simp
  qed
qed

text \<open>The first half of \<open>menu_finalize\<close>: the entries of the list, or those behind the entry.\<close>

definition finalize_below :: "finalizer \<Rightarrow> nat \<Rightarrow> kstate \<Rightarrow> kstate option" where
  "finalize_below fin m st =
     (if menu_list (menus st m) \<noteq> None then
        do { st0 \<leftarrow> finalize_head m st;
             finalize_list (next_menu st0) fin (menu_list (menus st0 m)) st0 }
      else case menu_sym (menus st m) of Some s \<Rightarrow> finalize_single fin m s st | None \<Rightarrow> Some st)"

lemma finalize_below_ok:
  assumes "fin_ok fin k" "fin_inv st" "seg (menus st) par (Some m) (Entry m cs # ts) None"
    "distinct (pre_list (Entry m cs # ts))" "length (pre_list (Entry m cs # ts)) \<le> min (Suc k) (next_menu st)"
  shows "\<exists>st' cs' ts'. finalize_below fin m st = Some st' \<and> moves (set (pre_list (Entry m cs # ts))) st st' \<and>
    seg (menus st') par (Some m) (Entry m cs' # ts') None \<and> pre_list (Entry m cs' # ts') = pre_list (Entry m cs # ts) \<and>
    (ts = [] \<longrightarrow> ts' = [])"
proof (cases "menu_list (menus st m) = None")
  case True
  then have cs: "cs = []" using assms(3) by (cases cs rule: list.exhaust) (auto dest: seg_head split: list.splits)
  show ?thesis
  proof (cases "menu_sym (menus st m)")
    case None
    then have "finalize_below fin m st = Some st" using True by (simp add: finalize_below_def)
    then show ?thesis using moves_refl[OF assms(2)] assms(3) by blast
  next
    case (Some s)
    then have "finalize_below fin m st = finalize_single fin m s st" using True by (simp add: finalize_below_def)
    then show ?thesis using finalize_single_ok[OF assms(1,2), of par m ts s] assms(3-5) cs by simp
  qed
next
  case False
  let ?A = "set (pre_list (Entry m cs # ts))"
  have "children m st = Some (map root_of cs)" by (rule children_seg[OF assms(3)]) (use assms(5) in simp)
  then obtain st0 where h: "finalize_head m st = Some st0" "quiet st st0"
    using finalize_head_ok[OF assms(2)] by blast
  have s0: "seg (menus st0) par (Some m) (Entry m cs # ts) None" by (rule seg_quiet[OF h(2) assms(3)])
  have n0: "next_menu st0 = next_menu st" using h(2) by (simp add: quiet_def)
  obtain st1 cs' where l: "finalize_list (next_menu st0) fin (menu_list (menus st0 m)) st0 = Some st1"
    "moves (set (pre_list cs)) st0 st1" "seg (menus st1) (Some m) (menu_list (menus st0 m)) cs' None" "pre_list cs' = pre_list cs"
    using finalize_list_ok[OF assms(1) quiet_inv[OF h(2)], of "Some m" "menu_list (menus st0 m)" cs "next_menu st0"]
      s0 assms(4,5) n0 by auto
  have "seg (menus st1) par (menu_next (menus st0 m)) ts None"
    by (rule seg_moves[OF l(2)]) (use s0 assms(4) in auto)
  then have "seg (menus st1) par (Some m) (Entry m cs' # ts) None"
    using seg_reroot[OF l(2) s0 _ l(3)] assms(4) by simp
  moreover have "moves ?A st st1" by (rule moves_trans[OF quiet_moves[OF h(2)] l(2)]) auto
  moreover have "finalize_below fin m st = Some st1" using False h(1) l(1) by (simp add: finalize_below_def)
  ultimately show ?thesis using l(4) by (intro exI[of _ st1] exI[of _ cs'] exI[of _ ts]) simp
qed

lemma menu_finalize_fin_ok: "fin_ok (menu_finalize n) n"
proof (induction n)
  case 0
  then show ?case by (simp add: fin_ok_def)
next
  case (Suc n)
  show ?case unfolding fin_ok_def
  proof (intro allI impI)
    fix st par m cs ts
    let ?A = "set (pre_list (Entry m cs # ts))"
    assume i: "fin_inv st" and s: "seg (menus st) par (Some m) (Entry m cs # ts) None"
      and d: "distinct (pre_list (Entry m cs # ts))" and len: "length (pre_list (Entry m cs # ts)) \<le> min (Suc n) (next_menu st)"
    obtain st1 cs1 ts1 where b: "finalize_below (menu_finalize n) m st = Some st1" "moves ?A st st1"
      "seg (menus st1) par (Some m) (Entry m cs1 # ts1) None" "pre_list (Entry m cs1 # ts1) = pre_list (Entry m cs # ts)"
      "ts = [] \<longrightarrow> ts1 = []"
      using finalize_below_ok[OF Suc i s d len] by blast
    have d1: "distinct (pre_list (Entry m cs1 # ts1))" using b(4) d by simp
    have len1: "length (pre_list cs1) \<le> next_menu st1"
      using arg_cong[OF b(4), of length] len moves_next[OF b(2)] by simp
    obtain st2 cs2 where t: "finalize_tail (next_menu st1) m (menu_list (menus st1 m)) st1 = Some st2"
      "moves (set (pre_list cs1)) st1 st2" "seg (menus st2) (Some m) (menu_list (menus st1 m)) cs2 None" "pre_list cs2 = pre_list cs1"
      using finalize_tail_ok[OF moves_inv[OF b(2)], of m "menu_list (menus st1 m)" cs1 "next_menu st1"] b(3) d1 len1 by auto
    have "seg (menus st2) par (menu_next (menus st1 m)) ts1 None"
      by (rule seg_moves[OF t(2)]) (use b(3) d1 in auto)
    then have s2: "seg (menus st2) par (Some m) (Entry m cs2 # ts1) None"
      using seg_reroot[OF t(2) b(3) _ t(3)] d1 by simp
    have m2: "moves ?A st st2" by (rule moves_trans[OF b(2) t(2)]) (use arg_cong[OF b(4), of set] in auto)
    have p2: "pre_list (Entry m cs2 # ts1) = pre_list (Entry m cs # ts)" using b(4) t(4) by simp
    obtain st3 where f: "(case menu_sym (menus st m) of Some s \<Rightarrow> finalize_symbol m s st2 | None \<Rightarrow> Some st2) = Some st3" "quiet st2 st3"
      using finalize_symbol_ok[OF moves_inv[OF m2]] quiet_refl[OF moves_inv[OF m2]] by (cases "menu_sym (menus st m)") fastforce+
    have "menu_finalize (Suc n) m st = Some st3"
      using b(1) t(1) f(1) by (simp add: finalize_below_def Let_def)
    moreover have "moves ?A st st3" by (rule moves_trans[OF m2 quiet_moves[OF f(2), of "{}"]]) simp
    moreover have "seg (menus st3) par (Some m) (Entry m cs2 # ts1) None" by (rule seg_quiet[OF f(2) s2])
    ultimately show "\<exists>st' cs' ts'. menu_finalize (Suc n) m st = Some st' \<and> moves ?A st st' \<and>
        seg (menus st') par (Some m) (Entry m cs' # ts') None \<and>
        pre_list (Entry m cs' # ts') = pre_list (Entry m cs # ts) \<and> (ts = [] \<longrightarrow> ts' = [])"
      using p2 b(5) by blast
  qed
qed

text \<open>
  C5.  \<open>menu_finalize\<close> returns on every menu tree, and it loses, doubles and reorders no entry: it
  leaves a menu tree with the same entries in the same order, whatever entries it moved into the
  list of the entry they depend on, or out of the list of an entry without a text.
\<close>

theorem menu_finalize_preorder:
  assumes "fin_inv st" "menu_tree st ts"
  shows "\<exists>st' ts'. menu_finalize (next_menu st) rootmenu st = Some st' \<and> menu_tree st' ts' \<and>
    pre_list ts' = pre_list ts \<and> (\<forall>m. menu_sym (menus st' m) = menu_sym (menus st m)) \<and> fin_inv st'"
proof -
  have t: "seg (menus st) None (Some rootmenu) (Entry rootmenu ts # []) None" "distinct (pre_list (Entry rootmenu ts # []))"
    "length (pre_list (Entry rootmenu ts # [])) \<le> min (next_menu st) (next_menu st)"
    using assms(2) menu_tree_length[OF assms(2)] by (simp_all add: menu_tree_def)
  then obtain st' cs' ts' where f: "menu_finalize (next_menu st) rootmenu st = Some st'"
    "moves (set (pre_list [Entry rootmenu ts])) st st'" "seg (menus st') None (Some rootmenu) (Entry rootmenu cs' # ts') None"
    "pre_list (Entry rootmenu cs' # ts') = pre_list [Entry rootmenu ts]" "ts' = []"
    using menu_finalize_fin_ok[of "next_menu st"] assms(1) unfolding fin_ok_def by blast
  have "menu_tree st' cs'"
    using assms(2) f(3-5) moves_next[OF f(2)] by (simp add: menu_tree_def)
  moreover have "\<forall>m. menu_sym (menus st' m) = menu_sym (menus st m)" using f(2) by (simp add: moves_def)
  ultimately show ?thesis using f(1,4,5) moves_inv[OF f(2)] by auto
qed

text \<open>An entry for \<^verbatim>\<open>FOO\<close>, behind it one for \<^verbatim>\<open>BAR\<close>, whose prompt depends on \<^verbatim>\<open>FOO\<close>, and a comment.\<close>

definition ex_flat_state :: kstate where
  "ex_flat_state = ex_menu_state\<lparr>menus := (\<lambda>_. zero_menu)
     (0 := zero_menu\<lparr>menu_list := Some 1\<rparr>,
      1 := zero_menu\<lparr>menu_parent := Some 0, menu_next := Some 2, menu_sym := Some (Sym 0), menu_prompt := Some 0\<rparr>,
      2 := zero_menu\<lparr>menu_parent := Some 0, menu_next := Some 3, menu_sym := Some (Sym 2), menu_prompt := Some 2\<rparr>,
      3 := zero_menu\<lparr>menu_parent := Some 0, menu_prompt := Some 9\<rparr>)\<rparr>"

lemma ex_flat_inv: "fin_inv ex_flat_state"
proof -
  have "prop_shape ex_flat_state (props ex_flat_state p)" for p
    by (simp add: prop_shape_def ex_flat_state_def ex_menu_state_def ex_props_def zero_property_def)
  moreover have "\<not> sym_is_choice (syms ex_flat_state c)" "\<forall>p\<in>set (sym_prop (syms ex_flat_state c)). p < next_prop ex_flat_state" for c
    by (cases c; simp add: ex_flat_state_def ex_menu_state_def ex_state_def sym_is_choice_def ex_syms_def zero_symbol_def)+
  moreover have "depends_ok (menu_dep (menus ex_flat_state m))" for m
    by (simp add: ex_flat_state_def zero_menu_def)
  ultimately show ?thesis by (simp add: fin_inv_def)
qed

lemma ex_flat_moved:
  "map_option (\<lambda>st. map (menu_list \<circ> menus st) [0, 1, 2, 3]) (menu_finalize 4 0 ex_flat_state) =
   Some [Some 1, Some 2, None, None]"
  by code_simp

lemma menu_finalize_preorder_witness:
  "\<exists>st' ts'. menu_finalize 4 0 ex_flat_state = Some st' \<and> menu_tree st' ts' \<and> pre_list ts' = [1, 2, 3] \<and>
    menu_list (menus st' 1) = Some 2"
proof -
  have "menu_tree ex_flat_state [Entry 1 [], Entry 2 [], Entry 3 []]"
    by (simp add: menu_tree_def ex_flat_state_def ex_menu_state_def rootmenu_def zero_menu_def)
  from menu_finalize_preorder[OF ex_flat_inv this] ex_flat_moved show ?thesis
    by (simp add: ex_flat_state_def[THEN arg_cong[where f = next_menu]] ex_menu_state_def rootmenu_def) auto
qed

end
