(* ===== verification/MenuHelp.thy ===== *)
theory MenuHelp
  imports Menu KFiles
begin

text \<open>
  The texts about a symbol that the front ends show as help (\<^verbatim>\<open>menu.c\<close>).  Messages are in the
  language of the sources: \<^verbatim>\<open>gettext\<close> is the identity.
\<close>

definition print_ptr :: "string option \<Rightarrow> string" where
  "print_ptr so = (case so of Some s \<Rightarrow> s | None \<Rightarrow> ''(null)'')"

definition nohelp_text :: string where
  "nohelp_text = ''There is no help available for this rootfs option.'' @ newline_string"

text \<open>The parents of an entry below the root, at most \<open>k\<close> of them; \<open>None\<close> for an entry outside the tree.\<close>

fun submenus :: "nat \<Rightarrow> nat option \<Rightarrow> kstate \<Rightarrow> nat list option" where
  "submenus 0 mo st = Some []"
| "submenus (Suc k) None st = None"
| "submenus (Suc k) (Some m) st =
     (if m = rootmenu then Some [] else map_option (Cons m) (submenus k (menu_parent (menus st m)) st))"

definition submenu_line :: "nat \<Rightarrow> nat \<Rightarrow> kstate \<Rightarrow> gstr \<Rightarrow> gstr option" where
  "submenu_line j m st r =
     do { r1 \<leftarrow> str_printf (replicate j (CHR '' '') @ ''-> '' @ print_ptr (menu_get_prompt m st)) r;
          r2 \<leftarrow> (case menu_sym (menus st m) of
                   None \<Rightarrow> Some r1
                 | Some s \<Rightarrow>
                     str_printf ('' ('' @ (case sym_name (syms st s) of Some n \<Rightarrow> n | None \<Rightarrow> ''<choice>'') @ '' [='' @
                       sym_get_string_value (syms st s) @ ''])'') r1);
          str_append (Some newline_string) r2 }"

fun submenu_lines :: "nat \<Rightarrow> nat list \<Rightarrow> kstate \<Rightarrow> gstr \<Rightarrow> gstr option" where
  "submenu_lines j [] st r = Some r"
| "submenu_lines j (m # ms) st r = do { r1 \<leftarrow> submenu_line j m st r; submenu_lines (j + 2) ms st r1 }"

definition get_prompt_str :: "kstate \<Rightarrow> nat \<Rightarrow> gstr \<Rightarrow> gstr option" where
  "get_prompt_str st p r =
     do { let q = props st p;
          r1 \<leftarrow> str_printf (''Prompt: '' @ print_ptr (prop_text q) @ newline_string) r;
          m \<leftarrow> prop_menu q;
          f \<leftarrow> menu_file (menus st m);
          r2 \<leftarrow> str_printf (''  Defined at '' @ file_name (kfiles st f) @ '':'' @
                  sprintf_d (int (menu_lineno (menus st m))) @ newline_string) r1;
          r3 \<leftarrow> (if expr_is_yes (visible_expr q) then Some r2
                 else
                   do { a \<leftarrow> str_append (Some ''  Depends on: '') r2;
                        b \<leftarrow> str_append (Some (expr_gstr_print (syms st) (visible_expr q))) a;
                        str_append (Some newline_string) b });
          ms \<leftarrow> submenus 8 (menu_parent (menus st m)) st;
          if ms = [] then Some r3
          else
            do { r4 \<leftarrow> str_printf (''  Location:'' @ newline_string) r3;
                 submenu_lines 4 (rev ms) st r4 } }"

fun prompt_strs :: "kstate \<Rightarrow> nat list \<Rightarrow> gstr \<Rightarrow> gstr option" where
  "prompt_strs st [] r = Some r"
| "prompt_strs st (p # ps) r =
     do { r1 \<leftarrow> (if prop_text (props st p) = None then Some r else get_prompt_str st p r); prompt_strs st ps r1 }"

fun select_strs :: "kstate \<Rightarrow> bool \<Rightarrow> nat list \<Rightarrow> gstr \<Rightarrow> (bool \<times> gstr) option" where
  "select_strs st hit [] r = Some (hit, r)"
| "select_strs st hit (p # ps) r =
     (if prop_type (props st p) \<noteq> P_SELECT then select_strs st hit ps r
      else
        do { r1 \<leftarrow> (if hit then str_printf '' && '' r else str_append (Some ''  Selects: '') r);
             r2 \<leftarrow> str_append (Some (expr_gstr_print (syms st) (prop_expr (props st p)))) r1;
             select_strs st True ps r2 })"

definition get_symbol_str :: "kstate \<Rightarrow> symptr \<Rightarrow> gstr \<Rightarrow> gstr option" where
  "get_symbol_str st s r =
     do { let y = syms st s;
          r1 \<leftarrow> (case sym_name y of
                   Some n \<Rightarrow> str_printf (''Symbol: '' @ n @ '' [='' @ sym_get_string_value y @ '']'' @ newline_string) r
                 | None \<Rightarrow> Some r);
          r2 \<leftarrow> prompt_strs st (sym_prop y) r1;
          (hit, r3) \<leftarrow> select_strs st False (sym_prop y) r2;
          r4 \<leftarrow> (if hit then str_append (Some newline_string) r3 else Some r3);
          r5 \<leftarrow> (if rev_dep_expr y = Null then Some r4
                 else
                   do { a \<leftarrow> str_append (Some ''  Selected by: '') r4;
                        b \<leftarrow> str_append (Some (expr_gstr_print (syms st) (rev_dep_expr y))) a;
                        str_append (Some newline_string) b });
          str_append (Some (newline_string @ newline_string)) r5 }"

definition menu_get_ext_help :: "nat \<Rightarrow> kstate \<Rightarrow> gstr \<Rightarrow> gstr option" where
  "menu_get_ext_help m st help =
     do { let so = menu_sym (menus st m);
          h1 \<leftarrow> (if menu_has_help m st then
                   do { s \<leftarrow> so;
                        case sym_name (syms st s) of
                          None \<Rightarrow> Some help
                        | Some n \<Rightarrow>
                            do { a \<leftarrow> str_printf (''MKR_'' @ n @ '':'' @ newline_string @ newline_string) help;
                                 b \<leftarrow> str_append (Some (menu_get_help m st)) a;
                                 str_append (Some newline_string) b } }
                 else str_append (Some nohelp_text) help);
          case so of Some s \<Rightarrow> get_symbol_str st s h1 | None \<Rightarrow> Some h1 }"

text \<open>
  A step on a string that is not null gives one that is not null.  The help is complete for every
  entry whose symbol has its prompts in entries of the tree with a file.
\<close>

definition writes :: "(gstr \<Rightarrow> gstr option) \<Rightarrow> bool" where
  "writes f \<longleftrightarrow> (\<forall>r. gs_s r \<noteq> None \<longrightarrow> (\<exists>r'. f r = Some r' \<and> gs_s r' \<noteq> None))"

lemma writesE: "writes f \<Longrightarrow> gs_s r \<noteq> None \<Longrightarrow> (\<And>r'. f r = Some r' \<Longrightarrow> gs_s r' \<noteq> None \<Longrightarrow> P) \<Longrightarrow> P"
  unfolding writes_def by blast

lemma writes_append: "writes (str_append so)"
  unfolding writes_def
proof (intro allI impI)
  fix r :: gstr
  assume "gs_s r \<noteq> None"
  then obtain t where "gs_s r = Some t" by auto
  then show "\<exists>r'. str_append so r = Some r' \<and> gs_s r' \<noteq> None" by (cases so) (simp_all add: str_append_def Let_def)
qed

lemma writes_printf: "writes (str_printf t)"
  using writes_append[of "Some (take 9999 t)"] by (simp add: writes_def str_printf_def)

lemma writes_some: "writes Some"
  by (simp add: writes_def)

lemma writes_seq: "writes f \<Longrightarrow> writes g \<Longrightarrow> writes (\<lambda>r. Option.bind (f r) g)"
  unfolding writes_def by (metis bind.bind_lunit)

lemma writes_if: "writes f \<Longrightarrow> writes g \<Longrightarrow> writes (\<lambda>r. if b then f r else g r)"
  by (cases b) simp_all

lemma writes_case: "writes f \<Longrightarrow> (\<And>x. writes (g x)) \<Longrightarrow> writes (\<lambda>r. case xo of None \<Rightarrow> f r | Some x \<Rightarrow> g x r)"
  by (cases xo) simp_all

lemmas writes_intros = writes_append writes_printf writes_some writes_seq writes_if writes_case

lemma writes_submenu_lines: "writes (submenu_lines j ms st)"
proof (induction ms arbitrary: j)
  case (Cons m ms)
  show ?case unfolding submenu_lines.simps submenu_line_def by (intro writes_intros Cons)
qed (simp add: writes_def)

definition located :: "kstate \<Rightarrow> nat \<Rightarrow> bool" where
  "located st p \<longleftrightarrow>
     (case prop_menu (props st p) of
        None \<Rightarrow> False
      | Some m \<Rightarrow> menu_file (menus st m) \<noteq> None \<and> submenus 8 (menu_parent (menus st m)) st \<noteq> None)"

lemma writes_get_prompt_str:
  assumes "located st p"
  shows "writes (get_prompt_str st p)"
proof -
  obtain m f ms where m: "prop_menu (props st p) = Some m" "menu_file (menus st m) = Some f"
    "submenus 8 (menu_parent (menus st m)) st = Some ms"
    using assms by (auto simp: located_def split: option.splits)
  show ?thesis
    unfolding get_prompt_str_def Let_def m bind.bind_lunit by (intro writes_intros writes_submenu_lines)
qed

lemma writes_prompt_strs: "\<forall>p\<in>set ps. prop_text (props st p) \<noteq> None \<longrightarrow> located st p \<Longrightarrow> writes (prompt_strs st ps)"
proof (induction ps)
  case (Cons p ps)
  have "writes (\<lambda>r. if prop_text (props st p) = None then Some r else get_prompt_str st p r)"
    using Cons.prems writes_get_prompt_str[of st p] writes_some by (cases "prop_text (props st p)") simp_all
  then show ?case unfolding prompt_strs.simps by (rule writes_seq) (use Cons in simp)
qed (simp add: writes_def)

lemma select_strs_some: "gs_s r \<noteq> None \<Longrightarrow> \<exists>b r'. select_strs st hit ps r = Some (b, r') \<and> gs_s r' \<noteq> None"
proof (induction ps arbitrary: hit r)
  case (Cons p ps)
  have "writes (\<lambda>r. Option.bind (if hit then str_printf '' && '' r else str_append (Some ''  Selects: '') r)
      (str_append (Some (expr_gstr_print (syms st) (prop_expr (props st p))))))"
    by (intro writes_intros)
  then obtain r' where "Option.bind (if hit then str_printf '' && '' r else str_append (Some ''  Selects: '') r)
      (str_append (Some (expr_gstr_print (syms st) (prop_expr (props st p))))) = Some r'" "gs_s r' \<noteq> None"
    using Cons.prems by (rule writesE)
  then show ?case using Cons.IH[of r' True] Cons.IH[of r hit] Cons.prems by (auto simp: bind_eq_Some_conv)
qed simp

lemma writes_get_symbol_str:
  assumes "\<forall>p\<in>set (sym_prop (syms st s)). prop_text (props st p) \<noteq> None \<longrightarrow> located st p"
  shows "writes (get_symbol_str st s)"
proof -
  have sel: "writes (\<lambda>r. Option.bind (select_strs st False (sym_prop (syms st s)) r) (\<lambda>(hit, r3). g hit r3))"
    if "\<And>hit. writes (g hit)" for g
    using select_strs_some[of _ st False "sym_prop (syms st s)"] that unfolding writes_def by fastforce
  then show ?thesis
    unfolding get_symbol_str_def Let_def
    by (intro writes_intros writes_prompt_strs assms) (rule sel, intro writes_intros)
qed

lemma ext_help_complete:
  assumes "menu_sym (menus st m) = Some s"
    and "\<forall>p\<in>set (sym_prop (syms st s)). prop_text (props st p) \<noteq> None \<longrightarrow> located st p"
  shows "\<exists>h. menu_get_ext_help m st str_new = Some h"
proof -
  have "writes (menu_get_ext_help m st)"
    unfolding menu_get_ext_help_def Let_def assms(1) bind.bind_lunit option.case
    by (intro writes_intros writes_get_symbol_str assms(2))
  moreover have "gs_s str_new \<noteq> None" by (simp add: str_new_def)
  ultimately show ?thesis by (auto elim: writesE)
qed

end
