(* ===== verification/Conf.thy ===== *)
theory Conf
  imports MenuHelp ConfWrite
begin

text \<open>
  The line-oriented front end (\<^verbatim>\<open>conf.c\<close>): it asks for the values on standard input and prints to
  standard output.  A program takes the static variables of \<^verbatim>\<open>conf.c\<close>, with the configuration, the
  rest of the input, the output so far and the files, and it returns, exits, crashes (a null
  pointer is followed or a buffer is left), or has used up the fuel that bounds its loops.
\<close>

subsection \<open>Programs\<close>

datatype input_mode = ask_all | ask_new | ask_silent | set_default | set_yes | set_mod | set_no | set_random

text \<open>\<open>line_front\<close> is the byte of memory in front of the buffer \<^verbatim>\<open>line\<close>.\<close>

record conf_vars =
  kst :: kstate
  in_mode :: input_mode
  defconfig_file :: "string option"
  indent :: int
  valid_stdin :: bool
  sync_kconfig :: bool
  conf_cnt :: int
  conf_line :: string
  line_front :: char
  root_entry :: "nat option"
  inp :: string
  outp :: string
  files :: world

datatype 'a run = Returns 'a conf_vars | Exits nat conf_vars | Crash | No_fuel

type_synonym 'a prog = "conf_vars \<Rightarrow> 'a run"

definition ret :: "'a \<Rightarrow> 'a prog" where
  "ret x c = Returns x c"

definition seq :: "'a prog \<Rightarrow> ('a \<Rightarrow> 'b prog) \<Rightarrow> 'b prog" where
  "seq p f c = (case p c of Returns x c1 \<Rightarrow> f x c1 | Exits k c1 \<Rightarrow> Exits k c1 | Crash \<Rightarrow> Crash | No_fuel \<Rightarrow> No_fuel)"

definition exit_with :: "nat \<Rightarrow> 'a prog" where
  "exit_with k c = Exits k c"

definition out_of_fuel :: "'a prog" where
  "out_of_fuel c = No_fuel"

definition get_var :: "(conf_vars \<Rightarrow> 'a) \<Rightarrow> 'a prog" where
  "get_var f c = Returns (f c) c"

definition set_var :: "(conf_vars \<Rightarrow> conf_vars) \<Rightarrow> unit prog" where
  "set_var f c = Returns () (f c)"

text \<open>A pointer that is followed, and an operation of the library.\<close>

definition deref :: "'a option \<Rightarrow> 'a prog" where
  "deref xo c = (case xo of Some x \<Rightarrow> Returns x c | None \<Rightarrow> Crash)"

definition call :: "(kstate \<Rightarrow> ('a \<times> kstate) option) \<Rightarrow> 'a prog" where
  "call f c = (case f (kst c) of Some (x, st) \<Rightarrow> Returns x (c\<lparr>kst := st\<rparr>) | None \<Rightarrow> Crash)"

definition printf :: "string \<Rightarrow> unit prog" where
  "printf s = set_var (\<lambda>c. c\<lparr>outp := outp c @ s\<rparr>)"

lemmas prog_defs = ret_def seq_def exit_with_def out_of_fuel_def get_var_def set_var_def deref_def call_def printf_def

subsection \<open>The line buffer\<close>

definition print_help :: "nat \<Rightarrow> unit prog" where
  "print_help m =
     seq (get_var kst) (\<lambda>st.
     seq (deref (menu_get_ext_help m st str_new)) (\<lambda>help.
     printf (newline_string @ print_ptr (str_get help) @ newline_string)))"

text \<open>\<open>strip\<close> moves the text to the front of the buffer and puts zero bytes behind it.\<close>

definition strip :: "string \<Rightarrow> string" where
  "strip buf =
     (let str = cstr buf; p = dropWhile isspace str; l = length p;
          buf1 = (if p = str then buf else p @ [nul] @ drop (Suc l) buf);
          k = length (takeWhile isspace (rev p))
      in if l = 0 then buf1 else take (l - k) p @ replicate k nul @ drop l buf1)"

definition check_stdin :: "unit prog" where
  "check_stdin =
     seq (get_var valid_stdin) (\<lambda>v.
     if v then ret ()
     else
       seq (printf (''aborted!'' @ newline_string @ newline_string)) (\<lambda>_.
       seq (printf ''Console input/output is redirected. '') (\<lambda>_.
       seq (printf (''Run '' @ [CHR 0x27] @ ''make oldconfig'' @ [CHR 0x27] @ '' to update configuration.'' @
         newline_string @ newline_string)) (\<lambda>_.
       exit_with 1))))"

text \<open>\<^verbatim>\<open>line[0] = '\n'; line[1] = 0\<close>\<close>

definition default_line :: "unit prog" where
  "default_line = set_var (\<lambda>c. c\<lparr>conf_line := [newline, nul] @ drop 2 (conf_line c)\<rparr>)"

text \<open>\<^verbatim>\<open>fgets(line, 128, stdin)\<close>: at the end of the input the buffer stays as it is.\<close>

definition fgets_stdin :: "unit prog" where
  "fgets_stdin = set_var (\<lambda>c.
     if inp c = [] then c
     else let l = take 127 (first_line (inp c))
          in c\<lparr>conf_line := l @ [nul] @ drop (Suc (length l)) (conf_line c), inp := drop (length l) (inp c)\<rparr>)"

text \<open>\<^verbatim>\<open>line[strlen(line)-1] = 0\<close>: with an empty string this writes in front of the buffer.\<close>

definition cut_last :: "unit prog" where
  "cut_last =
     seq (get_var conf_line) (\<lambda>l.
     seq (deref (if cstr l = [] then None else Some (l[length (cstr l) - 1 := nul]))) (\<lambda>l1.
     set_var (\<lambda>c. c\<lparr>conf_line := l1\<rparr>)))"

subsection \<open>Asking for one value\<close>

text \<open>\<open>sym_get_string_value\<close> as the pointer it returns.\<close>

definition string_value :: "symbol \<Rightarrow> string option" where
  "string_value y =
     (if sym_type y \<notin> {S_BOOLEAN, S_TRISTATE} \<and> sv_val (curr y) = VNull then None
      else Some (sym_get_string_value y))"

definition conf_askvalue :: "symptr \<Rightarrow> string option \<Rightarrow> bool prog" where
  "conf_askvalue s d =
     seq (get_var kst) (\<lambda>st.
     let ty = sym_get_type s st; known = sym_has_value (syms st s);
         show = printf (print_ptr d @ newline_string);
         read = seq fgets_stdin (\<lambda>_. ret True) in
     seq (if known then ret () else printf ''(NEW) '') (\<lambda>_.
     seq default_line (\<lambda>_.
     if \<not> sym_is_changable s st then seq show (\<lambda>_. seq default_line (\<lambda>_. ret False))
     else
       seq (get_var in_mode) (\<lambda>md.
       if md = ask_new \<or> md = ask_silent then
         if known then seq show (\<lambda>_. ret False) else seq check_stdin (\<lambda>_. read)
       else if md = ask_all then read
       else if ty \<in> {S_INT, S_HEX, S_STRING} then seq show (\<lambda>_. ret True)
       else seq (get_var conf_line) (\<lambda>l. seq (printf (cstr l)) (\<lambda>_. ret True))))))"

text \<open>The text of the prompt of an entry.\<close>

definition prompt_text :: "nat \<Rightarrow> string prog" where
  "prompt_text m =
     seq (get_var kst) (\<lambda>st.
     seq (deref (menu_prompt (menus st m))) (\<lambda>p.
     ret (print_ptr (prop_text (props st p)))))"

definition print_prompt :: "nat \<Rightarrow> unit prog" where
  "print_prompt m =
     seq (prompt_text m) (\<lambda>t.
     seq (get_var indent) (\<lambda>i.
     printf (blanks (i - 1) @ t @ '' '')))"

text \<open>What the answer to a question for a string is: the default, help, or the line.\<close>

definition string_answer :: "nat \<Rightarrow> string option \<Rightarrow> string option prog" where
  "string_answer m d =
     seq (get_var conf_line) (\<lambda>l.
     if l ! 0 = newline then ret d
     else if l ! 0 = CHR ''?'' \<and> l ! 1 = newline then seq (print_help m) (\<lambda>_. ret None)
     else seq cut_last (\<lambda>_. seq (get_var conf_line) (\<lambda>l1. ret (Some (cstr l1)))))"

fun conf_string :: "nat \<Rightarrow> nat \<Rightarrow> unit prog" where
  "conf_string 0 m = out_of_fuel"
| "conf_string (Suc n) m =
     seq (get_var kst) (\<lambda>st.
     seq (deref (menu_sym (menus st m))) (\<lambda>s.
     seq (print_prompt m) (\<lambda>_.
     seq (printf (''('' @ print_ptr (sym_name (syms st s)) @ '') '')) (\<lambda>_.
     let d = string_value (syms st s) in
     seq (case d of Some v \<Rightarrow> printf (''['' @ v @ ''] '') | None \<Rightarrow> ret ()) (\<lambda>_.
     seq (conf_askvalue s d) (\<lambda>asked.
     if \<not> asked then ret ()
     else
       seq (string_answer m d) (\<lambda>d1.
       case d1 of
         None \<Rightarrow> conf_string n m
       | Some v \<Rightarrow> seq (call (sym_set_string_value s v)) (\<lambda>ok. if ok then ret () else conf_string n m))))))))"

datatype answer = Value tristate | Again | Help

definition read_answer :: "tristate \<Rightarrow> string \<Rightarrow> answer" where
  "read_answer old l =
     (case l of
        [] \<Rightarrow> Value old
      | ch # r \<Rightarrow>
          if ch \<in> {CHR ''n'', CHR ''N''} then (if r \<in> {[], ''o''} then Value TNo else Again)
          else if ch \<in> {CHR ''m'', CHR ''M''} then (if r = [] then Value TMod else Again)
          else if ch \<in> {CHR ''y'', CHR ''Y''} then (if r \<in> {[], ''es''} then Value TYes else Again)
          else if ch = CHR ''?'' then Help
          else Again)"

text \<open>The values that are offered: the old one, and those in range.\<close>

definition tri_choices :: "symptr \<Rightarrow> nat \<Rightarrow> kstate \<Rightarrow> string" where
  "tri_choices s m st =
     (let old = sym_get_tristate_value (syms st s);
          offer = (\<lambda>v txt. if old \<noteq> v \<and> sym_tristate_within_range s v st then txt else [])
      in ''['' @ (case old of TNo \<Rightarrow> ''N'' | TMod \<Rightarrow> ''M'' | TYes \<Rightarrow> ''Y'') @
         offer TNo ''/n'' @ offer TMod ''/m'' @ offer TYes ''/y'' @
         (if menu_has_help m st then ''/?'' else []) @ ''] '')"

fun conf_sym :: "nat \<Rightarrow> nat \<Rightarrow> unit prog" where
  "conf_sym 0 m = out_of_fuel"
| "conf_sym (Suc n) m =
     seq (get_var kst) (\<lambda>st.
     seq (deref (menu_sym (menus st m))) (\<lambda>s.
     seq (print_prompt m) (\<lambda>_.
     seq (case sym_name (syms st s) of Some nm \<Rightarrow> printf (''('' @ nm @ '') '') | None \<Rightarrow> ret ()) (\<lambda>_.
     seq (printf (tri_choices s m st)) (\<lambda>_.
     seq (conf_askvalue s (string_value (syms st s))) (\<lambda>asked.
     if \<not> asked then ret ()
     else
       seq (set_var (\<lambda>c. c\<lparr>conf_line := strip (conf_line c)\<rparr>)) (\<lambda>_.
       seq (get_var conf_line) (\<lambda>l.
       case read_answer (sym_get_tristate_value (syms st s)) (cstr l) of
         Again \<Rightarrow> conf_sym n m
       | Help \<Rightarrow> seq (print_help m) (\<lambda>_. conf_sym n m)
       | Value v \<Rightarrow>
           seq (call (sym_set_tristate_value s v)) (\<lambda>ok.
           if ok then ret () else seq (print_help m) (\<lambda>_. conf_sym n m))))))))))"

subsection \<open>Asking for the value of a choice\<close>

definition sym_set_choice_value :: "symptr \<Rightarrow> symptr \<Rightarrow> kstate \<Rightarrow> (bool \<times> kstate) option" where
  "sym_set_choice_value ch chval st = sym_set_tristate_value chval TYes st"

text \<open>The line of one value, the \<open>cnt\<close>-th; the selected one is marked.\<close>

definition choice_line :: "nat \<Rightarrow> symptr \<Rightarrow> int \<Rightarrow> bool \<Rightarrow> unit prog" where
  "choice_line child s cnt selected =
     seq (get_var kst) (\<lambda>st.
     seq (get_var indent) (\<lambda>i.
     printf (pad_char i (if selected then CHR ''>'' else CHR '' '') @ '' '' @ sprintf_d cnt @ ''. '' @
       print_ptr (menu_get_prompt child st) @
       (case sym_name (syms st s) of Some nm \<Rightarrow> '' ('' @ nm @ '')'' | None \<Rightarrow> []) @
       (if sym_has_value (syms st s) then [] else '' (NEW)'') @ newline_string)))"

text \<open>
  The list of the values: how many there are, and which of them is the selected one.  The fuel
  of the loops over \<^verbatim>\<open>child->next\<close> bounds the length of the list.
\<close>

fun show_choices :: "nat \<Rightarrow> nat option \<Rightarrow> symptr option \<Rightarrow> int \<Rightarrow> int \<Rightarrow> (int \<times> int) prog" where
  "show_choices n None def_sym cnt dflt = ret (cnt, dflt)"
| "show_choices 0 (Some child) def_sym cnt dflt = out_of_fuel"
| "show_choices (Suc n) (Some child) def_sym cnt dflt =
     seq (call (menu_is_visible child)) (\<lambda>vis.
     seq (get_var kst) (\<lambda>st.
     let nxt = menu_next (menus st child) in
     if \<not> vis then show_choices n nxt def_sym cnt dflt
     else case menu_sym (menus st child) of
       None \<Rightarrow>
         seq (get_var indent) (\<lambda>i.
         seq (printf (pad_char i (CHR ''*'') @ '' '' @ print_ptr (menu_get_prompt child st) @ newline_string)) (\<lambda>_.
         show_choices n nxt def_sym cnt dflt))
     | Some s \<Rightarrow>
         seq (choice_line child s (cnt + 1) (Some s = def_sym)) (\<lambda>_.
         show_choices n nxt def_sym (cnt + 1) (if Some s = def_sym then cnt + 1 else dflt))))"

text \<open>The entry of the \<open>cnt\<close>-th value.\<close>

fun find_choice :: "nat \<Rightarrow> nat option \<Rightarrow> int \<Rightarrow> nat option prog" where
  "find_choice n None cnt = ret None"
| "find_choice 0 (Some child) cnt = out_of_fuel"
| "find_choice (Suc n) (Some child) cnt =
     seq (get_var kst) (\<lambda>st.
     let nxt = menu_next (menus st child) in
     if menu_sym (menus st child) = None then find_choice n nxt cnt
     else
       seq (call (menu_is_visible child)) (\<lambda>vis.
       if \<not> vis then find_choice n nxt cnt
       else if int32 (cnt - 1) = 0 then ret (Some child)
       else find_choice n nxt (int32 (cnt - 1))))"

text \<open>The number that is asked for; \<open>None\<close> when the question is put again.\<close>

definition ask_number :: "nat \<Rightarrow> bool \<Rightarrow> int \<Rightarrow> int \<Rightarrow> int option prog" where
  "ask_number m is_new cnt dflt =
     (let read =
        seq fgets_stdin (\<lambda>_.
        seq (set_var (\<lambda>c. c\<lparr>conf_line := strip (conf_line c)\<rparr>)) (\<lambda>_.
        seq (get_var conf_line) (\<lambda>l.
        if l ! 0 = CHR ''?'' then seq (print_help m) (\<lambda>_. ret None)
        else if l ! 0 = nul then ret (Some dflt)
        else if isdigit (l ! 0) then ret (Some (int32 (strtol (cstr l) 10)))
        else ret None)))
      in
      seq (get_var in_mode) (\<lambda>md.
      if md = ask_new \<or> md = ask_silent then
        if \<not> is_new then seq (printf (sprintf_d dflt @ newline_string)) (\<lambda>_. ret (Some dflt))
        else seq check_stdin (\<lambda>_. read)
      else if md = ask_all then read
      else ret (Some cnt)))"

text \<open>
  The last byte of the line, \<^verbatim>\<open>line[strlen(line) - 1]\<close>; for an empty line, which is what a return
  leaves, it is the byte in front of the buffer.
\<close>

definition last_byte :: "char prog" where
  "last_byte = get_var (\<lambda>c. if cstr (conf_line c) = [] then line_front c else last (cstr (conf_line c)))"

text \<open>The list, the question, and the entry that was chosen; \<open>None\<close> when the question is put again.\<close>

definition choice_question :: "nat \<Rightarrow> symptr \<Rightarrow> bool \<Rightarrow> nat option prog" where
  "choice_question m s is_new =
     seq (get_var kst) (\<lambda>st.
     seq (get_var indent) (\<lambda>i.
     seq (printf (blanks (i - 1) @ print_ptr (menu_get_prompt m st) @ newline_string)) (\<lambda>_.
     seq (set_var (\<lambda>c. c\<lparr>conf_line := nul # drop 1 (conf_line c)\<rparr>)) (\<lambda>_.
     seq (show_choices (next_menu st) (menu_list (menus st m)) (sym_get_choice_value (syms st s)) 0 0) (\<lambda>(cnt, dflt).
     seq (printf (blanks (i - 1) @ ''choice'')) (\<lambda>_.
     seq (if cnt = 1 then seq (printf (''[1]: 1'' @ newline_string)) (\<lambda>_. ret (Some 1))
          else
            seq (printf (''[1-'' @ sprintf_d cnt @ (if menu_has_help m st then ''?'' else []) @ '']: '')) (\<lambda>_.
            ask_number m is_new cnt dflt)) (\<lambda>num.
     case num of
       None \<Rightarrow> ret None
     | Some k \<Rightarrow>
         seq (find_choice (next_menu st) (menu_list (menus st m)) k) (\<lambda>child.
         case child of
           None \<Rightarrow> ret None
         | Some ch \<Rightarrow>
             seq last_byte (\<lambda>b.
             if b = CHR ''?'' then seq (print_help ch) (\<lambda>_. ret None) else ret (Some ch))))))))))"

subsection \<open>Walking through the menus\<close>

definition add_indent :: "int \<Rightarrow> unit prog" where
  "add_indent k = set_var (\<lambda>c. c\<lparr>indent := indent c + k\<rparr>)"

text \<open>The heading of a menu or a comment.\<close>

definition print_heading :: "nat \<Rightarrow> unit prog" where
  "print_heading m =
     seq (get_var kst) (\<lambda>st.
     seq (get_var indent) (\<lambda>i.
     case menu_get_prompt m st of
       None \<Rightarrow> ret ()
     | Some t \<Rightarrow>
         printf (pad_char i (CHR ''*'') @ newline_string @ pad_char i (CHR ''*'') @ '' '' @ t @ newline_string @
           pad_char i (CHR ''*'') @ newline_string)))"

definition prompt_type :: "nat \<Rightarrow> kstate \<Rightarrow> prop_type option" where
  "prompt_type m st = map_option (\<lambda>p. prop_type (props st p)) (menu_prompt (menus st m))"

text \<open>Whether the symbol of an entry is to be asked for.\<close>

definition needs_value :: "symptr \<Rightarrow> kstate \<Rightarrow> bool" where
  "needs_value s st \<longleftrightarrow>
     \<not> sym_has_value (syms st s) \<and>
     (sym_is_changable s st \<or> sym_is_choice (syms st s) \<and> sym_get_tristate_value (syms st s) = TYes)"

definition restart_note :: "unit prog" where
  "restart_note =
     seq (get_var conf_cnt) (\<lambda>k.
     seq (if k = 0 then printf (''*'' @ newline_string @ ''* Restart config...'' @ newline_string @ ''*'' @ newline_string)
          else ret ()) (\<lambda>_.
     set_var (\<lambda>c. c\<lparr>conf_cnt := k + 1\<rparr>)))"

text \<open>
  The loops over \<^verbatim>\<open>child = child->next\<close>; \<open>body\<close> is the recursive call, and the fuel bounds the length
  of the list.
\<close>

fun for_children :: "nat \<Rightarrow> (nat \<Rightarrow> unit prog) \<Rightarrow> nat option \<Rightarrow> unit prog" where
  "for_children n body None = ret ()"
| "for_children 0 body (Some child) = out_of_fuel"
| "for_children (Suc n) body (Some child) =
     seq (body child) (\<lambda>_.
     seq (get_var kst) (\<lambda>st.
     for_children n body (menu_next (menus st child))))"

definition children_of :: "(nat \<Rightarrow> unit prog) \<Rightarrow> nat \<Rightarrow> unit prog" where
  "children_of body m =
     seq (get_var kst) (\<lambda>st. for_children (next_menu st) body (menu_list (menus st m)))"

definition indented :: "unit prog \<Rightarrow> unit prog" where
  "indented p = seq (add_indent 2) (\<lambda>_. seq p (\<lambda>_. add_indent (- 2)))"

text \<open>In what follows \<open>cf\<close> and \<open>ck\<close> are the recursive calls of \<open>conf\<close> and \<open>check_conf\<close>.\<close>

fun choice_loop :: "nat \<Rightarrow> (nat \<Rightarrow> unit prog) \<Rightarrow> nat \<Rightarrow> symptr \<Rightarrow> bool \<Rightarrow> bool prog" where
  "choice_loop 0 cf m s is_new = out_of_fuel"
| "choice_loop (Suc n) cf m s is_new =
     seq (choice_question m s is_new) (\<lambda>chosen.
     case chosen of
       None \<Rightarrow> choice_loop n cf m s is_new
     | Some child \<Rightarrow>
         seq (get_var kst) (\<lambda>st.
         seq (deref (menu_sym (menus st child))) (\<lambda>cs.
         seq (call (sym_set_choice_value s cs)) (\<lambda>_.
         seq (children_of (\<lambda>k. indented (cf k)) child) (\<lambda>_. ret True)))))"

definition conf_choice :: "nat \<Rightarrow> (nat \<Rightarrow> unit prog) \<Rightarrow> nat \<Rightarrow> bool prog" where
  "conf_choice n cf m =
     seq (get_var kst) (\<lambda>st.
     seq (deref (menu_sym (menus st m))) (\<lambda>s.
     let is_new = \<not> sym_has_value (syms st s); changable = sym_is_changable s st in
     seq (if changable
          then seq (conf_sym n m) (\<lambda>_. call (\<lambda>x. map_option (Pair ()) (calc_value s x)))
          else ret ()) (\<lambda>_.
     seq (get_var id) (\<lambda>c.
     case sym_get_tristate_value (syms (kst c) s) of
       TNo \<Rightarrow> ret True
     | TMod \<Rightarrow>
         seq (if changable then ret ()
              else printf (blanks (indent c - 1) @ print_ptr (menu_get_prompt m (kst c)) @ newline_string)) (\<lambda>_.
         ret False)
     | TYes \<Rightarrow> choice_loop n cf m s is_new))))"

text \<open>\<open>conf\<close> behind the heading.\<close>

definition conf_entry :: "nat \<Rightarrow> (nat \<Rightarrow> unit prog) \<Rightarrow> nat \<Rightarrow> unit prog" where
  "conf_entry n cf m =
     seq (get_var kst) (\<lambda>st.
     case menu_sym (menus st m) of
       None \<Rightarrow> children_of cf m
     | Some s \<Rightarrow>
         if sym_is_choice (syms st s) then
           seq (conf_choice n cf m) (\<lambda>_.
           seq (get_var kst) (\<lambda>st1.
           if sym_get_tristate_value (syms st1 s) \<noteq> TMod then ret () else indented (children_of cf m)))
         else
           seq (if sym_type (syms st s) \<in> {S_INT, S_HEX, S_STRING} then conf_string n m else conf_sym n m) (\<lambda>_.
           indented (children_of cf m)))"

definition conf_body :: "nat \<Rightarrow> (nat \<Rightarrow> unit prog) \<Rightarrow> (nat \<Rightarrow> unit prog) \<Rightarrow> nat \<Rightarrow> unit prog" where
  "conf_body n cf ck m =
     seq (call (menu_is_visible m)) (\<lambda>vis.
     if \<not> vis then ret ()
     else
       seq (get_var id) (\<lambda>c.
       if prompt_type m (kst c) = Some P_MENU \<and> in_mode c = ask_silent \<and> root_entry c \<noteq> Some m then ck m
       else
         seq (if prompt_type m (kst c) \<in> {Some P_MENU, Some P_COMMENT} then print_heading m else ret ()) (\<lambda>_.
         conf_entry n cf m)))"

definition check_body :: "(nat \<Rightarrow> unit prog) \<Rightarrow> (nat \<Rightarrow> unit prog) \<Rightarrow> nat \<Rightarrow> unit prog" where
  "check_body cf ck m =
     seq (call (menu_is_visible m)) (\<lambda>vis.
     if \<not> vis then ret ()
     else
       seq (get_var kst) (\<lambda>st.
       seq (case menu_sym (menus st m) of
              None \<Rightarrow> ret ()
            | Some s \<Rightarrow>
                if needs_value s st then
                  seq restart_note (\<lambda>_.
                  seq (deref (menu_get_parent_menu (next_menu st) m st)) (\<lambda>r.
                  seq (set_var (\<lambda>c. c\<lparr>root_entry := Some r\<rparr>)) (\<lambda>_.
                  cf r)))
                else ret ()) (\<lambda>_.
       children_of ck m)))"

text \<open>The fuel bounds the depth of the recursion, and the number of times a question is put.\<close>

fun conf :: "nat \<Rightarrow> nat \<Rightarrow> unit prog"
  and check_conf :: "nat \<Rightarrow> nat \<Rightarrow> unit prog" where
  "conf 0 m = out_of_fuel"
| "conf (Suc n) m = conf_body n (conf n) (check_conf n) m"
| "check_conf 0 m = out_of_fuel"
| "check_conf (Suc n) m = check_body (conf n) (check_conf n) m"

subsection \<open>The program\<close>

text \<open>
  What the program takes from outside: the system, the parser of the Kconfig files (\<open>None\<close> when it
  exits after errors), whether the standard streams are terminals, the random numbers, and what
  the buffers of the library hold at first.
\<close>

record conf_env =
  ce_os :: os
  ce_parse :: "string \<Rightarrow> kstate \<Rightarrow> kstate option"
  ce_isatty :: bool
  ce_rand :: "nat stream"
  ce_junk :: string

text \<open>The options that \<^verbatim>\<open>getopt\<close> returns, with their arguments.\<close>

definition set_mode :: "input_mode \<Rightarrow> unit prog" where
  "set_mode md = set_var (\<lambda>c. c\<lparr>in_mode := md\<rparr>)"

fun read_options :: "(char \<times> string option) list \<Rightarrow> unit prog" where
  "read_options [] = ret ()"
| "read_options ((opt, arg) # r) =
     seq (if opt = CHR ''o'' then set_mode ask_silent
          else if opt = CHR ''s'' then seq (set_mode ask_silent) (\<lambda>_. set_var (\<lambda>c. c\<lparr>sync_kconfig := True\<rparr>))
          else if opt = CHR ''d'' then set_mode set_default
          else if opt = CHR ''D'' then seq (set_mode set_default) (\<lambda>_. set_var (\<lambda>c. c\<lparr>defconfig_file := arg\<rparr>))
          else if opt = CHR ''n'' then set_mode set_no
          else if opt = CHR ''m'' then set_mode set_mod
          else if opt = CHR ''y'' then set_mode set_yes
          else if opt = CHR ''r'' then set_mode set_random
          else if opt = CHR ''h'' then
            seq (printf (''See README for usage info'' @ newline_string)) (\<lambda>_. exit_with 0)
          else exit_with 1) (\<lambda>_.
     read_options r)"

definition exists_file :: "string \<Rightarrow> bool prog" where
  "exists_file name = get_var (\<lambda>c. path_exists name (files c))"

definition read_simple :: "conf_env \<Rightarrow> string \<Rightarrow> unit prog" where
  "read_simple e name =
     seq (get_var files) (\<lambda>w.
     seq (call (conf_read_simple (os_getenv (ce_os e)) (w_files w) (ce_junk e) (Some name) S_DEF_USER)) (\<lambda>_. ret ()))"

definition all_config :: "input_mode \<Rightarrow> string option" where
  "all_config md =
     (case md of
        set_no \<Rightarrow> Some ''allno.config'' | set_mod \<Rightarrow> Some ''allmod.config'' | set_yes \<Rightarrow> Some ''allyes.config''
      | set_random \<Rightarrow> Some ''allrandom.config'' | _ \<Rightarrow> None)"

definition read_all_config :: "conf_env \<Rightarrow> string \<Rightarrow> unit prog" where
  "read_all_config e base =
     seq (get_var files) (\<lambda>w.
     case os_getenv (ce_os e) ''KCONFIG_ALLCONFIG'' of
       Some name \<Rightarrow>
         if path_exists name w then read_simple e name
         else if path_exists base w then read_simple e base
         else if path_exists ''all.config'' w then read_simple e ''all.config'' else ret ()
     | None \<Rightarrow>
         if path_exists base w then read_simple e base
         else if path_exists ''all.config'' w then read_simple e ''all.config'' else ret ())"

text \<open>The values the program starts with.\<close>

definition read_start :: "conf_env \<Rightarrow> unit prog" where
  "read_start e =
     seq (get_var id) (\<lambda>c.
     let getenv = os_getenv (ce_os e); fs = w_files (files c) in
     case all_config (in_mode c) of
       Some base \<Rightarrow> read_all_config e base
     | None \<Rightarrow>
         if in_mode c = set_default then
           seq (case defconfig_file c of
                  Some name \<Rightarrow> ret name
                | None \<Rightarrow> call (conf_get_default_confname getenv fs)) (\<lambda>name.
           seq (set_var (\<lambda>x. x\<lparr>defconfig_file := Some name\<rparr>)) (\<lambda>_.
           seq (call (conf_read getenv fs (ce_junk e) (Some name))) (\<lambda>failed.
           if failed then
             seq (printf (''***'' @ newline_string @ ''*** Can'' @ [CHR 0x27] @ ''t find default configuration '' @ [CHR 0x22] @
               name @ [CHR 0x22] @ ''!'' @ newline_string @ ''***'' @ newline_string)) (\<lambda>_. exit_with 1)
           else ret ())))
         else seq (call (conf_read getenv fs (ce_junk e) None)) (\<lambda>_. ret ()))"

text \<open>Until a loop caused no more changes.\<close>

fun update_loop :: "nat \<Rightarrow> unit prog" where
  "update_loop 0 = out_of_fuel"
| "update_loop (Suc n) =
     seq (set_var (\<lambda>c. c\<lparr>conf_cnt := 0\<rparr>)) (\<lambda>_.
     seq (check_conf n rootmenu) (\<lambda>_.
     seq (get_var conf_cnt) (\<lambda>k.
     if k \<noteq> 0 then update_loop n else ret ())))"

definition set_new_symbols :: "conf_env \<Rightarrow> conf_def_mode \<Rightarrow> unit prog" where
  "set_new_symbols e md =
     call (\<lambda>st. map_option (Pair ()) (conf_set_all_new_symbols (ce_rand e) md st))"

definition set_values :: "nat \<Rightarrow> conf_env \<Rightarrow> unit prog" where
  "set_values n e =
     seq (get_var in_mode) (\<lambda>md.
     case md of
       set_no \<Rightarrow> set_new_symbols e def_no
     | set_yes \<Rightarrow> set_new_symbols e def_yes
     | set_mod \<Rightarrow> set_new_symbols e def_mod
     | set_random \<Rightarrow> set_new_symbols e def_random
     | set_default \<Rightarrow> set_new_symbols e def_default
     | ask_silent \<Rightarrow> update_loop n
     | _ \<Rightarrow>
         seq (set_var (\<lambda>c. c\<lparr>root_entry := Some rootmenu\<rparr>)) (\<lambda>_.
         seq (conf n rootmenu) (\<lambda>_.
         seq (set_mode ask_silent) (\<lambda>_.
         update_loop n))))"

text \<open>An operation of the library that writes files; the value tells whether it failed.\<close>

definition call_files :: "(kstate \<Rightarrow> world \<Rightarrow> (bool \<times> kstate \<times> world) option) \<Rightarrow> bool prog" where
  "call_files f c =
     (case f (kst c) (files c) of
        Some (failed, st, w) \<Rightarrow> Returns failed (c\<lparr>kst := st, files := w\<rparr>)
      | None \<Rightarrow> Crash)"

definition write_config :: "conf_env \<Rightarrow> unit prog" where
  "write_config e =
     seq (call_files (conf_write (ce_os e) None)) (\<lambda>failed. if failed then exit_with 1 else ret ())"

definition write_results :: "conf_env \<Rightarrow> nat prog" where
  "write_results e =
     seq (get_var id) (\<lambda>c.
     if sync_kconfig c then
       seq (if conf_get_changed (kst c) then write_config e else ret ()) (\<lambda>_.
       seq (call_files (conf_write_autoconf (ce_os e) (ce_junk e))) (\<lambda>failed.
       ret (if failed then 1 else 0)))
     else seq (write_config e) (\<lambda>_. ret 0))"

text \<open>\<open>main\<close>; \<open>opts\<close> are the options and \<open>name\<close> the first argument behind them.\<close>

definition main :: "nat \<Rightarrow> conf_env \<Rightarrow> (char \<times> string option) list \<Rightarrow> string \<Rightarrow> string option \<Rightarrow> nat prog" where
  "main n e opts argv0 name =
     seq (read_options opts) (\<lambda>_.
     case name of
       None \<Rightarrow> seq (printf (argv0 @ '': Kconfig file missing'' @ newline_string)) (\<lambda>_. exit_with 1)
     | Some kconfig \<Rightarrow>
         seq (get_var kst) (\<lambda>st.
         case ce_parse e kconfig st of
           None \<Rightarrow> exit_with 1
         | Some st1 \<Rightarrow>
             seq (set_var (\<lambda>c. c\<lparr>kst := st1\<rparr>)) (\<lambda>_.
             seq (get_var sync_kconfig) (\<lambda>sync.
             seq (exists_file (conf_get_configname (os_getenv (ce_os e)))) (\<lambda>configured.
             if sync \<and> \<not> configured then exit_with 1
             else
               seq (read_start e) (\<lambda>_.
               seq (get_var kst) (\<lambda>st2.
               if sync \<and> conf_get_changed st2 \<and> env_set (ce_os e) ''KCONFIG_NOSILENTUPDATE'' then ret 1
               else
                 seq (if sync then set_var (\<lambda>c. c\<lparr>valid_stdin := ce_isatty e\<rparr>) else ret ()) (\<lambda>_.
                 seq (set_values n e) (\<lambda>_.
                 write_results e)))))))))"

end
