(* ===== verification/ConfFrame.thy ===== *)
theory ConfFrame
  imports Conf
begin

text \<open>
  What the questions of \<^verbatim>\<open>conf.c\<close> leave alone.  The locale collects the variables that asking may
  change; whatever does not depend on them is the same when the walk through the menus returns or
  exits.  It is interpreted on the files, the mode and the byte in front of the line.
\<close>

definition keeps_var :: "(conf_vars \<Rightarrow> 'v) \<Rightarrow> 'a prog \<Rightarrow> bool" where
  "keeps_var f p \<longleftrightarrow>
     (\<forall>c. case p c of Returns x c1 \<Rightarrow> f c1 = f c | Exits k c1 \<Rightarrow> f c1 = f c | Crash \<Rightarrow> True | No_fuel \<Rightarrow> True)"

lemma keeps_var_returns: "keeps_var f p \<Longrightarrow> p c = Returns x c1 \<Longrightarrow> f c1 = f c"
  and keeps_var_exits: "keeps_var f p \<Longrightarrow> p c = Exits k c1 \<Longrightarrow> f c1 = f c"
  by (auto simp: keeps_var_def dest: spec[of _ c])

named_theorems frame

lemma keeps_seq [frame]: "keeps_var f p \<Longrightarrow> (\<And>x. keeps_var f (q x)) \<Longrightarrow> keeps_var f (seq p q)"
  unfolding keeps_var_def seq_def by (fastforce split: run.splits)

lemma keeps_basic [frame]:
  "keeps_var f (ret x)" "keeps_var f (exit_with k)" "keeps_var f out_of_fuel" "keeps_var f (get_var g)"
  "keeps_var f (deref xo)"
  by (simp_all add: keeps_var_def prog_defs split: option.split)

lemma keeps_set_var: "(\<And>c. f (g c) = f c) \<Longrightarrow> keeps_var f (set_var g)"
  by (simp add: keeps_var_def set_var_def)

lemma keeps_if [frame]: "keeps_var f p \<Longrightarrow> keeps_var f q \<Longrightarrow> keeps_var f (if b then p else q)"
  and keeps_let [frame]: "keeps_var f (g x) \<Longrightarrow> keeps_var f (Let x g)"
  and keeps_option [frame]: "keeps_var f p \<Longrightarrow> (\<And>y. keeps_var f (w y)) \<Longrightarrow> keeps_var f (case yo of None \<Rightarrow> p | Some y \<Rightarrow> w y)"
  and keeps_pair [frame]: "(\<And>a b. keeps_var f (h a b)) \<Longrightarrow> keeps_var f (case z of (a, b) \<Rightarrow> h a b)"
  and keeps_tri [frame]: "keeps_var f p \<Longrightarrow> keeps_var f q \<Longrightarrow> keeps_var f r \<Longrightarrow> keeps_var f (case t of TNo \<Rightarrow> p | TMod \<Rightarrow> q | TYes \<Rightarrow> r)"
  and keeps_answer [frame]: "(\<And>v. keeps_var f (k v)) \<Longrightarrow> keeps_var f q \<Longrightarrow> keeps_var f r \<Longrightarrow> keeps_var f (case ans of Value v \<Rightarrow> k v | Again \<Rightarrow> q | Help \<Rightarrow> r)"
  by (auto simp: Let_def split: option.split tristate.split answer.split prod.split)

text \<open>What calls of the library and printing change, and what the questions change besides.\<close>

locale steady =
  fixes var :: "conf_vars \<Rightarrow> 'v"
  assumes var_kst: "var (c\<lparr>kst := st\<rparr>) = var c"
    and var_outp: "var (c\<lparr>outp := s\<rparr>) = var c"
begin

lemma keeps_call: "keeps_var var (call f)"
  by (simp add: keeps_var_def call_def var_kst split: option.split)

lemma keeps_printf: "keeps_var var (printf s)"
  unfolding printf_def by (rule keeps_set_var) (rule var_outp)

lemmas keeps_calls = keeps_call keeps_printf frame

lemma keeps_print_help: "keeps_var var (print_help m)"
  unfolding print_help_def by (intro keeps_calls)

lemma keeps_print_prompt: "keeps_var var (print_prompt m)"
  unfolding print_prompt_def prompt_text_def by (intro keeps_calls)

lemma keeps_show_choices: "keeps_var var (show_choices n mo def_sym cnt dflt)"
proof (induction n arbitrary: mo cnt dflt)
  case 0
  show ?case by (cases mo) (simp_all only: show_choices.simps frame)
next
  case (Suc n)
  show ?case by (cases mo) (simp_all only: show_choices.simps choice_line_def frame, intro keeps_calls Suc)
qed

lemma keeps_find_choice: "keeps_var var (find_choice n mo cnt)"
proof (induction n arbitrary: mo cnt)
  case 0
  show ?case by (cases mo) (simp_all only: find_choice.simps frame)
next
  case (Suc n)
  show ?case by (cases mo) (simp_all only: find_choice.simps frame, intro keeps_calls Suc)
qed

end

locale untouched = steady +
  assumes var_inp: "var (c\<lparr>inp := s\<rparr>) = var c"
    and var_line: "var (c\<lparr>conf_line := s\<rparr>) = var c"
    and var_indent: "var (c\<lparr>indent := i\<rparr>) = var c"
    and var_cnt: "var (c\<lparr>conf_cnt := i\<rparr>) = var c"
    and var_root: "var (c\<lparr>root_entry := r\<rparr>) = var c"
begin

lemma keeps_line: "keeps_var var (set_var (\<lambda>c. c\<lparr>conf_line := g c\<rparr>))"
  and keeps_indent: "keeps_var var (add_indent k)"
  and keeps_cnt: "keeps_var var (set_var (\<lambda>c. c\<lparr>conf_cnt := h c\<rparr>))"
  and keeps_root: "keeps_var var (set_var (\<lambda>c. c\<lparr>root_entry := r c\<rparr>))"
  unfolding add_indent_def by (rule keeps_set_var, simp add: var_line var_indent var_cnt var_root)+

lemma keeps_fgets: "keeps_var var fgets_stdin"
  unfolding fgets_stdin_def by (rule keeps_set_var) (simp add: Let_def var_line var_inp)

lemmas keeps_steps = keeps_call keeps_printf keeps_line keeps_indent keeps_cnt keeps_root keeps_fgets frame

lemma keeps_check_stdin: "keeps_var var check_stdin"
  unfolding check_stdin_def by (intro keeps_steps)

lemma keeps_askvalue: "keeps_var var (conf_askvalue s d)"
  unfolding conf_askvalue_def default_line_def by (intro keeps_steps keeps_check_stdin)

lemma keeps_string_answer: "keeps_var var (string_answer m d)"
  unfolding string_answer_def cut_last_def by (intro keeps_steps keeps_print_help)

lemma keeps_conf_string: "keeps_var var (conf_string n m)"
  by (induction n) (simp_all only: conf_string.simps frame, (intro keeps_steps keeps_askvalue keeps_print_prompt keeps_string_answer | assumption)+)

lemma keeps_conf_sym: "keeps_var var (conf_sym n m)"
  by (induction n) (simp_all only: conf_sym.simps frame, (intro keeps_steps keeps_askvalue keeps_print_prompt keeps_print_help | assumption)+)

lemma keeps_ask_number: "keeps_var var (ask_number m is_new cnt dflt)"
  unfolding ask_number_def by (intro keeps_steps keeps_print_help keeps_check_stdin)

lemma keeps_choice_question: "keeps_var var (choice_question m s is_new)"
  unfolding choice_question_def last_byte_def
  by (intro keeps_steps keeps_show_choices keeps_find_choice keeps_ask_number keeps_print_help)

lemma keeps_for_children:
  assumes "\<And>k. keeps_var var (body k)"
  shows "keeps_var var (for_children n body mo)"
proof (induction n arbitrary: mo)
  case 0
  show ?case by (cases mo) (simp_all only: for_children.simps frame)
next
  case (Suc n)
  show ?case by (cases mo) (simp_all only: for_children.simps frame, intro keeps_steps Suc assms)
qed

lemma keeps_children_of: "(\<And>k. keeps_var var (body k)) \<Longrightarrow> keeps_var var (children_of body m)"
  unfolding children_of_def by (intro keeps_steps keeps_for_children)

lemma keeps_indented: "keeps_var var p \<Longrightarrow> keeps_var var (indented p)"
  unfolding indented_def by (intro keeps_steps)

lemma keeps_choice_loop:
  assumes "\<And>k. keeps_var var (cf k)"
  shows "keeps_var var (choice_loop n cf m s is_new)"
  by (induction n)
    (simp_all only: choice_loop.simps frame,
      (intro keeps_steps keeps_choice_question keeps_children_of keeps_indented assms | assumption)+)

lemma keeps_conf_choice: "(\<And>k. keeps_var var (cf k)) \<Longrightarrow> keeps_var var (conf_choice n cf m)"
  unfolding conf_choice_def by (intro keeps_steps keeps_conf_sym keeps_choice_loop)

lemma keeps_conf_entry: "(\<And>k. keeps_var var (cf k)) \<Longrightarrow> keeps_var var (conf_entry n cf m)"
  unfolding conf_entry_def
  by (intro keeps_steps keeps_conf_choice keeps_children_of keeps_indented keeps_conf_string keeps_conf_sym)

lemma keeps_conf_body:
  "(\<And>k. keeps_var var (cf k)) \<Longrightarrow> (\<And>k. keeps_var var (ck k)) \<Longrightarrow> keeps_var var (conf_body n cf ck m)"
  unfolding conf_body_def print_heading_def by (intro keeps_steps keeps_conf_entry)

lemma keeps_check_body:
  "(\<And>k. keeps_var var (cf k)) \<Longrightarrow> (\<And>k. keeps_var var (ck k)) \<Longrightarrow> keeps_var var (check_body cf ck m)"
  unfolding check_body_def restart_note_def by (intro keeps_steps keeps_children_of)

lemma keeps_conf: "keeps_var var (conf n m)" and keeps_check_conf: "keeps_var var (check_conf n m)"
proof (induction n arbitrary: m)
  case (Suc n)
  { case 1 show ?case unfolding conf.simps by (rule keeps_conf_body) (rule Suc)+ }
  { case 2 show ?case unfolding check_conf.simps by (rule keeps_check_body) (rule Suc)+ }
qed (simp_all only: conf.simps check_conf.simps frame)

lemma keeps_update_loop: "keeps_var var (update_loop n)"
  by (induction n) (simp_all only: update_loop.simps frame, (intro keeps_steps keeps_check_conf | assumption)+)

end

interpretation listing_line: steady conf_line by unfold_locales simp_all
interpretation asking_files: untouched files by unfold_locales simp_all
interpretation asking_mode: untouched in_mode by unfold_locales simp_all
interpretation asking_front: untouched line_front by unfold_locales simp_all

end
