(* ===== verification/ConfAsk.thy ===== *)
theory ConfAsk
  imports ConfFrame MenuTree SymSet
begin

text \<open>
  Properties of the line-oriented front end: which questions come to an end and which do not,
  what an answer sets, and that nothing is asked when nothing is new.
\<close>

subsection \<open>Programs\<close>

lemma seq_ret [simp]: "seq (ret x) f = f x"
  by (simp add: prog_defs fun_eq_iff)

lemma seq_get_var [simp]: "seq (get_var g) f c = f (g c) c"
  by (simp add: prog_defs)

lemma seq_set_var [simp]: "seq (set_var g) f c = f () (g c)"
  by (simp add: prog_defs)

lemma seq_printf [simp]: "seq (printf s) f c = f () (c\<lparr>outp := outp c @ s\<rparr>)"
  by (simp add: prog_defs)

lemma seq_print_option [simp]:
  "seq (case xo of None \<Rightarrow> ret () | Some x \<Rightarrow> printf (g x)) f c =
   f () (c\<lparr>outp := outp c @ (case xo of None \<Rightarrow> [] | Some x \<Rightarrow> g x)\<rparr>)"
  by (cases xo) simp_all

lemma seq_deref [simp]: "seq (deref (Some x)) f c = f x c"
  by (simp add: prog_defs)

lemma seq_fuel [simp]: "seq out_of_fuel f c = No_fuel"
  by (simp add: prog_defs)

lemma seq_call: "g (kst c) = Some (x, st) \<Longrightarrow> seq (call g) f c = f x (c\<lparr>kst := st\<rparr>)"
  by (simp add: prog_defs)

lemma seq_returns: "p c = Returns x c1 \<Longrightarrow> seq p f c = f x c1"
  by (simp add: seq_def)

lemma seq_if: "seq (if b then p else q) f c = (if b then seq p f c else seq q f c)"
  by simp

lemma seq_assoc: "seq (seq p f) g = seq p (\<lambda>x. seq (f x) g)"
  by (simp add: fun_eq_iff seq_def split: run.split)

lemma run_simps [simp]: "ret x c = Returns x c" "out_of_fuel c = No_fuel" "exit_with k c = Exits k c"
  "set_var g c = Returns () (g c)" "printf s c = Returns () (c\<lparr>outp := outp c @ s\<rparr>)"
  by (simp_all add: prog_defs)

subsection \<open>The questions\<close>

text \<open>
  A question about a changeable symbol that is really put: whatever is printed, the configuration
  is the same, and the line is what the input or the default gives.
\<close>

definition typed_line :: "conf_vars \<Rightarrow> string" where
  "typed_line c = conf_line (case fgets_stdin (c\<lparr>conf_line := [newline, nul] @ drop 2 (conf_line c)\<rparr>) of Returns _ c1 \<Rightarrow> c1 | _ \<Rightarrow> c)"

definition typed_rest :: "conf_vars \<Rightarrow> string" where
  "typed_rest c = (if inp c = [] then [] else drop (length (take 127 (first_line (inp c)))) (inp c))"

lemma typed_line_empty: "inp c = [] \<Longrightarrow> typed_line c = [newline, nul] @ drop 2 (conf_line c)"
  by (simp add: typed_line_def fgets_stdin_def)

lemma typed_line_text:
  "inp c = l @ newline # rest \<Longrightarrow> newline \<notin> set l \<Longrightarrow> length l < 127 \<Longrightarrow>
   \<exists>junk. typed_line c = l @ [newline, nul] @ junk \<and> typed_rest c = rest"
proof -
  assume i: "inp c = l @ newline # rest" "newline \<notin> set l" "length l < 127"
  have "takeWhile (\<lambda>ch. ch \<noteq> newline) (l @ newline # rest) = l" using i(2) by (induction l) auto
  then have "first_line (inp c) = l @ [newline]" using i(1) by (simp add: first_line_def Let_def)
  then show ?thesis using i(1,3) by (auto simp: typed_line_def typed_rest_def fgets_stdin_def Let_def)
qed

lemma typed_rest_shorter: "inp c \<noteq> [] \<Longrightarrow> length (typed_rest c) < length (inp c)"
  using first_line_nonempty[of "inp c"] by (cases "first_line (inp c)") (auto simp: typed_rest_def)

lemma askvalue_typed:
  assumes "sym_is_changable s (kst c)" "in_mode c = ask_all"
  shows "\<exists>o'. conf_askvalue s d c = Returns True (c\<lparr>outp := o', conf_line := typed_line c, inp := typed_rest c\<rparr>)"
  using assms
  by (cases c) (auto simp: conf_askvalue_def Let_def default_line_def typed_line_def typed_rest_def fgets_stdin_def)

lemma print_prompt_ok:
  "menu_prompt (menus (kst c) m) = Some p \<Longrightarrow> \<exists>o'. print_prompt m c = Returns () (c\<lparr>outp := o'\<rparr>)"
  by (auto simp: print_prompt_def prompt_text_def seq_assoc)

lemma print_help_ok:
  "menu_get_ext_help m (kst c) str_new = Some h \<Longrightarrow> \<exists>o'. print_help m c = Returns () (c\<lparr>outp := o'\<rparr>)"
  by (auto simp: print_help_def)

text \<open>One round of the question for a boolean or tristate symbol.\<close>

definition sym_round :: "nat \<Rightarrow> nat \<Rightarrow> symptr \<Rightarrow> conf_vars \<Rightarrow> unit run" where
  "sym_round n m s c =
     (case read_answer (sym_get_tristate_value (syms (kst c) s)) (cstr (conf_line c)) of
        Again \<Rightarrow> conf_sym n m c
      | Help \<Rightarrow> seq (print_help m) (\<lambda>_. conf_sym n m) c
      | Value v \<Rightarrow>
          seq (call (sym_set_tristate_value s v)) (\<lambda>ok.
          if ok then ret () else seq (print_help m) (\<lambda>_. conf_sym n m)) c)"

lemma conf_sym_round:
  assumes "menu_sym (menus (kst c) m) = Some s" "menu_prompt (menus (kst c) m) = Some p"
    "sym_is_changable s (kst c)" "in_mode c = ask_all"
  shows "\<exists>o'. conf_sym (Suc n) m c =
    sym_round n m s (c\<lparr>outp := o', inp := typed_rest c, conf_line := strip (typed_line c)\<rparr>)"
proof -
  obtain o1 where p: "print_prompt m c = Returns () (c\<lparr>outp := o1\<rparr>)" using print_prompt_ok[OF assms(2)] by blast
  let ?o2 = "o1 @ (case sym_name (syms (kst c) s) of Some nm \<Rightarrow> ''('' @ nm @ '') '' | None \<Rightarrow> []) @ tri_choices s m (kst c)"
  let ?c2 = "c\<lparr>outp := ?o2\<rparr>"
  obtain o3 where a: "conf_askvalue s (string_value (syms (kst c) s)) ?c2 =
      Returns True (?c2\<lparr>outp := o3, conf_line := typed_line ?c2, inp := typed_rest ?c2\<rparr>)"
    using askvalue_typed[of s ?c2] assms(3,4) by auto
  have t: "typed_line ?c2 = typed_line c" "typed_rest ?c2 = typed_rest c"
    by (simp_all add: typed_line_def typed_rest_def fgets_stdin_def Let_def)
  note p' = seq_returns[of "print_prompt m" c, OF p]
  note a' = seq_returns[of "conf_askvalue s (string_value (syms (kst c) s))" ?c2, OF a]
  have "conf_sym (Suc n) m c = sym_round n m s (c\<lparr>outp := o3, inp := typed_rest c, conf_line := strip (typed_line c)\<rparr>)"
    using assms(1) by (simp add: p' a' t sym_round_def split: answer.split)
  then show ?thesis by blast
qed

lemma nul_newline [simp]: "nul \<noteq> newline" "newline \<noteq> nul"
  by (simp_all add: nul_def newline_def)

lemma isspace_newline [simp]: "isspace newline"
  by code_simp

lemma strip_cstr: "cstr (strip buf) = rev (dropWhile isspace (rev (dropWhile isspace (cstr buf))))"
proof -
  let ?p = "dropWhile isspace (cstr buf)" and ?k = "length (takeWhile isspace (rev (dropWhile isspace (cstr buf))))"
  let ?q = "take (length ?p - ?k) ?p"
  have "rev (dropWhile P (rev xs)) = take (length xs - length (takeWhile P (rev xs))) xs" for P and xs :: string
    by (simp add: dropWhile_eq_drop rev_drop)
  then have q: "rev (dropWhile isspace (rev ?p)) = ?q" .
  have nz: "nul \<notin> set ?p" using set_takeWhileD[of nul] by (auto simp: cstr_def dest: set_dropWhileD)
  then have nq: "nul \<notin> set ?q" by (auto dest: in_set_takeD)
  have "cstr (xs @ nul # ys) = xs" if "nul \<notin> set xs" for xs ys
    using that by (induction xs) (auto simp: cstr_def)
  note zero = this
  show ?thesis
  proof (cases "?p = []")
    case True
    then have "strip buf = (if [] = cstr buf then buf else nul # drop 1 buf)"
      by (simp add: strip_def Let_def del: dropWhile_eq_Nil_conv)
    then have "cstr (strip buf) = []" by (simp add: cstr_def)
    then show ?thesis unfolding True by simp
  next
    case False
    have b: "drop (length ?p) (if ?p = cstr buf then buf else ?p @ [nul] @ drop (Suc (length ?p)) buf) = [] \<or>
        (\<exists>ys. drop (length ?p) (if ?p = cstr buf then buf else ?p @ [nul] @ drop (Suc (length ?p)) buf) = nul # ys)"
    proof (cases "?p = cstr buf")
      case True
      then have "drop (length ?p) buf = dropWhile (\<lambda>x. x \<noteq> nul) buf" by (simp add: cstr_def dropWhile_eq_drop)
      then show ?thesis using True hd_dropWhile[of "\<lambda>x. x \<noteq> nul" buf] by (cases "dropWhile (\<lambda>x. x \<noteq> nul) buf") auto
    qed simp
    have "cstr (?q @ replicate ?k nul @ zs) = ?q" if "zs = [] \<or> (\<exists>ys. zs = nul # ys)" for zs
    proof (cases ?k)
      case 0
      then show ?thesis using that nq zero[OF nq] by (auto simp: cstr_def)
    next
      case (Suc j)
      then show ?thesis using zero[OF nq] by simp
    qed
    from this[OF b] have c: "cstr (?q @ replicate ?k nul @ drop (length ?p)
        (if ?p = cstr buf then buf else ?p @ [nul] @ drop (Suc (length ?p)) buf)) = ?q" .
    have l: "length ?p \<noteq> 0" using False by (simp del: dropWhile_eq_Nil_conv)
    have "strip buf = ?q @ replicate ?k nul @ drop (length ?p)
        (if ?p = cstr buf then buf else ?p @ [nul] @ drop (Suc (length ?p)) buf)"
      unfolding strip_def Let_def by (rule if_not_P[OF l])
    then show ?thesis unfolding q using c by (rule ssubst)
  qed
qed

lemma seq_help:
  "menu_get_ext_help m (kst c) str_new = Some h \<Longrightarrow> \<exists>o'. seq (print_help m) f c = f () (c\<lparr>outp := o'\<rparr>)"
  using print_help_ok[of m c h] seq_returns[of "print_help m" c "()" _ f] by metis

text \<open>
  The questions for a boolean or tristate symbol come to an end: at the end of the input the line
  is the default one, and the old value is always accepted.
\<close>

lemma conf_sym_ends:
  assumes "wf_table (kst c)" "menu_sym (menus (kst c) m) = Some s" "alloc (kst c) s"
    "menu_prompt (menus (kst c) m) = Some p" "sym_is_changable s (kst c)" "in_mode c = ask_all"
    "menu_get_ext_help m (kst c) str_new = Some h" "length (inp c) < n"
  shows "\<exists>c1. conf_sym n m c = Returns () c1 \<and> wf_table (kst c1) \<and> sym_has_value (syms (kst c1) s)"
  using assms
proof (induction n arbitrary: c)
  case (Suc n)
  obtain o' where r: "conf_sym (Suc n) m c =
      sym_round n m s (c\<lparr>outp := o', inp := typed_rest c, conf_line := strip (typed_line c)\<rparr>)"
    using conf_sym_round[OF Suc.prems(2,4,5,6)] by blast
  let ?c1 = "c\<lparr>outp := o', inp := typed_rest c, conf_line := strip (typed_line c)\<rparr>"
  have again: "\<exists>c2. conf_sym n m x = Returns () c2 \<and> wf_table (kst c2) \<and> sym_has_value (syms (kst c2) s)"
    if "inp c \<noteq> []" "kst x = kst c" "in_mode x = in_mode c" "inp x = typed_rest c" for x
    by (rule Suc.IH) (use Suc.prems typed_rest_shorter[OF that(1)] that(2-4) in simp_all)
  have empty: "cstr (strip (typed_line c)) = []" if "inp c = []"
    unfolding strip_cstr using that by (simp add: typed_line_empty cstr_def)
  show ?case
  proof (cases "read_answer (sym_get_tristate_value (syms (kst c) s)) (cstr (strip (typed_line c)))")
    case (Value v)
    obtain ok st' where set: "sym_set_tristate_value s v (kst c) = Some (ok, st')" "wf_table st'"
      "ok \<longleftrightarrow> sym_get_tristate_value (syms (kst c) s) = v \<or> sym_tristate_within_range s v (kst c)"
      "if ok then sv_tri (def (syms st' s) S_DEF_USER) = v \<and> sym_has_value (syms st' s) else st' = kst c"
      using set_tristate_ok[OF Suc.prems(1,3), of v] by blast
    have sr: "sym_round n m s ?c1 = (if ok then Returns () (?c1\<lparr>kst := st'\<rparr>) else seq (print_help m) (\<lambda>_. conf_sym n m) ?c1)"
      using Value set(1,4) by (cases ok) (simp_all add: sym_round_def seq_call)
    show ?thesis
    proof (cases ok)
      case True
      then show ?thesis using set(2,4) unfolding r sr by simp
    next
      case False
      have ne: "inp c \<noteq> []"
      proof
        assume "inp c = []"
        then have "v = sym_get_tristate_value (syms (kst c) s)" using Value empty by (simp add: read_answer_def)
        then show False using False set(3) by simp
      qed
      obtain o2 where "seq (print_help m) (\<lambda>_. conf_sym n m) ?c1 = conf_sym n m (?c1\<lparr>outp := o2\<rparr>)"
        using seq_help[of m ?c1 h "\<lambda>_. conf_sym n m"] Suc.prems(7) by auto
      then show ?thesis using False again[OF ne, of "?c1\<lparr>outp := o2\<rparr>"] unfolding r sr by simp
    qed
  next
    case Again
    then have "inp c \<noteq> []" using empty by (auto simp: read_answer_def)
    then show ?thesis using Again again[of ?c1] unfolding r by (simp add: sym_round_def)
  next
    case Help
    then have ne: "inp c \<noteq> []" using empty by (auto simp: read_answer_def)
    obtain o2 where "seq (print_help m) (\<lambda>_. conf_sym n m) ?c1 = conf_sym n m (?c1\<lparr>outp := o2\<rparr>)"
      using seq_help[of m ?c1 h "\<lambda>_. conf_sym n m"] Suc.prems(7) by auto
    then show ?thesis using Help again[OF ne, of "?c1\<lparr>outp := o2\<rparr>"] unfolding r by (simp add: sym_round_def)
  qed
qed simp

text \<open>
  C7.  Asking for a boolean or tristate symbol always comes to an end, whatever is typed and however
  often an answer is refused: each round reads a line, and at the end of the input the default
  line stands for the old value, which is accepted.  The symbol then has a value of the user.
\<close>

theorem conf_sym_returns:
  assumes "wf_table (kst c)" "menu_sym (menus (kst c) m) = Some s" "alloc (kst c) s"
    "menu_prompt (menus (kst c) m) = Some p" "sym_is_changable s (kst c)" "in_mode c = ask_all"
    "menu_get_ext_help m (kst c) str_new = Some h"
  shows "\<exists>c1. conf_sym (Suc (length (inp c))) m c = Returns () c1 \<and> wf_table (kst c1) \<and>
    sym_has_value (syms (kst c1) s)"
  by (rule conf_sym_ends[OF assms]) simp

text \<open>The text of an answer without the blanks around it.\<close>

definition trim :: "string \<Rightarrow> string" where
  "trim l = rev (dropWhile isspace (rev (dropWhile isspace l)))"

lemma trim_newline: "trim (l @ [newline]) = trim l"
proof (cases "\<forall>x\<in>set l. isspace x")
  case True
  then show ?thesis by (auto simp: trim_def dest: set_dropWhileD)
next
  case False
  then have "dropWhile isspace (l @ [newline]) = dropWhile isspace l @ [newline]"
    by (auto simp: dropWhile_append)
  then show ?thesis by (simp add: trim_def)
qed

lemma cstr_text: "nul \<notin> set l \<Longrightarrow> cstr (l @ nul # r) = l"
  by (induction l) (auto simp: cstr_def)

text \<open>
  C10.  An answer to such a question takes effect: when the next line of the input reads as the value
  \<open>v\<close>, and the symbol has this value or may take it, then \<open>v\<close> is its user value afterwards, and only
  this line was read.
\<close>

theorem conf_sym_answer:
  assumes "wf_table (kst c)" "menu_sym (menus (kst c) m) = Some s" "alloc (kst c) s"
    "menu_prompt (menus (kst c) m) = Some p" "sym_is_changable s (kst c)" "in_mode c = ask_all"
    and "inp c = l @ newline # rest" "newline \<notin> set l" "nul \<notin> set l" "length l < 127"
    and "read_answer (sym_get_tristate_value (syms (kst c) s)) (trim l) = Value v"
    and "v = sym_get_tristate_value (syms (kst c) s) \<or> sym_tristate_within_range s v (kst c)"
  shows "\<exists>c1. conf_sym (Suc n) m c = Returns () c1 \<and> inp c1 = rest \<and>
    sv_tri (def (syms (kst c1) s) S_DEF_USER) = v \<and> sym_has_value (syms (kst c1) s)"
proof -
  obtain o' where r: "conf_sym (Suc n) m c =
      sym_round n m s (c\<lparr>outp := o', inp := typed_rest c, conf_line := strip (typed_line c)\<rparr>)"
    using conf_sym_round[OF assms(2,4,5,6)] by blast
  obtain junk where t: "typed_line c = (l @ [newline]) @ nul # junk" "typed_rest c = rest"
    using typed_line_text[OF assms(7,8,10)] by auto
  have nz: "nul \<notin> set (l @ [newline])" using assms(9) by simp
  have line: "cstr (strip (typed_line c)) = trim l"
    unfolding strip_cstr t(1) cstr_text[OF nz] trim_def[symmetric] by (rule trim_newline)
  obtain ok st' where set: "sym_set_tristate_value s v (kst c) = Some (ok, st')"
    "ok \<longleftrightarrow> sym_get_tristate_value (syms (kst c) s) = v \<or> sym_tristate_within_range s v (kst c)"
    "if ok then sv_tri (def (syms st' s) S_DEF_USER) = v \<and> sym_has_value (syms st' s) else st' = kst c"
    using set_tristate_ok[OF assms(1,3), of v] by blast
  have ok using set(2) assms(12) by auto
  then show ?thesis using set(1,3) line assms(11) t(2) unfolding r by (simp add: sym_round_def seq_call)
qed

subsection \<open>A question that does not end\<close>

lemma empty_number: "\<not> sym_string_valid S_INT []" "\<not> sym_string_valid S_HEX []"
  by code_simp+

text \<open>
  The question for a number that has no value does not come to an end when the input has: the
  default line stands for the empty value, which no number has, and the question is put again
  without end, however much fuel there is.
\<close>

theorem conf_string_endless:
  assumes "menu_sym (menus (kst c) m) = Some s" "menu_prompt (menus (kst c) m) = Some p"
    "sym_is_changable s (kst c)" "in_mode c = ask_all" "inp c = []"
    "sym_type (syms (kst c) s) = S_INT \<or> sym_type (syms (kst c) s) = S_HEX"
    "string_value (syms (kst c) s) = Some []"
  shows "conf_string n m c = No_fuel"
  using assms
proof (induction n arbitrary: c)
  case (Suc n)
  obtain o1 where p: "print_prompt m c = Returns () (c\<lparr>outp := o1\<rparr>)" using print_prompt_ok[OF Suc.prems(2)] by blast
  let ?c2 = "c\<lparr>outp := o1 @ ''('' @ print_ptr (sym_name (syms (kst c) s)) @ '') '' @ ''['' @ [] @ ''] ''\<rparr>"
  obtain o3 where a: "conf_askvalue s (Some []) ?c2 =
      Returns True (?c2\<lparr>outp := o3, conf_line := typed_line ?c2, inp := typed_rest ?c2\<rparr>)"
    using askvalue_typed[of s ?c2] Suc.prems(3,4) by auto
  note p' = seq_returns[of "print_prompt m" c, OF p]
  note a' = seq_returns[of "conf_askvalue s (Some [])" ?c2, OF a]
  have t: "typed_line ?c2 = [newline, nul] @ drop 2 (conf_line c)" "typed_rest ?c2 = []"
    using Suc.prems(5) by (simp_all add: typed_line_empty typed_rest_def)
  let ?c3 = "?c2\<lparr>outp := o3, conf_line := [newline, nul] @ drop 2 (conf_line c), inp := []\<rparr>"
  have bad: "sym_set_string_value s [] (kst c) = Some (False, kst c)"
    using Suc.prems(6) empty_number by (elim disjE) (simp_all add: sym_set_string_value_def sym_string_within_range_def)
  have sc: "seq (call (sym_set_string_value s [])) f ?c3 = f False ?c3" for f :: "bool \<Rightarrow> unit prog"
    using bad by (simp add: prog_defs)
  have "conf_string (Suc n) m c = conf_string n m ?c3"
    using Suc.prems(1,7) by (simp add: p' a'[simplified] t[simplified] string_answer_def sc[simplified] Let_def seq_assoc)
  also have "\<dots> = No_fuel" by (rule Suc.IH) (use Suc.prems in simp_all)
  finally show ?case .
qed simp

subsection \<open>A choice that is never made\<close>

lemma seq_inv: "seq p f c = Returns x c1 \<Longrightarrow> \<exists>y c2. p c = Returns y c2 \<and> f y c2 = Returns x c1"
  by (auto simp: seq_def split: run.splits)

text \<open>In silent mode a choice with a value is not asked for, and the line stays empty.\<close>

lemma ask_number_known:
  "in_mode c = ask_silent \<or> in_mode c = ask_new \<Longrightarrow>
   ask_number m False cnt dflt c = Returns (Some dflt) (c\<lparr>outp := outp c @ sprintf_d dflt @ newline_string\<rparr>)"
  by (auto simp: ask_number_def Let_def)

lemma known_choice_front:
  assumes "choice_question m s False c = Returns (Some ch) c1" "in_mode c \<in> {ask_silent, ask_new}"
  shows "line_front c \<noteq> CHR ''?''"
proof -
  let ?c2 = "c\<lparr>outp := outp c @ blanks (indent c - 1) @ print_ptr (menu_get_prompt m (kst c)) @ newline_string,
    conf_line := nul # drop 1 (conf_line c)\<rparr>"
  let ?list = "show_choices (next_menu (kst c)) (menu_list (menus (kst c) m)) (sym_get_choice_value (syms (kst c) s)) 0 0"
  let ?find = "\<lambda>k. find_choice (next_menu (kst c)) (menu_list (menus (kst c) m)) k"
  let ?num = "\<lambda>(cnt, dflt).
    seq (if cnt = 1 then seq (printf (''[1]: 1'' @ newline_string)) (\<lambda>_. ret (Some 1))
         else
           seq (printf (''[1-'' @ sprintf_d cnt @ (if menu_has_help m (kst c) then ''?'' else []) @ '']: '')) (\<lambda>_.
           ask_number m False cnt dflt)) (\<lambda>num.
    case num of
      None \<Rightarrow> ret None
    | Some k \<Rightarrow>
        seq (?find k) (\<lambda>child.
        case child of
          None \<Rightarrow> ret None
        | Some ch \<Rightarrow>
            seq last_byte (\<lambda>b. if b = CHR ''?'' then seq (print_help ch) (\<lambda>_. ret None) else ret (Some ch))))"
  have "seq ?list (\<lambda>x. seq (printf (blanks (indent c - 1) @ ''choice'')) (\<lambda>_. ?num x)) ?c2 = Returns (Some ch) c1"
    using assms(1) by (simp add: choice_question_def case_prod_unfold)
  from seq_inv[OF this] obtain y c3 where y: "?list ?c2 = Returns y c3"
    "seq (printf (blanks (indent c - 1) @ ''choice'')) (\<lambda>_. ?num y) c3 = Returns (Some ch) c1" by blast
  obtain cnt dflt where "y = (cnt, dflt)" by (cases y)
  with y have l: "?list ?c2 = Returns (cnt, dflt) c3"
    "?num (cnt, dflt) (c3\<lparr>outp := outp c3 @ blanks (indent c - 1) @ ''choice''\<rparr>) = Returns (Some ch) c1"
    unfolding seq_printf by simp_all
  have v3: "conf_line c3 = nul # drop 1 (conf_line c)" "in_mode c3 = in_mode c" "line_front c3 = line_front c"
    using keeps_var_returns[OF listing_line.keeps_show_choices l(1)] keeps_var_returns[OF asking_mode.keeps_show_choices l(1)]
      keeps_var_returns[OF asking_front.keeps_show_choices l(1)] by simp_all
  obtain k c4 c5 where f: "?find k c4 = Returns (Some ch) c5" "conf_line c4 = conf_line c3" "line_front c4 = line_front c3"
    "last_byte c5 \<noteq> Returns (CHR ''?'') c5"
    using l(2) assms(2) v3(2)
    by (auto simp: ask_number_known last_byte_def get_var_def seq_assoc dest!: seq_inv split: if_splits option.splits)
  have "cstr (conf_line c5) = []" "line_front c5 = line_front c"
    using keeps_var_returns[OF listing_line.keeps_find_choice f(1)] keeps_var_returns[OF asking_front.keeps_find_choice f(1)]
      f(2,3) v3 by (simp_all add: cstr_def)
  then show ?thesis using f(4) by (simp add: last_byte_def get_var_def)
qed

text \<open>
  In silent mode a choice that has a value is not asked for, so the line stays empty, and the
  test of its last byte reads the byte in front of the buffer: when that byte is a question mark, the
  choice is never made, and the list of its values is printed again and again.
\<close>

theorem known_choice_needs_front:
  assumes "choice_loop n cf m s False c = Returns x c1" "in_mode c \<in> {ask_silent, ask_new}"
  shows "line_front c \<noteq> CHR ''?''"
  using assms
proof (induction n arbitrary: c)
  case (Suc n)
  obtain chosen c2 where q: "choice_question m s False c = Returns chosen c2"
    "(case chosen of None \<Rightarrow> choice_loop n cf m s False c2 = Returns x c1 | Some ch \<Rightarrow> True)"
    using Suc.prems(1) by (auto dest!: seq_inv split: option.splits)
  show ?case
  proof (cases chosen)
    case None
    then have "line_front c2 \<noteq> CHR ''?''"
      using Suc.IH[of c2] q keeps_var_returns[OF asking_mode.keeps_choice_question q(1)] Suc.prems(2) by simp
    then show ?thesis using keeps_var_returns[OF asking_front.keeps_choice_question q(1)] by simp
  next
    case (Some ch)
    then show ?thesis using known_choice_front q(1) Suc.prems(2) by blast
  qed
qed simp

end
