(* ===== verification/MenuVisible.thy ===== *)
theory MenuVisible
  imports MenuTree
begin

text \<open>
  The visibility of menu entries (\<^verbatim>\<open>menu_is_visible\<close>): on a menu tree whose symbols are allocated it
  always returns, and changes nothing but calculated values.
\<close>

lemma settle_entry:
  assumes "wf_calc st" "entry_ok st m" "menu_prompt (menus st m) = Some p"
  shows "\<exists>v st1.
    (case menu_sym (menus st m) of
       Some s \<Rightarrow> map_option (\<lambda>st1. (visible_tri (props st1 p), st1)) (calc_value s st)
     | None \<Rightarrow> calc_prop_visible calc_value p st) = Some (v, st1) \<and>
    keeps {} st st1 \<and> wf_calc st1 \<and> (\<forall>s. menu_sym (menus st m) = Some s \<longrightarrow> valid st1 s)"
proof (cases "menu_sym (menus st m)")
  case (Some s)
  then show ?thesis using calc_value_ok[OF assms(1), of s] assms(2) by (auto simp: entry_ok_def)
next
  case None
  have p: "prop_sym (props st p) = None" "\<forall>t\<in>expr_syms (visible_expr (props st p)). alloc st t"
    using assms(2,3) None by (simp_all add: entry_ok_def)
  obtain st1 where e: "expr_calc_value (visible_expr (props st p)) st =
      Some (expr_value (syms st1) (visible_expr (props st p)), st1)" "keeps {} st st1"
    using calc.expr_ok[OF assms(1) p(2)] unfolding expr_calc_value_def by blast
  let ?st2 = "upd_prop p (\<lambda>q. q\<lparr>visible_tri := expr_value (syms st1) (visible_expr (props st p))\<rparr>) st1"
  have "prop_sym (props st1 p) = None" using p(1) by (simp add: keeps_prop[OF e(2)])
  then have "keeps {} st1 ?st2" by (intro keeps_upd_prop) (simp_all add: static_prop_def)
  then have k2: "keeps {} st ?st2" by (rule keeps_trans[OF e(2)])
  have "wf_calc ?st2" by (rule keeps_wf[OF k2 assms(1)]) simp
  with None e(1) k2 show ?thesis by (simp add: calc_prop_visible_def expr_calc_value_def)
qed

lemma entries_keep: "keeps {} st st' \<Longrightarrow> \<forall>m\<in>set xs. entry_ok st m \<Longrightarrow> \<forall>m\<in>set xs. entry_ok st' m"
  by (simp add: entry_ok_keeps)

lemma seg_keep: "keeps {} st st' \<Longrightarrow> seg (menus st) par p ts e \<Longrightarrow> seg (menus st') par p ts e"
  by (rule seg_cong) (auto intro: keeps_menus(1))

text \<open>The search for a visible entry below an entry, with enough fuel for the trees.\<close>

lemma visible_entry_step:
  assumes "wf_calc st" "entry_ok st m" "seg (menus st) (Some m) (menu_list (menus st m)) cs None"
    and "\<And>st1. wf_calc st1 \<Longrightarrow> keeps {} st st1 \<Longrightarrow>
      \<exists>v st2. any_visible n (menu_list (menus st1 m)) st1 = Some (v, st2) \<and> keeps {} st1 st2 \<and> wf_calc st2"
  shows "\<exists>v st'. menu_is_visible_fuel (Suc n) m st = Some (v, st') \<and> keeps {} st st' \<and> wf_calc st' \<and>
    (v \<longrightarrow> (\<forall>s. menu_sym (menus st m) = Some s \<longrightarrow> valid st' s))"
proof (cases "menu_prompt (menus st m)")
  case None
  then have "menu_is_visible_fuel (Suc n) m st = Some (False, st)" by simp
  then show ?thesis using assms(1) keeps_refl by blast
next
  case (Some p)
  obtain t st1 where e: "(case menu_sym (menus st m) of
       Some s \<Rightarrow> map_option (\<lambda>st1. (visible_tri (props st1 p), st1)) (calc_value s st)
     | None \<Rightarrow> calc_prop_visible calc_value p st) = Some (t, st1)" "keeps {} st st1" "wf_calc st1"
    "\<forall>s. menu_sym (menus st m) = Some s \<longrightarrow> valid st1 s"
    using settle_entry[OF assms(1,2) Some] by blast
  obtain v st2 where a: "any_visible n (menu_list (menus st1 m)) st1 = Some (v, st2)" "keeps {} st1 st2" "wf_calc st2"
    using assms(4)[OF e(3,2)] by blast
  have k2: "keeps {} st st2" by (rule keeps_trans[OF e(2) a(2)])
  have v2: "\<forall>s. menu_sym (menus st m) = Some s \<longrightarrow> valid st2 s" using e(4) keeps_valid[OF a(2)] by blast
  show ?thesis
    using Some e a k2 v2 by (auto simp: keeps_menus(2)[OF e(2)] split: option.split)
qed

lemma any_visible_ok:
  "wf_calc st \<Longrightarrow> seg (menus st) par p ts None \<Longrightarrow> \<forall>m\<in>set (pre_list ts). entry_ok st m \<Longrightarrow>
   2 * length (pre_list ts) < n \<Longrightarrow>
   \<exists>v st'. any_visible n p st = Some (v, st') \<and> keeps {} st st' \<and> wf_calc st'"
proof (induction ts arbitrary: st par p n rule: mtrees_induct)
  case Nil
  then obtain j where "n = Suc j" "p = None" by (cases n) auto
  then have "any_visible n p st = Some (False, st)" by simp
  then show ?case using Nil(1) keeps_refl by blast
next
  case (Cons m cs ts)
  obtain j where n: "n = Suc (Suc j)" using Cons.prems(4) by (cases n; cases "n - 1") auto
  have m: "p = Some m" "seg (menus st) (Some m) (menu_list (menus st m)) cs None"
    "seg (menus st) par (menu_next (menus st m)) ts None"
    using Cons.prems(2) by simp_all
  have ok: "entry_ok st m" "\<forall>x\<in>set (pre_list cs). entry_ok st x" "\<forall>x\<in>set (pre_list ts). entry_ok st x"
    using Cons.prems(3) by auto
  obtain v st1 where v: "menu_is_visible_fuel (Suc j) m st = Some (v, st1)" "keeps {} st st1" "wf_calc st1"
  proof -
    have "\<exists>v st2. any_visible j (menu_list (menus st1 m)) st1 = Some (v, st2) \<and> keeps {} st1 st2 \<and> wf_calc st2"
      if w: "wf_calc st1" "keeps {} st st1" for st1
    proof (rule Cons.IH(1)[OF w(1)])
      show "seg (menus st1) (Some m) (menu_list (menus st1 m)) cs None"
        using seg_keep[OF w(2) m(2)] keeps_menus(1)[OF w(2), of m] by (simp add: same_links_def)
    qed (use entries_keep[OF w(2) ok(2)] Cons.prems(4) n in auto)
    from visible_entry_step[OF Cons.prems(1) ok(1) m(2) this] show ?thesis using that by blast
  qed
  show ?case
  proof (cases v)
    case True
    then have "any_visible n p st = Some (True, st1)" unfolding n m(1) any_visible.simps v(1) by simp
    then show ?thesis using v(2,3) by blast
  next
    case False
    have "menu_next (menus st1 m) = menu_next (menus st m)" using keeps_menus(1)[OF v(2), of m] by (simp add: same_links_def)
    then obtain u st2 where "any_visible (Suc j) (menu_next (menus st1 m)) st1 = Some (u, st2)" "keeps {} st1 st2" "wf_calc st2"
      using Cons.IH(2)[OF v(3), of par "menu_next (menus st m)" "Suc j"] seg_keep[OF v(2) m(3)] entries_keep[OF v(2) ok(3)]
        Cons.prems(4) n by auto
    moreover from this False have "any_visible n p st = Some (u, st2)" unfolding n m(1) any_visible.simps(3) v(1) by simp
    ultimately show ?thesis using keeps_trans[OF v(2)] by blast
  qed
qed

lemma menu_is_visible_ok:
  assumes "wf_calc st" "entry_ok st m" "seg (menus st) (Some m) (menu_list (menus st m)) cs None"
    "\<forall>x\<in>set (pre_list cs). entry_ok st x" "length (pre_list cs) \<le> next_menu st"
  shows "\<exists>v st'. menu_is_visible m st = Some (v, st') \<and> keeps {} st st' \<and> wf_calc st' \<and>
    (v \<longrightarrow> (\<forall>s. menu_sym (menus st m) = Some s \<longrightarrow> valid st' s))"
proof -
  have "\<exists>v st2. any_visible (2 * next_menu st + 1) (menu_list (menus st1 m)) st1 = Some (v, st2) \<and> keeps {} st1 st2 \<and> wf_calc st2"
    if w: "wf_calc st1" "keeps {} st st1" for st1
  proof (rule any_visible_ok[OF w(1)])
    show "seg (menus st1) (Some m) (menu_list (menus st1 m)) cs None"
      using seg_keep[OF w(2) assms(3)] keeps_menus(1)[OF w(2), of m] by (simp add: same_links_def)
  qed (use entries_keep[OF w(2) assms(4)] assms(5) in auto)
  from visible_entry_step[OF assms(1-3) this] show ?thesis by (simp add: menu_is_visible_def)
qed

end
