(* ===== verification/ConfQuiet.thy ===== *)
theory ConfQuiet
  imports ConfAsk MenuVisible
begin

text \<open>
  Runs of \<^verbatim>\<open>conf.c\<close> as a whole: an update of a configuration without new symbols asks nothing,
  and the files are written at the end only.
\<close>

subsection \<open>No question when nothing is new\<close>

text \<open>
  An entry is settled when no calculation of values can make its symbol one to be asked for; it
  is when its symbol has a value of the user.
\<close>

definition settled :: "kstate \<Rightarrow> nat \<Rightarrow> bool" where
  "settled st m \<longleftrightarrow>
     (\<forall>s st'. menu_sym (menus st m) = Some s \<longrightarrow> keeps {} st st' \<longrightarrow> valid st' s \<longrightarrow> \<not> needs_value s st')"

lemma settled_has_value:
  "(\<And>s. menu_sym (menus st m) = Some s \<Longrightarrow> sym_has_value (syms st s)) \<Longrightarrow> settled st m"
  by (auto simp: settled_def needs_value_def keeps_sym(10))

lemma settled_keep: "keeps {} st st' \<Longrightarrow> settled st m \<Longrightarrow> settled st' m"
  unfolding settled_def by (metis keeps_menus(2) keeps_trans)

text \<open>The call changes nothing but calculated values: nothing is printed or read.\<close>

definition quiet_run :: "unit prog \<Rightarrow> conf_vars \<Rightarrow> bool" where
  "quiet_run p c \<longleftrightarrow> (\<exists>st'. p c = Returns () (c\<lparr>kst := st'\<rparr>) \<and> keeps {} (kst c) st' \<and> wf_calc st')"

lemma check_entry_step:
  assumes "wf_calc (kst c)" "entry_ok (kst c) m" "settled (kst c) m"
    and "seg (menus (kst c)) (Some m) (menu_list (menus (kst c) m)) cs None"
    and "\<forall>x\<in>set (pre_list cs). entry_ok (kst c) x" "length (pre_list cs) \<le> next_menu (kst c)"
    and "\<And>st1. wf_calc st1 \<Longrightarrow> keeps {} (kst c) st1 \<Longrightarrow> quiet_run (children_of (check_conf n) m) (c\<lparr>kst := st1\<rparr>)"
  shows "quiet_run (check_conf (Suc n) m) c"
proof -
  obtain v st1 where v: "menu_is_visible m (kst c) = Some (v, st1)" "keeps {} (kst c) st1" "wf_calc st1"
    "v \<Longrightarrow> \<forall>s. menu_sym (menus (kst c) m) = Some s \<longrightarrow> valid st1 s"
    using menu_is_visible_ok[OF assms(1,2,4,5,6)] by blast
  obtain st2 where r: "children_of (check_conf n) m (c\<lparr>kst := st1\<rparr>) = Returns () (c\<lparr>kst := st2\<rparr>)"
    "keeps {} st1 st2" "wf_calc st2"
    using assms(7)[OF v(3,2)] by (auto simp: quiet_run_def)
  have "\<not> needs_value s st1" if "v" "menu_sym (menus st1 m) = Some s" for s
    using assms(3) v that keeps_menus(2)[OF v(2), of m] unfolding settled_def by metis
  then have "v \<Longrightarrow> check_conf (Suc n) m c = Returns () (c\<lparr>kst := st2\<rparr>)"
    using r(1) by (auto simp: check_body_def seq_call[of "menu_is_visible m", OF v(1)] split: option.split)
  moreover have "\<not> v \<Longrightarrow> check_conf (Suc n) m c = Returns () (c\<lparr>kst := st1\<rparr>)"
    by (simp add: check_body_def seq_call[of "menu_is_visible m", OF v(1)])
  ultimately show ?thesis using v(2,3) r(2,3) keeps_trans[OF v(2) r(2)] by (cases v) (auto simp: quiet_run_def)
qed

lemma quiet_children:
  "wf_calc (kst c) \<Longrightarrow> seg (menus (kst c)) par p ts None \<Longrightarrow>
   \<forall>m\<in>set (pre_list ts). entry_ok (kst c) m \<and> settled (kst c) m \<Longrightarrow>
   length (pre_list ts) \<le> n \<Longrightarrow> length (pre_list ts) \<le> k \<Longrightarrow> length (pre_list ts) \<le> next_menu (kst c) \<Longrightarrow>
   quiet_run (for_children n (check_conf k) p) c"
proof (induction ts arbitrary: c par p n k rule: mtrees_induct)
  case Nil
  then have "for_children n (check_conf k) p c = Returns () (c\<lparr>kst := kst c\<rparr>)" by simp
  then show ?case using Nil(1) keeps_refl unfolding quiet_run_def by blast
next
  case (Cons m cs ts)
  obtain j where n: "n = Suc j" using Cons.prems(4) by (cases n) auto
  obtain i where k: "k = Suc i" using Cons.prems(5) by (cases k) auto
  have m: "p = Some m" "seg (menus (kst c)) (Some m) (menu_list (menus (kst c) m)) cs None"
    "seg (menus (kst c)) par (menu_next (menus (kst c) m)) ts None"
    using Cons.prems(2) by simp_all
  have head: "quiet_run (check_conf k m) c" unfolding k
  proof (rule check_entry_step[OF Cons.prems(1) _ _ m(2)])
    fix st1 assume w: "wf_calc st1" "keeps {} (kst c) st1"
    have "quiet_run (for_children (next_menu st1) (check_conf i) (menu_list (menus st1 m))) (c\<lparr>kst := st1\<rparr>)"
    proof (rule Cons.IH(1)[of _ "Some m"])
      show "seg (menus (kst (c\<lparr>kst := st1\<rparr>))) (Some m) (menu_list (menus st1 m)) cs None"
        using seg_keep[OF w(2) m(2)] keeps_menus(1)[OF w(2), of m] by (simp add: same_links_def)
    qed (use w Cons.prems(3-6) k in \<open>auto simp: entry_ok_keeps[OF w(2)] settled_keep[OF w(2)] keeps_menus(4)[OF w(2)]\<close>)
    then show "quiet_run (children_of (check_conf i) m) (c\<lparr>kst := st1\<rparr>)"
      by (simp add: quiet_run_def children_of_def)
  qed (use Cons.prems(3,6) in auto)
  obtain st1 where h: "check_conf k m c = Returns () (c\<lparr>kst := st1\<rparr>)" "keeps {} (kst c) st1" "wf_calc st1"
    using head by (auto simp: quiet_run_def)
  have nx: "menu_next (menus st1 m) = menu_next (menus (kst c) m)" using keeps_menus(1)[OF h(2), of m] by (simp add: same_links_def)
  have "quiet_run (for_children j (check_conf k) (menu_next (menus (kst c) m))) (c\<lparr>kst := st1\<rparr>)"
    by (rule Cons.IH(2)[of _ par])
      (use h(2,3) Cons.prems(3-6) n seg_keep[OF h(2) m(3)] in
        \<open>auto simp: entry_ok_keeps[OF h(2)] settled_keep[OF h(2)] keeps_menus(4)[OF h(2)]\<close>)
  then obtain st2 where r: "for_children j (check_conf k) (menu_next (menus (kst c) m)) (c\<lparr>kst := st1\<rparr>) = Returns () (c\<lparr>kst := st2\<rparr>)"
    "keeps {} st1 st2" "wf_calc st2" by (auto simp: quiet_run_def)
  have "for_children n (check_conf k) p c = Returns () (c\<lparr>kst := st2\<rparr>)"
    unfolding n m(1) for_children.simps seq_def h(1) using r(1) nx by (simp add: get_var_def)
  then show ?case using keeps_trans[OF h(2) r(2)] r(3) unfolding quiet_run_def by blast
qed

lemma quiet_check_root:
  assumes "menu_tree (kst c) ts" "wf_calc (kst c)"
    and "\<forall>m\<in>set (rootmenu # pre_list ts). entry_ok (kst c) m \<and> settled (kst c) m"
    and "length (pre_list ts) \<le> n"
  shows "quiet_run (check_conf (Suc n) rootmenu) c"
proof -
  have s: "seg (menus (kst c)) (Some rootmenu) (menu_list (menus (kst c) rootmenu)) ts None"
    using assms(1) by (simp add: menu_tree_def)
  have len: "length (pre_list ts) \<le> next_menu (kst c)" using menu_tree_length[OF assms(1)] by simp
  show ?thesis
  proof (rule check_entry_step[OF assms(2) _ _ s])
    fix st1 assume w: "wf_calc st1" "keeps {} (kst c) st1"
    have "quiet_run (for_children (next_menu st1) (check_conf n) (menu_list (menus st1 rootmenu))) (c\<lparr>kst := st1\<rparr>)"
    proof (rule quiet_children[of _ "Some rootmenu"])
      show "seg (menus (kst (c\<lparr>kst := st1\<rparr>))) (Some rootmenu) (menu_list (menus st1 rootmenu)) ts None"
        using seg_keep[OF w(2) s] keeps_menus(1)[OF w(2), of rootmenu] by (simp add: same_links_def)
    qed (use w assms(3,4) len in \<open>auto simp: entry_ok_keeps[OF w(2)] settled_keep[OF w(2)] keeps_menus(4)[OF w(2)]\<close>)
    then show "quiet_run (children_of (check_conf n) rootmenu) (c\<lparr>kst := st1\<rparr>)"
      by (simp add: quiet_run_def children_of_def)
  qed (use assms(3) len in auto)
qed

text \<open>
  C8.  An update of a configuration in which no symbol of the menus is new ends after one walk
  through the menus: nothing is asked, printed or read, and nothing but calculated values changes.
\<close>

theorem update_without_questions:
  assumes "menu_tree (kst c) ts" "wf_calc (kst c)"
    and "\<forall>m\<in>set (rootmenu # pre_list ts). entry_ok (kst c) m \<and> settled (kst c) m"
    and "length (pre_list ts) + 1 < n"
  shows "\<exists>st'. update_loop n c = Returns () (c\<lparr>kst := st', conf_cnt := 0\<rparr>) \<and> keeps {} (kst c) st'"
proof -
  obtain j where n: "n = Suc (Suc j)" "length (pre_list ts) \<le> j" using assms(4) by (cases n; cases "n - 1") auto
  let ?c = "c\<lparr>conf_cnt := 0\<rparr>"
  obtain st' where q: "check_conf (Suc j) rootmenu ?c = Returns () (?c\<lparr>kst := st'\<rparr>)" "keeps {} (kst c) st'"
    using quiet_check_root[of ?c ts j] assms(1-3) n(2) by (auto simp: quiet_run_def)
  have "update_loop n c = Returns () (?c\<lparr>kst := st'\<rparr>)"
    unfolding n(1) update_loop.simps seq_set_var by (simp add: seq_def q(1) get_var_def del: check_conf.simps)
  then show ?thesis using q(2) by (intro exI[of _ st']) simp
qed

subsection \<open>The files\<close>

text \<open>
  A program that leaves the files alone, but for a last step \<open>w\<close> that starts with the files as they
  were.
\<close>

definition writes_last :: "'a prog \<Rightarrow> 'a prog \<Rightarrow> bool" where
  "writes_last w p \<longleftrightarrow>
     (\<forall>c. case p c of
        Returns x c1 \<Rightarrow> files c1 = files c \<or> (\<exists>c2. files c2 = files c \<and> w c2 = Returns x c1)
      | Exits k c1 \<Rightarrow> files c1 = files c \<or> (\<exists>c2. files c2 = files c \<and> w c2 = Exits k c1)
      | Crash \<Rightarrow> True | No_fuel \<Rightarrow> True)"

lemma writes_lastD:
  "writes_last w p \<Longrightarrow>
   case p (c :: conf_vars) of
     Returns x c1 \<Rightarrow> files c1 = files c \<or> (\<exists>c2. files c2 = files c \<and> w c2 = Returns x c1)
   | Exits k c1 \<Rightarrow> files c1 = files c \<or> (\<exists>c2. files c2 = files c \<and> w c2 = Exits k c1)
   | Crash \<Rightarrow> True | No_fuel \<Rightarrow> True"
  by (simp add: writes_last_def)

lemma writes_last_keeps: "keeps_var files p \<Longrightarrow> writes_last w p"
  unfolding keeps_var_def writes_last_def by (fastforce split: run.splits)

lemma writes_last_self: "writes_last w w"
  unfolding writes_last_def by (auto split: run.split)

lemma writes_last_seq:
  assumes "keeps_var files p" "\<And>x. writes_last w (q x)"
  shows "writes_last w (seq p q)"
  unfolding writes_last_def
proof
  fix c
  show "case seq p q c of
      Returns x c1 \<Rightarrow> files c1 = files c \<or> (\<exists>c2. files c2 = files c \<and> w c2 = Returns x c1)
    | Exits k c1 \<Rightarrow> files c1 = files c \<or> (\<exists>c2. files c2 = files c \<and> w c2 = Exits k c1)
    | Crash \<Rightarrow> True | No_fuel \<Rightarrow> True"
  proof (cases "p c")
    case (Returns x c1)
    then have "files c1 = files c" by (rule keeps_var_returns[OF assms(1)])
    then show ?thesis using Returns writes_lastD[OF assms(2), of c1 x] by (cases "q x c1") (simp_all add: seq_def)
  next
    case (Exits k c1)
    then have "files c1 = files c" by (rule keeps_var_exits[OF assms(1)])
    then show ?thesis using Exits by (simp add: seq_def)
  qed (simp_all add: seq_def)
qed

lemma writes_last_if: "writes_last w p \<Longrightarrow> writes_last w q \<Longrightarrow> writes_last w (if b then p else q)"
  and writes_last_option:
    "writes_last w p \<Longrightarrow> (\<And>y. writes_last w (g y)) \<Longrightarrow> writes_last w (case yo of None \<Rightarrow> p | Some y \<Rightarrow> g y)"
  by (auto split: option.split)

lemma keeps_read_options: "keeps_var files (read_options opts)"
proof (induction opts rule: read_options.induct)
  case (2 opt arg r)
  show ?case unfolding read_options.simps set_mode_def by (intro frame asking_files.keeps_steps keeps_set_var 2) simp_all
qed (simp only: read_options.simps frame)

lemma keeps_read_start: "keeps_var files (read_start e)"
  unfolding read_start_def read_all_config_def read_simple_def
  by (intro frame asking_files.keeps_steps keeps_set_var) simp_all

lemma keeps_set_values: "keeps_var files (set_values n e)"
  unfolding set_values_def set_new_symbols_def set_mode_def
  by (intro frame asking_files.keeps_steps)
    (auto split: input_mode.split intro!: frame asking_files.keeps_steps keeps_set_var asking_files.keeps_conf asking_files.keeps_update_loop)

text \<open>
  C9.  The files are touched by the last step only: a run that is broken off before it, by an error,
  by an option or by a question that cannot be asked, leaves all files as they were.
\<close>

theorem files_written_last:
  assumes "main n e opts argv0 name c = Returns x c1 \<or> main n e opts argv0 name c = Exits x c1"
  shows "files c1 = files c \<or>
    (\<exists>c2. files c2 = files c \<and> write_results e c2 = main n e opts argv0 name c)"
proof -
  have "writes_last (write_results e) (main n e opts argv0 name)"
    unfolding main_def exists_file_def
    by (rule writes_last_self writes_last_if writes_last_option writes_last_seq keeps_read_options keeps_read_start
        keeps_set_values asking_files.keeps_steps keeps_set_var writes_last_keeps | simp)+
  from writes_lastD[OF this, of c] show ?thesis using assms by auto
qed

subsection \<open>An example\<close>

text \<open>
  A main menu with entries for \<^verbatim>\<open>FOO\<close>, with \<^verbatim>\<open>BAR\<close> below it, and for the number \<^verbatim>\<open>NUM\<close>, which has no
  value; \<^verbatim>\<open>FOO\<close> and \<^verbatim>\<open>BAR\<close> have values of the user.
\<close>

definition ex_ask_syms :: "nat \<Rightarrow> symbol" where
  "ex_ask_syms n =
     (if n = 0 then (ex_syms 0)\<lparr>visible := TYes, flags := {SYMBOL_DEF_USER}\<rparr>
      else if n = 3 then zero_symbol\<lparr>sym_name := Some ''NUM'', sym_type := S_INT, visible := TYes,
        curr := \<lparr>sv_val = VStr Lit [], sv_tri = TNo\<rparr>\<rparr>
      else ex_syms n)"

definition ex_ask_props :: "nat \<Rightarrow> property" where
  "ex_ask_props =
     (ex_props(0 := (ex_props 0)\<lparr>prop_menu := Some 1\<rparr>, 7 := zero_property\<lparr>prop_type := P_PROMPT, prop_text := Some ''num''\<rparr>,
        8 := zero_property\<lparr>prop_type := P_MENU, prop_text := Some ''main''\<rparr>))"

definition ex_ask_menus :: "nat \<Rightarrow> menu" where
  "ex_ask_menus = (\<lambda>_. zero_menu)
     (0 := zero_menu\<lparr>menu_list := Some 1, menu_prompt := Some 8\<rparr>,
      1 := zero_menu\<lparr>menu_parent := Some 0, menu_list := Some 2, menu_next := Some 3, menu_sym := Some (Sym 0),
        menu_prompt := Some 0, menu_file := Some 0\<rparr>,
      2 := zero_menu\<lparr>menu_parent := Some 1, menu_sym := Some (Sym 2), menu_prompt := Some 2\<rparr>,
      3 := zero_menu\<lparr>menu_parent := Some 0, menu_prompt := Some 8\<rparr>,
      4 := zero_menu\<lparr>menu_parent := Some 0, menu_sym := Some (Sym 3), menu_prompt := Some 7\<rparr>)"

definition ex_ask_state :: kstate where
  "ex_ask_state = ex_state\<lparr>syms := (\<lambda>s. case s of Sym n \<Rightarrow> ex_ask_syms n | _ \<Rightarrow> init_static s),
     props := ex_ask_props, menus := ex_ask_menus, next_menu := 5\<rparr>"

definition ex_vars :: "string \<Rightarrow> conf_vars" where
  "ex_vars text = \<lparr>kst = ex_ask_state, in_mode = ask_all, defconfig_file = None, indent = 1, valid_stdin = True,
     sync_kconfig = False, conf_cnt = 0, conf_line = replicate 128 nul, line_front = nul, root_entry = None,
     inp = text, outp = [], files = \<lparr>w_files = (\<lambda>_. None), w_dirs = (\<lambda>_. False)\<rparr>\<rparr>"

lemma ex_vars_simps [simp]:
  "kst (ex_vars text) = ex_ask_state" "in_mode (ex_vars text) = ask_all" "inp (ex_vars text) = text"
  by (simp_all add: ex_vars_def)

lemma ex_ask_simps [simp]:
  "syms ex_ask_state (Sym n) = ex_ask_syms n" "syms ex_ask_state symbol_yes = init_static symbol_yes"
  "syms ex_ask_state symbol_mod = init_static symbol_mod" "syms ex_ask_state symbol_no = init_static symbol_no"
  "syms ex_ask_state symbol_empty = init_static symbol_empty" "props ex_ask_state = ex_ask_props"
  "menus ex_ask_state = ex_ask_menus" "next_menu ex_ask_state = 5"
  "next_sym ex_ask_state = 6" "modules_sym ex_ask_state = None" "symbol_hash ex_ask_state h = []"
  by (simp_all add: ex_ask_state_def)

lemma ex_ask_table: "wf_table ex_ask_state"
proof -
  have p: "wf_props ex_ask_state s" for s
    by (cases s) (auto simp: wf_props_def ex_ask_syms_def ex_syms_def ex_ask_props_def ex_props_def zero_symbol_def zero_property_def
        split: if_splits)
  have c: "\<not> sym_is_choice (syms ex_ask_state s)" "\<not> sym_is_choice_value (syms ex_ask_state s)" for s
    by (cases s; simp add: sym_is_choice_def sym_is_choice_value_def ex_ask_syms_def ex_syms_def zero_symbol_def)+
  have "wf_calc ex_ask_state" using p c by (simp add: wf_calc_def valid_def zero_symbol_def)
  then show ?thesis using c by (simp add: wf_table_def hash_inv_def chain_ok_def)
qed

lemma ex_changable: "sym_is_changable (Sym 0) ex_ask_state" "sym_is_changable (Sym 3) ex_ask_state"
  by (simp_all add: sym_is_changable_def ex_ask_syms_def ex_syms_def zero_symbol_def)

lemma ex_ask_menus [simp]:
  "menu_sym (ex_ask_menus (Suc 0)) = Some (Sym 0)" "menu_prompt (ex_ask_menus (Suc 0)) = Some 0"
  "menu_sym (ex_ask_menus 4) = Some (Sym 3)" "menu_prompt (ex_ask_menus 4) = Some 7"
  by (simp_all add: ex_ask_menus_def zero_menu_def)

lemma ex_help: "\<exists>h. menu_get_ext_help 1 ex_ask_state str_new = Some h"
  by (rule ext_help_complete[of _ _ "Sym 0"])
    (simp_all add: located_def ex_ask_syms_def ex_syms_def ex_ask_props_def ex_props_def ex_ask_menus_def zero_property_def
      zero_menu_def zero_symbol_def rootmenu_def numeral_eq_Suc)

lemma conf_sym_returns_witness:
  "\<exists>c1. conf_sym 6 1 (ex_vars ''nope?'') = Returns () c1 \<and> sym_has_value (syms (kst c1) (Sym 0))"
proof -
  obtain h where "menu_get_ext_help 1 ex_ask_state str_new = Some h" using ex_help by blast
  then show ?thesis
    using conf_sym_returns[of "ex_vars ''nope?''" 1 "Sym 0" 0 h] ex_ask_table ex_changable
    by (auto simp: numeral_eq_Suc simp del: conf_sym.simps)
qed

lemma conf_sym_answer_witness:
  "\<exists>c1. conf_sym 1 1 (ex_vars ('' no'' @ [newline] @ ''rest'')) = Returns () c1 \<and> inp c1 = ''rest'' \<and>
    sv_tri (def (syms (kst c1) (Sym 0)) S_DEF_USER) = TNo"
proof -
  have "read_answer (sym_get_tristate_value (syms ex_ask_state (Sym 0))) (trim '' no'') = Value TNo" by code_simp
  moreover have "newline \<notin> set '' no''" "nul \<notin> set '' no''" by code_simp+
  moreover have "TNo = sym_get_tristate_value (syms ex_ask_state (Sym 0))"
    by (simp add: sym_get_tristate_value_def ex_ask_syms_def ex_syms_def zero_symbol_def null_value_def)
  ultimately show ?thesis
    using conf_sym_answer[of "ex_vars ('' no'' @ [newline] @ ''rest'')" 1 "Sym 0" 0 "'' no''" "''rest''" TNo 0]
      ex_ask_table ex_changable by (auto simp del: conf_sym.simps)
qed

lemma conf_string_endless_witness: "conf_string 100 4 (ex_vars []) = No_fuel"
  by (rule conf_string_endless[of _ _ "Sym 3" 7])
    (simp_all add: ex_changable ex_ask_syms_def string_value_def sym_get_string_value_def zero_symbol_def)

lemma update_without_questions_witness:
  "\<exists>st'. update_loop 6 (ex_vars []) = Returns () ((ex_vars [])\<lparr>kst := st', conf_cnt := 0\<rparr>) \<and> keeps {} ex_ask_state st'"
proof -
  let ?ts = "[Entry 1 [Entry 2 []], Entry 3 []]"
  have "menu_tree ex_ask_state ?ts"
    by (simp add: menu_tree_def ex_ask_menus_def rootmenu_def zero_menu_def)
  moreover have "\<forall>m\<in>set (rootmenu # pre_list ?ts). entry_ok ex_ask_state m \<and> settled ex_ask_state m"
    by (auto simp: entry_ok_def rootmenu_def ex_ask_menus_def zero_menu_def ex_ask_props_def zero_property_def
        ex_ask_syms_def ex_syms_def sym_has_value_def intro!: settled_has_value)
  moreover have "wf_calc ex_ask_state" using ex_ask_table by (simp add: wf_table_def)
  ultimately show ?thesis using update_without_questions[of "ex_vars []" ?ts 6] by simp
qed

text \<open>A choice with one value, already made.\<close>

definition ex_choice_state :: kstate where
  "ex_choice_state = ex_state\<lparr>
     syms := (\<lambda>s. case s of
        Sym n \<Rightarrow>
          (if n = 0 then zero_symbol\<lparr>sym_type := S_BOOLEAN, sym_prop := [0], visible := TYes,
             curr := \<lparr>sv_val = VSym (Sym 1), sv_tri = TYes\<rparr>, flags := {SYMBOL_CHOICE, SYMBOL_VALID, SYMBOL_DEF_USER}\<rparr>
           else zero_symbol\<lparr>sym_name := Some ''ONE'', sym_type := S_BOOLEAN, sym_prop := [1, 2], visible := TYes,
             curr := \<lparr>sv_val = VNull, sv_tri = TYes\<rparr>, flags := {SYMBOL_CHOICEVAL, SYMBOL_VALID}\<rparr>)
      | _ \<Rightarrow> init_static s),
     props := (\<lambda>p. if p = 0 then zero_property\<lparr>prop_sym := Some (Sym 0), prop_type := P_CHOICE, prop_expr := E_LIST Null (Sym 1)\<rparr>
        else if p = 1 then zero_property\<lparr>prop_sym := Some (Sym 1), prop_type := P_PROMPT, prop_text := Some ''one'', visible_tri := TYes\<rparr>
        else zero_property\<lparr>prop_sym := Some (Sym 1), prop_type := P_CHOICE, prop_expr := E_SYMBOL (Sym 0)\<rparr>),
     menus := (\<lambda>m. if m = 1 then zero_menu\<lparr>menu_list := Some 2, menu_sym := Some (Sym 0), menu_prompt := Some 1\<rparr>
        else if m = 2 then zero_menu\<lparr>menu_parent := Some 1, menu_sym := Some (Sym 1), menu_prompt := Some 1\<rparr>
        else zero_menu),
     next_sym := 2, next_menu := 3\<rparr>"

definition ex_choice_vars :: conf_vars where
  "ex_choice_vars = (ex_vars [])\<lparr>kst := ex_choice_state, in_mode := ask_silent\<rparr>"

lemma ex_choice_made: "case choice_loop 1 (\<lambda>_. ret ()) 1 (Sym 0) False ex_choice_vars of Returns x c1 \<Rightarrow> x | _ \<Rightarrow> False"
  by code_simp

lemma known_choice_needs_front_witness:
  "(\<exists>c1. choice_loop 1 (\<lambda>_. ret ()) 1 (Sym 0) False ex_choice_vars = Returns True c1) \<and>
   line_front ex_choice_vars \<noteq> CHR ''?''"
proof -
  obtain c1 where "choice_loop 1 (\<lambda>_. ret ()) 1 (Sym 0) False ex_choice_vars = Returns True c1"
    using ex_choice_made by (auto split: run.splits)
  moreover have "in_mode ex_choice_vars \<in> {ask_silent, ask_new}" by (simp add: ex_choice_vars_def)
  ultimately show ?thesis using known_choice_needs_front by blast
qed

text \<open>Without a Kconfig file the program exits.\<close>

definition ex_env :: conf_env where
  "ex_env = \<lparr>ce_os = \<lparr>os_getenv = (\<lambda>_. None), os_denied = (\<lambda>_. False), os_ctime = [], os_pid = 7\<rparr>,
     ce_parse = (\<lambda>_ st. Some st), ce_isatty = False, ce_rand = sconst 0, ce_junk = []\<rparr>"

lemma files_written_last_witness:
  "\<exists>c1. main 5 ex_env [(CHR ''s'', None)] ''conf'' (Some ''Kconfig'') (ex_vars []) = Exits 1 c1 \<and>
    (files c1 = files (ex_vars []) \<or>
     (\<exists>c2. files c2 = files (ex_vars []) \<and>
        write_results ex_env c2 = main 5 ex_env [(CHR ''s'', None)] ''conf'' (Some ''Kconfig'') (ex_vars [])))"
proof -
  have "\<exists>c1. main 5 ex_env [(CHR ''s'', None)] ''conf'' (Some ''Kconfig'') (ex_vars []) = Exits 1 c1"
    by (simp add: main_def set_mode_def ex_env_def seq_assoc exists_file_def path_exists_def ex_vars_def)
  then show ?thesis using files_written_last by blast
qed

end
