(* ===== verification/KxGettext.thy ===== *)
theory KxGettext
  imports MenuTree MenuHelp
begin

text \<open>
  The collector of the messages to be translated (\<^verbatim>\<open>kxgettext.c\<close>): it walks through the menus, puts
  every prompt and help text once into a list, as the string literal of a message catalogue, with
  all the places it comes from, and prints the list.  Memory does not run out in the model.
\<close>

subsection \<open>String literals\<close>

text \<open>
  \<open>put size bf cs\<close>: the characters \<open>cs\<close> are stored behind \<open>bf\<close> in a buffer of \<open>size\<close> bytes; \<open>None\<close>
  when they leave it.  \<open>len\<close> is the count the code keeps of the room that is left.
\<close>

definition put :: "nat \<Rightarrow> string \<Rightarrow> string \<Rightarrow> string option" where
  "put size0 bf cs = (if length bf + length cs \<le> size0 then Some (bf @ cs) else None)"

abbreviation quote :: char where "quote \<equiv> CHR 0x22"
abbreviation backslash :: char where "backslash \<equiv> CHR 0x5C"

fun escape_loop :: "nat \<Rightarrow> string \<Rightarrow> string \<Rightarrow> int \<Rightarrow> string option" where
  "escape_loop size0 [] bf len = Some bf"
| "escape_loop size0 (c # text0) bf len =
     (if len \<le> 1 then Some bf
      else if c = quote then
        do { b \<leftarrow> put size0 bf [backslash, c]; escape_loop size0 text0 b (len - 1) }
      else if c = newline then
        do { b \<leftarrow> put size0 bf [backslash, CHR ''n'', quote, newline, quote]; escape_loop size0 text0 b (len - 6) }
      else if c = backslash then
        do { b \<leftarrow> put size0 bf [backslash, c]; escape_loop size0 text0 b (len - 2) }
      else do { b \<leftarrow> put size0 bf [c]; escape_loop size0 text0 b (len - 1) })"

definition escape :: "string \<Rightarrow> nat \<Rightarrow> string option" where
  "escape text0 size0 =
     (let multiline = newline \<in> set text0; eol = text0 \<noteq> [] \<and> last text0 = newline in
      do { b0 \<leftarrow> put size0 [] [quote];
           b1 \<leftarrow> (if multiline then put size0 b0 [quote, newline, quote] else Some b0);
           b2 \<leftarrow> escape_loop size0 text0 b1 (int size0 - 1 - (if multiline then 3 else 0));
           let b3 = (if multiline \<and> eol then take (length b2 - 3) b2 else b2);
           b4 \<leftarrow> put size0 b3 [quote];
           b5 \<leftarrow> put size0 b4 [nul];
           Some b4 })"

subsection \<open>The list of messages\<close>

record file_line =
  fl_file :: string
  fl_lineno :: nat

record message =
  msg_text :: string
  msg_option :: "string option"
  msg_files :: "file_line list"

definition message_new :: "string \<Rightarrow> string option \<Rightarrow> string \<Rightarrow> nat \<Rightarrow> message" where
  "message_new t opt file lineno = \<lparr>msg_text = t, msg_option = opt, msg_files = [\<lparr>fl_file = file, fl_lineno = lineno\<rparr>]\<rparr>"

definition mesage_find :: "string \<Rightarrow> message list \<Rightarrow> message option" where
  "mesage_find t ms = find (\<lambda>m. msg_text m = t) ms"

definition message_add_file_line :: "string \<Rightarrow> nat \<Rightarrow> message \<Rightarrow> message" where
  "message_add_file_line file lineno m = m\<lparr>msg_files := \<lparr>fl_file = file, fl_lineno = lineno\<rparr> # msg_files m\<rparr>"

text \<open>The message that is found is changed in place.\<close>

fun update_first :: "('a \<Rightarrow> bool) \<Rightarrow> ('a \<Rightarrow> 'a) \<Rightarrow> 'a list \<Rightarrow> 'a list" where
  "update_first P f [] = []"
| "update_first P f (x # xs) = (if P x then f x # xs else x # update_first P f xs)"

definition bf_size :: nat where "bf_size = 16384"

definition message_add ::
    "string option \<Rightarrow> string option \<Rightarrow> string \<Rightarrow> nat \<Rightarrow> message list \<Rightarrow> message list option" where
  "message_add so opt file lineno ms =
     do { t \<leftarrow> so;
          e \<leftarrow> escape t bf_size;
          Some (case mesage_find e ms of
                  Some m \<Rightarrow> update_first (\<lambda>m. msg_text m = e) (message_add_file_line file lineno) ms
                | None \<Rightarrow> message_new e opt file lineno # ms) }"

text \<open>The walk; the fuel bounds its depth and the lengths of the lists.\<close>

definition entry_file :: "kstate \<Rightarrow> nat \<Rightarrow> string" where
  "entry_file st m = (case menu_file (menus st m) of None \<Rightarrow> ''Root Menu'' | Some f \<Rightarrow> file_name (kfiles st f))"

definition add_entry_texts :: "kstate \<Rightarrow> nat \<Rightarrow> message list \<Rightarrow> message list option" where
  "add_entry_texts st m ms =
     do { ms1 \<leftarrow> message_add (menu_get_prompt m st) None (entry_file st m) (menu_lineno (menus st m)) ms;
          case menu_sym (menus st m) of
            None \<Rightarrow> Some ms1
          | Some s \<Rightarrow>
              if menu_has_help m st
              then message_add (Some (menu_get_help m st)) (sym_name (syms st s)) (entry_file st m)
                     (menu_lineno (menus st m)) ms1
              else Some ms1 }"

fun menu_build_message_list :: "nat \<Rightarrow> kstate \<Rightarrow> nat \<Rightarrow> message list \<Rightarrow> message list option"
  and build_children :: "nat \<Rightarrow> kstate \<Rightarrow> nat option \<Rightarrow> message list \<Rightarrow> message list option" where
  "menu_build_message_list 0 st m ms = None"
| "menu_build_message_list (Suc n) st m ms =
     do { ms1 \<leftarrow> add_entry_texts st m ms; build_children n st (menu_list (menus st m)) ms1 }"
| "build_children n st None ms = Some ms"
| "build_children 0 st (Some child) ms = None"
| "build_children (Suc n) st (Some child) ms =
     do { ms1 \<leftarrow> (if menu_prompt (menus st child) \<noteq> None then menu_build_message_list n st child ms else Some ms);
          build_children n st (menu_next (menus st child)) ms1 }"

subsection \<open>The catalogue\<close>

definition print_file_line :: "file_line \<Rightarrow> string" where
  "print_file_line fl = fl_file fl @ '':'' @ sprintf_d (int (fl_lineno fl))"

text \<open>The first place is followed through a pointer without a test; a message has one.\<close>

definition message_print_file_lineno :: "message \<Rightarrow> string option" where
  "message_print_file_lineno m =
     (case msg_files m of
        [] \<Rightarrow> None
      | fl # fls \<Rightarrow>
          Some (newline_string @
            (case msg_option m of None \<Rightarrow> [] | Some opt \<Rightarrow> ''# '' @ opt @ '':00000'' @ newline_string) @
            ''#: '' @ print_file_line fl @ concat (map (\<lambda>x. '', '' @ print_file_line x) fls) @ newline_string))"

definition message_print_gettext_msgid_msgstr :: "message \<Rightarrow> string option" where
  "message_print_gettext_msgid_msgstr m =
     do { h \<leftarrow> message_print_file_lineno m;
          Some (h @ ''msgid '' @ msg_text m @ newline_string @ ''msgstr '' @ [quote, quote] @ newline_string) }"

text \<open>\<^verbatim>\<open>sizeof("\"\"")\<close> is 3: the two quotes and the zero byte.\<close>

fun menu_xgettext :: "message list \<Rightarrow> string option" where
  "menu_xgettext [] = Some []"
| "menu_xgettext (m # ms) =
     do { t \<leftarrow> (if 3 < length (msg_text m) then message_print_gettext_msgid_msgstr m else Some []);
          u \<leftarrow> menu_xgettext ms;
          Some (t @ u) }"

text \<open>\<open>main\<close> behind the parser.\<close>

definition kxgettext :: "kstate \<Rightarrow> string option" where
  "kxgettext st =
     do { ms \<leftarrow> menu_build_message_list (2 * next_menu st + 2) st (menu_get_root_menu 0) [];
          menu_xgettext ms }"

subsection \<open>Reading the literals back\<close>

text \<open>
  The strings of a message catalogue: quoted pieces, which are joined, with the escapes for a
  newline, a quote and a backslash.
\<close>

fun po_out :: "string \<Rightarrow> string option" and po_in :: "string \<Rightarrow> string option" where
  "po_out [] = Some []"
| "po_out (c # r) = (if c = quote then po_in r else if c = newline then po_out r else None)"
| "po_in [] = None"
| "po_in (c # r) =
     (if c = quote then po_out r
      else if c = newline then None
      else if c = backslash then
        (case r of
           [] \<Rightarrow> None
         | d # s \<Rightarrow>
             if d = CHR ''n'' then map_option (Cons newline) (po_in s)
             else if d = quote \<or> d = backslash then map_option (Cons d) (po_in s) else None)
      else map_option (Cons c) (po_in r))"

definition lit :: "char \<Rightarrow> string" where
  "lit c = (if c = newline then [backslash, CHR ''n'', quote, newline, quote]
            else if c = quote \<or> c = backslash then [backslash, c] else [c])"

lemma lit_length: "length (lit c) \<le> 5"
  by (simp add: lit_def)

lemma escape_loop_lit:
  "length bf + 5 * length t \<le> size0 \<Longrightarrow> 6 * int (length t) + 2 \<le> len \<Longrightarrow>
   escape_loop size0 t bf len = Some (bf @ concat (map lit t))"
proof (induction t arbitrary: bf len)
  case (Cons c t)
  let ?k = "if c = newline then 6 else if c = backslash then 2 else 1 :: int"
  have "escape_loop size0 (c # t) bf len = escape_loop size0 t (bf @ lit c) (len - ?k)"
    using Cons.prems by (auto simp: lit_def put_def newline_def)
  also have "\<dots> = Some ((bf @ lit c) @ concat (map lit t))"
    by (rule Cons.IH) (use Cons.prems lit_length[of c] in auto)
  finally show ?case by simp
qed simp

lemma po_in_lit: "po_in (concat (map lit t) @ r) = map_option ((@) t) (po_in r)"
  by (induction t) (auto simp: lit_def newline_def option.map_comp o_def option.map_ident)

text \<open>What \<open>escape\<close> gives for a text that has room.\<close>

definition literal :: "string \<Rightarrow> string" where
  "literal t =
     quote # (if newline \<in> set t then [quote, newline, quote] else []) @
     (if newline \<in> set t \<and> last t = newline then concat (map lit (butlast t)) @ [backslash, CHR ''n'']
      else concat (map lit t)) @ [quote]"

lemma escape_literal:
  assumes "6 * length t + 6 \<le> size0"
  shows "escape t size0 = Some (literal t)"
proof -
  have L: "length (concat (map lit u)) \<le> 5 * length u" for u
    by (induction u) (use lit_length in \<open>auto intro: add_mono\<close>)
  have "concat (map lit t) = concat (map lit (butlast t)) @ [backslash, CHR ''n''] @ [quote, newline, quote]"
    if "t \<noteq> []" "last t = newline"
    using that by (cases t rule: rev_cases) (simp_all add: lit_def)
  then show ?thesis
    using assms L[of t]
    by (auto simp: escape_def Let_def put_def literal_def escape_loop_lit)
qed

lemma po_literal: "po_out (literal t) = Some t"
proof (cases "newline \<in> set t \<and> last t = newline")
  case True
  then have "butlast t @ [newline] = t" by (metis append_butlast_last_id empty_iff list.set(1))
  with True show ?thesis by (simp add: literal_def po_in_lit newline_def)
next
  case False
  then show ?thesis by (auto simp: literal_def po_in_lit newline_def)
qed

text \<open>
  C27.  The literal in the message catalogue stands for the text: for every text that leaves room
  in the buffer, \<open>escape\<close> gives a literal that reads back as exactly that text, whether it has one line
  or many and whether or not it ends with a newline.
\<close>

theorem escape_reads_back:
  assumes "6 * length t + 6 \<le> size0"
  shows "\<exists>e. escape t size0 = Some e \<and> po_out e = Some t"
  using escape_literal[OF assms] po_literal by blast

lemma escape_reads_back_witness:
  "\<exists>e. escape [CHR ''a'', newline, quote, backslash, newline] 64 = Some e \<and>
     po_out e = Some [CHR ''a'', newline, quote, backslash, newline]"
  by (rule escape_reads_back) simp

text \<open>
  A quote takes two bytes in the buffer and only one of the room that is counted.
\<close>

lemma escape_loop_overflow:
  "length bf \<le> size0 \<Longrightarrow> size0 < length bf + 2 * n \<Longrightarrow> int size0 - int (length bf) + 4 \<le> 2 * len \<Longrightarrow>
   escape_loop size0 (replicate n quote) bf len = None"
proof (induction n arbitrary: bf len)
  case (Suc n)
  then show ?case
  proof (cases "length bf + 2 \<le> size0")
    case True
    then show ?thesis using Suc.prems Suc.IH[of "bf @ [backslash, quote]" "len - 1"] by (simp add: put_def)
  qed (use Suc in \<open>simp add: put_def\<close>)
qed simp

text \<open>
  The room in the buffer is counted wrong: a text of 8192 quotes or more makes \<open>message__add\<close> write
  behind the end of its buffer of 16384 bytes, although the loop is bounded by the room that is left.
\<close>

theorem quotes_overflow:
  assumes "8192 \<le> n"
  shows "message_add (Some (replicate n quote)) opt file lineno ms = None"
proof -
  have "escape_loop bf_size (replicate n quote) [quote] (int bf_size - 1) = None"
    using assms by (intro escape_loop_overflow) (simp_all add: bf_size_def)
  moreover have "newline \<notin> set (replicate n quote)" by (simp add: newline_def)
  moreover have "newline \<noteq> quote" by (simp add: newline_def)
  moreover have "put bf_size [] [quote] = Some [quote]" by (simp add: put_def bf_size_def)
  ultimately have "escape (replicate n quote) bf_size = None"
    unfolding escape_def Let_def by simp
  then show ?thesis by (simp add: message_add_def)
qed

lemma quotes_overflow_witness: "message_add (Some (replicate 9000 quote)) None ''Kconfig'' 1 [] = None"
  by (rule quotes_overflow) simp

subsection \<open>The messages of a menu tree\<close>

text \<open>A text at a place, with the name of the symbol it is the help of.\<close>

record occurrence =
  oc_text :: "string option"
  oc_option :: "string option"
  oc_place :: file_line

definition add_occurrence :: "occurrence \<Rightarrow> message list \<Rightarrow> message list option" where
  "add_occurrence oc ms = message_add (oc_text oc) (oc_option oc) (fl_file (oc_place oc)) (fl_lineno (oc_place oc)) ms"

fun add_occurrences :: "occurrence list \<Rightarrow> message list \<Rightarrow> message list option" where
  "add_occurrences [] ms = Some ms"
| "add_occurrences (oc # os) ms = Option.bind (add_occurrence oc ms) (add_occurrences os)"

lemma add_occurrences_append:
  "add_occurrences (xs @ ys) ms = Option.bind (add_occurrences xs ms) (add_occurrences ys)"
  by (induction xs arbitrary: ms) (auto simp: bind_assoc split: bind_split)

definition place_of :: "kstate \<Rightarrow> nat \<Rightarrow> file_line" where
  "place_of st m = \<lparr>fl_file = entry_file st m, fl_lineno = menu_lineno (menus st m)\<rparr>"

definition texts_of :: "kstate \<Rightarrow> nat \<Rightarrow> occurrence list" where
  "texts_of st m =
     \<lparr>oc_text = menu_get_prompt m st, oc_option = None, oc_place = place_of st m\<rparr> #
     (case menu_sym (menus st m) of
        None \<Rightarrow> []
      | Some s \<Rightarrow>
          if menu_has_help m st
          then [\<lparr>oc_text = menu_help (menus st m), oc_option = sym_name (syms st s), oc_place = place_of st m\<rparr>]
          else [])"

fun tree_texts :: "kstate \<Rightarrow> mtree list \<Rightarrow> occurrence list" where
  "tree_texts st [] = []"
| "tree_texts st (Entry m cs # ts) =
     (if menu_has_prompt m st then texts_of st m @ tree_texts st cs else []) @ tree_texts st ts"

lemma add_entry_texts_occurrences: "add_entry_texts st m ms = add_occurrences (texts_of st m) ms"
  by (auto simp: add_entry_texts_def texts_of_def place_of_def add_occurrence_def menu_has_help_def menu_get_help_def
      split: option.splits bind_splits)

lemma build_children_occurrences:
  "seg (menus st) par p ts None \<Longrightarrow> 2 * length (pre_list ts) \<le> n \<Longrightarrow>
   build_children n st p = add_occurrences (tree_texts st ts)"
proof (induction ts arbitrary: par p n rule: mtrees_induct)
  case (Cons m cs ts)
  obtain k where n: "n = Suc (Suc k)" "2 * length (pre_list cs) \<le> k" "2 * length (pre_list ts) \<le> Suc k"
    using Cons.prems(2) by (cases n; cases "n - 1") auto
  have p: "p = Some m" "seg (menus st) (Some m) (menu_list (menus st m)) cs None"
    "seg (menus st) par (menu_next (menus st m)) ts None"
    using Cons.prems(1) by simp_all
  show ?case
    by (rule ext)
      (simp add: n(1) p(1) Cons.IH(1)[OF p(2) n(2)] Cons.IH(2)[OF p(3) n(3)] menu_has_prompt_def
        add_occurrences_append add_entry_texts_occurrences bind_assoc)
qed (simp add: fun_eq_iff)

definition all_texts :: "kstate \<Rightarrow> mtree list \<Rightarrow> occurrence list" where
  "all_texts st ts = texts_of st rootmenu @ tree_texts st ts"

lemma build_occurrences:
  assumes "menu_tree st ts"
  shows "menu_build_message_list (2 * next_menu st + 2) st rootmenu ms = add_occurrences (all_texts st ts) ms"
proof -
  have "build_children (Suc (2 * next_menu st)) st (menu_list (menus st rootmenu)) = add_occurrences (tree_texts st ts)"
    using assms menu_tree_length[OF assms] unfolding menu_tree_def
    by (intro build_children_occurrences[of st "Some rootmenu"]) auto
  then show ?thesis
    by (simp add: all_texts_def add_occurrences_append add_entry_texts_occurrences)
qed

text \<open>
  \<open>listed os ms\<close>: the list has one message for each text of \<open>os\<close> and no other, with the places
  of the text from the last one on.
\<close>

definition places :: "occurrence list \<Rightarrow> string \<Rightarrow> file_line list" where
  "places os t = rev (map oc_place (filter (\<lambda>oc. oc_text oc = Some t) os))"

definition listed :: "occurrence list \<Rightarrow> message list \<Rightarrow> bool" where
  "listed os ms \<longleftrightarrow>
     distinct (map msg_text ms) \<and>
     (\<forall>m\<in>set ms. \<exists>t. msg_text m = literal t \<and> places os t \<noteq> [] \<and> msg_files m = places os t) \<and>
     (\<forall>oc\<in>set os. \<exists>m\<in>set ms. map_option literal (oc_text oc) = Some (msg_text m))"

lemma literal_inj: "literal t = literal u \<longleftrightarrow> t = u"
proof
  assume "literal t = literal u"
  then have "po_out (literal t) = po_out (literal u)" by (rule arg_cong)
  then show "t = u" unfolding po_literal by simp
qed simp

lemma update_first_map: "(\<And>x. g (f x) = g x) \<Longrightarrow> map g (update_first P f xs) = map g xs"
  by (induction xs) simp_all

lemma update_first_set:
  "distinct (map g xs) \<Longrightarrow> set (update_first (\<lambda>x. g x = a) f xs) = (\<lambda>x. if g x = a then f x else x) ` set xs"
  by (induction xs) (auto simp: image_iff)

lemma places_snoc: "places (os @ [oc]) t = (if oc_text oc = Some t then [oc_place oc] else []) @ places os t"
  by (simp add: places_def)

lemma listed_add:
  assumes "listed os ms" "oc_text oc = Some t" "6 * length t + 6 \<le> bf_size"
  shows "\<exists>ms'. add_occurrence oc ms = Some ms' \<and> listed (os @ [oc]) ms'"
proof (cases "mesage_find (literal t) ms")
  case None
  have new: "\<And>m. m \<in> set ms \<Longrightarrow> msg_text m \<noteq> literal t"
    using None by (auto simp: mesage_find_def find_None_iff)
  have none: "places os t = []"
    using assms(1) new unfolding listed_def places_def by (fastforce simp: filter_empty_conv)
  let ?n = "message_new (literal t) (oc_option oc) (fl_file (oc_place oc)) (fl_lineno (oc_place oc))"
  have n: "msg_text ?n = literal t" "msg_files ?n = [oc_place oc]" by (simp_all add: message_new_def)
  have "listed (os @ [oc]) (?n # ms)"
    unfolding listed_def
  proof (intro conjI ballI)
    show "distinct (map msg_text (?n # ms))" using assms(1) new n(1) by (auto simp: listed_def)
  next
    fix x assume x: "x \<in> set (?n # ms)"
    show "\<exists>u. msg_text x = literal u \<and> places (os @ [oc]) u \<noteq> [] \<and> msg_files x = places (os @ [oc]) u"
    proof (cases "x = ?n")
      case True
      then show ?thesis using assms(2) n none by (intro exI[of _ t]) (simp add: places_snoc)
    next
      case False
      then have "x \<in> set ms" using x by simp
      then obtain u where "msg_text x = literal u" "places os u \<noteq> []" "msg_files x = places os u" "u \<noteq> t"
        using assms(1) new unfolding listed_def by metis
      then show ?thesis using assms(2) by (intro exI[of _ u]) (simp add: places_snoc)
    qed
  next
    fix x assume "x \<in> set (os @ [oc])"
    then show "\<exists>y\<in>set (?n # ms). map_option literal (oc_text x) = Some (msg_text y)"
      using assms(1,2) n(1) unfolding listed_def by auto
  qed
  then show ?thesis using None assms(2) escape_literal[OF assms(3)] by (simp add: add_occurrence_def message_add_def)
next
  case (Some m)
  let ?f = "message_add_file_line (fl_file (oc_place oc)) (fl_lineno (oc_place oc))"
  let ?ms = "update_first (\<lambda>m. msg_text m = literal t) ?f ms"
  have m: "m \<in> set ms" "msg_text m = literal t"
    using Some by (auto simp: mesage_find_def find_Some_iff)
  have f: "msg_text (?f x) = msg_text x" "msg_files (?f x) = oc_place oc # msg_files x" for x
    by (simp_all add: message_add_file_line_def)
  have s: "set ?ms = (\<lambda>x. if msg_text x = literal t then ?f x else x) ` set ms"
    by (rule update_first_set) (use assms(1) in \<open>simp add: listed_def\<close>)
  have "listed (os @ [oc]) ?ms"
    unfolding listed_def
  proof (intro conjI ballI)
    show "distinct (map msg_text ?ms)" using assms(1) by (simp add: update_first_map f listed_def)
  next
    fix x assume "x \<in> set ?ms"
    then obtain y where y: "y \<in> set ms" "x = (if msg_text y = literal t then ?f y else y)" unfolding s by auto
    then obtain u where "msg_text y = literal u" "places os u \<noteq> []" "msg_files y = places os u"
      using assms(1) unfolding listed_def by blast
    then show "\<exists>u. msg_text x = literal u \<and> places (os @ [oc]) u \<noteq> [] \<and> msg_files x = places (os @ [oc]) u"
      using y(2) f assms(2) by (intro exI[of _ u]) (auto simp: places_snoc literal_inj)
  next
    fix x assume "x \<in> set (os @ [oc])"
    then consider "x = oc" | "x \<in> set os" by auto
    then obtain y where "y \<in> set ms" "map_option literal (oc_text x) = Some (msg_text y)"
      using m assms(1,2) unfolding listed_def by cases auto
    then show "\<exists>y\<in>set ?ms. map_option literal (oc_text x) = Some (msg_text y)"
      unfolding s using f(1) by (intro bexI[of _ "if msg_text y = literal t then ?f y else y"]) auto
  qed
  then show ?thesis using Some assms(2) escape_literal[OF assms(3)] by (simp add: add_occurrence_def message_add_def)
qed

lemma listed_prints: "listed os ms \<Longrightarrow> menu_xgettext ms \<noteq> None"
proof -
  have "\<forall>m\<in>set ms. msg_files m \<noteq> [] \<Longrightarrow> menu_xgettext ms \<noteq> None"
    by (induction ms)
      (auto simp: message_print_gettext_msgid_msgstr_def message_print_file_lineno_def bind_eq_Some_conv split: list.split)
  then show "listed os ms \<Longrightarrow> menu_xgettext ms \<noteq> None" unfolding listed_def by metis
qed

definition fits :: "occurrence \<Rightarrow> bool" where
  "fits oc \<longleftrightarrow> (\<exists>t. oc_text oc = Some t \<and> 6 * length t + 6 \<le> bf_size)"

lemma listed_all:
  "listed os ms \<Longrightarrow> \<forall>oc\<in>set xs. fits oc \<Longrightarrow> \<exists>ms'. add_occurrences xs ms = Some ms' \<and> listed (os @ xs) ms'"
proof (induction xs arbitrary: os ms)
  case (Cons oc xs)
  obtain t where "oc_text oc = Some t" "6 * length t + 6 \<le> bf_size" using Cons.prems(2) by (auto simp: fits_def)
  from listed_add[OF Cons.prems(1) this] obtain ms1 where "add_occurrence oc ms = Some ms1" "listed (os @ [oc]) ms1" by blast
  then show ?case using Cons.IH[of "os @ [oc]" ms1] Cons.prems(2) by simp
qed simp


text \<open>Two entries with the same prompt as the root, the first of them with a help text.\<close>

definition ex_texts :: kstate where
  "ex_texts = ex_menu_state\<lparr>menus := (\<lambda>_. zero_menu)
     (0 := zero_menu\<lparr>menu_list := Some 1, menu_prompt := Some 9\<rparr>,
      1 := zero_menu\<lparr>menu_parent := Some 0, menu_next := Some 2, menu_sym := Some (Sym 0), menu_prompt := Some 9,
             menu_help := Some ''about'', menu_lineno := 7\<rparr>,
      2 := zero_menu\<lparr>menu_parent := Some 0, menu_prompt := Some 9, menu_lineno := 8\<rparr>)\<rparr>"


text \<open>The test for empty messages also leaves out the texts of one character.\<close>

lemma single_characters_skipped: "c \<noteq> newline \<Longrightarrow> c \<noteq> quote \<Longrightarrow> c \<noteq> backslash \<Longrightarrow>
    escape [c] bf_size = Some [quote, c, quote] \<and> menu_xgettext [message_new [quote, c, quote] opt file lineno] = Some []"
  by (simp add: escape_def put_def bf_size_def message_new_def)

end
