(* ===== verification/Dialog.thy ===== *)
theory Dialog
  imports CLib
begin

text \<open>
  The common part of the dialogs on a terminal (\<^verbatim>\<open>lxdialog/util.c\<close>).  The curses library is outside
  the program: the calls to it are collected in order, and what it answers, the position of the
  cursor and the character on the screen, is a function of the calls so far.  What \<^verbatim>\<open>wgetch\<close> returns
  is a list of keys, each with the size of the screen at that moment.
\<close>

subsection \<open>Actions\<close>

text \<open>
  An action is done, follows a null pointer or leaves a buffer (\<open>Fault\<close>), waits for a key when the
  keys are used up, or has used up the fuel that bounds its loops.
\<close>

datatype ('s, 'a) outcome = Done 'a 's | Fault | Waits | Spent

type_synonym ('s, 'a) act = "'s \<Rightarrow> ('s, 'a) outcome"

definition give :: "'a \<Rightarrow> ('s, 'a) act" where
  "give x s = Done x s"

definition andthen :: "('s, 'a) act \<Rightarrow> ('a \<Rightarrow> ('s, 'b) act) \<Rightarrow> ('s, 'b) act" where
  "andthen p f s = (case p s of Done x t \<Rightarrow> f x t | Fault \<Rightarrow> Fault | Waits \<Rightarrow> Waits | Spent \<Rightarrow> Spent)"

definition fault :: "('s, 'a) act" where "fault s = Fault"

definition spent :: "('s, 'a) act" where "spent s = Spent"

definition peek :: "('s \<Rightarrow> 'a) \<Rightarrow> ('s, 'a) act" where
  "peek f s = Done (f s) s"

definition poke :: "('s \<Rightarrow> 's) \<Rightarrow> ('s, unit) act" where
  "poke f s = Done () (f s)"

definition follow :: "'a option \<Rightarrow> ('s, 'a) act" where
  "follow xo s = (case xo of Some x \<Rightarrow> Done x s | None \<Rightarrow> Fault)"

text \<open>One action after the other.\<close>

fun block :: "('s, unit) act list \<Rightarrow> ('s, unit) act" where
  "block [] = give ()"
| "block (p # ps) = andthen p (\<lambda>_. block ps)"

definition loop_to :: "int \<Rightarrow> (int \<Rightarrow> ('s, unit) act) \<Rightarrow> ('s, unit) act" where
  "loop_to n body = block (map body [0..n - 1])"

lemmas act_defs = give_def andthen_def fault_def spent_def peek_def poke_def follow_def

subsection \<open>The terminal\<close>

datatype attr = A_NORMAL | A_BOLD | A_REVERSE | A_DIM | COLOR_PAIR nat | BOLD_PAIR nat

datatype color = COLOR_BLACK | COLOR_RED | COLOR_GREEN | COLOR_YELLOW | COLOR_BLUE | COLOR_CYAN | COLOR_WHITE

record dialog_color =
  atr :: attr
  fg :: color
  bg :: color
  hl :: bool

text \<open>A dialog has a window of its own and at most one window inside it.\<close>

datatype win = stdscr | dialog_win | inner_win

datatype glyph = Ch char | ACS_ULCORNER | ACS_URCORNER | ACS_LLCORNER | ACS_LRCORNER | ACS_HLINE | ACS_VLINE
  | ACS_LTEE | ACS_RTEE | ACS_UARROW | ACS_DARROW

text \<open>
  \<open>Waddch w (Some a) g\<close> is \<^verbatim>\<open>waddch(w, a | g)\<close>, and \<open>Wbkgdset w a\<close> takes the colour of \<open>a\<close>.
\<close>

datatype draw = Initscr | Endwin | Start_color | Init_pair nat color color | Cbreak | Noecho | Refresh | Doupdate | Flash
  | Wattrset win attr | Wbkgdset win attr | Wmove win int int | Waddch win "attr option" glyph | Waddstr win string
  | Wclrtoeol win | Touchwin win | Wrefresh win | Wnoutrefresh win | Nodelay win bool | Keypad win bool
  | Newwin win int int int int | Delwin win | Scrollok win bool | Wscrl win int

text \<open>What the curses library answers.\<close>

record curses =
  has_colors :: bool
  cursor :: "draw list \<Rightarrow> win \<Rightarrow> int \<times> int"
  char_at :: "draw list \<Rightarrow> win \<Rightarrow> glyph"

text \<open>
  The items of a list; the pointer \<^verbatim>\<open>item_cur\<close> is null, \<^verbatim>\<open>&item_nil\<close> or one of the items.  The data of
  an item is a pointer to a menu entry.
\<close>

record dialog_item =
  it_str :: string
  it_tag :: char
  it_data :: "nat option"
  it_selected :: bool

datatype item_ptr = Null_item | Nil_item | Item nat

record ui =
  dlg :: "string \<Rightarrow> dialog_color"
  backtitle :: "string option"
  color_pairs :: nat
  drawn :: "draw list"
  LINES :: int
  COLS :: int
  key_list :: "(int \<times> int \<times> int) list"
  items :: "dialog_item list"
  item_cur :: item_ptr
  item_nil :: dialog_item
  input_result :: string

type_synonym 'a ui_act = "(ui, 'a) act"

definition draw :: "draw \<Rightarrow> unit ui_act" where
  "draw d = poke (\<lambda>u. u\<lparr>drawn := drawn u @ [d]\<rparr>)"

definition attrset :: "win \<Rightarrow> string \<Rightarrow> unit ui_act" where
  "attrset w name = andthen (peek dlg) (\<lambda>d. draw (Wattrset w (atr (d name))))"

definition addch :: "win \<Rightarrow> glyph \<Rightarrow> unit ui_act" where
  "addch w g = draw (Waddch w None g)"

definition wmove :: "win \<Rightarrow> int \<Rightarrow> int \<Rightarrow> unit ui_act" where
  "wmove w y x = draw (Wmove w y x)"

definition addstr :: "win \<Rightarrow> string \<Rightarrow> unit ui_act" where
  "addstr w s = draw (Waddstr w s)"

definition getyx :: "curses \<Rightarrow> win \<Rightarrow> (int \<times> int) ui_act" where
  "getyx cz w = peek (\<lambda>u. cursor cz (drawn u) w)"

text \<open>The keys, as curses numbers them, and the key that is read next.\<close>

definition KEY_ESC :: int where "KEY_ESC = 27"
definition TAB :: int where "TAB = 9"
definition KEY_DOWN :: int where "KEY_DOWN = 258"
definition KEY_UP :: int where "KEY_UP = 259"
definition KEY_LEFT :: int where "KEY_LEFT = 260"
definition KEY_RIGHT :: int where "KEY_RIGHT = 261"
definition KEY_HOME :: int where "KEY_HOME = 262"
definition KEY_BACKSPACE :: int where "KEY_BACKSPACE = 263"
definition KEY_NPAGE :: int where "KEY_NPAGE = 338"
definition KEY_PPAGE :: int where "KEY_PPAGE = 339"
definition KEY_END :: int where "KEY_END = 360"
definition KEY_RESIZE :: int where "KEY_RESIZE = 410"
definition ERR :: int where "ERR = - 1"
definition ERRDISPLAYTOOSMALL :: int where "ERRDISPLAYTOOSMALL = 512"

lemmas key_defs = KEY_ESC_def TAB_def KEY_DOWN_def KEY_UP_def KEY_LEFT_def KEY_RIGHT_def KEY_HOME_def KEY_BACKSPACE_def
  KEY_NPAGE_def KEY_PPAGE_def KEY_END_def KEY_RESIZE_def ERR_def ERRDISPLAYTOOSMALL_def

definition is_key :: "int \<Rightarrow> string \<Rightarrow> bool" where
  "is_key key cs \<longleftrightarrow> key \<in> (\<lambda>c. int (code c)) ` set cs"

definition wgetch :: "win \<Rightarrow> int ui_act" where
  "wgetch w u =
     (case key_list u of
        [] \<Rightarrow> Waits
      | (k, h, l) # r \<Rightarrow> Done k (u\<lparr>key_list := r, LINES := h, COLS := l\<rparr>))"

definition ungetch :: "int \<Rightarrow> unit ui_act" where
  "ungetch k = poke (\<lambda>u. u\<lparr>key_list := (k, LINES u, COLS u) # key_list u\<rparr>)"

subsection \<open>Colours\<close>

definition mono_theme :: "(string \<times> attr) list" where
  "mono_theme =
     [(''screen'', A_NORMAL), (''shadow'', A_NORMAL), (''dialog'', A_NORMAL), (''title'', A_BOLD), (''border'', A_NORMAL),
      (''button_active'', A_REVERSE), (''button_inactive'', A_DIM), (''button_key_active'', A_REVERSE),
      (''button_key_inactive'', A_BOLD), (''button_label_active'', A_REVERSE), (''button_label_inactive'', A_NORMAL),
      (''inputbox'', A_NORMAL), (''inputbox_border'', A_NORMAL), (''searchbox'', A_NORMAL), (''searchbox_title'', A_BOLD),
      (''searchbox_border'', A_NORMAL), (''position_indicator'', A_BOLD), (''menubox'', A_NORMAL),
      (''menubox_border'', A_NORMAL), (''item'', A_NORMAL), (''item_selected'', A_REVERSE), (''tag'', A_BOLD),
      (''tag_selected'', A_REVERSE), (''tag_key'', A_BOLD), (''tag_key_selected'', A_REVERSE), (''check'', A_BOLD),
      (''check_selected'', A_REVERSE), (''uarrow'', A_BOLD), (''darrow'', A_BOLD)]"

definition set_mono_theme :: "(string \<Rightarrow> dialog_color) \<Rightarrow> string \<Rightarrow> dialog_color" where
  "set_mono_theme d = fold (\<lambda>(n, a) e. e(n := (e n)\<lparr>atr := a\<rparr>)) mono_theme d"

definition dlg_color ::
    "string \<Rightarrow> color \<Rightarrow> color \<Rightarrow> bool \<Rightarrow> (string \<Rightarrow> dialog_color) \<Rightarrow> string \<Rightarrow> dialog_color" where
  "dlg_color n f b h d = d(n := (d n)\<lparr>fg := f, bg := b, hl := h\<rparr>)"

definition set_colors ::
    "(string \<times> color \<times> color \<times> bool) list \<Rightarrow> (string \<Rightarrow> dialog_color) \<Rightarrow> string \<Rightarrow> dialog_color" where
  "set_colors cs d = fold (\<lambda>(n, f, b, h). dlg_color n f b h) cs d"

definition set_classic_theme :: "(string \<Rightarrow> dialog_color) \<Rightarrow> string \<Rightarrow> dialog_color" where
  "set_classic_theme = set_colors
     [(''screen'', COLOR_CYAN, COLOR_BLUE, True), (''shadow'', COLOR_BLACK, COLOR_BLACK, True),
      (''dialog'', COLOR_BLACK, COLOR_WHITE, False), (''title'', COLOR_YELLOW, COLOR_WHITE, True),
      (''border'', COLOR_WHITE, COLOR_WHITE, True), (''button_active'', COLOR_WHITE, COLOR_BLUE, True),
      (''button_inactive'', COLOR_BLACK, COLOR_WHITE, False), (''button_key_active'', COLOR_WHITE, COLOR_BLUE, True),
      (''button_key_inactive'', COLOR_RED, COLOR_WHITE, False), (''button_label_active'', COLOR_YELLOW, COLOR_BLUE, True),
      (''button_label_inactive'', COLOR_BLACK, COLOR_WHITE, True), (''inputbox'', COLOR_BLACK, COLOR_WHITE, False),
      (''inputbox_border'', COLOR_BLACK, COLOR_WHITE, False), (''searchbox'', COLOR_BLACK, COLOR_WHITE, False),
      (''searchbox_title'', COLOR_YELLOW, COLOR_WHITE, True), (''searchbox_border'', COLOR_WHITE, COLOR_WHITE, True),
      (''position_indicator'', COLOR_YELLOW, COLOR_WHITE, True), (''menubox'', COLOR_BLACK, COLOR_WHITE, False),
      (''menubox_border'', COLOR_WHITE, COLOR_WHITE, True), (''item'', COLOR_BLACK, COLOR_WHITE, False),
      (''item_selected'', COLOR_WHITE, COLOR_BLUE, True), (''tag'', COLOR_YELLOW, COLOR_WHITE, True),
      (''tag_selected'', COLOR_YELLOW, COLOR_BLUE, True), (''tag_key'', COLOR_YELLOW, COLOR_WHITE, True),
      (''tag_key_selected'', COLOR_YELLOW, COLOR_BLUE, True), (''check'', COLOR_BLACK, COLOR_WHITE, False),
      (''check_selected'', COLOR_WHITE, COLOR_BLUE, True), (''uarrow'', COLOR_GREEN, COLOR_WHITE, True),
      (''darrow'', COLOR_GREEN, COLOR_WHITE, True)]"

definition set_blackbg_theme :: "(string \<Rightarrow> dialog_color) \<Rightarrow> string \<Rightarrow> dialog_color" where
  "set_blackbg_theme = set_colors
     [(''screen'', COLOR_RED, COLOR_BLACK, True), (''shadow'', COLOR_BLACK, COLOR_BLACK, False),
      (''dialog'', COLOR_WHITE, COLOR_BLACK, False), (''title'', COLOR_RED, COLOR_BLACK, False),
      (''border'', COLOR_BLACK, COLOR_BLACK, True),
      (''button_active'', COLOR_YELLOW, COLOR_RED, False), (''button_inactive'', COLOR_YELLOW, COLOR_BLACK, False),
      (''button_key_active'', COLOR_YELLOW, COLOR_RED, True), (''button_key_inactive'', COLOR_RED, COLOR_BLACK, False),
      (''button_label_active'', COLOR_WHITE, COLOR_RED, False), (''button_label_inactive'', COLOR_BLACK, COLOR_BLACK, True),
      (''inputbox'', COLOR_YELLOW, COLOR_BLACK, False), (''inputbox_border'', COLOR_YELLOW, COLOR_BLACK, False),
      (''searchbox'', COLOR_YELLOW, COLOR_BLACK, False), (''searchbox_title'', COLOR_YELLOW, COLOR_BLACK, True),
      (''searchbox_border'', COLOR_BLACK, COLOR_BLACK, True), (''position_indicator'', COLOR_RED, COLOR_BLACK, False),
      (''menubox'', COLOR_YELLOW, COLOR_BLACK, False), (''menubox_border'', COLOR_BLACK, COLOR_BLACK, True),
      (''item'', COLOR_WHITE, COLOR_BLACK, False), (''item_selected'', COLOR_WHITE, COLOR_RED, False),
      (''tag'', COLOR_RED, COLOR_BLACK, False), (''tag_selected'', COLOR_YELLOW, COLOR_RED, True),
      (''tag_key'', COLOR_RED, COLOR_BLACK, False), (''tag_key_selected'', COLOR_YELLOW, COLOR_RED, True),
      (''check'', COLOR_YELLOW, COLOR_BLACK, False), (''check_selected'', COLOR_YELLOW, COLOR_RED, True),
      (''uarrow'', COLOR_RED, COLOR_BLACK, False), (''darrow'', COLOR_RED, COLOR_BLACK, False)]"

definition set_bluetitle_theme :: "(string \<Rightarrow> dialog_color) \<Rightarrow> string \<Rightarrow> dialog_color" where
  "set_bluetitle_theme d = set_colors
     [(''title'', COLOR_BLUE, COLOR_WHITE, True), (''button_key_active'', COLOR_YELLOW, COLOR_BLUE, True),
      (''button_label_active'', COLOR_WHITE, COLOR_BLUE, True), (''searchbox_title'', COLOR_BLUE, COLOR_WHITE, True),
      (''position_indicator'', COLOR_BLUE, COLOR_WHITE, True), (''tag'', COLOR_BLUE, COLOR_WHITE, True),
      (''tag_key'', COLOR_BLUE, COLOR_WHITE, True)] (set_classic_theme d)"

definition set_theme :: "string option \<Rightarrow> bool ui_act" where
  "set_theme theme0 =
     (case theme0 of
        None \<Rightarrow> andthen (poke (\<lambda>u. u\<lparr>dlg := set_bluetitle_theme (dlg u)\<rparr>)) (\<lambda>_. give True)
      | Some t \<Rightarrow>
          if t = ''classic'' then andthen (poke (\<lambda>u. u\<lparr>dlg := set_classic_theme (dlg u)\<rparr>)) (\<lambda>_. give True)
          else if t = ''bluetitle'' then andthen (poke (\<lambda>u. u\<lparr>dlg := set_bluetitle_theme (dlg u)\<rparr>)) (\<lambda>_. give True)
          else if t = ''blackbg'' then andthen (poke (\<lambda>u. u\<lparr>dlg := set_blackbg_theme (dlg u)\<rparr>)) (\<lambda>_. give True)
          else give (t \<noteq> ''mono''))"

definition init_one_color :: "string \<Rightarrow> unit ui_act" where
  "init_one_color n =
     andthen (poke (\<lambda>u. u\<lparr>color_pairs := Suc (color_pairs u)\<rparr>)) (\<lambda>_.
     andthen (peek (\<lambda>u. (color_pairs u, dlg u n))) (\<lambda>(p, c).
     andthen (draw (Init_pair p (fg c) (bg c))) (\<lambda>_.
     poke (\<lambda>u. u\<lparr>dlg := (dlg u)(n := c\<lparr>atr := (if hl c then BOLD_PAIR p else COLOR_PAIR p)\<rparr>)\<rparr>))))"

definition init_dialog_colors :: "unit ui_act" where
  "init_dialog_colors = block (map init_one_color
     [''screen'', ''shadow'', ''dialog'', ''title'', ''border'', ''button_active'', ''button_inactive'',
      ''button_key_active'', ''button_key_inactive'', ''button_label_active'', ''button_label_inactive'', ''inputbox'',
      ''inputbox_border'', ''searchbox'', ''searchbox_title'', ''searchbox_border'', ''position_indicator'', ''menubox'',
      ''menubox_border'', ''item'', ''item_selected'', ''tag'', ''tag_selected'', ''tag_key'', ''tag_key_selected'',
      ''check'', ''check_selected'', ''uarrow'', ''darrow''])"

definition color_setup :: "curses \<Rightarrow> string option \<Rightarrow> unit ui_act" where
  "color_setup cz theme0 =
     andthen (set_theme theme0) (\<lambda>use_color.
     if use_color \<and> has_colors cz then block [draw Start_color, init_dialog_colors]
     else poke (\<lambda>u. u\<lparr>dlg := set_mono_theme (dlg u)\<rparr>))"

subsection \<open>The screen\<close>

definition attr_clear :: "win \<Rightarrow> int \<Rightarrow> int \<Rightarrow> attr \<Rightarrow> unit ui_act" where
  "attr_clear w height width a =
     block
       [draw (Wattrset w a),
        loop_to height (\<lambda>i. block [wmove w i 0, loop_to width (\<lambda>j. addch w (Ch (CHR '' '')))]),
        draw (Touchwin w)]"

definition dialog_clear :: "unit ui_act" where
  "dialog_clear =
     andthen (peek id) (\<lambda>u.
     block
       [attr_clear stdscr (LINES u) (COLS u) (atr (dlg u ''screen'')),
        (case backtitle u of
           None \<Rightarrow> give ()
         | Some t \<Rightarrow>
             block
               [attrset stdscr ''screen'', wmove stdscr 0 1, addstr stdscr t, wmove stdscr 1 1,
                block (map (\<lambda>i. addch stdscr ACS_HLINE) [1..COLS u - 2])]),
        draw (Wnoutrefresh stdscr)])"

text \<open>\<open>theme\<close> is the environment variable \<^verbatim>\<open>MENUCONFIG_COLOR\<close>.\<close>

definition init_dialog :: "curses \<Rightarrow> string option \<Rightarrow> string option \<Rightarrow> int ui_act" where
  "init_dialog cz theme0 title =
     andthen (draw Initscr) (\<lambda>_.
     andthen (peek id) (\<lambda>u.
     if LINES u < 19 \<or> COLS u < 80 then andthen (draw Endwin) (\<lambda>_. give (- ERRDISPLAYTOOSMALL))
     else
       andthen (block
         [poke (\<lambda>u. u\<lparr>backtitle := title\<rparr>), color_setup cz theme0, draw (Keypad stdscr True), draw Cbreak,
          draw Noecho, dialog_clear]) (\<lambda>_.
       give 0)))"

definition set_dialog_backtitle :: "string \<Rightarrow> unit ui_act" where
  "set_dialog_backtitle title = poke (\<lambda>u. u\<lparr>backtitle := Some title\<rparr>)"

definition end_dialog :: "int \<Rightarrow> int \<Rightarrow> unit ui_act" where
  "end_dialog x y = block [wmove stdscr y x, draw Refresh, draw Endwin]"

text \<open>Half of a number, rounded towards zero as in C.\<close>

definition half :: "int \<Rightarrow> int" where
  "half n = (if 0 \<le> n then n div 2 else - (- n div 2))"

text \<open>\<^verbatim>\<open>MIN(width - 2, strlen(title))\<close> compares unsigned numbers.\<close>

definition print_title :: "win \<Rightarrow> string option \<Rightarrow> int \<Rightarrow> unit ui_act" where
  "print_title w title width =
     (case title of
        None \<Rightarrow> give ()
      | Some t \<Rightarrow>
          let tlen = (if 0 \<le> width - 2 \<and> width - 2 < int (length t) then width - 2 else int (length t)) in
          block
            [attrset w ''title'', wmove w 0 (half (width - tlen) - 1), addch w (Ch (CHR '' '')),
             wmove w 0 (half (width - tlen)), addstr w (take (nat tlen) t), addch w (Ch (CHR '' ''))])"

text \<open>
  \<open>s\<close> is the text from \<^verbatim>\<open>word\<close> on; the fuel bounds its length.  When \<open>room\<close> is negative the word is too
  long for it, so that the unsigned comparison of the code does not matter.
\<close>

definition MAX_LEN :: nat where "MAX_LEN = 2048"

definition wraps :: "bool \<Rightarrow> string \<Rightarrow> string option \<Rightarrow> int \<Rightarrow> bool" where
  "wraps newl word sp room \<longleftrightarrow>
     room < int (length word) \<or>
     newl \<and> length word < 4 \<and>
     (case sp of
        None \<Rightarrow> False
      | Some r \<Rightarrow>
          room < int (length word) + 1 + int (length r) \<and>
          (case strchr r (CHR '' '') of None \<Rightarrow> True | Some k \<Rightarrow> room < int (length word) + 1 + int k))"

definition split_word :: "string \<Rightarrow> string \<times> string option" where
  "split_word s =
     (let word = takeWhile (\<lambda>c. c \<noteq> CHR '' '') s in
      (word, if CHR '' '' \<in> set s then Some (drop (Suc (length word)) s) else None))"

fun autowrap_loop ::
    "nat \<Rightarrow> curses \<Rightarrow> win \<Rightarrow> int \<Rightarrow> int \<Rightarrow> bool \<Rightarrow> int \<Rightarrow> int \<Rightarrow> string \<Rightarrow> unit ui_act" where
  "autowrap_loop n cz w width x newl cur_y cur_x [] = give ()"
| "autowrap_loop 0 cz w width x newl cur_y cur_x (c # r) = spent"
| "autowrap_loop (Suc n) cz w width x newl cur_y cur_x (c # r) =
     (let (word, sp) = split_word (c # r);
          (y1, x1) = (if wraps newl word sp (width - cur_x) then (cur_y + 1, x) else (cur_y, cur_x)) in
      andthen (block [wmove w y1 x1, addstr w word]) (\<lambda>_.
      andthen (getyx cz w) (\<lambda>(y2, x2).
      case sp of
        None \<Rightarrow> give ()
      | Some s \<Rightarrow>
          if take 1 s = '' '' then autowrap_loop n cz w width x True y2 (x2 + 2) (dropWhile (\<lambda>c. c = CHR '' '') s)
          else autowrap_loop n cz w width x False y2 (x2 + 1) s)))"

definition print_autowrap :: "curses \<Rightarrow> win \<Rightarrow> string \<Rightarrow> int \<Rightarrow> int \<Rightarrow> int \<Rightarrow> unit ui_act" where
  "print_autowrap cz w prompt width y x =
     (if MAX_LEN < length prompt then fault
      else
        let tempstr = map (\<lambda>c. if c = newline then CHR '' '' else c) prompt; prompt_len = int (length prompt) in
        if prompt_len \<le> width - x * 2
        then block [wmove w y (half (width - prompt_len)), addstr w tempstr]
        else autowrap_loop (length tempstr) cz w width x True y x tempstr)"

definition print_button :: "win \<Rightarrow> string \<Rightarrow> int \<Rightarrow> int \<Rightarrow> bool \<Rightarrow> unit ui_act" where
  "print_button w label y x selected =
     (let temp = takeWhile (\<lambda>c. c = CHR '' '') label in
      case drop (length temp) label of
        [] \<Rightarrow> fault
      | c # r \<Rightarrow>
          block
            [wmove w y x, attrset w (if selected then ''button_active'' else ''button_inactive''), addstr w ''<'',
             attrset w (if selected then ''button_label_active'' else ''button_label_inactive''),
             block (map (\<lambda>t. addch w (Ch (CHR '' ''))) temp),
             attrset w (if selected then ''button_key_active'' else ''button_key_inactive''), addch w (Ch c),
             attrset w (if selected then ''button_label_active'' else ''button_label_inactive''), addstr w r,
             attrset w (if selected then ''button_active'' else ''button_inactive''), addstr w ''>'',
             wmove w y (x + int (length temp) + 1)])"

definition box_cell :: "win \<Rightarrow> int \<Rightarrow> int \<Rightarrow> attr \<Rightarrow> attr \<Rightarrow> int \<Rightarrow> int \<Rightarrow> unit ui_act" where
  "box_cell w height width box border i j =
     draw (if i = 0 \<and> j = 0 then Waddch w (Some border) ACS_ULCORNER
           else if i = height - 1 \<and> j = 0 then Waddch w (Some border) ACS_LLCORNER
           else if i = 0 \<and> j = width - 1 then Waddch w (Some box) ACS_URCORNER
           else if i = height - 1 \<and> j = width - 1 then Waddch w (Some box) ACS_LRCORNER
           else if i = 0 then Waddch w (Some border) ACS_HLINE
           else if i = height - 1 then Waddch w (Some box) ACS_HLINE
           else if j = 0 then Waddch w (Some border) ACS_VLINE
           else if j = width - 1 then Waddch w (Some box) ACS_VLINE
           else Waddch w (Some box) (Ch (CHR '' '')))"

text \<open>\<open>box\<close> and \<open>border\<close> are the names of the attributes.\<close>

definition draw_box :: "win \<Rightarrow> int \<Rightarrow> int \<Rightarrow> int \<Rightarrow> int \<Rightarrow> string \<Rightarrow> string \<Rightarrow> unit ui_act" where
  "draw_box w y x height width box border =
     andthen (peek dlg) (\<lambda>d.
     block
       [draw (Wattrset w A_NORMAL),
        loop_to height (\<lambda>i. block
          [wmove w (y + i) x, loop_to width (box_cell w height width (atr (d box)) (atr (d border)) i)])])"

definition copy_cell :: "curses \<Rightarrow> win \<Rightarrow> unit ui_act" where
  "copy_cell cz w = andthen (peek (\<lambda>u. char_at cz (drawn u) w)) (\<lambda>g. addch w g)"

definition draw_shadow :: "curses \<Rightarrow> win \<Rightarrow> int \<Rightarrow> int \<Rightarrow> int \<Rightarrow> int \<Rightarrow> unit ui_act" where
  "draw_shadow cz w y x height width =
     (if has_colors cz then
        block
          [attrset w ''shadow'', wmove w (y + height) (x + 2), loop_to width (\<lambda>i. copy_cell cz w),
           block (map (\<lambda>i. block [wmove w i (x + width), copy_cell cz w, copy_cell cz w]) [y + 1..y + height]),
           draw (Wnoutrefresh w)]
      else give ())"

definition isalpha :: "char \<Rightarrow> bool" where
  "isalpha c \<longleftrightarrow> isupper c \<or> islower c"

text \<open>A plain \<^verbatim>\<open>char\<close> as a number is signed.\<close>

definition char_num :: "char \<Rightarrow> int" where
  "char_num c = (if 128 \<le> code c then int (code c) - 256 else int (code c))"

fun first_alpha_from :: "nat \<Rightarrow> nat \<Rightarrow> string \<Rightarrow> string \<Rightarrow> nat" where
  "first_alpha_from i in_paren [] exempt = 0"
| "first_alpha_from i in_paren (c0 # s) exempt =
     (let c = tolower c0;
          p1 = (if c \<in> set ''<[('' then Suc in_paren else in_paren);
          p2 = (if c \<in> set ''>])'' \<and> 0 < p1 then p1 - 1 else p1) in
      if p2 = 0 \<and> isalpha c \<and> c \<notin> set exempt then i else first_alpha_from (Suc i) p2 s exempt)"

definition first_alpha :: "string \<Rightarrow> string \<Rightarrow> nat" where
  "first_alpha s exempt = first_alpha_from 0 0 s exempt"

text \<open>The keys behind \<^verbatim>\<open>ESC\<close>: all that have come are read, up to \<open>ERR\<close>.\<close>

fun skip_keys :: "nat \<Rightarrow> win \<Rightarrow> unit ui_act" where
  "skip_keys 0 w = spent"
| "skip_keys (Suc n) w = andthen (wgetch w) (\<lambda>key3. if key3 \<noteq> ERR then skip_keys n w else give ())"

definition on_key_esc :: "win \<Rightarrow> int ui_act" where
  "on_key_esc w =
     andthen (block [draw (Nodelay w True), draw (Keypad w False)]) (\<lambda>_.
     andthen (wgetch w) (\<lambda>key.
     andthen (wgetch w) (\<lambda>key2.
     andthen (peek (\<lambda>u. length (key_list u))) (\<lambda>n.
     andthen (skip_keys (Suc n) w) (\<lambda>_.
     andthen (block [draw (Nodelay w False), draw (Keypad w True)]) (\<lambda>_.
     if key = KEY_ESC \<and> key2 = ERR then give KEY_ESC
     else
       andthen (if key \<noteq> ERR \<and> key \<noteq> KEY_ESC \<and> key2 = ERR then ungetch key else give ()) (\<lambda>_.
       give (- 1))))))))"

definition on_key_resize :: "int ui_act" where
  "on_key_resize = andthen dialog_clear (\<lambda>_. give KEY_RESIZE)"

subsection \<open>The list of items\<close>

definition zero_item :: dialog_item where
  "zero_item = \<lparr>it_str = [], it_tag = nul, it_data = None, it_selected = False\<rparr>"

definition item_reset :: "unit ui_act" where
  "item_reset = poke (\<lambda>u. u\<lparr>items := [], item_cur := Nil_item\<rparr>)"

text \<open>
  A new item is linked behind the current one, so that those behind that are lost.  An item that is
  linked to \<^verbatim>\<open>item_nil\<close> while the list has items would be lost itself; this does not occur.
\<close>

definition MAXITEMSTR :: nat where "MAXITEMSTR = 200"

definition item_make :: "string \<Rightarrow> unit ui_act" where
  "item_make t u =
     (let p = zero_item\<lparr>it_str := take (MAXITEMSTR - 1) t\<rparr> in
      if items u = [] then Done () (u\<lparr>items := [p], item_cur := Item 0\<rparr>)
      else
        case item_cur u of
          Item k \<Rightarrow> Done () (u\<lparr>items := take (Suc k) (items u) @ [p], item_cur := Item (Suc k)\<rparr>)
        | _ \<Rightarrow> Fault)"

definition cur_item :: "dialog_item ui_act" where
  "cur_item u =
     (case item_cur u of
        Null_item \<Rightarrow> Fault
      | Nil_item \<Rightarrow> Done (item_nil u) u
      | Item k \<Rightarrow> if k < length (items u) then Done (items u ! k) u else Fault)"

definition change_item :: "(dialog_item \<Rightarrow> dialog_item) \<Rightarrow> unit ui_act" where
  "change_item f u =
     (case item_cur u of
        Null_item \<Rightarrow> Fault
      | Nil_item \<Rightarrow> Done () (u\<lparr>item_nil := f (item_nil u)\<rparr>)
      | Item k \<Rightarrow> if k < length (items u) then Done () (u\<lparr>items := (items u)[k := f (items u ! k)]\<rparr>) else Fault)"

definition item_add_str :: "string \<Rightarrow> unit ui_act" where
  "item_add_str t =
     change_item (\<lambda>i. i\<lparr>it_str := it_str i @ take (MAXITEMSTR - length (it_str i) - 1) t\<rparr>)"

definition item_set_tag :: "char \<Rightarrow> unit ui_act" where
  "item_set_tag tag = change_item (\<lambda>i. i\<lparr>it_tag := tag\<rparr>)"

definition item_set_data :: "nat option \<Rightarrow> unit ui_act" where
  "item_set_data d = change_item (\<lambda>i. i\<lparr>it_data := d\<rparr>)"

definition item_set_selected :: "bool \<Rightarrow> unit ui_act" where
  "item_set_selected v = change_item (\<lambda>i. i\<lparr>it_selected := v\<rparr>)"

text \<open>
  A search with \<open>item_foreach\<close> stops at the first item that is wanted; when there is none,
  \<^verbatim>\<open>item_cur\<close> is null afterwards, unless the list is empty.
\<close>

definition first_index :: "('a \<Rightarrow> bool) \<Rightarrow> 'a list \<Rightarrow> nat" where
  "first_index P xs = length (takeWhile (\<lambda>x. \<not> P x) xs)"

definition stop_at :: "nat \<Rightarrow> ui \<Rightarrow> ui" where
  "stop_at k u = (if items u = [] then u else u\<lparr>item_cur := (if k < length (items u) then Item k else Null_item)\<rparr>)"

definition item_activate_selected :: "bool ui_act" where
  "item_activate_selected u =
     (let k = first_index it_selected (items u) in Done (k < length (items u)) (stop_at k u))"

definition item_data :: "nat option ui_act" where
  "item_data = andthen cur_item (\<lambda>i. give (it_data i))"

definition item_tag :: "char ui_act" where
  "item_tag = andthen cur_item (\<lambda>i. give (it_tag i))"

definition item_count :: "int ui_act" where
  "item_count = peek (\<lambda>u. int (length (items u)))"

definition item_set :: "int \<Rightarrow> unit ui_act" where
  "item_set n = poke (\<lambda>u. stop_at (if 0 \<le> n then nat n else length (items u)) u)"

definition item_n :: "int ui_act" where
  "item_n = peek (\<lambda>u. case item_cur u of Item k \<Rightarrow> if k < length (items u) then int k else 0 | _ \<Rightarrow> 0)"

definition item_str :: "string ui_act" where
  "item_str = andthen cur_item (\<lambda>i. give (it_str i))"

definition item_is_selected :: "bool ui_act" where
  "item_is_selected = andthen cur_item (\<lambda>i. give (it_selected i))"

definition item_is_tag :: "char \<Rightarrow> bool ui_act" where
  "item_is_tag tag = andthen cur_item (\<lambda>i. give (it_tag i = tag))"

subsection \<open>Drawing\<close>

text \<open>\<open>draws p\<close>: the action always ends, and changes nothing but what is drawn.\<close>

definition draws :: "unit ui_act \<Rightarrow> bool" where
  "draws p \<longleftrightarrow> (\<forall>u. \<exists>t. p u = Done () (u\<lparr>drawn := drawn u @ t\<rparr>))"

named_theorems drawing

lemma draws_draw [drawing]: "draws (draw d)"
  by (auto simp: draws_def draw_def poke_def)

lemma draws_give [drawing]: "draws (give ())"
proof -
  have "give () u = Done () (u\<lparr>drawn := drawn u @ []\<rparr>)" for u :: ui by (simp add: give_def)
  then show ?thesis unfolding draws_def by blast
qed

lemma draws_andthen [drawing]:
  assumes "draws p" "draws q"
  shows "draws (andthen p (\<lambda>_. q))"
  unfolding draws_def
proof
  fix u
  obtain t where t: "p u = Done () (u\<lparr>drawn := drawn u @ t\<rparr>)" using assms(1) unfolding draws_def by blast
  let ?v = "u\<lparr>drawn := drawn u @ t\<rparr>"
  obtain t' where "q ?v = Done () (?v\<lparr>drawn := drawn ?v @ t'\<rparr>)" using assms(2) unfolding draws_def by blast
  then have "andthen p (\<lambda>_. q) u = Done () (u\<lparr>drawn := drawn u @ (t @ t')\<rparr>)" using t by (simp add: andthen_def)
  then show "\<exists>t. andthen p (\<lambda>_. q) u = Done () (u\<lparr>drawn := drawn u @ t\<rparr>)" by blast
qed

lemma draws_peek [drawing]: "(\<And>x. draws (f x)) \<Longrightarrow> draws (andthen (peek g) f)"
  by (simp add: draws_def andthen_def peek_def)

lemma draws_block: "(\<And>p. p \<in> set ps \<Longrightarrow> draws p) \<Longrightarrow> draws (block ps)"
  by (induction ps) (simp_all add: draws_give draws_andthen)

lemma draws_if [drawing]: "draws p \<Longrightarrow> draws q \<Longrightarrow> draws (if b then p else q)"
  and draws_let [drawing]: "draws (h x) \<Longrightarrow> draws (Let x h)"
  and draws_opt [drawing]: "draws p \<Longrightarrow> (\<And>y. draws (w y)) \<Longrightarrow> draws (case yo of None \<Rightarrow> p | Some y \<Rightarrow> w y)"
  by (simp_all add: Let_def split: option.split)

lemma draws_loop [drawing]: "(\<And>i. draws (body i)) \<Longrightarrow> draws (loop_to n body)"
  unfolding loop_to_def by (rule draws_block) auto

lemma draws_basic [drawing]: "draws (attrset w a)" "draws (addch w g)" "draws (wmove w y x)" "draws (addstr w s)"
  unfolding attrset_def addch_def wmove_def addstr_def by (intro drawing)+

lemma draws_prod [drawing]: "(\<And>a b. draws (h a b)) \<Longrightarrow> draws (case z of (a, b) \<Rightarrow> h a b)"
  by (simp split: prod.split)

lemma draws_map [drawing]: "(\<And>x. draws (f x)) \<Longrightarrow> draws (block (map f xs))"
  by (rule draws_block) auto

lemma draws_blocks [drawing]: "draws p \<Longrightarrow> draws (block ps) \<Longrightarrow> draws (block (p # ps))" "draws (block [])"
  by (simp_all add: draws_andthen draws_give)

lemma draws_attr_clear [drawing]: "draws (attr_clear w h l a)"
  unfolding attr_clear_def by (intro drawing)

lemma draws_dialog_clear [drawing]: "draws dialog_clear"
  unfolding dialog_clear_def by (intro drawing)

lemma draws_print_title [drawing]: "draws (print_title w t l)"
  unfolding print_title_def by (intro drawing)

lemma draws_draw_box [drawing]: "draws (draw_box w y x h l a b)"
  unfolding draw_box_def box_cell_def by (intro drawing)

lemma draws_draw_shadow [drawing]: "draws (draw_shadow cz w y x h l)"
  unfolding draw_shadow_def copy_cell_def by (intro drawing)

lemma draws_print_button: "\<not> set label \<subseteq> {CHR '' ''} \<Longrightarrow> draws (print_button w label y x b)"
proof -
  assume l: "\<not> set label \<subseteq> {CHR '' ''}"
  have "drop (length (takeWhile (\<lambda>c. c = CHR '' '') label)) label = dropWhile (\<lambda>c. c = CHR '' '') label"
    by (simp add: dropWhile_eq_drop)
  moreover obtain c r where "dropWhile (\<lambda>c. c = CHR '' '') label = c # r"
    using l by (cases "dropWhile (\<lambda>c. c = CHR '' '') label") auto
  ultimately show ?thesis unfolding print_button_def Let_def by (simp only: list.case) (intro drawing)
qed

subsection \<open>Outcomes\<close>

text \<open>
  \<open>wp b p u Q\<close>: from \<open>u\<close> the action \<open>p\<close> ends with a value and a state for which \<open>Q\<close> holds; it does
  not use up its fuel, and it fails, or waits for a key that does not come, only if \<open>b\<close> allows it.
\<close>

datatype unfinished = faults | waits

definition wp :: "unfinished set \<Rightarrow> ('s, 'a) act \<Rightarrow> 's \<Rightarrow> ('a \<Rightarrow> 's \<Rightarrow> bool) \<Rightarrow> bool" where
  "wp b p u Q \<longleftrightarrow> (case p u of Done x v \<Rightarrow> Q x v | Fault \<Rightarrow> faults \<in> b | Waits \<Rightarrow> waits \<in> b | Spent \<Rightarrow> False)"

lemma wp_basic [simp]:
  "wp b (give x) u Q \<longleftrightarrow> Q x u" "wp b (peek f) u Q \<longleftrightarrow> Q (f u) u" "wp b (poke g) u R \<longleftrightarrow> R () (g u)"
  "wp b (andthen p h) u Q \<longleftrightarrow> wp b p u (\<lambda>x v. wp b (h x) v Q)" "wp b fault u Q \<longleftrightarrow> faults \<in> b"
  by (simp_all add: wp_def act_defs split: outcome.split)

lemma wp_if: "(c \<Longrightarrow> wp b p u Q) \<Longrightarrow> (\<not> c \<Longrightarrow> wp b q u Q) \<Longrightarrow> wp b (if c then p else q) u Q"
  by simp

lemma wp_either: "wp b p u Q \<Longrightarrow> wp b q u Q \<Longrightarrow> wp b (if c then p else q) u Q"
  by simp

lemma wp_weaken: "wp b p u Q \<Longrightarrow> (\<And>x v. Q x v \<Longrightarrow> R x v) \<Longrightarrow> wp b p u R"
  by (simp add: wp_def split: outcome.splits)

lemma wp_allow: "wp b p u Q \<Longrightarrow> b \<subseteq> c \<Longrightarrow> wp c p u Q"
  by (auto simp: wp_def split: outcome.splits)

lemma wp_done: "p u = Done x v \<Longrightarrow> wp b p u Q \<longleftrightarrow> Q x v"
  by (simp add: wp_def)

lemma wpE: "wp {} p u Q \<Longrightarrow> (\<And>x v. p u = Done x v \<Longrightarrow> Q x v \<Longrightarrow> P) \<Longrightarrow> P"
  by (cases "p u") (simp_all add: wp_def)

lemma wp_draws: "draws p \<Longrightarrow> (\<And>d. Q () (u\<lparr>drawn := d\<rparr>)) \<Longrightarrow> wp b p u Q"
proof -
  assume "draws p" and Q: "\<And>d. Q () (u\<lparr>drawn := d\<rparr>)"
  then obtain t where "p u = Done () (u\<lparr>drawn := drawn u @ t\<rparr>)" unfolding draws_def by blast
  then show ?thesis using Q by (simp add: wp_def)
qed

lemma wp_draw [simp]: "wp b (draw d) u Q \<longleftrightarrow> Q () (u\<lparr>drawn := drawn u @ [d]\<rparr>)"
  by (simp add: draw_def)

lemma wp_getyx [simp]: "wp b (getyx cz w) u Q \<longleftrightarrow> Q (cursor cz (drawn u) w) u"
  by (simp add: getyx_def)

lemma wp_wgetch: "waits \<in> b \<Longrightarrow>
    (\<And>k h l r. key_list u = (k, h, l) # r \<Longrightarrow> Q k (u\<lparr>key_list := r, LINES := h, COLS := l\<rparr>)) \<Longrightarrow> wp b (wgetch w) u Q"
  by (simp add: wp_def wgetch_def split: list.split prod.split)

lemma wp_wgetch_Cons: "key_list u = (k, h, l) # r \<Longrightarrow>
    wp b (wgetch w) u Q \<longleftrightarrow> Q k (u\<lparr>key_list := r, LINES := h, COLS := l\<rparr>)"
  by (simp add: wp_def wgetch_def)

text \<open>Whether the size of the window is still to change, and what reading keys leaves alone.\<close>

definition resizes :: "ui \<Rightarrow> bool" where
  "resizes u \<longleftrightarrow> list_ex (\<lambda>k. fst k = KEY_RESIZE) (key_list u)"

definition still :: "ui \<Rightarrow> ui \<Rightarrow> bool" where
  "still u u' \<longleftrightarrow> (resizes u' \<longrightarrow> resizes u) \<and> items u' = items u \<and> item_cur u' = item_cur u \<and> item_nil u' = item_nil u \<and> input_result u' = input_result u \<and>
     dlg u' = dlg u \<and> backtitle u' = backtitle u \<and> color_pairs u' = color_pairs u"

lemma wp_skip_keys: "waits \<in> b \<Longrightarrow> length (key_list u) < n \<Longrightarrow>
    (\<And>u'. length (key_list u') < length (key_list u) \<Longrightarrow> still u u' \<Longrightarrow> Q () u') \<Longrightarrow> wp b (skip_keys n w) u Q"
proof (induction n arbitrary: u)
  case (Suc n)
  show ?case
    unfolding skip_keys.simps wp_basic
  proof (rule wp_wgetch[OF Suc.prems(1)])
    fix k h l r assume k: "key_list u = (k, h, l) # r"
    let ?u = "u\<lparr>key_list := r, LINES := h, COLS := l\<rparr>"
    show "wp b (if k \<noteq> ERR then skip_keys n w else give ()) ?u Q"
    proof (rule wp_either)
      show "wp b (skip_keys n w) ?u Q"
        by (rule Suc.IH) (use Suc.prems k in \<open>auto simp: still_def resizes_def intro!: Suc.prems(3)\<close>)
      show "wp b (give ()) ?u Q" using Suc.prems(3)[of ?u] k by (auto simp: still_def resizes_def)
    qed
  qed
qed simp

lemma wp_on_key_esc:
  assumes "waits \<in> b"
    and "\<And>x u'. length (key_list u') < length (key_list u) \<Longrightarrow> still u u' \<Longrightarrow> x = KEY_ESC \<or> x = - 1 \<Longrightarrow> Q x u'"
  shows "wp b (on_key_esc w) u Q"
  unfolding on_key_esc_def
  apply (simp del: skip_keys.simps)
  apply (rule wp_wgetch[OF assms(1)])
  apply (rule wp_wgetch[OF assms(1)])
  apply (rule wp_skip_keys[OF assms(1)])
   apply simp
  apply (auto simp: ungetch_def still_def resizes_def intro!: assms(2))
  done

text \<open>\<open>reads p\<close>: the action does not use up its fuel, and there are no more keys behind it than before.\<close>

definition reads :: "'a ui_act \<Rightarrow> bool" where
  "reads p \<longleftrightarrow> (\<forall>u. wp UNIV p u (\<lambda>_ v. length (key_list v) \<le> length (key_list u)))"

named_theorems reading

lemma reads_wp: "reads p \<Longrightarrow> (\<And>x v. length (key_list v) \<le> length (key_list u) \<Longrightarrow> Q x v) \<Longrightarrow> wp UNIV p u Q"
  unfolding reads_def by (blast intro: wp_weaken)

lemma reads_andthen [reading]: "reads p \<Longrightarrow> (\<And>x. reads (f x)) \<Longrightarrow> reads (andthen p f)"
proof -
  assume p: "reads p" and f: "\<And>x. reads (f x)"
  show ?thesis
    unfolding reads_def wp_basic
  proof (rule allI, rule reads_wp[OF p])
    fix u v :: ui and x assume "length (key_list v) \<le> length (key_list u)"
    then show "wp UNIV (f x) v (\<lambda>_ w. length (key_list w) \<le> length (key_list u))" by (intro reads_wp[OF f]) simp
  qed
qed

lemma reads_give [reading]: "reads (give x)" and reads_peek [reading]: "reads (peek f)" and reads_fault [reading]: "reads fault"
  by (simp_all add: reads_def)

lemma reads_poke: "(\<And>u. key_list (g u) = key_list u) \<Longrightarrow> reads (poke g)"
  by (simp add: reads_def)

lemma reads_draws [reading]: "draws p \<Longrightarrow> reads p"
  unfolding reads_def by (auto intro: wp_draws)

lemma reads_if [reading]: "reads p \<Longrightarrow> reads q \<Longrightarrow> reads (if b then p else q)"
  and reads_let [reading]: "reads (h x) \<Longrightarrow> reads (Let x h)"
  and reads_option [reading]: "reads p \<Longrightarrow> (\<And>y. reads (w y)) \<Longrightarrow> reads (case yo of None \<Rightarrow> p | Some y \<Rightarrow> w y)"
  and reads_prod [reading]: "(\<And>a b. reads (k a b)) \<Longrightarrow> reads (case z of (a, b) \<Rightarrow> k a b)"
  by (auto simp: Let_def split: option.split prod.split)

lemma reads_block [reading]: "reads (block [])" "reads p \<Longrightarrow> reads (block ps) \<Longrightarrow> reads (block (p # ps))"
  by (simp_all add: reads_andthen reads_give)

lemma reads_map [reading]: "(\<And>x. reads (f x)) \<Longrightarrow> reads (block (map f xs))"
  by (induction xs) (simp_all add: reads_andthen reads_give)

lemma reads_loop [reading]: "(\<And>i. reads (body i)) \<Longrightarrow> reads (loop_to n body)"
  unfolding loop_to_def by (rule reads_map)

lemma reads_wgetch [reading]: "reads (wgetch w)"
  unfolding reads_def by (auto intro: wp_wgetch)

lemma reads_on_key_esc [reading]: "reads (on_key_esc w)"
  unfolding reads_def by (auto intro: wp_on_key_esc)

lemma reads_getyx [reading]: "reads (getyx cz w)"
  unfolding getyx_def by (rule reads_peek)

subsection \<open>Wrapped text\<close>

definition isblank :: "char \<Rightarrow> bool" where
  "isblank c \<longleftrightarrow> c = CHR '' '' \<or> c = newline"

function words :: "string \<Rightarrow> string list" where
  "words s =
     (let r = dropWhile isblank s in
      if r = [] then [] else takeWhile (\<lambda>c. \<not> isblank c) r # words (dropWhile (\<lambda>c. \<not> isblank c) r))"
  by auto
termination
proof (relation "measure length", goal_cases)
  case (2 s r)
  obtain c t where r: "r = c # t" using 2(2) by (meson neq_Nil_conv)
  then have "\<not> isblank c" using 2(1) hd_dropWhile[of isblank s] by simp
  then have "length (dropWhile (\<lambda>c. \<not> isblank c) r) < length r" using r by (simp add: le_imp_less_Suc length_dropWhile_le)
  moreover have "length r \<le> length s" using 2 by (simp add: length_dropWhile_le)
  ultimately show ?case by simp
qed simp

declare words.simps [simp del]

definition strings_of :: "draw list \<Rightarrow> string list" where
  "strings_of ds = concat (map (\<lambda>d. case d of Waddstr w s \<Rightarrow> [s] | _ \<Rightarrow> []) ds)"

lemma strings_of_simps [simp]:
  "strings_of [] = []" "strings_of (Wmove w y x # ds) = strings_of ds" "strings_of (Waddstr w s # ds) = s # strings_of ds"
  by (simp_all add: strings_of_def)

definition printed_words :: "draw list \<Rightarrow> string list" where
  "printed_words ds = concat (map words (strings_of ds))"

lemma words_Nil [simp]: "words [] = []"
  by (simp add: words.simps)

lemma words_skip: "words (dropWhile isblank s) = words s"
  by (subst (1 2) words.simps) simp

lemma words_blank: "isblank c \<Longrightarrow> words (c # s) = words s"
  using words_skip[of "c # s"] words_skip[of s] by simp

lemma words_single: "w \<noteq> [] \<Longrightarrow> \<forall>c\<in>set w. \<not> isblank c \<Longrightarrow> words w = [w]"
proof -
  assume w: "w \<noteq> []" "\<forall>c\<in>set w. \<not> isblank c"
  then have e: "dropWhile isblank w = w" "takeWhile (\<lambda>c. \<not> isblank c) w = w" "dropWhile (\<lambda>c. \<not> isblank c) w = []"
    by (auto simp: takeWhile_eq_all_conv dropWhile_eq_self_iff dropWhile_eq_Nil_conv)
  show ?thesis using w(1) by (subst words.simps) (simp only: e Let_def if_False words_Nil)
qed

lemma words_append: "\<forall>c\<in>set w. \<not> isblank c \<Longrightarrow> isblank b \<Longrightarrow> words (w @ b # s) = words w @ words s"
proof (cases "w = []")
  case False
  assume w: "\<forall>c\<in>set w. \<not> isblank c" "isblank b"
  have d: "dropWhile isblank (w @ b # s) = w @ b # s" using w False by (cases w) simp_all
  have t: "takeWhile (\<lambda>c. \<not> isblank c) (w @ b # s) = w" "dropWhile (\<lambda>c. \<not> isblank c) (w @ b # s) = b # s"
    using w by (auto simp: takeWhile_append dropWhile_append)
  have "words (w @ b # s) = w # words (b # s)" by (subst words.simps) (simp add: d t)
  then show ?thesis using w False by (simp add: words_single words_blank)
qed (simp add: words_blank)

lemma words_map: "words (map (\<lambda>c. if c = newline then CHR '' '' else c) s) = words s"
proof (induction "length s" arbitrary: s rule: less_induct)
  case less
  let ?m = "map (\<lambda>c. if c = newline then CHR '' '' else c)"
  show ?case
  proof (cases "\<forall>c\<in>set s. \<not> isblank c")
    case True
    then have "?m s = s" by (intro map_idI) (auto simp: isblank_def)
    then show ?thesis by simp
  next
    case False
    then obtain w b r where s: "s = w @ b # r" "isblank b" "\<forall>c\<in>set w. \<not> isblank c"
      using split_list_first_prop[of s isblank] by auto
    have "?m w = w" using s(3) by (intro map_idI) (auto simp: isblank_def)
    moreover have "isblank (if b = newline then CHR '' '' else b)" using s(2) by (auto simp: isblank_def)
    ultimately show ?thesis using less[of r] s words_append[OF s(3)] by simp
  qed
qed

lemma split_word_parts:
  assumes "newline \<notin> set s" "split_word s = (w, sp)"
  shows "\<forall>c\<in>set w. \<not> isblank c" "sp = None \<longrightarrow> s = w" "\<And>r. sp = Some r \<longrightarrow> s = w @ CHR '' '' # r \<and> length r < length s"
proof -
  have w: "w = takeWhile (\<lambda>c. c \<noteq> CHR '' '') s" using assms(2) by (auto simp: split_word_def Let_def)
  show "\<forall>c\<in>set w. \<not> isblank c"
    using assms(1) by (auto simp: w isblank_def dest: set_takeWhileD)
  show "sp = None \<longrightarrow> s = w"
    using assms(2) by (auto simp: w split_word_def Let_def intro!: takeWhile_eq_all_conv[THEN iffD2, symmetric] split: if_splits)
  fix r show "sp = Some r \<longrightarrow> s = w @ CHR '' '' # r \<and> length r < length s"
  proof
    assume "sp = Some r"
    then have r: "CHR '' '' \<in> set s" "r = drop (Suc (length w)) s"
      using assms(2) by (auto simp: w split_word_def Let_def split: if_splits)
    obtain a b where ab: "s = a @ CHR '' '' # b" "CHR '' '' \<notin> set a" using split_list_first[OF r(1)] by blast
    then have "w = a" by (auto simp: w takeWhile_append)
    then show "s = w @ CHR '' '' # r \<and> length r < length s" using ab r(2) by simp
  qed
qed

lemma words_dropWhile_blank: "words (dropWhile (\<lambda>c. c = CHR '' '') s) = words s"
  by (induction s) (simp_all add: words_blank isblank_def)

lemma autowrap_loop_words:
  "length s \<le> n \<Longrightarrow> newline \<notin> set s \<Longrightarrow>
   \<exists>t. autowrap_loop n cz w width x newl y0 x0 s u = Done () (u\<lparr>drawn := drawn u @ t\<rparr>) \<and> printed_words t = words s"
proof (induction n arbitrary: newl y0 x0 s u)
  case 0
  then show ?case by (auto simp: give_def printed_words_def intro!: exI[of _ "[]"])
next
  case (Suc n)
  show ?case
  proof (cases s)
    case (Cons c r)
    obtain word sp where sp: "split_word (c # r) = (word, sp)" by fastforce
    obtain y1 x1 where yx: "(if wraps newl word sp (width - x0) then (y0 + 1, x) else (y0, x0)) = (y1, x1)" by fastforce
    define v where "v = u\<lparr>drawn := drawn u @ [Wmove w y1 x1, Waddstr w word]\<rparr>"
    obtain y2 x2 where c2: "cursor cz (drawn v) w = (y2, x2)" by fastforce
    have "newline \<notin> set (c # r)" using Suc.prems(2) Cons by simp
    note parts = split_word_parts[OF this sp]
    have go: "autowrap_loop (Suc n) cz w width x newl y0 x0 s u =
        (case sp of None \<Rightarrow> give () v
         | Some s \<Rightarrow> (if take 1 s = '' '' then autowrap_loop n cz w width x True y2 (x2 + 2) (dropWhile (\<lambda>c. c = CHR '' '') s)
             else autowrap_loop n cz w width x False y2 (x2 + 1) s) v)"
      unfolding Cons autowrap_loop.simps sp Let_def prod.case yx
      by (simp add: andthen_def wmove_def addstr_def draw_def poke_def getyx_def peek_def give_def v_def[symmetric] c2
          split: option.split)
    show ?thesis
    proof (cases sp)
      case None
      then have "words s = words word" using parts(2) Cons by simp
      then have "printed_words [Wmove w y1 x1, Waddstr w word] = words s"
        using parts(1) by (simp add: printed_words_def)
      then show ?thesis using go None by (auto simp: give_def v_def)
    next
      case (Some q)
      have q: "s = word @ CHR '' '' # q" "length q < length s" using parts(3)[of q] Some Cons by auto
      have ws: "words s = words word @ words q"
        unfolding q(1) by (rule words_append) (use parts(1) in \<open>simp_all add: isblank_def\<close>)
      obtain newl' x' q' where next0: "autowrap_loop (Suc n) cz w width x newl y0 x0 s u = autowrap_loop n cz w width x newl' y2 x' q' v"
        "words q' = words q" "length q' \<le> length q" "set q' \<subseteq> set q"
      proof (cases "take 1 q = '' ''")
        case True
        show ?thesis
          by (rule that[of True "x2 + 2" "dropWhile (\<lambda>c. c = CHR '' '') q"])
            (use go Some True in \<open>auto simp: words_dropWhile_blank length_dropWhile_le dest: set_dropWhileD\<close>)
      next
        case False
        show ?thesis by (rule that[of False "x2 + 1" q]) (use go Some False in simp_all)
      qed
      have "length q' \<le> n" "newline \<notin> set q'" using next0 q Suc.prems by auto
      from Suc.IH[OF this] obtain t where "autowrap_loop n cz w width x newl' y2 x' q' v = Done () (v\<lparr>drawn := drawn v @ t\<rparr>)"
        "printed_words t = words q'" by blast
      then show ?thesis
        using next0 ws by (intro exI[of _ "[Wmove w y1 x1, Waddstr w word] @ t"]) (simp add: v_def printed_words_def)
    qed
  qed (auto simp: give_def printed_words_def intro!: exI[of _ "[]"])
qed

lemma autowrap_words:
  assumes "length prompt \<le> MAX_LEN"
  shows "\<exists>t. print_autowrap cz w prompt width y x u = Done () (u\<lparr>drawn := drawn u @ t\<rparr>) \<and> printed_words t = words prompt"
proof -
  let ?s = "map (\<lambda>c. if c = newline then CHR '' '' else c) prompt"
  have nl: "newline \<notin> set ?s" by (auto simp: newline_def)
  show ?thesis
  proof (cases "int (length prompt) \<le> width - x * 2")
    case True
    let ?t = "[Wmove w y (half (width - int (length prompt))), Waddstr w ?s]"
    have "print_autowrap cz w prompt width y x u = Done () (u\<lparr>drawn := drawn u @ ?t\<rparr>)"
      using True assms by (simp add: print_autowrap_def andthen_def wmove_def addstr_def draw_def poke_def give_def)
    moreover have "printed_words ?t = words prompt" by (simp add: printed_words_def words_map)
    ultimately show ?thesis by blast
  next
    case False
    then have "print_autowrap cz w prompt width y x u = autowrap_loop (length ?s) cz w width x True y x ?s u"
      using assms unfolding print_autowrap_def Let_def by simp
    then show ?thesis
      using autowrap_loop_words[OF order.refl nl, of cz w width x True y x u] by (simp add: words_map)
  qed
qed

lemma draws_print_autowrap: "length prompt \<le> MAX_LEN \<Longrightarrow> draws (print_autowrap cz w prompt width y x)"
  unfolding draws_def using autowrap_words by blast

text \<open>
  C25.  Wrapping a text loses nothing: whatever the width of the window and wherever the library leaves
  the cursor, the words that are printed, in order, are the words of the prompt, no more and no fewer.
\<close>

theorem autowrap_keeps_words:
  assumes "length prompt \<le> MAX_LEN"
  shows "\<exists>t. print_autowrap cz w prompt width y x u = Done () (u\<lparr>drawn := drawn u @ t\<rparr>) \<and> printed_words t = words prompt"
  by (rule autowrap_words[OF assms])

definition ex_curses :: curses where
  "ex_curses = \<lparr>has_colors = False, cursor = (\<lambda>ds w. (0, 0)), char_at = (\<lambda>ds w. Ch (CHR '' ''))\<rparr>"

definition ex_ui :: ui where
  "ex_ui = \<lparr>dlg = (\<lambda>_. \<lparr>atr = A_NORMAL, fg = COLOR_BLACK, bg = COLOR_BLACK, hl = False\<rparr>), backtitle = None, color_pairs = 0,
     drawn = [], LINES = 24, COLS = 80, key_list = [], items = [], item_cur = Nil_item, item_nil = zero_item,
     input_result = replicate (MAX_LEN + 1) nul\<rparr>"

lemma autowrap_keeps_words_witness:
  "\<exists>t. print_autowrap ex_curses stdscr ''save your new rootfs?'' 10 1 3 ex_ui = Done () (ex_ui\<lparr>drawn := t\<rparr>) \<and>
     printed_words t = words ''save your new rootfs?''"
  using autowrap_keeps_words[of "''save your new rootfs?''" ex_curses stdscr 10 1 3 ex_ui] by (simp add: MAX_LEN_def ex_ui_def)

end
