(* ===== verification/DialogInput.thy ===== *)
theory DialogInput
  imports Dialog
begin

text \<open>
  The dialog with an input line (\<^verbatim>\<open>lxdialog/inputbox.c\<close>) and the question with two answers
  (\<^verbatim>\<open>lxdialog/yesno.c\<close>).  A key leads to another round of the loop, to the end of the dialog with a
  value, or to a new layout of the screen.
\<close>

datatype 'v step = Again 'v | Leave int | Resized 'v

text \<open>The frame that all dialogs draw; \<open>at_y\<close> and \<open>at_x\<close> are the corner of the window.\<close>

definition open_frame :: "curses \<Rightarrow> string option \<Rightarrow> string \<Rightarrow> int \<Rightarrow> int \<Rightarrow> int \<Rightarrow> int \<Rightarrow> bool \<Rightarrow> unit ui_act" where
  "open_frame cz title prompt height width y x bkgd =
     block
       [draw_shadow cz stdscr y x height width, draw (Newwin dialog_win height width y x), draw (Keypad dialog_win True),
        draw_box dialog_win 0 0 height width ''dialog'' ''border'', attrset dialog_win ''border'',
        wmove dialog_win (height - 3) 0, addch dialog_win ACS_LTEE, loop_to (width - 2) (\<lambda>i. addch dialog_win ACS_HLINE),
        attrset dialog_win ''dialog'',
        (if bkgd then andthen (peek dlg) (\<lambda>d. draw (Wbkgdset dialog_win (atr (d ''dialog'')))) else give ()),
        addch dialog_win ACS_RTEE, print_title dialog_win title width, attrset dialog_win ''dialog'',
        print_autowrap cz dialog_win prompt (width - 2) 1 3]"

text \<open>Two buttons, \<open>gap\<close> columns apart.\<close>

definition two_buttons :: "string \<Rightarrow> string \<Rightarrow> int \<Rightarrow> int \<Rightarrow> int \<Rightarrow> int \<Rightarrow> int \<Rightarrow> unit ui_act" where
  "two_buttons l0 l1 left gap height width selected =
     (let x = half width - left; y = height - 2 in
      block
        [print_button dialog_win l0 y x (selected = 0), print_button dialog_win l1 y (x + gap) (selected = 1),
         wmove dialog_win y (x + 1 + gap * selected), draw (Wrefresh dialog_win)])"

definition input_buttons :: "int \<Rightarrow> int \<Rightarrow> int \<Rightarrow> unit ui_act" where
  "input_buttons = two_buttons ''  Ok  '' '' Help '' 11 14"

definition yesno_buttons :: "int \<Rightarrow> int \<Rightarrow> int \<Rightarrow> unit ui_act" where
  "yesno_buttons = two_buttons '' Yes '' ''  No  '' 10 13"

subsection \<open>The input line\<close>

text \<open>The buffer \<^verbatim>\<open>dialog_input_result\<close>; a byte outside is read as zero.\<close>

definition put_byte :: "int \<Rightarrow> char \<Rightarrow> unit ui_act" where
  "put_byte k c u =
     (if 0 \<le> k \<and> nat k < length (input_result u) then Done () (u\<lparr>input_result := (input_result u)[nat k := c]\<rparr>) else Fault)"

definition byte_at :: "ui \<Rightarrow> int \<Rightarrow> char" where
  "byte_at u k = (if 0 \<le> k \<and> nat k < length (input_result u) then input_result u ! nat k else nul)"

definition strcpy_input :: "string \<Rightarrow> unit ui_act" where
  "strcpy_input t u =
     (if length t < length (input_result u)
      then Done () (u\<lparr>input_result := t @ nul # drop (Suc (length t)) (input_result u)\<rparr>) else Fault)"

definition instr :: "ui \<Rightarrow> string" where
  "instr u = cstr (input_result u)"

record input_vars =
  input_x :: int
  in_scroll :: int
  in_button :: int
  in_box_y :: int
  in_box_x :: int
  in_box_width :: int

text \<open>The layout, from \<^verbatim>\<open>do_resize\<close> on, and the text in the field.\<close>

definition input_field :: "int \<Rightarrow> int \<Rightarrow> int \<Rightarrow> input_vars \<Rightarrow> input_vars ui_act" where
  "input_field box_y box_x box_width v =
     andthen (peek (\<lambda>u. u)) (\<lambda>u.
     let n = int (length (instr u)) in
     if box_width \<le> n then
       let sc = n - box_width + 1 in
       andthen (loop_to (box_width - 1) (\<lambda>i. addch dialog_win (Ch (byte_at u (sc + i))))) (\<lambda>_.
       give (v\<lparr>input_x := box_width - 1, in_scroll := sc, in_box_y := box_y, in_box_x := box_x, in_box_width := box_width\<rparr>))
     else
       andthen (addstr dialog_win (instr u)) (\<lambda>_.
       give (v\<lparr>input_x := n, in_box_y := box_y, in_box_x := box_x, in_box_width := box_width\<rparr>)))"

definition input_layout ::
    "curses \<Rightarrow> string option \<Rightarrow> string \<Rightarrow> int \<Rightarrow> int \<Rightarrow> input_vars \<Rightarrow> input_vars option ui_act" where
  "input_layout cz title prompt height width v =
     andthen (peek (\<lambda>u. (LINES u, COLS u))) (\<lambda>(lns, cls).
     if lns \<le> height - 2 \<or> cls \<le> width - 2 then give None
     else
       let box_width = width - 6; box_x = half (width - box_width) in
       andthen (open_frame cz title prompt height width (half (lns - height)) (half (cls - width)) False) (\<lambda>_.
       andthen (getyx cz dialog_win) (\<lambda>(y, x).
       andthen (block
         [draw_box dialog_win (y + 1) (box_x - 1) 3 (box_width + 2) ''dialog'' ''border'', input_buttons height width 0,
          wmove dialog_win (y + 2) box_x, attrset dialog_win ''inputbox'']) (\<lambda>_.
       andthen (input_field (y + 2) box_x box_width v) (\<lambda>w.
       andthen (block [wmove dialog_win (in_box_y w) (in_box_x w + input_x w), draw (Wrefresh dialog_win)]) (\<lambda>_.
       give (Some w)))))))"

text \<open>\<^verbatim>\<open>isprint\<close> in a locale that has no printable bytes above 127, such as C or one with UTF-8.\<close>

definition isprint :: "int \<Rightarrow> bool" where
  "isprint key \<longleftrightarrow> 32 \<le> key \<and> key \<le> 126"

definition input_backspace :: "input_vars \<Rightarrow> input_vars ui_act" where
  "input_backspace v =
     (if input_x v \<noteq> 0 \<or> in_scroll v \<noteq> 0 then
        andthen (attrset dialog_win ''inputbox'') (\<lambda>_.
        andthen
          (if input_x v = 0 then
             let bw = in_box_width v; sc = (if in_scroll v < bw - 1 then 0 else in_scroll v - (bw - 1)) in
             andthen (wmove dialog_win (in_box_y v) (in_box_x v)) (\<lambda>_.
             andthen (peek (\<lambda>u. u)) (\<lambda>u.
             andthen (loop_to bw (\<lambda>i.
               let b = byte_at u (sc + i) in addch dialog_win (Ch (if b \<noteq> nul then b else CHR '' '')))) (\<lambda>_.
             give (v\<lparr>in_scroll := sc, input_x := int (length (instr u)) - sc\<rparr>))))
           else give (v\<lparr>input_x := input_x v - 1\<rparr>)) (\<lambda>w.
        andthen (put_byte (in_scroll w + input_x w) nul) (\<lambda>_.
        andthen (block
          [wmove dialog_win (in_box_y w) (input_x w + in_box_x w), addch dialog_win (Ch (CHR '' '')),
           wmove dialog_win (in_box_y w) (input_x w + in_box_x w), draw (Wrefresh dialog_win)]) (\<lambda>_.
        give w))))
      else give v)"

definition input_type :: "char \<Rightarrow> input_vars \<Rightarrow> input_vars ui_act" where
  "input_type c v =
     (let k = in_scroll v + input_x v in
      if k < int MAX_LEN then
        andthen (block [attrset dialog_win ''inputbox'', put_byte k c, put_byte (k + 1) nul]) (\<lambda>_.
        andthen
          (if input_x v = in_box_width v - 1 then
             andthen (peek (\<lambda>u. u)) (\<lambda>u.
             andthen (block
               [wmove dialog_win (in_box_y v) (in_box_x v),
                loop_to (in_box_width v - 1) (\<lambda>i. addch dialog_win (Ch (byte_at u (in_scroll v + 1 + i))))]) (\<lambda>_.
             give (v\<lparr>in_scroll := in_scroll v + 1\<rparr>)))
           else
             andthen (block [wmove dialog_win (in_box_y v) (input_x v + in_box_x v), addch dialog_win (Ch c)]) (\<lambda>_.
             give (v\<lparr>input_x := input_x v + 1\<rparr>))) (\<lambda>w.
        andthen (draw (Wrefresh dialog_win)) (\<lambda>_. give w)))
      else andthen (draw Flash) (\<lambda>_. give v))"

text \<open>A key while the input line is selected; \<open>None\<close> when it is one for the buttons.\<close>

definition input_edit :: "int \<Rightarrow> input_vars \<Rightarrow> input_vars option ui_act" where
  "input_edit key v =
     (if key \<in> {TAB, KEY_UP, KEY_DOWN} then give None
      else if key \<in> {KEY_LEFT, KEY_RIGHT} then give (Some v)
      else if key \<in> {KEY_BACKSPACE, 127} then andthen (input_backspace v) (\<lambda>w. give (Some w))
      else if isprint key then andthen (input_type (char_of (nat key)) v) (\<lambda>w. give (Some w))
      else give None)"

definition input_button :: "int \<Rightarrow> int \<Rightarrow> int \<Rightarrow> input_vars \<Rightarrow> input_vars ui_act" where
  "input_button b height width v =
     andthen (block
       [input_buttons height width (if b = 1 then 1 else 0),
        if b = - 1 then block [wmove dialog_win (in_box_y v) (in_box_x v + input_x v), draw (Wrefresh dialog_win)] else give ()]) (\<lambda>_.
     give (v\<lparr>in_button := b\<rparr>))"

definition input_switch :: "int \<Rightarrow> int \<Rightarrow> int \<Rightarrow> input_vars \<Rightarrow> input_vars step ui_act" where
  "input_switch height width key v =
     (let b = in_button v in
      if is_key key ''Oo'' then give (Leave 0)
      else if is_key key ''Hh'' then give (Leave 1)
      else if key \<in> {KEY_UP, KEY_LEFT} then
        andthen (input_button (if b = - 1 then 1 else if b = 0 then - 1 else 0) height width v) (\<lambda>w. give (Again w))
      else if key \<in> {TAB, KEY_DOWN, KEY_RIGHT} then
        andthen (input_button (if b = - 1 then 0 else if b = 0 then 1 else - 1) height width v) (\<lambda>w. give (Again w))
      else if is_key key [CHR '' '', newline] then give (Leave (if b = - 1 then 0 else b))
      else if is_key key ''Xx'' then give (Leave KEY_ESC)
      else if key = KEY_ESC then
        andthen (on_key_esc dialog_win) (\<lambda>k. give (if k = KEY_ESC then Leave KEY_ESC else Again v))
      else if key = KEY_RESIZE then give (Resized v)
      else give (Again v))"

definition input_key :: "int \<Rightarrow> int \<Rightarrow> int \<Rightarrow> input_vars \<Rightarrow> input_vars step ui_act" where
  "input_key height width key v =
     andthen (if in_button v = - 1 then input_edit key v else give None) (\<lambda>r.
     case r of Some w \<Rightarrow> give (Again w) | None \<Rightarrow> input_switch height width key v)"

text \<open>The fuel bounds the number of keys.\<close>

fun input_open ::
    "nat \<Rightarrow> curses \<Rightarrow> string option \<Rightarrow> string \<Rightarrow> int \<Rightarrow> int \<Rightarrow> input_vars \<Rightarrow> int ui_act"
  and input_loop ::
    "nat \<Rightarrow> curses \<Rightarrow> string option \<Rightarrow> string \<Rightarrow> int \<Rightarrow> int \<Rightarrow> input_vars \<Rightarrow> int ui_act" where
  "input_open 0 cz title prompt height width v = spent"
| "input_open (Suc n) cz title prompt height width v =
     andthen (input_layout cz title prompt height width v) (\<lambda>r.
     case r of
       None \<Rightarrow> give (- ERRDISPLAYTOOSMALL)
     | Some w \<Rightarrow> input_loop n cz title prompt height width w)"
| "input_loop 0 cz title prompt height width v = spent"
| "input_loop (Suc n) cz title prompt height width v =
     andthen (wgetch dialog_win) (\<lambda>key.
     andthen (input_key height width key v) (\<lambda>r.
     case r of
       Leave x \<Rightarrow> andthen (draw (Delwin dialog_win)) (\<lambda>_. give x)
     | Again w \<Rightarrow> input_loop n cz title prompt height width w
     | Resized w \<Rightarrow>
         andthen (draw (Delwin dialog_win)) (\<lambda>_.
         andthen on_key_resize (\<lambda>_.
         input_open n cz title prompt height width w))))"

definition dialog_inputbox ::
    "curses \<Rightarrow> string option \<Rightarrow> string \<Rightarrow> int \<Rightarrow> int \<Rightarrow> string option \<Rightarrow> int ui_act" where
  "dialog_inputbox cz title prompt height width init =
     andthen (case init of None \<Rightarrow> put_byte 0 nul | Some t \<Rightarrow> strcpy_input t) (\<lambda>_.
     andthen (peek (\<lambda>u. length (key_list u))) (\<lambda>n.
     input_open (2 * n + 2) cz title prompt height width
       \<lparr>input_x = 0, in_scroll = 0, in_button = - 1, in_box_y = 0, in_box_x = 0, in_box_width = 0\<rparr>))"

subsection \<open>Yes or no\<close>

fun yesno_open ::
    "nat \<Rightarrow> curses \<Rightarrow> string option \<Rightarrow> string \<Rightarrow> int \<Rightarrow> int \<Rightarrow> int \<Rightarrow> int ui_act"
  and yesno_loop ::
    "nat \<Rightarrow> curses \<Rightarrow> string option \<Rightarrow> string \<Rightarrow> int \<Rightarrow> int \<Rightarrow> int \<Rightarrow> int ui_act" where
  "yesno_open 0 cz title prompt height width button = spent"
| "yesno_open (Suc n) cz title prompt height width button =
     andthen (peek (\<lambda>u. (LINES u, COLS u))) (\<lambda>(lns, cls).
     if lns < height + 4 \<or> cls < width + 4 then give (- ERRDISPLAYTOOSMALL)
     else
       andthen (open_frame cz title prompt height width (half (lns - height)) (half (cls - width)) False) (\<lambda>_.
       andthen (yesno_buttons height width 0) (\<lambda>_.
       yesno_loop n cz title prompt height width button)))"
| "yesno_loop 0 cz title prompt height width button = spent"
| "yesno_loop (Suc n) cz title prompt height width button =
     andthen (wgetch dialog_win) (\<lambda>key.
     if is_key key ''Yy'' then andthen (draw (Delwin dialog_win)) (\<lambda>_. give 0)
     else if is_key key ''Nn'' then andthen (draw (Delwin dialog_win)) (\<lambda>_. give 1)
     else if key \<in> {TAB, KEY_LEFT, KEY_RIGHT} then
       let b = (if key = KEY_LEFT then button - 1 else button + 1); b1 = (if b < 0 then 1 else if b > 1 then 0 else b) in
       andthen (block [yesno_buttons height width b1, draw (Wrefresh dialog_win)]) (\<lambda>_.
       yesno_loop n cz title prompt height width b1)
     else if is_key key [CHR '' '', newline] then andthen (draw (Delwin dialog_win)) (\<lambda>_. give button)
     else if key = KEY_ESC then
       andthen (on_key_esc dialog_win) (\<lambda>k.
       if k = KEY_ESC then andthen (draw (Delwin dialog_win)) (\<lambda>_. give k)
       else yesno_loop n cz title prompt height width button)
     else if key = KEY_RESIZE then
       andthen (draw (Delwin dialog_win)) (\<lambda>_.
       andthen on_key_resize (\<lambda>_.
       yesno_open n cz title prompt height width button))
     else yesno_loop n cz title prompt height width button)"

definition dialog_yesno :: "curses \<Rightarrow> string option \<Rightarrow> string \<Rightarrow> int \<Rightarrow> int \<Rightarrow> int ui_act" where
  "dialog_yesno cz title prompt height width =
     andthen (peek (\<lambda>u. length (key_list u))) (\<lambda>n. yesno_open (2 * n + 2) cz title prompt height width 0)"

subsection \<open>The line and the cursor\<close>

lemma draws_then: "draws p \<Longrightarrow> \<exists>d. andthen p f u = f () (u\<lparr>drawn := d\<rparr>)"
proof -
  assume "draws p"
  then obtain t where "p u = Done () (u\<lparr>drawn := drawn u @ t\<rparr>)" unfolding draws_def by blast
  then have "andthen p f u = f () (u\<lparr>drawn := drawn u @ t\<rparr>)" by (simp add: andthen_def)
  then show ?thesis by blast
qed

lemma andthen_done: "p u = Done x t \<Longrightarrow> andthen p f u = f x t"
  by (simp add: andthen_def)

text \<open>
  The cursor stands behind the last character of the text, inside the field, and the buffer has its
  full size.
\<close>

definition line_ok :: "input_vars \<Rightarrow> ui \<Rightarrow> bool" where
  "line_ok v u \<longleftrightarrow>
     length (input_result u) = MAX_LEN + 1 \<and> length (instr u) \<le> MAX_LEN \<and>
     0 \<le> in_scroll v \<and> 0 \<le> input_x v \<and> input_x v < in_box_width v \<and> 1 < in_box_width v \<and>
     in_scroll v + input_x v = int (length (instr u))"

text \<open>\<open>same_but u u'\<close>: at most the text and the screen differ.\<close>

definition same_but :: "ui \<Rightarrow> ui \<Rightarrow> bool" where
  "same_but u u' \<longleftrightarrow> (\<exists>r d. u' = u\<lparr>input_result := r, drawn := d\<rparr>)"

lemma same_but_fields: "same_but u u' \<Longrightarrow> key_list u' = key_list u \<and> LINES u' = LINES u \<and> COLS u' = COLS u \<and>
    items u' = items u \<and> item_cur u' = item_cur u \<and> item_nil u' = item_nil u \<and> dlg u' = dlg u"
  by (auto simp: same_but_def)

lemma cstr_split: "length (cstr b) < length b \<Longrightarrow> \<exists>r. b = cstr b @ nul # r"
proof -
  assume l: "length (cstr b) < length b"
  have "nul \<in> set b"
  proof (rule ccontr)
    assume "nul \<notin> set b"
    then have "cstr b = b" unfolding cstr_def by (intro takeWhile_eq_all_conv[THEN iffD2]) auto
    then show False using l by simp
  qed
  then obtain s r where "b = s @ nul # r" "nul \<notin> set s" using split_list_first by metis
  moreover have "cstr (s @ nul # r) = s" using calculation(2) by (auto simp: cstr_def takeWhile_append)
  ultimately show ?thesis by auto
qed

lemma cstr_append: "nul \<notin> set t \<Longrightarrow> cstr (t @ nul # r) = t"
  by (auto simp: cstr_def takeWhile_append)

lemma cstr_no_nul: "nul \<notin> set (cstr b)"
  by (auto simp: cstr_def dest: set_takeWhileD)

lemma put_byte_done: "0 \<le> k \<Longrightarrow> nat k < length (input_result u) \<Longrightarrow>
    put_byte k c u = Done () (u\<lparr>input_result := (input_result u)[nat k := c]\<rparr>)"
  by (simp add: put_byte_def)

lemma line_buffer:
  assumes "line_ok v u"
  shows "\<exists>r. input_result u = instr u @ nul # r \<and> length (instr u) + length r = MAX_LEN"
proof -
  have "length (cstr (input_result u)) < length (input_result u)" using assms by (simp add: line_ok_def instr_def)
  from cstr_split[OF this] obtain r where "input_result u = instr u @ nul # r" by (auto simp: instr_def)
  moreover from this have "length (input_result u) = length (instr u) + Suc (length r)" by (metis length_append length_Cons)
  ultimately show ?thesis using assms by (auto simp: line_ok_def)
qed

lemma input_type_ok:
  assumes "line_ok v u" "c \<noteq> nul"
  shows "\<exists>w u'. input_type c v u = Done w u' \<and> line_ok w u' \<and> same_but u u' \<and> in_button w = in_button v \<and>
    in_box_width w = in_box_width v \<and> instr u' = take MAX_LEN (instr u @ [c])"
proof (cases "length (instr u) < MAX_LEN")
  case True
  obtain r where r: "input_result u = instr u @ nul # r" "length (instr u) + length r = MAX_LEN"
    using line_buffer[OF assms(1)] by blast
  have k: "in_scroll v + input_x v = int (length (instr u))" using assms(1) by (simp add: line_ok_def)
  have kk: "in_scroll v + input_x v < int MAX_LEN" using k True by simp
  obtain q r' where q: "r = q # r'" using r(2) True by (cases r) auto
  let ?b = "instr u @ c # nul # r'"
  have b: "(input_result u)[length (instr u) := c, Suc (length (instr u)) := nul] = ?b"
    by (subst r(1)) (simp add: q list_update_append)
  have len: "length (input_result u) = MAX_LEN + 1" using assms(1) by (simp add: line_ok_def)
  have i: "cstr ?b = instr u @ [c]"
    using cstr_append[of "instr u @ [c]" r'] assms(2) cstr_no_nul[of "input_result u"] by (auto simp: instr_def)
  obtain d1 where d1: "block [attrset dialog_win ''inputbox'', put_byte (in_scroll v + input_x v) c,
      put_byte (in_scroll v + input_x v + 1) nul] u = Done () (u\<lparr>input_result := ?b, drawn := d1\<rparr>)"
  proof -
    obtain d where "andthen (attrset dialog_win ''inputbox'')
        (\<lambda>_. block [put_byte (in_scroll v + input_x v) c, put_byte (in_scroll v + input_x v + 1) nul]) u =
        block [put_byte (in_scroll v + input_x v) c, put_byte (in_scroll v + input_x v + 1) nul] (u\<lparr>drawn := d\<rparr>)"
      using draws_then[OF draws_basic(1)] by blast
    moreover have "\<dots> = Done () (u\<lparr>input_result := ?b, drawn := d\<rparr>)"
      using True len b by (simp add: k andthen_def give_def put_byte_def nat_add_distrib)
    ultimately show ?thesis using that by simp
  qed
  let ?w = "if input_x v = in_box_width v - 1 then v\<lparr>in_scroll := in_scroll v + 1\<rparr> else v\<lparr>input_x := input_x v + 1\<rparr>"
  obtain d2 where d2: "andthen (if input_x v = in_box_width v - 1 then
        andthen (peek (\<lambda>u. u)) (\<lambda>u.
        andthen (block [wmove dialog_win (in_box_y v) (in_box_x v),
            loop_to (in_box_width v - 1) (\<lambda>i. addch dialog_win (Ch (byte_at u (in_scroll v + 1 + i))))]) (\<lambda>_.
        give (v\<lparr>in_scroll := in_scroll v + 1\<rparr>)))
      else
        andthen (block [wmove dialog_win (in_box_y v) (input_x v + in_box_x v), addch dialog_win (Ch c)]) (\<lambda>_.
        give (v\<lparr>input_x := input_x v + 1\<rparr>))) (\<lambda>w. andthen (draw (Wrefresh dialog_win)) (\<lambda>_. give w))
      (u\<lparr>input_result := ?b, drawn := d1\<rparr>) = Done ?w (u\<lparr>input_result := ?b, drawn := d2\<rparr>)"
  proof (cases "input_x v = in_box_width v - 1")
    case True
    have dr: "draws (block [wmove dialog_win (in_box_y v) (in_box_x v),
        loop_to (in_box_width v - 1) (\<lambda>i. addch dialog_win (Ch (byte_at x (in_scroll v + 1 + i))))])" for x
      by (intro drawing)
    let ?u = "u\<lparr>input_result := ?b, drawn := d1\<rparr>"
    obtain d where "block [wmove dialog_win (in_box_y v) (in_box_x v),
        loop_to (in_box_width v - 1) (\<lambda>i. addch dialog_win (Ch (byte_at ?u (in_scroll v + 1 + i))))] ?u = Done () (?u\<lparr>drawn := d\<rparr>)"
      using dr[of ?u] unfolding draws_def by blast
    then show ?thesis
      by (intro that[of "d @ [Wrefresh dialog_win]"])
        (simp add: True andthen_done peek_def give_def draw_def poke_def del: block.simps)
  next
    case False
    then show ?thesis
      by (intro that[of "d1 @ [Wmove dialog_win (in_box_y v) (input_x v + in_box_x v), Waddch dialog_win None (Ch c),
            Wrefresh dialog_win]"]) (simp add: andthen_def give_def draw_def poke_def wmove_def addch_def)
  qed
  let ?u = "u\<lparr>input_result := ?b, drawn := d2\<rparr>"
  have "input_type c v u = Done ?w ?u"
    unfolding input_type_def Let_def if_P[OF kk] by (subst andthen_done, rule d1, rule d2)
  moreover have "instr ?u = instr u @ [c]" using i by (simp add: instr_def)
  moreover have "line_ok ?w ?u"
    using assms(1) True r q calculation(2) by (auto simp: line_ok_def)
  ultimately show ?thesis using True by (auto simp: same_but_def)
next
  case False
  then have "length (instr u) = MAX_LEN" using assms(1) by (simp add: line_ok_def)
  then have "input_type c v u = Done v (u\<lparr>drawn := drawn u @ [Flash]\<rparr>)"
    using assms(1) by (simp add: input_type_def line_ok_def andthen_def draw_def poke_def give_def)
  moreover have "same_but u (u\<lparr>drawn := drawn u @ [Flash]\<rparr>)"
    unfolding same_but_def by (rule exI[of _ "input_result u"]) auto
  ultimately show ?thesis
    using assms(1) \<open>length (instr u) = MAX_LEN\<close> by (simp add: line_ok_def instr_def)
qed

lemma input_backspace_ok:
  assumes "line_ok v u"
  shows "\<exists>w u'. input_backspace v u = Done w u' \<and> line_ok w u' \<and> same_but u u' \<and> in_button w = in_button v \<and>
    in_box_width w = in_box_width v \<and> instr u' = (if input_x v = 0 then instr u else butlast (instr u))"
proof (cases "input_x v = 0 \<and> in_scroll v = 0")
  case True
  have "same_but u u" unfolding same_but_def by (intro exI[of _ "input_result u"] exI[of _ "drawn u"]) simp
  then show ?thesis using True assms by (simp add: input_backspace_def give_def)
next
  case False
  obtain r where r: "input_result u = instr u @ nul # r" "length (instr u) + length r = MAX_LEN"
    using line_buffer[OF assms] by blast
  have k: "in_scroll v + input_x v = int (length (instr u))" using assms by (simp add: line_ok_def)
  let ?sc = "if in_scroll v < in_box_width v - 1 then 0 else in_scroll v - (in_box_width v - 1)"
  let ?w = "if input_x v = 0 then v\<lparr>in_scroll := ?sc, input_x := int (length (instr u)) - ?sc\<rparr>
    else v\<lparr>input_x := input_x v - 1\<rparr>"
  obtain d1 where d1: "andthen (attrset dialog_win ''inputbox'') f u = f () (u\<lparr>drawn := d1\<rparr>)" for f :: "unit \<Rightarrow> input_vars ui_act"
  proof -
    obtain t where "attrset dialog_win ''inputbox'' u = Done () (u\<lparr>drawn := drawn u @ t\<rparr>)"
      using draws_basic(1) unfolding draws_def by blast
    then show ?thesis by (intro that) (rule andthen_done)
  qed
  let ?u1 = "u\<lparr>drawn := d1\<rparr>"
  have iu: "instr ?u1 = instr u" by (simp add: instr_def)
  obtain d2 where d2: "(if input_x v = 0 then
             let bw = in_box_width v; sc = (if in_scroll v < bw - 1 then 0 else in_scroll v - (bw - 1)) in
             andthen (wmove dialog_win (in_box_y v) (in_box_x v)) (\<lambda>_.
             andthen (peek (\<lambda>u. u)) (\<lambda>u.
             andthen (loop_to bw (\<lambda>i.
               let b = byte_at u (sc + i) in addch dialog_win (Ch (if b \<noteq> nul then b else CHR '' '')))) (\<lambda>_.
             give (v\<lparr>in_scroll := sc, input_x := int (length (instr u)) - sc\<rparr>))))
           else give (v\<lparr>input_x := input_x v - 1\<rparr>)) ?u1 = Done ?w (u\<lparr>drawn := d2\<rparr>)"
  proof (cases "input_x v = 0")
    case True
    let ?u = "?u1\<lparr>drawn := drawn ?u1 @ [Wmove dialog_win (in_box_y v) (in_box_x v)]\<rparr>"
    have "draws (loop_to (in_box_width v) (\<lambda>i.
               let b = byte_at ?u (?sc + i) in addch dialog_win (Ch (if b \<noteq> nul then b else CHR '' ''))))"
      by (intro drawing)
    then obtain d where d: "loop_to (in_box_width v) (\<lambda>i.
               let b = byte_at ?u (?sc + i) in addch dialog_win (Ch (if b \<noteq> nul then b else CHR '' ''))) ?u =
        Done () (?u\<lparr>drawn := d\<rparr>)" unfolding draws_def by blast
    have m: "wmove dialog_win (in_box_y v) (in_box_x v) ?u1 = Done () ?u" by (simp add: wmove_def draw_def poke_def)
    have p: "andthen (peek (\<lambda>u. u)) f x = f x x" for f :: "ui \<Rightarrow> input_vars ui_act" and x by (simp add: andthen_def peek_def)
    show ?thesis
      by (rule that[of d], unfold if_P[OF True] Let_def, subst andthen_done, rule m, unfold p,
          subst andthen_done, rule d[unfolded Let_def]) (simp add: give_def instr_def)
  next
    case False
    then show ?thesis using that by (simp add: give_def)
  qed
  let ?k = "in_scroll ?w + input_x ?w"
  let ?b = "(input_result u)[nat ?k := nul]"
  have wok: "0 \<le> in_scroll ?w" "0 \<le> input_x ?w" "input_x ?w < in_box_width v" and ks: "?k = int (if input_x v = 0 then length (instr u) else length (instr u) - 1)"
    and kl: "nat ?k < length (input_result u)"
    using assms False k r by (auto simp: line_ok_def)
  let ?u3 = "u\<lparr>input_result := ?b, drawn := d2\<rparr>"
  have pb: "put_byte ?k nul (u\<lparr>drawn := d2\<rparr>) = Done () ?u3"
    using kl ks by (simp add: put_byte_def)
  let ?moves = "[wmove dialog_win (in_box_y ?w) (input_x ?w + in_box_x ?w), addch dialog_win (Ch (CHR '' '')),
           wmove dialog_win (in_box_y ?w) (input_x ?w + in_box_x ?w), draw (Wrefresh dialog_win)]"
  have "draws (block ?moves)" by (intro drawing)
  then obtain d3 where d3: "block ?moves ?u3 = Done () (?u3\<lparr>drawn := d3\<rparr>)" unfolding draws_def by blast
  let ?u4 = "?u3\<lparr>drawn := d3\<rparr>"
  have c: "input_x v \<noteq> 0 \<or> in_scroll v \<noteq> 0" using False by simp
  have run: "input_backspace v u = Done ?w ?u4"
    unfolding input_backspace_def if_P[OF c] d1
    by (subst andthen_done, rule d2, subst andthen_done, rule pb, subst andthen_done, rule d3) (simp add: give_def)
  have i: "instr ?u4 = (if input_x v = 0 then instr u else butlast (instr u))"
  proof (cases "input_x v = 0")
    case True
    then have "?b = instr u @ nul # r" using ks by (subst r(1)) simp
    then show ?thesis using True cstr_append[of "instr u" r] cstr_no_nul[of "input_result u"] by (simp add: instr_def)
  next
    case False
    then have "instr u \<noteq> []" using k assms by (auto simp: line_ok_def)
    then obtain t c where t: "instr u = t @ [c]" by (metis rev_exhaust)
    have "?b = t @ nul # nul # r" using False ks t by (subst r(1)) (simp add: list_update_append)
    moreover have "nul \<notin> set t" using cstr_no_nul[of "input_result u"] t by (simp add: instr_def)
    ultimately show ?thesis using False t cstr_append[of t "nul # r"] by (simp add: instr_def)
  qed
  have "line_ok ?w ?u4"
    using assms wok ks i by (auto simp: line_ok_def)
  moreover have "same_but u ?u4" by (auto simp: same_but_def)
  ultimately show ?thesis using run i by auto
qed

text \<open>What a key does to a text while the input line is selected; \<open>x\<close> is the column of the cursor.\<close>

definition edited :: "int \<Rightarrow> int \<Rightarrow> string \<Rightarrow> string" where
  "edited key x t =
     (if key \<in> {KEY_BACKSPACE, 127} then (if x = 0 then t else butlast t)
      else if isprint key then take MAX_LEN (t @ [char_of (nat key)]) else t)"

lemma printable_not_nul: "isprint key \<Longrightarrow> char_of (nat key) \<noteq> nul"
proof
  assume k: "isprint key" "char_of (nat key) = nul"
  then have "of_char (char_of (nat key)) = (of_char nul :: nat)" by simp
  moreover have "nat key < 256" "0 < nat key" using k(1) by (auto simp: isprint_def)
  ultimately show False by (simp add: nul_def of_char_of)
qed

lemma input_edit_ok:
  assumes "line_ok v u"
  shows "(input_edit key v u = Done None u \<and> edited key (input_x v) (instr u) = instr u) \<or>
    (\<exists>w u'. input_edit key v u = Done (Some w) u' \<and> line_ok w u' \<and> same_but u u' \<and> in_button w = in_button v \<and>
       in_box_width w = in_box_width v \<and> instr u' = edited key (input_x v) (instr u))"
proof -
  have s: "same_but u u" unfolding same_but_def by (intro exI[of _ "input_result u"] exI[of _ "drawn u"]) simp
  consider "key \<in> {KEY_BACKSPACE, 127}" | "isprint key" | "key \<notin> {KEY_BACKSPACE, 127}" "\<not> isprint key" by blast
  then show ?thesis
  proof cases
    case 1
    obtain w u' where "input_backspace v u = Done w u'" "line_ok w u'" "same_but u u'" "in_button w = in_button v"
      "in_box_width w = in_box_width v" "instr u' = (if input_x v = 0 then instr u else butlast (instr u))"
      using input_backspace_ok[OF assms] by blast
    moreover have "key \<notin> {TAB, KEY_UP, KEY_DOWN}" "key \<notin> {KEY_LEFT, KEY_RIGHT}" using 1 by (auto simp: key_defs)
    ultimately show ?thesis using 1 by (simp add: input_edit_def edited_def andthen_def give_def)
  next
    case 2
    obtain w u' where "input_type (char_of (nat key)) v u = Done w u'" "line_ok w u'" "same_but u u'" "in_button w = in_button v"
      "in_box_width w = in_box_width v" "instr u' = take MAX_LEN (instr u @ [char_of (nat key)])"
      using input_type_ok[OF assms printable_not_nul[OF 2]] by blast
    moreover have "key \<notin> {TAB, KEY_UP, KEY_DOWN}" "key \<notin> {KEY_LEFT, KEY_RIGHT}" "key \<notin> {KEY_BACKSPACE, 127}"
      using 2 by (auto simp: key_defs isprint_def)
    ultimately show ?thesis using 2 by (simp add: input_edit_def edited_def andthen_def give_def)
  next
    case 3
    then show ?thesis using assms s by (auto simp: input_edit_def edited_def give_def)
  qed
qed

text \<open>
  C23.  The input line keeps its place: from a cursor behind the text every key, in whatever order and
  number, leaves the cursor behind the text and inside the field, stays in the buffer, and changes
  the text as it should: a printable character is appended while there is room, a backspace takes the
  last character away unless it only scrolls the field.
\<close>

theorem input_line_invariant:
  assumes "line_ok v u"
  shows "\<exists>r u'. input_edit key v u = Done r u' \<and> instr u' = edited key (input_x v) (instr u) \<and>
    (case r of None \<Rightarrow> line_ok v u' | Some w \<Rightarrow> line_ok w u')"
  using input_edit_ok[OF assms, of key] assms by fastforce

definition ex_line :: input_vars where
  "ex_line = \<lparr>input_x = 0, in_scroll = 0, in_button = - 1, in_box_y = 5, in_box_x = 3, in_box_width = 20\<rparr>"

lemma ex_line_ok: "line_ok ex_line ex_ui"
  by (simp add: line_ok_def ex_line_def ex_ui_def instr_def cstr_def)

lemma input_line_invariant_witness:
  "\<exists>r u'. input_edit 65 ex_line ex_ui = Done r u' \<and> instr u' = ''A''"
  using input_line_invariant[OF ex_line_ok, of 65]
  by (auto simp: edited_def isprint_def key_defs MAX_LEN_def ex_ui_def instr_def cstr_def ex_line_def char_of_def bit_iff_odd)

subsection \<open>A whole dialog\<close>

lemma draws_buttons [drawing]: "draws (input_buttons h w b)" "draws (yesno_buttons h w b)"
  unfolding input_buttons_def yesno_buttons_def two_buttons_def
  by (intro drawing draws_print_button; simp)+

lemma draws_open_frame: "length prompt \<le> MAX_LEN \<Longrightarrow> draws (open_frame cz title prompt h w y x b)"
  unfolding open_frame_def by (intro drawing draws_print_autowrap)

lemma instr_drawn [simp]: "instr (u\<lparr>drawn := d\<rparr>) = instr u"
  by (simp add: instr_def)

text \<open>The cursor and the part of the text that is shown when the field is drawn.\<close>

definition placed :: "int \<Rightarrow> int \<Rightarrow> int \<Rightarrow> ui \<Rightarrow> input_vars \<Rightarrow> input_vars" where
  "placed by bx bw u v =
     (if bw \<le> int (length (instr u))
      then v\<lparr>input_x := bw - 1, in_scroll := int (length (instr u)) - bw + 1, in_box_y := by, in_box_x := bx, in_box_width := bw\<rparr>
      else v\<lparr>input_x := int (length (instr u)), in_box_y := by, in_box_x := bx, in_box_width := bw\<rparr>)"

lemma placed_drawn [simp]: "placed by bx bw (u\<lparr>drawn := d\<rparr>) v = placed by bx bw u v"
  by (simp add: placed_def)

lemma input_field_run:
  assumes Q: "\<And>d. Q (placed by bx bw u v) (u\<lparr>drawn := d\<rparr>)"
  shows "wp b (input_field by bx bw v) u Q"
  using Q unfolding input_field_def placed_def
  by (cases "bw \<le> int (length (instr u))") (simp_all add: Let_def addstr_def, intro wp_draws drawing, simp)

lemma input_layout_run:
  assumes "length prompt \<le> MAX_LEN" "height - 2 < LINES u" "width - 2 < COLS u"
    and Q: "\<And>by d. Q (Some (placed by 3 (width - 6) u v)) (u\<lparr>drawn := d\<rparr>)"
  shows "wp b (input_layout cz title prompt height width v) u Q"
proof -
  have n: "\<not> (LINES u \<le> height - 2 \<or> COLS u \<le> width - 2)" using assms by auto
  have w: "half (width - (width - 6)) = 3" by (simp add: half_def)
  show ?thesis
    unfolding input_layout_def Let_def w
    apply (simp add: n wmove_def del: block.simps)
    apply (intro wp_draws draws_open_frame assms(1))
    apply (simp del: block.simps split: prod.split)
    apply (intro allI impI wp_draws drawing)
    apply (rule input_field_run)
    by (simp add: Q)
qed

lemma placed_ok:
  assumes "length (input_result u) = MAX_LEN + 1" "length (instr u) \<le> MAX_LEN" "1 < bw"
    and "in_scroll v = 0 \<or> bw \<le> int (length (instr u))"
  shows "line_ok (placed by bx bw u v) u"
  using assms by (auto simp: line_ok_def placed_def)

lemma input_type_wp:
  assumes "line_ok v u" "isprint key"
    and "\<And>w u'. line_ok w u' \<Longrightarrow> same_but u u' \<Longrightarrow> in_button w = in_button v \<Longrightarrow>
      instr u' = take MAX_LEN (instr u @ [char_of (nat key)]) \<Longrightarrow> Q (Some w) u'"
  shows "wp b (input_edit key v) u Q"
proof -
  have e: "edited key (input_x v) (instr u) = take MAX_LEN (instr u @ [char_of (nat key)])"
    using assms(2) by (auto simp: edited_def isprint_def key_defs)
  have "input_edit key v u \<noteq> Done None u"
    using assms(2) input_type_ok[OF assms(1) printable_not_nul[OF assms(2)]]
    by (auto simp: input_edit_def isprint_def key_defs andthen_def give_def)
  then obtain w u' where "input_edit key v u = Done (Some w) u'" "line_ok w u'" "same_but u u'" "in_button w = in_button v"
    "instr u' = take MAX_LEN (instr u @ [char_of (nat key)])"
    using input_edit_ok[OF assms(1), of key] e by metis
  then show ?thesis using assms(3) by (simp add: wp_done)
qed

lemma line_ok_keys [simp]: "line_ok v (u\<lparr>key_list := k, LINES := h, COLS := l\<rparr>) = line_ok v u"
  by (simp add: line_ok_def instr_def)

lemma instr_keys [simp]: "instr (u\<lparr>key_list := k, LINES := h, COLS := l\<rparr>) = instr u"
  by (simp add: instr_def)

definition typed :: "int \<Rightarrow> int \<Rightarrow> string \<Rightarrow> (int \<times> int \<times> int) list" where
  "typed h l s = map (\<lambda>c. (int (code c), h, l)) s"

lemma take_take_append: "take n (take n a @ s) = take n (a @ s)"
  by (cases "length a \<le> n") simp_all

lemma input_loop_typed:
  assumes "line_ok v u" "in_button v = - 1" "\<forall>c\<in>set s. isprint (int (code c))"
    "key_list u = typed h l s @ (10, h, l) # rest" "length s < n"
    and Q: "\<And>u'. instr u' = take MAX_LEN (instr u @ s) \<Longrightarrow> key_list u' = rest \<Longrightarrow> Q 0 u'"
  shows "wp b (input_loop n cz title prompt height width v) u Q"
  using assms
proof (induction s arbitrary: v u n)
  case Nil
  have "is_key 10 [CHR '' '', newline]" "\<not> is_key 10 ''Oo''" "\<not> is_key 10 ''Hh''"
    by (simp_all add: is_key_def newline_def code_def)
  then have k: "input_key height width 10 v x = Done (Leave 0) x" for x
    using Nil.prems(2) by (simp add: input_key_def input_edit_def input_switch_def isprint_def key_defs andthen_def give_def Let_def)
  obtain m where n: "n = Suc m" using Nil.prems(5) by (cases n) auto
  have "take MAX_LEN (instr u) = instr u" using Nil.prems(1) by (simp add: line_ok_def)
  then show ?case
    using Nil.prems(4) Nil.prems(6) by (simp add: typed_def wp_wgetch_Cons wp_done[OF k] n)
next
  case (Cons c s)
  obtain m where n: "n = Suc m" "length s < m" using Cons.prems(5) by (cases n) auto
  let ?k = "int (code c)" and ?u = "u\<lparr>key_list := typed h l s @ (10, h, l) # rest, LINES := h, COLS := l\<rparr>"
  have p: "isprint ?k" using Cons.prems(3) by simp
  have c: "char_of (nat ?k) = c" by (simp add: code_def)
  have go: "wp b (input_loop m cz title prompt height width w) u' Q"
    if "line_ok w u'" "same_but ?u u'" "in_button w = in_button v" "instr u' = take MAX_LEN (instr u @ [c])" for w u'
  proof (rule Cons.IH[OF that(1) _ _ _ n(2)])
    show "in_button w = - 1" using that(3) Cons.prems(2) by simp
    show "\<forall>c\<in>set s. isprint (int (code c))" using Cons.prems(3) by simp
    show "key_list u' = typed h l s @ (10, h, l) # rest" using same_but_fields[OF that(2)] by simp
    fix x assume x: "instr x = take MAX_LEN (instr u' @ s)" "key_list x = rest"
    have "instr x = take MAX_LEN (instr u @ c # s)"
      unfolding x(1) that(4) take_take_append by (simp only: append_assoc append_Cons append_Nil)
    then show "Q 0 x" using x(2) by (rule Cons.prems(6))
  qed
  have "wp b (input_key height width ?k v) ?u
      (\<lambda>r x. wp b (case r of Leave x \<Rightarrow> andthen (draw (Delwin dialog_win)) (\<lambda>_. give x)
         | Again w \<Rightarrow> input_loop m cz title prompt height width w
         | Resized w \<Rightarrow> andthen (draw (Delwin dialog_win)) (\<lambda>_. andthen on_key_resize (\<lambda>_.
             input_open m cz title prompt height width w))) x Q)"
    unfolding input_key_def wp_basic
    by (simp add: Cons.prems(2), rule input_type_wp) (use Cons.prems(1) p go c n(1) in \<open>simp_all\<close>)
  then show ?case
    using Cons.prems(4) by (simp add: typed_def wp_wgetch_Cons n(1))
qed

lemma wp_put_byte: "0 \<le> k \<Longrightarrow> nat k < length (input_result u) \<Longrightarrow>
    wp b (put_byte k c) u Q \<longleftrightarrow> Q () (u\<lparr>input_result := (input_result u)[nat k := c]\<rparr>)"
  by (simp add: wp_def put_byte_def)

text \<open>
  C22.  What is typed is what the program gets: on a screen that is large enough, a text of printable characters
  that ends with Enter makes the dialog return 0 with the initial value followed by the typed characters
  in the result, cut at the size of the buffer, and uses up no other key.
\<close>

theorem typed_text_returned:
  assumes "length t0 \<le> MAX_LEN" "nul \<notin> set t0" "length (input_result u) = MAX_LEN + 1" "length prompt \<le> MAX_LEN"
    and "8 \<le> width" "height - 2 < LINES u" "width - 2 < COLS u" "\<forall>c\<in>set s. isprint (int (code c))"
    and "key_list u = typed h l s @ (10, h, l) # rest"
  shows "\<exists>u'. dialog_inputbox cz title prompt height width (Some t0) u = Done 0 u' \<and>
    instr u' = take MAX_LEN (t0 @ s) \<and> key_list u' = rest"
proof -
  let ?r = "t0 @ nul # drop (Suc (length t0)) (input_result u)"
  let ?u = "u\<lparr>input_result := ?r\<rparr>"
  let ?v = "\<lparr>input_x = 0, in_scroll = 0, in_button = - 1, in_box_y = 0, in_box_x = 0, in_box_width = 0\<rparr>"
  have i: "instr ?u = t0" using cstr_append[OF assms(2)] by (simp add: instr_def)
  have len: "length (input_result ?u) = MAX_LEN + 1" using assms(1,3) by simp
  have cp: "strcpy_input t0 u = Done () ?u" using assms(1,3) by (simp add: strcpy_input_def)
  have n: "2 * length (key_list u) = Suc (2 * length (typed h l s) + 2 * length rest + 1)" using assms(9) by simp
  let ?Q = "\<lambda>x u'. x = 0 \<and> instr u' = take MAX_LEN (t0 @ s) \<and> key_list u' = rest"
  have step: "wp {} (input_loop (Suc (2 * length (key_list u))) cz title prompt height width (placed b 3 (width - 6) ?u ?v))
      (?u\<lparr>drawn := d\<rparr>) ?Q" for b d
  proof -
    let ?w = "placed b 3 (width - 6) ?u ?v"
    have "line_ok ?w ?u"
      by (rule placed_ok[OF len]) (use i assms(1,5) in auto)
    then have ok: "line_ok ?w (?u\<lparr>drawn := d\<rparr>)" by (simp add: line_ok_def instr_def)
    show ?thesis
      by (rule input_loop_typed[OF ok _ assms(8)]) (use assms(9) i in \<open>auto simp: placed_def typed_def\<close>)
  qed
  have "wp {} (dialog_inputbox cz title prompt height width (Some t0)) u ?Q"
    unfolding dialog_inputbox_def option.case wp_basic
    apply (subst wp_done, rule cp)
    apply (simp del: input_loop.simps)
    apply (rule input_layout_run[OF assms(4)])
    using step assms(6,7) by (simp_all del: input_loop.simps)
  then show ?thesis by (rule wpE) auto
qed

lemma typed_text_returned_witness:
  "\<exists>u'. dialog_inputbox ex_curses None ''Name?'' 10 75 (Some ''ab'') (ex_ui\<lparr>key_list := typed 24 80 ''cd'' @ [(10, 24, 80)]\<rparr>) =
     Done 0 u' \<and> instr u' = ''abcd'' \<and> key_list u' = []"
  using typed_text_returned[of "''ab''" "ex_ui\<lparr>key_list := typed 24 80 ''cd'' @ [(10, 24, 80)]\<rparr>" "''Name?''" 75 10 "''cd''"
      24 80 "[]" ex_curses None]
  by (simp add: ex_ui_def MAX_LEN_def nul_def isprint_def code_def)

text \<open>
  C28.  A change of the size of the window breaks the input line: when the text was longer than the field and has been
  shortened so that it fits, the layout starts at the first column but keeps the old offset, and the
  next character that is typed is put behind the end of the text and lost.
\<close>

theorem resize_loses_character:
  assumes "line_ok v u" "0 < in_scroll v" "int (length (instr u)) < width - 6" "length prompt \<le> MAX_LEN"
    and "height - 2 < LINES u" "width - 2 < COLS u" "in_scroll v + int (length (instr u)) < int MAX_LEN" "isprint key"
  shows "\<exists>w u'. andthen (input_layout cz title prompt height width v) (\<lambda>r. case r of None \<Rightarrow> give None | Some w \<Rightarrow> input_edit key w) u =
    Done (Some w) u' \<and> instr u' = instr u"
proof -
  let ?w = "\<lambda>b. placed b 3 (width - 6) u v"
  have w: "input_x (?w b) = int (length (instr u))" "in_scroll (?w b) = in_scroll v" "in_box_width (?w b) = width - 6" for b
    using assms(3) by (simp_all add: placed_def)
  obtain r where r: "input_result u = instr u @ nul # r" "length (instr u) + length r = MAX_LEN"
    using line_buffer[OF assms(1)] by blast
  have nn: "nul \<notin> set (instr u)" using cstr_no_nul[of "input_result u"] by (simp add: instr_def)
  have keep: "cstr ((input_result u)[k := c, Suc k := e]) = instr u" if k: "length (instr u) < k" for k c e
  proof -
    obtain j where "k = Suc (length (instr u)) + j" using k less_iff_Suc_add by auto
    then have "(input_result u)[k := c, Suc k := e] = instr u @ nul # r[j := c, Suc j := e]"
      by (subst r(1)) (simp add: list_update_append)
    then show ?thesis using cstr_append[OF nn] by metis
  qed
  have e: "wp {} (input_edit key (?w b)) x Q = wp {} (input_type (char_of (nat key)) (?w b)) x (\<lambda>w. Q (Some w))" for b x Q
    using assms(8) by (simp add: input_edit_def isprint_def key_defs)
  have t: "wp {} (input_type c (?w b)) (u\<lparr>drawn := d\<rparr>) (\<lambda>w x. instr x = instr u)" for c b d
  proof -
    let ?k = "in_scroll v + int (length (instr u))"
    have k: "0 \<le> ?k" "length (instr u) < nat ?k" "nat (?k + 1) = Suc (nat ?k)" using assms(2) by auto
    have l: "nat ?k < length (input_result u)" "Suc (nat ?k) < length (input_result u)"
      using assms(1,7) k by (auto simp: line_ok_def)
    have st: "instr (u\<lparr>input_result := (input_result u)[nat ?k := e, Suc (nat ?k) := nul]\<rparr>) = instr u" for e
      using keep[OF k(2)] by (simp add: instr_def)
    show ?thesis
      unfolding input_type_def Let_def w
      apply (simp add: assms(7) del: block.simps split del: if_split)
      apply (simp only: block.simps wp_basic)
      apply (rule wp_draws, rule draws_basic)
      apply (simp add: wp_put_byte k l del: block.simps split del: if_split)
      apply (rule wp_either)
       apply (simp only: wp_basic block.simps, rule wp_draws, rule drawing)
       apply (rule wp_draws, rule draws_loop, rule drawing, simp add: st)
      apply (simp add: wmove_def addch_def st)
      done
  qed
  have "wp {} (andthen (input_layout cz title prompt height width v)
      (\<lambda>r. case r of None \<Rightarrow> give None | Some w \<Rightarrow> input_edit key w)) u (\<lambda>r x. r \<noteq> None \<and> instr x = instr u)"
    unfolding wp_basic
    by (rule input_layout_run[OF assms(4-6)])
      (simp add: e t)
  then show ?thesis by (rule wpE) auto
qed

text \<open>The text \<^verbatim>\<open>abc\<close> is left of a longer one, so that the field begins at the \<^verbatim>\<open>c\<close>; \<^verbatim>\<open>A\<close> is typed.\<close>

lemma resize_loses_character_witness:
  "\<exists>w u'. andthen (input_layout ex_curses None ''Name?'' 10 75 (ex_line\<lparr>input_x := 1, in_scroll := 2, in_box_width := 69\<rparr>))
       (\<lambda>r. case r of None \<Rightarrow> give None | Some w \<Rightarrow> input_edit 65 w)
       (ex_ui\<lparr>input_result := ''abc'' @ replicate 2046 nul\<rparr>) = Done (Some w) u' \<and> instr u' = ''abc''"
proof -
  let ?u = "ex_ui\<lparr>input_result := ''abc'' @ replicate 2046 nul\<rparr>" and ?v = "ex_line\<lparr>input_x := 1, in_scroll := 2, in_box_width := 69\<rparr>"
  have i: "instr ?u = ''abc''" by (simp add: instr_def cstr_def nul_def)
  have "line_ok ?v ?u" unfolding line_ok_def i by (simp add: MAX_LEN_def ex_line_def)
  then have "\<exists>w u'. andthen (input_layout ex_curses None ''Name?'' 10 75 ?v)
       (\<lambda>r. case r of None \<Rightarrow> give None | Some w \<Rightarrow> input_edit 65 w) ?u = Done (Some w) u' \<and> instr u' = instr ?u"
    by (rule resize_loses_character) (simp_all only: i, simp_all add: MAX_LEN_def ex_line_def ex_ui_def isprint_def)
  then show ?thesis unfolding i .
qed

subsection \<open>The dialogs end\<close>

text \<open>The fuel is never used up: each round reads a key, and it takes at most two calls for every key.\<close>

lemma reads_put_byte [reading]: "reads (put_byte k c)" and reads_strcpy [reading]: "reads (strcpy_input t)"
  by (simp_all add: reads_def wp_def put_byte_def strcpy_input_def)

lemma reads_print_button [reading]: "reads (print_button w l y x b)"
  unfolding print_button_def Let_def by (cases "drop (length (takeWhile (\<lambda>c. c = CHR '' '') l)) l") (simp_all only: list.case, (intro reading drawing)+)

lemma reads_print_autowrap [reading]: "reads (print_autowrap cz w p l y x)"
  by (cases "MAX_LEN < length p") (simp_all add: draws_print_autowrap reads_draws not_less, simp add: print_autowrap_def reads_fault)

lemma reads_open_frame [reading]: "reads (open_frame cz title prompt h w y x b)"
  unfolding open_frame_def by (intro reading drawing)

lemma reads_input_field [reading]: "reads (input_field by bx bw v)"
  unfolding reads_def by (auto intro: input_field_run)

lemma reads_input_layout [reading]: "reads (input_layout cz title prompt h w v)"
  unfolding input_layout_def by (intro reading drawing)

lemma reads_input_edit [reading]: "reads (input_edit key v)"
  unfolding input_edit_def input_type_def input_backspace_def by (intro reading drawing)

lemma reads_input_key [reading]: "reads (input_key h w key v)"
  unfolding input_key_def input_switch_def input_button_def by (intro reading drawing)

lemma reads_on_key_resize [reading]: "reads on_key_resize"
  unfolding on_key_resize_def by (intro reading drawing)

lemma input_ends:
  "2 * length (key_list u) + 1 < n \<Longrightarrow> wp UNIV (input_open n cz title prompt h w v) u (\<lambda>_ _. True)"
  "2 * length (key_list u) < n \<Longrightarrow> wp UNIV (input_loop n cz title prompt h w v) u (\<lambda>_ _. True)"
proof (induction n arbitrary: u v)
  case (Suc n)
  { case 1
    show ?case
      unfolding input_open.simps wp_basic
      by (rule reads_wp, intro reading) (use 1 Suc.IH(2) in \<open>auto split: option.split\<close>) }
  { case 2
    show ?case
      unfolding input_loop.simps wp_basic
    proof (rule wp_wgetch, simp, rule reads_wp, intro reading)
      fix k hh l r and x :: "input_vars step" and y :: ui
      assume k: "key_list u = (k, hh, l) # r" and y: "length (key_list y) \<le> length (key_list (u\<lparr>key_list := r, LINES := hh, COLS := l\<rparr>))"
      show "wp UNIV (case x of Again wa \<Rightarrow> input_loop n cz title prompt h w wa
          | Leave x \<Rightarrow> andthen (draw (Delwin dialog_win)) (\<lambda>_. give x)
          | Resized wa \<Rightarrow> andthen (draw (Delwin dialog_win)) (\<lambda>_. andthen on_key_resize (\<lambda>_.
              input_open n cz title prompt h w wa))) y (\<lambda>_ _. True)"
      proof (cases x)
        case (Resized wa)
        show ?thesis
          unfolding Resized step.case wp_basic wp_draw
          by (rule reads_wp, intro reading, rule Suc.IH(1)) (use k y 2 in auto)
      qed (use k y 2 Suc.IH(2) in auto)
    qed }
qed simp_all

lemma dialog_inputbox_ends: "wp UNIV (dialog_inputbox cz title prompt h w init) u (\<lambda>_ _. True)"
  unfolding dialog_inputbox_def wp_basic
  by (rule reads_wp, intro reading) (simp add: input_ends(1) del: input_open.simps)

lemma yesno_ends:
  "2 * length (key_list u) + 1 < n \<Longrightarrow> wp UNIV (yesno_open n cz title prompt h w b) u (\<lambda>_ _. True)"
  "2 * length (key_list u) < n \<Longrightarrow> wp UNIV (yesno_loop n cz title prompt h w b) u (\<lambda>_ _. True)"
proof (induction n arbitrary: u b)
  case (Suc n)
  { case 1
    show ?case
      unfolding yesno_open.simps wp_basic prod.case
      apply (rule wp_if, simp)
      unfolding wp_basic
      by (rule reads_wp, intro reading, rule reads_wp, intro reading drawing, rule Suc.IH(2)) (use 1 in auto) }
  { case 2
    show ?case
      unfolding yesno_loop.simps wp_basic Let_def
    proof (rule wp_wgetch, simp, intro wp_either, unfold wp_basic wp_draw)
      fix k hh l r
      assume k: "key_list u = (k, hh, l) # r"
      let ?u = "u\<lparr>key_list := r, LINES := hh, COLS := l\<rparr>"
      have ih: "wp UNIV (yesno_loop n cz title prompt h w b) y (\<lambda>_ _. True)"
        "wp UNIV (yesno_open n cz title prompt h w b) y (\<lambda>_ _. True)"
        if "length (key_list y) \<le> length (key_list ?u)" for y b
        using Suc.IH that 2 k by auto
      show "wp UNIV (block [yesno_buttons h w e, draw (Wrefresh dialog_win)]) ?u
          (\<lambda>_ v. wp UNIV (yesno_loop n cz title prompt h w e) v (\<lambda>_ _. True))" for e
        by (rule wp_draws, intro drawing, rule ih) simp
      show "wp UNIV (on_key_esc dialog_win) ?u (\<lambda>k v. wp UNIV
          (if k = KEY_ESC then andthen (draw (Delwin dialog_win)) (\<lambda>_. give k) else yesno_loop n cz title prompt h w b) v (\<lambda>_ _. True))"
        by (rule reads_wp, intro reading) (auto intro!: ih)
      show "wp UNIV on_key_resize (?u\<lparr>drawn := drawn ?u @ [Delwin dialog_win]\<rparr>)
          (\<lambda>_ v. wp UNIV (yesno_open n cz title prompt h w b) v (\<lambda>_ _. True))"
        by (rule reads_wp, intro reading, rule ih) simp
      show "wp UNIV (yesno_loop n cz title prompt h w b) ?u (\<lambda>_ _. True)" by (rule ih) simp
    qed simp_all }
qed simp_all

lemma dialog_yesno_ends: "wp UNIV (dialog_yesno cz title prompt h w) u (\<lambda>_ _. True)"
  unfolding dialog_yesno_def wp_basic by (rule yesno_ends(1)) simp

end
