(* ===== verification/DialogMenu.thy ===== *)
theory DialogMenu
  imports DialogInput
begin

text \<open>
  The dialog with a menu (\<^verbatim>\<open>lxdialog/menubox.c\<close>): the items are shown in a window that is scrolled over
  the list, with one item highlighted.
\<close>

text \<open>\<open>mn_first\<close> is \<^verbatim>\<open>first_item\<close>; the fields behind \<open>mn_button\<close> are those of the layout.\<close>

record menu_vars =
  mn_choice :: int
  mn_scroll :: int
  mn_first :: int
  mn_button :: int
  mn_height :: int
  mn_width :: int
  mn_max :: int
  mn_list_height :: int
  mn_list_width :: int
  mn_item_x :: int
  mn_box_y :: int
  mn_box_x :: int

subsection \<open>Items, arrows and buttons\<close>

text \<open>The character at a place of a string, with the terminating zero.\<close>

definition str_at :: "string \<Rightarrow> nat \<Rightarrow> char" where
  "str_at s j = (if j < length s then s ! j else nul)"

definition do_print_item :: "menu_vars \<Rightarrow> string \<Rightarrow> int \<Rightarrow> bool \<Rightarrow> bool \<Rightarrow> unit ui_act" where
  "do_print_item v item line_y selected hotkey =
     (let menu_item = take (nat (mn_list_width v - mn_item_x v)) item; j = first_alpha menu_item ''YyNnMmHh'' in
      block
        [attrset inner_win ''menubox'', wmove inner_win line_y 0, draw (Wclrtoeol inner_win),
         attrset inner_win (if selected then ''item_selected'' else ''item''), wmove inner_win line_y (mn_item_x v),
         addstr inner_win menu_item,
         if hotkey then
           block
             [attrset inner_win (if selected then ''tag_key_selected'' else ''tag_key''),
              wmove inner_win line_y (mn_item_x v + int j), addch inner_win (Ch (str_at menu_item j))]
         else give (),
         if selected then wmove inner_win line_y (mn_item_x v + 1) else give (),
         draw (Wrefresh inner_win)])"

definition menu_item_at :: "menu_vars \<Rightarrow> int \<Rightarrow> int \<Rightarrow> bool \<Rightarrow> unit ui_act" where
  "menu_item_at v index choice selected =
     andthen (item_set index) (\<lambda>_.
     andthen item_str (\<lambda>s.
     andthen (item_is_tag (CHR '':'')) (\<lambda>sep.
     do_print_item v s choice selected (\<not> sep))))"

definition menu_arrows :: "curses \<Rightarrow> win \<Rightarrow> int \<Rightarrow> int \<Rightarrow> int \<Rightarrow> int \<Rightarrow> int \<Rightarrow> unit ui_act" where
  "menu_arrows cz w item_no scroll y x height =
     andthen (getyx cz w) (\<lambda>(cur_y, cur_x).
     block
       [wmove w y x,
        if 0 < scroll then block [attrset w ''uarrow'', addch w ACS_UARROW, addstr w ''(-)'']
        else block [attrset w ''menubox'', addch w ACS_HLINE, addch w ACS_HLINE, addch w ACS_HLINE, addch w ACS_HLINE],
        wmove w (y + height + 1) x, draw (Wrefresh w),
        if height < item_no \<and> scroll + height < item_no
        then block [attrset w ''darrow'', addch w ACS_DARROW, addstr w ''(+)'']
        else block [attrset w ''menubox_border'', addch w ACS_HLINE, addch w ACS_HLINE, addch w ACS_HLINE, addch w ACS_HLINE],
        wmove w cur_y cur_x, draw (Wrefresh w)])"

definition menu_buttons :: "int \<Rightarrow> int \<Rightarrow> int \<Rightarrow> unit ui_act" where
  "menu_buttons height width selected =
     (let x = half width - 16; y = height - 2 in
      block
        [print_button dialog_win ''Select'' y x (selected = 0), print_button dialog_win '' Exit '' y (x + 12) (selected = 1),
         print_button dialog_win '' Help '' y (x + 24) (selected = 2),
         wmove dialog_win y (x + 1 + 12 * selected), draw (Wrefresh dialog_win)])"

definition do_scroll :: "int \<Rightarrow> menu_vars \<Rightarrow> menu_vars ui_act" where
  "do_scroll n v =
     andthen (block [draw (Scrollok inner_win True), draw (Wscrl inner_win n), draw (Scrollok inner_win False),
       draw (Wrefresh inner_win)]) (\<lambda>_.
     give (v\<lparr>mn_scroll := mn_scroll v + n\<rparr>))"

definition show_arrows :: "curses \<Rightarrow> menu_vars \<Rightarrow> unit ui_act" where
  "show_arrows cz v =
     andthen item_count (\<lambda>n.
     menu_arrows cz dialog_win n (mn_scroll v) (mn_box_y v) (mn_box_x v + mn_item_x v + 1) (mn_list_height v))"

subsection \<open>The layout\<close>

text \<open>The last item with the data \<open>selected\<close>; without one the choice stays.\<close>

definition last_index :: "('a \<Rightarrow> bool) \<Rightarrow> 'a list \<Rightarrow> int \<Rightarrow> int" where
  "last_index P xs d = (let k = length (takeWhile (\<lambda>x. \<not> P x) (rev xs)) in if k < length xs then int (length xs) - 1 - int k else d)"

definition default_choice :: "nat option \<Rightarrow> int \<Rightarrow> int ui_act" where
  "default_choice selected choice =
     andthen (peek (\<lambda>u. if selected \<noteq> None then last_index (\<lambda>i. it_data i = selected) (items u) choice else choice)) (\<lambda>c.
     andthen (poke (\<lambda>u. stop_at (length (items u)) u)) (\<lambda>_. give c))"

text \<open>Where the window stands over the list: \<open>s\<close> is the saved place, \<open>n\<close> the number of items.\<close>

definition place_window :: "int \<Rightarrow> int \<Rightarrow> int \<Rightarrow> menu_vars \<Rightarrow> menu_vars" where
  "place_window s n choice v =
     (let m = mn_max v;
          v1 = (if s \<le> choice \<and> choice < s + m \<and> 0 \<le> s \<and> s + m \<le> n
                then v\<lparr>mn_scroll := s, mn_first := s, mn_choice := choice - s\<rparr>
                else v\<lparr>mn_scroll := 0, mn_choice := choice\<rparr>) in
      if m \<le> mn_choice v1 then
        let sc = (if n - half m \<le> mn_choice v1 then n - m else mn_choice v1 - half m) in
        v1\<lparr>mn_scroll := sc, mn_first := sc, mn_choice := mn_choice v1 - sc\<rparr>
      else v1)"

definition print_menu :: "menu_vars \<Rightarrow> unit ui_act" where
  "print_menu v = loop_to (mn_max v) (\<lambda>i. menu_item_at v (mn_first v + i) i (i = mn_choice v))"

definition menu_layout ::
    "curses \<Rightarrow> string option \<Rightarrow> string \<Rightarrow> nat option \<Rightarrow> int \<Rightarrow> menu_vars \<Rightarrow> menu_vars option ui_act" where
  "menu_layout cz title prompt selected s_scroll v =
     andthen (peek (\<lambda>u. (LINES u, COLS u))) (\<lambda>(lns, cls).
     if lns < 15 \<or> cls < 65 then give None
     else
       andthen item_count (\<lambda>n.
       let height = lns - 4; width = cls - 5; mh = height - 10; m = (if mh < n then mh else n);
           x = half (cls - width); y = half (lns - height); mw = width - 6; box_y = height - mh - 5; box_x = half (width - mw) - 1;
           w = v\<lparr>mn_height := height, mn_width := width, mn_max := m, mn_list_height := mh, mn_list_width := mw,
                 mn_item_x := (if 80 \<le> mw then half (mw - 70) else 4), mn_box_y := box_y, mn_box_x := box_x\<rparr> in
       andthen (open_frame cz title prompt height width y x True) (\<lambda>_.
       andthen (block
         [draw (Newwin inner_win mh mw (y + box_y + 1) (x + box_x + 1)), draw (Keypad inner_win True),
          draw_box dialog_win box_y box_x (mh + 2) (mw + 2) ''menubox_border'' ''menubox'']) (\<lambda>_.
       andthen (default_choice selected (mn_choice v)) (\<lambda>c.
       let p = place_window s_scroll n c w in
       andthen (print_menu p) (\<lambda>_.
       andthen (block
         [draw (Wnoutrefresh inner_win), show_arrows cz p, menu_buttons height width 0,
          wmove inner_win (mn_choice p) (mn_item_x p + 1), draw (Wrefresh inner_win)]) (\<lambda>_.
       give (Some p))))))))"

subsection \<open>Keys\<close>

text \<open>The first of the items at \<open>is\<close> in the window whose hot key is \<open>key\<close>.\<close>

fun hot_search :: "int \<Rightarrow> int \<Rightarrow> int list \<Rightarrow> int option ui_act" where
  "hot_search scroll key [] = give None"
| "hot_search scroll key (i # is) =
     andthen (item_set (scroll + i)) (\<lambda>_.
     andthen item_str (\<lambda>s.
     if key = char_num (tolower (str_at s (first_alpha s ''YyNnMmHh''))) then give (Some i)
     else hot_search scroll key is))"

text \<open>\<^verbatim>\<open>strchr("ynmh", key)\<close> looks at the low byte of the key, and finds the zero byte as well.\<close>

definition hot_item :: "int \<Rightarrow> menu_vars \<Rightarrow> int option ui_act" where
  "hot_item key v =
     (if is_key (key mod 256) (nul # ''ynmh'') then give None
      else
        andthen (hot_search (mn_scroll v) key [mn_choice v + 1..mn_max v - 1]) (\<lambda>r.
        case r of Some i \<Rightarrow> give (Some i) | None \<Rightarrow> hot_search (mn_scroll v) key [0..mn_max v - 1]))"

definition lower_key :: "int \<Rightarrow> int" where
  "lower_key key = (if 0 \<le> key \<and> key < 256 \<and> isalpha (char_of (nat key)) then int (code (tolower (char_of (nat key)))) else key)"

text \<open>One step of a page up or down.\<close>

definition line_up :: "menu_vars \<Rightarrow> menu_vars ui_act" where
  "line_up v =
     (if 0 < mn_scroll v then
        andthen (do_scroll (- 1) v) (\<lambda>w. andthen (menu_item_at w (mn_scroll w) 0 False) (\<lambda>_. give w))
      else if 0 < mn_choice v then give (v\<lparr>mn_choice := mn_choice v - 1\<rparr>)
      else give v)"

definition line_down :: "menu_vars \<Rightarrow> menu_vars ui_act" where
  "line_down v =
     andthen item_count (\<lambda>n.
     if mn_scroll v + mn_max v < n then
       andthen (do_scroll 1 v) (\<lambda>w.
       andthen (menu_item_at w (mn_scroll w + mn_max w - 1) (mn_max w - 1) False) (\<lambda>_. give w))
     else if mn_choice v + 1 < mn_max v then give (v\<lparr>mn_choice := mn_choice v + 1\<rparr>)
     else give v)"

fun repeated :: "nat \<Rightarrow> ('v \<Rightarrow> 'v ui_act) \<Rightarrow> 'v \<Rightarrow> 'v ui_act" where
  "repeated 0 p v = give v"
| "repeated (Suc n) p v = andthen (p v) (repeated n p)"

definition menu_move :: "int \<Rightarrow> int option \<Rightarrow> menu_vars \<Rightarrow> menu_vars ui_act" where
  "menu_move key hot v =
     (if key = KEY_UP \<or> is_key key ''-'' then
        if mn_choice v < 2 \<and> mn_scroll v \<noteq> 0 then
          andthen (do_scroll (- 1) v) (\<lambda>w. andthen (menu_item_at w (mn_scroll w) 0 False) (\<lambda>_. give w))
        else give (v\<lparr>mn_choice := max (mn_choice v - 1) 0\<rparr>)
      else if key = KEY_DOWN \<or> is_key key ''+'' then
        andthen (menu_item_at v (mn_scroll v + mn_choice v) (mn_choice v) False) (\<lambda>_.
        andthen item_count (\<lambda>n.
        if mn_max v - 3 < mn_choice v \<and> mn_scroll v + mn_max v < n then
          andthen (do_scroll 1 v) (\<lambda>w.
          andthen (menu_item_at w (mn_scroll w + mn_max w - 1) (mn_max w - 1) False) (\<lambda>_. give w))
        else give (v\<lparr>mn_choice := min (mn_choice v + 1) (mn_max v - 1)\<rparr>)))
      else if key = KEY_PPAGE then
        andthen (draw (Scrollok inner_win True)) (\<lambda>_. repeated (nat (mn_max v)) line_up v)
      else if key = KEY_NPAGE then repeated (nat (mn_max v)) line_down v
      else give (case hot of Some i \<Rightarrow> v\<lparr>mn_choice := i\<rparr> | None \<Rightarrow> v))"

definition is_move :: "int \<Rightarrow> bool" where
  "is_move key \<longleftrightarrow> key \<in> {KEY_UP, KEY_DOWN, KEY_PPAGE, KEY_NPAGE} \<or> is_key key ''-+''"

definition menu_moved :: "curses \<Rightarrow> int \<Rightarrow> int option \<Rightarrow> menu_vars \<Rightarrow> menu_vars ui_act" where
  "menu_moved cz key hot v =
     andthen (menu_item_at v (mn_scroll v + mn_choice v) (mn_choice v) False) (\<lambda>_.
     andthen (menu_move key hot v) (\<lambda>w.
     andthen (menu_item_at w (mn_scroll w + mn_choice w) (mn_choice w) True) (\<lambda>_.
     andthen (block [show_arrows cz w, draw (Wnoutrefresh dialog_win), draw (Wrefresh inner_win)]) (\<lambda>_.
     give w))))"

definition menu_result :: "int \<Rightarrow> int \<Rightarrow> int" where
  "menu_result key button =
     (if is_key key ''h?'' then 2 else if is_key key ''sy'' then 3 else if is_key key ''n'' then 4
      else if is_key key ''m'' then 5 else if is_key key '' '' then 6 else if is_key key ''/'' then 7
      else if is_key key ''z'' then 8 else button)"

definition close_windows :: "unit ui_act" where
  "close_windows = block [draw (Delwin inner_win), draw (Delwin dialog_win)]"

text \<open>A key; the value of the step \<open>Leave\<close> goes with the place that is saved.\<close>

definition menu_key :: "curses \<Rightarrow> int \<Rightarrow> menu_vars \<Rightarrow> int \<Rightarrow> (menu_vars step \<times> int) ui_act" where
  "menu_key cz key0 v s =
     (let key = lower_key key0 in
      andthen (hot_item key v) (\<lambda>hot.
      if hot \<noteq> None \<or> is_move key then
        andthen (menu_moved cz key hot v) (\<lambda>w.
        if key = KEY_ESC then andthen close_windows (\<lambda>_. give (Leave KEY_ESC, s)) else give (Again w, s))
      else if key \<in> {KEY_LEFT, TAB, KEY_RIGHT} then
        let b = (if key = KEY_LEFT then mn_button v - 1 else mn_button v + 1); b1 = (if b < 0 then 2 else if b > 2 then 0 else b) in
        andthen (block [menu_buttons (mn_height v) (mn_width v) b1, draw (Wrefresh inner_win)]) (\<lambda>_.
        give (Again (v\<lparr>mn_button := b1\<rparr>), s))
      else if is_key key ('' synm/h?z'' @ [newline]) then
        andthen close_windows (\<lambda>_.
        andthen (item_set (mn_scroll v + mn_choice v)) (\<lambda>_.
        andthen (item_set_selected True) (\<lambda>_.
        give (Leave (menu_result key (mn_button v)), mn_scroll v))))
      else if is_key key ''ex'' then andthen close_windows (\<lambda>_. give (Leave KEY_ESC, s))
      else if key = KEY_ESC then
        andthen (on_key_esc inner_win) (\<lambda>k.
        if k = KEY_ESC then andthen close_windows (\<lambda>_. give (Leave KEY_ESC, s)) else give (Again v, s))
      else if key = KEY_RESIZE then
        andthen on_key_resize (\<lambda>_. andthen close_windows (\<lambda>_. give (Resized v, s)))
      else give (Again v, s)))"

fun menu_open :: "nat \<Rightarrow> curses \<Rightarrow> string option \<Rightarrow> string \<Rightarrow> nat option \<Rightarrow> int \<Rightarrow> menu_vars \<Rightarrow> (int \<times> int) ui_act"
  and menu_loop :: "nat \<Rightarrow> curses \<Rightarrow> string option \<Rightarrow> string \<Rightarrow> nat option \<Rightarrow> int \<Rightarrow> menu_vars \<Rightarrow> (int \<times> int) ui_act" where
  "menu_open 0 cz title prompt selected s v = spent"
| "menu_open (Suc n) cz title prompt selected s v =
     andthen (menu_layout cz title prompt selected s v) (\<lambda>r.
     case r of None \<Rightarrow> give (- ERRDISPLAYTOOSMALL, s) | Some w \<Rightarrow> menu_loop n cz title prompt selected s w)"
| "menu_loop 0 cz title prompt selected s v = spent"
| "menu_loop (Suc n) cz title prompt selected s v =
     andthen (wgetch inner_win) (\<lambda>key.
     andthen (menu_key cz key v s) (\<lambda>(r, s1).
     case r of
       Leave x \<Rightarrow> give (x, s1)
     | Again w \<Rightarrow> menu_loop n cz title prompt selected s1 w
     | Resized w \<Rightarrow> menu_open n cz title prompt selected s1 w))"

definition menu_start :: menu_vars where
  "menu_start = \<lparr>mn_choice = 0, mn_scroll = 0, mn_first = 0, mn_button = 0, mn_height = 0, mn_width = 0, mn_max = 0,
     mn_list_height = 0, mn_list_width = 0, mn_item_x = 0, mn_box_y = 0, mn_box_x = 0\<rparr>"

text \<open>The result and the place \<^verbatim>\<open>*s_scroll\<close> that is saved.\<close>

definition dialog_menu :: "curses \<Rightarrow> string option \<Rightarrow> string \<Rightarrow> nat option \<Rightarrow> int \<Rightarrow> (int \<times> int) ui_act" where
  "dialog_menu cz title prompt selected s_scroll =
     andthen (peek (\<lambda>u. length (key_list u))) (\<lambda>n. menu_open (2 * n + 2) cz title prompt selected s_scroll menu_start)"

subsection \<open>The window over the list\<close>

text \<open>At most the screen and the current item differ.\<close>

definition shown :: "ui \<Rightarrow> ui \<Rightarrow> bool" where
  "shown u u' \<longleftrightarrow> items u' = items u \<and> item_nil u' = item_nil u \<and> key_list u' = key_list u \<and> input_result u' = input_result u"

lemma shown_refl [simp]: "shown u u" "shown u (u\<lparr>drawn := d\<rparr>)" "shown u (u\<lparr>item_cur := c, drawn := d\<rparr>)" "shown u (u\<lparr>item_cur := c\<rparr>)"
  by (simp_all add: shown_def)

lemma shown_trans: "shown u v \<Longrightarrow> shown v w \<Longrightarrow> shown u w"
  by (simp add: shown_def)

lemma draws_do_print_item [drawing]: "draws (do_print_item v s y a b)"
  unfolding do_print_item_def by (intro drawing)

lemma draws_menu_arrows [drawing]: "draws (menu_arrows cz w n s y x h)"
  unfolding menu_arrows_def getyx_def by (intro drawing)

lemma draws_show_arrows [drawing]: "draws (show_arrows cz v)"
  unfolding show_arrows_def item_count_def by (intro drawing)

lemma draws_menu_buttons [drawing]: "draws (menu_buttons h w b)"
  unfolding menu_buttons_def by (intro drawing draws_print_button; simp)+

lemma draws_close_windows [drawing]: "draws close_windows"
  unfolding close_windows_def by (intro drawing)

definition in_list :: "int \<Rightarrow> ui \<Rightarrow> bool" where
  "in_list k u \<longleftrightarrow> 0 \<le> k \<and> k < int (length (items u))"

lemma in_list_shown: "shown u u' \<Longrightarrow> in_list k u' = in_list k u"
  by (simp add: shown_def in_list_def)

lemma wp_item_set:
  "in_list k u \<Longrightarrow> wp b (item_set k) u Q \<longleftrightarrow> Q () (u\<lparr>item_cur := Item (nat k)\<rparr>)"
  by (auto simp: item_set_def stop_at_def in_list_def)

lemma wp_cur_item: "item_cur u = Item k \<Longrightarrow> k < length (items u) \<Longrightarrow>
    wp b item_str u Q \<longleftrightarrow> Q (it_str (items u ! k)) u"
  "item_cur u = Item k \<Longrightarrow> k < length (items u) \<Longrightarrow> wp b (item_is_tag t) u R \<longleftrightarrow> R (it_tag (items u ! k) = t) u"
  by (simp_all add: wp_def item_str_def item_is_tag_def cur_item_def andthen_def give_def)

lemma wp_menu_item_at:
  assumes "in_list k u" "\<And>u'. shown u u' \<Longrightarrow> Q () u'"
  shows "wp b (menu_item_at v k c sel) u Q"
proof -
  have "nat k < length (items u)" using assms(1) by (auto simp: in_list_def)
  then show ?thesis
    unfolding menu_item_at_def wp_basic wp_item_set[OF assms(1)]
    by (simp add: wp_cur_item) (intro wp_draws drawing assms(2), simp)
qed

lemma wp_hot_search:
  assumes "\<forall>i\<in>set is. in_list (sc + i) u" "\<And>r u'. shown u u' \<Longrightarrow> r = None \<or> r \<in> Some ` set is \<Longrightarrow> Q r u'"
  shows "wp b (hot_search sc key is) u Q"
  using assms
proof (induction "is" arbitrary: u)
  case (Cons i "is")
  have i: "in_list (sc + i) u" using Cons.prems(1) by simp
  then have k: "nat (sc + i) < length (items u)" by (auto simp: in_list_def)
  let ?u = "u\<lparr>item_cur := Item (nat (sc + i))\<rparr>"
  have "wp b (hot_search sc key is) ?u Q"
    by (rule Cons.IH) (use Cons.prems in \<open>auto simp: in_list_def intro!: Cons.prems(2) dest: shown_trans[OF shown_refl(4)]\<close>)
  moreover have "Q (Some i) ?u" by (rule Cons.prems(2)) simp_all
  ultimately show ?case
    unfolding hot_search.simps wp_basic wp_item_set[OF i] using k by (simp add: wp_cur_item)
qed simp

text \<open>
  The highlighted item is in the window, and the window over the list.
\<close>

definition menu_ok :: "menu_vars \<Rightarrow> ui \<Rightarrow> bool" where
  "menu_ok v u \<longleftrightarrow> 0 \<le> mn_choice v \<and> mn_choice v < mn_max v \<and> 0 \<le> mn_scroll v \<and> mn_scroll v + mn_max v \<le> int (length (items u))"

lemma menu_ok_shown: "shown u u' \<Longrightarrow> menu_ok v u' = menu_ok v u"
  by (simp add: shown_def menu_ok_def)

lemma menu_ok_in_list: "menu_ok v u \<Longrightarrow> 0 \<le> i \<Longrightarrow> i < mn_max v \<Longrightarrow> in_list (mn_scroll v + i) u"
  by (simp add: menu_ok_def in_list_def)

lemma wp_item_count [simp]: "wp b item_count u Q \<longleftrightarrow> Q (int (length (items u))) u"
  by (simp add: item_count_def)

lemma wp_do_scroll [simp]: "wp b (do_scroll n v) u Q \<longleftrightarrow>
    Q (v\<lparr>mn_scroll := mn_scroll v + n\<rparr>) (u\<lparr>drawn := drawn u @ [Scrollok inner_win True, Wscrl inner_win n, Scrollok inner_win False,
      Wrefresh inner_win]\<rparr>)"
  by (simp add: do_scroll_def)

definition stays_ok :: "menu_vars \<Rightarrow> ui \<Rightarrow> menu_vars \<Rightarrow> ui \<Rightarrow> bool" where
  "stays_ok v u w u' \<longleftrightarrow> shown u u' \<and> menu_ok w u'"

lemma stays_trans: "stays_ok v u w u' \<Longrightarrow> stays_ok w u' x u'' \<Longrightarrow> stays_ok v u x u''"
  by (auto simp: stays_ok_def intro: shown_trans)

lemma line_up_ok: "menu_ok v u \<Longrightarrow> wp b (line_up v) u (stays_ok v u)"
  unfolding line_up_def
  by (auto simp: stays_ok_def menu_ok_shown intro!: wp_menu_item_at elim: shown_trans[rotated])
    (auto simp: menu_ok_def in_list_def shown_def)

lemma line_down_ok: "menu_ok v u \<Longrightarrow> wp b (line_down v) u (stays_ok v u)"
  unfolding line_down_def
  by (auto simp: stays_ok_def menu_ok_shown intro!: wp_menu_item_at elim: shown_trans[rotated])
    (auto simp: menu_ok_def in_list_def shown_def)

lemma repeated_ok:
  assumes "\<And>v u. menu_ok v u \<Longrightarrow> wp b (p v) u (stays_ok v u)" "menu_ok v u"
  shows "wp b (repeated n p v) u (stays_ok v u)"
  using assms(2)
proof (induction n arbitrary: v u)
  case (Suc n)
  show ?case
    unfolding repeated.simps wp_basic
  proof (rule wp_weaken[OF assms(1)[OF Suc.prems]])
    fix w u' assume w: "stays_ok v u w u'"
    then have "menu_ok w u'" by (simp add: stays_ok_def)
    from Suc.IH[OF this] show "wp b (repeated n p w) u' (stays_ok v u)"
      by (rule wp_weaken) (rule stays_trans[OF w])
  qed
qed (simp add: stays_ok_def)

lemma menu_move_ok:
  assumes "menu_ok v u" "hot = None \<or> hot \<in> Some ` {0..<mn_max v}"
  shows "wp b (menu_move key hot v) u (stays_ok v u)"
proof -
  have m: "menu_ok (v\<lparr>mn_choice := c\<rparr>) u" if "0 \<le> c" "c < mn_max v" for c using assms(1) that by (simp add: menu_ok_def)
  have up: "stays_ok v u (v\<lparr>mn_choice := c\<rparr>) u'" if "0 \<le> c" "c < mn_max v" "shown u u'" for c u'
    using m[OF that(1,2)] that(3) by (simp add: stays_ok_def menu_ok_shown)
  show ?thesis
    unfolding menu_move_def
    apply (rule wp_if)
     apply (rule wp_if)
      apply (simp, rule wp_menu_item_at)
    subgoal using assms(1) by (auto simp: menu_ok_def in_list_def)
    subgoal using assms(1) by (auto simp: stays_ok_def menu_ok_def shown_def)
     apply (simp, rule up)
    subgoal using assms(1) by (simp add: menu_ok_def)
    subgoal using assms(1) by (auto simp: menu_ok_def)
     apply simp
    apply (rule wp_if)
     apply (simp, rule wp_menu_item_at, rule menu_ok_in_list[OF assms(1)])
    subgoal using assms(1) by (simp add: menu_ok_def)
    subgoal using assms(1) by (simp add: menu_ok_def)
     apply (rule conjI; rule impI; simp?)
    subgoal using assms(1) by (intro wp_menu_item_at) (auto simp: menu_ok_def in_list_def shown_def stays_ok_def)
    subgoal using assms(1) by (intro up) (auto simp: menu_ok_def)
    apply (rule wp_if)
    subgoal
      apply (simp, rule wp_weaken[OF repeated_ok[OF line_up_ok]])
      using assms(1) by (auto simp: menu_ok_def shown_def stays_ok_def)
    apply (rule wp_if)
    subgoal using repeated_ok[OF line_down_ok] assms(1) by blast
    subgoal using assms up by (auto simp: stays_ok_def split: option.split)
    done
qed

lemma hot_item_ok:
  assumes "menu_ok v u" "\<And>r u'. shown u u' \<Longrightarrow> r = None \<or> r \<in> Some ` {0..<mn_max v} \<Longrightarrow> Q r u'"
  shows "wp b (hot_item key v) u Q"
proof -
  have inl: "in_list (mn_scroll v + i) u" if "0 \<le> i" "i < mn_max v" for i
    by (rule menu_ok_in_list[OF assms(1) that])
  have c: "0 \<le> mn_choice v" using assms(1) by (simp add: menu_ok_def)
  show ?thesis
    unfolding hot_item_def
    apply (rule wp_if)
     apply (simp add: assms(2))
    apply (simp only: wp_basic, rule wp_hot_search)
    subgoal using inl c by auto
    subgoal premises p for r u'
      using p(3) apply (cases r)
       apply (simp, rule wp_hot_search)
      subgoal using inl p(2) by (auto simp: in_list_shown)
      subgoal using p(2) by (intro assms(2)) (auto intro: shown_trans)
      subgoal using p(2) c by (auto intro!: assms(2))
      done
    done
qed

definition same_list :: "ui \<Rightarrow> ui \<Rightarrow> bool" where
  "same_list u u' \<longleftrightarrow> items u' = items u \<and> input_result u' = input_result u \<and> length (key_list u') \<le> length (key_list u) \<and>
     (resizes u' \<longrightarrow> resizes u)"

lemma shown_same_list: "shown u u' \<Longrightarrow> same_list u u'"
  by (simp add: shown_def same_list_def resizes_def)

lemma same_list_trans: "same_list u v \<Longrightarrow> same_list v w \<Longrightarrow> same_list u w"
  by (auto simp: same_list_def)

lemma draws_on_key_resize: "(\<And>d. Q KEY_RESIZE (u\<lparr>drawn := d\<rparr>)) \<Longrightarrow> wp b on_key_resize u Q"
  unfolding on_key_resize_def wp_basic by (rule wp_draws[OF draws_dialog_clear])

lemma wp_select: "in_list k u \<Longrightarrow> wp b (andthen (item_set k) (\<lambda>_. item_set_selected True)) u Q \<longleftrightarrow>
    Q () (u\<lparr>item_cur := Item (nat k), items := (items u)[nat k := (items u ! nat k)\<lparr>it_selected := True\<rparr>]\<rparr>)"
  by (simp add: wp_item_set) (auto simp: wp_def item_set_selected_def change_item_def in_list_def)

text \<open>What a key may lead to, from a window over the list that is in order.\<close>

definition menu_outcome :: "menu_vars \<Rightarrow> ui \<Rightarrow> int \<Rightarrow> menu_vars step \<Rightarrow> int \<Rightarrow> int \<Rightarrow> ui \<Rightarrow> bool" where
  "menu_outcome v u key r s s1 u' \<longleftrightarrow>
     (case r of
        Again w \<Rightarrow> same_list u u' \<and> menu_ok w u' \<and> s1 = s
      | Resized w \<Rightarrow> same_list u u' \<and> s1 = s \<and> key = KEY_RESIZE
      | Leave x \<Rightarrow>
          x = KEY_ESC \<and> same_list u u' \<and> s1 = s \<or>
          items u' = (items u)[nat (mn_scroll v + mn_choice v) := (items u ! nat (mn_scroll v + mn_choice v))\<lparr>it_selected := True\<rparr>] \<and>
          item_cur u' = Item (nat (mn_scroll v + mn_choice v)) \<and> length (key_list u') \<le> length (key_list u) \<and> s1 = mn_scroll v)"

text \<open>
  The highlighted item always exists: from a window that lies over the list, with the highlight inside it,
  every key (arrows, pages, hot keys, buttons, the keys of the actions) gives such a window again, or
  marks exactly the highlighted item as selected, makes it the current one and saves the place of the window,
  or leaves the list as it is.
\<close>

lemma menu_key_ok:
  assumes "menu_ok v u"
  shows "wp {waits} (menu_key cz key v s) u (\<lambda>(r, s1). menu_outcome v u (lower_key key) r s s1)"
proof -
  have c: "0 \<le> mn_choice v" "mn_choice v < mn_max v" using assms by (simp_all add: menu_ok_def)
  have step: "wp {waits} (if hot \<noteq> None \<or> is_move k then
        andthen (menu_moved cz k hot v) (\<lambda>w.
        if k = KEY_ESC then andthen close_windows (\<lambda>_. give (Leave KEY_ESC, s)) else give (Again w, s))
      else if k \<in> {KEY_LEFT, TAB, KEY_RIGHT} then
        let b = (if k = KEY_LEFT then mn_button v - 1 else mn_button v + 1); b1 = (if b < 0 then 2 else if b > 2 then 0 else b) in
        andthen (block [menu_buttons (mn_height v) (mn_width v) b1, draw (Wrefresh inner_win)]) (\<lambda>_.
        give (Again (v\<lparr>mn_button := b1\<rparr>), s))
      else if is_key k ('' synm/h?z'' @ [newline]) then
        andthen close_windows (\<lambda>_.
        andthen (item_set (mn_scroll v + mn_choice v)) (\<lambda>_.
        andthen (item_set_selected True) (\<lambda>_.
        give (Leave (menu_result k (mn_button v)), mn_scroll v))))
      else if is_key k ''ex'' then andthen close_windows (\<lambda>_. give (Leave KEY_ESC, s))
      else if k = KEY_ESC then
        andthen (on_key_esc inner_win) (\<lambda>k.
        if k = KEY_ESC then andthen close_windows (\<lambda>_. give (Leave KEY_ESC, s)) else give (Again v, s))
      else if k = KEY_RESIZE then
        andthen on_key_resize (\<lambda>_. andthen close_windows (\<lambda>_. give (Resized v, s)))
      else give (Again v, s)) x (\<lambda>(r, s1). menu_outcome v u k r s s1)"
    if x: "shown u x" and hot: "hot = None \<or> hot \<in> Some ` {0..<mn_max v}" for hot k x
  proof -
    have ok: "menu_ok v x" using assms x by (simp add: menu_ok_shown)
    have again: "menu_outcome v u k (Again w) s s u'" if "menu_ok w u'" "shown x u'" for w u'
      using that x by (auto simp: menu_outcome_def intro: shown_same_list shown_trans)
    have sel: "in_list (mn_scroll v + mn_choice v) x" by (rule menu_ok_in_list[OF ok c])
    have moved: "wp {waits} (menu_moved cz k hot v) x (\<lambda>w. menu_outcome v u k (Again w) s s)"
      unfolding menu_moved_def wp_basic
    proof (rule wp_menu_item_at[OF sel], rule wp_weaken[OF menu_move_ok])
      fix y assume y: "shown x y"
      then show "menu_ok v y" using ok by (simp add: menu_ok_shown)
      show "hot = None \<or> hot \<in> Some ` {0..<mn_max v}" by (rule hot)
      fix w z assume w: "stays_ok v y w z"
      then have wz: "menu_ok w z" "shown x z" using y by (auto simp: stays_ok_def intro: shown_trans)
      then have wc: "0 \<le> mn_choice w" "mn_choice w < mn_max w" by (simp_all add: menu_ok_def)
      show "wp {waits} (menu_item_at w (mn_scroll w + mn_choice w) (mn_choice w) True) z
          (\<lambda>_ u'. wp {waits} (block [show_arrows cz w, draw (Wnoutrefresh dialog_win), draw (Wrefresh inner_win)]) u'
            (\<lambda>_ u'. menu_outcome v u k (Again w) s s u'))"
      proof (rule wp_menu_item_at[OF menu_ok_in_list[OF wz(1) wc]], intro wp_draws drawing again)
        fix u' d assume u': "shown z u'"
        then show "menu_ok w (u'\<lparr>drawn := d\<rparr>)" using wz(1) by (simp add: menu_ok_def shown_def)
        show "shown x (u'\<lparr>drawn := d\<rparr>)" using u' wz(2) by (simp add: shown_def)
      qed
    qed
    show ?thesis
      unfolding Let_def
      apply (rule wp_if)
       apply (simp only: wp_basic, rule wp_weaken[OF moved], rule wp_if)
        apply (simp only: wp_basic prod.case, rule wp_draws, rule drawing)
      subgoal by (simp add: menu_outcome_def same_list_def resizes_def)
      subgoal by simp
      apply (rule wp_if)
       apply (simp only: wp_basic prod.case, intro wp_draws drawing again)
      subgoal using ok by (simp add: menu_ok_def)
      subgoal by simp
      apply (rule wp_if)
       apply (simp only: wp_basic prod.case, rule wp_draws, rule drawing)
      subgoal for d
        using wp_select[of "mn_scroll v + mn_choice v" "x\<lparr>drawn := d\<rparr>"] sel x
        by (simp add: menu_outcome_def in_list_def shown_def)
      apply (rule wp_if)
       apply (simp only: wp_basic prod.case, rule wp_draws, rule drawing)
      subgoal using x by (simp add: menu_outcome_def shown_def same_list_def resizes_def)
      apply (rule wp_if)
       apply (simp only: wp_basic, rule wp_on_key_esc, simp)
      subgoal for k' u'
        apply (rule wp_if)
         apply (simp only: wp_basic prod.case, rule wp_draws, rule drawing)
        subgoal using x by (simp add: menu_outcome_def shown_def same_list_def still_def resizes_def)
        subgoal using x ok by (simp add: menu_outcome_def shown_def same_list_def still_def resizes_def menu_ok_def)
        done
      apply (rule wp_if)
       apply (simp only: wp_basic prod.case, rule draws_on_key_resize, rule wp_draws, rule drawing)
      subgoal using x by (simp add: menu_outcome_def shown_def same_list_def resizes_def)
      subgoal using x ok by (simp add: again)
      done
  qed
  show ?thesis
    unfolding menu_key_def Let_def wp_basic
    by (rule hot_item_ok[OF assms]) (rule step[unfolded Let_def])
qed

subsection \<open>A whole dialog\<close>

lemma reads_item_set [reading]: "reads (item_set k)"
  unfolding item_set_def by (rule reads_poke) (simp add: stop_at_def)

lemma reads_cur_item [reading]: "reads cur_item"
  by (auto simp: reads_def wp_def cur_item_def split: item_ptr.split)

lemma reads_item [reading]: "reads item_str" "reads (item_is_tag t)" "reads item_count" "reads item_data" "reads item_tag" "reads item_is_selected"
  unfolding item_str_def item_is_tag_def item_count_def item_data_def item_tag_def item_is_selected_def by (intro reading)+

lemma reads_menu_item_at [reading]: "reads (menu_item_at v k c b)"
  unfolding menu_item_at_def by (intro reading drawing)

lemma reads_default_choice [reading]: "reads (default_choice sel c)"
  unfolding default_choice_def by (intro reading reads_poke) (simp add: stop_at_def)

lemma reads_menu_layout [reading]: "reads (menu_layout cz title prompt sel s v)"
  unfolding menu_layout_def print_menu_def by (intro reading drawing)

lemma reads_hot_search [reading]: "reads (hot_search sc key is)"
  by (induction "is") (simp_all, (intro reading; assumption?)+)

lemma reads_repeated [reading]: "(\<And>v. reads (p v)) \<Longrightarrow> reads (repeated n p v)"
  by (induction n arbitrary: v) (simp_all add: reads_andthen reads_give)

lemma reads_menu_moved [reading]: "reads (menu_moved cz k hot v)"
  unfolding menu_moved_def menu_move_def line_up_def line_down_def do_scroll_def by (intro reading drawing)

lemma reads_change_item [reading]: "reads (change_item f)"
  by (auto simp: reads_def wp_def change_item_def split: item_ptr.split)

lemma reads_menu_key [reading]: "reads (menu_key cz k v s)"
  unfolding menu_key_def hot_item_def item_set_selected_def by (intro reading drawing)

lemma menu_ends:
  "2 * length (key_list u) + 1 < n \<Longrightarrow> wp UNIV (menu_open n cz title prompt sel s v) u (\<lambda>_ _. True)"
  "2 * length (key_list u) < n \<Longrightarrow> wp UNIV (menu_loop n cz title prompt sel s v) u (\<lambda>_ _. True)"
proof (induction n arbitrary: u v s)
  case (Suc n)
  { case 1
    show ?case
      unfolding menu_open.simps wp_basic
      by (rule reads_wp, intro reading) (use 1 Suc.IH(2) in \<open>auto split: option.split\<close>) }
  { case 2
    show ?case
      unfolding menu_loop.simps wp_basic
      by (rule wp_wgetch, simp, rule reads_wp, intro reading) (use 2 Suc.IH in \<open>auto split: step.split prod.split\<close>) }
qed simp_all

lemma dialog_menu_ends: "wp UNIV (dialog_menu cz title prompt sel s) u (\<lambda>_ _. True)"
  unfolding dialog_menu_def wp_basic by (rule menu_ends(1)) simp

lemma last_index_bounds: "xs \<noteq> [] \<Longrightarrow> 0 \<le> d \<Longrightarrow> d < int (length xs) \<Longrightarrow> 0 \<le> last_index P xs d \<and> last_index P xs d < int (length xs)"
  by (auto simp: last_index_def Let_def)

lemma place_window_ok:
  assumes "0 < mn_max v" "mn_max v \<le> n" "0 \<le> c" "c < n" "mn_first v = 0"
  shows "0 \<le> mn_choice (place_window s n c v)" "mn_choice (place_window s n c v) < mn_max v"
    "0 \<le> mn_scroll (place_window s n c v)" "mn_scroll (place_window s n c v) + mn_max v \<le> n"
    "mn_max (place_window s n c v) = mn_max v" "0 \<le> mn_first (place_window s n c v)" "mn_first (place_window s n c v) + mn_max v \<le> n"
  using assms by (auto simp: place_window_def Let_def half_def)

lemma wp_block_loop:
  assumes "\<And>i u'. 0 \<le> i \<Longrightarrow> i < m \<Longrightarrow> shown u u' \<Longrightarrow> wp b (body i) u' (\<lambda>_. shown u)"
  shows "wp b (loop_to m body) u (\<lambda>_. shown u)"
proof -
  have "wp b (block (map body is)) u' (\<lambda>_. shown u)" if "set is \<subseteq> {0..<m}" "shown u u'" for "is" u'
    using that
  proof (induction "is" arbitrary: u')
    case (Cons i "is")
    have "wp b (body i) u' (\<lambda>_. shown u)" using Cons.prems assms by auto
    then show ?case
      unfolding list.map block.simps wp_basic by (rule wp_weaken) (use Cons in auto)
  qed simp
  moreover have "set [0..m - 1] \<subseteq> {0..<m}" by auto
  ultimately show ?thesis unfolding loop_to_def by simp
qed

lemma print_menu_ok:
  assumes "0 \<le> mn_first p" "mn_first p + mn_max p \<le> int (length (items u))" "\<And>u'. shown u u' \<Longrightarrow> Q () u'"
  shows "wp b (print_menu p) u Q"
  unfolding print_menu_def
proof (rule wp_weaken[OF wp_block_loop])
  fix i u' assume i: "0 \<le> i" "i < mn_max p" "shown u u'"
  show "wp b (menu_item_at p (mn_first p + i) i (i = mn_choice p)) u' (\<lambda>_. shown u)"
    by (rule wp_menu_item_at) (use i assms(1,2) in \<open>auto simp: in_list_def shown_def\<close>)
qed (use assms(3) in simp)

lemma default_choice_ok:
  assumes "items u \<noteq> []" "0 \<le> c" "c < int (length (items u))"
    and "\<And>d u'. 0 \<le> d \<Longrightarrow> d < int (length (items u)) \<Longrightarrow> shown u u' \<Longrightarrow> Q d u'"
  shows "wp b (default_choice sel c) u Q"
  using last_index_bounds[OF assms(1-3), of "\<lambda>i. it_data i = sel"] assms
  by (auto simp: default_choice_def stop_at_def)

lemma menu_layout_ok:
  assumes "items u \<noteq> []" "15 \<le> LINES u" "65 \<le> COLS u" "length prompt \<le> MAX_LEN"
    and Q: "\<And>w u'. menu_ok w u' \<Longrightarrow> shown u u' \<Longrightarrow> Q (Some w) u'"
  shows "wp b (menu_layout cz title prompt sel s menu_start) u Q"
proof -
  have n: "\<not> (LINES u < 15 \<or> COLS u < 65)" using assms by auto
  let ?n = "int (length (items u))"
  let ?m = "if LINES u - 4 - 10 < ?n then LINES u - 4 - 10 else ?n"
  have m: "0 < ?m" "?m \<le> ?n" using assms(1,2) by auto
  have go: "wp b (print_menu (place_window s ?n c v))
      u1 (\<lambda>x u'. wp b (block [draw (Wnoutrefresh inner_win), show_arrows cz (place_window s ?n c v), menu_buttons h w 0,
        wmove inner_win (mn_choice (place_window s ?n c v)) (mn_item_x (place_window s ?n c v) + 1), draw (Wrefresh inner_win)]) u'
        (\<lambda>x. Q (Some (place_window s ?n c v))))"
    if c: "0 \<le> c" "c < ?n" and u1: "shown u u1" and v: "mn_max v = ?m" "mn_first v = 0" for v h w c u1
  proof (rule print_menu_ok)
    note pw = place_window_ok[of v ?n c s]
    show "0 \<le> mn_first (place_window s ?n c v)" using pw(6) m c v by simp
    show "mn_first (place_window s ?n c v) + mn_max (place_window s ?n c v) \<le> int (length (items u1))"
      using pw(5,7) m c v u1 by (simp add: shown_def)
    fix u2 assume u2: "shown u1 u2"
    show "wp b (block [draw (Wnoutrefresh inner_win), show_arrows cz (place_window s ?n c v), menu_buttons h w 0,
        wmove inner_win (mn_choice (place_window s ?n c v)) (mn_item_x (place_window s ?n c v) + 1), draw (Wrefresh inner_win)]) u2
        (\<lambda>x. Q (Some (place_window s ?n c v)))"
      by (rule wp_draws, intro drawing, rule Q)
        (use pw(1-5) m c v u1 u2 in \<open>auto simp: menu_ok_def shown_def\<close>)
  qed
  show ?thesis
    unfolding menu_layout_def Let_def wp_basic prod.case if_not_P[OF n] wp_item_count
    apply (rule wp_draws[OF draws_open_frame[OF assms(4)]])
    apply (rule wp_draws, intro drawing)
    apply (rule default_choice_ok)
    subgoal using assms(1) by simp
    subgoal by (simp add: menu_start_def)
    subgoal using assms(1) by (simp add: menu_start_def)
    subgoal by (rule go) (auto simp: menu_start_def shown_def)
    done
qed

definition menu_end :: "ui \<Rightarrow> int \<Rightarrow> int \<Rightarrow> int \<Rightarrow> ui \<Rightarrow> bool" where
  "menu_end u s x s1 u' \<longleftrightarrow>
     x = KEY_ESC \<and> items u' = items u \<and> s1 = s \<or>
     (\<exists>k<length (items u). items u' = (items u)[k := (items u ! k)\<lparr>it_selected := True\<rparr>] \<and> item_cur u' = Item k \<and>
        0 \<le> s1 \<and> s1 \<le> int k)"

lemma code_bound: "code c < 256"
  by (simp add: code_def)

lemma menu_loop_selects:
  assumes "menu_ok v u" "\<not> resizes u" "2 * length (key_list u) < n"
  shows "wp {waits} (menu_loop n cz title prompt sel s v) u (\<lambda>(x, s1). menu_end u s x s1)"
  using assms
proof (induction n arbitrary: v u)
  case (Suc n)
  show ?case
    unfolding menu_loop.simps wp_basic
  proof (rule wp_wgetch, simp)
    fix k h l r assume k: "key_list u = (k, h, l) # r"
    let ?u = "u\<lparr>key_list := r, LINES := h, COLS := l\<rparr>"
    have u: "menu_ok v ?u" "\<not> resizes ?u" "k \<noteq> KEY_RESIZE"
      using Suc.prems k by (auto simp: menu_ok_def resizes_def)
    have nr: "lower_key k \<noteq> KEY_RESIZE"
      using u(3) code_bound[of "tolower (char_of (nat k))"] by (auto simp: lower_key_def key_defs)
    show "wp {waits} (menu_key cz k v s) ?u (\<lambda>x v. wp {waits} (case x of (r, s1) \<Rightarrow> case r of
        Again w \<Rightarrow> menu_loop n cz title prompt sel s1 w | Leave x \<Rightarrow> give (x, s1)
        | Resized w \<Rightarrow> menu_open n cz title prompt sel s1 w) v (\<lambda>(x, s1). menu_end u s x s1))"
    proof (rule wp_weaken[OF menu_key_ok[OF u(1)]], clarify)
      fix r' s1 y assume o: "menu_outcome v ?u (lower_key k) r' s s1 y"
      show "wp {waits} (case r' of Again w \<Rightarrow> menu_loop n cz title prompt sel s1 w | Leave x \<Rightarrow> give (x, s1)
          | Resized w \<Rightarrow> menu_open n cz title prompt sel s1 w) y (\<lambda>(x, s1). menu_end u s x s1)"
      proof (cases r')
        case (Again w)
        then have w: "menu_ok w y" "\<not> resizes y" "2 * length (key_list y) < n" "s1 = s" "items y = items u"
          using o u(2) k Suc.prems(3) by (auto simp: menu_outcome_def same_list_def)
        from Suc.IH[OF w(1-3)] show ?thesis
          unfolding Again step.case w(4) by (rule wp_weaken) (use w(5) in \<open>auto simp: menu_end_def\<close>)
      next
        case (Leave x)
        have "nat (mn_scroll v + mn_choice v) < length (items u)" "mn_scroll v \<le> int (nat (mn_scroll v + mn_choice v))"
          "0 \<le> mn_scroll v"
          using u(1) by (auto simp: menu_ok_def)
        then show ?thesis
          using o unfolding Leave by (auto simp: menu_outcome_def menu_end_def same_list_def)
      qed (use o nr in \<open>simp add: menu_outcome_def\<close>)
    qed
  qed
qed simp



subsection \<open>A change of the size\<close>

lemma fails_iff: "wp {faults} p u (\<lambda>_ _. False) \<longleftrightarrow> p u = Fault"
  by (simp add: wp_def split: outcome.split)

lemma wp_block_append: "wp b (block (ps @ qs)) u Q \<longleftrightarrow> wp b (block ps) u (\<lambda>_ v. wp b (block qs) v Q)"
  by (induction ps arbitrary: u) simp_all

lemma print_menu_crash:
  assumes "0 \<le> mn_first p" "mn_first p \<le> int (length (items u))" "int (length (items u)) < mn_first p + mn_max p" "items u \<noteq> []"
  shows "wp {faults} (print_menu p) u (\<lambda>_ _. False)"
proof -
  let ?k = "int (length (items u)) - mn_first p"
  let ?body = "\<lambda>i. menu_item_at p (mn_first p + i) i (i = mn_choice p)"
  have split: "[0..mn_max p - 1] = [0..?k - 1] @ ?k # [?k + 1..mn_max p - 1]"
    using assms upto_split2[of 0 ?k "mn_max p - 1"] upto_rec1[of ?k "mn_max p - 1"] upto_split1[of 0 ?k "mn_max p - 1"] by simp
  have "wp {faults} (loop_to ?k ?body) u (\<lambda>_. shown u)"
  proof (rule wp_block_loop)
    fix i u' assume i: "0 \<le> i" "i < ?k" "shown u u'"
    show "wp {faults} (?body i) u' (\<lambda>_. shown u)"
      by (rule wp_menu_item_at) (use i assms in \<open>auto simp: in_list_def shown_def\<close>)
  qed
  note first = this
  have crash: "wp {faults} (?body ?k) u' (\<lambda>_ _. False)" if "shown u u'" for u'
  proof -
    have "items u' = items u" using that by (simp add: shown_def)
    then show ?thesis
      using assms by (simp add: menu_item_at_def item_set_def stop_at_def item_str_def wp_def cur_item_def andthen_def give_def poke_def)
  qed
  show ?thesis
    unfolding print_menu_def loop_to_def split list.map map_append wp_block_append block.simps wp_basic
    by (rule wp_weaken[OF first[unfolded loop_to_def]], rule wp_weaken[OF crash]) simp_all
qed

text \<open>
  C29.  Making the window larger can crash the menu: when the selected item now fits into the window from the top of the
  list, but not together with the saved place, the first item that is shown is left over from the old size,
  and drawing runs beyond the end of the list into a null pointer.
\<close>

theorem menu_resize_crash:
  assumes "15 \<le> LINES u" "65 \<le> COLS u" "length prompt \<le> MAX_LEN"
    and "m = min (LINES u - 14) (int (length (items u)))" "c = last_index (\<lambda>i. it_data i = Some d) (items u) (mn_choice v)"
    and "0 \<le> c" "c < m" "int (length (items u)) < s + m"
    and "mn_first v \<le> int (length (items u))" "int (length (items u)) < mn_first v + m"
  shows "menu_layout cz title prompt (Some d) s v u = Fault"
proof -
  have n: "\<not> (LINES u < 15 \<or> COLS u < 65)" using assms by auto
  let ?n = "int (length (items u))"
  have m: "m = (if LINES u - 4 - 10 < ?n then LINES u - 4 - 10 else ?n)" using assms(4) by auto
  have ne: "items u \<noteq> []" using assms(4,6,7) by auto
  have pw: "place_window s ?n c w = w\<lparr>mn_scroll := 0, mn_choice := c\<rparr>" if "mn_max w = m" for w
    using that assms(7,8) by (simp add: place_window_def Let_def)
  have dc: "wp {faults} (default_choice (Some d) (mn_choice v)) x Q" if "\<And>u'. shown x u' \<Longrightarrow> Q c u'" "items x = items u" for x Q
    using that assms(5) by (simp add: default_choice_def stop_at_def)
  have go: "wp {faults} (print_menu (place_window s ?n c w)) x Q" if "mn_max w = m" "mn_first w = mn_first v" "items x = items u" for w x Q
    unfolding pw[OF that(1)]
    by (rule wp_weaken[OF print_menu_crash]) (use assms(4,9,10) ne that in auto)
  have "wp {faults} (menu_layout cz title prompt (Some d) s v) u (\<lambda>_ _. False)"
    unfolding menu_layout_def Let_def wp_basic prod.case if_not_P[OF n] wp_item_count
    apply (rule wp_draws[OF draws_open_frame[OF assms(3)]])
    apply (rule wp_draws, intro drawing)
    apply (rule dc)
     apply (rule go)
    by (simp_all add: m shown_def)
  then show ?thesis unfolding fails_iff .
qed

text \<open>Six items, of which three were shown from the fourth on; now there is room for four.\<close>

lemma menu_resize_crash_witness:
  "menu_layout ex_curses None ''Menu'' (Some 3) 3 (menu_start\<lparr>mn_first := 3\<rparr>)
     (ex_ui\<lparr>LINES := 18, items := map (\<lambda>i. zero_item\<lparr>it_data := Some i\<rparr>) [0, 1, 2, 3, 4, 5]\<rparr>) = Fault"
  by (rule menu_resize_crash[where m = 4 and c = 3])
    (simp_all add: ex_ui_def MAX_LEN_def last_index_def menu_start_def zero_item_def)

end
