(* ===== verification/DialogList.thy ===== *)
theory DialogList
  imports DialogMenu
begin

text \<open>
  The dialog with a list of which one item is chosen (\<^verbatim>\<open>lxdialog/checklist.c\<close>).
\<close>

text \<open>\<open>cl_lines\<close> is the argument \<^verbatim>\<open>list_height\<close>.\<close>

record list_vars =
  cl_choice :: int
  cl_scroll :: int
  cl_button :: int
  cl_max :: int
  cl_lines :: int
  cl_width :: int
  cl_check_x :: int
  cl_box_y :: int
  cl_box_x :: int

definition list_item :: "list_vars \<Rightarrow> int \<Rightarrow> bool \<Rightarrow> unit ui_act" where
  "list_item v choice selected =
     andthen cur_item (\<lambda>i.
     block
       [attrset inner_win ''menubox'', wmove inner_win choice 0,
        loop_to (cl_width v) (\<lambda>_. addch inner_win (Ch (CHR '' ''))), wmove inner_win choice (cl_check_x v),
        attrset inner_win (if selected then ''check_selected'' else ''check''),
        if it_tag i \<noteq> CHR '':'' then addstr inner_win [CHR ''('', if it_tag i = CHR ''X'' then CHR ''X'' else CHR '' '', CHR '')'']
        else give (),
        attrset inner_win (if selected then ''tag_selected'' else ''tag''), wmove inner_win choice (cl_check_x v + 4),
        addch inner_win (Ch (str_at (it_str i) 0)),
        attrset inner_win (if selected then ''item_selected'' else ''item''), addstr inner_win (drop 1 (it_str i)),
        if selected then block [wmove inner_win choice (cl_check_x v + 1), draw (Wrefresh inner_win)] else give ()])"

definition list_item_at :: "list_vars \<Rightarrow> int \<Rightarrow> int \<Rightarrow> bool \<Rightarrow> unit ui_act" where
  "list_item_at v index choice selected = andthen (item_set index) (\<lambda>_. list_item v choice selected)"

definition list_arrows :: "win \<Rightarrow> int \<Rightarrow> int \<Rightarrow> int \<Rightarrow> int \<Rightarrow> int \<Rightarrow> int \<Rightarrow> unit ui_act" where
  "list_arrows w choice item_no scroll y x height =
     block
       [wmove w y x,
        if 0 < scroll then block [attrset w ''uarrow'', addch w ACS_UARROW, addstr w ''(-)'']
        else block [attrset w ''menubox'', addch w ACS_HLINE, addch w ACS_HLINE, addch w ACS_HLINE, addch w ACS_HLINE],
        wmove w (y + height + 1) x,
        if height < item_no \<and> scroll + choice < item_no - 1
        then block [attrset w ''darrow'', addch w ACS_DARROW, addstr w ''(+)'']
        else block [attrset w ''menubox_border'', addch w ACS_HLINE, addch w ACS_HLINE, addch w ACS_HLINE, addch w ACS_HLINE]]"

definition list_buttons :: "int \<Rightarrow> int \<Rightarrow> int \<Rightarrow> unit ui_act" where
  "list_buttons = two_buttons ''Select'' '' Help '' 11 14"

definition show_list_arrows :: "list_vars \<Rightarrow> unit ui_act" where
  "show_list_arrows v =
     andthen item_count (\<lambda>n.
     list_arrows dialog_win (cl_choice v) n (cl_scroll v) (cl_box_y v) (cl_box_x v + cl_check_x v + 5) (cl_lines v))"

text \<open>The item that is highlighted at first: a selected one, else the last one with the mark.\<close>

fun first_choice :: "int \<Rightarrow> dialog_item list \<Rightarrow> int \<Rightarrow> int" where
  "first_choice n [] c = c"
| "first_choice n (i # is) c =
     (if it_selected i then n else first_choice (n + 1) is (if it_tag i = CHR ''X'' then n else c))"

definition list_layout ::
    "curses \<Rightarrow> string option \<Rightarrow> string \<Rightarrow> int \<Rightarrow> int \<Rightarrow> list_vars \<Rightarrow> list_vars option ui_act" where
  "list_layout cz title prompt height width v =
     andthen (peek (\<lambda>u. (LINES u, COLS u))) (\<lambda>(lns, cls).
     if lns < height + 6 \<or> cls < width + 6 then give None
     else
       andthen item_count (\<lambda>n.
       let m = (if cl_lines v < n then cl_lines v else n); x = half (cls - width); y = half (lns - height);
           lw = width - 6; box_y = height - cl_lines v - 5; box_x = half (width - lw) - 1 in
       andthen (open_frame cz title prompt height width y x False) (\<lambda>_.
       andthen (block
         [draw (Newwin inner_win (cl_lines v) lw (y + box_y + 1) (x + box_x + 1)), draw (Keypad inner_win True),
          draw_box dialog_win box_y box_x (cl_lines v + 2) (lw + 2) ''menubox_border'' ''menubox'']) (\<lambda>_.
       andthen (poke (\<lambda>u. stop_at (length (items u)) u)) (\<lambda>_.
       andthen (peek (\<lambda>u. foldl (\<lambda>a i. max a (int (length (it_str i)) + 4)) 0 (items u))) (\<lambda>longest.
       let c = cl_choice v; sc = (if cl_lines v \<le> c then c - cl_lines v + 1 else cl_scroll v);
           p = v\<lparr>cl_choice := (if cl_lines v \<le> c then c - sc else c), cl_scroll := sc, cl_max := m, cl_width := lw,
                 cl_check_x := half (lw - longest), cl_box_y := box_y, cl_box_x := box_x\<rparr> in
       andthen (loop_to m (\<lambda>i. list_item_at p (sc + i) i (i = cl_choice p))) (\<lambda>_.
       andthen (block
         [show_list_arrows p, list_buttons height width 0, draw (Wnoutrefresh dialog_win), draw (Wnoutrefresh inner_win),
          draw Doupdate]) (\<lambda>_.
       give (Some p)))))))))"

definition upper_num :: "int \<Rightarrow> int" where
  "upper_num k = (if 97 \<le> k \<and> k \<le> 122 then k - 32 else k)"

fun letter_search :: "int \<Rightarrow> int \<Rightarrow> int list \<Rightarrow> int option ui_act" where
  "letter_search scroll key [] = give None"
| "letter_search scroll key (i # is) =
     andthen (item_set (i + scroll)) (\<lambda>_.
     andthen item_str (\<lambda>s.
     if upper_num key = upper_num (char_num (str_at s 0)) then give (Some i) else letter_search scroll key is))"

definition scroll_list :: "int \<Rightarrow> int \<Rightarrow> int \<Rightarrow> list_vars \<Rightarrow> list_vars ui_act" where
  "scroll_list n line index v =
     andthen
       (if 1 < cl_lines v then
          andthen (list_item_at v index line False) (\<lambda>_.
          block [draw (Scrollok inner_win True), draw (Wscrl inner_win n), draw (Scrollok inner_win False)])
        else give ()) (\<lambda>_.
     let w = v\<lparr>cl_scroll := cl_scroll v + n\<rparr> in
     andthen (list_item_at w (index + n) line True) (\<lambda>_.
     andthen (block [show_list_arrows w, draw (Wnoutrefresh dialog_win), draw (Wrefresh inner_win)]) (\<lambda>_.
     give w)))"

definition list_highlight :: "int \<Rightarrow> list_vars \<Rightarrow> list_vars ui_act" where
  "list_highlight i v =
     (if i \<noteq> cl_choice v then
        andthen (list_item_at v (cl_scroll v + cl_choice v) (cl_choice v) False) (\<lambda>_.
        andthen (list_item_at v (cl_scroll v + i) i True) (\<lambda>_.
        andthen (block [draw (Wnoutrefresh dialog_win), draw (Wrefresh inner_win)]) (\<lambda>_.
        give (v\<lparr>cl_choice := i\<rparr>))))
      else give v)"

definition list_move :: "int \<Rightarrow> int option \<Rightarrow> list_vars \<Rightarrow> list_vars ui_act" where
  "list_move key found v =
     (if key = KEY_UP \<or> is_key key ''-'' then
        if cl_choice v = 0 then
          if cl_scroll v = 0 then give v else scroll_list (- 1) 0 (cl_scroll v) v
        else list_highlight (cl_choice v - 1) v
      else if key = KEY_DOWN \<or> is_key key ''+'' then
        if cl_choice v = cl_max v - 1 then
          andthen item_count (\<lambda>n.
          if n - 1 \<le> cl_scroll v + cl_choice v then give v
          else scroll_list 1 (cl_max v - 1) (cl_scroll v + cl_max v - 1) v)
        else list_highlight (cl_choice v + 1) v
      else list_highlight (case found of Some i \<Rightarrow> i | None \<Rightarrow> cl_max v) v)"

definition deselect_all :: "unit ui_act" where
  "deselect_all = poke (\<lambda>u. stop_at (length (items u)) (u\<lparr>items := map (\<lambda>i. i\<lparr>it_selected := False\<rparr>) (items u)\<rparr>))"

definition list_key :: "int \<Rightarrow> int \<Rightarrow> int \<Rightarrow> list_vars \<Rightarrow> list_vars step ui_act" where
  "list_key height width key v =
     andthen (letter_search (cl_scroll v) key [0..cl_max v - 1]) (\<lambda>found.
     if found \<noteq> None \<or> key \<in> {KEY_UP, KEY_DOWN} \<or> is_key key ''+-'' then
       andthen (list_move key found v) (\<lambda>w.
       if key = KEY_ESC then andthen close_windows (\<lambda>_. give (Leave KEY_ESC)) else give (Again w))
     else if is_key key (''Hh?Ss '' @ [newline]) then
       andthen deselect_all (\<lambda>_.
       andthen (item_set (cl_scroll v + cl_choice v)) (\<lambda>_.
       andthen (item_set_selected True) (\<lambda>_.
       andthen close_windows (\<lambda>_.
       give (Leave (if is_key key ''Hh?'' then 1 else cl_button v))))))
     else if key \<in> {TAB, KEY_LEFT, KEY_RIGHT} then
       let b = (if key = KEY_LEFT then cl_button v - 1 else cl_button v + 1); b1 = (if b < 0 then 1 else if b > 1 then 0 else b) in
       andthen (block [list_buttons height width b1, draw (Wrefresh dialog_win), draw Doupdate]) (\<lambda>_.
       give (Again (v\<lparr>cl_button := b1\<rparr>)))
     else if is_key key ''Xx'' then andthen (draw Doupdate) (\<lambda>_. andthen close_windows (\<lambda>_. give (Leave KEY_ESC)))
     else if key = KEY_ESC then
       andthen (on_key_esc dialog_win) (\<lambda>k.
       andthen (draw Doupdate) (\<lambda>_.
       if k = KEY_ESC then andthen close_windows (\<lambda>_. give (Leave KEY_ESC)) else give (Again v)))
     else if key = KEY_RESIZE then andthen close_windows (\<lambda>_. andthen on_key_resize (\<lambda>_. give (Resized v)))
     else andthen (draw Doupdate) (\<lambda>_. give (Again v)))"

fun list_open :: "nat \<Rightarrow> curses \<Rightarrow> string option \<Rightarrow> string \<Rightarrow> int \<Rightarrow> int \<Rightarrow> list_vars \<Rightarrow> int ui_act"
  and list_loop :: "nat \<Rightarrow> curses \<Rightarrow> string option \<Rightarrow> string \<Rightarrow> int \<Rightarrow> int \<Rightarrow> list_vars \<Rightarrow> int ui_act" where
  "list_open 0 cz title prompt height width v = spent"
| "list_open (Suc n) cz title prompt height width v =
     andthen (list_layout cz title prompt height width v) (\<lambda>r.
     case r of None \<Rightarrow> give (- ERRDISPLAYTOOSMALL) | Some w \<Rightarrow> list_loop n cz title prompt height width w)"
| "list_loop 0 cz title prompt height width v = spent"
| "list_loop (Suc n) cz title prompt height width v =
     andthen (wgetch dialog_win) (\<lambda>key.
     andthen (list_key height width key v) (\<lambda>r.
     case r of
       Leave x \<Rightarrow> give x
     | Again w \<Rightarrow> list_loop n cz title prompt height width w
     | Resized w \<Rightarrow> list_open n cz title prompt height width w))"

definition dialog_checklist :: "curses \<Rightarrow> string option \<Rightarrow> string \<Rightarrow> int \<Rightarrow> int \<Rightarrow> int \<Rightarrow> int ui_act" where
  "dialog_checklist cz title prompt height width list_height =
     andthen (peek (\<lambda>u. (length (key_list u), first_choice 0 (items u) 0))) (\<lambda>(n, c).
     andthen (poke (\<lambda>u. stop_at (first_index it_selected (items u)) u)) (\<lambda>_.
     list_open (2 * n + 2) cz title prompt height width
       \<lparr>cl_choice = c, cl_scroll = 0, cl_button = 0, cl_max = 0, cl_lines = list_height, cl_width = 0, cl_check_x = 0,
        cl_box_y = 0, cl_box_x = 0\<rparr>))"

subsection \<open>The window over the list\<close>

lemma wp_list_item_at:
  assumes "in_list k u" "\<And>u'. shown u u' \<Longrightarrow> Q () u'"
  shows "wp b (list_item_at v k c sel) u Q"
proof -
  have k: "nat k < length (items u)" using assms(1) by (auto simp: in_list_def)
  have cur: "wp b cur_item (u\<lparr>item_cur := Item (nat k)\<rparr>) R \<longleftrightarrow> R (items u ! nat k) (u\<lparr>item_cur := Item (nat k)\<rparr>)" for R
    using k by (simp add: wp_def cur_item_def)
  show ?thesis
    unfolding list_item_at_def list_item_def wp_basic wp_item_set[OF assms(1)] cur
    by (rule wp_draws, intro drawing, rule assms(2)) simp
qed

lemma draws_show_list_arrows: "(\<And>u'. shown u u' \<Longrightarrow> Q () u') \<Longrightarrow> wp b (show_list_arrows v) u Q"
  unfolding show_list_arrows_def list_arrows_def wp_basic wp_item_count
  by (rule wp_draws, intro drawing) simp

lemma draws_list_buttons [drawing]: "draws (list_buttons h w b)"
  unfolding list_buttons_def two_buttons_def by (intro drawing draws_print_button; simp)+

text \<open>The window lies over the list, with the highlight inside it.\<close>

definition list_ok :: "list_vars \<Rightarrow> ui \<Rightarrow> bool" where
  "list_ok v u \<longleftrightarrow> 0 \<le> cl_choice v \<and> cl_choice v < cl_max v \<and> cl_max v \<le> cl_lines v \<and> 0 \<le> cl_scroll v \<and>
     cl_scroll v + cl_max v \<le> int (length (items u)) \<and> (cl_max v = cl_lines v \<or> cl_max v = int (length (items u))) \<and>
     cl_button v \<in> {0, 1}"

lemma list_ok_items: "items u' = items u \<Longrightarrow> list_ok v u' = list_ok v u"
  by (simp add: list_ok_def)

lemma list_ok_in_list: "list_ok v u \<Longrightarrow> 0 \<le> i \<Longrightarrow> i < cl_max v \<Longrightarrow> in_list (cl_scroll v + i) u"
  by (simp add: list_ok_def in_list_def)

lemma wp_letter_search:
  assumes "\<forall>i\<in>set is. in_list (i + sc) u" "\<And>r u'. shown u u' \<Longrightarrow> r = None \<or> r \<in> Some ` set is \<Longrightarrow> Q r u'"
  shows "wp b (letter_search sc key is) u Q"
  using assms
proof (induction "is" arbitrary: u)
  case (Cons i "is")
  have i: "in_list (i + sc) u" using Cons.prems(1) by simp
  then have k: "nat (i + sc) < length (items u)" by (auto simp: in_list_def)
  let ?u = "u\<lparr>item_cur := Item (nat (i + sc))\<rparr>"
  have "wp b (letter_search sc key is) ?u Q"
    by (rule Cons.IH) (use Cons.prems in \<open>auto simp: in_list_def intro!: Cons.prems(2) dest: shown_trans[OF shown_refl(4)]\<close>)
  moreover have "Q (Some i) ?u" by (rule Cons.prems(2)) simp_all
  ultimately show ?case
    unfolding letter_search.simps wp_basic wp_item_set[OF i] using k by (simp add: wp_cur_item)
qed simp

definition list_stays :: "ui \<Rightarrow> list_vars \<Rightarrow> ui \<Rightarrow> bool" where
  "list_stays u w u' \<longleftrightarrow> shown u u' \<and> list_ok w u'"

lemma list_highlight_ok:
  assumes "list_ok v u" "0 \<le> i" "i < cl_max v"
  shows "wp b (list_highlight i v) u (list_stays u)"
proof -
  have c: "0 \<le> cl_choice v" "cl_choice v < cl_max v" using assms(1) by (simp_all add: list_ok_def)
  have ok: "list_ok (v\<lparr>cl_choice := i\<rparr>) u'" if "shown u u'" for u'
    using assms that by (simp add: list_ok_def shown_def)
  show ?thesis
    unfolding list_highlight_def
    apply (rule wp_if)
    subgoal
      unfolding wp_basic
      apply (rule wp_list_item_at[OF list_ok_in_list[OF assms(1) c]])
      apply (rule wp_list_item_at)
      subgoal using assms by (simp add: list_ok_def in_list_def shown_def)
      apply (rule wp_draws, intro drawing)
      subgoal for u1 u2 d using ok[of "u2\<lparr>drawn := d\<rparr>"] by (simp add: list_stays_def shown_def)
      done
    subgoal using assms(1) by (simp add: list_stays_def)
    done
qed

lemma scroll_list_ok:
  assumes "list_ok v u" "n \<in> {- 1, 1}" "0 \<le> cl_scroll v + n" "cl_scroll v + n + cl_max v \<le> int (length (items u))"
    and "in_list i u" "in_list (i + n) u"
  shows "wp b (scroll_list n line i v) u (list_stays u)"
proof -
  have ok: "list_ok (v\<lparr>cl_scroll := cl_scroll v + n\<rparr>) u'" if "shown u u'" for u'
    using assms that by (simp add: list_ok_def shown_def)
  have rest: "wp b (list_item_at w (i + n) line True) x (\<lambda>_ v. wp b
      (andthen (block [show_list_arrows w, draw (Wnoutrefresh dialog_win), draw (Wrefresh inner_win)]) (\<lambda>_. give w)) v (list_stays u))"
    if x: "shown u x" and w: "w = v\<lparr>cl_scroll := cl_scroll v + n\<rparr>" for w x
    apply (rule wp_list_item_at)
    subgoal using assms(6) x by (simp add: in_list_def shown_def)
    apply (simp only: wp_basic block.simps)
    apply (rule draws_show_list_arrows)
    subgoal premises p for u1 u2
      using ok[of "u2\<lparr>drawn := drawn u2 @ [Wnoutrefresh dialog_win] @ [Wrefresh inner_win]\<rparr>"] p x w
      by (simp add: list_stays_def shown_def)
    done
  show ?thesis
    unfolding scroll_list_def Let_def wp_basic
    apply (rule wp_if)
    subgoal
      apply (simp only: wp_basic)
      apply (rule wp_list_item_at[OF assms(5)])
      apply (rule wp_draws, intro drawing)
      apply (rule rest[unfolded wp_basic])
      by (simp_all add: shown_def)
    subgoal by (simp only: wp_basic, rule rest[unfolded wp_basic]) simp_all
    done
qed

lemma list_move_ok:
  assumes "list_ok v u" "found \<noteq> None \<or> key \<in> {KEY_UP, KEY_DOWN} \<or> is_key key ''+-''" "found = None \<or> found \<in> Some ` {0..<cl_max v}"
  shows "wp b (list_move key found v) u (list_stays u)"
proof -
  have ok: "0 \<le> cl_choice v" "cl_choice v < cl_max v" "0 \<le> cl_scroll v" "cl_scroll v + cl_max v \<le> int (length (items u))"
    using assms(1) by (simp_all add: list_ok_def)
  have same: "list_stays u v u" using assms(1) by (simp add: list_stays_def)
  show ?thesis
    unfolding list_move_def
    apply (rule wp_if, rule wp_if, rule wp_if)
    subgoal using same by simp
    subgoal using ok assms(1) by (intro scroll_list_ok) (auto simp: in_list_def)
    subgoal using ok assms(1) by (intro list_highlight_ok) auto
    apply (rule wp_if, rule wp_if, simp only: wp_basic wp_item_count, rule wp_if)
    subgoal using same by simp
    subgoal using ok assms(1) by (intro scroll_list_ok) (auto simp: in_list_def)
    subgoal using ok assms(1) by (intro list_highlight_ok) auto
    subgoal using assms by (intro list_highlight_ok) (auto simp: is_key_def split: option.split)
    done
qed

definition deselected :: "ui \<Rightarrow> dialog_item list" where
  "deselected u = map (\<lambda>i. i\<lparr>it_selected := False\<rparr>) (items u)"

text \<open>Exactly the item \<open>k\<close> is selected, and current.\<close>

definition one_chosen :: "ui \<Rightarrow> nat \<Rightarrow> ui \<Rightarrow> bool" where
  "one_chosen u k u' \<longleftrightarrow> k < length (items u) \<and> items u' = (deselected u)[k := (items u ! k)\<lparr>it_selected := True\<rparr>] \<and> item_cur u' = Item k"

definition list_outcome :: "list_vars \<Rightarrow> ui \<Rightarrow> list_vars step \<Rightarrow> ui \<Rightarrow> bool" where
  "list_outcome v u r u' \<longleftrightarrow> length (key_list u') \<le> length (key_list u) \<and>
     (case r of
        Again w \<Rightarrow> items u' = items u \<and> list_ok w u'
      | Resized w \<Rightarrow> items u' = items u \<and> w = v
      | Leave x \<Rightarrow> x = KEY_ESC \<and> items u' = items u \<or> x \<in> {0, 1} \<and> one_chosen u (nat (cl_scroll v + cl_choice v)) u')"

lemma wp_choose: "in_list k u \<Longrightarrow>
    wp b (andthen deselect_all (\<lambda>_. andthen (item_set k) (\<lambda>_. item_set_selected True))) u Q \<longleftrightarrow>
    Q () (u\<lparr>item_cur := Item (nat k), items := (deselected u)[nat k := (items u ! nat k)\<lparr>it_selected := True\<rparr>]\<rparr>)"
  by (auto simp: deselect_all_def item_set_def stop_at_def in_list_def wp_def item_set_selected_def change_item_def deselected_def
    andthen_def poke_def)

lemma list_key_ok:
  assumes "list_ok v u"
  shows "wp {waits} (list_key height width key v) u (list_outcome v u)"
proof -
  have c: "0 \<le> cl_choice v" "cl_choice v < cl_max v" using assms by (simp_all add: list_ok_def)
  have b: "cl_button v \<in> {0, 1}" using assms by (simp add: list_ok_def)
  show ?thesis
    unfolding list_key_def Let_def wp_basic
    apply (rule wp_letter_search)
    subgoal using assms by (auto simp: list_ok_def in_list_def)
    subgoal premises p for found x
    proof -
      have x: "items x = items u" "key_list x = key_list u" using p(1) by (simp_all add: shown_def)
      have ok: "list_ok v x" using assms x(1) by (simp add: list_ok_def)
      have sel: "in_list (cl_scroll v + cl_choice v) x" by (rule list_ok_in_list[OF ok c])
      have k: "nat (cl_scroll v + cl_choice v) < length (items u)" using sel x by (auto simp: in_list_def)
      have f: "found = None \<or> found \<in> Some ` {0..<cl_max v}" using p(2) by auto
      note choose = wp_choose[OF sel, of "{waits}", unfolded wp_basic]
      show ?thesis
        apply (rule wp_if)
         apply (simp only: wp_basic, rule wp_weaken[OF list_move_ok[OF ok _ f]], assumption, rule wp_if)
          apply (simp only: wp_basic, rule wp_draws, rule drawing)
        subgoal using x by (auto simp: list_outcome_def list_stays_def shown_def)
        subgoal using x by (auto simp: list_outcome_def list_stays_def shown_def)
        apply (rule wp_if)
         apply (simp only: wp_basic choose, rule wp_draws, rule drawing)
        subgoal using x k b by (auto simp: list_outcome_def one_chosen_def deselected_def)
        apply (rule wp_if)
         apply (simp only: wp_basic, rule wp_draws, intro drawing)
        subgoal using x ok by (auto simp: list_outcome_def list_ok_def)
        apply (rule wp_if)
         apply (simp only: wp_basic, rule wp_draws, intro drawing, rule wp_draws, rule drawing)
        subgoal using x by (simp add: list_outcome_def)
        apply (rule wp_if)
         apply (simp only: wp_basic, rule wp_on_key_esc, simp, rule wp_draws, intro drawing, rule wp_if)
          apply (simp only: wp_basic, rule wp_draws, intro drawing)
        subgoal using x by (simp add: list_outcome_def still_def)
        subgoal using x ok by (simp add: list_outcome_def still_def list_ok_def)
        apply (rule wp_if)
         apply (simp only: wp_basic, rule wp_draws, rule drawing, rule draws_on_key_resize)
        subgoal using x by (simp add: list_outcome_def)
        subgoal using x ok by (simp add: list_outcome_def list_ok_def)
        done
    qed
    done
qed

text \<open>The variables with which a window is opened: at first, and again after a change of the size.\<close>

definition list_placed :: "list_vars \<Rightarrow> ui \<Rightarrow> bool" where
  "list_placed v u \<longleftrightarrow> 0 \<le> cl_choice v \<and> 0 < cl_lines v \<and> cl_choice v < int (length (items u)) \<and> 0 \<le> cl_scroll v \<and>
     (cl_choice v < cl_lines v \<longrightarrow> cl_scroll v + min (cl_lines v) (int (length (items u))) \<le> int (length (items u))) \<and>
     cl_button v \<in> {0, 1}"

lemma list_ok_placed: "list_ok v u \<Longrightarrow> list_placed v u"
  by (auto simp: list_ok_def list_placed_def)

lemma list_layout_ok:
  assumes "list_placed v u" "length prompt \<le> MAX_LEN"
  shows "wp b (list_layout cz title prompt height width v) u (\<lambda>r u'. shown u u' \<and> (case r of None \<Rightarrow> True | Some w \<Rightarrow> list_ok w u'))"
proof -
  let ?n = "int (length (items u))"
  let ?m = "if cl_lines v < ?n then cl_lines v else ?n"
  let ?sc = "if cl_lines v \<le> cl_choice v then cl_choice v - cl_lines v + 1 else cl_scroll v"
  let ?c = "if cl_lines v \<le> cl_choice v then cl_choice v - ?sc else cl_choice v"
  have placed: "0 \<le> ?sc" "?sc + ?m \<le> ?n" "0 \<le> ?c" "?c < ?m" "?m \<le> cl_lines v" "?m = cl_lines v \<or> ?m = ?n" "cl_button v \<in> {0, 1}"
    using assms(1) by (auto simp: list_placed_def)
  show ?thesis
    unfolding list_layout_def Let_def wp_basic prod.case wp_item_count
    apply (rule wp_if)
    subgoal by simp
    apply (simp only: wp_basic wp_item_count)
    apply (rule wp_draws[OF draws_open_frame[OF assms(2)]])
    apply (rule wp_draws, intro drawing)
    apply (rule wp_weaken[OF wp_block_loop])
    subgoal premises p for d1 d2 i u'
      by (rule wp_list_item_at) (use p placed in \<open>auto simp: in_list_def shown_def stop_at_def\<close>)
    subgoal premises p for d1 d2 x u'
      unfolding block.simps wp_basic
      apply (rule draws_show_list_arrows)
      apply (rule wp_draws, rule drawing)
      subgoal premises q for u2 d
        using p q placed by (auto simp: shown_def stop_at_def list_ok_def)
      done
    done
qed

subsection \<open>A whole dialog\<close>

definition list_end :: "ui \<Rightarrow> int \<Rightarrow> ui \<Rightarrow> bool" where
  "list_end u x u' \<longleftrightarrow> x \<in> {KEY_ESC, - ERRDISPLAYTOOSMALL} \<and> items u' = items u \<or> x \<in> {0, 1} \<and> (\<exists>k. one_chosen u k u')"

lemma list_end_items: "items u' = items u \<Longrightarrow> list_end u' x v = list_end u x v"
  by (simp add: list_end_def one_chosen_def deselected_def)

lemma list_loop_chooses:
  assumes "length prompt \<le> MAX_LEN"
  shows "list_placed v u \<Longrightarrow> 2 * length (key_list u) + 1 < n \<Longrightarrow> wp {waits} (list_open n cz title prompt h w v) u (list_end u)"
    and "list_ok v u \<Longrightarrow> 2 * length (key_list u) < n \<Longrightarrow> wp {waits} (list_loop n cz title prompt h w v) u (list_end u)"
proof (induction n arbitrary: u v)
  case (Suc n)
  { case 1
    show ?case
      unfolding list_open.simps wp_basic
    proof (rule wp_weaken[OF list_layout_ok[OF 1(1) assms]])
      fix r u' assume r: "shown u u' \<and> (case r of None \<Rightarrow> True | Some w \<Rightarrow> list_ok w u')"
      then have u': "items u' = items u" "key_list u' = key_list u" by (simp_all add: shown_def)
      show "wp {waits} (case r of None \<Rightarrow> give (- ERRDISPLAYTOOSMALL) | Some x \<Rightarrow> list_loop n cz title prompt h w x) u' (list_end u)"
      proof (cases r)
        case (Some x)
        then have "wp {waits} (list_loop n cz title prompt h w x) u' (list_end u')"
          using r 1(2) u' by (intro Suc.IH(2)) auto
        then show ?thesis unfolding Some option.case by (rule wp_weaken) (simp add: list_end_items[OF u'(1)])
      qed (simp add: list_end_def u')
    qed }
  { case 2
    show ?case
      unfolding list_loop.simps wp_basic
    proof (rule wp_wgetch, simp)
      fix k ht l r assume k: "key_list u = (k, ht, l) # r"
      let ?u = "u\<lparr>key_list := r, LINES := ht, COLS := l\<rparr>"
      have ok: "list_ok v ?u" using 2(1) by (simp add: list_ok_def)
      show "wp {waits} (list_key h w k v) ?u (\<lambda>x y. wp {waits} (case x of
          Again x \<Rightarrow> list_loop n cz title prompt h w x | Leave x \<Rightarrow> give x | Resized x \<Rightarrow> list_open n cz title prompt h w x) y (list_end u))"
      proof (rule wp_weaken[OF list_key_ok[OF ok]])
        fix s y assume o: "list_outcome v ?u s y"
        show "wp {waits} (case s of
            Again x \<Rightarrow> list_loop n cz title prompt h w x | Leave x \<Rightarrow> give x | Resized x \<Rightarrow> list_open n cz title prompt h w x) y (list_end u)"
        proof (cases s)
          case (Again x)
          then have y: "items y = items u" "list_ok x y" "2 * length (key_list y) < n"
            using o k 2(2) by (auto simp: list_outcome_def)
          from Suc.IH(2)[OF y(2,3)] show ?thesis
            unfolding Again step.case by (rule wp_weaken) (simp add: list_end_items[OF y(1)])
        next
          case (Resized x)
          then have y: "items y = items u" "list_placed x y" "2 * length (key_list y) + 1 < n"
            using o k 2(2) list_ok_placed[OF ok] by (auto simp: list_outcome_def list_placed_def)
          from Suc.IH(1)[OF y(2,3)] show ?thesis
            unfolding Resized step.case by (rule wp_weaken) (simp add: list_end_items[OF y(1)])
        qed (use o in \<open>auto simp: list_outcome_def list_end_def one_chosen_def deselected_def\<close>)
      qed
    qed }
qed simp_all

lemma first_choice_bounds: "0 \<le> c \<Longrightarrow> c < n + int (length is) \<Longrightarrow> 0 \<le> n \<Longrightarrow>
    0 \<le> first_choice n is c \<and> first_choice n is c < n + int (length is)"
proof (induction "is" arbitrary: n c)
  case (Cons i "is")
  show ?case
    using Cons.IH[of n "n + 1"] Cons.IH[of c "n + 1"] Cons.prems by (auto simp: algebra_simps)
qed simp



end
