(* ===== verification/DialogText.thy ===== *)
theory DialogText
  imports DialogMenu
begin

text \<open>
  The dialog that shows a text (\<^verbatim>\<open>lxdialog/textbox.c\<close>).  The pointers \<^verbatim>\<open>buf\<close> and \<^verbatim>\<open>page\<close> are the text and a
  position in it; the position behind the last character is that of the terminating zero.
\<close>

text \<open>\<open>tx_height\<close>, \<open>tx_width\<close> and \<open>tx_cur\<close> (\<^verbatim>\<open>cur_y\<close>, \<^verbatim>\<open>cur_x\<close>) belong to the layout.\<close>

record text_vars =
  tx_page :: nat
  tx_begin :: bool
  tx_end :: bool
  tx_length :: nat
  tx_hscroll :: nat
  tx_height :: int
  tx_width :: int
  tx_cur :: "int \<times> int"

definition boxh :: "text_vars \<Rightarrow> int" where "boxh v = tx_height v - 4"
definition boxw :: "text_vars \<Rightarrow> int" where "boxw v = tx_width v - 2"

subsection \<open>Lines\<close>

text \<open>The line that is read, the position behind it, and whether the end of the text was reached.\<close>

fun scan_line :: "string \<Rightarrow> nat \<Rightarrow> string \<Rightarrow> string \<times> nat \<times> bool" where
  "scan_line line p [] = (line, p, True)"
| "scan_line line p (c # r) =
     (if c = newline then (line, p + 1, False)
      else scan_line (if length line < MAX_LEN then line @ [c] else line) (p + 1) r)"

definition get_line :: "string \<Rightarrow> text_vars \<Rightarrow> (string \<times> text_vars) ui_act" where
  "get_line buf v =
     (if length buf < tx_page v then fault
      else
        let (line, p, e) = scan_line [] (tx_page v) (drop (tx_page v) buf) in
        give (line, v\<lparr>tx_page := p, tx_end := e\<rparr>))"

text \<open>\<^verbatim>\<open>MIN(strlen(line), width - 2)\<close> compares without signs.\<close>

definition shown_part :: "nat \<Rightarrow> int \<Rightarrow> string \<Rightarrow> string" where
  "shown_part hscroll width line =
     (let l = drop hscroll line in if width - 2 < 0 then l else take (nat (width - 2)) l)"

definition print_line :: "string \<Rightarrow> int \<Rightarrow> text_vars \<Rightarrow> text_vars ui_act" where
  "print_line buf row v =
     andthen (get_line buf v) (\<lambda>(line, w).
     andthen (block
       [wmove inner_win row 0, addch inner_win (Ch (CHR '' '')), addstr inner_win (shown_part (tx_hscroll v) (boxw v) line),
        draw (Wclrtoeol inner_win)]) (\<lambda>_.
     give w))"

text \<open>The loop over the lines of a page, for what is done with a line.\<close>

fun page_loop :: "(int \<Rightarrow> text_vars \<Rightarrow> text_vars ui_act) \<Rightarrow> int list \<Rightarrow> bool \<Rightarrow> text_vars \<Rightarrow> text_vars ui_act" where
  "page_loop line [] passed v = give v"
| "page_loop line (i # is) passed v =
     andthen (line i v) (\<lambda>w.
     page_loop line is (passed \<or> tx_end w) (if passed then w else w\<lparr>tx_length := tx_length w + 1\<rparr>))"

definition print_page :: "string \<Rightarrow> text_vars \<Rightarrow> text_vars ui_act" where
  "print_page buf v =
     andthen (page_loop (print_line buf) [0..boxh v - 1] False (v\<lparr>tx_length := 0\<rparr>)) (\<lambda>w.
     andthen (draw (Wnoutrefresh inner_win)) (\<lambda>_. give w))"

text \<open>\<^verbatim>\<open>strlen(buf)\<close> is the divisor.\<close>

definition percent :: "string \<Rightarrow> text_vars \<Rightarrow> nat" where
  "percent buf v = tx_page v * 100 div length buf"

definition percent_text :: "nat \<Rightarrow> string" where
  "percent_text p = (let d = sprintf_d (int p) in ''('' @ replicate (3 - length d) CHR '' '' @ d @ ''%)'')"

definition print_position :: "string \<Rightarrow> text_vars \<Rightarrow> unit ui_act" where
  "print_position buf v =
     andthen (attrset dialog_win ''position_indicator'') (\<lambda>_.
     andthen (andthen (peek dlg) (\<lambda>d. draw (Wbkgdset dialog_win (atr (d ''position_indicator''))))) (\<lambda>_.
     if buf = [] then fault
     else block [wmove dialog_win (tx_height v - 3) (tx_width v - 9), addstr dialog_win (percent_text (percent buf v))]))"

definition refresh_cursor :: "text_vars \<Rightarrow> unit ui_act" where
  "refresh_cursor v = block [wmove dialog_win (fst (tx_cur v)) (snd (tx_cur v)), draw (Wrefresh dialog_win)]"

definition refresh_text_box :: "string \<Rightarrow> text_vars \<Rightarrow> text_vars ui_act" where
  "refresh_text_box buf v =
     andthen (print_page buf v) (\<lambda>w.
     andthen (print_position buf w) (\<lambda>_.
     andthen (refresh_cursor w) (\<lambda>_. give w)))"

text \<open>\<open>to_newline buf q\<close>: the last newline in front of \<open>q\<close>; \<open>None\<close> when the start is reached.\<close>

fun to_newline :: "string \<Rightarrow> nat \<Rightarrow> nat option" where
  "to_newline buf 0 = None"
| "to_newline buf (Suc q) = (if buf ! q = newline then Some q else to_newline buf q)"

fun back_loop :: "string \<Rightarrow> nat \<Rightarrow> text_vars \<Rightarrow> text_vars" where
  "back_loop buf 0 v = v"
| "back_loop buf (Suc n) v =
     (if tx_page v = length buf \<and> tx_end v then back_loop buf n (v\<lparr>tx_end := False\<rparr>)
      else if tx_page v = 0 then v\<lparr>tx_begin := True\<rparr>
      else
        case to_newline buf (tx_page v - 1) of
          None \<Rightarrow> v\<lparr>tx_page := 0, tx_begin := True\<rparr>
        | Some q \<Rightarrow> back_loop buf n (v\<lparr>tx_page := q + 1\<rparr>))"

definition back_lines :: "string \<Rightarrow> int \<Rightarrow> text_vars \<Rightarrow> text_vars ui_act" where
  "back_lines buf n v =
     (if length buf < tx_page v then fault else give (back_loop buf (nat n) (v\<lparr>tx_begin := False\<rparr>)))"

subsection \<open>Keys\<close>

definition text_layout ::
    "curses \<Rightarrow> string option \<Rightarrow> string \<Rightarrow> int \<Rightarrow> int \<Rightarrow> text_vars \<Rightarrow> text_vars option ui_act" where
  "text_layout cz title buf initial_height initial_width v =
     andthen (peek (\<lambda>u. (LINES u, COLS u))) (\<lambda>(lns, cls).
     if lns < 8 \<or> cls < 8 then give None
     else
       let height = (if initial_height \<noteq> 0 then initial_height else if 4 < lns then lns - 4 else 0);
           width = (if initial_width \<noteq> 0 then initial_width else if 5 < cls then cls - 5 else 0);
           x = half (cls - width); y = half (lns - height); w = v\<lparr>tx_height := height, tx_width := width\<rparr> in
       andthen (peek dlg) (\<lambda>d.
       andthen (block
         [draw_shadow cz stdscr y x height width, draw (Newwin dialog_win height width y x), draw (Keypad dialog_win True),
          draw (Newwin inner_win (boxh w) (boxw w) (y + 1) (x + 1)), attrset inner_win ''dialog'',
          draw (Wbkgdset inner_win (atr (d ''dialog''))), draw (Keypad inner_win True),
          draw_box dialog_win 0 0 height width ''dialog'' ''border'', attrset dialog_win ''border'',
          wmove dialog_win (height - 3) 0, addch dialog_win ACS_LTEE, loop_to (width - 2) (\<lambda>i. addch dialog_win ACS_HLINE),
          attrset dialog_win ''dialog'', draw (Wbkgdset dialog_win (atr (d ''dialog''))), addch dialog_win ACS_RTEE,
          print_title dialog_win title width, print_button dialog_win '' Exit '' (height - 2) (half width - 4) True,
          draw (Wnoutrefresh dialog_win)]) (\<lambda>_.
       andthen (getyx cz dialog_win) (\<lambda>cur.
       andthen (attr_clear inner_win (boxh w) (boxw w) (atr (d ''dialog''))) (\<lambda>_.
       andthen (refresh_text_box buf (w\<lparr>tx_cur := cur\<rparr>)) (\<lambda>z. give (Some z)))))))"

definition scroll_box :: "int \<Rightarrow> unit ui_act" where
  "scroll_box n = block [draw (Scrollok inner_win True), draw (Wscrl inner_win n), draw (Scrollok inner_win False)]"

text \<open>The first line of the page is printed, the others are only read.\<close>

definition read_page :: "string \<Rightarrow> int \<Rightarrow> text_vars \<Rightarrow> text_vars ui_act" where
  "read_page buf i v =
     (if i = 0 then andthen (print_line buf 0 v) (\<lambda>w. andthen (draw (Wnoutrefresh inner_win)) (\<lambda>_. give w))
      else andthen (get_line buf v) (\<lambda>(line, w). give w))"

definition line_before :: "string \<Rightarrow> text_vars \<Rightarrow> text_vars ui_act" where
  "line_before buf v =
     andthen (back_lines buf (int (tx_length v) + 1) v) (\<lambda>w.
     andthen (scroll_box (- 1)) (\<lambda>_.
     andthen (page_loop (read_page buf) [0..boxh w - 1] False (w\<lparr>tx_length := 0\<rparr>)) (\<lambda>z.
     andthen (print_position buf z) (\<lambda>_.
     andthen (refresh_cursor z) (\<lambda>_. give z)))))"

definition line_behind :: "string \<Rightarrow> text_vars \<Rightarrow> text_vars ui_act" where
  "line_behind buf v =
     andthen (scroll_box 1) (\<lambda>_.
     andthen (print_line buf (boxh v - 1) (v\<lparr>tx_begin := False\<rparr>)) (\<lambda>w.
     andthen (draw (Wnoutrefresh inner_win)) (\<lambda>_.
     andthen (print_position buf w) (\<lambda>_.
     andthen (refresh_cursor w) (\<lambda>_. give w)))))"

definition again_from :: "string \<Rightarrow> int \<Rightarrow> text_vars \<Rightarrow> text_vars ui_act" where
  "again_from buf n v = andthen (back_lines buf n v) (refresh_text_box buf)"

definition text_move :: "string \<Rightarrow> int \<Rightarrow> text_vars \<Rightarrow> text_vars ui_act" where
  "text_move buf key v =
     (if is_key key ''g'' \<or> key = KEY_HOME then
        if tx_begin v then give v else refresh_text_box buf (v\<lparr>tx_begin := True, tx_page := 0\<rparr>)
      else if is_key key ''G'' \<or> key = KEY_END then again_from buf (boxh v) (v\<lparr>tx_end := True, tx_page := length buf\<rparr>)
      else if is_key key ''Kk'' \<or> key = KEY_UP then if tx_begin v then give v else line_before buf v
      else if is_key key ''Bb'' \<or> key = KEY_PPAGE then
        if tx_begin v then give v else again_from buf (int (tx_length v) + boxh v) v
      else if is_key key ''Jj'' \<or> key = KEY_DOWN then if tx_end v then give v else line_behind buf v
      else if is_key key '' '' \<or> key = KEY_NPAGE then
        if tx_end v then give v else refresh_text_box buf (v\<lparr>tx_begin := False\<rparr>)
      else if is_key key ''0Hh'' \<or> key = KEY_LEFT then
        if tx_hscroll v = 0 then give v
        else again_from buf (int (tx_length v)) (v\<lparr>tx_hscroll := (if is_key key ''0'' then 0 else tx_hscroll v - 1)\<rparr>)
      else if is_key key ''Ll'' \<or> key = KEY_RIGHT then
        if MAX_LEN \<le> tx_hscroll v then give v
        else again_from buf (int (tx_length v)) (v\<lparr>tx_hscroll := tx_hscroll v + 1\<rparr>)
      else give v)"

definition text_key :: "string \<Rightarrow> int \<Rightarrow> text_vars \<Rightarrow> text_vars step ui_act" where
  "text_key buf key v =
     (if is_key key ''EeXx'' then andthen close_windows (\<lambda>_. give (Leave 0))
      else if key = KEY_ESC then
        andthen (on_key_esc dialog_win) (\<lambda>k.
        if k = KEY_ESC then andthen close_windows (\<lambda>_. give (Leave KEY_ESC)) else give (Again v))
      else if is_key key [newline] then andthen close_windows (\<lambda>_. give (Leave key))
      else if key = KEY_RESIZE then
        andthen (back_lines buf (tx_height v) v) (\<lambda>w.
        andthen close_windows (\<lambda>_. andthen on_key_resize (\<lambda>_. give (Resized w))))
      else andthen (text_move buf key v) (\<lambda>w. give (Again w)))"

fun text_open :: "nat \<Rightarrow> curses \<Rightarrow> string option \<Rightarrow> string \<Rightarrow> int \<Rightarrow> int \<Rightarrow> text_vars \<Rightarrow> int ui_act"
  and text_loop :: "nat \<Rightarrow> curses \<Rightarrow> string option \<Rightarrow> string \<Rightarrow> int \<Rightarrow> int \<Rightarrow> text_vars \<Rightarrow> int ui_act" where
  "text_open 0 cz title buf h w v = spent"
| "text_open (Suc n) cz title buf h w v =
     andthen (text_layout cz title buf h w v) (\<lambda>r.
     case r of None \<Rightarrow> give (- ERRDISPLAYTOOSMALL) | Some x \<Rightarrow> text_loop n cz title buf h w x)"
| "text_loop 0 cz title buf h w v = spent"
| "text_loop (Suc n) cz title buf h w v =
     andthen (wgetch dialog_win) (\<lambda>key.
     andthen (text_key buf key v) (\<lambda>r.
     case r of
       Leave x \<Rightarrow> give x
     | Again x \<Rightarrow> text_loop n cz title buf h w x
     | Resized x \<Rightarrow> text_open n cz title buf h w x))"

definition text_start :: text_vars where
  "text_start = \<lparr>tx_page = 0, tx_begin = True, tx_end = False, tx_length = 0, tx_hscroll = 0, tx_height = 0, tx_width = 0,
     tx_cur = (0, 0)\<rparr>"

definition dialog_textbox :: "curses \<Rightarrow> string option \<Rightarrow> string \<Rightarrow> int \<Rightarrow> int \<Rightarrow> int ui_act" where
  "dialog_textbox cz title buf h w =
     andthen (peek (\<lambda>u. length (key_list u))) (\<lambda>n. text_open (2 * n + 2) cz title buf h w text_start)"

subsection \<open>The position stays inside the text\<close>

definition inside :: "string \<Rightarrow> text_vars \<Rightarrow> bool" where
  "inside buf v \<longleftrightarrow> tx_page v \<le> length buf"

lemma scan_line_pos: "scan_line l p r = (l', p', e) \<Longrightarrow> p \<le> p' \<and> p' \<le> p + length r"
  by (induction l p r arbitrary: l' p' e rule: scan_line.induct) (fastforce split: if_splits)+

lemma get_line_inside:
  assumes "inside buf v" "\<And>line p e. p \<le> length buf \<Longrightarrow> Q (line, v\<lparr>tx_page := p, tx_end := e\<rparr>) u"
  shows "wp b (get_line buf v) u Q"
proof -
  obtain line p e where s: "scan_line [] (tx_page v) (drop (tx_page v) buf) = (line, p, e)" by (metis prod_cases3)
  have "p \<le> length buf" using scan_line_pos[OF s] assms(1) by (simp add: inside_def)
  then show ?thesis using assms by (simp add: get_line_def s inside_def)
qed

text \<open>Only the screen changes.\<close>

definition screen_only :: "ui \<Rightarrow> ui \<Rightarrow> bool" where
  "screen_only u u' \<longleftrightarrow> u\<lparr>drawn := []\<rparr> = u'\<lparr>drawn := []\<rparr>"

lemma screen_only_refl [simp]: "screen_only u u" and screen_only_drawn [simp]: "screen_only u (u\<lparr>drawn := d\<rparr>)"
  and screen_only_trans: "screen_only u v \<Longrightarrow> screen_only v w \<Longrightarrow> screen_only u w"
  by (simp_all add: screen_only_def)

lemma screen_onlyD:
  assumes "screen_only u u'"
  shows "items u' = items u" "item_cur u' = item_cur u" "item_nil u' = item_nil u" "input_result u' = input_result u"
    "key_list u' = key_list u"
proof -
  have e: "f (u'\<lparr>drawn := []\<rparr>) = f (u\<lparr>drawn := []\<rparr>)" for f :: "ui \<Rightarrow> 'a" using assms by (simp add: screen_only_def)
  show "items u' = items u" using e[of items] by simp
  show "item_cur u' = item_cur u" using e[of item_cur] by simp
  show "item_nil u' = item_nil u" using e[of item_nil] by simp
  show "input_result u' = input_result u" using e[of input_result] by simp
  show "key_list u' = key_list u" using e[of key_list] by simp
qed

lemma wp_screen:
  assumes "draws p" "\<And>u'. screen_only u u' \<Longrightarrow> Q () u'"
  shows "wp b p u Q"
proof -
  obtain t where "p u = Done () (u\<lparr>drawn := drawn u @ t\<rparr>)" using assms(1) unfolding draws_def by blast
  then show ?thesis using assms(2) by (simp add: wp_def)
qed

definition text_stays :: "string \<Rightarrow> ui \<Rightarrow> text_vars \<Rightarrow> ui \<Rightarrow> bool" where
  "text_stays buf u w u' \<longleftrightarrow> screen_only u u' \<and> inside buf w"

lemma print_line_stays: "inside buf v \<Longrightarrow> wp b (print_line buf i v) u (text_stays buf u)"
  unfolding print_line_def wp_basic
  by (rule get_line_inside, assumption, simp only: prod.case wp_basic, rule wp_screen, intro drawing)
    (simp add: text_stays_def inside_def)

lemma read_page_stays: "inside buf v \<Longrightarrow> wp b (read_page buf i v) u (text_stays buf u)"
  unfolding read_page_def
  apply (rule wp_if)
  subgoal
    unfolding wp_basic
    by (rule wp_weaken[OF print_line_stays], assumption, rule wp_screen, rule drawing)
      (auto simp: text_stays_def screen_only_def)
  subgoal
    unfolding wp_basic by (rule get_line_inside, assumption) (simp add: text_stays_def inside_def)
  done

lemma page_loop_stays:
  assumes "\<And>i v u. inside buf v \<Longrightarrow> wp b (line i v) u (text_stays buf u)" "inside buf v"
  shows "wp b (page_loop line is passed v) u (text_stays buf u)"
  using assms(2)
proof (induction "is" arbitrary: v u passed)
  case (Cons i "is")
  show ?case
    unfolding page_loop.simps wp_basic
  proof (rule wp_weaken[OF assms(1)[OF Cons.prems]])
    fix w u' assume w: "text_stays buf u w u'"
    let ?w = "if passed then w else w\<lparr>tx_length := tx_length w + 1\<rparr>"
    have "inside buf ?w" using w by (simp add: text_stays_def inside_def)
    from Cons.IH[OF this] show "wp b (page_loop line is (passed \<or> tx_end w) ?w) u' (text_stays buf u)"
      by (rule wp_weaken) (use w in \<open>auto simp: text_stays_def screen_only_def\<close>)
  qed
qed (simp add: text_stays_def)

lemma print_page_stays: "inside buf v \<Longrightarrow> wp b (print_page buf v) u (text_stays buf u)"
  unfolding print_page_def wp_basic
  by (rule wp_weaken[OF page_loop_stays], rule print_line_stays, assumption, simp add: inside_def, rule wp_screen, rule drawing)
    (auto simp: text_stays_def screen_only_def)

lemma draws_print_position: "buf \<noteq> [] \<Longrightarrow> draws (print_position buf v)"
  unfolding print_position_def by (simp only: if_False, intro drawing)

lemma draws_refresh_cursor [drawing]: "draws (refresh_cursor v)"
  unfolding refresh_cursor_def by (intro drawing)

lemma refresh_stays:
  assumes "buf \<noteq> []" "inside buf v"
  shows "wp b (refresh_text_box buf v) u (text_stays buf u)"
  unfolding refresh_text_box_def wp_basic
  by (rule wp_weaken[OF print_page_stays[OF assms(2)]], rule wp_screen[OF draws_print_position[OF assms(1)]],
      rule wp_screen, rule drawing)
    (auto simp: text_stays_def screen_only_def)

lemma to_newline_less: "to_newline buf q = Some r \<Longrightarrow> r < q \<and> buf ! r = newline"
  by (induction q) (auto split: if_splits)

lemma back_loop_inside: "inside buf v \<Longrightarrow> inside buf (back_loop buf n v)"
proof (induction n arbitrary: v)
  case (Suc n)
  show ?case
  proof (cases "tx_page v = length buf \<and> tx_end v")
    case True
    then have "inside buf (back_loop buf n (v\<lparr>tx_end := False\<rparr>))" by (intro Suc.IH) (simp add: inside_def)
    then show ?thesis using True by simp
  next
    case False
    have "inside buf (back_loop buf n (v\<lparr>tx_page := Suc q\<rparr>))" if "to_newline buf (tx_page v - 1) = Some q" for q
      using to_newline_less[OF that] Suc.prems by (intro Suc.IH) (auto simp: inside_def)
    then show ?thesis using False Suc.prems by (auto simp: inside_def split: option.split)
  qed
qed simp

lemma wp_back_lines: "inside buf v \<Longrightarrow> wp b (back_lines buf n v) u Q \<longleftrightarrow> Q (back_loop buf (nat n) (v\<lparr>tx_begin := False\<rparr>)) u"
  by (simp add: back_lines_def inside_def)

lemma inside_back: "inside buf v \<Longrightarrow> inside buf (back_loop buf n (v\<lparr>tx_begin := c\<rparr>))"
  by (rule back_loop_inside) (simp add: inside_def)

lemma again_from_stays: "buf \<noteq> [] \<Longrightarrow> inside buf v \<Longrightarrow> wp b (again_from buf n v) u (text_stays buf u)"
  unfolding again_from_def wp_basic by (simp only: wp_back_lines, rule refresh_stays, assumption, erule inside_back)

lemma draws_scroll_box [drawing]: "draws (scroll_box n)"
  unfolding scroll_box_def by (intro drawing)

lemma line_before_stays:
  assumes "buf \<noteq> []" "inside buf v"
  shows "wp b (line_before buf v) u (text_stays buf u)"
  unfolding line_before_def wp_basic wp_back_lines[OF assms(2)]
  apply (rule wp_screen, rule drawing)
  apply (rule wp_weaken[OF page_loop_stays[where line = "read_page buf"]], erule read_page_stays)
   apply (use inside_back[OF assms(2)] in \<open>simp add: inside_def\<close>)
  apply (rule wp_screen[OF draws_print_position[OF assms(1)]], rule wp_screen, rule drawing)
  by (auto simp: text_stays_def screen_only_def)

lemma line_behind_stays:
  assumes "buf \<noteq> []" "inside buf v"
  shows "wp b (line_behind buf v) u (text_stays buf u)"
  unfolding line_behind_def wp_basic
  apply (rule wp_screen, rule drawing)
  apply (rule wp_weaken[OF print_line_stays])
  subgoal using assms(2) by (simp add: inside_def)
  apply (rule wp_screen, rule drawing, rule wp_screen[OF draws_print_position[OF assms(1)]], rule wp_screen, rule drawing)
  by (auto simp: text_stays_def screen_only_def)

lemma text_move_stays:
  assumes "buf \<noteq> []" "inside buf v"
  shows "wp b (text_move buf key v) u (text_stays buf u)"
proof -
  have g: "wp b (give v) u (text_stays buf u)" using assms(2) by (simp add: text_stays_def)
  have i: "inside buf (v\<lparr>tx_begin := c\<rparr>)" "inside buf (v\<lparr>tx_end := c, tx_page := length buf\<rparr>)"
    "inside buf (v\<lparr>tx_begin := c, tx_page := 0\<rparr>)" "inside buf (v\<lparr>tx_hscroll := h\<rparr>)" for c h
    using assms(2) by (simp_all add: inside_def)
  show ?thesis
    unfolding text_move_def
    by (intro wp_if g refresh_stays again_from_stays line_before_stays line_behind_stays assms i)
qed

lemma text_layout_stays:
  assumes "buf \<noteq> []" "inside buf v"
  shows "wp b (text_layout cz title buf h w v) u (\<lambda>r u'. screen_only u u' \<and> (case r of None \<Rightarrow> True | Some x \<Rightarrow> inside buf x))"
  unfolding text_layout_def Let_def getyx_def wp_basic prod.case
  apply (rule wp_if)
  subgoal by simp
  unfolding wp_basic
  apply (rule wp_screen, intro drawing draws_print_button, simp)
  apply (rule wp_screen, rule drawing)
  apply (rule wp_weaken[OF refresh_stays[OF assms(1)]])
  subgoal using assms(2) by (simp add: inside_def)
  subgoal by (auto simp: text_stays_def screen_only_def)
  done

definition text_outcome :: "string \<Rightarrow> ui \<Rightarrow> text_vars step \<Rightarrow> ui \<Rightarrow> bool" where
  "text_outcome buf u r u' \<longleftrightarrow>
     items u' = items u \<and> item_cur u' = item_cur u \<and> input_result u' = input_result u \<and> length (key_list u') \<le> length (key_list u) \<and>
     (case r of Leave x \<Rightarrow> x \<in> {0, 10, KEY_ESC} | Again w \<Rightarrow> inside buf w | Resized w \<Rightarrow> inside buf w)"

lemma text_key_ok:
  assumes "buf \<noteq> []" "inside buf v"
  shows "wp {waits} (text_key buf key v) u (text_outcome buf u)"
  unfolding text_key_def
  apply (rule wp_if)
  subgoal unfolding wp_basic by (rule wp_screen, rule drawing) (auto simp: screen_onlyD text_outcome_def)
  apply (rule wp_if)
  subgoal
    unfolding wp_basic
    apply (rule wp_on_key_esc, simp, rule wp_if, unfold wp_basic, rule wp_screen, rule drawing)
    subgoal by (auto simp: screen_onlyD text_outcome_def still_def)
    subgoal using assms(2) by (auto simp: text_outcome_def still_def)
    done
  apply (rule wp_if)
  subgoal
    unfolding wp_basic by (rule wp_screen, rule drawing) (auto simp: screen_onlyD text_outcome_def is_key_def newline_def code_def)
  apply (rule wp_if)
  subgoal
    unfolding wp_basic wp_back_lines[OF assms(2)]
    by (rule wp_screen, rule drawing, rule draws_on_key_resize)
      (use inside_back[OF assms(2)] in \<open>auto simp: screen_onlyD text_outcome_def\<close>)
  subgoal
    unfolding wp_basic
    by (rule wp_weaken[OF text_move_stays[OF assms]]) (auto simp: screen_onlyD text_outcome_def text_stays_def)
  done

definition text_end :: "ui \<Rightarrow> int \<Rightarrow> ui \<Rightarrow> bool" where
  "text_end u x u' \<longleftrightarrow> x \<in> {0, 10, KEY_ESC, - ERRDISPLAYTOOSMALL} \<and> items u' = items u \<and> item_cur u' = item_cur u \<and>
     input_result u' = input_result u"

lemma text_ends:
  assumes "buf \<noteq> []"
  shows "inside buf v \<Longrightarrow> 2 * length (key_list u) + 1 < n \<Longrightarrow> wp {waits} (text_open n cz title buf h w v) u (text_end u)"
    and "inside buf v \<Longrightarrow> 2 * length (key_list u) < n \<Longrightarrow> wp {waits} (text_loop n cz title buf h w v) u (text_end u)"
proof (induction n arbitrary: u v)
  case (Suc n)
  { case 1
    show ?case
      unfolding text_open.simps wp_basic
    proof (rule wp_weaken[OF text_layout_stays[OF assms 1(1)]])
      fix r u' assume r: "screen_only u u' \<and> (case r of None \<Rightarrow> True | Some x \<Rightarrow> inside buf x)"
      show "wp {waits} (case r of None \<Rightarrow> give (- ERRDISPLAYTOOSMALL) | Some x \<Rightarrow> text_loop n cz title buf h w x) u' (text_end u)"
      proof (cases r)
        case (Some x)
        then have "wp {waits} (text_loop n cz title buf h w x) u' (text_end u')"
          using r 1(2) by (intro Suc.IH(2)) (auto simp: screen_onlyD)
        then show ?thesis unfolding Some option.case by (rule wp_weaken) (use r in \<open>auto simp: text_end_def screen_onlyD\<close>)
      qed (use r in \<open>auto simp: text_end_def screen_onlyD\<close>)
    qed }
  { case 2
    show ?case
      unfolding text_loop.simps wp_basic
    proof (rule wp_wgetch, simp)
      fix k ht l r assume k: "key_list u = (k, ht, l) # r"
      let ?u = "u\<lparr>key_list := r, LINES := ht, COLS := l\<rparr>"
      show "wp {waits} (text_key buf k v) ?u (\<lambda>x y. wp {waits} (case x of
          Again x \<Rightarrow> text_loop n cz title buf h w x | Leave x \<Rightarrow> give x | Resized x \<Rightarrow> text_open n cz title buf h w x) y (text_end u))"
      proof (rule wp_weaken[OF text_key_ok[OF assms 2(1)]])
        fix s y assume o: "text_outcome buf ?u s y"
        have fuel: "2 * length (key_list y) + 1 < n" using o k 2(2) by (simp add: text_outcome_def)
        have e: "text_end y x z \<Longrightarrow> text_end u x z" for x z using o by (simp add: text_end_def text_outcome_def)
        show "wp {waits} (case s of
            Again x \<Rightarrow> text_loop n cz title buf h w x | Leave x \<Rightarrow> give x | Resized x \<Rightarrow> text_open n cz title buf h w x) y (text_end u)"
        proof (cases s)
          case (Again x)
          then have "inside buf x" using o by (simp add: text_outcome_def)
          then have "wp {waits} (text_loop n cz title buf h w x) y (text_end y)" using fuel by (intro Suc.IH(2)) simp_all
          then show ?thesis unfolding Again step.case by (rule wp_weaken) (rule e)
        next
          case (Resized x)
          then have "inside buf x" using o by (simp add: text_outcome_def)
          then have "wp {waits} (text_open n cz title buf h w x) y (text_end y)" using fuel by (intro Suc.IH(1)) simp_all
          then show ?thesis unfolding Resized step.case by (rule wp_weaken) (rule e)
        qed (use o in \<open>auto simp: text_outcome_def text_end_def\<close>)
      qed
    qed }
qed simp_all

lemma dialog_textbox_ends: "buf \<noteq> [] \<Longrightarrow> wp {waits} (dialog_textbox cz title buf h w) u (text_end u)"
  unfolding dialog_textbox_def wp_basic by (rule text_ends) (simp_all add: inside_def text_start_def)

text \<open>An empty text is divided by: the position cannot be printed.\<close>

lemma empty_text_divides: "wp {faults} (refresh_text_box [] v) u (\<lambda>_ _. False)"
proof -
  have "wp {faults} (page_loop (print_line []) is p x) u (\<lambda>_ _. True)" for "is" p x u
    by (induction "is" arbitrary: p x u)
      (auto simp: print_line_def get_line_def attrset_def addch_def wmove_def addstr_def)
  then show ?thesis
    unfolding refresh_text_box_def print_page_def print_position_def wp_basic
    by (rule wp_weaken) (simp add: attrset_def)
qed

subsection \<open>Going back to the start of a page\<close>

definition line_start :: "string \<Rightarrow> nat \<Rightarrow> bool" where
  "line_start buf p \<longleftrightarrow> p \<le> length buf \<and> (p = 0 \<or> buf ! (p - 1) = newline)"

text \<open>The start of the line behind the one at \<open>p\<close>, and of the one \<open>k\<close> lines on.\<close>

definition line_after :: "string \<Rightarrow> nat \<Rightarrow> nat option" where
  "line_after buf p =
     (if newline \<in> set (drop p buf) then Some (p + length (takeWhile (\<lambda>c. c \<noteq> newline) (drop p buf)) + 1) else None)"

fun lines_on :: "string \<Rightarrow> nat \<Rightarrow> nat \<Rightarrow> nat option" where
  "lines_on buf 0 p = Some p"
| "lines_on buf (Suc k) p = Option.bind (lines_on buf k p) (line_after buf)"

lemma lines_on_Suc: "lines_on buf (Suc k) p = Option.bind (line_after buf p) (lines_on buf k)"
  by (induction k) (auto simp: bind_assoc split: bind_split)

lemma scan_line_after:
  "scan_line l p r = (l', p', e) \<Longrightarrow>
   (if newline \<in> set r then p' = p + length (takeWhile (\<lambda>c. c \<noteq> newline) r) + 1 \<and> \<not> e else p' = p + length r \<and> e)"
  by (induction l p r arbitrary: l' p' e rule: scan_line.induct) (fastforce split: if_splits)+

lemma length_until: "c \<in> set xs \<Longrightarrow> length (takeWhile (\<lambda>x. x \<noteq> c) xs) < length xs"
  by (induction xs) auto

lemma line_after_bounds:
  assumes "line_after buf p = Some q"
  shows "p < q" "q \<le> length buf" "buf ! (q - 1) = newline" "\<And>j. p \<le> j \<Longrightarrow> j < q - 1 \<Longrightarrow> buf ! j \<noteq> newline"
proof -
  let ?d = "drop p buf" let ?k = "length (takeWhile (\<lambda>c. c \<noteq> newline) ?d)"
  have n: "newline \<in> set ?d" and q: "q = p + ?k + 1" using assms by (auto simp: line_after_def split: if_splits)
  have k: "?k < length ?d" using n by (rule length_until)
  show "p < q" using q by simp
  show "q \<le> length buf" using q k by simp
  show "buf ! (q - 1) = newline" using nth_length_takeWhile[of "\<lambda>c. c \<noteq> newline" ?d] k q by simp
  fix j assume j: "p \<le> j" "j < q - 1"
  then have "j - p < ?k" using q by simp
  then have "?d ! (j - p) \<noteq> newline" using set_takeWhileD[OF nth_mem, of "j - p" "\<lambda>c. c \<noteq> newline" ?d] by (simp add: takeWhile_nth)
  then show "buf ! j \<noteq> newline" using j k q by simp
qed

lemma lines_on_bounds: "lines_on buf k p = Some q \<Longrightarrow> line_start buf p \<Longrightarrow> p \<le> q \<and> line_start buf q"
proof (induction k arbitrary: q)
  case (Suc k)
  then obtain x where "lines_on buf k p = Some x" "line_after buf x = Some q" by (auto simp: bind_eq_Some_conv)
  then show ?case using Suc.IH[of x] Suc.prems(2) line_after_bounds(1-3)[of buf x q] by (auto simp: line_start_def)
qed simp

lemma to_newline_back: "q \<le> m \<Longrightarrow> (\<And>j. q \<le> j \<Longrightarrow> j < m \<Longrightarrow> buf ! j \<noteq> newline) \<Longrightarrow> to_newline buf m = to_newline buf q"
  by (induction m) (auto simp: le_Suc_eq)

lemma to_newline_start: "line_start buf q \<Longrightarrow> to_newline buf q = (if q = 0 then None else Some (q - 1))"
  by (cases q) (auto simp: line_start_def)

lemma back_loop_line:
  assumes "line_after buf q = Some (tx_page v)" "line_start buf q" "\<not> tx_end v"
  shows "back_loop buf (Suc n) v = (if q = 0 then v\<lparr>tx_page := 0, tx_begin := True\<rparr> else back_loop buf n (v\<lparr>tx_page := q\<rparr>))"
proof -
  note b = line_after_bounds[OF assms(1)]
  have "to_newline buf (tx_page v - 1) = to_newline buf q" using b(1,4) by (intro to_newline_back) auto
  also have "\<dots> = (if q = 0 then None else Some (q - 1))" by (rule to_newline_start[OF assms(2)])
  finally show ?thesis using b(1) assms(3) by auto
qed

lemma back_loop_lines:
  assumes "line_start buf p"
  shows "lines_on buf k p = Some (tx_page v) \<Longrightarrow> \<not> tx_end v \<Longrightarrow> tx_page (back_loop buf k v) = p"
proof (induction k arbitrary: v)
  case (Suc k)
  obtain q where q: "lines_on buf k p = Some q" "line_after buf q = Some (tx_page v)"
    using Suc.prems(1) by (auto simp: bind_eq_Some_conv)
  have s: "p \<le> q" "line_start buf q" using lines_on_bounds[OF q(1) assms] by simp_all
  show ?case
    unfolding back_loop_line[OF q(2) s(2) Suc.prems(2)] using s(1) Suc.IH[of "v\<lparr>tx_page := q\<rparr>"] q(1) Suc.prems(2) by auto
qed simp

text \<open>What a page that is shown leaves behind: either all its lines were there, or the end was found.\<close>

definition page_read :: "string \<Rightarrow> nat \<Rightarrow> text_vars \<Rightarrow> text_vars \<Rightarrow> bool" where
  "page_read buf n v w \<longleftrightarrow>
     (n = 0 \<and> w = v) \<or>
     (lines_on buf n (tx_page v) = Some (tx_page w) \<and> tx_length w = tx_length v + n \<and> \<not> tx_end w) \<or>
     (\<exists>j<n. \<exists>q. lines_on buf j (tx_page v) = Some q \<and> newline \<notin> set (drop q buf) \<and> tx_page w = length buf \<and> tx_end w \<and>
        tx_length w = tx_length v + j + 1)"

lemma wp_print_line:
  assumes "inside buf v" "scan_line [] (tx_page v) (drop (tx_page v) buf) = (line, p, e)"
    and "Q (v\<lparr>tx_page := p, tx_end := e\<rparr>) (u\<lparr>drawn := drawn u @ [Wmove inner_win i 0, Waddch inner_win None (Ch (CHR '' '')),
      Waddstr inner_win (shown_part (tx_hscroll v) (boxw v) line), Wclrtoeol inner_win]\<rparr>)"
  shows "wp b (print_line buf i v) u Q"
  using assms by (simp add: print_line_def get_line_def inside_def wmove_def addch_def addstr_def)

lemma page_loop_passed:
  "tx_page v = length buf \<Longrightarrow> tx_end v \<Longrightarrow> wp b (page_loop (print_line buf) is True v) u (\<lambda>w _. w = v)"
proof (induction "is" arbitrary: u)
  case (Cons i "is")
  have v: "v\<lparr>tx_page := length buf, tx_end := True\<rparr> = v" using Cons.prems by simp
  show ?case
    unfolding page_loop.simps wp_basic
  proof (rule wp_print_line[where line = "[]" and p = "length buf" and e = True])
    fix x :: ui
    show "wp b (page_loop (print_line buf) is (True \<or> tx_end (v\<lparr>tx_page := length buf, tx_end := True\<rparr>))
      (if True then v\<lparr>tx_page := length buf, tx_end := True\<rparr> else (v\<lparr>tx_page := length buf, tx_end := True\<rparr>)\<lparr>tx_length :=
        tx_length (v\<lparr>tx_page := length buf, tx_end := True\<rparr>) + 1\<rparr>)) x (\<lambda>w _. w = v)"
      unfolding v if_True simp_thms by (rule Cons.IH[OF Cons.prems])
  qed (use Cons.prems in \<open>simp_all add: inside_def\<close>)
qed simp

lemma page_loop_reads:
  "inside buf v \<Longrightarrow> wp b (page_loop (print_line buf) is False v) u (\<lambda>w _. page_read buf (length is) v w)"
proof (induction "is" arbitrary: v u)
  case (Cons i "is")
  obtain line p e where s: "scan_line [] (tx_page v) (drop (tx_page v) buf) = (line, p, e)" by (metis prod_cases3)
  note a = scan_line_after[OF s]
  let ?w = "v\<lparr>tx_page := p, tx_end := e, tx_length := tx_length v + 1\<rparr>"
  have p: "inside buf ?w" using scan_line_pos[OF s] Cons.prems by (simp add: inside_def)
  show ?case
    unfolding page_loop.simps wp_basic
  proof (rule wp_print_line[OF Cons.prems s], cases e)
    case True
    then have n: "newline \<notin> set (drop (tx_page v) buf)" "p = length buf" using a Cons.prems by (auto simp: inside_def split: if_splits)
    have e: "page_read buf (length (i # is)) v ?w" using n True unfolding page_read_def by fastforce
    show "wp b (page_loop (print_line buf) is (False \<or> tx_end (v\<lparr>tx_page := p, tx_end := e\<rparr>)) (if False then v\<lparr>tx_page := p, tx_end := e\<rparr>
        else (v\<lparr>tx_page := p, tx_end := e\<rparr>)\<lparr>tx_length := tx_length (v\<lparr>tx_page := p, tx_end := e\<rparr>) + 1\<rparr>)) x
        (\<lambda>w _. page_read buf (length (i # is)) v w)" for x
      using page_loop_passed[of ?w buf b "is" x] n True
      by (simp, elim wp_weaken) (use e True in simp)
  next
    case False
    then have l: "line_after buf (tx_page v) = Some p" using a by (auto simp: line_after_def split: if_splits)
    have e: "page_read buf (length (i # is)) v w" if "page_read buf (length is) ?w w" for w
    proof -
      have "lines_on buf (Suc k) (tx_page v) = lines_on buf k p" for k by (simp only: lines_on_Suc l bind.bind_lunit)
      then show ?thesis
        using that l False unfolding page_read_def by (auto simp del: lines_on.simps(2))
    qed
    show "wp b (page_loop (print_line buf) is (False \<or> tx_end (v\<lparr>tx_page := p, tx_end := e\<rparr>)) (if False then v\<lparr>tx_page := p, tx_end := e\<rparr>
        else (v\<lparr>tx_page := p, tx_end := e\<rparr>)\<lparr>tx_length := tx_length (v\<lparr>tx_page := p, tx_end := e\<rparr>) + 1\<rparr>)) x
        (\<lambda>w _. page_read buf (length (i # is)) v w)" for x
      using Cons.IH[OF p, of x] False by (simp, elim wp_weaken) (use e False in simp)
  qed
qed (simp add: page_read_def)

lemma print_page_reads:
  assumes "inside buf v"
  shows "wp b (print_page buf v) u (\<lambda>w _. page_read buf (nat (boxh v)) (v\<lparr>tx_length := 0\<rparr>) w)"
  unfolding print_page_def wp_basic
  by (rule wp_weaken[OF page_loop_reads]) (use assms in \<open>simp_all add: inside_def nat_diff_distrib\<close>)

text \<open>
  C24.  Scrolling to the side shows the same lines again: after a page has been shown from the start of a line on, going
  back by the number of lines that were counted leads to that line, for a text that ends with a newline and
  for every height of the window, at the start, in the middle and behind the end of the text.
\<close>

theorem page_shown_again:
  assumes "line_start buf (tx_page v)" "buf \<noteq> []" "last buf = newline"
  shows "wp {} (andthen (print_page buf v) (\<lambda>w. back_lines buf (int (tx_length w)) w)) u (\<lambda>x u'. tx_page x = tx_page v)"
proof -
  let ?v = "v\<lparr>tx_length := 0\<rparr>"
  have inside: "inside buf v" using assms(1) by (simp add: inside_def line_start_def)
  have end0: "q = length buf" if "line_start buf q" "newline \<notin> set (drop q buf)" for q
  proof (rule ccontr)
    assume "q \<noteq> length buf"
    then have "q < length buf" using that(1) by (simp add: line_start_def)
    then have "drop q buf \<noteq> []" "last (drop q buf) = newline" using assms(3) by simp_all
    then show False using that(2) last_in_set by metis
  qed
  have there: "tx_page (back_loop buf (tx_length w) (w\<lparr>tx_begin := False\<rparr>)) = tx_page v \<and> inside buf w"
    if w: "page_read buf n ?v w" for n w
    using w unfolding page_read_def
  proof (elim disjE exE conjE)
    assume "w = ?v" then show ?thesis using inside by (simp add: inside_def)
  next
    assume l: "lines_on buf n (tx_page ?v) = Some (tx_page w)" "tx_length w = tx_length ?v + n" "\<not> tx_end w"
    then have "inside buf w" using lines_on_bounds[OF l(1)] assms(1) by (simp add: inside_def line_start_def)
    moreover have "tx_page (back_loop buf n (w\<lparr>tx_begin := False\<rparr>)) = tx_page v"
      by (rule back_loop_lines[OF assms(1)]) (use l in simp_all)
    ultimately show ?thesis using l(2) by simp
  next
    fix j q assume l: "lines_on buf j (tx_page ?v) = Some q" "newline \<notin> set (drop q buf)" "tx_page w = length buf" "tx_end w"
      "tx_length w = tx_length ?v + j + 1"
    then have "q = length buf" using lines_on_bounds[OF l(1)] assms(1) end0[of q] by simp
    then have "tx_page (back_loop buf j (w\<lparr>tx_begin := False, tx_end := False\<rparr>)) = tx_page v"
      using l by (intro back_loop_lines[OF assms(1)]) simp_all
    then show ?thesis using l(3-5) by (simp add: inside_def)
  qed
  show ?thesis
    unfolding wp_basic
    by (rule wp_weaken[OF print_page_reads[OF inside]]) (use there in \<open>simp add: wp_back_lines\<close>)
qed

definition ex_page :: text_vars where
  "ex_page = text_start\<lparr>tx_page := 2, tx_height := 6, tx_width := 20\<rparr>"

lemma page_shown_again_witness:
  "wp {} (andthen (print_page [CHR ''a'', newline, CHR ''b'', newline, CHR ''c'', newline] ex_page)
     (\<lambda>w. back_lines [CHR ''a'', newline, CHR ''b'', newline, CHR ''c'', newline] (int (tx_length w)) w)) ex_ui (\<lambda>x u'. tx_page x = 2)"
proof -
  let ?t = "[CHR ''a'', newline, CHR ''b'', newline, CHR ''c'', newline]"
  have "tx_page ex_page = 2" by (simp add: ex_page_def)
  moreover have "line_start ?t 2" by (simp add: line_start_def)
  ultimately show ?thesis using page_shown_again[of ?t ex_page ex_ui] by simp
qed

subsection \<open>A text without a newline at its end\<close>

lemma strings_of_append [simp]: "strings_of (xs @ ys) = strings_of xs @ strings_of ys"
  by (simp add: strings_of_def)

definition shows_strings :: "string list \<Rightarrow> ui \<Rightarrow> ui \<Rightarrow> bool" where
  "shows_strings ss u u' \<longleftrightarrow> strings_of (drawn u') = strings_of (drawn u) @ ss"

lemma page_loop_blank:
  "tx_page v = length buf \<Longrightarrow> wp b (page_loop (print_line buf) is passed v) u (\<lambda>w u'. tx_page w = length buf \<and>
     boxh w = boxh v \<and> shows_strings (replicate (length is) []) u u')"
proof (induction "is" arbitrary: v u passed)
  case (Cons i "is")
  show ?case
    unfolding page_loop.simps wp_basic
  proof (rule wp_print_line[where line = "[]" and p = "length buf" and e = True])
    let ?u = "u\<lparr>drawn := drawn u @ [Wmove inner_win i 0, Waddch inner_win None (Ch (CHR '' '')),
      Waddstr inner_win (shown_part (tx_hscroll v) (boxw v) []), Wclrtoeol inner_win]\<rparr>"
    let ?w = "v\<lparr>tx_page := length buf, tx_end := True\<rparr>"
    let ?x = "if passed then ?w else ?w\<lparr>tx_length := tx_length ?w + 1\<rparr>"
    have "shows_strings [[]] u ?u" unfolding shows_strings_def by (simp add: strings_of_def shown_part_def)
    moreover have "tx_page ?x = length buf" "boxh ?x = boxh v" by (simp_all add: boxh_def)
    ultimately show "wp b (page_loop (print_line buf) is (passed \<or> tx_end ?w) ?x) ?u (\<lambda>w u'. tx_page w = length buf \<and> boxh w = boxh v \<and>
        shows_strings (replicate (length (i # is)) []) u u')"
      by - (rule wp_weaken[OF Cons.IH], auto simp: shows_strings_def)
  qed (use Cons.prems in \<open>simp_all add: inside_def\<close>)
qed (simp add: shows_strings_def)

lemma is_key_large: "256 \<le> k \<Longrightarrow> \<not> is_key k s"
proof -
  assume k: "256 \<le> k"
  have "k \<noteq> int (code c)" for c using k code_bound[of c] by linarith
  then show ?thesis by (auto simp: is_key_def)
qed

lemma wp_conj: "wp b p u Q \<Longrightarrow> wp b p u R \<Longrightarrow> wp b p u (\<lambda>x v. Q x v \<and> R x v)"
  by (simp add: wp_def split: outcome.splits)

lemma page_loop_frame:
  "inside buf v \<Longrightarrow> wp b (page_loop (print_line buf) is p v) u (\<lambda>w _. boxh w = boxh v \<and> tx_hscroll w = tx_hscroll v)"
proof (induction "is" arbitrary: v u p)
  case (Cons i "is")
  obtain line q e where s: "scan_line [] (tx_page v) (drop (tx_page v) buf) = (line, q, e)" by (metis prod_cases3)
  let ?w = "v\<lparr>tx_page := q, tx_end := e\<rparr>"
  let ?x = "if p then ?w else ?w\<lparr>tx_length := tx_length ?w + 1\<rparr>"
  have w: "inside buf ?x" "boxh ?x = boxh v" "tx_hscroll ?x = tx_hscroll v"
    using scan_line_pos[OF s] Cons.prems by (simp_all add: inside_def boxh_def)
  show ?case
    unfolding page_loop.simps wp_basic
    by (rule wp_print_line[OF Cons.prems s], rule wp_weaken[OF Cons.IH[OF w(1)]]) (simp only: w)
qed simp

text \<open>
  C30.  A message that does not end with a newline disappears when it is scrolled to the side: after such a text of one line
  has been shown, the right arrow key (as the left one) goes back by one line too few, and
  all the lines that are then printed are empty, although the position is 100%.
\<close>

theorem message_scrolled_away:
  assumes "buf \<noteq> []" "newline \<notin> set buf" "0 < boxh v" "tx_page v = 0" "tx_hscroll v < MAX_LEN"
  shows "wp {} (print_page buf v) u (\<lambda>w u1. wp {} (text_move buf KEY_RIGHT w) u1 (\<lambda>x u2.
    tx_page x = length buf \<and>
    strings_of (drawn u2) = strings_of (drawn u1) @ replicate (nat (boxh v)) [] @ [percent_text 100]))"
proof -
  have k: "is_key KEY_RIGHT s = False" for s using is_key_large[of KEY_RIGHT] by (simp add: KEY_RIGHT_def)
  have one: "lines_on buf (Suc j) 0 = None" for j
    using assms(2) by (simp only: lines_on_Suc line_after_def) simp
  have next_page: "wp {} (text_move buf KEY_RIGHT w) u1 (\<lambda>x u2. tx_page x = length buf \<and>
      strings_of (drawn u2) = strings_of (drawn u1) @ replicate (nat (boxh v)) [] @ [percent_text 100])"
    if w: "tx_page w = length buf" "tx_end w" "tx_length w = 1" "boxh w = boxh v" "tx_hscroll w < MAX_LEN" for w u1
  proof -
    let ?x = "back_loop buf (Suc 0) (w\<lparr>tx_hscroll := tx_hscroll w + 1, tx_begin := False\<rparr>)"
    have x: "tx_page ?x = length buf" "boxh ?x = boxh v" "inside buf (w\<lparr>tx_hscroll := tx_hscroll w + 1\<rparr>)"
      using w by (simp_all add: inside_def boxh_def)
    have p: "percent buf y = 100" if "tx_page y = length buf" for y using that assms(1) by (simp add: percent_def)
    have r: "wp {} (refresh_text_box buf ?x) u1 (\<lambda>x u2. tx_page x = length buf \<and>
        strings_of (drawn u2) = strings_of (drawn u1) @ replicate (nat (boxh v)) [] @ [percent_text 100])"
      unfolding refresh_text_box_def print_page_def wp_basic
      by (rule wp_weaken[OF page_loop_blank])
        (use x assms(1,3) p in \<open>auto simp: print_position_def refresh_cursor_def attrset_def wmove_def addstr_def shows_strings_def
          strings_of_def boxh_def\<close>)
    show ?thesis
      unfolding text_move_def k again_from_def using w(3,5) x(3) r
      by (simp add: wp_back_lines key_defs del: back_loop.simps)
  qed
  have v: "inside buf v" using assms(4) by (simp add: inside_def)
  have first: "wp {} (print_page buf v) u (\<lambda>w _. page_read buf (nat (boxh v)) (v\<lparr>tx_length := 0\<rparr>) w \<and> boxh w = boxh v \<and>
      tx_hscroll w = tx_hscroll v)"
  proof (rule wp_conj[OF print_page_reads[OF v]])
    show "wp {} (print_page buf v) u (\<lambda>w _. boxh w = boxh v \<and> tx_hscroll w = tx_hscroll v)"
      unfolding print_page_def wp_basic
      by (rule wp_weaken[OF page_loop_frame]) (use v in \<open>simp_all add: inside_def boxh_def\<close>)
  qed
  obtain n where n: "nat (boxh v) = Suc n" using assms(3) by (cases "nat (boxh v)") simp_all
  show ?thesis
  proof (rule wp_weaken[OF first], rule next_page)
    fix w
    assume "page_read buf (nat (boxh v)) (v\<lparr>tx_length := 0\<rparr>) w \<and> boxh w = boxh v \<and> tx_hscroll w = tx_hscroll v"
    then have w: "page_read buf (Suc n) (v\<lparr>tx_length := 0\<rparr>) w" "boxh w = boxh v" "tx_hscroll w = tx_hscroll v"
      by (simp_all add: n)
    have "j = 0" if "lines_on buf j (tx_page (v\<lparr>tx_length := 0\<rparr>)) = Some q" for j q
      using that one[of "j - 1"] assms(4) by (cases j) (auto simp del: lines_on.simps(2))
    then have r: "tx_page w = length buf \<and> tx_end w \<and> tx_length w = 1"
      using w(1) unfolding page_read_def by fastforce
    show "tx_page w = length buf" "tx_end w" "tx_length w = 1" using r by simp_all
    show "boxh w = boxh v" "tx_hscroll w < MAX_LEN" using w assms(5) by simp_all
  qed
qed

text \<open>The message about an invalid entry, in the window of the front end.\<close>

lemma message_scrolled_away_witness:
  "wp {} (print_page ''You have made an invalid entry.'' (text_start\<lparr>tx_height := 5, tx_width := 43\<rparr>)) ex_ui
     (\<lambda>w u1. wp {} (text_move ''You have made an invalid entry.'' KEY_RIGHT w) u1
       (\<lambda>x u2. strings_of (drawn u2) = strings_of (drawn u1) @ [[], percent_text 100]))"
proof -
  let ?v = "text_start\<lparr>tx_height := 5, tx_width := 43\<rparr>"
  have b: "boxh ?v = 1" by (simp add: boxh_def)
  have "wp {} (print_page ''You have made an invalid entry.'' ?v) ex_ui (\<lambda>w u1.
      wp {} (text_move ''You have made an invalid entry.'' KEY_RIGHT w) u1 (\<lambda>x u2.
        tx_page x = length ''You have made an invalid entry.'' \<and>
        strings_of (drawn u2) = strings_of (drawn u1) @ replicate (nat (boxh ?v)) [] @ [percent_text 100]))"
    by (rule message_scrolled_away) (simp_all add: boxh_def text_start_def newline_def MAX_LEN_def)
  then show ?thesis unfolding b by (rule wp_weaken, elim wp_weaken) simp
qed

end
