(* ===== verification/MconfTexts.thy ===== *)
theory MconfTexts
  imports KFiles
begin

text \<open>
  The texts of the menu front end (\<^verbatim>\<open>mconf.c\<close>), by their lines.
\<close>

definition text_lines :: "string list \<Rightarrow> string" where
  "text_lines ls = concat (map (\<lambda>l. l @ newline_string) ls)"

definition mconf_readme :: string where
  \<open>mconf_readme =
     text_lines
      [''Overview'',
       ''--------'',
       ''Some kernel features may be built directly into the kernel.'',
       ''Some may be made into loadable runtime modules.  Some features'',
       ''may be completely removed altogether.  There are also certain'',
       ''kernel parameters which are not really features, but must be'',
       ''entered in as decimal or hexadecimal numbers or possibly text.'',
       '''',
       ''Menu items beginning with following braces represent features that'',
       ''  [ ] can be built in or removed'',
       ''  < > can be built in, modularized or removed'',
       ''  { } can be built in or modularized (selected by other feature)'',
       ''  - - are selected by other feature,'',
       ''while *, M or whitespace inside braces means to build in, build as'',
       ''a module or to exclude the feature respectively.'',
       '''',
       ''To change any of these features, highlight it with the cursor'',
       ''keys and press <Y> to build it in, <M> to make it a module or'',
       ''<N> to removed it.  You may also press the <Space Bar> to cycle'',
       ''through the available options (ie. Y->N->M->Y).'',
       '''',
       ''Some additional keyboard hints:'',
       '''',
       ''Menus'',
       ''----------'',
       ''o  Use the Up/Down arrow keys (cursor keys) to highlight the item'',
       ''   you wish to change or submenu wish to select and press <Enter>.'',
       ''   Submenus are designated by "--->".'',
       '''',
       ''   Shortcut: Press the option'' @ [CHR 0x27] @ ''s highlighted letter (hotkey).'',
       ''             Pressing a hotkey more than once will sequence'',
       ''             through all visible items which use that hotkey.'',
       '''',
       ''   You may also use the <PAGE UP> and <PAGE DOWN> keys to scroll'',
       ''   unseen options into view.'',
       '''',
       ''o  To exit a menu use the cursor keys to highlight the <Exit> button'',
       ''   and press <ENTER>.'',
       '''',
       ''   Shortcut: Press <ESC><ESC> or <E> or <X> if there is no hotkey'',
       ''             using those letters.  You may press a single <ESC>, but'',
       ''             there is a delayed response which you may find annoying.'',
       '''',
       ''   Also, the <TAB> and cursor keys will cycle between <Select>,'',
       ''   <Exit> and <Help>.'',
       '''',
       ''o  To get help with an item, use the cursor keys to highlight <Help>'',
       ''   and press <ENTER>.'',
       '''',
       ''   Shortcut: Press <H> or <?>.'',
       '''',
       ''o  To show hidden options, press <Z>.'',
       '''',
       '''',
       ''Radiolists  (Choice lists)'',
       ''-----------'',
       ''o  Use the cursor keys to select the option you wish to set and press'',
       ''   <S> or the <SPACE BAR>.'',
       '''',
       ''   Shortcut: Press the first letter of the option you wish to set then'',
       ''             press <S> or <SPACE BAR>.'',
       '''',
       ''o  To see available help for the item, use the cursor keys to highlight'',
       ''   <Help> and Press <ENTER>.'',
       '''',
       ''   Shortcut: Press <H> or <?>.'',
       '''',
       ''   Also, the <TAB> and cursor keys will cycle between <Select> and'',
       ''   <Help>'',
       '''',
       '''',
       ''Data Entry'',
       ''-----------'',
       ''o  Enter the requested information and press <ENTER>'',
       ''   If you are entering hexadecimal values, it is not necessary to'',
       ''   add the '' @ [CHR 0x27] @ ''0x'' @ [CHR 0x27] @ '' prefix to the entry.'',
       '''',
       ''o  For help, use the <TAB> or cursor keys to highlight the help option'',
       ''   and press <ENTER>.  You can try <TAB><H> as well.'',
       '''',
       '''',
       ''Text Box    (Help Window)'',
       ''--------'',
       ''o  Use the cursor keys to scroll up/down/left/right.  The VI editor'',
       ''   keys h,j,k,l function here as do <SPACE BAR> and <B> for those'',
       ''   who are familiar with less and lynx.'',
       '''',
       ''o  Press <E>, <X>, <Enter> or <Esc><Esc> to exit.'',
       '''',
       '''',
       ''Alternate Configuration Files'',
       ''-----------------------------'',
       ''Menuconfig supports the use of alternate configuration files for'',
       ''those who, for various reasons, find it necessary to switch'',
       ''between different kernel configurations.'',
       '''',
       ''At the end of the main menu you will find two options.  One is'',
       ''for saving the current configuration to a file of your choosing.'',
       ''The other option is for loading a previously saved alternate'',
       ''configuration.'',
       '''',
       ''Even if you don'' @ [CHR 0x27] @ ''t use alternate configuration files, but you'',
       ''find during a Menuconfig session that you have completely messed'',
       ''up your settings, you may use the "Load Alternate..." option to'',
       ''restore your previously saved settings from ".config" without'',
       ''restarting Menuconfig.'',
       '''',
       ''Other information'',
       ''-----------------'',
       ''If you use Menuconfig in an XTERM window make sure you have your'',
       ''$TERM variable set to point to a xterm definition which supports color.'',
       ''Otherwise, Menuconfig will look rather bad.  Menuconfig will not'',
       ''display correctly in a RXVT window because rxvt displays only one'',
       ''intensity of color, bright.'',
       '''',
       ''Menuconfig will display larger menus on screens or xterms which are'',
       ''set to display more than the standard 25 row by 80 column geometry.'',
       ''In order for this to work, the "stty size" command must be able to'',
       ''display the screen'' @ [CHR 0x27] @ ''s current row and column geometry.  I STRONGLY'',
       ''RECOMMEND that you make sure you do NOT have the shell variables'',
       ''LINES and COLUMNS exported into your environment.  Some distributions'',
       ''export those variables via /etc/profile.  Some ncurses programs can'',
       ''become confused when those variables (LINES & COLUMNS) don'' @ [CHR 0x27] @ ''t reflect'',
       ''the true screen size.'',
       '''',
       ''Optional personality available'',
       ''------------------------------'',
       ''If you prefer to have all of the kernel options listed in a single'',
       ''menu, rather than the default multimenu hierarchy, run the menuconfig'',
       ''with MENUCONFIG_MODE environment variable set to single_menu. Example:'',
       '''',
       ''make MENUCONFIG_MODE=single_menu menuconfig'',
       '''',
       ''<Enter> will then unroll the appropriate category, or enfold it if it'',
       ''is already unrolled.'',
       '''',
       ''Note that this mode can eventually be a little more CPU expensive'',
       ''(especially with a larger number of unrolled categories) than the'',
       ''default mode.'',
       '''',
       ''Different color themes available'',
       ''--------------------------------'',
       ''It is possible to select different color themes using the variable'',
       ''MENUCONFIG_COLOR. To select a theme use:'',
       '''',
       ''make MENUCONFIG_COLOR=<theme> menuconfig'',
       '''',
       ''Available themes are'',
       '' mono       => selects colors suitable for monochrome displays'',
       '' blackbg    => selects a color scheme with black background'',
       '' classic    => theme with blue background. The classic look'',
       '' bluetitle  => a LCD friendly version of classic. (default)'',
       '''']\<close>

definition menu_instructions :: string where
  \<open>menu_instructions =
     ''Arrow keys navigate the menu.  <Enter> selects submenus --->.  Highlighted letters are '' @
     ''hotkeys.  Pressing <Y> includes, <N> excludes, <M> modularizes features.  Press <Esc><Esc> to '' @
     ''exit, <?> for Help, </> for Search.  Legend: [*] built-in  [ ] excluded  <M> module  < > '' @
     ''module capable''\<close>

definition radiolist_instructions :: string where
  \<open>radiolist_instructions =
     ''Use the arrow keys to navigate this window or press the hotkey of the item you wish to select '' @
     ''followed by the <SPACE BAR>. Press <?> for additional information about this option.''\<close>

definition inputbox_instructions_int :: string where
  \<open>inputbox_instructions_int =
     ''Please enter a decimal value. Fractions will not be accepted.  Use the <TAB> key to move from '' @
     ''the input field to the buttons below it.''\<close>

definition inputbox_instructions_hex :: string where
  \<open>inputbox_instructions_hex =
     ''Please enter a hexadecimal value. Use the <TAB> key to move from the input field to the '' @
     ''buttons below it.''\<close>

definition inputbox_instructions_string :: string where
  \<open>inputbox_instructions_string =
     ''Please enter a string value. Use the <TAB> key to move from the input field to the buttons '' @
     ''below it.''\<close>

definition setmod_text :: string where
  \<open>setmod_text =
     text_lines
      [''This feature depends on another which has been configured as a module.''] @
     ''As a result, this feature will be built as a module.''\<close>

definition load_config_text :: string where
  \<open>load_config_text =
     ''Enter the name of the configuration file you wish to load.  Accept the name shown to restore '' @
     ''the configuration you last retrieved.  Leave blank to abort.''\<close>

definition load_config_help :: string where
  \<open>load_config_help =
     text_lines
      ['''',
       ''For various reasons, one may wish to keep several different kernel'',
       ''configurations available on a single machine.'',
       '''',
       ''If you have saved a previous configuration in a file other than the'',
       ''kernel'' @ [CHR 0x27] @ ''s default, entering the name of the file here will allow you'',
       ''to modify that configuration.'',
       '''',
       ''If you are uncertain, then you have probably never used alternate'',
       ''configuration files. You should therefore leave this blank to abort.'']\<close>

definition save_config_text :: string where
  \<open>save_config_text =
     ''Enter a filename to which this configuration should be saved as an alternate.  Leave blank to '' @
     ''abort.''\<close>

definition save_config_help :: string where
  \<open>save_config_help =
     text_lines
      ['''',
       ''For various reasons, one may wish to keep different kernel'',
       ''configurations available on a single machine.'',
       '''',
       ''Entering a file name here will allow you to later retrieve, modify'',
       ''and use the current configuration as an alternate to whatever'',
       ''configuration options you have selected at that time.'',
       '''',
       ''If you are uncertain what all this means then you should probably'',
       ''leave this blank.'']\<close>

definition search_help :: string where
  \<open>search_help =
     text_lines
      ['''',
       ''Search for MKR_ symbols and display their relations.'',
       ''Regular expressions are allowed.'',
       ''Example: search for "^FOO"'',
       ''Result:'',
       ''-----------------------------------------------------------------'',
       ''Symbol: FOO [=m]'',
       ''Prompt: Foo bus is used to drive the bar HW'',
       ''Defined at drivers/pci/Kconfig:47'',
       ''Depends on: X86_LOCAL_APIC && X86_IO_APIC || IA64'',
       ''Location:'',
       ''  -> Bus options (PCI, PCMCIA, EISA, MCA, ISA)'',
       ''    -> PCI support (PCI [=y])'',
       ''      -> PCI access mode (<choice> [=y])'',
       ''Selects: LIBCRC32'',
       ''Selected by: BAR'',
       ''-----------------------------------------------------------------'',
       ''o The line '' @ [CHR 0x27] @ ''Prompt:'' @ [CHR 0x27] @ '' shows the text used in the menu structure for'',
       ''  this MKR_ symbol'',
       ''o The '' @ [CHR 0x27] @ ''Defined at'' @ [CHR 0x27] @ '' line tell at what file / line number the symbol'',
       ''  is defined'',
       ''o The '' @ [CHR 0x27] @ ''Depends on:'' @ [CHR 0x27] @ '' line tell what symbols needs to be defined for'',
       ''  this symbol to be visible in the menu (selectable)'',
       ''o The '' @ [CHR 0x27] @ ''Location:'' @ [CHR 0x27] @ '' lines tell where in the menu structure this symbol'',
       ''  is located'',
       ''    A location followed by a [=y] indicate that this is a selectable'',
       ''    menu item - and current value is displayed inside brackets.'',
       ''o The '' @ [CHR 0x27] @ ''Selects:'' @ [CHR 0x27] @ '' line tell what symbol will be automatically'',
       ''  selected if this symbol is selected (y or m)'',
       ''o The '' @ [CHR 0x27] @ ''Selected by'' @ [CHR 0x27] @ '' line tell what symbol has selected this symbol'',
       '''',
       ''Only relevant lines are shown.'',
       '''',
       '''',
       ''Search examples:'',
       ''Examples: USB'' @ [CHR 0x09] @ ''=> find all MKR_ symbols containing USB'',
       ''          ^USB => find all MKR_ symbols starting with USB'',
       ''          USB$ => find all MKR_ symbols ending with USB'',
       '''']\<close>

text \<open>What the text dialog needs: a text that is not empty; those that end with a newline do so.\<close>

lemma text_lines_simps [simp]: "text_lines [] = []" "text_lines (l # ls) = l @ newline_string @ text_lines ls"
  by (simp_all add: text_lines_def)

lemma texts_not_empty:
  "mconf_readme \<noteq> []" "setmod_text \<noteq> []" "load_config_help \<noteq> []" "save_config_help \<noteq> []" "search_help \<noteq> []"
  by (simp_all add: mconf_readme_def setmod_text_def load_config_help_def save_config_help_def search_help_def newline_string_def)

text \<open>The prompts fit into the buffer in which they are wrapped.\<close>

lemma prompts_fit:
  "length menu_instructions < 2048" "length radiolist_instructions < 2048" "length load_config_text < 2048"
  "length save_config_text < 2048" "length inputbox_instructions_int < 2048" "length inputbox_instructions_hex < 2048"
  "length inputbox_instructions_string < 2048"
  by (simp_all add: menu_instructions_def radiolist_instructions_def load_config_text_def save_config_text_def
      inputbox_instructions_int_def inputbox_instructions_hex_def inputbox_instructions_string_def)

end
