(* ===== verification/Mconf.thy ===== *)
theory Mconf
  imports MconfTexts MenuHelp ConfWrite DialogText DialogList
begin

text \<open>
  The menu front end (\<^verbatim>\<open>mconf.c\<close>): it shows the entries of a menu as a list of items in a dialog, and
  changes symbols, configurations and the place in the menus by the answers.
\<close>

subsection \<open>State\<close>

text \<open>
  The screen with the lists of \<^verbatim>\<open>lxdialog\<close>, the configuration, the files, and the static variables.
  \<open>unrolled\<close> is the pointer \<^verbatim>\<open>data\<close> of the menu entries, of which only the truth value is used.
\<close>

record mconf_vars =
  scr :: ui
  conf_st :: kstate
  conf_files :: world
  mc_indent :: int
  current_menu :: "nat option"
  child_count :: int
  single_menu_mode :: bool
  show_all_options :: bool
  config_filename :: string
  unrolled :: "nat \<Rightarrow> bool"

type_synonym 'a mconf_act = "(mconf_vars, 'a) act"

text \<open>
  What does not change: the curses library, the system, the contents of an uninitialised buffer of
  \<open>conf_read\<close>, and the compilation of regular expressions.
\<close>

record mconf_env =
  me_curses :: curses
  me_os :: os
  me_junk :: string
  me_regcomp :: "string \<Rightarrow> (string \<Rightarrow> bool) option"

text \<open>A dialog, an operation on the configuration, and a pointer that is followed.\<close>

definition on_screen :: "'a ui_act \<Rightarrow> 'a mconf_act" where
  "on_screen p c =
     (case p (scr c) of Done x u \<Rightarrow> Done x (c\<lparr>scr := u\<rparr>) | Fault \<Rightarrow> Fault | Waits \<Rightarrow> Waits | Spent \<Rightarrow> Spent)"

definition on_config :: "(kstate \<Rightarrow> ('a \<times> kstate) option) \<Rightarrow> 'a mconf_act" where
  "on_config f c = (case f (conf_st c) of Some (x, st) \<Rightarrow> Done x (c\<lparr>conf_st := st\<rparr>) | None \<Rightarrow> Fault)"

definition ask_config :: "(kstate \<Rightarrow> 'a) \<Rightarrow> 'a mconf_act" where
  "ask_config f = peek (\<lambda>c. f (conf_st c))"

subsection \<open>The items of a menu\<close>

definition indented_by :: "int \<Rightarrow> 'a mconf_act \<Rightarrow> unit mconf_act" where
  "indented_by d p =
     andthen (poke (\<lambda>c. c\<lparr>mc_indent := mc_indent c + d\<rparr>)) (\<lambda>_.
     andthen p (\<lambda>_. poke (\<lambda>c. c\<lparr>mc_indent := mc_indent c - d\<rparr>)))"

definition count_child :: "unit mconf_act" where
  "count_child = poke (\<lambda>c. c\<lparr>child_count := child_count c + 1\<rparr>)"

definition mark_item :: "char \<Rightarrow> nat \<Rightarrow> unit mconf_act" where
  "mark_item tag m = on_screen (andthen (item_set_tag tag) (\<lambda>_. item_set_data (Some m)))"

definition menu_item :: "string \<Rightarrow> char \<Rightarrow> nat \<Rightarrow> unit mconf_act" where
  "menu_item t tag m = andthen (on_screen (item_make t)) (\<lambda>_. mark_item tag m)"

text \<open>\<^verbatim>\<open>%*c%s\<close>, a blank in a field as wide as the indentation, and the prompt.\<close>

definition indented_prompt :: "int \<Rightarrow> string option \<Rightarrow> string" where
  "indented_prompt w prompt = pad_char w (CHR '' '') @ print_ptr prompt"

definition tri_mark :: "tristate \<Rightarrow> char" where
  "tri_mark v = (case v of TYes \<Rightarrow> CHR ''*'' | TMod \<Rightarrow> CHR ''M'' | TNo \<Rightarrow> CHR '' '')"

definition bool_mark :: "tristate \<Rightarrow> char" where
  "bool_mark v = (if v = TNo then CHR '' '' else CHR ''*'')"

text \<open>
  The item of an entry without a symbol.  The result is the increment for the entries below, \<open>None\<close>
  when these are not shown.
\<close>

definition plain_item :: "nat \<Rightarrow> int option mconf_act" where
  "plain_item m =
     andthen (peek id) (\<lambda>c.
     let st = conf_st c; prompt = menu_get_prompt m st; w = mc_indent c + 1 in
     case menu_prompt (menus st m) of
       None \<Rightarrow> give (Some 0)
     | Some p \<Rightarrow>
         if Some m = current_menu c then give (Some 0)
         else if prop_type (props st p) = P_MENU then
           andthen count_child (\<lambda>_.
           andthen
             (if single_menu_mode c
              then menu_item ((if unrolled c m then ''-->'' else ''++>'') @ indented_prompt w prompt) (CHR ''m'') m
              else menu_item (''   '' @ indented_prompt w prompt @ ''  --->'') (CHR ''m'') m) (\<lambda>_.
           give (if single_menu_mode c \<and> unrolled c m then Some 2 else None)))
         else if prompt = None then give (Some 2)
         else
           andthen count_child (\<lambda>_.
           andthen
             (if prop_type (props st p) = P_COMMENT
              then menu_item (''   '' @ pad_char w (CHR '' '') @ ''*** '' @ print_ptr prompt @ '' ***'') (CHR '':'') m
              else menu_item (''---'' @ indented_prompt w prompt) (CHR '':'') m) (\<lambda>_.
           give (Some 2))))"

text \<open>The children of a choice: the last visible one whose symbol is the value of the choice.\<close>

fun find_def_menu :: "nat \<Rightarrow> symptr option \<Rightarrow> nat option \<Rightarrow> nat option \<Rightarrow> nat option mconf_act" where
  "find_def_menu 0 def_sym child d = spent"
| "find_def_menu (Suc n) def_sym None d = give d"
| "find_def_menu (Suc n) def_sym (Some child) d =
     andthen (on_config (menu_is_visible child)) (\<lambda>v.
     andthen (ask_config (\<lambda>st. menus st child)) (\<lambda>x.
     find_def_menu n def_sym (menu_next x) (if v \<and> menu_sym x = def_sym then Some child else d)))"

definition choice_item :: "nat \<Rightarrow> symptr \<Rightarrow> symbol_type \<Rightarrow> nat option \<Rightarrow> tristate mconf_act" where
  "choice_item m s ty d =
     andthen (peek id) (\<lambda>c.
     let st = conf_st c; val = sym_get_tristate_value (syms st s) in
     andthen
       (if sym_is_changable s st then
          andthen
            (case ty of
               S_BOOLEAN \<Rightarrow> on_screen (item_make (''['' @ [bool_mark val] @ '']''))
             | S_TRISTATE \<Rightarrow> on_screen (item_make (''<'' @ [tri_mark val] @ ''>''))
             | _ \<Rightarrow> give ()) (\<lambda>_. mark_item (CHR ''t'') m)
        else menu_item ''   '' (if d \<noteq> None then CHR ''t'' else CHR '':'') m) (\<lambda>_.
     andthen (on_screen (item_add_str (indented_prompt (mc_indent c + 1) (menu_get_prompt m st)))) (\<lambda>_.
     give val)))"

definition choice_value_shown :: "nat \<Rightarrow> unit mconf_act" where
  "choice_value_shown d =
     andthen (ask_config (menu_get_prompt d)) (\<lambda>prompt.
     on_screen (andthen (item_add_str ('' ('' @ print_ptr prompt @ '')'')) (\<lambda>_. item_add_str ''  --->'')))"

definition new_mark :: "symptr \<Rightarrow> kstate \<Rightarrow> string" where
  "new_mark s st = (if sym_has_value (syms st s) \<or> \<not> sym_is_changable s st then [] else '' (NEW)'')"

text \<open>
  The item of a symbol; the result as for \<open>plain_item\<close>.  The branch for strings and numbers does not look
  at the type of the prompt.
\<close>

definition symbol_item :: "nat \<Rightarrow> symptr \<Rightarrow> int option mconf_act" where
  "symbol_item m s =
     andthen (peek id) (\<lambda>c.
     let st = conf_st c; y = syms st s; val = sym_get_tristate_value y; w = mc_indent c + 1; prompt = menu_get_prompt m st;
         rest = andthen (on_screen (item_add_str (indented_prompt w prompt @ new_mark s st))) (\<lambda>_.
           case menu_prompt (menus st m) of
             None \<Rightarrow> fault
           | Some p \<Rightarrow>
               if prop_type (props st p) = P_MENU then andthen (on_screen (item_add_str ''  --->'')) (\<lambda>_. give None)
               else give (Some 2)) in
     if Some m = current_menu c then andthen (menu_item (''---'' @ indented_prompt w prompt) (CHR '':'') m) (\<lambda>_. give (Some 2))
     else
       andthen count_child (\<lambda>_.
       if sym_is_choice_value y \<and> val = TYes then andthen (menu_item ''   '' (CHR '':'') m) (\<lambda>_. rest)
       else
         case sym_get_type s st of
           S_BOOLEAN \<Rightarrow>
             andthen (menu_item
               (if sym_is_changable s st then ''['' @ [bool_mark val] @ '']'' else ''-'' @ [bool_mark val] @ ''-'') (CHR ''t'') m) (\<lambda>_. rest)
         | S_TRISTATE \<Rightarrow>
             andthen (menu_item
               (if \<not> sym_is_changable s st then ''-'' @ [tri_mark val] @ ''-''
                else if rev_dep_tri y = TMod then ''{'' @ [tri_mark val] @ ''}''
                else ''<'' @ [tri_mark val] @ ''>'') (CHR ''t'') m) (\<lambda>_. rest)
         | _ \<Rightarrow>
             let v = sym_get_string_value y; gap = max 0 (mc_indent c - (2 + int (length v)) + 4) in
             andthen (on_screen (item_make (''('' @ v @ '')''))) (\<lambda>_.
             andthen (on_screen (item_add_str (indented_prompt gap prompt @ new_mark s st))) (\<lambda>_.
             andthen (mark_item (CHR ''s'') m) (\<lambda>_.
             give (Some 2))))))"

text \<open>What follows an item: \<open>below\<close> shows the entries below.\<close>

definition after_item :: "(int \<Rightarrow> unit mconf_act) \<Rightarrow> int option mconf_act \<Rightarrow> unit mconf_act" where
  "after_item below item = andthen item (\<lambda>r. case r of None \<Rightarrow> give () | Some d \<Rightarrow> below d)"

text \<open>The entry of a choice; of a choice that is \<open>y\<close> only what is below its value is shown, by \<open>build\<close>.\<close>

definition choice_entry :: "nat \<Rightarrow> (nat \<Rightarrow> unit mconf_act) \<Rightarrow> unit mconf_act \<Rightarrow> nat \<Rightarrow> symptr \<Rightarrow> unit mconf_act" where
  "choice_entry n build below m s =
     andthen (ask_config (\<lambda>st. (sym_get_type s st, sym_get_choice_value (syms st s), menu_list (menus st m)))) (\<lambda>(ty, def_sym, l).
     andthen count_child (\<lambda>_.
     andthen (find_def_menu n def_sym l None) (\<lambda>d.
     andthen (choice_item m s ty d) (\<lambda>val.
     if val = TYes then
       (case d of
          None \<Rightarrow> give ()
        | Some k \<Rightarrow>
            andthen (choice_value_shown k) (\<lambda>_.
            andthen (ask_config (\<lambda>st. menu_list (menus st k))) (\<lambda>l.
            if l = None then give () else indented_by 2 (build k))))
     else below))))"

text \<open>
  \<open>menu_is_visible\<close> calculates the value of the symbol.  The fuel bounds the depth of the menus and the
  length of their lists.
\<close>

fun build_conf :: "nat \<Rightarrow> nat \<Rightarrow> unit mconf_act"
  and build_entries :: "nat \<Rightarrow> nat option \<Rightarrow> unit mconf_act" where
  "build_conf 0 m = spent"
| "build_conf (Suc n) m =
     andthen (on_config (menu_is_visible m)) (\<lambda>vis.
     andthen (peek id) (\<lambda>c.
     let x = menus (conf_st c) m; below = (\<lambda>d. indented_by d (build_entries n (menu_list x))) in
     if (if show_all_options c then menu_has_prompt m (conf_st c) else vis) then
       (case menu_sym x of
          None \<Rightarrow> after_item below (plain_item m)
        | Some s \<Rightarrow>
            if sym_is_choice (syms (conf_st c) s) then choice_entry n (build_conf n) (below 2) m s
            else after_item below (symbol_item m s))
     else give ()))"
| "build_entries 0 mo = spent"
| "build_entries (Suc n) None = give ()"
| "build_entries (Suc n) (Some m) =
     andthen (build_conf n m) (\<lambda>_.
     andthen (ask_config (\<lambda>st. menu_next (menus st m))) (\<lambda>k.
     build_entries n k))"

subsection \<open>Texts\<close>

definition show_textbox :: "mconf_env \<Rightarrow> string option \<Rightarrow> string option \<Rightarrow> int \<Rightarrow> int \<Rightarrow> unit mconf_act" where
  "show_textbox E title t r k =
     andthen (on_screen dialog_clear) (\<lambda>_.
     case t of
       None \<Rightarrow> fault
     | Some buf \<Rightarrow> andthen (on_screen (dialog_textbox (me_curses E) title buf r k)) (\<lambda>_. give ()))"

definition show_helptext :: "mconf_env \<Rightarrow> string option \<Rightarrow> string option \<Rightarrow> unit mconf_act" where
  "show_helptext E title t = show_textbox E title t 0 0"

definition show_help :: "mconf_env \<Rightarrow> nat \<Rightarrow> unit mconf_act" where
  "show_help E m =
     andthen (ask_config (\<lambda>st. (menu_get_prompt m st, menu_get_ext_help m st str_new))) (\<lambda>(prompt, h).
     case h of None \<Rightarrow> fault | Some help \<Rightarrow> show_helptext E prompt (str_get help))"

fun relations :: "kstate \<Rightarrow> symptr list \<Rightarrow> gstr \<Rightarrow> gstr option" where
  "relations st [] r = Some r"
| "relations st (s # ss) r = Option.bind (get_symbol_str st s r) (relations st ss)"

definition get_relations_str :: "kstate \<Rightarrow> symptr list option \<Rightarrow> gstr option" where
  "get_relations_str st arr =
     (let ss = (case arr of None \<Rightarrow> [] | Some ss \<Rightarrow> ss) in
      Option.bind (relations st ss str_new) (\<lambda>r.
      if ss = [] then str_append (Some (''No matches found.'' @ newline_string)) r else Some r))"

text \<open>The dialogs for a line of text leave it in \<^verbatim>\<open>dialog_input_result\<close>.\<close>

definition input_line :: "string mconf_act" where
  "input_line = peek (\<lambda>c. instr (scr c))"

definition strip_prefix :: "string \<Rightarrow> string" where
  "strip_prefix s = (if map tolower (take 4 s) = ''mkr_'' then drop 4 s else s)"

fun search_conf :: "nat \<Rightarrow> mconf_env \<Rightarrow> unit mconf_act" where
  "search_conf 0 E = spent"
| "search_conf (Suc n) E =
     andthen (on_screen dialog_clear) (\<lambda>_.
     andthen (on_screen (dialog_inputbox (me_curses E) (Some ''Search Configuration Parameter'')
       (''Enter MKR_ (sub)string to search for (with or without '' @ [CHR 0x22] @ ''CONFIG'' @ [CHR 0x22] @ '')'') 10 75 (Some []))) (\<lambda>dres.
     if dres = 0 then
       andthen input_line (\<lambda>line.
       andthen (ask_config (\<lambda>st. get_relations_str st (sym_re_search (me_regcomp E) (strip_prefix line) st))) (\<lambda>res.
       case res of None \<Rightarrow> fault | Some r \<Rightarrow> show_textbox E (Some ''Search Results'') (str_get r) 0 0))
     else if dres = 1 then
       andthen (show_helptext E (Some ''Search Configuration'') (Some search_help)) (\<lambda>_. search_conf n E)
     else give ()))"


subsection \<open>Asking for values and files\<close>

definition main_title :: "string option \<Rightarrow> string option" where
  "main_title prompt = (case prompt of None \<Rightarrow> Some ''Main Menu'' | Some t \<Rightarrow> Some t)"

definition input_heading :: "symbol_type \<Rightarrow> string" where
  "input_heading ty =
     (if ty = S_INT then inputbox_instructions_int else if ty = S_HEX then inputbox_instructions_hex
      else if ty = S_STRING then inputbox_instructions_string else ''Internal mconf error!'')"

text \<open>
  The loops that put a question in an input line: \<open>answer\<close> is what is done with an answer, and tells whether
  the loop is left; \<open>help\<close> is the other button.  Only \<^verbatim>\<open>ESC\<close> leaves the loop otherwise.
\<close>

definition ask_line ::
    "mconf_env \<Rightarrow> string option \<Rightarrow> string \<Rightarrow> int \<Rightarrow> int \<Rightarrow> string \<Rightarrow> (string \<Rightarrow> bool mconf_act) \<Rightarrow> unit mconf_act \<Rightarrow> bool mconf_act" where
  "ask_line E title header h w init answer help =
     andthen (on_screen dialog_clear) (\<lambda>_.
     andthen (on_screen (dialog_inputbox (me_curses E) title header h w (Some init))) (\<lambda>res.
     if res = 0 then andthen input_line answer
     else if res = 1 then andthen help (\<lambda>_. give False)
     else give (res = KEY_ESC)))"

fun until :: "nat \<Rightarrow> bool mconf_act \<Rightarrow> unit mconf_act" where
  "until 0 p = spent"
| "until (Suc n) p = andthen p (\<lambda>stop. if stop then give () else until n p)"

definition string_question :: "mconf_env \<Rightarrow> nat \<Rightarrow> string option \<Rightarrow> bool mconf_act" where
  "string_question E m prompt =
     andthen (ask_config id) (\<lambda>st.
     case menu_sym (menus st m) of
       None \<Rightarrow> fault
     | Some s \<Rightarrow>
         ask_line E (main_title prompt) (input_heading (sym_get_type s st)) 10 75 (sym_get_string_value (syms st s))
           (\<lambda>t.
             andthen (on_config (sym_set_string_value s t)) (\<lambda>ok.
             if ok then give True
             else andthen (show_textbox E None (Some ''You have made an invalid entry.'') 5 43) (\<lambda>_. give False)))
           (show_help E m))"

definition mconf_string :: "nat \<Rightarrow> mconf_env \<Rightarrow> nat \<Rightarrow> unit mconf_act" where
  "mconf_string n E m = andthen (ask_config (menu_get_prompt m)) (\<lambda>prompt. until n (string_question E m prompt))"

definition set_config_filename :: "string \<Rightarrow> unit mconf_act" where
  "set_config_filename name =
     andthen (on_screen (set_dialog_backtitle (take (PATH_MAX + 127) (name @ '' - Mkrootfs Configuration'')))) (\<lambda>_.
     poke (\<lambda>c. c\<lparr>config_filename := take PATH_MAX name\<rparr>))"

definition load_question :: "mconf_env \<Rightarrow> bool mconf_act" where
  "load_question E =
     andthen (peek config_filename) (\<lambda>name.
     ask_line E None load_config_text 11 55 name
       (\<lambda>t.
         if t = [] then give True
         else
           andthen (peek conf_files) (\<lambda>w.
           andthen (on_config (conf_read (os_getenv (me_os E)) (w_files w) (me_junk E) (Some t))) (\<lambda>failed.
           if failed then andthen (show_textbox E None (Some ''File does not exist!'') 5 38) (\<lambda>_. give False)
           else
             andthen (set_config_filename t) (\<lambda>_.
             andthen (poke (\<lambda>c. c\<lparr>conf_st := sym_set_change_count 1 (conf_st c)\<rparr>)) (\<lambda>_. give True)))))
       (show_helptext E (Some ''Load Alternate Configuration'') (Some load_config_help)))"

definition mconf_load :: "nat \<Rightarrow> mconf_env \<Rightarrow> unit mconf_act" where
  "mconf_load n E = until n (load_question E)"

text \<open>The only operation on the files.\<close>

definition mconf_write :: "mconf_env \<Rightarrow> string \<Rightarrow> bool mconf_act" where
  "mconf_write E name c =
     (case conf_write (me_os E) (Some name) (conf_st c) (conf_files c) of
        None \<Rightarrow> Fault
      | Some (failed, st, w) \<Rightarrow> Done failed (c\<lparr>conf_st := st, conf_files := w\<rparr>))"

definition save_question :: "mconf_env \<Rightarrow> bool mconf_act" where
  "save_question E =
     andthen (peek config_filename) (\<lambda>name.
     ask_line E None save_config_text 11 55 name
       (\<lambda>t.
         if t = [] then give True
         else
           andthen (mconf_write E t) (\<lambda>failed.
           if failed then
             andthen (show_textbox E None (Some (''Can'' @ [CHR 0x27] @ ''t create file!  Probably a nonexistent directory.'')) 5 60)
               (\<lambda>_. give False)
           else andthen (set_config_filename t) (\<lambda>_. give True)))
       (show_helptext E (Some ''Save Alternate Configuration'') (Some save_config_help)))"

definition mconf_save :: "nat \<Rightarrow> mconf_env \<Rightarrow> unit mconf_act" where
  "mconf_save n E = until n (save_question E)"

subsection \<open>Choices\<close>

definition value_item :: "nat \<Rightarrow> symptr option \<Rightarrow> nat \<Rightarrow> unit mconf_act" where
  "value_item m active child =
     andthen (ask_config id) (\<lambda>st.
     let so = menu_sym (menus st child); prompt = print_ptr (menu_get_prompt child st) in
     andthen (on_screen
       (if so \<noteq> None then item_make prompt
        else andthen (item_make (''*** '' @ prompt @ '' ***'')) (\<lambda>_. item_set_tag (CHR '':'')))) (\<lambda>_.
     andthen (on_screen (item_set_data (Some child))) (\<lambda>_.
     andthen (on_screen (if so = active then item_set_selected True else give ())) (\<lambda>_.
     case menu_sym (menus st m) of
       None \<Rightarrow> fault
     | Some ch \<Rightarrow> on_screen (if so = sym_get_choice_value (syms st ch) then item_set_tag (CHR ''X'') else give ())))))"

fun value_items :: "nat \<Rightarrow> nat \<Rightarrow> symptr option \<Rightarrow> nat option \<Rightarrow> unit mconf_act" where
  "value_items 0 m active mo = spent"
| "value_items (Suc n) m active None = give ()"
| "value_items (Suc n) m active (Some child) =
     andthen (on_config (menu_is_visible child)) (\<lambda>v.
     andthen (if v then value_item m active child else give ()) (\<lambda>_.
     andthen (ask_config (\<lambda>st. menu_next (menus st child))) (\<lambda>k.
     value_items n m active k)))"

definition show_values :: "nat \<Rightarrow> mconf_env \<Rightarrow> nat \<Rightarrow> string option \<Rightarrow> symptr option \<Rightarrow> int mconf_act" where
  "show_values n E m prompt active =
     andthen (on_screen item_reset) (\<lambda>_.
     andthen (poke (\<lambda>c. c\<lparr>current_menu := Some m\<rparr>)) (\<lambda>_.
     andthen (ask_config (\<lambda>st. menu_list (menus st m))) (\<lambda>l.
     andthen (value_items n m active l) (\<lambda>_.
     on_screen (andthen dialog_clear (\<lambda>_.
       dialog_checklist (me_curses E) (main_title prompt) radiolist_instructions 15 70 6))))))"

text \<open>The entry of the current item, which is followed.\<close>

definition current_entry :: "nat mconf_act" where
  "current_entry = andthen (on_screen item_data) (\<lambda>d. case d of None \<Rightarrow> fault | Some k \<Rightarrow> give k)"

fun choice_turns :: "nat \<Rightarrow> mconf_env \<Rightarrow> nat \<Rightarrow> string option \<Rightarrow> symptr option \<Rightarrow> unit mconf_act" where
  "choice_turns 0 E m prompt active = spent"
| "choice_turns (Suc n) E m prompt active =
     andthen (show_values n E m prompt active) (\<lambda>res.
     andthen (on_screen item_activate_selected) (\<lambda>selected.
     if res = 0 then
       if selected then
         andthen current_entry (\<lambda>child.
         andthen (ask_config (\<lambda>st. menu_sym (menus st child))) (\<lambda>so.
         case so of
           None \<Rightarrow> choice_turns n E m prompt active
         | Some s \<Rightarrow> andthen (on_config (sym_set_tristate_value s TYes)) (\<lambda>_. give ())))
       else give ()
     else if res = 1 then
       if selected then
         andthen current_entry (\<lambda>child.
         andthen (show_help E child) (\<lambda>_.
         andthen (ask_config (\<lambda>st. menu_sym (menus st child))) (\<lambda>so. choice_turns n E m prompt so)))
       else andthen (show_help E m) (\<lambda>_. choice_turns n E m prompt active)
     else if res = KEY_ESC \<or> res = - ERRDISPLAYTOOSMALL then give ()
     else choice_turns n E m prompt active))"

definition mconf_choice :: "nat \<Rightarrow> mconf_env \<Rightarrow> nat \<Rightarrow> unit mconf_act" where
  "mconf_choice n E m =
     andthen (ask_config id) (\<lambda>st.
     case menu_sym (menus st m) of
       None \<Rightarrow> fault
     | Some s \<Rightarrow> choice_turns n E m (menu_get_prompt m st) (sym_get_choice_value (syms st s)))"

subsection \<open>Menus\<close>

definition root_items :: "unit mconf_act" where
  "root_items = on_screen (block
     [item_make ''--- '', item_set_tag (CHR '':''),
      item_make ''    Load an Alternate Configuration File'', item_set_tag (CHR ''L''),
      item_make ''    Save an Alternate Configuration File'', item_set_tag (CHR ''S'')])"

definition of_symbol :: "symptr option \<Rightarrow> (symptr \<Rightarrow> unit mconf_act) \<Rightarrow> unit mconf_act" where
  "of_symbol so f = (case so of None \<Rightarrow> fault | Some s \<Rightarrow> f s)"

definition set_tristate :: "symptr \<Rightarrow> tristate \<Rightarrow> bool mconf_act" where
  "set_tristate s v = on_config (sym_set_tristate_value s v)"

text \<open>
  What is done with the answer \<open>res\<close> of a menu, for the tag and the entry of the selected item; \<open>conf\<close> opens
  a menu.
\<close>

definition select_item :: "nat \<Rightarrow> mconf_env \<Rightarrow> (nat \<Rightarrow> unit mconf_act) \<Rightarrow> char \<Rightarrow> nat option \<Rightarrow> symptr option \<Rightarrow> unit mconf_act" where
  "select_item n E conf tag entry so =
     (if tag = CHR ''m'' then
        (case entry of
           None \<Rightarrow> fault
         | Some m \<Rightarrow>
             andthen (peek single_menu_mode) (\<lambda>single.
             if single then poke (\<lambda>c. c\<lparr>unrolled := (unrolled c)(m := \<not> unrolled c m)\<rparr>) else conf m))
      else if tag = CHR ''t'' then
        of_symbol so (\<lambda>s.
        case entry of
          None \<Rightarrow> fault
        | Some m \<Rightarrow>
            andthen (ask_config id) (\<lambda>st.
            if sym_is_choice (syms st s) \<and> sym_get_tristate_value (syms st s) = TYes then mconf_choice n E m
            else
              case menu_prompt (menus st m) of
                None \<Rightarrow> fault
              | Some p \<Rightarrow> if prop_type (props st p) = P_MENU then conf m else give ()))
      else if tag = CHR ''s'' then (case entry of None \<Rightarrow> fault | Some m \<Rightarrow> mconf_string n E m)
      else if tag = CHR ''L'' then mconf_load n E
      else if tag = CHR ''S'' then mconf_save n E
      else give ())"

definition menu_action ::
    "nat \<Rightarrow> mconf_env \<Rightarrow> (nat \<Rightarrow> unit mconf_act) \<Rightarrow> int \<Rightarrow> char \<Rightarrow> nat option \<Rightarrow> symptr option \<Rightarrow> unit mconf_act" where
  "menu_action n E conf res tag entry so =
     (if res = 0 then select_item n E conf tag entry so
      else if res = 2 then
        (case (so, entry) of
           (Some s, Some m) \<Rightarrow> show_help E m
         | _ \<Rightarrow> show_helptext E (Some ''README'') (Some mconf_readme))
      else if res = 3 then
        if tag = CHR ''t'' then
          of_symbol so (\<lambda>s.
          andthen (set_tristate s TYes) (\<lambda>ok.
          if ok then give ()
          else
            andthen (set_tristate s TMod) (\<lambda>ok2.
            if ok2 then show_textbox E None (Some setmod_text) 6 74 else give ())))
        else give ()
      else if res = 4 then
        if tag = CHR ''t'' then of_symbol so (\<lambda>s. andthen (set_tristate s TNo) (\<lambda>_. give ())) else give ()
      else if res = 5 then
        if tag = CHR ''t'' then of_symbol so (\<lambda>s. andthen (set_tristate s TMod) (\<lambda>_. give ())) else give ()
      else if res = 6 then
        if tag = CHR ''t'' then of_symbol so (\<lambda>s. andthen (on_config (sym_toggle_tristate_value s)) (\<lambda>_. give ()))
        else if tag = CHR ''m'' then (case entry of None \<Rightarrow> fault | Some m \<Rightarrow> conf m)
        else give ()
      else if res = 7 then search_conf n E
      else if res = 8 then poke (\<lambda>c. c\<lparr>show_all_options := \<not> show_all_options c\<rparr>)
      else give ())"

text \<open>\<open>active\<close> is the entry that was selected last, \<open>s\<close> the place of the window over the list.\<close>

fun mconf_menu :: "nat \<Rightarrow> mconf_env \<Rightarrow> nat \<Rightarrow> unit mconf_act"
  and menu_turns :: "nat \<Rightarrow> mconf_env \<Rightarrow> nat \<Rightarrow> string option \<Rightarrow> nat option \<Rightarrow> int \<Rightarrow> unit mconf_act" where
  "mconf_menu 0 E m = spent"
| "mconf_menu (Suc n) E m = andthen (ask_config (menu_get_prompt m)) (\<lambda>prompt. menu_turns n E m prompt None 0)"
| "menu_turns 0 E m prompt active s = spent"
| "menu_turns (Suc n) E m prompt active s =
     andthen (on_screen item_reset) (\<lambda>_.
     andthen (poke (\<lambda>c. c\<lparr>current_menu := Some m\<rparr>)) (\<lambda>_.
     andthen (ask_config next_menu) (\<lambda>k.
     andthen (build_conf (2 * k + 2) m) (\<lambda>_.
     andthen (peek child_count) (\<lambda>count.
     if count = 0 then give ()
     else
       andthen (if m = rootmenu then root_items else give ()) (\<lambda>_.
       andthen (on_screen dialog_clear) (\<lambda>_.
       andthen (on_screen (dialog_menu (me_curses E) (main_title prompt) menu_instructions active s)) (\<lambda>(res, s1).
       if res = 1 \<or> res = KEY_ESC \<or> res = - ERRDISPLAYTOOSMALL then give ()
       else
         andthen (on_screen item_activate_selected) (\<lambda>selected.
         if \<not> selected then menu_turns n E m prompt active s1
         else
           andthen (on_screen item_tag) (\<lambda>tag.
           if tag = nul then menu_turns n E m prompt active s1
           else
             andthen (on_screen item_data) (\<lambda>entry.
             andthen (ask_config (\<lambda>st. case entry of None \<Rightarrow> None | Some x \<Rightarrow> menu_sym (menus st x))) (\<lambda>so.
             andthen (menu_action n E (mconf_menu n E) res tag entry so) (\<lambda>_.
             menu_turns n E m prompt entry s1)))))))))))))"

subsection \<open>The program\<close>

definition save_prompt :: string where
  "save_prompt = ''Do you wish to save your new rootfs configuration?'' @ newline_string @ ''<ESC><ESC> to continue.''"

definition ask_save :: "mconf_env \<Rightarrow> int mconf_act" where
  "ask_save E =
     andthen (on_screen dialog_clear) (\<lambda>_.
     andthen (ask_config conf_get_changed) (\<lambda>changed.
     if changed then on_screen (dialog_yesno (me_curses E) None save_prompt 6 60) else give (- 1)))"

fun main_turns :: "nat \<Rightarrow> mconf_env \<Rightarrow> int mconf_act" where
  "main_turns 0 E = spent"
| "main_turns (Suc n) E =
     andthen (mconf_menu n E rootmenu) (\<lambda>_.
     andthen (ask_save E) (\<lambda>res.
     if res = KEY_ESC then main_turns n E else give res))"

text \<open>The exit code, and whether the configuration was reported as saved, as not saved, or not mentioned.\<close>

datatype farewell = Too_small | Not_written | Session_ended | Not_saved

definition mconf_end :: "mconf_env \<Rightarrow> int \<Rightarrow> (nat \<times> farewell) mconf_act" where
  "mconf_end E res =
     (if res = 0 then
        andthen (peek config_filename) (\<lambda>name.
        andthen (mconf_write E name) (\<lambda>failed. give (if failed then (1, Not_written) else (0, Session_ended))))
      else give (0, if res = - 1 then Session_ended else Not_saved))"

definition is_single_menu :: "string option \<Rightarrow> bool" where
  "is_single_menu mode = (map_option (map tolower) mode = Some ''single_menu'')"

text \<open>\<open>main\<close> behind the parser.\<close>

definition mconf_main :: "nat \<Rightarrow> mconf_env \<Rightarrow> (nat \<times> farewell) mconf_act" where
  "mconf_main n E =
     andthen (peek conf_files) (\<lambda>w.
     andthen (on_config (conf_read (os_getenv (me_os E)) (w_files w) (me_junk E) None)) (\<lambda>_.
     andthen (if is_single_menu (os_getenv (me_os E) ''MENUCONFIG_MODE'') then poke (\<lambda>c. c\<lparr>single_menu_mode := True\<rparr>) else give ()) (\<lambda>_.
     andthen (on_screen (draw Initscr)) (\<lambda>_.
     andthen (on_screen (getyx (me_curses E) stdscr)) (\<lambda>(y, x).
     andthen (on_screen (init_dialog (me_curses E) (os_getenv (me_os E) ''MENUCONFIG_COLOR'') None)) (\<lambda>r.
     if r \<noteq> 0 then give (1, Too_small)
     else
       andthen (set_config_filename (conf_get_configname (os_getenv (me_os E)))) (\<lambda>_.
       andthen (main_turns n E) (\<lambda>res.
       andthen (on_screen (end_dialog x y)) (\<lambda>_.
       mconf_end E res)))))))))"

end
