(* ===== verification/MconfItems.thy ===== *)
theory MconfItems
  imports Mconf MenuVisible "HOL-Library.Sublist"
begin

text \<open>
  The list of items that \<open>build_conf\<close> makes for a menu: which entries are in it, in which order, and with
  which tags; and the questions for a line of text on a screen that is too small for them.
\<close>

subsection \<open>Steps\<close>

lemma wp_on_screen [simp]: "wp b (on_screen p) c Q \<longleftrightarrow> wp b p (scr c) (\<lambda>x u. Q x (c\<lparr>scr := u\<rparr>))"
  by (simp add: wp_def on_screen_def split: outcome.split)

lemma wp_on_config: "f (conf_st c) = Some (x, st) \<Longrightarrow> wp b (on_config f) c Q \<longleftrightarrow> Q x (c\<lparr>conf_st := st\<rparr>)"
  by (simp add: wp_def on_config_def)

lemma wp_ask_config [simp]: "wp b (ask_config f) c Q \<longleftrightarrow> Q (f (conf_st c)) c"
  by (simp add: ask_config_def)

text \<open>New items go to the end of the list.\<close>

definition at_end :: "ui \<Rightarrow> bool" where
  "at_end u \<longleftrightarrow> items u = [] \<or> item_cur u = Item (length (items u) - 1)"

definition adding :: "dialog_item list \<Rightarrow> dialog_item \<Rightarrow> ui \<Rightarrow> ui" where
  "adding xs i u = u\<lparr>item_cur := Item (length xs), items := xs @ [i]\<rparr>"

lemma adding_simps [simp]: "items (adding xs i u) = xs @ [i]" "at_end (adding xs i u)"
  by (simp_all add: adding_def at_end_def)

lemma items_then_cur: "(u :: ui)\<lparr>items := xs, item_cur := k\<rparr> = u\<lparr>item_cur := k, items := xs\<rparr>"
  by simp

lemma wp_item_make:
  "at_end u \<Longrightarrow> wp b (item_make t) u Q \<longleftrightarrow> Q () (adding (items u) (zero_item\<lparr>it_str := take (MAXITEMSTR - 1) t\<rparr>) u)"
  by (cases "items u = []") (simp_all add: wp_def item_make_def at_end_def adding_def Let_def items_then_cur)

lemma wp_change_item: "wp b (change_item f) (adding xs i u) Q \<longleftrightarrow> Q () (adding xs (f i) u)"
  by (simp add: wp_def change_item_def adding_def)

lemmas wp_items = wp_change_item item_add_str_def item_set_tag_def item_set_data_def item_set_selected_def mark_item_def menu_item_def

definition item_for :: "nat \<Rightarrow> char \<Rightarrow> dialog_item \<Rightarrow> bool" where
  "item_for m tag i \<longleftrightarrow> it_data i = Some m \<and> it_tag i = tag \<and> \<not> it_selected i"

text \<open>Tags and the entries they stand on.\<close>

definition item_ok :: "kstate \<Rightarrow> dialog_item \<Rightarrow> bool" where
  "item_ok st i \<longleftrightarrow> it_tag i \<in> set ''m:ts'' \<and> \<not> it_selected i \<and>
     (\<exists>m. it_data i = Some m \<and> menu_has_prompt m st \<and> (it_tag i \<in> set ''ts'' \<longrightarrow> menu_sym (menus st m) \<noteq> None) \<and>
       (it_tag i = CHR ''m'' \<longrightarrow> menu_sym (menus st m) = None))"

lemma item_ok_keeps: "keeps {} st st' \<Longrightarrow> item_ok st i \<Longrightarrow> item_ok st' i"
  by (simp add: item_ok_def menu_has_prompt_def keeps_menus)

text \<open>
  \<open>grown c xs c'\<close>: only calculated values have changed, and the list has grown by items for the entries \<open>xs\<close>.
\<close>

definition same_session :: "mconf_vars \<Rightarrow> mconf_vars \<Rightarrow> bool" where
  "same_session c c' \<longleftrightarrow> keeps {} (conf_st c) (conf_st c') \<and> wf_calc (conf_st c') \<and> conf_files c' = conf_files c \<and>
     mc_indent c' = mc_indent c \<and> current_menu c' = current_menu c \<and> single_menu_mode c' = single_menu_mode c \<and>
     show_all_options c' = show_all_options c \<and> config_filename c' = config_filename c \<and> unrolled c' = unrolled c \<and>
     child_count c \<le> child_count c'"

definition grown :: "mconf_vars \<Rightarrow> nat list \<Rightarrow> mconf_vars \<Rightarrow> bool" where
  "grown c xs c' \<longleftrightarrow> same_session c c' \<and> at_end (scr c') \<and>
     (\<exists>is. items (scr c') = items (scr c) @ is \<and> map it_data is = map Some xs \<and> (\<forall>i\<in>set is. item_ok (conf_st c') i))"

lemma same_session_refl: "wf_calc (conf_st c) \<Longrightarrow> same_session c c"
  by (simp add: same_session_def)

lemma same_session_trans: "same_session c d \<Longrightarrow> same_session d e \<Longrightarrow> same_session c e"
  unfolding same_session_def by (auto intro: keeps_trans)

lemma grown_refl: "wf_calc (conf_st c) \<Longrightarrow> at_end (scr c) \<Longrightarrow> grown c [] c"
  by (simp add: grown_def same_session_refl)

lemma grown_trans:
  assumes "grown c xs d" "grown d ys e"
  shows "grown c (xs @ ys) e"
proof -
  obtain is1 is2 where i: "items (scr d) = items (scr c) @ is1" "map it_data is1 = map Some xs" "\<forall>i\<in>set is1. item_ok (conf_st d) i"
    "items (scr e) = items (scr d) @ is2" "map it_data is2 = map Some ys" "\<forall>i\<in>set is2. item_ok (conf_st e) i"
    using assms unfolding grown_def by blast
  have "keeps {} (conf_st d) (conf_st e)" using assms(2) by (simp add: grown_def same_session_def)
  then have "\<forall>i\<in>set (is1 @ is2). item_ok (conf_st e) i" using i(3,6) item_ok_keeps by auto
  moreover have "items (scr e) = items (scr c) @ (is1 @ is2)" "map it_data (is1 @ is2) = map Some (xs @ ys)" using i by simp_all
  ultimately show ?thesis
    using assms same_session_trans[of c d e] unfolding grown_def by blast
qed

text \<open>One item is added, for an entry with a prompt.\<close>

lemma grown_one:
  assumes "wf_calc (conf_st c)" "menu_has_prompt m (conf_st c)" "item_for m tag i" "tag \<in> set ''m:ts''"
    and "tag \<in> set ''ts'' \<Longrightarrow> menu_sym (menus (conf_st c) m) \<noteq> None" "tag = CHR ''m'' \<Longrightarrow> menu_sym (menus (conf_st c) m) = None"
    and "child_count c \<le> k"
  shows "grown c [m] (c\<lparr>child_count := k, scr := adding (items (scr c)) i u\<rparr>)"
  using assms by (auto simp: grown_def same_session_def item_ok_def item_for_def)

text \<open>
  An entry that is visible whatever values are calculated, or has a prompt when all entries are to be shown; one that
  needs an item; and the entry whose list is made.
\<close>

definition visible_always :: "kstate \<Rightarrow> nat \<Rightarrow> bool" where
  "visible_always st m \<longleftrightarrow> (\<forall>st'. keeps {} st st' \<longrightarrow> wf_calc st' \<longrightarrow> (\<exists>st2. menu_is_visible m st' = Some (True, st2)))"

definition displayed :: "mconf_vars \<Rightarrow> nat \<Rightarrow> bool" where
  "displayed c m \<longleftrightarrow> (if show_all_options c then menu_has_prompt m (conf_st c) else visible_always (conf_st c) m)"

definition due_item :: "mconf_vars \<Rightarrow> nat \<Rightarrow> bool" where
  "due_item c m \<longleftrightarrow> displayed c m \<and> menu_get_prompt m (conf_st c) \<noteq> None \<and> Some m \<noteq> current_menu c"

definition entered :: "mconf_vars \<Rightarrow> nat \<Rightarrow> bool" where
  "entered c m \<longleftrightarrow> displayed c m \<and> current_menu c = Some m \<and>
     (\<forall>s. menu_sym (menus (conf_st c) m) = Some s \<longrightarrow> \<not> sym_is_choice (syms (conf_st c) s))"

lemma displayed_later:
  assumes "same_session c c'" "displayed c m"
  shows "displayed c' m"
proof -
  have k: "keeps {} (conf_st c) (conf_st c')" using assms(1) by (simp add: same_session_def)
  have "visible_always (conf_st c) m \<Longrightarrow> visible_always (conf_st c') m"
    unfolding visible_always_def using keeps_trans[OF k] by blast
  then show ?thesis using assms keeps_menus(3)[OF k, of m] by (auto simp: displayed_def same_session_def menu_has_prompt_def split: if_splits)
qed

lemma due_item_later:
  assumes "same_session c c'" "due_item c m"
  shows "due_item c' m"
proof -
  have k: "keeps {} (conf_st c) (conf_st c')" using assms(1) by (simp add: same_session_def)
  have "menu_get_prompt m (conf_st c') = menu_get_prompt m (conf_st c)"
    by (simp add: menu_get_prompt_def keeps_menus[OF k] keeps_prop[OF k] keeps_fields[OF k] split: option.split)
  then show ?thesis using assms displayed_later[OF assms(1)] by (simp add: due_item_def same_session_def)
qed

lemma due_item_indent [simp]: "due_item (c\<lparr>mc_indent := d\<rparr>) m \<longleftrightarrow> due_item c m" "entered (c\<lparr>mc_indent := d\<rparr>) m \<longleftrightarrow> entered c m"
  by (simp_all add: due_item_def entered_def displayed_def)

text \<open>No item, or one for the entry; one if it is due.  What is below the current menu is looked at.\<close>

definition shown_once :: "mconf_vars \<Rightarrow> nat \<Rightarrow> 'a option \<Rightarrow> mconf_vars \<Rightarrow> bool" where
  "shown_once c m r c' \<longleftrightarrow> (grown c [m] c' \<or> grown c [] c' \<and> \<not> due_item c m) \<and> (Some m = current_menu c \<longrightarrow> r \<noteq> None)"

lemma plain_item_shown:
  assumes "wf_calc (conf_st c)" "at_end (scr c)" "menu_sym (menus (conf_st c) m) = None"
  shows "wp {} (plain_item m) c (shown_once c m)"
proof (cases "menu_prompt (menus (conf_st c) m)")
  case (Some p)
  have one: "shown_once c m r (c\<lparr>child_count := child_count c + 1, scr := adding (items (scr c)) i (scr c)\<rparr>)"
    if "item_for m tag i" "tag \<in> set ''m:''" "Some m \<noteq> current_menu c" for tag i and r :: "int option"
  proof -
    have "grown c [m] (c\<lparr>child_count := child_count c + 1, scr := adding (items (scr c)) i (scr c)\<rparr>)"
      by (rule grown_one[OF assms(1) _ that(1)]) (use that(2) assms(3) Some in \<open>auto simp: menu_has_prompt_def\<close>)
    then show ?thesis using that(3) by (simp add: shown_once_def)
  qed
  have none: "shown_once c m r c" if "\<not> due_item c m" "Some m = current_menu c \<longrightarrow> r \<noteq> None" for r :: "int option"
    using grown_refl[OF assms(1,2)] that by (simp add: shown_once_def)
  have i: "item_for m tag (zero_item\<lparr>it_str := t, it_tag := tag, it_data := Some m\<rparr>)" for tag t
    by (simp add: item_for_def zero_item_def)
  show ?thesis
    unfolding plain_item_def Let_def Some option.case count_child_def
    using assms(2) one[OF i, of "CHR ''m''"] one[OF i, of "CHR '':''"] none
    by (auto simp: Some due_item_def wp_items wp_item_make split: option.split)
next
  case None
  then have "\<not> due_item c m" using assms(3) by (simp add: due_item_def menu_get_prompt_def)
  then show ?thesis
    using None grown_refl[OF assms(1,2)] by (simp add: plain_item_def Let_def shown_once_def)
qed

lemma item_for_str: "item_for m tag i \<Longrightarrow> item_for m tag (i\<lparr>it_str := t\<rparr>)"
  by (simp add: item_for_def)

lemma new_item_for:
  "item_for m tag (zero_item\<lparr>it_str := t, it_tag := tag, it_data := Some m\<rparr>)"
  by (simp add: item_for_def zero_item_def)

lemma symbol_item_shown:
  assumes "wf_calc (conf_st c)" "at_end (scr c)" "menu_sym (menus (conf_st c) m) = Some s" "menu_has_prompt m (conf_st c)"
  shows "wp {} (symbol_item m s) c (\<lambda>r c'. grown c [m] c' \<and> (Some m = current_menu c \<longrightarrow> r \<noteq> None))"
proof -
  obtain p where p: "menu_prompt (menus (conf_st c) m) = Some p" using assms(4) by (auto simp: menu_has_prompt_def)
  have one: "grown c [m] (c\<lparr>child_count := k, scr := adding (items (scr c)) i (scr c)\<rparr>)"
    if "item_for m tag i" "tag \<in> set '':ts''" "child_count c \<le> k" for tag i k
    by (rule grown_one[OF assms(1,4) that(1)]) (use that assms(3) in auto)
  note i = new_item_for item_for_str[OF new_item_for]
  have here: "grown c [m] (c\<lparr>scr := adding (items (scr c)) i (scr c)\<rparr>)" if "item_for m (CHR '':'') i" for i
    using one[OF that, of "child_count c"] by simp
  show ?thesis
    unfolding symbol_item_def Let_def count_child_def
    using assms(2) here[OF i(1)] one[OF i(2), of "CHR '':''" "child_count c + 1"] one[OF i(2), of "CHR ''t''" "child_count c + 1"]
      one[OF i(2), of "CHR ''s''" "child_count c + 1"] one[OF i(1), of "CHR ''s''" "child_count c + 1"]
    by (auto simp: p wp_items wp_item_make split: symbol_type.split)
qed

definition choice_mark :: "nat \<Rightarrow> dialog_item \<Rightarrow> bool" where
  "choice_mark m i \<longleftrightarrow> it_data i = Some m \<and> it_tag i \<in> set '':t'' \<and> \<not> it_selected i"

lemma choice_mark_item: "choice_mark m i \<Longrightarrow> \<exists>tag. item_for m tag i \<and> tag \<in> set '':t''"
  by (simp add: choice_mark_def item_for_def)

lemma choice_item_shown:
  assumes "at_end (scr c)" "ty = S_BOOLEAN \<or> ty = S_TRISTATE"
  shows "wp {} (choice_item m s ty d) c (\<lambda>val c'. val = sym_get_tristate_value (syms (conf_st c) s) \<and>
    (\<exists>i. choice_mark m i \<and> c' = c\<lparr>scr := adding (items (scr c)) i (scr c)\<rparr>))"
proof -
  have i: "choice_mark m j \<Longrightarrow> \<exists>i. choice_mark m i \<and> c\<lparr>scr := adding xs j u\<rparr> = c\<lparr>scr := adding xs i u\<rparr>" for j xs u by blast
  show ?thesis
    unfolding choice_item_def Let_def
    using assms
    by (auto simp: wp_items wp_item_make intro!: i) (simp_all add: choice_mark_def zero_item_def)
qed

subsection \<open>Trees of entries\<close>

text \<open>The symbol of a choice is two- or three-valued, as the parser makes sure.\<close>

definition choice_types :: "kstate \<Rightarrow> bool" where
  "choice_types st \<longleftrightarrow> (\<forall>s. sym_is_choice (syms st s) \<longrightarrow> sym_type (syms st s) = S_BOOLEAN \<or> sym_type (syms st s) = S_TRISTATE)"

lemma choice_type: "choice_types st \<Longrightarrow> sym_is_choice (syms st s) \<Longrightarrow> sym_get_type s st = S_BOOLEAN \<or> sym_get_type s st = S_TRISTATE"
  by (auto simp: choice_types_def sym_get_type_def Let_def)

lemma choice_types_keeps: "keeps {} st st' \<Longrightarrow> choice_types st \<Longrightarrow> choice_types st'"
  by (simp add: choice_types_def keeps_fields)

definition trees_ok :: "kstate \<Rightarrow> nat option \<Rightarrow> nat option \<Rightarrow> mtree list \<Rightarrow> bool" where
  "trees_ok st par p ts \<longleftrightarrow> wf_calc st \<and> choice_types st \<and> seg (menus st) par p ts None \<and>
     (\<forall>x\<in>set (pre_list ts). entry_ok st x) \<and> length (pre_list ts) \<le> next_menu st"

lemma trees_ok_keeps: "keeps {} st st' \<Longrightarrow> wf_calc st' \<Longrightarrow> trees_ok st par p ts \<Longrightarrow> trees_ok st' par p ts"
  unfolding trees_ok_def by (simp add: choice_types_keeps seg_keep entry_ok_keeps keeps_menus(4))

lemma keeps_links:
  assumes "keeps {} st st'"
  shows "menu_list (menus st' m) = menu_list (menus st m)" "menu_next (menus st' m) = menu_next (menus st m)"
  using keeps_menus(1)[OF assms, of m] by (simp_all add: same_links_def)

lemma trees_ok_Cons:
  assumes "trees_ok st par p (Entry m cs # ts)"
  shows "p = Some m" "entry_ok st m" "trees_ok st (Some m) (menu_list (menus st m)) cs" "trees_ok st par (menu_next (menus st m)) ts"
  using assms by (auto simp: trees_ok_def)

lemma trees_ok_child:
  "trees_ok st par p (us @ Entry k ds # vs) \<Longrightarrow> entry_ok st k \<and> trees_ok st (Some k) (menu_list (menus st k)) ds"
  by (auto simp: trees_ok_def seg_append)

lemma wp_visible:
  assumes "trees_ok (conf_st c) (Some m) (menu_list (menus (conf_st c) m)) cs" "entry_ok (conf_st c) m"
    and "\<And>v st. keeps {} (conf_st c) st \<Longrightarrow> wf_calc st \<Longrightarrow> menu_is_visible m (conf_st c) = Some (v, st) \<Longrightarrow> Q v (c\<lparr>conf_st := st\<rparr>)"
  shows "wp b (on_config (menu_is_visible m)) c Q"
proof -
  obtain v st where "menu_is_visible m (conf_st c) = Some (v, st)" "keeps {} (conf_st c) st" "wf_calc st"
    using menu_is_visible_ok[of "conf_st c" m cs] assms(1,2) by (auto simp: trees_ok_def)
  then show ?thesis using assms(3) by (simp add: wp_on_config)
qed

lemma find_def_menu_ok:
  assumes "trees_ok (conf_st c) par p ts" "length ts < n"
  shows "wp {} (find_def_menu n ds p d) c (\<lambda>r c'. (r = d \<or> (\<exists>k us es vs. r = Some k \<and> ts = us @ Entry k es # vs)) \<and>
    (\<exists>st. c' = c\<lparr>conf_st := st\<rparr> \<and> keeps {} (conf_st c) st \<and> wf_calc st))"
  using assms
proof (induction ts arbitrary: c p n d rule: mtrees_induct)
  case Nil
  obtain j where n: "n = Suc j" using Nil(2) by (cases n) auto
  have p: "p = None" "wf_calc (conf_st c)" using Nil(1) by (simp_all add: trees_ok_def)
  have "c = c\<lparr>conf_st := conf_st c\<rparr>" by simp
  then have "\<exists>st. c = c\<lparr>conf_st := st\<rparr> \<and> keeps {} (conf_st c) st \<and> wf_calc st" using p(2) keeps_refl by blast
  then show ?case unfolding n p(1) find_def_menu.simps wp_basic by blast
next
  case (Cons m cs ts)
  obtain j where n: "n = Suc j" "length ts < j" using Cons.prems(2) by (cases n) auto
  note t = trees_ok_Cons[OF Cons.prems(1)]
  show ?case
    unfolding n t(1) find_def_menu.simps wp_basic
  proof (rule wp_visible[OF t(3,2)])
    fix v st assume st: "keeps {} (conf_st c) st" "wf_calc st"
    let ?c = "c\<lparr>conf_st := st\<rparr>"
    let ?d = "if v \<and> menu_sym (menus st m) = ds then Some m else d"
    have "trees_ok (conf_st ?c) par (menu_next (menus st m)) ts"
      using trees_ok_keeps[OF st t(4)] keeps_links(2)[OF st(1)] by simp
    from Cons.IH(2)[OF this n(2), of ?d]
    have "wp {} (find_def_menu j ds (menu_next (menus st m)) ?d) ?c (\<lambda>r c'. (r = d \<or> (\<exists>k us es vs. r = Some k \<and>
        Entry m cs # ts = us @ Entry k es # vs)) \<and> (\<exists>st. c' = c\<lparr>conf_st := st\<rparr> \<and> keeps {} (conf_st c) st \<and> wf_calc st))"
    proof (rule wp_weaken, elim conjE exE)
      fix r c' st'
      assume r: "r = ?d \<or> (\<exists>k us es vs. r = Some k \<and> ts = us @ Entry k es # vs)"
        and c': "c' = ?c\<lparr>conf_st := st'\<rparr>" "keeps {} (conf_st ?c) st'" "wf_calc st'"
      have "keeps {} (conf_st c) st'" using c'(2) keeps_trans[OF st(1)] by simp
      moreover have "c' = c\<lparr>conf_st := st'\<rparr>" using c'(1) by simp
      moreover have "r = d \<or> (\<exists>k us es vs. r = Some k \<and> Entry m cs # ts = us @ Entry k es # vs)"
        using r by (metis append_Cons append_Nil)
      ultimately show "(r = d \<or> (\<exists>k us es vs. r = Some k \<and> Entry m cs # ts = us @ Entry k es # vs)) \<and>
          (\<exists>st. c' = c\<lparr>conf_st := st\<rparr> \<and> keeps {} (conf_st c) st \<and> wf_calc st)"
        using c'(3) by blast
    qed
    then show "wp {} (ask_config (\<lambda>st. menus st m)) ?c (\<lambda>x v'. wp {} (find_def_menu j ds (menu_next x)
        (if v \<and> menu_sym x = ds then Some m else d)) v' (\<lambda>r c'. (r = d \<or> (\<exists>k us es vs. r = Some k \<and>
        Entry m cs # ts = us @ Entry k es # vs)) \<and> (\<exists>st. c' = c\<lparr>conf_st := st\<rparr> \<and> keeps {} (conf_st c) st \<and> wf_calc st)))"
      by simp
  qed
qed

lemma indented_grows:
  assumes "wp b p (c\<lparr>mc_indent := mc_indent c + d\<rparr>) (\<lambda>_ c'. \<exists>xs. grown (c\<lparr>mc_indent := mc_indent c + d\<rparr>) xs c' \<and> G xs)"
  shows "wp b (indented_by d p) c (\<lambda>_ c'. \<exists>xs. grown c xs c' \<and> G xs)"
  unfolding indented_by_def wp_basic
  by (rule wp_weaken[OF assms]) (auto simp: grown_def same_session_def)

lemma grown_from:
  assumes "keeps {} (conf_st c) st" "child_count c \<le> k" "grown (c\<lparr>conf_st := st, child_count := k\<rparr>) xs c'"
  shows "grown c xs c'"
  using assms keeps_trans[OF assms(1)] by (simp add: grown_def same_session_def)

text \<open>The items for a list of entries; the due ones of the list itself are among them.\<close>

definition shows_all :: "mconf_vars \<Rightarrow> mtree list \<Rightarrow> mconf_vars \<Rightarrow> bool" where
  "shows_all c ts c' \<longleftrightarrow> (\<exists>xs. grown c xs c' \<and> subseq xs (pre_list ts) \<and>
     (\<forall>us k es vs. ts = us @ Entry k es # vs \<longrightarrow> due_item c k \<longrightarrow> k \<in> set xs))"

lemma build_entries_grow:
  assumes "trees_ok (conf_st c) par p ts" "at_end (scr c)" "2 * length (pre_list ts) < n"
    and "\<And>j c m cs. j < n \<Longrightarrow> trees_ok (conf_st c) (Some m) (menu_list (menus (conf_st c) m)) cs \<Longrightarrow> entry_ok (conf_st c) m \<Longrightarrow>
      at_end (scr c) \<Longrightarrow> 2 * length (pre_list cs) + 1 < j \<Longrightarrow>
      wp {} (build_conf j m) c (\<lambda>_ c'. \<exists>xs. grown c xs c' \<and> subseq xs (m # pre_list cs) \<and> (due_item c m \<longrightarrow> m \<in> set xs))"
  shows "wp {} (build_entries n p) c (\<lambda>_. shows_all c ts)"
  using assms
proof (induction ts arbitrary: c p n rule: mtrees_induct)
  case Nil
  obtain j where n: "n = Suc j" using Nil(3) by (cases n) auto
  have p: "p = None" "wf_calc (conf_st c)" using Nil(1) by (simp_all add: trees_ok_def)
  show ?case unfolding n p(1) build_entries.simps wp_basic using grown_refl[OF p(2) Nil(2)] by (auto simp: shows_all_def)
next
  case (Cons m cs ts)
  obtain j where n: "n = Suc j" "2 * length (pre_list cs) + 1 < j" "2 * length (pre_list ts) < j"
    using Cons.prems(3) by (cases n) auto
  note t = trees_ok_Cons[OF Cons.prems(1)]
  show ?case
    unfolding n t(1) build_entries.simps wp_basic
  proof (rule wp_weaken[OF Cons.prems(4)[of j, OF _ t(3,2) Cons.prems(2) n(2)]], simp add: n)
    fix x c1 assume "\<exists>xs. grown c xs c1 \<and> subseq xs (m # pre_list cs) \<and> (due_item c m \<longrightarrow> m \<in> set xs)"
    then obtain xs where xs: "grown c xs c1" "subseq xs (m # pre_list cs)" "due_item c m \<longrightarrow> m \<in> set xs" by blast
    then have k: "keeps {} (conf_st c) (conf_st c1)" "wf_calc (conf_st c1)" "at_end (scr c1)" "same_session c c1"
      by (simp_all add: grown_def) (simp_all add: same_session_def)
    have "trees_ok (conf_st c1) par (menu_next (menus (conf_st c1) m)) ts"
      using trees_ok_keeps[OF k(1,2) t(4)] keeps_links(2)[OF k(1)] by simp
    from Cons.IH(2)[OF this k(3) n(3)] Cons.prems(4)
    have "wp {} (build_entries j (menu_next (menus (conf_st c1) m))) c1 (\<lambda>_. shows_all c1 ts)"
      by (simp add: n)
    then have "wp {} (build_entries j (menu_next (menus (conf_st c1) m))) c1 (\<lambda>_. shows_all c (Entry m cs # ts))"
    proof (rule wp_weaken)
      fix y c' assume "shows_all c1 ts c'"
      then obtain ys where ys: "grown c1 ys c'" "subseq ys (pre_list ts)" "\<forall>us k es vs. ts = us @ Entry k es # vs \<longrightarrow> due_item c1 k \<longrightarrow> k \<in> set ys"
        unfolding shows_all_def by blast
      have "subseq (xs @ ys) ((m # pre_list cs) @ pre_list ts)" by (rule list_emb_append_mono[OF xs(2) ys(2)])
      moreover have "k \<in> set (xs @ ys)" if "Entry m cs # ts = us @ Entry k es # vs" "due_item c k" for us k es vs
        using that xs(3) ys(3) due_item_later[OF k(4) that(2)] by (cases us) auto
      ultimately show "shows_all c (Entry m cs # ts) c'"
        unfolding shows_all_def using grown_trans[OF xs(1) ys(1)] by (intro exI[of _ "xs @ ys"]) simp
    qed
    then show "wp {} (ask_config (\<lambda>st. menu_next (menus st m))) c1 (\<lambda>x v. wp {} (build_entries j x) v
        (\<lambda>_. shows_all c (Entry m cs # ts)))"
      by simp
  qed
qed

lemma visible_has_prompt: "menu_is_visible m st = Some (True, st') \<Longrightarrow> menu_has_prompt m st"
  by (auto simp: menu_is_visible_def menu_has_prompt_def split: option.splits)

lemma roots_le_entries: "length ts \<le> length (pre_list ts)"
  by (induction ts rule: mtrees_induct) auto

lemma wp_count_child [simp]: "wp b count_child c Q \<longleftrightarrow> Q () (c\<lparr>child_count := child_count c + 1\<rparr>)"
  by (simp add: count_child_def)

lemma choice_value_adds:
  "scr c = adding xs i u \<Longrightarrow> choice_mark m i \<Longrightarrow>
   wp b (choice_value_shown k) c (\<lambda>_ c'. \<exists>i. choice_mark m i \<and> c' = c\<lparr>scr := adding xs i u\<rparr>)"
proof -
  assume "scr c = adding xs i u" "choice_mark m i"
  moreover have "choice_mark m j \<Longrightarrow> \<exists>i. choice_mark m i \<and> c\<lparr>scr := adding xs j u\<rparr> = c\<lparr>scr := adding xs i u\<rparr>" for j by blast
  ultimately show ?thesis
    unfolding choice_value_shown_def by (simp add: wp_items) (simp add: choice_mark_def)
qed

definition shows_part :: "mconf_vars \<Rightarrow> nat \<Rightarrow> mtree list \<Rightarrow> mconf_vars \<Rightarrow> bool" where
  "shows_part c m cs c' \<longleftrightarrow> (\<exists>xs. grown c xs c' \<and> subseq xs (m # pre_list cs) \<and> (due_item c m \<longrightarrow> m \<in> set xs) \<and>
     (entered c m \<longrightarrow> (\<forall>us k es vs. cs = us @ Entry k es # vs \<longrightarrow> due_item c k \<longrightarrow> k \<in> set xs)))"

lemma shows_part_once:
  "grown c xs c' \<Longrightarrow> xs = [m] \<or> xs = [] \<and> \<not> due_item c m \<Longrightarrow> \<not> entered c m \<Longrightarrow> shows_part c m cs c'"
  unfolding shows_part_def by (intro exI[of _ xs]) auto

lemma grown_session: "grown c xs c1 \<Longrightarrow> same_session c c1"
  by (simp add: grown_def)

lemma shows_part_rest:
  assumes "grown c xs c1" "xs = [m] \<or> xs = [] \<and> \<not> due_item c m" "shows_all c1 cs c'"
  shows "shows_part c m cs c'"
proof -
  obtain ys where ys: "grown c1 ys c'" "subseq ys (pre_list cs)"
    "\<forall>us k es vs. cs = us @ Entry k es # vs \<longrightarrow> due_item c1 k \<longrightarrow> k \<in> set ys"
    using assms(3) unfolding shows_all_def by blast
  have "subseq (xs @ ys) (m # pre_list cs)" using assms(2) ys(2) by auto
  moreover have "\<forall>us k es vs. cs = us @ Entry k es # vs \<longrightarrow> due_item c k \<longrightarrow> k \<in> set (xs @ ys)"
    using ys(3) due_item_later[OF grown_session[OF assms(1)]] by auto
  ultimately show ?thesis
    using grown_trans[OF assms(1) ys(1)] assms(2) unfolding shows_part_def by (intro exI[of _ "xs @ ys"]) auto
qed

text \<open>The entries below the value of a choice.\<close>

lemma shows_part_value:
  assumes "grown c [m] c1" "grown c1 ys c'" "subseq ys (pre_list cs)" "\<not> entered c m"
  shows "shows_part c m cs c'"
  unfolding shows_part_def
  by (intro exI[of _ "m # ys"]) (use assms grown_trans[OF assms(1,2)] in auto)

lemma indented_all:
  assumes "wp b p (c\<lparr>mc_indent := mc_indent c + d\<rparr>) (\<lambda>_. shows_all (c\<lparr>mc_indent := mc_indent c + d\<rparr>) ts)"
  shows "wp b (indented_by d p) c (\<lambda>_. shows_all c ts)"
  using assms unfolding shows_all_def[abs_def] due_item_indent by (rule indented_grows)

lemma subseq_middle: "subseq xs (us @ xs @ vs)"
  by (simp add: list_emb_append2 subseq_rev_drop_many)

lemma build_conf_grows:
  "trees_ok (conf_st c) (Some m) (menu_list (menus (conf_st c) m)) cs \<Longrightarrow> entry_ok (conf_st c) m \<Longrightarrow> at_end (scr c) \<Longrightarrow>
   2 * length (pre_list cs) + 1 < n \<Longrightarrow> wp {} (build_conf n m) c (\<lambda>_. shows_part c m cs)"
proof (induction n arbitrary: c m cs rule: less_induct)
  case (less n)
  obtain j where n: "n = Suc j" "2 * length (pre_list cs) < j" using less.prems(4) by (cases n) auto
  have entries: "wp {} (build_entries j p) c (\<lambda>_. shows_all c ts)"
    if "trees_ok (conf_st c) par p ts" "at_end (scr c)" "2 * length (pre_list ts) < j" for c par p ts
  proof (rule build_entries_grow[OF that])
    fix i k and d :: mconf_vars and es :: "mtree list"
    assume "i < j" "trees_ok (conf_st d) (Some k) (menu_list (menus (conf_st d) k)) es" "entry_ok (conf_st d) k" "at_end (scr d)"
      "2 * length (pre_list es) + 1 < i"
    then have "wp {} (build_conf i k) d (\<lambda>_. shows_part d k es)" using n(1) by (intro less.IH) simp_all
    then show "wp {} (build_conf i k) d (\<lambda>_ c'. \<exists>xs. grown d xs c' \<and> subseq xs (k # pre_list es) \<and> (due_item d k \<longrightarrow> k \<in> set xs))"
      by (rule wp_weaken) (auto simp: shows_part_def)
  qed
  show ?case
    unfolding n build_conf.simps wp_basic
  proof (rule wp_visible[OF less.prems(1,2)])
    fix v st assume st: "keeps {} (conf_st c) st" "wf_calc st" "menu_is_visible m (conf_st c) = Some (v, st)"
    let ?c = "c\<lparr>conf_st := st\<rparr>" let ?l = "menu_list (menus st m)"
    have start: "grown c xs c'" if "grown (?c\<lparr>child_count := k\<rparr>) xs c'" "child_count c \<le> k" for xs c' k
      using grown_from[OF st(1) that(2)] that(1) by simp
    have start0: "grown c xs c'" if "grown ?c xs c'" for xs c' using start[of "child_count c"] that by simp
    have l: "?l = menu_list (menus (conf_st c) m)" using keeps_links(1)[OF st(1)] by simp
    have below: "wp {} (indented_by d (build_entries j ?l)) c1 (\<lambda>_. shows_part c m cs)"
      if c1: "grown c xs c1" "xs = [m] \<or> xs = [] \<and> \<not> due_item c m" for d c1 xs
    proof -
      have k: "keeps {} (conf_st c) (conf_st c1)" "wf_calc (conf_st c1)" "at_end (scr c1)"
        using c1(1) by (simp_all add: grown_def same_session_def)
      have "trees_ok (conf_st c1) (Some m) ?l cs" using trees_ok_keeps[OF k(1,2) less.prems(1)] l by simp
      then have "wp {} (build_entries j ?l) (c1\<lparr>mc_indent := mc_indent c1 + d\<rparr>) (\<lambda>_. shows_all (c1\<lparr>mc_indent := mc_indent c1 + d\<rparr>) cs)"
        using k(3) n(2) by (intro entries[of _ "Some m"]) simp_all
      from indented_all[OF this] show ?thesis by (rule wp_weaken) (rule shows_part_rest[OF c1])
    qed
    have at: "at_end (scr ?c)" using less.prems(3) by simp
    have same: "same_session c ?c" using st(1,2) by (simp add: same_session_def)
    have none: "grown c [] ?c" using start0[of "[]"] grown_refl[of ?c] st(2) less.prems(3) by simp
    have after: "wp {} (after_item (\<lambda>d. indented_by d (build_entries j ?l)) p) ?c (\<lambda>_. shows_part c m cs)"
      if "wp {} p ?c (shown_once ?c m)" for p
      unfolding after_item_def wp_basic
    proof (rule wp_weaken[OF that])
      fix r :: "int option" and c1 assume r: "shown_once ?c m r c1"
      then obtain xs where xs: "grown c xs c1" "xs = [m] \<or> xs = [] \<and> \<not> due_item c m"
        using start0 due_item_later[OF same, of m] by (auto simp: shown_once_def)
      have "r = None \<Longrightarrow> \<not> entered c m" using r by (auto simp: shown_once_def entered_def)
      then show "wp {} (case r of None \<Rightarrow> give () | Some d \<Rightarrow> indented_by d (build_entries j ?l)) c1 (\<lambda>_. shows_part c m cs)"
        using below[OF xs] shows_part_once[OF xs] by (simp split: option.split)
    qed
    have choice: "wp {} (choice_entry j (build_conf j) (indented_by 2 (build_entries j ?l)) m s) ?c (\<lambda>_. shows_part c m cs)"
      if s: "menu_sym (menus st m) = Some s" "sym_is_choice (syms st s)" and hp: "menu_has_prompt m st" for s
    proof -
      let ?c1 = "?c\<lparr>child_count := child_count ?c + 1\<rparr>"
      have ty: "sym_get_type s st = S_BOOLEAN \<or> sym_get_type s st = S_TRISTATE"
        using choice_type[OF choice_types_keeps[OF st(1)] s(2)] less.prems(1) by (simp add: trees_ok_def)
      have tr: "trees_ok (conf_st ?c1) (Some m) ?l cs" using trees_ok_keeps[OF st(1,2) less.prems(1)] l by simp
      have fuel: "length cs < j" using n(2) roots_le_entries[of cs] by linarith
      have one: "grown c [m] (?c1\<lparr>conf_st := st2, scr := adding (items (scr c)) i (scr c)\<rparr>)"
        if k: "keeps {} st st2" and w: "wf_calc st2" and i: "choice_mark m i" for st2 i
      proof -
        obtain tag where tag: "item_for m tag i" "tag \<in> set '':t''" using choice_mark_item[OF i] by blast
        let ?d = "c\<lparr>conf_st := st2\<rparr>"
        have "grown ?d [m] (?d\<lparr>child_count := child_count c + 1, scr := adding (items (scr ?d)) i (scr c)\<rparr>)"
          by (rule grown_one[OF _ _ tag(1)])
            (use w tag(2) hp s(1) keeps_menus(2,3)[OF k, of m] in \<open>auto simp: menu_has_prompt_def\<close>)
        moreover have "?c1\<lparr>conf_st := st2, scr := adding (items (scr c)) i (scr c)\<rparr> =
            ?d\<lparr>child_count := child_count c + 1, scr := adding (items (scr ?d)) i (scr c)\<rparr>"
          by simp
        ultimately show ?thesis
          using grown_from[of c st2 "child_count c" "[m]"] keeps_trans[OF st(1) k] by (simp only:) simp
      qed
      have e: "conf_st ?c = st" by simp
      have out: "\<not> entered c m"
        using s keeps_menus(2)[OF st(1), of m] keeps_fields[OF st(1)] by (simp add: entered_def sym_is_choice_def)
      show ?thesis
        unfolding choice_entry_def wp_basic wp_ask_config prod.case wp_count_child e
        apply (rule wp_weaken[OF find_def_menu_ok[of ?c1 "Some m" ?l cs]])
        subgoal using tr by simp
        subgoal using fuel .
        apply (elim conjE exE)
        subgoal premises p for d c2 st2
          apply (rule wp_weaken[OF choice_item_shown])
          subgoal using p(2) at by simp
          subgoal using ty by simp
          apply (elim conjE exE)
          subgoal premises q for val c3 i
          proof -
            have k2: "keeps {} st st2" using p(3) by simp
            have c3: "grown c [m] c3" "scr c3 = adding (items (scr c)) i (scr c)"
              using one[OF k2 p(4) q(2)] q(3) p(2) by simp_all
            have only: "wp {} (choice_value_shown k) c3 (\<lambda>_ c4. grown c [m] c4 \<and> conf_st c4 = conf_st c3)" for k
              by (rule wp_weaken[OF choice_value_adds[OF c3(2) q(2)]]) (use one[OF k2 p(4)] q(3) p(2) in auto)
            show ?thesis
              apply (rule wp_if)
              subgoal
                apply (cases d)
                subgoal using shows_part_once[OF c3(1)] out by simp
                subgoal premises d for k
                  unfolding d(2) option.case wp_basic wp_ask_config
                  apply (rule wp_weaken[OF only])
                  apply (rule wp_if)
                  subgoal premises r for x c4 using r(1) shows_part_once[of c "[m]"] out by simp
                  subgoal premises r for x c4
                  proof -
                    obtain us es vs where cs: "cs = us @ Entry k es # vs" using p(1) d(2) by auto
                    have k4: "keeps {} (conf_st c) (conf_st c4)" "wf_calc (conf_st c4)" "at_end (scr c4)"
                      using conjunct1[OF r(1)] by (simp_all add: grown_def same_session_def)
                    have "entry_ok (conf_st c4) k \<and> trees_ok (conf_st c4) (Some k) (menu_list (menus (conf_st c4) k)) es"
                      using trees_ok_child[of "conf_st c4" "Some m" _ us k es vs] trees_ok_keeps[OF k4(1,2) less.prems(1)] cs by simp
                    then have "wp {} (build_conf j k) (c4\<lparr>mc_indent := mc_indent c4 + 2\<rparr>)
                        (\<lambda>_. shows_part (c4\<lparr>mc_indent := mc_indent c4 + 2\<rparr>) k es)"
                      using k4(3) n cs by (intro less.IH) auto
                    then have "wp {} (indented_by 2 (build_conf j k)) c4 (\<lambda>_ c'. \<exists>ys. grown c4 ys c' \<and> subseq ys (k # pre_list es))"
                      by (intro indented_grows) (erule wp_weaken, auto simp: shows_part_def)
                    then show ?thesis
                    proof (rule wp_weaken)
                      fix y c' assume "\<exists>ys. grown c4 ys c' \<and> subseq ys (k # pre_list es)"
                      then obtain ys where ys: "grown c4 ys c'" "subseq ys (k # pre_list es)" by blast
                      have "subseq (k # pre_list es) (pre_list cs)"
                        using subseq_middle[of "k # pre_list es" "pre_list us" "pre_list vs"] by (simp add: cs)
                      then show "shows_part c m cs c'"
                        using r(1) ys out by (intro shows_part_value[of c m c4 ys]) (auto intro: subseq_order.order_trans)
                    qed
                  qed
                  done
                done
              subgoal by (rule below[OF c3(1)]) simp
              done
          qed
          done
        done
    qed
    show "wp {} (let x = menus (conf_st (id ?c)) m; below = \<lambda>d. indented_by d (build_entries j (menu_list x)) in
        if if show_all_options (id ?c) then menu_has_prompt m (conf_st (id ?c)) else v then
          (case menu_sym x of
             None \<Rightarrow> after_item below (plain_item m)
           | Some s \<Rightarrow>
               if sym_is_choice (syms (conf_st (id ?c)) s) then choice_entry j (build_conf j) (below 2) m s
               else after_item below (symbol_item m s))
        else give ()) ?c (\<lambda>_. shows_part c m cs)"
      unfolding Let_def id_apply
    proof (rule wp_if)
      assume shown: "if show_all_options ?c then menu_has_prompt m (conf_st ?c) else v"
      have hp: "menu_has_prompt m st"
        using shown visible_has_prompt[of m "conf_st c" st] st(3) keeps_menus(3)[OF st(1), of m]
        by (auto simp: menu_has_prompt_def split: if_splits)
      have sym: "wp {} (symbol_item m s) ?c (shown_once ?c m)" if "menu_sym (menus st m) = Some s" for s
        by (rule wp_weaken[OF symbol_item_shown]) (use that st(2) at hp in \<open>simp_all add: shown_once_def\<close>)
      show "wp {} (case menu_sym (menus (conf_st ?c) m) of
             None \<Rightarrow> after_item (\<lambda>d. indented_by d (build_entries j (menu_list (menus (conf_st ?c) m)))) (plain_item m)
           | Some s \<Rightarrow>
               if sym_is_choice (syms (conf_st ?c) s)
               then choice_entry j (build_conf j) (indented_by 2 (build_entries j (menu_list (menus (conf_st ?c) m)))) m s
               else after_item (\<lambda>d. indented_by d (build_entries j (menu_list (menus (conf_st ?c) m)))) (symbol_item m s))
           ?c (\<lambda>_. shows_part c m cs)"
        using choice hp after[OF plain_item_shown] after[OF sym] st(2) at by (simp split: option.split)
    next
      assume "\<not> (if show_all_options ?c then menu_has_prompt m (conf_st ?c) else v)"
      moreover have "visible_always (conf_st c) m \<Longrightarrow> v"
        using st(3) keeps_refl less.prems(1) unfolding visible_always_def trees_ok_def by force
      ultimately have "\<not> displayed c m"
        using keeps_menus(3)[OF st(1), of m] by (auto simp: displayed_def menu_has_prompt_def split: if_splits)
      then show "wp {} (give ()) ?c (\<lambda>_. shows_part c m cs)"
        using shows_part_once[OF none] by (simp add: due_item_def entered_def)
    qed
  qed
qed

lemma subseq_distinct: "subseq xs ys \<Longrightarrow> distinct ys \<Longrightarrow> distinct xs"
  by (auto simp: subseq_conv_nths)


text \<open>The list of the entry for \<^verbatim>\<open>FOO\<close> of the example, which has the one for \<^verbatim>\<open>BAR\<close> below it.\<close>

definition ex_mconf :: mconf_vars where
  "ex_mconf = \<lparr>scr = ex_ui, conf_st = ex_menu_state, conf_files = \<lparr>w_files = (\<lambda>_. None), w_dirs = (\<lambda>_. True)\<rparr>, mc_indent = 0, current_menu = Some 1,
     child_count = 0, single_menu_mode = False, show_all_options = True, config_filename = [], unrolled = (\<lambda>_. False)\<rparr>"

lemma ex_mconf_choices: "choice_types ex_menu_state"
proof -
  have "\<not> sym_is_choice (syms ex_menu_state s)" for s
    by (cases s; simp add: ex_menu_state_def sym_is_choice_def ex_syms_def zero_symbol_def)
  then show ?thesis by (simp add: choice_types_def)
qed


subsection \<open>Questions on a small screen\<close>

text \<open>
  On a screen of eight lines the dialog for a line of text returns without reading a key.  Only the escape key leaves
  the loops around it, so these go on for ever.
\<close>

lemma until_spent:
  assumes "I c" "\<And>c. I c \<Longrightarrow> \<exists>c'. p c = Done False c' \<and> I c'"
  shows "until n p c = Spent"
  using assms(1)
proof (induction n arbitrary: c)
  case (Suc n)
  obtain c' where "p c = Done False c'" "I c'" using assms(2)[OF Suc.prems] by blast
  then show ?case using Suc.IH[of c'] by (simp add: act_defs)
qed (simp add: act_defs)

definition small_screen :: "mconf_vars \<Rightarrow> bool" where
  "small_screen c \<longleftrightarrow> LINES (scr c) \<le> 8 \<and> length (input_result (scr c)) = MAX_LEN + 1"

lemma ask_line_small:
  assumes "small_screen c" "length init \<le> MAX_LEN" "10 \<le> h"
    and "\<And>c'. small_screen c' \<Longrightarrow> conf_st c' = conf_st c \<Longrightarrow> config_filename c' = config_filename c \<Longrightarrow> I c'"
  shows "\<exists>c'. ask_line E title header h w init answer help c = Done False c' \<and> I c'"
proof -
  have "wp {} (ask_line E title header h w init answer help) c (\<lambda>stop c'. \<not> stop \<and> I c')"
    unfolding ask_line_def wp_basic wp_on_screen
    by (rule wp_draws[OF draws_dialog_clear])
      (use assms in \<open>simp add: dialog_inputbox_def strcpy_input_def wp_done input_layout_def small_screen_def key_defs\<close>)
  then show ?thesis by (rule wpE) auto
qed

lemma andthen_peek: "andthen (peek f) g c = g (f c) c"
  by (simp add: act_defs)

lemma small_screen_endless:
  assumes "small_screen c" "length (config_filename c) \<le> MAX_LEN"
  shows "mconf_load n E c = Spent" "mconf_save n E c = Spent"
    "menu_sym (menus (conf_st c) m) = Some s \<Longrightarrow> length (sym_get_string_value (syms (conf_st c) s)) \<le> MAX_LEN \<Longrightarrow>
     mconf_string n E m c = Spent"
proof -
  let ?I = "\<lambda>d. small_screen d \<and> length (config_filename d) \<le> MAX_LEN"
  have c: "?I c" using assms by simp
  have "\<exists>d'. load_question E d = Done False d' \<and> ?I d'" "\<exists>d'. save_question E d = Done False d' \<and> ?I d'" if "?I d" for d
    unfolding load_question_def save_question_def andthen_peek
     apply (rule ask_line_small; use that in simp)
    apply (rule ask_line_small; use that in simp)
    done
  then show "mconf_load n E c = Spent" "mconf_save n E c = Spent"
    unfolding mconf_load_def mconf_save_def using until_spent[of ?I c, OF c] by simp_all
  assume s: "menu_sym (menus (conf_st c) m) = Some s" "length (sym_get_string_value (syms (conf_st c) s)) \<le> MAX_LEN"
  let ?J = "\<lambda>d. small_screen d \<and> conf_st d = conf_st c"
  have "\<exists>d'. string_question E m p d = Done False d' \<and> ?J d'" if d: "?J d" for p d
  proof -
    have "menu_sym (menus (conf_st d) m) = Some s" using d s(1) by simp
    then show ?thesis
      unfolding string_question_def ask_config_def andthen_peek id_apply
      by (simp only: option.case) (rule ask_line_small; use d s in simp)
  qed
  then show "mconf_string n E m c = Spent"
    unfolding mconf_string_def ask_config_def andthen_peek using until_spent[of ?J c] assms(1) by simp
qed

end
