(* ===== verification/Spec2Isabelle.thy ===== *)
theory Spec2Isabelle
  imports ExprProps SymRange Fixdep FakedMain FakedNet FakeFilter LibProps LibIds ConfProps MenuFinalize ConfQuiet KxGettext DialogList DialogText MconfItems
begin

text \<open>
  Verification library of the mkrootfs repository, which builds root file systems: a Kconfig
  engine decides what is built, \<^verbatim>\<open>fixdep\<close> turns the dependency files of the compiler into
  dependencies on single configuration symbols, and \<^verbatim>\<open>fakeroot\<close> lets an unprivileged build own
  files as root.  All paths below are under \<^verbatim>\<open>src/build-tools\<close>.

  \<^bold>\<open>The Kconfig engine\<close> (\<^verbatim>\<open>kconfig\<close>).  The parser builds symbols, properties and menu entries; the
  front ends read a configuration, set values and write the configuration.  A pointer to a symbol
  is a \<open>symptr\<close>, one to a property or an entry a number, and all static variables are fields of one
  record \<open>kstate\<close>, which every operation takes and returns.  \<open>None\<close> stands for a null pointer that
  is followed, an overflow of a buffer, or a loop that does not end.

    \<^item> \<open>Kconfig_Data\<close> (\<^verbatim>\<open>expr.h\<close>): expressions, symbols, properties, entries; \<open>Expr\<close> (\<^verbatim>\<open>expr.c\<close>): the
      construction, comparison, simplification and printing of expressions.  \<open>ExprSem\<close> gives the
      value an expression has over calculated symbols; \<open>ExprDups\<close> and \<open>ExprElim\<close> show what the
      elimination of duplicates preserves, with locales for a relation that a whole pass satisfies
      when each joining step does, interpreted on the shape of the tree, its value, and the number
      of constants, from which the loop ends.  \<open>ExprProps\<close> holds the properties.
    \<^item> \<open>KState\<close>, \<open>SymCalc\<close>, \<open>SymOps\<close> (\<^verbatim>\<open>symbol.c\<close>): the state, the calculation of values, and the
      operations of the front ends.  \<open>SymContract\<close> states what a calculation promises as a locale,
      \<open>SymTotal\<close> and \<open>SymSpec\<close> prove the functions of the calculation under that contract and
      interpret it on \<open>calc_value\<close>: for a table as the parser leaves it, every calculation returns,
      even for recursive dependencies, and refines an abstract definition of the value.  \<open>SymTable\<close>
      has the invariant of the hash table of names, \<open>SymSet\<close>, \<open>SymProps\<close> and \<open>SymRange\<close> what setting
      values does.
    \<^item> \<open>ConfRead\<close> and \<open>ConfWrite\<close> (\<^verbatim>\<open>confdata.c\<close>), over the file system of \<open>World\<close>: reading and writing
      configurations.  \<open>ConfProps\<close>: what is written is read back, the split configuration is touched
      only for changed symbols, a failed write keeps the old file.
    \<^item> \<open>Menu\<close> (\<^verbatim>\<open>menu.c\<close>): building the entries, \<open>menu_finalize\<close> and the queries.  \<open>MenuTree\<close> reads the
      links of the entries as trees, and shows that \<open>conf_write\<close> visits each entry once, in preorder;
      \<open>MenuFinalize\<close> that \<open>menu_finalize\<close> returns and keeps the preorder while it moves entries, \<open>MenuVisible\<close>
      that the visibility of an entry can always be decided.
    \<^item> \<open>Conf\<close> (\<^verbatim>\<open>conf.c\<close>) with \<open>MenuHelp\<close> (the help texts of \<^verbatim>\<open>menu.c\<close>): the front end that asks on standard
      input.  A program returns, exits, crashes or has used up its fuel.  \<open>ConfFrame\<close> has a locale for
      what the questions leave alone, interpreted on the files, the mode and the memory in front of
      the line; \<open>ConfAsk\<close> shows which questions end and what an answer sets, \<open>ConfQuiet\<close> that nothing is
      asked when nothing is new, and that the files are written at the end only.
    \<^item> \<open>KxGettext\<close> (\<^verbatim>\<open>kxgettext.c\<close>): the program that collects the texts of the menus for translation; each
      text of an entry is in its output with all its places, and the escaped form reads back as the text.
    \<^item> \<open>Dialog\<close> (\<^verbatim>\<open>lxdialog/util.c\<close>, \<^verbatim>\<open>dialog.h\<close>): the screen, the colours and the list of items of the dialogs.
      An action takes the state \<open>ui\<close> and is done, follows a bad pointer, waits for a key or has used up its fuel;
      \<open>wp\<close> states what it ensures.  Curses is a record of parameters, and what is drawn a list of calls.
      \<open>DialogInput\<close> (\<^verbatim>\<open>inputbox.c\<close>, \<^verbatim>\<open>yesno.c\<close>), \<open>DialogMenu\<close> (\<^verbatim>\<open>menubox.c\<close>), \<open>DialogList\<close>
      (\<^verbatim>\<open>checklist.c\<close>) and \<open>DialogText\<close> (\<^verbatim>\<open>textbox.c\<close>): the dialogs, key by key.  A line holds what was typed,
      a menu and a list of values return with exactly one item selected, and a page of a text is found
      again; and the cases in which a change of the size or a missing newline breaks this.
    \<^item> \<open>MconfTexts\<close>, \<open>Mconf\<close> (\<^verbatim>\<open>mconf.c\<close>): the front end over these dialogs.  Its state has the screen, the configuration
      and the files.  \<open>MconfItems\<close>: the list of items of a menu shows entries of its tree in their order,
      each once, and none that is displayed in the menu itself is missing; the questions for a line of
      text do not end on a screen that is too small.
    \<^item> \<open>KFiles\<close> (\<^verbatim>\<open>util.c\<close>): the list of source files and the text of the file of dependencies.

  \<^bold>\<open>fixdep\<close> (\<^verbatim>\<open>basic/fixdep.c\<close>): \<open>Fixdep\<close> models the search for \<^verbatim>\<open>CONFIG_\<close> names, the set of names already
  reported, and the parser of the dependency file.

  \<^bold>\<open>fakeroot\<close> (\<^verbatim>\<open>fakeroot-1.14.4\<close>).  \<open>Fakestat\<close> (\<^verbatim>\<open>message.h\<close>, \<^verbatim>\<open>communicate.c\<close>): messages, their wire format
  and the files they describe, at the widths of the code.  \<open>FakedTable\<close> (\<^verbatim>\<open>faked.c\<close>): the hash table of
  known files, with a locale for a table of records by key that \<open>FakedProps\<close> interprets on it.  \<open>Faked\<close>:
  the handlers of the requests and the receiving loop; \<open>FakedProps\<close>: the effect of each request and the
  invariant of the daemon.  \<open>FakedDb\<close>: saving and loading the database.  \<open>FakedClient\<close>: the functions that
  send requests and wait for the reply, composed with the daemon.

    \<^item> \<open>FakeIds\<close> and \<open>LibFakeroot\<close> (\<^verbatim>\<open>libfakeroot.c\<close>): the identities a process believes to have, and the
      functions that replace those of the C library in every program of the build; the functions they
      call in turn are a record of parameters over a world.  \<open>LibProps\<close> composes them with the client and
      the daemon: what \<^verbatim>\<open>stat\<close> shows after \<^verbatim>\<open>chown\<close>, \<^verbatim>\<open>chmod\<close>, \<^verbatim>\<open>mknod\<close> and \<^verbatim>\<open>unlink\<close>, and when the daemon is told.
      \<open>LibIds\<close>: a program started after calls of the setuid family has the identities they ask for.
    \<^item> \<open>FakedNet\<close> (\<^verbatim>\<open>communicate.c\<close>, \<^verbatim>\<open>faked.c\<close>): the TCP transport, with messages as bytes that the system splits
      at will, the loop of the daemon over its connections, and the semaphore of the System V build.
    \<^item> \<open>FakedMain\<close> (\<^verbatim>\<open>faked.c\<close>): options, start, signals and end of the daemon, and the search for the path of
      an inode; a daemon that is stopped and started again on what it saved knows the same files.
    \<^item> \<open>FakeFilter\<close> (\<^verbatim>\<open>fakeroot-filter.c\<close>): the filter that takes the records of listed files from a saved state.

  \<open>CLib\<close> holds the functions of the C library that the sources use on strings and numbers, \<open>Prelude\<close> the
  generic lemmas.

  \<^bold>\<open>Bounds.\<close>  \<open>calc_value\<close> has fuel for the symbols that are not yet valid, which is enough because a
  symbol is marked valid before its value is calculated.  The loop over duplicates has fuel for the
  size of the expression, as each pass that changes something leaves fewer operands.  Loops over
  menu entries have fuel for the number of allocated entries.  Questions have fuel for the number of
  times they are put: one more than the length of the input is enough for a boolean or tristate
  symbol, and none is for a number without a value when the input has ended.  The list of
  \<open>FakeFilter\<close> has fuel for its lines, a dialog fuel for twice the keys that are left, the list of items of a
  menu fuel for twice the number of allocated entries, the loops of \<open>Mconf\<close> fuel for their turns, an interrupted read that is repeated fuel for the events.  That these bounds suffice is proved,
  as the totality of the operations.  C integers are \<open>word\<close>s where their width matters, elsewhere
  \<open>int\<close> with the conversion \<open>int32\<close> written out.

  \<^bold>\<open>Not modelled.\<close>  The grammar and scanner of Kconfig files and the C code generated from them, so
  that the models start from the symbols and entries a parser builds; the front ends over GTK and Qt; the texts
  of warnings; in \<^verbatim>\<open>fakeroot\<close> the search for the original functions by \<^verbatim>\<open>dlsym\<close>, the wrappers of the Apple
  build, the listening socket of the TCP daemon and the mutex of its clients; the test programs and
  the build scripts.
\<close>

end
